(* ===== verification/Prelude.thy ===== *)
theory Prelude
  imports Complex_Main "HOL-Library.Char_ord" "HOL-Library.List_Lexorder"
    "HOL-Library.Product_Lexorder"
begin

text \<open>
  Shared vocabulary of the development: Python exceptions as a sum type with its bind,
  \<^verbatim>\<open>decimal.Decimal\<close> values under the default context (28 significant digits,
  \<^verbatim>\<open>ROUND_HALF_EVEN\<close>), instants, string normalisation, and keyed tables (the primary-key
  behaviour of the SQLite tables) behind an interface locale.
\<close>

section \<open>Collections of simplification rules\<close>

named_theorems dec_simps \<open>evaluation of decimal arithmetic\<close>
named_theorems res_simps \<open>evaluation of results\<close>
named_theorems enum_text \<open>round trips between enum members and their text\<close>

section \<open>Exceptions as values\<close>

text \<open>
  The exception classes the modelled code raises. Messages are kept as the constant text of
  the source; interpolated values are not expanded.
\<close>

datatype exn =
    ValueError string
  | LookupError string
  | AssertionError string
  | KeyError string
  | IntegrityError string
  | InvalidOperation string
  | ZeroDivisionError
  | TypeError string
  | OverflowError string

type_synonym 'a result = "exn + 'a"

definition rbind :: "'e + 'a \<Rightarrow> ('a \<Rightarrow> 'e + 'b) \<Rightarrow> 'e + 'b" where
  "rbind m f = (case m of Inl e \<Rightarrow> Inl e | Inr x \<Rightarrow> f x)"

definition guard :: "bool \<Rightarrow> 'e \<Rightarrow> 'e + unit" where
  "guard ok e = (if ok then Inr () else Inl e)"

definition require :: "'e \<Rightarrow> 'a option \<Rightarrow> 'e + 'a" where
  "require e x = (case x of None \<Rightarrow> Inl e | Some v \<Rightarrow> Inr v)"

lemma rbind_simps [simp, res_simps]:
  "rbind (Inl e) f = Inl e"
  "rbind (Inr x) f = f x"
  by (simp_all add: rbind_def)

lemma rbind_Inr_iff: "rbind m f = Inr y \<longleftrightarrow> (\<exists>x. m = Inr x \<and> f x = Inr y)"
  by (cases m) simp_all

lemma rbind_Inl_iff: "rbind m f = Inl e \<longleftrightarrow> m = Inl e \<or> (\<exists>x. m = Inr x \<and> f x = Inl e)"
  by (cases m) simp_all

lemma guard_Inr_iff [simp]: "guard ok e = Inr u \<longleftrightarrow> ok"
  by (simp add: guard_def)

lemma guard_Inl_iff [simp]: "guard ok e = Inl e' \<longleftrightarrow> \<not> ok \<and> e' = e"
  by (auto simp: guard_def)

lemma guard_True [simp, res_simps]: "guard True e = Inr ()"
  by (simp add: guard_def)

lemma guard_False [simp, res_simps]: "guard False e = Inl e"
  by (simp add: guard_def)

lemma require_simps [simp, res_simps]:
  "require e None = Inl e"
  "require e (Some v) = Inr v"
  by (simp_all add: require_def)

lemma require_Inr_iff [simp]: "require e x = Inr v \<longleftrightarrow> x = Some v"
  by (cases x) auto

text \<open>A loop that runs a fallible body over a list and stops at the first exception.\<close>

fun traverse :: "('a \<Rightarrow> 'e + 'b) \<Rightarrow> 'a list \<Rightarrow> 'e + 'b list" where
  "traverse f [] = Inr []"
| "traverse f (x # xs) = rbind (f x) (\<lambda>y. rbind (traverse f xs) (\<lambda>ys. Inr (y # ys)))"

lemma traverse_Inr_all:
  "(\<And>x. x \<in> set xs \<Longrightarrow> f x = Inr (g x)) \<Longrightarrow> traverse f xs = Inr (map g xs)"
  by (induction xs) simp_all

section \<open>Decimal arithmetic\<close>

text \<open>
  A finite \<^verbatim>\<open>Decimal\<close> is represented by its value, a rational number; two Decimals that are
  \<^verbatim>\<open>==\<close> in Python are the same value here (the exponent of the representation is only
  visible to \<^verbatim>\<open>str\<close>). Arithmetic computes the exact result and rounds it to the context:
  \<open>PREC\<close> significant digits, ties to even. Exponent overflow and underflow (beyond
  \<open>10 ^ 999999\<close>) are not represented. NaN and infinities never enter: every field of the
  domain models goes through \<^verbatim>\<open>domain._decimal._require_finite_decimal\<close>.
\<close>

type_synonym decimal = rat

definition PREC :: nat where
  "PREC = 28"

definition pow10 :: "int \<Rightarrow> rat" where
  "pow10 k = (if 0 \<le> k then 10 ^ nat k else 1 / 10 ^ nat (- k))"

text \<open>Number of decimal digits of a positive integer (0 for 0).\<close>

fun ndigits :: "nat \<Rightarrow> nat" where
  "ndigits n = (if n = 0 then 0 else Suc (ndigits (n div 10)))"

declare ndigits.simps [simp del]

text \<open>
  \<^verbatim>\<open>Decimal.adjusted()\<close>: the exponent of the most significant digit of a positive value.
\<close>

definition adjusted :: "rat \<Rightarrow> int" where
  "adjusted x =
     (let (a, b) = quotient_of x;
          k = int (ndigits (nat a)) - int (ndigits (nat b))
      in if pow10 k \<le> x then k else k - 1)"

definition round_half_even :: "rat \<Rightarrow> int" where
  "round_half_even q =
     (let f = \<lfloor>q\<rfloor>; d = q - of_int f
      in if d < 1 / 2 then f else if d > 1 / 2 then f + 1
         else if even f then f else f + 1)"

definition rnd_pos :: "rat \<Rightarrow> rat" where
  "rnd_pos x =
     (let s = pow10 (adjusted x - (int PREC - 1))
      in of_int (round_half_even (x / s)) * s)"

definition rnd :: "rat \<Rightarrow> decimal" where
  "rnd x = (if x = 0 then 0 else if 0 < x then rnd_pos x else - rnd_pos (- x))"

definition dadd :: "decimal \<Rightarrow> decimal \<Rightarrow> decimal" where
  "dadd a b = rnd (a + b)"

definition dsub :: "decimal \<Rightarrow> decimal \<Rightarrow> decimal" where
  "dsub a b = rnd (a - b)"

definition dmul :: "decimal \<Rightarrow> decimal \<Rightarrow> decimal" where
  "dmul a b = rnd (a * b)"

text \<open>
  Division. The callers divide by a value that they checked to be non-zero; where the source
  does not check, the model uses \<open>ddiv_r\<close>, which raises like Python.
\<close>

definition ddiv :: "decimal \<Rightarrow> decimal \<Rightarrow> decimal" where
  "ddiv a b = rnd (a / b)"

definition ddiv_r :: "decimal \<Rightarrow> decimal \<Rightarrow> decimal result" where
  "ddiv_r a b =
     (if b = 0 then Inl (if a = 0 then InvalidOperation ''DivisionUndefined'' else ZeroDivisionError)
      else Inr (ddiv a b))"

definition dneg :: "decimal \<Rightarrow> decimal" where
  "dneg a = rnd (- a)"

definition dabs :: "decimal \<Rightarrow> decimal" where
  "dabs a = rnd \<bar>a\<bar>"

text \<open>A value the context holds exactly: an integer coefficient of at most \<open>PREC\<close> digits.\<close>

definition representable :: "rat \<Rightarrow> bool" where
  "representable x \<longleftrightarrow> (\<exists>m k. x = of_int m * pow10 k \<and> \<bar>m\<bar> < 10 ^ PREC)"

subsection \<open>Powers of ten\<close>

lemma pow10_pos [simp]: "0 < pow10 k"
  by (simp add: pow10_def)

lemma pow10_nonzero [simp]: "pow10 k \<noteq> 0"
  using pow10_pos [of k] by linarith

lemma pow10_nonneg [simp]: "0 \<le> pow10 k"
  using pow10_pos [of k] by linarith

lemma pow10_not_neg [simp]: "\<not> pow10 k < 0"
  using pow10_pos [of k] by linarith

lemma pow10_0 [simp]: "pow10 0 = 1"
  by (simp add: pow10_def)

lemma pow10_of_nat: "pow10 (int n) = 10 ^ n"
  by (simp add: pow10_def)

lemma pow10_neg: "pow10 (- k) = 1 / pow10 k"
  by (simp add: pow10_def)

lemma pow10_plus1: "pow10 (k + 1) = 10 * pow10 k"
proof (cases "0 \<le> k")
  case True
  then show ?thesis by (simp add: pow10_def nat_add_distrib)
next
  case False
  define n where "n = nat (- k - 1)"
  have k: "k = - int (Suc n)"
    using False by (simp add: n_def)
  have "nat (- k) = Suc n" and "nat (- (k + 1)) = n"
    by (simp_all add: k)
  then show ?thesis
    using False by (simp add: pow10_def k)
qed

lemma pow10_add_nat: "pow10 (k + int n) = 10 ^ n * pow10 k"
proof (induction n)
  case (Suc n)
  have "pow10 (k + int (Suc n)) = pow10 ((k + int n) + 1)"
    by (simp add: algebra_simps)
  with Suc show ?case by (simp only: pow10_plus1) simp
qed simp

lemma pow10_diff_nat: "pow10 (k - int n) = pow10 k / 10 ^ n"
  using pow10_add_nat [of "k - int n" n] by simp

lemma pow10_mono: "j \<le> k \<Longrightarrow> pow10 j \<le> pow10 k"
proof -
  assume "j \<le> k"
  then obtain n where n: "k = j + int n"
    using zle_iff_zadd by blast
  have "1 * pow10 j \<le> 10 ^ n * pow10 j"
    by (rule mult_right_mono) simp_all
  then show ?thesis by (simp add: n pow10_add_nat)
qed

lemma pow10_add: "pow10 (j + k) = pow10 j * pow10 k"
proof (cases "0 \<le> k")
  case True
  then show ?thesis using pow10_add_nat [of j "nat k"] by (simp add: pow10_def)
next
  case False
  then show ?thesis
    using pow10_diff_nat [of j "nat (- k)"] by (simp add: pow10_def)
qed

lemma pow10_less_iff: "pow10 j < pow10 k \<longleftrightarrow> j < k"
proof
  show "pow10 j < pow10 k \<Longrightarrow> j < k"
    using pow10_mono [of k j] by linarith
next
  assume "j < k"
  then have "pow10 (j + 1) \<le> pow10 k" by (intro pow10_mono) simp
  then show "pow10 j < pow10 k"
    using pow10_pos [of j] unfolding pow10_plus1 by linarith
qed

subsection \<open>The leading digit\<close>

lemma ndigits_pos: "0 < n \<Longrightarrow> 0 < ndigits n"
  by (subst ndigits.simps) simp

lemma ndigits_bounds: "0 < n \<Longrightarrow> 10 ^ (ndigits n - 1) \<le> n \<and> n < 10 ^ ndigits n"
proof (induction n rule: ndigits.induct)
  case (1 n)
  show ?case
  proof (cases "n < 10")
    case True
    with "1.prems" have "ndigits n = 1"
      by (simp add: ndigits.simps [of n] ndigits.simps [of 0])
    with True "1.prems" show ?thesis by simp
  next
    case False
    then have pos: "0 < n div 10" by simp
    with "1" have IH: "10 ^ (ndigits (n div 10) - 1) \<le> n div 10"
      "n div 10 < 10 ^ ndigits (n div 10)" by simp_all
    obtain d where d: "ndigits (n div 10) = Suc d"
      using ndigits_pos [OF pos] gr0_implies_Suc by blast
    have n: "ndigits n = Suc (Suc d)"
      using "1.prems" d by (simp add: ndigits.simps [of n])
    from IH(1) d have "10 ^ d \<le> n div 10" by simp
    then have lower: "10 ^ Suc d \<le> n" by simp
    from IH(2) d have "n div 10 < 10 ^ Suc d" by simp
    then have "n < 10 ^ Suc (Suc d)" by simp
    with lower n show ?thesis by simp
  qed
qed

lemma ndigits_rat_bounds:
  assumes "0 < a"
  shows "pow10 (int (ndigits (nat a)) - 1) \<le> of_int a"
    and "of_int a < pow10 (int (ndigits (nat a)))"
proof -
  let ?d = "ndigits (nat a)"
  have b: "10 ^ (?d - 1) \<le> nat a" "nat a < 10 ^ ?d"
    using ndigits_bounds [of "nat a"] assms by simp_all
  have pos: "0 < ?d" using ndigits_pos [of "nat a"] assms by simp
  have a: "(of_int a :: rat) = of_nat (nat a)" using assms by simp
  have "int ?d - 1 = int (?d - 1)" using pos by simp
  then have "pow10 (int ?d - 1) = 10 ^ (?d - 1)" by (simp only: pow10_of_nat)
  moreover have "(10::rat) ^ (?d - 1) = of_nat (10 ^ (?d - 1))" by simp
  ultimately show "pow10 (int ?d - 1) \<le> of_int a"
    unfolding a using b(1) by (simp only: of_nat_le_iff)
  have "pow10 (int ?d) = of_nat (10 ^ ?d)" by (simp add: pow10_of_nat)
  then show "of_int a < pow10 (int ?d)"
    unfolding a using b(2) by (simp only: of_nat_less_iff)
qed

lemma adjusted_spec:
  assumes x: "0 < x"
  shows "pow10 (adjusted x) \<le> x" and "x < pow10 (adjusted x + 1)"
proof -
  obtain a b where q: "quotient_of x = (a, b)" by (cases "quotient_of x")
  then have b: "0 < b" and xab: "x = of_int a / of_int b"
    using quotient_of_denom_pos quotient_of_div by blast+
  with x have a: "0 < a" by (simp add: zero_less_divide_iff)
  let ?da = "int (ndigits (nat a))" and ?db = "int (ndigits (nat b))"
  let ?k = "?da - ?db"
  note A = ndigits_rat_bounds [OF a] and B = ndigits_rat_bounds [OF b]
  have bpos: "0 < (of_int b :: rat)" using b by simp
  have "x * of_int b = of_int a" using b by (simp add: xab)
  then have up: "x * pow10 (?db - 1) < pow10 ?da"
    using A(2) B(1) x mult_left_mono [OF B(1), of x] by linarith
  have lo: "pow10 (?da - 1) < x * pow10 ?db"
    using A(1) B(2) x mult_strict_left_mono [OF B(2) x] \<open>x * of_int b = of_int a\<close> by linarith
  have "pow10 ?da = pow10 (?k + 1) * pow10 (?db - 1)"
    by (simp flip: pow10_add)
  with up have up': "x < pow10 (?k + 1)" by simp
  have "pow10 (?da - 1) = pow10 (?k - 1) * pow10 ?db"
    by (simp flip: pow10_add)
  with lo have lo': "pow10 (?k - 1) \<le> x" by simp
  have adj: "adjusted x = (if pow10 ?k \<le> x then ?k else ?k - 1)"
    by (simp add: adjusted_def q)
  show "pow10 (adjusted x) \<le> x" using lo' by (simp add: adj)
  show "x < pow10 (adjusted x + 1)" using up' by (simp add: adj)
qed

lemma adjusted_mono: "0 < x \<Longrightarrow> x \<le> y \<Longrightarrow> adjusted x \<le> adjusted y"
proof -
  assume x: "0 < x" and le: "x \<le> y"
  then have "pow10 (adjusted x) < pow10 (adjusted y + 1)"
    using adjusted_spec [of x] adjusted_spec [of y] by linarith
  then show ?thesis by (simp add: pow10_less_iff)
qed

subsection \<open>Rounding\<close>

lemma round_half_even_of_int [simp]: "round_half_even (of_int m) = m"
  by (simp add: round_half_even_def)

lemma round_half_even_bounds:
  "q - 1 / 2 \<le> of_int (round_half_even q)" "of_int (round_half_even q) \<le> q + 1 / 2"
proof -
  have "of_int \<lfloor>q\<rfloor> \<le> q" by simp
  then show "q - 1 / 2 \<le> of_int (round_half_even q)"
    unfolding round_half_even_def Let_def by (simp split: if_split) linarith
  have "q < of_int \<lfloor>q\<rfloor> + 1" by linarith
  then show "of_int (round_half_even q) \<le> q + 1 / 2"
    unfolding round_half_even_def Let_def by (simp split: if_split) linarith
qed

lemma round_half_even_mono:
  assumes "p \<le> q"
  shows "round_half_even p \<le> round_half_even q"
proof (cases "\<lfloor>p\<rfloor> = \<lfloor>q\<rfloor>")
  case True
  with assms show ?thesis
    unfolding round_half_even_def Let_def by (auto split: if_split)
next
  case False
  then have "\<lfloor>p\<rfloor> + 1 \<le> \<lfloor>q\<rfloor>" using floor_mono [OF assms] by linarith
  moreover have "round_half_even p \<le> \<lfloor>p\<rfloor> + 1" "\<lfloor>q\<rfloor> \<le> round_half_even q"
    unfolding round_half_even_def Let_def by (simp_all split: if_split)
  ultimately show ?thesis by linarith
qed

lemma round_half_even_ge: "of_int m \<le> q \<Longrightarrow> m \<le> round_half_even q"
  using round_half_even_mono [of "of_int m" q] by simp

lemma round_half_even_le: "q \<le> of_int m \<Longrightarrow> round_half_even q \<le> m"
  using round_half_even_mono [of q "of_int m"] by simp

lemma pow10_scale:
  "pow10 (e - (int PREC - 1)) * 10 ^ (PREC - 1) = pow10 e"
  "pow10 (e - (int PREC - 1)) * 10 ^ PREC = pow10 (e + 1)"
proof -
  have "pow10 ((e - (int PREC - 1)) + int (PREC - 1)) = pow10 e"
    by (simp add: PREC_def)
  then show 1: "pow10 (e - (int PREC - 1)) * 10 ^ (PREC - 1) = pow10 e"
    by (simp only: pow10_add_nat mult.commute)
  have "(10::rat) ^ PREC = 10 * 10 ^ (PREC - 1)" by (simp add: PREC_def)
  with 1 show "pow10 (e - (int PREC - 1)) * 10 ^ PREC = pow10 (e + 1)"
    by (simp add: pow10_plus1)
qed

text \<open>The scaled coefficient has exactly \<open>PREC\<close> digits.\<close>

lemma scaled_bounds:
  assumes x: "0 < x"
  defines "s \<equiv> pow10 (adjusted x - (int PREC - 1))"
  shows "10 ^ (PREC - 1) \<le> x / s" and "x / s < 10 ^ PREC"
proof -
  have "s * 10 ^ (PREC - 1) = pow10 (adjusted x)"
    unfolding s_def by (rule pow10_scale)
  then show "10 ^ (PREC - 1) \<le> x / s"
    using adjusted_spec(1) [OF x] by (simp add: s_def pos_le_divide_eq mult.commute)
  have "s * 10 ^ PREC = pow10 (adjusted x + 1)"
    unfolding s_def by (rule pow10_scale)
  then show "x / s < 10 ^ PREC"
    using adjusted_spec(2) [OF x] by (simp add: s_def pos_divide_less_eq mult.commute)
qed

lemma rnd_pos_bounds:
  assumes x: "0 < x"
  shows "pow10 (adjusted x) \<le> rnd_pos x" and "rnd_pos x \<le> pow10 (adjusted x + 1)"
proof -
  let ?s = "pow10 (adjusted x - (int PREC - 1))"
  let ?r = "round_half_even (x / ?s)"
  have r: "10 ^ (PREC - 1) \<le> ?r" "?r \<le> 10 ^ PREC"
    using scaled_bounds [OF x] by (auto intro!: round_half_even_ge round_half_even_le)
  have "?s * 10 ^ (PREC - 1) = pow10 (adjusted x)"
    by (rule pow10_scale)
  moreover have "(10 ^ (PREC - 1) :: rat) \<le> of_int ?r"
    using r(1) by (metis of_int_le_iff of_int_numeral of_int_power)
  then have "10 ^ (PREC - 1) * ?s \<le> of_int ?r * ?s"
    by (rule mult_right_mono) simp
  ultimately show "pow10 (adjusted x) \<le> rnd_pos x"
    by (simp add: rnd_pos_def Let_def mult.commute)
  have "?s * 10 ^ PREC = pow10 (adjusted x + 1)"
    by (rule pow10_scale)
  moreover have "of_int ?r \<le> (10 ^ PREC :: rat)"
    using r(2) by (metis of_int_le_iff of_int_numeral of_int_power)
  then have "of_int ?r * ?s \<le> 10 ^ PREC * ?s"
    by (rule mult_right_mono) simp
  ultimately show "rnd_pos x \<le> pow10 (adjusted x + 1)"
    by (simp add: rnd_pos_def Let_def mult.commute)
qed

lemma rnd_pos_positive: "0 < x \<Longrightarrow> 0 < rnd_pos x"
  using rnd_pos_bounds(1) [of x] pow10_pos [of "adjusted x"] by linarith

lemma rnd_pos_mono:
  assumes x: "0 < x" and le: "x \<le> y"
  shows "rnd_pos x \<le> rnd_pos y"
proof (cases "adjusted x = adjusted y")
  case True
  let ?s = "pow10 (adjusted y - (int PREC - 1))"
  have "x / ?s \<le> y / ?s" using le by (intro divide_right_mono) simp_all
  then have "round_half_even (x / ?s) \<le> round_half_even (y / ?s)"
    by (rule round_half_even_mono)
  then show ?thesis
    unfolding rnd_pos_def Let_def True by (intro mult_right_mono) simp_all
next
  case False
  then have "adjusted x + 1 \<le> adjusted y" using adjusted_mono [OF x le] by linarith
  then have "pow10 (adjusted x + 1) \<le> pow10 (adjusted y)" by (rule pow10_mono)
  then show ?thesis
    using rnd_pos_bounds [OF x] rnd_pos_bounds [of y] x le by linarith
qed

lemma rnd_0 [simp, dec_simps]: "rnd 0 = 0"
  by (simp add: rnd_def)

lemma rnd_minus: "rnd (- x) = - rnd x"
  by (simp add: rnd_def)

lemma rnd_pos_sign: "0 < x \<Longrightarrow> 0 < rnd x"
  by (simp add: rnd_def rnd_pos_positive)

lemma rnd_neg_sign: "x < 0 \<Longrightarrow> rnd x < 0"
  using rnd_pos_sign [of "- x"] by (simp add: rnd_minus)

lemma rnd_nonneg: "0 \<le> x \<Longrightarrow> 0 \<le> rnd x"
  using rnd_pos_sign [of x] by (cases "x = 0") auto

lemma rnd_sign_iff [simp]:
  "0 < rnd x \<longleftrightarrow> 0 < x" "rnd x < 0 \<longleftrightarrow> x < 0" "rnd x = 0 \<longleftrightarrow> x = 0"
  "0 \<le> rnd x \<longleftrightarrow> 0 \<le> x" "rnd x \<le> 0 \<longleftrightarrow> x \<le> 0"
  using rnd_pos_sign [of x] rnd_neg_sign [of x] by (cases x "0::rat" rule: linorder_cases; simp)+

lemma rnd_mono: "x \<le> y \<Longrightarrow> rnd x \<le> rnd y"
proof -
  assume le: "x \<le> y"
  consider "0 < x" | "y < 0" | "x \<le> 0" "0 \<le> y" by linarith
  then show ?thesis
  proof cases
    case 1
    with le show ?thesis by (simp add: rnd_def rnd_pos_mono)
  next
    case 2
    with le show ?thesis by (simp add: rnd_def rnd_pos_mono)
  next
    case 3
    then have "rnd x \<le> 0" "0 \<le> rnd y" by simp_all
    then show ?thesis by linarith
  qed
qed

lemma rnd_pos_exact:
  assumes m: "0 < m" "m < 10 ^ PREC"
  shows "rnd_pos (of_int m * pow10 k) = of_int m * pow10 k"
proof -
  define x where "x = of_int m * pow10 k"
  define s where "s = pow10 (adjusted x - (int PREC - 1))"
  have x: "0 < x" using m by (simp add: x_def)
  have "(of_int m :: rat) < 10 ^ PREC"
    using m(2) by (metis of_int_less_iff of_int_numeral of_int_power)
  then have "x < 10 ^ PREC * pow10 k"
    unfolding x_def by (intro mult_strict_right_mono) simp_all
  then have "pow10 (adjusted x) < pow10 (k + int PREC)"
    using adjusted_spec(1) [OF x] unfolding pow10_add_nat by linarith
  then have le: "adjusted x \<le> k + int PREC - 1" by (simp add: pow10_less_iff)
  define n where "n = nat (k + int PREC - 1 - adjusted x)"
  have k: "k = (adjusted x - (int PREC - 1)) + int n" using le by (simp add: n_def)
  have "pow10 k = 10 ^ n * s" unfolding s_def by (subst k) (rule pow10_add_nat)
  then have eq: "x = of_int (m * 10 ^ n) * s" by (simp add: x_def)
  have "s \<noteq> 0" by (simp add: s_def)
  with eq have "x / s = of_int (m * 10 ^ n)" by simp
  then have "round_half_even (x / s) = m * 10 ^ n" by (simp only: round_half_even_of_int)
  then have "rnd_pos x = x"
    unfolding rnd_pos_def Let_def s_def [symmetric] using eq by simp
  then show ?thesis by (simp add: x_def)
qed

lemma rnd_exact: "representable x \<Longrightarrow> rnd x = x"
proof -
  assume "representable x"
  then obtain m k where x: "x = of_int m * pow10 k" and m: "\<bar>m\<bar> < 10 ^ PREC"
    by (auto simp: representable_def)
  show ?thesis
  proof (cases m "0::int" rule: linorder_cases)
    case less
    then have "rnd_pos (of_int (- m) * pow10 k) = of_int (- m) * pow10 k"
      using m by (intro rnd_pos_exact) simp_all
    with less show ?thesis by (simp add: rnd_def x zero_less_mult_iff mult_less_0_iff)
  next
    case equal
    then show ?thesis by (simp add: x)
  next
    case greater
    with m show ?thesis by (simp add: rnd_def x rnd_pos_exact)
  qed
qed

subsection \<open>Representable values and exact arithmetic\<close>

lemma representable_of_int: "\<bar>m\<bar> < 10 ^ PREC \<Longrightarrow> representable (of_int m)"
  unfolding representable_def by (intro exI [of _ m] exI [of _ 0]) simp

lemma representable_0 [simp]: "representable 0"
  using representable_of_int [of 0] by (simp add: PREC_def)

lemma representable_minus [simp]: "representable (- x) \<longleftrightarrow> representable x"
proof -
  have "representable (- y)" if "representable y" for y
    using that unfolding representable_def by (metis abs_minus_cancel mult_minus_left of_int_minus)
  from this [of x] this [of "- x"] show ?thesis by auto
qed

lemma rnd_representable: "representable (rnd x)"
proof -
  have pos: "representable (rnd_pos y)" if y: "0 < y" for y
  proof -
    let ?s = "pow10 (adjusted y - (int PREC - 1))"
    let ?r = "round_half_even (y / ?s)"
    have r: "0 \<le> ?r" "?r \<le> 10 ^ PREC"
      using scaled_bounds [OF y] y by (auto intro!: round_half_even_ge round_half_even_le)
    show ?thesis
    proof (cases "?r = 10 ^ PREC")
      case True
      have "rnd_pos y = pow10 (adjusted y + 1)"
        unfolding rnd_pos_def Let_def True using pow10_scale(2) [of "adjusted y"]
        by (simp add: mult.commute)
      then show ?thesis
        unfolding representable_def by (intro exI [of _ 1] exI) (simp add: PREC_def)
    next
      case False
      then have "\<bar>?r\<bar> < 10 ^ PREC" using r by simp
      then show ?thesis unfolding representable_def rnd_pos_def Let_def by blast
    qed
  qed
  show ?thesis
    using pos [of x] pos [of "- x"] by (auto simp: rnd_def)
qed

lemma rnd_idem [simp]: "rnd (rnd x) = rnd x"
  by (simp add: rnd_exact rnd_representable)

lemma rnd_le_representable: "x \<le> y \<Longrightarrow> representable y \<Longrightarrow> rnd x \<le> y"
  using rnd_mono [of x y] by (simp add: rnd_exact)

lemma rnd_ge_representable: "y \<le> x \<Longrightarrow> representable y \<Longrightarrow> y \<le> rnd x"
  using rnd_mono [of y x] by (simp add: rnd_exact)

text \<open>Evaluation on literals.\<close>

lemma representable_numeral:
  "(numeral n :: int) < 10 ^ 28 \<Longrightarrow> representable (numeral n)"
  using representable_of_int [of "numeral n"] by (simp add: PREC_def)

lemma rnd_numeral [simp, dec_simps]:
  "(numeral n :: int) < 10 ^ 28 \<Longrightarrow> rnd (numeral n) = numeral n"
  by (rule rnd_exact, rule representable_numeral)

lemma rnd_neg_numeral [simp, dec_simps]:
  "(numeral n :: int) < 10 ^ 28 \<Longrightarrow> rnd (- numeral n) = - numeral n"
  by (rule rnd_exact) (simp add: representable_numeral)

lemma rnd_1 [simp, dec_simps]: "rnd 1 = 1"
  using rnd_exact [OF representable_of_int [of 1]] by (simp add: PREC_def)

lemma rnd_minus_1 [simp, dec_simps]: "rnd (- 1) = - 1"
  by (simp add: rnd_minus)

text \<open>A quotient is evaluated by giving its decimal expansion: coefficient and exponent.\<close>

lemma rnd_decimal: "x = of_int m / 10 ^ k \<Longrightarrow> \<bar>m\<bar> < 10 ^ 28 \<Longrightarrow> rnd x = x"
proof (rule rnd_exact)
  assume x: "x = of_int m / 10 ^ k" and m: "\<bar>m\<bar> < 10 ^ 28"
  have "x = of_int m * pow10 (- int k)" by (simp add: x pow10_neg pow10_of_nat)
  with m show "representable x" unfolding representable_def PREC_def by blast
qed

subsection \<open>Signs and order of the operations\<close>

lemma dadd_nonneg: "0 \<le> a \<Longrightarrow> 0 \<le> b \<Longrightarrow> 0 \<le> dadd a b"
  by (simp add: dadd_def)

lemma dadd_pos: "0 < a \<Longrightarrow> 0 \<le> b \<Longrightarrow> 0 < dadd a b"
  by (simp add: dadd_def)

lemma dmul_nonneg: "0 \<le> a \<Longrightarrow> 0 \<le> b \<Longrightarrow> 0 \<le> dmul a b"
  by (simp add: dmul_def)

lemma dmul_pos: "0 < a \<Longrightarrow> 0 < b \<Longrightarrow> 0 < dmul a b"
  by (simp add: dmul_def)

lemma ddiv_nonneg: "0 \<le> a \<Longrightarrow> 0 \<le> b \<Longrightarrow> 0 \<le> ddiv a b"
  by (simp add: ddiv_def)

lemma ddiv_pos: "0 < a \<Longrightarrow> 0 < b \<Longrightarrow> 0 < ddiv a b"
  by (simp add: ddiv_def)

lemma dsub_sign [simp]:
  "0 \<le> dsub a b \<longleftrightarrow> b \<le> a" "dsub a b < 0 \<longleftrightarrow> a < b" "0 < dsub a b \<longleftrightarrow> b < a"
  "dsub a b \<le> 0 \<longleftrightarrow> a \<le> b" "dsub a b = 0 \<longleftrightarrow> a = b"
  by (simp_all add: dsub_def)

lemma dadd_mono: "a \<le> a' \<Longrightarrow> b \<le> b' \<Longrightarrow> dadd a b \<le> dadd a' b'"
  unfolding dadd_def by (intro rnd_mono) simp

lemma dsub_mono: "a \<le> a' \<Longrightarrow> b' \<le> b \<Longrightarrow> dsub a b \<le> dsub a' b'"
  unfolding dsub_def by (intro rnd_mono) simp

lemma dmul_mono: "0 \<le> a \<Longrightarrow> a \<le> a' \<Longrightarrow> 0 \<le> b \<Longrightarrow> b \<le> b' \<Longrightarrow> dmul a b \<le> dmul a' b'"
  unfolding dmul_def by (intro rnd_mono mult_mono) simp_all

lemma dneg_eq: "representable a \<Longrightarrow> dneg a = - a"
  by (simp add: dneg_def rnd_exact)

lemma representable_ops [simp]:
  "representable (dadd a b)" "representable (dsub a b)" "representable (dmul a b)"
  "representable (ddiv a b)" "representable (dneg a)" "representable (dabs a)"
  by (simp_all add: dadd_def dsub_def dmul_def ddiv_def dneg_def dabs_def rnd_representable)

lemma dadd_0 [simp]: "dadd 0 a = rnd a" "dadd a 0 = rnd a"
  by (simp_all add: dadd_def)

lemma dadd_dneg_nonneg_iff: "representable b \<Longrightarrow> 0 \<le> dadd a (dneg b) \<longleftrightarrow> b \<le> a"
  by (simp add: dadd_def dneg_eq)

lemmas dec_defs = dadd_def dsub_def dmul_def ddiv_def dneg_def dabs_def

subsection \<open>Rounding error\<close>

lemma rnd_pos_error:
  assumes x: "0 < x"
  shows "\<bar>rnd_pos x - x\<bar> \<le> x * (5 / 10 ^ 28)"
proof -
  define s where "s = pow10 (adjusted x - (int PREC - 1))"
  have s: "0 < s" by (simp add: s_def)
  have "s * 10 ^ (PREC - 1) \<le> x"
    using pow10_scale(1) [of "adjusted x"] adjusted_spec(1) [OF x] by (simp add: s_def)
  then have small: "s / 2 \<le> x * (5 / 10 ^ 28)" by (simp add: PREC_def)
  have "\<bar>of_int (round_half_even (x / s)) - x / s\<bar> \<le> 1 / 2"
    using round_half_even_bounds [of "x / s"] by linarith
  then have "\<bar>of_int (round_half_even (x / s)) - x / s\<bar> * s \<le> 1 / 2 * s"
    using s by (intro mult_right_mono) simp_all
  moreover have "rnd_pos x - x = (of_int (round_half_even (x / s)) - x / s) * s"
    unfolding rnd_pos_def Let_def s_def [symmetric] using s by (simp add: left_diff_distrib)
  ultimately have "\<bar>rnd_pos x - x\<bar> \<le> s / 2" using s by (simp add: abs_mult)
  then show ?thesis using small by linarith
qed

lemma rnd_error: "\<bar>rnd x - x\<bar> \<le> \<bar>x\<bar> * (5 / 10 ^ 28)"
proof (cases x "0::rat" rule: linorder_cases)
  case less
  have "rnd x - x = - (rnd_pos (- x) - (- x))" using less by (simp add: rnd_def)
  then have "\<bar>rnd x - x\<bar> = \<bar>rnd_pos (- x) - (- x)\<bar>" by (simp only: abs_minus_cancel)
  then show ?thesis using less rnd_pos_error [of "- x"] by simp
next
  case greater
  then show ?thesis using rnd_pos_error [of x] by (simp add: rnd_def)
qed simp

end
