(* ===== verification/Tables.thy ===== *)
theory Tables
  imports Prelude
begin

text \<open>
  Keyed tables. The SQLite tables of the program are lists of rows with a primary key:
  a plain \<^verbatim>\<open>INSERT\<close> raises \<^verbatim>\<open>IntegrityError\<close> on a key that is present, an
  \<^verbatim>\<open>INSERT .. ON CONFLICT DO UPDATE\<close> replaces the row of that key, a \<^verbatim>\<open>DELETE\<close>
  removes it, a \<^verbatim>\<open>SELECT .. WHERE key = ?\<close> returns the row. The interface
  \<open>keyed_store\<close> states what the repositories rely on; the list tables interpret it for
  every key function.
\<close>

definition tbl_get :: "('r \<Rightarrow> 'k) \<Rightarrow> 'k \<Rightarrow> 'r list \<Rightarrow> 'r option" where
  "tbl_get key k rows = find (\<lambda>r. key r = k) rows"

definition tbl_insert :: "('r \<Rightarrow> 'k) \<Rightarrow> 'r \<Rightarrow> 'r list \<Rightarrow> 'r list result" where
  "tbl_insert key r rows =
     (if tbl_get key (key r) rows \<noteq> None then Inl (IntegrityError ''UNIQUE constraint failed'')
      else Inr (rows @ [r]))"

definition tbl_upsert :: "('r \<Rightarrow> 'k) \<Rightarrow> 'r \<Rightarrow> 'r list \<Rightarrow> 'r list" where
  "tbl_upsert key r rows =
     (if tbl_get key (key r) rows \<noteq> None
      then map (\<lambda>r'. if key r' = key r then r else r') rows
      else rows @ [r])"

definition tbl_delete :: "('r \<Rightarrow> 'k) \<Rightarrow> 'k \<Rightarrow> 'r list \<Rightarrow> 'r list" where
  "tbl_delete key k rows = filter (\<lambda>r. key r \<noteq> k) rows"

definition tbl_keyed :: "('r \<Rightarrow> 'k) \<Rightarrow> 'r list \<Rightarrow> bool" where
  "tbl_keyed key rows \<longleftrightarrow> distinct (map key rows)"

subsection \<open>The interface\<close>

locale keyed_store =
  fixes key :: "'r \<Rightarrow> 'k"
    and get :: "'k \<Rightarrow> 't \<Rightarrow> 'r option"
    and ins :: "'r \<Rightarrow> 't \<Rightarrow> 't result"
    and put :: "'r \<Rightarrow> 't \<Rightarrow> 't"
    and del :: "'k \<Rightarrow> 't \<Rightarrow> 't"
    and wf :: "'t \<Rightarrow> bool"
  assumes get_key: "get k t = Some r \<Longrightarrow> key r = k"
    and get_put: "get k (put r t) = (if k = key r then Some r else get k t)"
    and get_del: "get k (del j t) = (if k = j then None else get k t)"
    and ins_present: "get (key r) t = Some r' \<Longrightarrow> \<exists>e. ins r t = Inl (IntegrityError e)"
    and ins_fresh: "get (key r) t = None \<Longrightarrow> ins r t = Inr (put r t)"
    and wf_put: "wf t \<Longrightarrow> wf (put r t)"
    and wf_del: "wf t \<Longrightarrow> wf (del k t)"
begin

lemma ins_Inr_iff: "ins r t = Inr t' \<longleftrightarrow> get (key r) t = None \<and> t' = put r t"
proof (cases "get (key r) t")
  case None
  then show ?thesis using ins_fresh [OF None] by auto
next
  case (Some r')
  then show ?thesis using ins_present [OF Some] by auto
qed

lemma ins_get: "ins r t = Inr t' \<Longrightarrow> get k t' = (if k = key r then Some r else get k t)"
  by (simp add: ins_Inr_iff get_put)

lemma ins_wf: "wf t \<Longrightarrow> ins r t = Inr t' \<Longrightarrow> wf t'"
  by (simp add: ins_Inr_iff wf_put)

lemma ins_twice: "ins r t = Inr t' \<Longrightarrow> key r' = key r \<Longrightarrow> \<exists>e. ins r' t' = Inl (IntegrityError e)"
  using ins_present [of r' t' r] by (simp add: ins_get)

lemma put_get_same: "get (key r) (put r t) = Some r"
  by (simp add: get_put)

end

subsection \<open>List tables satisfy it\<close>

lemma tbl_get_key: "tbl_get key k rows = Some r \<Longrightarrow> key r = k"
  by (auto simp: tbl_get_def find_Some_iff)

lemma tbl_get_append:
  "tbl_get key k (xs @ ys) =
     (case tbl_get key k xs of None \<Rightarrow> tbl_get key k ys | Some r \<Rightarrow> Some r)"
  by (induction xs) (auto simp: tbl_get_def)

lemma tbl_get_simps [simp]:
  "tbl_get key k [] = None"
  "tbl_get key k (r # rs) = (if key r = k then Some r else tbl_get key k rs)"
  by (simp_all add: tbl_get_def)

lemma tbl_get_None_iff: "tbl_get key k rows = None \<longleftrightarrow> k \<notin> key ` set rows"
  by (auto simp: tbl_get_def find_None_iff)

lemma tbl_get_Some_mem: "tbl_get key k rows = Some r \<Longrightarrow> r \<in> set rows"
  by (auto simp: tbl_get_def find_Some_iff)

lemma tbl_get_mem: "tbl_keyed key rows \<Longrightarrow> r \<in> set rows \<Longrightarrow> tbl_get key (key r) rows = Some r"
  by (induction rows) (auto simp: tbl_keyed_def)

lemma tbl_get_map_replace:
  "tbl_get key k (map (\<lambda>r'. if key r' = key r then r else r') rows) =
     (if k = key r then (if tbl_get key k rows = None then None else Some r)
      else tbl_get key k rows)"
  by (induction rows) auto

lemma tbl_get_upsert:
  "tbl_get key k (tbl_upsert key r rows) = (if k = key r then Some r else tbl_get key k rows)"
  by (auto simp: tbl_upsert_def tbl_get_map_replace tbl_get_append split: option.splits)

lemma tbl_get_delete:
  "tbl_get key k (tbl_delete key j rows) = (if k = j then None else tbl_get key k rows)"
  by (induction rows) (auto simp: tbl_delete_def)

lemma map_key_replace: "map key (map (\<lambda>r'. if key r' = key r then r else r') rows) = map key rows"
  by (induction rows) auto

lemma tbl_keyed_upsert: "tbl_keyed key rows \<Longrightarrow> tbl_keyed key (tbl_upsert key r rows)"
  unfolding tbl_keyed_def tbl_upsert_def
  by (auto simp: map_key_replace tbl_get_None_iff simp del: map_map)

lemma tbl_keyed_delete: "tbl_keyed key rows \<Longrightarrow> tbl_keyed key (tbl_delete key k rows)"
  by (auto simp: tbl_keyed_def tbl_delete_def distinct_map_filter)

lemma tbl_insert_fresh:
  "tbl_get key (key r) rows = None \<Longrightarrow> tbl_insert key r rows = Inr (tbl_upsert key r rows)"
  by (simp add: tbl_insert_def tbl_upsert_def)

interpretation tbl: keyed_store key "tbl_get key" "tbl_insert key" "tbl_upsert key"
  "tbl_delete key" "tbl_keyed key" for key :: "'r \<Rightarrow> 'k"
proof unfold_locales
  show "tbl_get key k t = Some r \<Longrightarrow> key r = k" for k t r
    by (rule tbl_get_key)
  show "tbl_get key (key r) t = Some r' \<Longrightarrow> \<exists>e. tbl_insert key r t = Inl (IntegrityError e)"
    for r r' t
    by (simp add: tbl_insert_def)
qed (simp_all add: tbl_get_upsert tbl_get_delete tbl_insert_fresh tbl_keyed_upsert tbl_keyed_delete)

lemma tbl_insert_append: "tbl_insert key r rows = Inr rows' \<Longrightarrow> rows' = rows @ [r]"
  by (simp add: tbl_insert_def split: if_splits)

lemma set_tbl_upsert:
  "set (tbl_upsert key r rows) = insert r {r' \<in> set rows. key r' \<noteq> key r}"
  by (auto simp: tbl_upsert_def tbl_get_None_iff image_iff)

lemma set_tbl_delete: "set (tbl_delete key k rows) = {r \<in> set rows. key r \<noteq> k}"
  by (auto simp: tbl_delete_def)

end
