(* ===== verification/Domain.thy ===== *)
theory Domain
  imports Tables
begin

text \<open>
  The domain models of \<^verbatim>\<open>src/src/domain\<close>: enums with the text they are stored as, money,
  orders, fills, positions, snapshots, validation results and the staleness policy. A pydantic
  model is a record together with the function \<open>mk_\<dots>\<close> that is its constructor: the field
  validators in the order of the fields, then the model validator, each rejection an exception.
  Instants are microseconds since the epoch; a naive datetime is rejected by
  \<^verbatim>\<open>_datetime.py\<close> before a model is built and has no value here. Strings are ASCII.
\<close>

section \<open>Primitive validators\<close>

type_synonym instant = int

definition is_space :: "char \<Rightarrow> bool" where
  "is_space c \<longleftrightarrow>
     c \<in> set [CHR '' '', CHR 0x09, CHR 0x0A, CHR 0x0B, CHR 0x0C, CHR 0x0D,
             CHR 0x1C, CHR 0x1D, CHR 0x1E, CHR 0x1F]"

definition strip :: "string \<Rightarrow> string" where
  "strip s = rev (dropWhile is_space (rev (dropWhile is_space s)))"

definition normalize_required_string :: "string \<Rightarrow> string result" where
  "normalize_required_string value =
     (let normalized = strip value
      in if normalized = [] then Inl (ValueError ''must not be blank.'') else Inr normalized)"

text \<open>
  What reaches \<open>to_decimal\<close>: a bool, an int, a Decimal (finite or not), text that
  \<^verbatim>\<open>Decimal\<close> parses (a float goes through \<^verbatim>\<open>str\<close>) or does not, or another object.
\<close>

datatype py_decimal = Finite decimal | NotFinite

datatype py_value =
    PyBool bool
  | PyInt int
  | PyDecimal py_decimal
  | PyFloat "py_decimal option"
  | PyStr "py_decimal option"
  | PyOther

definition require_finite_decimal :: "py_decimal \<Rightarrow> decimal result" where
  "require_finite_decimal value =
     (case value of Finite d \<Rightarrow> Inr d
      | NotFinite \<Rightarrow> Inl (ValueError ''must be a finite decimal.''))"

definition parse_decimal_string :: "py_decimal option \<Rightarrow> decimal result" where
  "parse_decimal_string value =
     (case value of None \<Rightarrow> Inl (ValueError ''must be a valid decimal.'')
      | Some parsed \<Rightarrow> require_finite_decimal parsed)"

fun to_decimal :: "py_value \<Rightarrow> decimal result" where
  "to_decimal (PyBool b) = Inl (ValueError ''must be a numeric value, not bool.'')"
| "to_decimal (PyDecimal d) = require_finite_decimal d"
| "to_decimal (PyInt i) = require_finite_decimal (Finite (of_int i))"
| "to_decimal (PyFloat s) = parse_decimal_string s"
| "to_decimal (PyStr s) = parse_decimal_string s"
| "to_decimal PyOther = Inl (ValueError ''must be a valid decimal.'')"

fun to_optional_decimal :: "py_value option \<Rightarrow> decimal option result" where
  "to_optional_decimal None = Inr None"
| "to_optional_decimal (Some v) = rbind (to_decimal v) (\<lambda>d. Inr (Some d))"

type_synonym percent = decimal

definition mk_Percent :: "py_value \<Rightarrow> percent result" where
  "mk_Percent value =
     rbind (to_decimal value) (\<lambda>parsed.
       if parsed < 0 \<or> 100 < parsed then Inl (ValueError ''percent must be between 0 and 100.'')
       else Inr parsed)"

section \<open>Enumerations\<close>

datatype market = KR | US
datatype asset_class = KR_EQUITY | US_EQUITY | GOLD | CASH
datatype account_role = KR_TAX_ADVANTAGED | US_REGULAR | CASH_BUFFER | PAPER
datatype currency = KRW | USD
datatype order_side = BUY | SELL
datatype order_type = MARKET | LIMIT
datatype order_status = PENDING | FILLED | REJECTED | CANCELLED
datatype time_in_force = DAY | IOC | FOK
datatype execution_mode =
  EM_NORMAL | EM_REBALANCING | EM_EMERGENCY_TRIGGER | EM_MDD_KILLSWITCH | EM_MANUAL

text \<open>The member values: what \<^verbatim>\<open>_enum_to_str\<close> writes to the database.\<close>

fun market_str :: "market \<Rightarrow> string" where
  "market_str KR = ''KR''" | "market_str US = ''US''"

fun asset_class_str :: "asset_class \<Rightarrow> string" where
  "asset_class_str KR_EQUITY = ''KR_EQUITY''" | "asset_class_str US_EQUITY = ''US_EQUITY''"
| "asset_class_str GOLD = ''GOLD''" | "asset_class_str CASH = ''CASH''"

fun account_role_str :: "account_role \<Rightarrow> string" where
  "account_role_str KR_TAX_ADVANTAGED = ''KR_TAX_ADVANTAGED''"
| "account_role_str US_REGULAR = ''US_REGULAR''"
| "account_role_str CASH_BUFFER = ''CASH_BUFFER''"
| "account_role_str PAPER = ''PAPER''"

fun currency_str :: "currency \<Rightarrow> string" where
  "currency_str KRW = ''KRW''" | "currency_str USD = ''USD''"

fun order_side_str :: "order_side \<Rightarrow> string" where
  "order_side_str BUY = ''BUY''" | "order_side_str SELL = ''SELL''"

fun order_type_str :: "order_type \<Rightarrow> string" where
  "order_type_str MARKET = ''MARKET''" | "order_type_str LIMIT = ''LIMIT''"

fun order_status_str :: "order_status \<Rightarrow> string" where
  "order_status_str PENDING = ''PENDING''" | "order_status_str FILLED = ''FILLED''"
| "order_status_str REJECTED = ''REJECTED''" | "order_status_str CANCELLED = ''CANCELLED''"

fun time_in_force_str :: "time_in_force \<Rightarrow> string" where
  "time_in_force_str DAY = ''DAY''" | "time_in_force_str IOC = ''IOC''"
| "time_in_force_str FOK = ''FOK''"

fun execution_mode_str :: "execution_mode \<Rightarrow> string" where
  "execution_mode_str EM_NORMAL = ''normal''"
| "execution_mode_str EM_REBALANCING = ''rebalancing''"
| "execution_mode_str EM_EMERGENCY_TRIGGER = ''emergency_trigger''"
| "execution_mode_str EM_MDD_KILLSWITCH = ''mdd_killswitch''"
| "execution_mode_str EM_MANUAL = ''manual''"

text \<open>\<^verbatim>\<open>enum_cls(value)\<close>: the member with that value, or \<^verbatim>\<open>ValueError\<close>.\<close>

definition enum_of_str :: "('e \<Rightarrow> string) \<Rightarrow> 'e list \<Rightarrow> string \<Rightarrow> 'e result" where
  "enum_of_str str members value =
     require (ValueError ''is not a valid enum member'') (find (\<lambda>m. str m = value) members)"

abbreviation "market_of_str \<equiv> enum_of_str market_str [KR, US]"
abbreviation "asset_class_of_str \<equiv>
  enum_of_str asset_class_str [KR_EQUITY, US_EQUITY, GOLD, CASH]"
abbreviation "account_role_of_str \<equiv>
  enum_of_str account_role_str [KR_TAX_ADVANTAGED, US_REGULAR, CASH_BUFFER, PAPER]"
abbreviation "currency_of_str \<equiv> enum_of_str currency_str [KRW, USD]"
abbreviation "order_side_of_str \<equiv> enum_of_str order_side_str [BUY, SELL]"
abbreviation "order_type_of_str \<equiv> enum_of_str order_type_str [MARKET, LIMIT]"
abbreviation "order_status_of_str \<equiv>
  enum_of_str order_status_str [PENDING, FILLED, REJECTED, CANCELLED]"
abbreviation "time_in_force_of_str \<equiv> enum_of_str time_in_force_str [DAY, IOC, FOK]"
abbreviation "execution_mode_of_str \<equiv> enum_of_str execution_mode_str
  [EM_NORMAL, EM_REBALANCING, EM_EMERGENCY_TRIGGER, EM_MDD_KILLSWITCH, EM_MANUAL]"

text \<open>\<^verbatim>\<open>ORDER BY\<close> on an enum column compares the stored text, so the members are
  ordered by their text.\<close>

lemma market_str_eq_iff: "market_str a = market_str b \<longleftrightarrow> a = b"
  by (cases a; cases b) simp_all

lemma account_role_str_eq_iff: "account_role_str a = account_role_str b \<longleftrightarrow> a = b"
  by (cases a; cases b) simp_all

instantiation market :: linorder
begin

definition less_eq_market :: "market \<Rightarrow> market \<Rightarrow> bool" where
  "less_eq_market a b \<longleftrightarrow> market_str a \<le> market_str b"

definition less_market :: "market \<Rightarrow> market \<Rightarrow> bool" where
  "less_market a b \<longleftrightarrow> market_str a < market_str b"

instance
  by standard (auto simp: less_eq_market_def less_market_def market_str_eq_iff
    dest: antisym)

end

instantiation account_role :: linorder
begin

definition less_eq_account_role :: "account_role \<Rightarrow> account_role \<Rightarrow> bool" where
  "less_eq_account_role a b \<longleftrightarrow> account_role_str a \<le> account_role_str b"

definition less_account_role :: "account_role \<Rightarrow> account_role \<Rightarrow> bool" where
  "less_account_role a b \<longleftrightarrow> account_role_str a < account_role_str b"

instance
  by standard (auto simp: less_eq_account_role_def less_account_role_def account_role_str_eq_iff
    dest: antisym)

end

section \<open>Money and prices\<close>

record money =
  amount :: decimal
  currency :: currency

definition money_zero :: "currency \<Rightarrow> money" where
  "money_zero c = \<lparr>amount = 0, currency = c\<rparr>"

record market_price =
  mp_symbol :: string
  mp_market :: market
  mp_currency :: currency
  mp_price :: decimal
  mp_as_of :: instant

definition mk_MarketPrice :: "market_price \<Rightarrow> market_price result" where
  "mk_MarketPrice p =
     rbind (normalize_required_string (mp_symbol p)) (\<lambda>sym.
     if mp_price p \<le> 0 then Inl (ValueError ''price must be greater than 0'')
     else Inr (p\<lparr>mp_symbol := sym\<rparr>))"

section \<open>Orders and fills\<close>

record order_intent =
  oi_order_id :: string
  oi_correlation_id :: string
  oi_symbol :: string
  oi_market :: market
  oi_asset_class :: asset_class
  oi_account_role :: account_role
  oi_side :: order_side
  oi_order_type :: order_type
  oi_execution_mode :: execution_mode
  oi_time_in_force :: time_in_force
  oi_quantity :: "decimal option"
  oi_target_weight_percent :: "decimal option"
  oi_limit_price :: "decimal option"
  oi_reason_code :: "string option"
  oi_source_decision_id :: "string option"
  oi_created_at :: instant

definition validate_order_intent :: "order_intent \<Rightarrow> order_intent result" where
  "validate_order_intent i =
     (let has_quantity = oi_quantity i \<noteq> None;
          has_target_weight = oi_target_weight_percent i \<noteq> None
      in if has_quantity \<and> has_target_weight
         then Inl (ValueError ''OrderIntent requires exactly one of quantity or target_weight_percent.'')
         else if \<not> has_quantity \<and> \<not> has_target_weight
         then Inl (ValueError ''OrderIntent requires exactly one of quantity or target_weight_percent.'')
         else if has_quantity \<and> the (oi_quantity i) \<le> 0
         then Inl (ValueError ''OrderIntent quantity must be greater than 0.'')
         else if has_target_weight \<and>
                 \<not> (0 \<le> the (oi_target_weight_percent i) \<and> the (oi_target_weight_percent i) \<le> 100)
         then Inl (ValueError ''OrderIntent target_weight_percent must be between 0 and 100.'')
         else if oi_order_type i = LIMIT \<and> (case oi_limit_price i of None \<Rightarrow> True | Some p \<Rightarrow> p \<le> 0)
         then Inl (ValueError ''LIMIT OrderIntent requires limit_price greater than 0.'')
         else if oi_order_type i = MARKET \<and> oi_limit_price i \<noteq> None
         then Inl (ValueError ''MARKET OrderIntent must not include limit_price.'')
         else Inr i)"

definition mk_OrderIntent :: "order_intent \<Rightarrow> order_intent result" where
  "mk_OrderIntent i =
     rbind (normalize_required_string (oi_order_id i)) (\<lambda>oid.
     rbind (normalize_required_string (oi_correlation_id i)) (\<lambda>cid.
     rbind (normalize_required_string (oi_symbol i)) (\<lambda>sym.
     validate_order_intent
       (i\<lparr>oi_order_id := oid, oi_correlation_id := cid, oi_symbol := sym\<rparr>))))"

record order_result =
  or_order_id :: string
  or_status :: order_status
  or_accepted :: bool
  or_rejection_reason :: "string option"
  or_created_at :: instant

definition validate_order_result :: "order_result \<Rightarrow> order_result result" where
  "validate_order_result r =
     (if or_status r = REJECTED \<and> or_accepted r
      then Inl (ValueError ''OrderResult with status=REJECTED must have accepted=False.'')
      else if \<not> or_accepted r \<and> (case or_rejection_reason r of None \<Rightarrow> True | Some s \<Rightarrow> s = '''')
      then Inl (ValueError ''OrderResult with accepted=False requires rejection_reason.'')
      else if or_accepted r \<and> or_status r \<notin> {PENDING, FILLED}
      then Inl (ValueError ''Accepted OrderResult status must be PENDING or FILLED.'')
      else Inr r)"

definition mk_OrderResult :: "order_result \<Rightarrow> order_result result" where
  "mk_OrderResult r =
     rbind (normalize_required_string (or_order_id r)) (\<lambda>oid.
     validate_order_result (r\<lparr>or_order_id := oid\<rparr>))"

record fill =
  f_fill_id :: string
  f_order_id :: string
  f_symbol :: string
  f_market :: market
  f_side :: order_side
  f_quantity :: decimal
  f_fill_price :: decimal
  f_commission :: money
  f_tax :: money
  f_slippage :: "money option"
  f_filled_at :: instant

definition mk_Fill :: "fill \<Rightarrow> fill result" where
  "mk_Fill f =
     rbind (normalize_required_string (f_fill_id f)) (\<lambda>fid.
     rbind (normalize_required_string (f_order_id f)) (\<lambda>oid.
     rbind (normalize_required_string (f_symbol f)) (\<lambda>sym.
     rbind (guard (0 < f_quantity f) (ValueError ''quantity must be greater than 0'')) (\<lambda>_.
     rbind (guard (0 < f_fill_price f) (ValueError ''fill_price must be greater than 0'')) (\<lambda>_.
     if amount (f_commission f) < 0
     then Inl (ValueError ''Fill commission.amount must be greater than or equal to 0.'')
     else if amount (f_tax f) < 0
     then Inl (ValueError ''Fill tax.amount must be greater than or equal to 0.'')
     else Inr (f\<lparr>f_fill_id := fid, f_order_id := oid, f_symbol := sym\<rparr>))))))"

section \<open>Positions, cash and portfolio snapshots\<close>

record position =
  pos_symbol :: string
  pos_market :: market
  pos_asset_class :: asset_class
  pos_account_role :: account_role
  pos_quantity :: decimal
  pos_avg_cost :: decimal
  pos_currency :: currency
  pos_market_price :: "decimal option"

definition mk_Position :: "position \<Rightarrow> position result" where
  "mk_Position p =
     rbind (normalize_required_string (pos_symbol p)) (\<lambda>sym.
     rbind (guard (0 \<le> pos_quantity p) (ValueError ''quantity must be >= 0'')) (\<lambda>_.
     rbind (guard (0 \<le> pos_avg_cost p) (ValueError ''avg_cost must be >= 0'')) (\<lambda>_.
     if (case pos_market_price p of None \<Rightarrow> False | Some mp \<Rightarrow> mp \<le> 0)
     then Inl (ValueError ''Position market_price must be greater than 0 when provided.'')
     else Inr (p\<lparr>pos_symbol := sym\<rparr>))))"

definition market_value :: "position \<Rightarrow> decimal" where
  "market_value p =
     (let price = (case pos_market_price p of Some mp \<Rightarrow> mp | None \<Rightarrow> pos_avg_cost p)
      in dmul (pos_quantity p) price)"

record cash_snapshot =
  cs_currency :: currency
  cs_amount :: decimal
  cs_account_role :: account_role
  cs_as_of :: instant

definition mk_CashSnapshot :: "cash_snapshot \<Rightarrow> cash_snapshot result" where
  "mk_CashSnapshot c =
     rbind (guard (0 \<le> cs_amount c) (ValueError ''amount must be >= 0'')) (\<lambda>_. Inr c)"

record portfolio_snapshot =
  ps_snapshot_id :: string
  ps_as_of :: instant
  ps_positions :: "position list"
  ps_cash :: "cash_snapshot list"
  ps_total_nav_krw :: decimal
  ps_cash_krw :: decimal
  ps_invested_percent :: decimal
  ps_mdd_percent :: "decimal option"

definition mk_PortfolioSnapshot :: "portfolio_snapshot \<Rightarrow> portfolio_snapshot result" where
  "mk_PortfolioSnapshot p =
     rbind (normalize_required_string (ps_snapshot_id p)) (\<lambda>sid.
     rbind (guard (0 \<le> ps_total_nav_krw p) (ValueError ''total_nav_krw must be >= 0'')) (\<lambda>_.
     rbind (guard (0 \<le> ps_cash_krw p) (ValueError ''cash_krw must be >= 0'')) (\<lambda>_.
     if \<not> (0 \<le> ps_invested_percent p \<and> ps_invested_percent p \<le> 100)
     then Inl (ValueError ''PortfolioSnapshot invested_percent must be between 0 and 100.'')
     else if (case ps_mdd_percent p of None \<Rightarrow> False | Some m \<Rightarrow> 0 < m)
     then Inl (ValueError ''PortfolioSnapshot mdd_percent must be less than or equal to 0.'')
     else Inr (p\<lparr>ps_snapshot_id := sid\<rparr>))))"

definition NAV_TOTAL_TOLERANCE_KRW :: decimal where
  "NAV_TOTAL_TOLERANCE_KRW = 1 / 100"

record nav_snapshot =
  nav_snapshot_id :: string
  nav_as_of :: instant
  nav_total_nav_krw :: decimal
  nav_cash_krw :: decimal
  nav_invested_krw :: decimal
  nav_daily_return_percent :: "decimal option"
  nav_mdd_percent :: "decimal option"

definition mk_NavSnapshot :: "nav_snapshot \<Rightarrow> nav_snapshot result" where
  "mk_NavSnapshot n =
     rbind (normalize_required_string (nav_snapshot_id n)) (\<lambda>sid.
     rbind (guard (0 \<le> nav_total_nav_krw n) (ValueError ''total_nav_krw must be >= 0'')) (\<lambda>_.
     rbind (guard (0 \<le> nav_cash_krw n) (ValueError ''cash_krw must be >= 0'')) (\<lambda>_.
     rbind (guard (0 \<le> nav_invested_krw n) (ValueError ''invested_krw must be >= 0'')) (\<lambda>_.
     let expected_total = dadd (nav_cash_krw n) (nav_invested_krw n)
     in if dabs (dsub expected_total (nav_total_nav_krw n)) > NAV_TOTAL_TOLERANCE_KRW
        then Inl (ValueError ''NavSnapshot total_nav_krw must match cash_krw + invested_krw within tolerance.'')
        else if (case nav_mdd_percent n of None \<Rightarrow> False | Some m \<Rightarrow> 0 < m)
        then Inl (ValueError ''NavSnapshot mdd_percent must be less than or equal to 0.'')
        else Inr (n\<lparr>nav_snapshot_id := sid\<rparr>)))))"

section \<open>Validation results\<close>

datatype severity = INFO | WARNING | ERROR

record validation_issue =
  vi_code :: string
  vi_message :: string
  vi_severity :: severity
  vi_path :: "string option"

record validation_result =
  vr_passed :: bool
  vr_issues :: "validation_issue list"
  vr_schema_name :: "string option"
  vr_validator_version :: "string option"

definition has_error_issue :: "validation_issue list \<Rightarrow> bool" where
  "has_error_issue issues \<longleftrightarrow> (\<exists>i \<in> set issues. vi_severity i = ERROR)"

definition mk_ValidationResult :: "validation_result \<Rightarrow> validation_result result" where
  "mk_ValidationResult r =
     (if vr_passed r \<and> has_error_issue (vr_issues r)
      then Inl (ValueError ''ValidationResult with passed=True must not contain ERROR issues.'')
      else if \<not> vr_passed r \<and> vr_issues r = []
      then Inl (ValueError ''ValidationResult with passed=False must contain at least one issue.'')
      else Inr r)"

section \<open>Staleness of sourced facts\<close>

datatype fact_type = PRICE | FLOW | FX | NEWS | DISCLOSURE | MACRO | MANUAL_FACT

definition us_per_hour :: int where
  "us_per_hour = 3600000000"

fun default_max_age :: "fact_type \<Rightarrow> int" where
  "default_max_age PRICE = 24 * us_per_hour"
| "default_max_age FLOW = 24 * us_per_hour"
| "default_max_age FX = 24 * us_per_hour"
| "default_max_age NEWS = 7 * 24 * us_per_hour"
| "default_max_age DISCLOSURE = 90 * 24 * us_per_hour"
| "default_max_age MACRO = 30 * 24 * us_per_hour"
| "default_max_age MANUAL_FACT = 365 * 24 * us_per_hour"

record staleness_policy =
  overrides :: "(fact_type \<times> int) list"

record source_record =
  sr_fact_type :: fact_type
  sr_source_timestamp :: instant

definition allowed_age_for :: "staleness_policy \<Rightarrow> fact_type \<Rightarrow> int" where
  "allowed_age_for p t =
     (case map_of (overrides p) t of Some a \<Rightarrow> a | None \<Rightarrow> default_max_age t)"

definition age :: "source_record \<Rightarrow> instant \<Rightarrow> int result" where
  "age r now =
     (if now < sr_source_timestamp r
      then Inl (ValueError ''source_timestamp must not be in the future'')
      else Inr (now - sr_source_timestamp r))"

definition is_stale :: "staleness_policy \<Rightarrow> source_record \<Rightarrow> instant \<Rightarrow> bool result" where
  "is_stale p r now = rbind (age r now) (\<lambda>a. Inr (allowed_age_for p (sr_fact_type r) < a))"

section \<open>Facts about the constructors\<close>

lemma enum_of_str_roundtrip:
  assumes "m \<in> set members" and "\<And>a b. str a = str b \<longleftrightarrow> a = b"
  shows "enum_of_str str members (str m) = Inr m"
proof -
  have "find (\<lambda>x. x = m) members = Some m"
    using assms(1) by (induction members) auto
  with assms(2) show ?thesis by (simp add: enum_of_str_def)
qed

lemma enum_roundtrips [simp, enum_text]:
  "market_of_str (market_str m) = Inr m"
  "asset_class_of_str (asset_class_str a) = Inr a"
  "account_role_of_str (account_role_str r) = Inr r"
  "currency_of_str (currency_str c) = Inr c"
  "order_side_of_str (order_side_str s) = Inr s"
  "order_type_of_str (order_type_str t) = Inr t"
  "order_status_of_str (order_status_str st) = Inr st"
  "time_in_force_of_str (time_in_force_str f) = Inr f"
  "execution_mode_of_str (execution_mode_str e) = Inr e"
  by (cases m, simp_all add: enum_of_str_def)
    (cases a, simp_all add: enum_of_str_def, cases r, simp_all add: enum_of_str_def,
     cases c, simp_all add: enum_of_str_def, cases s, simp_all add: enum_of_str_def,
     cases t, simp_all add: enum_of_str_def, cases st, simp_all add: enum_of_str_def,
     cases f, simp_all add: enum_of_str_def, cases e, simp_all add: enum_of_str_def)

lemma strip_Nil_iff: "strip s = [] \<longleftrightarrow> (\<forall>c \<in> set s. is_space c)"
proof -
  have "strip s = [] \<longleftrightarrow> (\<forall>c \<in> set (dropWhile is_space s). is_space c)"
    by (simp add: strip_def)
  also have "\<dots> \<longleftrightarrow> (\<forall>c \<in> set s. is_space c)"
    by (induction s) auto
  finally show ?thesis .
qed

text \<open>Text that a validator has normalised: it is not blank and stripping it changes nothing.\<close>

definition normalised :: "string \<Rightarrow> bool" where
  "normalised s \<longleftrightarrow> s \<noteq> [] \<and> strip s = s"

lemma hd_dropWhile_not: "dropWhile P xs \<noteq> [] \<Longrightarrow> \<not> P (hd (dropWhile P xs))"
  by (rule hd_dropWhile)

lemma strip_edges:
  assumes "s \<noteq> []" "\<not> is_space (hd s)" "\<not> is_space (last s)"
  shows "strip s = s"
proof -
  from assms(1,2) have 1: "dropWhile is_space s = s" by (cases s) auto
  have "dropWhile is_space (rev s) = rev s"
    using assms(1,3) by (cases s rule: rev_cases) auto
  with 1 show ?thesis by (simp add: strip_def)
qed

lemma strip_not_space:
  assumes "strip s \<noteq> []"
  shows "\<not> is_space (hd (strip s))" and "\<not> is_space (last (strip s))"
proof -
  define u where "u = dropWhile is_space s"
  define v where "v = dropWhile is_space (rev u)"
  have st: "strip s = rev v" by (simp add: strip_def u_def v_def)
  have v: "v \<noteq> []" using assms st by simp
  then show "\<not> is_space (last (strip s))"
    using hd_dropWhile_not [of is_space "rev u"] by (simp add: st last_rev v_def)
  obtain w where w: "rev u = w @ v"
    unfolding v_def by (metis takeWhile_dropWhile_id)
  then have u: "u = rev v @ rev w" by (metis rev_append rev_rev_ident)
  then have "u \<noteq> []" using v by simp
  then have "\<not> is_space (hd u)" unfolding u_def by (rule hd_dropWhile_not)
  moreover have "hd u = hd (strip s)" using u v by (simp add: st)
  ultimately show "\<not> is_space (hd (strip s))" by simp
qed

lemma strip_strip: "strip (strip s) = strip s"
proof (cases "strip s = []")
  case True
  show ?thesis unfolding True by (simp add: strip_def)
next
  case False
  then show ?thesis by (intro strip_edges strip_not_space)
qed

lemma normalised_append:
  assumes "normalised a" "b \<noteq> []" "\<not> is_space (last b)"
  shows "normalised (a @ b)"
proof -
  have a: "a \<noteq> []" "strip a = a" using assms(1) by (simp_all add: normalised_def)
  then have "\<not> is_space (hd a)" using strip_not_space(1) [of a] by simp
  then have "strip (a @ b) = a @ b" using a assms by (intro strip_edges) simp_all
  then show ?thesis using a by (simp add: normalised_def)
qed

lemma normalize_required_string_Inr:
  "normalize_required_string s = Inr t \<Longrightarrow> normalised t \<and> t = strip s"
  by (auto simp: normalize_required_string_def normalised_def Let_def strip_strip split: if_splits)

lemma normalize_normalised [simp]: "normalised s \<Longrightarrow> normalize_required_string s = Inr s"
  by (simp add: normalize_required_string_def normalised_def)

lemma normalised_prefix:
  assumes "normalised s" "p \<noteq> []" "\<not> is_space (hd p)"
  shows "normalised (p @ s)"
proof -
  have s: "s \<noteq> []" "\<not> is_space (last s)"
    using assms(1) strip_not_space(2) [of s] by (auto simp: normalised_def)
  then have "strip (p @ s) = p @ s" using assms(2,3) by (intro strip_edges) simp_all
  with s show ?thesis by (simp add: normalised_def)
qed

text \<open>What an accepted order intent guarantees to the broker and the ledger.\<close>

definition valid_intent :: "order_intent \<Rightarrow> bool" where
  "valid_intent i \<longleftrightarrow>
     normalised (oi_order_id i) \<and> normalised (oi_correlation_id i) \<and> normalised (oi_symbol i) \<and>
     (oi_quantity i = None) \<noteq> (oi_target_weight_percent i = None) \<and>
     (case oi_quantity i of None \<Rightarrow> True | Some q \<Rightarrow> 0 < q) \<and>
     (case oi_target_weight_percent i of None \<Rightarrow> True | Some w \<Rightarrow> 0 \<le> w \<and> w \<le> 100) \<and>
     (case oi_order_type i of
        LIMIT \<Rightarrow> (case oi_limit_price i of None \<Rightarrow> False | Some p \<Rightarrow> 0 < p)
      | MARKET \<Rightarrow> oi_limit_price i = None)"

lemma validate_order_intent_Inr:
  "validate_order_intent i = Inr j \<longleftrightarrow> j = i \<and>
     (oi_quantity i = None) \<noteq> (oi_target_weight_percent i = None) \<and>
     (case oi_quantity i of None \<Rightarrow> True | Some q \<Rightarrow> 0 < q) \<and>
     (case oi_target_weight_percent i of None \<Rightarrow> True | Some w \<Rightarrow> 0 \<le> w \<and> w \<le> 100) \<and>
     (case oi_order_type i of
        LIMIT \<Rightarrow> (case oi_limit_price i of None \<Rightarrow> False | Some p \<Rightarrow> 0 < p)
      | MARKET \<Rightarrow> oi_limit_price i = None)"
  unfolding validate_order_intent_def Let_def
  by (cases "oi_quantity i"; cases "oi_target_weight_percent i"; cases "oi_order_type i";
      cases "oi_limit_price i") (auto split: if_splits)

lemma mk_OrderIntent_valid: "mk_OrderIntent i = Inr j \<Longrightarrow> valid_intent j"
  unfolding mk_OrderIntent_def
  by (auto simp: rbind_Inr_iff validate_order_intent_Inr valid_intent_def
      dest!: normalize_required_string_Inr)

lemma mk_OrderIntent_idem: "valid_intent i \<Longrightarrow> mk_OrderIntent i = Inr i"
  unfolding mk_OrderIntent_def valid_intent_def
  by (simp add: validate_order_intent_Inr)

text \<open>Results, fills, positions and cash snapshots likewise.\<close>

definition valid_result :: "order_result \<Rightarrow> bool" where
  "valid_result r \<longleftrightarrow> normalised (or_order_id r) \<and> validate_order_result r = Inr r"

definition valid_fill :: "fill \<Rightarrow> bool" where
  "valid_fill f \<longleftrightarrow>
     normalised (f_fill_id f) \<and> normalised (f_order_id f) \<and> normalised (f_symbol f) \<and>
     0 < f_quantity f \<and> 0 < f_fill_price f \<and>
     0 \<le> amount (f_commission f) \<and> 0 \<le> amount (f_tax f)"

definition valid_position :: "position \<Rightarrow> bool" where
  "valid_position p \<longleftrightarrow>
     normalised (pos_symbol p) \<and> 0 \<le> pos_quantity p \<and> 0 \<le> pos_avg_cost p \<and>
     (case pos_market_price p of None \<Rightarrow> True | Some mp \<Rightarrow> 0 < mp)"

lemma validate_order_result_eq: "validate_order_result r = Inr s \<Longrightarrow> s = r"
  by (auto simp: validate_order_result_def split: if_splits)

lemma mk_OrderResult_valid:
  assumes "mk_OrderResult r = Inr s"
  shows "valid_result s"
proof -
  from assms obtain oid where oid: "normalize_required_string (or_order_id r) = Inr oid"
    and v: "validate_order_result (r\<lparr>or_order_id := oid\<rparr>) = Inr s"
    by (auto simp: mk_OrderResult_def rbind_Inr_iff)
  from v have "s = r\<lparr>or_order_id := oid\<rparr>" by (rule validate_order_result_eq)
  with v oid show ?thesis
    by (auto simp: valid_result_def dest: normalize_required_string_Inr)
qed

lemma mk_OrderResult_idem: "valid_result r \<Longrightarrow> mk_OrderResult r = Inr r"
  by (simp add: mk_OrderResult_def valid_result_def)

lemma mk_Fill_valid: "mk_Fill f = Inr g \<Longrightarrow> valid_fill g"
  unfolding mk_Fill_def
  by (auto simp: rbind_Inr_iff valid_fill_def dest!: normalize_required_string_Inr split: if_splits)

lemma mk_Fill_idem: "valid_fill f \<Longrightarrow> mk_Fill f = Inr f"
  by (simp add: mk_Fill_def valid_fill_def)

lemma mk_Position_valid: "mk_Position p = Inr q \<Longrightarrow> valid_position q"
  unfolding mk_Position_def
  by (auto simp: rbind_Inr_iff valid_position_def dest!: normalize_required_string_Inr
      split: if_splits option.splits)

lemma mk_Position_idem: "valid_position p \<Longrightarrow> mk_Position p = Inr p"
  by (auto simp: mk_Position_def valid_position_def split: option.splits)

end
