(* ===== verification/Decisions.thy ===== *)
theory Decisions
  imports Domain
begin

text \<open>
  The identifiers of \<^verbatim>\<open>src/src/domain/identifiers.py\<close> and the decision models that the
  language-model stages hand to the deterministic code: \<^verbatim>\<open>src/src/analysis/models.py\<close> and
  \<^verbatim>\<open>src/src/allocator/models.py\<close> with their rules. The free-form \<^verbatim>\<open>metadata\<close>
  dictionary, which no modelled operation reads, is not a field here.
\<close>

section \<open>Identifiers\<close>

definition is_digit :: "char \<Rightarrow> bool" where
  "is_digit c \<longleftrightarrow> 48 \<le> (of_char c :: nat) \<and> (of_char c :: nat) \<le> 57"

definition is_letter :: "char \<Rightarrow> bool" where
  "is_letter c \<longleftrightarrow>
     (let n = (of_char c :: nat) in 65 \<le> n \<and> n \<le> 90 \<or> 97 \<le> n \<and> n \<le> 122)"

definition nat_of_digits :: "string \<Rightarrow> nat" where
  "nat_of_digits s = foldl (\<lambda>n c. 10 * n + (of_char c - 48)) 0 s"

fun digits_of_nat :: "nat \<Rightarrow> string" where
  "digits_of_nat n =
     (if n < 10 then [char_of (48 + n)] else digits_of_nat (n div 10) @ [char_of (48 + n mod 10)])"

declare digits_of_nat.simps [simp del]

definition days_in_month :: "nat \<Rightarrow> nat \<Rightarrow> nat" where
  "days_in_month y m =
     (if m = 2 then (if y mod 4 = 0 \<and> (y mod 100 \<noteq> 0 \<or> y mod 400 = 0) then 29 else 28)
      else if m \<in> {4, 6, 9, 11} then 30 else 31)"

definition valid_date :: "nat \<Rightarrow> nat \<Rightarrow> nat \<Rightarrow> bool" where
  "valid_date y m d \<longleftrightarrow> 1 \<le> m \<and> m \<le> 12 \<and> 1 \<le> d \<and> d \<le> days_in_month y m"

text \<open>The match of \<^verbatim>\<open>(\d{6})-(\d+)\<close> against the whole text: its two groups.\<close>

definition match_date_id :: "string \<Rightarrow> (string \<times> string) option" where
  "match_date_id s =
     (let yymmdd = take 6 s; rest = drop 6 s
      in if length yymmdd = 6 \<and> list_all is_digit yymmdd \<and> rest \<noteq> [] \<and> hd rest = CHR ''-'' \<and>
            tl rest \<noteq> [] \<and> list_all is_digit (tl rest)
         then Some (yymmdd, tl rest) else None)"

text \<open>\<^verbatim>\<open>int()\<close> refuses text of more than 4300 digits with a \<^verbatim>\<open>ValueError\<close>.\<close>

definition int_of_digits :: "string \<Rightarrow> nat result" where
  "int_of_digits s =
     (if 4300 < length s then Inl (ValueError ''Exceeds the limit for integer string conversion'')
      else Inr (nat_of_digits s))"

definition parse_date_id :: "string \<Rightarrow> string result" where
  "parse_date_id value =
     (let normalized = strip value
      in if normalized = [] then Inl (ValueError ''must not be blank.'')
         else if hd normalized = CHR ''['' \<or> last normalized = CHR '']''
         then Inl (ValueError ''must use canonical format YYMMDD-N without brackets.'')
         else case match_date_id normalized of
           None \<Rightarrow> Inl (ValueError ''must match canonical format YYMMDD-N.'')
         | Some (yymmdd, sequence_text) \<Rightarrow>
             rbind (int_of_digits sequence_text) (\<lambda>sequence.
             if sequence < 1 then Inl (ValueError ''sequence must be at least 1.'')
             else if \<not> valid_date (2000 + nat_of_digits (take 2 yymmdd))
                       (nat_of_digits (take 2 (drop 2 yymmdd))) (nat_of_digits (drop 4 yymmdd))
             then Inl (ValueError ''must contain a valid calendar date.'')
             else Inr (yymmdd @ ''-'' @ digits_of_nat sequence)))"

definition date_id_from_token :: "string \<Rightarrow> string result" where
  "date_id_from_token token =
     (let stripped = strip token
      in if stripped = [] then Inl (ValueError ''date_id token must not be blank.'')
         else if hd stripped = CHR ''['' \<and> last stripped = CHR '']''
         then let inner = strip (butlast (tl stripped))
              in if inner = [] then Inl (ValueError ''date_id token must not be blank.'')
                 else parse_date_id inner
         else parse_date_id stripped)"

definition parse_non_blank_identifier :: "string \<Rightarrow> string result" where
  "parse_non_blank_identifier value =
     (if value \<noteq> strip value
      then Inl (ValueError ''must not contain leading or trailing whitespace.'')
      else let normalized = strip value
           in if normalized = [] then Inl (ValueError ''must not be blank.'')
              else if list_ex is_space normalized then Inl (ValueError ''must not contain whitespace.'')
              else Inr normalized)"

definition is_decision_id_char :: "char \<Rightarrow> bool" where
  "is_decision_id_char c \<longleftrightarrow> is_letter c \<or> is_digit c \<or> c \<in> set ''_.-''"

definition parse_decision_id :: "string \<Rightarrow> string result" where
  "parse_decision_id value =
     rbind (parse_non_blank_identifier value) (\<lambda>normalized.
       if \<not> (normalized \<noteq> [] \<and> list_all is_decision_id_char normalized)
       then Inl (ValueError ''may contain only letters, digits, _, - and .'')
       else Inr normalized)"

definition decision_id_from_hash :: "string \<Rightarrow> string \<Rightarrow> string result" where
  "decision_id_from_hash schema_name payload_hash =
     rbind (parse_non_blank_identifier schema_name) (\<lambda>normalized_schema.
     rbind (parse_non_blank_identifier payload_hash) (\<lambda>normalized_hash.
     parse_decision_id (normalized_schema @ ''-'' @ normalized_hash)))"

section \<open>Shared parts of the decision models\<close>

definition normalize_optional_string :: "string option \<Rightarrow> string option result" where
  "normalize_optional_string x =
     (case x of None \<Rightarrow> Inr None
      | Some s \<Rightarrow> rbind (normalize_required_string s) (\<lambda>t. Inr (Some t)))"

record decision_reason =
  rs_reason :: string
  rs_date_id :: string
  rs_source_name :: "string option"
  rs_quote :: "string option"

definition mk_AnalysisReason :: "decision_reason \<Rightarrow> decision_reason result" where
  "mk_AnalysisReason r =
     rbind (normalize_required_string (rs_reason r)) (\<lambda>reason.
     rbind (parse_date_id (rs_date_id r)) (\<lambda>did.
     rbind (normalize_optional_string (rs_source_name r)) (\<lambda>source.
     rbind (normalize_optional_string (rs_quote r)) (\<lambda>quote.
     Inr \<lparr>rs_reason = reason, rs_date_id = did, rs_source_name = source, rs_quote = quote\<rparr>))))"

definition mk_AllocatorReason :: "decision_reason \<Rightarrow> decision_reason result" where
  "mk_AllocatorReason r = mk_AnalysisReason r"

definition validate_non_empty_reasons :: "decision_reason list \<Rightarrow> unit result" where
  "validate_non_empty_reasons reasons =
     guard (reasons \<noteq> []) (ValueError ''must contain at least one reason.'')"

definition validate_non_empty_string_tuple :: "string list \<Rightarrow> unit result" where
  "validate_non_empty_string_tuple items =
     guard (items \<noteq> []) (ValueError ''must contain at least one item.'')"

definition normalize_string_tuple :: "string list \<Rightarrow> string list result" where
  "normalize_string_tuple = traverse normalize_required_string"

definition SUMMARY_ONE_LINER_MAX_LENGTH :: nat where
  "SUMMARY_ONE_LINER_MAX_LENGTH = 200"

definition validate_summary_one_liner :: "string \<Rightarrow> string result" where
  "validate_summary_one_liner s =
     rbind (normalize_required_string s) (\<lambda>v.
     rbind (guard (length v \<le> SUMMARY_ONE_LINER_MAX_LENGTH)
       (ValueError ''summary_one_liner must be at most 200 characters.'')) (\<lambda>_. Inr v))"

definition validate_schema_name :: "string \<Rightarrow> string \<Rightarrow> string result" where
  "validate_schema_name expected s =
     rbind (normalize_required_string s) (\<lambda>v.
     rbind (guard (v = expected) (ValueError ''schema_name must be the expected schema.'')) (\<lambda>_. Inr v))"

section \<open>The analysis decision\<close>

definition ANALYSIS_DECISION_SCHEMA :: string where
  "ANALYSIS_DECISION_SCHEMA = ''analysis_decision.v1''"

datatype analysis_action = Action_BUY | Action_SELL | Action_HOLD

record bear_perspective =
  be_summary :: string
  be_risks :: "string list"
  be_reasons :: "decision_reason list"

record bull_perspective =
  bu_summary :: string
  bu_catalysts :: "string list"
  bu_reasons :: "decision_reason list"

record risk_manager_evaluation =
  rm_summary :: string
  rm_risk_flags :: "string list"
  rm_max_weight_percent :: "percent option"
  rm_reasons :: "decision_reason list"

record fund_manager_decision =
  fm_action :: analysis_action
  fm_target_weight_percent :: percent
  fm_rationale :: string
  fm_reasons :: "decision_reason list"

record analysis_decision =
  an_decision_id :: string
  an_created_at :: instant
  an_schema_name :: string
  an_universe :: string
  an_symbol :: string
  an_market :: string
  an_summary_one_liner :: string
  an_bear :: bear_perspective
  an_bull :: bull_perspective
  an_risk_manager :: risk_manager_evaluation
  an_fund_manager :: fund_manager_decision
  an_reasons :: "decision_reason list"

definition percent_ok :: "decimal \<Rightarrow> unit result" where
  "percent_ok v = guard (0 \<le> v \<and> v \<le> 100) (ValueError ''percent must be between 0 and 100.'')"

definition mk_BearPerspective :: "bear_perspective \<Rightarrow> bear_perspective result" where
  "mk_BearPerspective b =
     rbind (normalize_required_string (be_summary b)) (\<lambda>summary.
     rbind (normalize_string_tuple (be_risks b)) (\<lambda>risks.
     rbind (traverse mk_AnalysisReason (be_reasons b)) (\<lambda>reasons.
     rbind (validate_non_empty_string_tuple risks) (\<lambda>_.
     rbind (validate_non_empty_reasons reasons) (\<lambda>_.
     Inr \<lparr>be_summary = summary, be_risks = risks, be_reasons = reasons\<rparr>)))))"

definition mk_BullPerspective :: "bull_perspective \<Rightarrow> bull_perspective result" where
  "mk_BullPerspective b =
     rbind (normalize_required_string (bu_summary b)) (\<lambda>summary.
     rbind (normalize_string_tuple (bu_catalysts b)) (\<lambda>catalysts.
     rbind (traverse mk_AnalysisReason (bu_reasons b)) (\<lambda>reasons.
     rbind (validate_non_empty_string_tuple catalysts) (\<lambda>_.
     rbind (validate_non_empty_reasons reasons) (\<lambda>_.
     Inr \<lparr>bu_summary = summary, bu_catalysts = catalysts, bu_reasons = reasons\<rparr>)))))"

definition mk_RiskManagerEvaluation :: "risk_manager_evaluation \<Rightarrow> risk_manager_evaluation result" where
  "mk_RiskManagerEvaluation r =
     rbind (normalize_required_string (rm_summary r)) (\<lambda>summary.
     rbind (normalize_string_tuple (rm_risk_flags r)) (\<lambda>flags.
     rbind (case rm_max_weight_percent r of None \<Rightarrow> Inr () | Some w \<Rightarrow> percent_ok w) (\<lambda>_.
     rbind (traverse mk_AnalysisReason (rm_reasons r)) (\<lambda>reasons.
     rbind (validate_non_empty_reasons reasons) (\<lambda>_.
     Inr \<lparr>rm_summary = summary, rm_risk_flags = flags,
          rm_max_weight_percent = rm_max_weight_percent r, rm_reasons = reasons\<rparr>)))))"

definition mk_FundManagerDecision :: "fund_manager_decision \<Rightarrow> fund_manager_decision result" where
  "mk_FundManagerDecision f =
     rbind (percent_ok (fm_target_weight_percent f)) (\<lambda>_.
     rbind (normalize_required_string (fm_rationale f)) (\<lambda>rationale.
     rbind (traverse mk_AnalysisReason (fm_reasons f)) (\<lambda>reasons.
     rbind (validate_non_empty_reasons reasons) (\<lambda>_.
     Inr (f\<lparr>fm_rationale := rationale, fm_reasons := reasons\<rparr>)))))"

definition mk_AnalysisDecision :: "analysis_decision \<Rightarrow> analysis_decision result" where
  "mk_AnalysisDecision d =
     rbind (parse_decision_id (an_decision_id d)) (\<lambda>did.
     rbind (validate_schema_name ANALYSIS_DECISION_SCHEMA (an_schema_name d)) (\<lambda>schema.
     rbind (normalize_required_string (an_universe d)) (\<lambda>universe.
     rbind (normalize_required_string (an_symbol d)) (\<lambda>symbol.
     rbind (normalize_required_string (an_market d)) (\<lambda>market_text.
     rbind (validate_summary_one_liner (an_summary_one_liner d)) (\<lambda>summary.
     rbind (mk_BearPerspective (an_bear d)) (\<lambda>bear.
     rbind (mk_BullPerspective (an_bull d)) (\<lambda>bull.
     rbind (mk_RiskManagerEvaluation (an_risk_manager d)) (\<lambda>rm.
     rbind (mk_FundManagerDecision (an_fund_manager d)) (\<lambda>fm.
     rbind (traverse mk_AnalysisReason (an_reasons d)) (\<lambda>reasons.
     rbind (validate_non_empty_reasons reasons) (\<lambda>_.
     Inr \<lparr>an_decision_id = did, an_created_at = an_created_at d, an_schema_name = schema,
          an_universe = universe, an_symbol = symbol, an_market = market_text,
          an_summary_one_liner = summary, an_bear = bear, an_bull = bull,
          an_risk_manager = rm, an_fund_manager = fm, an_reasons = reasons\<rparr>))))))))))))"

section \<open>The allocator decision\<close>

definition ALLOCATOR_DECISION_SCHEMA :: string where
  "ALLOCATOR_DECISION_SCHEMA = ''allocator_decision.v1''"

datatype asset_bucket = Bucket_KR | Bucket_US | Bucket_GOLD
datatype gold_policy_mode = Gold_NORMAL | Gold_EXCEPTION

record target_weights =
  tw_kr :: percent
  tw_us :: percent
  tw_gold :: percent

record cash_policy =
  cp_cash_target_percent :: percent
  cp_min_cash_percent :: "percent option"
  cp_max_cash_percent :: "percent option"
  cp_rationale :: string
  cp_reasons :: "decision_reason list"

record signal_summary =
  ss_summary :: string
  ss_reasons :: "decision_reason list"

record cash_manager_view =
  cm_summary :: string
  cm_recommended_cash_percent :: percent
  cm_reasons :: "decision_reason list"

record asset_allocator_view =
  aa_summary :: string
  aa_target_weights :: target_weights
  aa_reasons :: "decision_reason list"

record consistency_checker_view =
  cc_passed :: bool
  cc_summary :: string
  cc_issues :: "string list"
  cc_reasons :: "decision_reason list"

record allocator_decision =
  al_decision_id :: string
  al_created_at :: instant
  al_schema_name :: string
  al_universe :: string
  al_summary_one_liner :: string
  al_gold_policy_mode :: gold_policy_mode
  al_signal_summary :: signal_summary
  al_cash_manager :: cash_manager_view
  al_asset_allocator :: asset_allocator_view
  al_consistency_checker :: consistency_checker_view
  al_cash_policy :: cash_policy
  al_target_weights :: target_weights
  al_reasons :: "decision_reason list"

definition mk_TargetWeights :: "target_weights \<Rightarrow> target_weights result" where
  "mk_TargetWeights w =
     rbind (percent_ok (tw_kr w)) (\<lambda>_. rbind (percent_ok (tw_us w)) (\<lambda>_.
     rbind (percent_ok (tw_gold w)) (\<lambda>_. Inr w)))"

definition mk_CashPolicy :: "cash_policy \<Rightarrow> cash_policy result" where
  "mk_CashPolicy c =
     rbind (percent_ok (cp_cash_target_percent c)) (\<lambda>_.
     rbind (case cp_min_cash_percent c of None \<Rightarrow> Inr () | Some w \<Rightarrow> percent_ok w) (\<lambda>_.
     rbind (case cp_max_cash_percent c of None \<Rightarrow> Inr () | Some w \<Rightarrow> percent_ok w) (\<lambda>_.
     rbind (normalize_required_string (cp_rationale c)) (\<lambda>rationale.
     rbind (traverse mk_AllocatorReason (cp_reasons c)) (\<lambda>reasons.
     rbind (validate_non_empty_reasons reasons) (\<lambda>_.
     let target = cp_cash_target_percent c
     in if (case (cp_min_cash_percent c, cp_max_cash_percent c) of
              (Some lo, Some hi) \<Rightarrow> hi < lo | _ \<Rightarrow> False)
        then Inl (ValueError ''min_cash_percent must be <= max_cash_percent.'')
        else if (case cp_min_cash_percent c of Some lo \<Rightarrow> target < lo | None \<Rightarrow> False)
        then Inl (ValueError ''cash_target_percent must be >= min_cash_percent.'')
        else if (case cp_max_cash_percent c of Some hi \<Rightarrow> hi < target | None \<Rightarrow> False)
        then Inl (ValueError ''cash_target_percent must be <= max_cash_percent.'')
        else Inr (c\<lparr>cp_rationale := rationale, cp_reasons := reasons\<rparr>)))))))"

definition mk_SignalSummary :: "signal_summary \<Rightarrow> signal_summary result" where
  "mk_SignalSummary v =
     rbind (normalize_required_string (ss_summary v)) (\<lambda>summary.
     rbind (traverse mk_AllocatorReason (ss_reasons v)) (\<lambda>reasons.
     rbind (validate_non_empty_reasons reasons) (\<lambda>_.
     Inr \<lparr>ss_summary = summary, ss_reasons = reasons\<rparr>)))"

definition mk_CashManagerView :: "cash_manager_view \<Rightarrow> cash_manager_view result" where
  "mk_CashManagerView v =
     rbind (normalize_required_string (cm_summary v)) (\<lambda>summary.
     rbind (percent_ok (cm_recommended_cash_percent v)) (\<lambda>_.
     rbind (traverse mk_AllocatorReason (cm_reasons v)) (\<lambda>reasons.
     rbind (validate_non_empty_reasons reasons) (\<lambda>_.
     Inr (v\<lparr>cm_summary := summary, cm_reasons := reasons\<rparr>)))))"

definition mk_AssetAllocatorView :: "asset_allocator_view \<Rightarrow> asset_allocator_view result" where
  "mk_AssetAllocatorView v =
     rbind (normalize_required_string (aa_summary v)) (\<lambda>summary.
     rbind (mk_TargetWeights (aa_target_weights v)) (\<lambda>weights.
     rbind (traverse mk_AllocatorReason (aa_reasons v)) (\<lambda>reasons.
     rbind (validate_non_empty_reasons reasons) (\<lambda>_.
     Inr \<lparr>aa_summary = summary, aa_target_weights = weights, aa_reasons = reasons\<rparr>))))"

definition mk_ConsistencyCheckerView ::
  "consistency_checker_view \<Rightarrow> consistency_checker_view result" where
  "mk_ConsistencyCheckerView v =
     rbind (normalize_required_string (cc_summary v)) (\<lambda>summary.
     rbind (normalize_string_tuple (cc_issues v)) (\<lambda>issues.
     rbind (traverse mk_AllocatorReason (cc_reasons v)) (\<lambda>reasons.
     rbind (validate_non_empty_reasons reasons) (\<lambda>_.
     Inr (v\<lparr>cc_summary := summary, cc_issues := issues, cc_reasons := reasons\<rparr>)))))"

definition mk_AllocatorDecision :: "allocator_decision \<Rightarrow> allocator_decision result" where
  "mk_AllocatorDecision d =
     rbind (parse_decision_id (al_decision_id d)) (\<lambda>did.
     rbind (validate_schema_name ALLOCATOR_DECISION_SCHEMA (al_schema_name d)) (\<lambda>schema.
     rbind (normalize_required_string (al_universe d)) (\<lambda>universe.
     rbind (validate_summary_one_liner (al_summary_one_liner d)) (\<lambda>summary.
     rbind (mk_SignalSummary (al_signal_summary d)) (\<lambda>signal.
     rbind (mk_CashManagerView (al_cash_manager d)) (\<lambda>cm.
     rbind (mk_AssetAllocatorView (al_asset_allocator d)) (\<lambda>aa.
     rbind (mk_ConsistencyCheckerView (al_consistency_checker d)) (\<lambda>cc.
     rbind (mk_CashPolicy (al_cash_policy d)) (\<lambda>cp.
     rbind (mk_TargetWeights (al_target_weights d)) (\<lambda>weights.
     rbind (traverse mk_AllocatorReason (al_reasons d)) (\<lambda>reasons.
     rbind (validate_non_empty_reasons reasons) (\<lambda>_.
     Inr \<lparr>al_decision_id = did, al_created_at = al_created_at d, al_schema_name = schema,
          al_universe = universe, al_summary_one_liner = summary,
          al_gold_policy_mode = al_gold_policy_mode d, al_signal_summary = signal,
          al_cash_manager = cm, al_asset_allocator = aa, al_consistency_checker = cc,
          al_cash_policy = cp, al_target_weights = weights, al_reasons = reasons\<rparr>))))))))))))"

section \<open>Allocator and analysis rules\<close>

definition CASH_TARGET_MIN :: decimal where "CASH_TARGET_MIN = 10"
definition CASH_TARGET_MAX :: decimal where "CASH_TARGET_MAX = 30"
definition GOLD_NORMAL_MIN :: decimal where "GOLD_NORMAL_MIN = 18"
definition GOLD_NORMAL_MAX :: decimal where "GOLD_NORMAL_MAX = 22"
definition GOLD_EXCEPTION_MIN :: decimal where "GOLD_EXCEPTION_MIN = 15"
definition GOLD_EXCEPTION_MAX :: decimal where "GOLD_EXCEPTION_MAX = 25"
definition TARGET_WEIGHTS_REQUIRED_SUM :: decimal where "TARGET_WEIGHTS_REQUIRED_SUM = 100"

definition target_weights_sum :: "target_weights \<Rightarrow> decimal" where
  "target_weights_sum w = dadd (dadd (tw_kr w) (tw_us w)) (tw_gold w)"

definition is_target_weights_sum_valid :: "target_weights \<Rightarrow> bool" where
  "is_target_weights_sum_valid w \<longleftrightarrow> target_weights_sum w = TARGET_WEIGHTS_REQUIRED_SUM"

definition is_cash_target_in_band :: "percent \<Rightarrow> bool" where
  "is_cash_target_in_band v \<longleftrightarrow> CASH_TARGET_MIN \<le> v \<and> v \<le> CASH_TARGET_MAX"

definition is_gold_in_band :: "percent \<Rightarrow> gold_policy_mode \<Rightarrow> bool" where
  "is_gold_in_band v mode \<longleftrightarrow>
     (if mode = Gold_NORMAL then GOLD_NORMAL_MIN \<le> v \<and> v \<le> GOLD_NORMAL_MAX
      else GOLD_EXCEPTION_MIN \<le> v \<and> v \<le> GOLD_EXCEPTION_MAX)"

definition target_weights_equal :: "target_weights \<Rightarrow> target_weights \<Rightarrow> bool" where
  "target_weights_equal a b \<longleftrightarrow> tw_kr a = tw_kr b \<and> tw_us a = tw_us b \<and> tw_gold a = tw_gold b"

definition percent_equal :: "percent \<Rightarrow> percent \<Rightarrow> bool" where
  "percent_equal a b \<longleftrightarrow> a = b"

definition is_within_allocator_tolerance :: "percent \<Rightarrow> percent \<Rightarrow> percent \<Rightarrow> bool" where
  "is_within_allocator_tolerance target_weight allocator_target_weight tolerance_percent \<longleftrightarrow>
     dsub allocator_target_weight tolerance_percent \<le> target_weight \<and>
     target_weight \<le> dadd allocator_target_weight tolerance_percent"

definition tolerance_band :: "percent \<Rightarrow> percent \<Rightarrow> decimal \<times> decimal" where
  "tolerance_band allocator_target_weight tolerance_percent =
     (dsub allocator_target_weight tolerance_percent, dadd allocator_target_weight tolerance_percent)"

section \<open>Canonical identifiers\<close>

lemma nat_of_digits_snoc:
  "nat_of_digits (s @ [c]) = 10 * nat_of_digits s + (of_char c - 48)"
  by (simp add: nat_of_digits_def)

lemma of_char_digit: "d < 10 \<Longrightarrow> (of_char (char_of (48 + d) :: char) :: nat) = 48 + d"
  by (simp add: of_char_of)

lemma digits_of_nat_digits: "list_all is_digit (digits_of_nat n) \<and> digits_of_nat n \<noteq> []"
proof (induction n rule: digits_of_nat.induct)
  case (1 n)
  have "is_digit (char_of (48 + d))" if "d < 10" for d :: nat
    using that by (simp add: is_digit_def of_char_of)
  with "1" show ?case by (subst (1 2) digits_of_nat.simps) auto
qed

lemma nat_of_digits_of_nat: "nat_of_digits (digits_of_nat n) = n"
proof (induction n rule: digits_of_nat.induct)
  case (1 n)
  have last: "of_char (char_of (48 + n mod 10) :: char) = 48 + n mod 10" by (rule of_char_digit) simp
  show ?case
  proof (cases "n < 10")
    case True
    then show ?thesis
      by (simp add: digits_of_nat.simps [of n] nat_of_digits_def of_char_of)
  next
    case False
    then show ?thesis
      using "1" by (simp add: digits_of_nat.simps [of n] nat_of_digits_snoc last)
  qed
qed

lemma nat_of_digits_bound: "list_all is_digit s \<Longrightarrow> nat_of_digits s < 10 ^ length s"
proof (induction s rule: rev_induct)
  case Nil
  show ?case by (simp add: nat_of_digits_def)
next
  case (snoc c s)
  then have "nat_of_digits s < 10 ^ length s" and c: "of_char c - 48 < (10::nat)"
    by (auto simp: is_digit_def)
  then show ?case by (simp add: nat_of_digits_snoc)
qed

lemma length_digits_of_nat: "n < 10 ^ k \<Longrightarrow> 0 < k \<Longrightarrow> length (digits_of_nat n) \<le> k"
proof (induction n arbitrary: k rule: digits_of_nat.induct)
  case (1 n)
  show ?case
  proof (cases "n < 10")
    case True
    then show ?thesis using "1.prems" by (simp add: digits_of_nat.simps [of n])
  next
    case False
    obtain j where k: "k = Suc j" using "1.prems" by (cases k) auto
    with False "1.prems" have "0 < j" by (cases j) auto
    moreover have "n div 10 < 10 ^ j" using "1.prems" k by simp
    ultimately have "length (digits_of_nat (n div 10)) \<le> j" using False "1.IH" by blast
    then show ?thesis using False k by (simp add: digits_of_nat.simps [of n])
  qed
qed

lemma digit_not_special: "is_digit c \<Longrightarrow> \<not> is_space c \<and> c \<noteq> CHR ''['' \<and> c \<noteq> CHR '']''"
  by (auto simp: is_digit_def is_space_def)

lemma parse_date_id_shape:
  assumes "parse_date_id s = Inr t"
  obtains y n where "t = y @ ''-'' @ digits_of_nat n" "length y = 6" "list_all is_digit y" "1 \<le> n"
    "length (digits_of_nat n) \<le> 4300"
    "valid_date (2000 + nat_of_digits (take 2 y)) (nat_of_digits (take 2 (drop 2 y)))
       (nat_of_digits (drop 4 y))"
proof -
  from assms obtain y q where m: "match_date_id (strip s) = Some (y, q)"
    and len: "length q \<le> 4300" and n: "1 \<le> nat_of_digits q"
    and d: "valid_date (2000 + nat_of_digits (take 2 y)) (nat_of_digits (take 2 (drop 2 y)))
       (nat_of_digits (drop 4 y))"
    and t: "t = y @ ''-'' @ digits_of_nat (nat_of_digits q)"
    by (auto simp: parse_date_id_def Let_def int_of_digits_def rbind_Inr_iff
        split: if_splits option.splits prod.splits)
  from m have y: "length y = 6" "list_all is_digit y" and q: "list_all is_digit q" "q \<noteq> []"
    by (auto simp: match_date_id_def Let_def split: if_splits)
  have "length (digits_of_nat (nat_of_digits q)) \<le> length q"
    using nat_of_digits_bound [OF q(1)] q(2) by (intro length_digits_of_nat) simp_all
  with len have "length (digits_of_nat (nat_of_digits q)) \<le> 4300" by simp
  with t y n d show thesis by (intro that)
qed

lemma parse_date_id_canonical:
  assumes "length y = 6" "list_all is_digit y" "1 \<le> n" "length (digits_of_nat n) \<le> 4300"
    "valid_date (2000 + nat_of_digits (take 2 y)) (nat_of_digits (take 2 (drop 2 y)))
       (nat_of_digits (drop 4 y))"
  shows "normalised (y @ ''-'' @ digits_of_nat n)"
    and "parse_date_id (y @ ''-'' @ digits_of_nat n) = Inr (y @ ''-'' @ digits_of_nat n)"
proof -
  let ?t = "y @ ''-'' @ digits_of_nat n"
  have y: "y \<noteq> []" "is_digit (hd y)" using assms(1,2) by (cases y; simp)+
  have n: "digits_of_nat n \<noteq> []" "is_digit (last (digits_of_nat n))"
    using digits_of_nat_digits [of n] by (auto simp: list_all_iff)
  have "strip ?t = ?t"
    using y n digit_not_special by (intro strip_edges) auto
  then show norm: "normalised ?t" using y by (simp add: normalised_def)
  have "match_date_id ?t = Some (y, digits_of_nat n)"
    using assms(1,2) digits_of_nat_digits [of n] by (simp add: match_date_id_def)
  then show "parse_date_id ?t = Inr ?t"
    using \<open>strip ?t = ?t\<close> y n assms digit_not_special
    by (simp add: parse_date_id_def int_of_digits_def nat_of_digits_of_nat)
qed

lemma parse_decision_id_Inr:
  "parse_decision_id s = Inr t \<longleftrightarrow> t = s \<and> s \<noteq> [] \<and> list_all is_decision_id_char s"
proof -
  have "\<not> is_space c" if "is_decision_id_char c" for c
    using that by (auto simp: is_decision_id_char_def is_letter_def is_digit_def is_space_def Let_def)
  then have "strip s = s" "\<not> list_ex is_space s" if "s \<noteq> []" "list_all is_decision_id_char s"
    using that by (auto simp: list_all_iff list_ex_iff intro!: strip_edges)
  then show ?thesis
    by (auto simp: parse_decision_id_def parse_non_blank_identifier_def rbind_Inr_iff Let_def
        split: if_splits)
qed

lemma parse_decision_id_normalised: "parse_decision_id s = Inr t \<Longrightarrow> normalised t"
  by (auto simp: parse_decision_id_def parse_non_blank_identifier_def normalised_def rbind_Inr_iff
      Let_def strip_strip split: if_splits)

text \<open>What the risk filter and the order generator use of an accepted analysis decision.\<close>

lemma mk_AnalysisDecision_valid:
  assumes "mk_AnalysisDecision d = Inr e"
  shows "normalised (an_decision_id e)" "list_all is_decision_id_char (an_decision_id e)"
    "an_schema_name e = ANALYSIS_DECISION_SCHEMA" "normalised (an_symbol e)"
    "0 \<le> fm_target_weight_percent (an_fund_manager e)"
    "fm_target_weight_percent (an_fund_manager e) \<le> 100"
proof -
  from assms have
    "parse_decision_id (an_decision_id d) = Inr (an_decision_id e)"
    "validate_schema_name ANALYSIS_DECISION_SCHEMA (an_schema_name d) = Inr (an_schema_name e)"
    "normalize_required_string (an_symbol d) = Inr (an_symbol e)"
    "mk_FundManagerDecision (an_fund_manager d) = Inr (an_fund_manager e)"
    by (auto simp: mk_AnalysisDecision_def rbind_Inr_iff)
  then show "normalised (an_decision_id e)" "list_all is_decision_id_char (an_decision_id e)"
    "an_schema_name e = ANALYSIS_DECISION_SCHEMA" "normalised (an_symbol e)"
    by (auto simp: parse_decision_id_normalised validate_schema_name_def rbind_Inr_iff
        parse_decision_id_Inr dest: normalize_required_string_Inr)
  have "fm_target_weight_percent g = fm_target_weight_percent f \<and>
      0 \<le> fm_target_weight_percent f \<and> fm_target_weight_percent f \<le> 100"
    if "mk_FundManagerDecision f = Inr g" for f g
    using that by (auto simp: mk_FundManagerDecision_def percent_ok_def rbind_Inr_iff)
  then show "0 \<le> fm_target_weight_percent (an_fund_manager e)"
    "fm_target_weight_percent (an_fund_manager e) \<le> 100"
    using \<open>mk_FundManagerDecision (an_fund_manager d) = Inr (an_fund_manager e)\<close> by metis+
qed

section \<open>Properties of the identifiers\<close>

text \<open>
  Date-IDs have one canonical spelling: what the parser returns is a fixed point of the parser
  and of the token parser, bare or in brackets, so evidence references compare as text.
\<close>

theorem date_id_roundtrip:
  assumes "parse_date_id s = Inr t"
  shows "parse_date_id t = Inr t \<and> date_id_from_token t = Inr t \<and>
    date_id_from_token (''['' @ t @ '']'') = Inr t"
proof -
  obtain y n where t: "t = y @ ''-'' @ digits_of_nat n" and parts: "length y = 6" "list_all is_digit y"
    "1 \<le> n" "length (digits_of_nat n) \<le> 4300"
    "valid_date (2000 + nat_of_digits (take 2 y)) (nat_of_digits (take 2 (drop 2 y)))
       (nat_of_digits (drop 4 y))"
    using assms by (rule parse_date_id_shape)
  note canon = parse_date_id_canonical [OF parts, folded t]
  have st: "strip t = t" "t \<noteq> []" using canon(1) by (simp_all add: normalised_def)
  have hd: "hd t \<noteq> CHR ''[''" using t parts digit_not_special by (cases y) auto
  have "strip (''['' @ t @ '']'') = ''['' @ t @ '']''" by (rule strip_edges) (simp_all add: is_space_def)
  with st canon(2) have "date_id_from_token (''['' @ t @ '']'') = Inr t"
    by (simp add: date_id_from_token_def butlast_append)
  moreover have "date_id_from_token t = Inr t"
    using st hd canon(2) by (simp add: date_id_from_token_def)
  ultimately show ?thesis using canon(2) by simp
qed

theorem date_id_roundtrip_witness:
  "parse_date_id ''260522-1'' = Inr ''260522-1'' \<and> date_id_from_token ''260522-1'' = Inr ''260522-1'' \<and>
    date_id_from_token (''['' @ ''260522-1'' @ '']'') = Inr ''260522-1''"
  by (rule date_id_roundtrip [of "''  260522-001 ''"]) code_simp

end
