(* ===== verification/Trigger_Journal.thy ===== *)
theory Trigger_Journal
  imports Decisions
begin

text \<open>
  The persistent fire journal: \<^verbatim>\<open>src/src/execution/trigger_journal.py\<close> and
  \<^verbatim>\<open>sqlite_trigger_journal.py\<close>. The journal is a keyed list of records, one per
  idempotency key; an operation returns the new journal and its value, or the exception, in which
  case the transaction has rolled back and the journal is the old one. Identifiers, the market and
  the action are their text (objects that \<^verbatim>\<open>_coerce_text\<close> rejects have no text here).
  Timestamps are normalised to UTC before they are stored, so the text order of the
  \<^verbatim>\<open>ORDER BY\<close> is the order of the instants.
\<close>

section \<open>Data\<close>

datatype journal_state = JS_RESERVED | JS_DISPATCHING | JS_COMMITTED | JS_ABORTED | JS_UNCERTAIN

definition TERMINAL_STATES :: "journal_state set" where
  "TERMINAL_STATES = {JS_COMMITTED, JS_ABORTED, JS_UNCERTAIN}"

definition NONTERMINAL_STATES :: "journal_state set" where
  "NONTERMINAL_STATES = {JS_RESERVED, JS_DISPATCHING}"

datatype reserve_outcome = RESERVED_NEW | EXISTING_TERMINAL | EXISTING_PENDING

datatype journal_result_status = JR_FILLED | JR_PARTIALLY_FILLED | JR_REJECTED | JR_CANCELLED | JR_PENDING

datatype journal_error =
    TriggerJournalError string
  | IllegalTransitionError
  | RecordNotFoundError
  | IdentityCollisionError
  | OrderIdConflictError
  | NonMonotonicTimestampError

record trigger_journal_record =
  tj_idempotency_key :: string
  tj_trigger_id :: string
  tj_decision_id :: string
  tj_plan_id :: string
  tj_market :: string
  tj_symbol :: string
  tj_action :: string
  tj_state :: journal_state
  tj_order_id :: "string option"
  tj_result_status :: "journal_result_status option"
  tj_reason_code :: "string option"
  tj_triggered_at :: instant
  tj_reserved_at :: instant
  tj_dispatching_at :: "instant option"
  tj_finalized_at :: "instant option"
  tj_updated_at :: instant

type_synonym journal = "trigger_journal_record list"

record fire_signal =
  fs_idempotency_key :: string
  fs_trigger_id :: string
  fs_decision_id :: string
  fs_plan_id :: string
  fs_market :: string
  fs_symbol :: string
  fs_action :: string
  fs_triggered_at :: instant

section \<open>Operations\<close>

definition require_nonblank :: "string \<Rightarrow> journal_error + string" where
  "require_nonblank text =
     (if strip text = [] then Inl (TriggerJournalError ''must not be blank.'') else Inr text)"

definition coerce_enum :: "string list \<Rightarrow> string \<Rightarrow> journal_error + string" where
  "coerce_enum members text =
     (if text \<in> set members then Inr text else Inl (TriggerJournalError ''unknown member''))"

definition coerce_signal :: "fire_signal \<Rightarrow> journal_error + fire_signal" where
  "coerce_signal s =
     rbind (require_nonblank (fs_idempotency_key s)) (\<lambda>_.
     rbind (require_nonblank (fs_trigger_id s)) (\<lambda>_.
     rbind (require_nonblank (fs_decision_id s)) (\<lambda>_.
     rbind (require_nonblank (fs_plan_id s)) (\<lambda>_.
     rbind (coerce_enum [''KR'', ''US''] (fs_market s)) (\<lambda>_.
     rbind (require_nonblank (fs_symbol s)) (\<lambda>_.
     rbind (coerce_enum [''buy'', ''sell'', ''hold''] (fs_action s)) (\<lambda>_.
     Inr s)))))))"

definition journal_get :: "journal \<Rightarrow> string \<Rightarrow> trigger_journal_record option" where
  "journal_get j key = tbl_get tj_idempotency_key key j"

definition require_record :: "journal \<Rightarrow> string \<Rightarrow> journal_error + trigger_journal_record" where
  "require_record j key = require RecordNotFoundError (journal_get j key)"

definition new_record :: "fire_signal \<Rightarrow> instant \<Rightarrow> trigger_journal_record" where
  "new_record s now =
     \<lparr>tj_idempotency_key = fs_idempotency_key s, tj_trigger_id = fs_trigger_id s,
      tj_decision_id = fs_decision_id s, tj_plan_id = fs_plan_id s, tj_market = fs_market s,
      tj_symbol = fs_symbol s, tj_action = fs_action s, tj_state = JS_RESERVED,
      tj_order_id = None, tj_result_status = None, tj_reason_code = None,
      tj_triggered_at = fs_triggered_at s, tj_reserved_at = now, tj_dispatching_at = None,
      tj_finalized_at = None, tj_updated_at = now\<rparr>"

definition identity_matches :: "trigger_journal_record \<Rightarrow> fire_signal \<Rightarrow> bool" where
  "identity_matches r s \<longleftrightarrow>
     tj_trigger_id r = fs_trigger_id s \<and> tj_decision_id r = fs_decision_id s \<and>
     tj_plan_id r = fs_plan_id s \<and> tj_market r = fs_market s \<and> tj_symbol r = fs_symbol s \<and>
     tj_action r = fs_action s"

definition assert_identity_match :: "trigger_journal_record \<Rightarrow> fire_signal \<Rightarrow> journal_error + unit" where
  "assert_identity_match r s = guard (identity_matches r s) IdentityCollisionError"

definition reserve ::
  "journal \<Rightarrow> fire_signal \<Rightarrow> instant \<Rightarrow> journal_error + journal \<times> reserve_outcome \<times> trigger_journal_record" where
  "reserve j signal now =
     rbind (coerce_signal signal) (\<lambda>f.
     if now < fs_triggered_at f then Inl NonMonotonicTimestampError
     else case tbl_insert tj_idempotency_key (new_record f now) j of
       Inl _ \<Rightarrow>
         rbind (require_record j (fs_idempotency_key f)) (\<lambda>existing.
         rbind (assert_identity_match existing f) (\<lambda>_.
         Inr (j, (if tj_state existing \<in> TERMINAL_STATES then EXISTING_TERMINAL else EXISTING_PENDING),
              existing)))
     | Inr j' \<Rightarrow> rbind (require_record j' (fs_idempotency_key f)) (\<lambda>r. Inr (j', RESERVED_NEW, r)))"

text \<open>
  \<^verbatim>\<open>_guarded_update\<close>: the checks, then the \<^verbatim>\<open>UPDATE .. WHERE idempotency_key = ? AND
  state = ?\<close>, which raises when it would break the uniqueness of \<^verbatim>\<open>order_id\<close>
  (\<open>conflict\<close>).
\<close>

definition guarded_update ::
  "journal \<Rightarrow> string \<Rightarrow> journal_state \<Rightarrow> instant \<Rightarrow> bool \<Rightarrow>
   (trigger_journal_record \<Rightarrow> trigger_journal_record) \<Rightarrow> journal_error + journal" where
  "guarded_update j key expected now conflict upd =
     (case journal_get j key of
        None \<Rightarrow> Inl RecordNotFoundError
      | Some existing \<Rightarrow>
          if tj_state existing \<noteq> expected then Inl IllegalTransitionError
          else if now < tj_updated_at existing then Inl NonMonotonicTimestampError
          else if conflict then Inl OrderIdConflictError
          else Inr (map (\<lambda>r. if tj_idempotency_key r = key \<and> tj_state r = expected then upd r else r) j))"

definition order_id_taken :: "journal \<Rightarrow> string \<Rightarrow> string \<Rightarrow> bool" where
  "order_id_taken j key oid \<longleftrightarrow>
     (\<exists>r \<in> set j. tj_idempotency_key r \<noteq> key \<and> tj_order_id r = Some oid)"

definition mark_dispatching ::
  "journal \<Rightarrow> string \<Rightarrow> string \<Rightarrow> instant \<Rightarrow> journal_error + journal \<times> trigger_journal_record" where
  "mark_dispatching j key order_id now =
     rbind (require_nonblank order_id) (\<lambda>oid.
     rbind (guarded_update j key JS_RESERVED now (order_id_taken j key oid)
       (\<lambda>r. r\<lparr>tj_state := JS_DISPATCHING, tj_order_id := Some oid, tj_dispatching_at := Some now,
              tj_updated_at := now\<rparr>)) (\<lambda>j'.
     rbind (require_record j' key) (\<lambda>r. Inr (j', r))))"

definition mark_committed ::
  "journal \<Rightarrow> string \<Rightarrow> journal_result_status \<Rightarrow> instant \<Rightarrow> journal_error + journal \<times> trigger_journal_record" where
  "mark_committed j key result_status now =
     rbind (guarded_update j key JS_DISPATCHING now False
       (\<lambda>r. r\<lparr>tj_state := JS_COMMITTED, tj_result_status := Some result_status,
              tj_finalized_at := Some now, tj_updated_at := now\<rparr>)) (\<lambda>j'.
     rbind (require_record j' key) (\<lambda>r. Inr (j', r)))"

definition mark_aborted ::
  "journal \<Rightarrow> string \<Rightarrow> string \<Rightarrow> instant \<Rightarrow> journal_error + journal \<times> trigger_journal_record" where
  "mark_aborted j key reason_code now =
     rbind (require_nonblank reason_code) (\<lambda>reason.
     rbind (guarded_update j key JS_RESERVED now False
       (\<lambda>r. r\<lparr>tj_state := JS_ABORTED, tj_reason_code := Some reason, tj_finalized_at := Some now,
              tj_updated_at := now\<rparr>)) (\<lambda>j'.
     rbind (require_record j' key) (\<lambda>r. Inr (j', r))))"

definition mark_uncertain ::
  "journal \<Rightarrow> string \<Rightarrow> string \<Rightarrow> instant \<Rightarrow> journal_error + journal \<times> trigger_journal_record" where
  "mark_uncertain j key reason_code now =
     rbind (require_nonblank reason_code) (\<lambda>reason.
     rbind (guarded_update j key JS_DISPATCHING now False
       (\<lambda>r. r\<lparr>tj_state := JS_UNCERTAIN, tj_reason_code := Some reason, tj_finalized_at := Some now,
              tj_updated_at := now\<rparr>)) (\<lambda>j'.
     rbind (require_record j' key) (\<lambda>r. Inr (j', r))))"

definition list_nonterminal :: "journal \<Rightarrow> trigger_journal_record list" where
  "list_nonterminal j =
     sort_key (\<lambda>r. (tj_reserved_at r, tj_idempotency_key r))
       (filter (\<lambda>r. tj_state r \<in> NONTERMINAL_STATES) j)"

section \<open>The state machine of a record\<close>

inductive fire_step :: "journal_state \<Rightarrow> journal_state \<Rightarrow> bool" where
  dispatch: "fire_step JS_RESERVED JS_DISPATCHING"
| abort: "fire_step JS_RESERVED JS_ABORTED"
| commit: "fire_step JS_DISPATCHING JS_COMMITTED"
| uncertain: "fire_step JS_DISPATCHING JS_UNCERTAIN"

inductive_simps fire_step_from [simp]:
  "fire_step JS_RESERVED s" "fire_step JS_DISPATCHING s" "fire_step JS_COMMITTED s"
  "fire_step JS_ABORTED s" "fire_step JS_UNCERTAIN s"

inductive_cases fire_stepE: "fire_step s t"

lemma terminal_stuck: "s \<in> TERMINAL_STATES \<Longrightarrow> \<not> fire_step s t"
  by (auto simp: TERMINAL_STATES_def)

lemma terminal_rtranclp: "fire_step\<^sup>*\<^sup>* s t \<Longrightarrow> s \<in> TERMINAL_STATES \<Longrightarrow> t = s"
  by (induction rule: converse_rtranclp_induct) (auto dest: terminal_stuck)

text \<open>A record as the operations leave it: which columns are set in which state, times in order.\<close>

definition record_wf :: "trigger_journal_record \<Rightarrow> bool" where
  "record_wf r \<longleftrightarrow>
     tj_triggered_at r \<le> tj_reserved_at r \<and> tj_reserved_at r \<le> tj_updated_at r \<and>
     (case tj_state r of
        JS_RESERVED \<Rightarrow> tj_order_id r = None \<and> tj_dispatching_at r = None \<and> tj_finalized_at r = None \<and>
          tj_result_status r = None \<and> tj_updated_at r = tj_reserved_at r
      | JS_ABORTED \<Rightarrow> tj_order_id r = None \<and> tj_dispatching_at r = None \<and> tj_reason_code r \<noteq> None \<and>
          tj_result_status r = None \<and> tj_finalized_at r = Some (tj_updated_at r)
      | JS_DISPATCHING \<Rightarrow> tj_order_id r \<noteq> None \<and> tj_dispatching_at r = Some (tj_updated_at r) \<and>
          tj_finalized_at r = None \<and> tj_result_status r = None
      | JS_COMMITTED \<Rightarrow> tj_order_id r \<noteq> None \<and> tj_result_status r \<noteq> None \<and>
          tj_finalized_at r = Some (tj_updated_at r) \<and>
          (\<exists>d. tj_dispatching_at r = Some d \<and> tj_reserved_at r \<le> d \<and> d \<le> tj_updated_at r)
      | JS_UNCERTAIN \<Rightarrow> tj_order_id r \<noteq> None \<and> tj_result_status r = None \<and> tj_reason_code r \<noteq> None \<and>
          tj_finalized_at r = Some (tj_updated_at r) \<and>
          (\<exists>d. tj_dispatching_at r = Some d \<and> tj_reserved_at r \<le> d \<and> d \<le> tj_updated_at r))"

definition journal_wf :: "journal \<Rightarrow> bool" where
  "journal_wf j \<longleftrightarrow> tbl_keyed tj_idempotency_key j \<and> (\<forall>r \<in> set j. record_wf r) \<and>
     (\<forall>r \<in> set j. \<forall>r' \<in> set j. tj_order_id r \<noteq> None \<longrightarrow> tj_order_id r = tj_order_id r' \<longrightarrow>
        tj_idempotency_key r = tj_idempotency_key r')"

lemma journal_wf_Nil [simp]: "journal_wf []"
  by (simp add: journal_wf_def tbl_keyed_def)

text \<open>
  How one journal follows another: records are never removed or re-identified, each moved at most
  one step along the state machine, and an order id once set stays.
\<close>

definition same_fire :: "trigger_journal_record \<Rightarrow> trigger_journal_record \<Rightarrow> bool" where
  "same_fire r' r \<longleftrightarrow>
     tj_idempotency_key r' = tj_idempotency_key r \<and> tj_trigger_id r' = tj_trigger_id r \<and>
     tj_decision_id r' = tj_decision_id r \<and> tj_plan_id r' = tj_plan_id r \<and>
     tj_market r' = tj_market r \<and> tj_symbol r' = tj_symbol r \<and> tj_action r' = tj_action r \<and>
     tj_triggered_at r' = tj_triggered_at r \<and> tj_reserved_at r' = tj_reserved_at r"

definition evolves :: "trigger_journal_record \<Rightarrow> trigger_journal_record \<Rightarrow> bool" where
  "evolves r r' \<longleftrightarrow> r' = r \<or> same_fire r' r \<and> fire_step (tj_state r) (tj_state r') \<and>
     tj_updated_at r \<le> tj_updated_at r' \<and> (tj_order_id r \<noteq> None \<longrightarrow> tj_order_id r' = tj_order_id r)"

section \<open>The updates as keyed writes\<close>

lemma replace_is_upsert:
  assumes "tbl_keyed tj_idempotency_key j" "journal_get j key = Some r" "tj_state r = expected"
    and "tj_idempotency_key (upd r) = key"
  shows "map (\<lambda>x. if tj_idempotency_key x = key \<and> tj_state x = expected then upd x else x) j =
    tbl_upsert tj_idempotency_key (upd r) j"
proof -
  have "x = r" if "x \<in> set j" "tj_idempotency_key x = key" for x
    using tbl_get_mem [OF assms(1) that(1)] assms(2) that(2) by (simp add: journal_get_def)
  then show ?thesis
    using assms(2-4) by (auto simp: tbl_upsert_def journal_get_def)
qed

definition advance ::
  "journal \<Rightarrow> string \<Rightarrow> journal_state \<Rightarrow> instant \<Rightarrow> bool \<Rightarrow>
   (trigger_journal_record \<Rightarrow> trigger_journal_record) \<Rightarrow> journal_error + journal \<times> trigger_journal_record" where
  "advance j key expected now conflict upd =
     (case journal_get j key of
        None \<Rightarrow> Inl RecordNotFoundError
      | Some r \<Rightarrow>
          if tj_state r \<noteq> expected then Inl IllegalTransitionError
          else if now < tj_updated_at r then Inl NonMonotonicTimestampError
          else if conflict then Inl OrderIdConflictError
          else Inr (tbl_upsert tj_idempotency_key (upd r) j, upd r))"

lemma guarded_update_advance:
  assumes "tbl_keyed tj_idempotency_key j" "\<And>r. tj_idempotency_key (upd r) = tj_idempotency_key r"
  shows "rbind (guarded_update j key expected now conflict upd) (\<lambda>j'.
      rbind (require_record j' key) (\<lambda>r. Inr (j', r))) = advance j key expected now conflict upd"
proof (cases "journal_get j key")
  case None
  then show ?thesis by (simp add: guarded_update_def advance_def)
next
  case (Some r)
  then have key: "tj_idempotency_key (upd r) = key"
    using assms(2) tbl_get_key by (fastforce simp: journal_get_def)
  then have get: "journal_get (tbl_upsert tj_idempotency_key (upd r) j) key = Some (upd r)"
    by (simp add: journal_get_def tbl_get_upsert)
  show ?thesis
    using Some get replace_is_upsert [OF assms(1) Some, of expected upd] key
    by (simp add: guarded_update_def advance_def require_record_def)
qed

definition to_dispatching :: "string \<Rightarrow> instant \<Rightarrow> trigger_journal_record \<Rightarrow> trigger_journal_record" where
  "to_dispatching oid now r = r\<lparr>tj_state := JS_DISPATCHING, tj_order_id := Some oid,
     tj_dispatching_at := Some now, tj_updated_at := now\<rparr>"

definition to_committed :: "journal_result_status \<Rightarrow> instant \<Rightarrow> trigger_journal_record \<Rightarrow> trigger_journal_record" where
  "to_committed st now r = r\<lparr>tj_state := JS_COMMITTED, tj_result_status := Some st,
     tj_finalized_at := Some now, tj_updated_at := now\<rparr>"

definition to_final :: "journal_state \<Rightarrow> string \<Rightarrow> instant \<Rightarrow> trigger_journal_record \<Rightarrow> trigger_journal_record" where
  "to_final st reason now r = r\<lparr>tj_state := st, tj_reason_code := Some reason,
     tj_finalized_at := Some now, tj_updated_at := now\<rparr>"

lemma marks_advance:
  assumes "tbl_keyed tj_idempotency_key j"
  shows "mark_dispatching j key oid now = rbind (require_nonblank oid)
      (\<lambda>oid. advance j key JS_RESERVED now (order_id_taken j key oid) (to_dispatching oid now))"
    and "mark_committed j key st now = advance j key JS_DISPATCHING now False (to_committed st now)"
    and "mark_aborted j key reason now = rbind (require_nonblank reason)
      (\<lambda>reason. advance j key JS_RESERVED now False (to_final JS_ABORTED reason now))"
    and "mark_uncertain j key reason now = rbind (require_nonblank reason)
      (\<lambda>reason. advance j key JS_DISPATCHING now False (to_final JS_UNCERTAIN reason now))"
  unfolding mark_dispatching_def mark_committed_def mark_aborted_def mark_uncertain_def
    to_dispatching_def to_committed_def to_final_def
  by (simp_all add: guarded_update_advance assms)

lemma require_nonblank_Inr: "require_nonblank s = Inr t \<longleftrightarrow> t = s \<and> strip s \<noteq> []"
  by (auto simp: require_nonblank_def)

lemma advance_Inr:
  "advance j key expected now conflict upd = Inr (j', r') \<longleftrightarrow>
     (\<exists>r. journal_get j key = Some r \<and> tj_state r = expected \<and> tj_updated_at r \<le> now \<and> \<not> conflict \<and>
        r' = upd r \<and> j' = tbl_upsert tj_idempotency_key r' j)"
  by (auto simp: advance_def split: option.splits if_splits)

lemma reserve_Inr:
  assumes "tbl_keyed tj_idempotency_key j"
  shows "reserve j s now = Inr (j', out, r) \<longleftrightarrow>
    coerce_signal s = Inr s \<and> fs_triggered_at s \<le> now \<and>
    (case journal_get j (fs_idempotency_key s) of
       None \<Rightarrow> out = RESERVED_NEW \<and> r = new_record s now \<and> j' = tbl_upsert tj_idempotency_key r j
     | Some ex \<Rightarrow> j' = j \<and> r = ex \<and> identity_matches ex s \<and>
         out = (if tj_state ex \<in> TERMINAL_STATES then EXISTING_TERMINAL else EXISTING_PENDING))"
proof -
  have coerce: "coerce_signal s = Inr t \<Longrightarrow> t = s" for t
    by (auto simp: coerce_signal_def rbind_Inr_iff)
  have key: "tj_idempotency_key (new_record s now) = fs_idempotency_key s" by (simp add: new_record_def)
  show ?thesis
  proof (cases "coerce_signal s")
    case (Inl e)
    then show ?thesis by (simp add: reserve_def)
  next
    case (Inr t)
    with coerce have c: "coerce_signal s = Inr s" by simp
    show ?thesis
      by (cases "journal_get j (fs_idempotency_key s)")
        (auto simp: reserve_def c tbl_insert_def tbl_upsert_def key journal_get_def require_record_def
          assert_identity_match_def tbl_get_append rbind_Inr_iff split: option.splits)
  qed
qed

section \<open>The journal contract\<close>

text \<open>One durable change of the journal: an operation that returned.\<close>

inductive journal_op :: "journal \<Rightarrow> journal \<Rightarrow> bool" where
  op_reserve: "reserve j s now = Inr (j', out, r) \<Longrightarrow> journal_op j j'"
| op_dispatching: "mark_dispatching j key oid now = Inr (j', r) \<Longrightarrow> journal_op j j'"
| op_committed: "mark_committed j key st now = Inr (j', r) \<Longrightarrow> journal_op j j'"
| op_aborted: "mark_aborted j key reason now = Inr (j', r) \<Longrightarrow> journal_op j j'"
| op_uncertain: "mark_uncertain j key reason now = Inr (j', r) \<Longrightarrow> journal_op j j'"

text \<open>
  What the clients of a journal rely on: records only move along the state machine, keep the order
  id they were dispatched with, and no two keys share an order id.
\<close>

locale fire_journal =
  fixes get :: "'j \<Rightarrow> 'k \<Rightarrow> 'r option"
    and phase :: "'r \<Rightarrow> journal_state"
    and order_of :: "'r \<Rightarrow> 'o option"
    and wf :: "'j \<Rightarrow> bool"
    and op :: "'j \<Rightarrow> 'j \<Rightarrow> bool"
  assumes op_wf: "wf j \<Longrightarrow> op j j' \<Longrightarrow> wf j'"
    and op_get: "wf j \<Longrightarrow> op j j' \<Longrightarrow> get j k = Some r \<Longrightarrow>
      \<exists>r'. get j' k = Some r' \<and> (r' = r \<or> fire_step (phase r) (phase r')) \<and>
        (order_of r \<noteq> None \<longrightarrow> order_of r' = order_of r)"
    and unique_order: "wf j \<Longrightarrow> get j k = Some r \<Longrightarrow> get j k' = Some r' \<Longrightarrow>
      order_of r = Some oid \<Longrightarrow> order_of r' = Some oid \<Longrightarrow> k' = k"
begin

lemma run_wf: "op\<^sup>*\<^sup>* j j' \<Longrightarrow> wf j \<Longrightarrow> wf j'"
  by (induction rule: rtranclp_induct) (auto intro: op_wf)

lemma run_get:
  "op\<^sup>*\<^sup>* j j' \<Longrightarrow> wf j \<Longrightarrow> get j k = Some r \<Longrightarrow>
   \<exists>r'. get j' k = Some r' \<and> fire_step\<^sup>*\<^sup>* (phase r) (phase r') \<and>
     (order_of r \<noteq> None \<longrightarrow> order_of r' = order_of r)"
proof (induction rule: rtranclp_induct)
  case (step m j')
  then obtain r1 where r1: "get m k = Some r1" "fire_step\<^sup>*\<^sup>* (phase r) (phase r1)"
    "order_of r \<noteq> None \<longrightarrow> order_of r1 = order_of r" by auto
  have "wf m" using step.hyps(1) step.prems(1) by (rule run_wf)
  from op_get [OF this step.hyps(2) r1(1)] r1 show ?case
    by (metis rtranclp.rtrancl_into_rtrancl)
qed simp

lemma terminal_forever:
  assumes "op\<^sup>*\<^sup>* j j'" "wf j" "get j k = Some r" "phase r \<in> TERMINAL_STATES"
  shows "get j' k = Some r"
  using assms
proof (induction rule: rtranclp_induct)
  case (step m j')
  then have m: "wf m" "get m k = Some r" by (auto intro: run_wf)
  from op_get [OF m(1) step.hyps(2) m(2)] step.prems(3) show ?case by (auto dest: terminal_stuck)
qed

lemma order_owner:
  assumes "op\<^sup>*\<^sup>* j j'" "wf j" "get j k = Some r" "order_of r = Some oid"
    and "get j' k' = Some r'" "order_of r' = Some oid"
  shows "k' = k"
proof -
  obtain r1 where "get j' k = Some r1" "order_of r1 = Some oid"
    using run_get [OF assms(1-3)] assms(4) by auto
  then show ?thesis using unique_order [OF run_wf [OF assms(1,2)] _ assms(5) _ assms(6)] by blast
qed

end

subsection \<open>The SQLite journal fulfils it\<close>

lemma journal_get_put:
  "journal_get (tbl_upsert tj_idempotency_key r j) k =
     (if k = tj_idempotency_key r then Some r else journal_get j k)"
  by (simp add: journal_get_def tbl_get_upsert)

lemma journal_get_keyD: "journal_get j k = Some r \<Longrightarrow> tj_idempotency_key r = k \<and> r \<in> set j"
  by (auto simp: journal_get_def dest: tbl_get_key tbl_get_Some_mem)

lemma journal_wf_put:
  assumes wf: "journal_wf j" and r: "record_wf r"
    and fresh: "\<And>x. x \<in> set j \<Longrightarrow> tj_idempotency_key x \<noteq> tj_idempotency_key r \<Longrightarrow>
      tj_order_id r \<noteq> None \<Longrightarrow> tj_order_id x \<noteq> tj_order_id r"
  shows "journal_wf (tbl_upsert tj_idempotency_key r j)"
proof -
  have "tbl_keyed tj_idempotency_key (tbl_upsert tj_idempotency_key r j)"
    using wf by (simp add: journal_wf_def tbl_keyed_upsert)
  moreover have "\<forall>x \<in> set (tbl_upsert tj_idempotency_key r j). record_wf x"
    using wf r by (auto simp: journal_wf_def set_tbl_upsert)
  moreover have "tj_idempotency_key x = tj_idempotency_key y"
    if "x \<in> set (tbl_upsert tj_idempotency_key r j)" "y \<in> set (tbl_upsert tj_idempotency_key r j)"
      "tj_order_id x \<noteq> None" "tj_order_id x = tj_order_id y" for x y
  proof -
    from that(1,2) have "x = r \<or> x \<in> set j \<and> tj_idempotency_key x \<noteq> tj_idempotency_key r"
      "y = r \<or> y \<in> set j \<and> tj_idempotency_key y \<noteq> tj_idempotency_key r"
      by (simp_all add: set_tbl_upsert)
    then show ?thesis using that(3,4) wf fresh [of x] fresh [of y] unfolding journal_wf_def by metis
  qed
  ultimately show ?thesis unfolding journal_wf_def by blast
qed

lemma journal_wfD:
  assumes "journal_wf j" "journal_get j k = Some r"
  shows "record_wf r"
  using assms(1) journal_get_keyD [OF assms(2)] unfolding journal_wf_def by blast

lemma journal_wf_unique:
  assumes "journal_wf j" "journal_get j k = Some r" "journal_get j k' = Some r'"
    "tj_order_id r = Some oid" "tj_order_id r' = Some oid"
  shows "k' = k"
  using assms journal_get_keyD [OF assms(2)] journal_get_keyD [OF assms(3)]
  unfolding journal_wf_def by (metis option.discI)

text \<open>An advance that keeps the order id, or sets a free one, keeps the journal well-formed.\<close>

lemma advance_wf:
  assumes wf: "journal_wf j" and adv: "advance j key expected now conflict upd = Inr (j', r')"
    and upd: "\<And>r. record_wf r \<Longrightarrow> tj_state r = expected \<Longrightarrow> tj_updated_at r \<le> now \<Longrightarrow>
      record_wf (upd r) \<and> tj_idempotency_key (upd r) = tj_idempotency_key r \<and>
      (tj_order_id (upd r) = tj_order_id r \<or> tj_order_id (upd r) = Some oid)"
    and free: "\<not> conflict \<Longrightarrow> expected = JS_RESERVED \<Longrightarrow> \<not> order_id_taken j key oid"
    and kept: "expected \<noteq> JS_RESERVED \<Longrightarrow> \<forall>r. tj_order_id (upd r) = tj_order_id r"
  shows "journal_wf j'"
proof -
  obtain r where r: "journal_get j key = Some r" "tj_state r = expected" "tj_updated_at r \<le> now"
    "\<not> conflict" "r' = upd r" "j' = tbl_upsert tj_idempotency_key r' j"
    using adv by (auto simp: advance_Inr)
  note k = journal_get_keyD [OF r(1)]
  note u = upd [OF journal_wfD [OF wf r(1)] r(2,3)]
  show ?thesis unfolding r(6)
  proof (rule journal_wf_put [OF wf])
    show "record_wf r'" using u r by simp
    fix x assume x: "x \<in> set j" "tj_idempotency_key x \<noteq> tj_idempotency_key r'" "tj_order_id r' \<noteq> None"
    show "tj_order_id x \<noteq> tj_order_id r'"
    proof
      assume eq: "tj_order_id x = tj_order_id r'"
      from u consider "tj_order_id r' = tj_order_id r" | "tj_order_id r' = Some oid" "expected = JS_RESERVED"
        using r(5) kept by metis
      then show False
      proof cases
        case 1
        then have "tj_idempotency_key x = tj_idempotency_key r"
          using wf x k eq unfolding journal_wf_def by metis
        with u x(2) r(5) show False by simp
      next
        case 2
        have "tj_idempotency_key x \<noteq> key" using u x(2) r(5) k by simp
        with 2 eq x(1) free [OF r(4)] show False by (auto simp: order_id_taken_def)
      qed
    qed
  qed
qed

lemma keyed_of_wf: "journal_wf j \<Longrightarrow> tbl_keyed tj_idempotency_key j"
  by (simp add: journal_wf_def)

lemma record_wf_moves:
  "record_wf r \<Longrightarrow> tj_state r = JS_RESERVED \<Longrightarrow> tj_updated_at r \<le> now \<Longrightarrow> record_wf (to_dispatching oid now r)"
  "record_wf r \<Longrightarrow> tj_state r = JS_RESERVED \<Longrightarrow> tj_updated_at r \<le> now \<Longrightarrow>
     record_wf (to_final JS_ABORTED reason now r)"
  "record_wf r \<Longrightarrow> tj_state r = JS_DISPATCHING \<Longrightarrow> tj_updated_at r \<le> now \<Longrightarrow> record_wf (to_committed st now r)"
  "record_wf r \<Longrightarrow> tj_state r = JS_DISPATCHING \<Longrightarrow> tj_updated_at r \<le> now \<Longrightarrow>
     record_wf (to_final JS_UNCERTAIN reason now r)"
  by (auto simp: record_wf_def to_dispatching_def to_committed_def to_final_def)

lemma move_fields [simp]:
  "tj_idempotency_key (to_dispatching oid now r) = tj_idempotency_key r"
  "tj_idempotency_key (to_committed st now r) = tj_idempotency_key r"
  "tj_idempotency_key (to_final s reason now r) = tj_idempotency_key r"
  "tj_order_id (to_dispatching oid now r) = Some oid"
  "tj_order_id (to_committed st now r) = tj_order_id r"
  "tj_order_id (to_final s reason now r) = tj_order_id r"
  "tj_state (to_dispatching oid now r) = JS_DISPATCHING"
  "tj_state (to_committed st now r) = JS_COMMITTED" "tj_state (to_final s reason now r) = s"
  "tj_updated_at (to_dispatching oid now r) = now" "tj_updated_at (to_committed st now r) = now"
  "tj_updated_at (to_final s reason now r) = now"
  "same_fire (to_dispatching oid now r) r" "same_fire (to_committed st now r) r"
  "same_fire (to_final s reason now r) r"
  by (simp_all add: to_dispatching_def to_committed_def to_final_def same_fire_def)

lemma new_record_fields [simp]:
  "tj_idempotency_key (new_record s now) = fs_idempotency_key s" "tj_order_id (new_record s now) = None"
  "tj_state (new_record s now) = JS_RESERVED" "tj_updated_at (new_record s now) = now"
  by (simp_all add: new_record_def)

text \<open>Every operation that returns writes at most one record, which evolves from the old one.\<close>

definition one_write :: "journal \<Rightarrow> journal \<Rightarrow> bool" where
  "one_write j j' \<longleftrightarrow> j' = j \<or>
     (\<exists>r'. j' = tbl_upsert tj_idempotency_key r' j \<and>
        (case journal_get j (tj_idempotency_key r') of
           None \<Rightarrow> tj_state r' = JS_RESERVED \<and> tj_order_id r' = None
         | Some r \<Rightarrow> evolves r r'))"

lemma advance_one_write:
  assumes "advance j key expected now conflict upd = Inr (j', r')"
    and "\<And>r. tj_state r = expected \<Longrightarrow> tj_updated_at r \<le> now \<Longrightarrow> journal_get j key = Some r \<Longrightarrow> evolves r (upd r)"
    and "\<And>r. tj_idempotency_key (upd r) = tj_idempotency_key r"
  shows "one_write j j'"
proof -
  obtain r where r: "journal_get j key = Some r" "tj_state r = expected" "tj_updated_at r \<le> now"
    "r' = upd r" "j' = tbl_upsert tj_idempotency_key r' j"
    using assms(1) by (auto simp: advance_Inr)
  moreover have "tj_idempotency_key r' = key" using r journal_get_keyD assms(3) by metis
  ultimately show ?thesis using assms(2) unfolding one_write_def by auto
qed

lemma journal_op_ok:
  assumes "journal_op j j'" "journal_wf j"
  shows "journal_wf j'" and "one_write j j'"
proof -
  note k = keyed_of_wf [OF assms(2)]
  have "journal_wf j' \<and> one_write j j'"
    using assms(1)
  proof cases
    case (op_reserve s now out r)
    show ?thesis
    proof (cases "journal_get j (fs_idempotency_key s)")
      case None
      with op_reserve have j': "j' = tbl_upsert tj_idempotency_key (new_record s now) j"
        and t: "fs_triggered_at s \<le> now" by (simp_all add: reserve_Inr [OF k])
      have "record_wf (new_record s now)" using t by (simp add: record_wf_def new_record_def)
      then have "journal_wf j'" unfolding j' by (intro journal_wf_put [OF assms(2)]) simp_all
      then show ?thesis using None j' unfolding one_write_def by auto
    next
      case (Some ex)
      with op_reserve have "j' = j" by (simp add: reserve_Inr [OF k])
      then show ?thesis using assms(2) by (simp add: one_write_def)
    qed
  next
    case (op_dispatching key oid now r)
    then have adv: "advance j key JS_RESERVED now (order_id_taken j key oid) (to_dispatching oid now) = Inr (j', r)"
      by (auto simp: marks_advance [OF k] rbind_Inr_iff require_nonblank_Inr)
    have "one_write j j'"
    proof (rule advance_one_write [OF adv])
      fix x assume "tj_state x = JS_RESERVED" "tj_updated_at x \<le> now" "journal_get j key = Some x"
      moreover from journal_wfD [OF assms(2) this(3)] this(1) have "tj_order_id x = None"
        by (simp add: record_wf_def)
      ultimately show "evolves x (to_dispatching oid now x)" by (simp add: evolves_def)
    qed simp
    moreover have "journal_wf j'"
      by (rule advance_wf [OF assms(2) adv, where oid = oid]) (auto intro: record_wf_moves)
    ultimately show ?thesis by simp
  next
    case (op_committed key st now r)
    then have adv: "advance j key JS_DISPATCHING now False (to_committed st now) = Inr (j', r)"
      by (simp add: marks_advance [OF k])
    have "journal_wf j'" by (rule advance_wf [OF assms(2) adv]) (auto intro: record_wf_moves)
    moreover have "one_write j j'" by (rule advance_one_write [OF adv]) (auto simp: evolves_def)
    ultimately show ?thesis by simp
  next
    case (op_aborted key reason now r)
    then have adv: "advance j key JS_RESERVED now False (to_final JS_ABORTED reason now) = Inr (j', r)"
      by (auto simp: marks_advance [OF k] rbind_Inr_iff require_nonblank_Inr)
    obtain x where x: "journal_get j key = Some x" "tj_state x = JS_RESERVED" "tj_updated_at x \<le> now"
      "r = to_final JS_ABORTED reason now x" "j' = tbl_upsert tj_idempotency_key r j"
      using adv by (auto simp: advance_Inr)
    have none: "tj_order_id r = None" "record_wf r"
      using journal_wfD [OF assms(2) x(1)] x record_wf_moves(2) by (simp_all add: record_wf_def [of x])
    then have "journal_wf j'" unfolding x(5) by (intro journal_wf_put [OF assms(2)]) simp_all
    moreover have "one_write j j'" by (rule advance_one_write [OF adv]) (auto simp: evolves_def)
    ultimately show ?thesis by simp
  next
    case (op_uncertain key reason now r)
    then have adv: "advance j key JS_DISPATCHING now False (to_final JS_UNCERTAIN reason now) = Inr (j', r)"
      by (auto simp: marks_advance [OF k] rbind_Inr_iff require_nonblank_Inr)
    have "journal_wf j'" by (rule advance_wf [OF assms(2) adv]) (auto intro: record_wf_moves)
    moreover have "one_write j j'" by (rule advance_one_write [OF adv]) (auto simp: evolves_def)
    ultimately show ?thesis by simp
  qed
  then show "journal_wf j'" "one_write j j'" by simp_all
qed

lemma one_write_get:
  assumes "one_write j j'" "journal_get j k = Some r"
  shows "\<exists>r'. journal_get j' k = Some r' \<and> evolves r r'"
  using assms journal_get_keyD [OF assms(2)]
  by (auto simp: one_write_def journal_get_put evolves_def split: option.splits)

interpretation fj: fire_journal journal_get tj_state tj_order_id journal_wf journal_op
proof
  show "journal_wf j'" if "journal_wf j" "journal_op j j'" for j j'
    using journal_op_ok(1) that by blast
  show "\<exists>r'. journal_get j' k = Some r' \<and> (r' = r \<or> fire_step (tj_state r) (tj_state r')) \<and>
      (tj_order_id r \<noteq> None \<longrightarrow> tj_order_id r' = tj_order_id r)"
    if "journal_wf j" "journal_op j j'" "journal_get j k = Some r" for j j' k r
    using one_write_get [OF journal_op_ok(2) [OF that(2,1)] that(3)] by (auto simp: evolves_def)
  show "k' = k" if "journal_wf j" "journal_get j k = Some r" "journal_get j k' = Some r'"
    "tj_order_id r = Some oid" "tj_order_id r' = Some oid" for j k r k' r' oid
    using journal_wf_unique that by blast
qed

section \<open>Properties of the journal\<close>

definition example_signal :: fire_signal where
  "example_signal =
     \<lparr>fs_idempotency_key = ''key-1'', fs_trigger_id = ''trigger-1'', fs_decision_id = ''analysis-1'',
      fs_plan_id = ''plan-1'', fs_market = ''KR'', fs_symbol = ''005930'', fs_action = ''buy'',
      fs_triggered_at = 0\<rparr>"

lemma example_signal_ok: "coerce_signal example_signal = Inr example_signal"
  by (simp add: coerce_signal_def example_signal_def require_nonblank_def coerce_enum_def strip_def
      is_space_def)

lemma example_reserve:
  "reserve [] example_signal 5 = Inr ([new_record example_signal 5], RESERVED_NEW, new_record example_signal 5)"
  by (simp add: reserve_Inr tbl_keyed_def example_signal_ok journal_get_def tbl_upsert_def)
    (simp add: example_signal_def)

lemma rtranclp_same_fire:
  assumes "journal_op\<^sup>*\<^sup>* j j'" "journal_wf j" "journal_get j k = Some r"
  shows "\<exists>r'. journal_get j' k = Some r' \<and> same_fire r' r \<and> tj_updated_at r \<le> tj_updated_at r'"
  using assms
proof (induction rule: rtranclp_induct)
  case base
  then show ?case by (simp add: same_fire_def)
next
  case (step m j')
  then obtain r1 where r1: "journal_get m k = Some r1" "same_fire r1 r" "tj_updated_at r \<le> tj_updated_at r1"
    by auto
  have "journal_wf m" using step.hyps(1) step.prems(1) by (rule fj.run_wf)
  from one_write_get [OF journal_op_ok(2) [OF step.hyps(2) this] r1(1)]
  obtain r2 where "journal_get j' k = Some r2" "evolves r1 r2" by blast
  with r1 show ?case by (auto simp: evolves_def same_fire_def)
qed

text \<open>
  C23. Over any sequence of journal operations on a well-formed journal: the journal stays
  well-formed (unique keys, unique order ids, the columns and timestamps of each state in order);
  a record is never lost, keeps its identity, only moves along the state machine and never back in
  time; a committed, aborted or uncertain record never changes again; an order id belongs to one
  idempotency key forever.
\<close>

theorem journal_runs_safe:
  assumes "journal_op\<^sup>*\<^sup>* j j'" and "journal_wf j" and "journal_get j k = Some r"
  shows "journal_wf j' \<and>
    (\<exists>r'. journal_get j' k = Some r' \<and> same_fire r' r \<and> tj_updated_at r \<le> tj_updated_at r' \<and>
       fire_step\<^sup>*\<^sup>* (tj_state r) (tj_state r') \<and> (tj_state r \<in> TERMINAL_STATES \<longrightarrow> r' = r) \<and>
       (\<forall>oid. tj_order_id r = Some oid \<longrightarrow> tj_order_id r' = Some oid \<and>
          (\<forall>k' x. journal_get j' k' = Some x \<longrightarrow> tj_order_id x = Some oid \<longrightarrow> k' = k)))"
proof -
  obtain r' where r': "journal_get j' k = Some r'" "same_fire r' r" "tj_updated_at r \<le> tj_updated_at r'"
    using rtranclp_same_fire [OF assms] by blast
  have "fire_step\<^sup>*\<^sup>* (tj_state r) (tj_state r')" "tj_order_id r \<noteq> None \<longrightarrow> tj_order_id r' = tj_order_id r"
    using fj.run_get [OF assms] r'(1) by auto
  moreover have "tj_state r \<in> TERMINAL_STATES \<longrightarrow> r' = r"
    using fj.terminal_forever [OF assms] r'(1) by auto
  moreover have "k' = k" if "tj_order_id r = Some oid" "journal_get j' k' = Some x" "tj_order_id x = Some oid"
    for oid k' x using fj.order_owner [OF assms that] .
  moreover have "journal_wf j'" using assms(1,2) by (rule fj.run_wf)
  ultimately show ?thesis using r' by auto
qed

theorem journal_runs_safe_witness:
  "journal_wf [to_final JS_ABORTED ''risk_blocked'' 7 (new_record example_signal 5)] \<and>
   (\<exists>r'. journal_get [to_final JS_ABORTED ''risk_blocked'' 7 (new_record example_signal 5)] ''key-1'' = Some r' \<and>
     same_fire r' (new_record example_signal 5))"
proof -
  let ?j = "[new_record example_signal 5]"
  let ?j' = "[to_final JS_ABORTED ''risk_blocked'' 7 (new_record example_signal 5)]"
  have wf: "journal_wf ?j"
    using journal_op_ok(1) [OF op_reserve [OF example_reserve] journal_wf_Nil] .
  have "mark_aborted ?j ''key-1'' ''risk_blocked'' 7 =
      Inr (?j', to_final JS_ABORTED ''risk_blocked'' 7 (new_record example_signal 5))"
    by (simp add: marks_advance [OF keyed_of_wf [OF wf]] advance_def require_nonblank_def strip_def
        is_space_def journal_get_def tbl_upsert_def) (simp add: example_signal_def)
  then have "journal_op\<^sup>*\<^sup>* ?j ?j'" by (intro r_into_rtranclp op_aborted)
  moreover have "journal_get ?j ''key-1'' = Some (new_record example_signal 5)"
    by (simp add: journal_get_def example_signal_def)
  ultimately show ?thesis using journal_runs_safe [OF _ wf] by blast
qed

text \<open>
  A fire is reserved once: after a reservation that was new, and any further operations, a
  second reservation with the same key never returns \<^verbatim>\<open>RESERVED_NEW\<close>. If it carries the
  same identity and its time is admissible it returns the stored record, as terminal or as pending;
  if a field of its identity differs it raises.
\<close>

theorem reserve_once:
  assumes "journal_wf j" and "reserve j s now = Inr (j', RESERVED_NEW, r)" and "journal_op\<^sup>*\<^sup>* j' j''"
    and "fs_idempotency_key s' = fs_idempotency_key s" and "coerce_signal s' = Inr s'"
    and "fs_triggered_at s' \<le> now'"
  shows "\<exists>r''. journal_get j'' (fs_idempotency_key s) = Some r'' \<and> same_fire r'' r \<and>
    reserve j'' s' now' =
      (if identity_matches r s'
       then Inr (j'', (if tj_state r'' \<in> TERMINAL_STATES then EXISTING_TERMINAL else EXISTING_PENDING), r'')
       else Inl IdentityCollisionError)"
proof -
  have j': "r = new_record s now" "j' = tbl_upsert tj_idempotency_key r j"
    using assms(2) by (auto simp: reserve_Inr [OF keyed_of_wf [OF assms(1)]] split: option.splits if_splits)
  have wf': "journal_wf j'"
    using journal_op_ok(1) [OF op_reserve [OF assms(2)] assms(1)] .
  have "journal_get j' (fs_idempotency_key s) = Some r" by (simp add: j' journal_get_put)
  then obtain r'' where r'': "journal_get j'' (fs_idempotency_key s) = Some r''" "same_fire r'' r"
    using rtranclp_same_fire [OF assms(3) wf'] by blast
  have ident: "identity_matches r'' s' \<longleftrightarrow> identity_matches r s'"
    using r''(2) by (simp add: identity_matches_def same_fire_def)
  have "tbl_insert tj_idempotency_key (new_record s' now') j'' =
      Inl (IntegrityError ''UNIQUE constraint failed'')"
    using r''(1) assms(4) by (simp add: tbl_insert_def journal_get_def)
  then have "reserve j'' s' now' =
      (if identity_matches r s'
       then Inr (j'', (if tj_state r'' \<in> TERMINAL_STATES then EXISTING_TERMINAL else EXISTING_PENDING), r'')
       else Inl IdentityCollisionError)"
    using r''(1) assms(4-6) ident
    by (simp add: reserve_def require_record_def assert_identity_match_def)
  with r'' show ?thesis by blast
qed

theorem reserve_once_witness:
  "\<exists>r''. journal_get [new_record example_signal 5] (fs_idempotency_key example_signal) = Some r'' \<and>
    same_fire r'' (new_record example_signal 5) \<and>
    reserve [new_record example_signal 5] example_signal 9 =
      (if identity_matches (new_record example_signal 5) example_signal
       then Inr ([new_record example_signal 5],
         (if tj_state r'' \<in> TERMINAL_STATES then EXISTING_TERMINAL else EXISTING_PENDING), r'')
       else Inl IdentityCollisionError)"
  by (rule reserve_once [OF journal_wf_Nil example_reserve rtranclp.rtrancl_refl refl example_signal_ok])
    (simp add: example_signal_def)

end
