(* ===== verification/Risk_Filter.thy ===== *)
theory Risk_Filter
  imports Decisions "HOL-Library.Multiset"
begin

text \<open>
  The deterministic risk filter: \<^verbatim>\<open>src/src/risk/rules.py\<close>, \<^verbatim>\<open>models.py\<close> and
  \<^verbatim>\<open>filter.py\<close>. A message is kept as the constant text of its f-string; it takes part in
  the ordering of issues only after severity, code and path, where the constant parts already
  decide. The context's free-form metadata is not a field.
\<close>

section \<open>Rules\<close>

datatype risk_mode = Mode_NORMAL | Mode_REBALANCING | Mode_EMERGENCY_TRIGGER | Mode_MDD_KILLSWITCH

definition SINGLE_POSITION_CAP_PERCENT :: decimal where "SINGLE_POSITION_CAP_PERCENT = 5"
definition INVESTED_MIN_NORMAL_PERCENT :: decimal where "INVESTED_MIN_NORMAL_PERCENT = 70"
definition INVESTED_MAX_PERCENT :: decimal where "INVESTED_MAX_PERCENT = 90"
definition ASSET_CLASS_SOFT_BAND_MIN :: decimal where "ASSET_CLASS_SOFT_BAND_MIN = 15"
definition ASSET_CLASS_SOFT_BAND_MAX :: decimal where "ASSET_CLASS_SOFT_BAND_MAX = 55"
definition SLIPPAGE_TOLERANCE_KR :: decimal where "SLIPPAGE_TOLERANCE_KR = 1 / 2"
definition SLIPPAGE_TOLERANCE_US :: decimal where "SLIPPAGE_TOLERANCE_US = 1 / 5"
definition MDD_LEVEL_1_MAGNITUDE :: decimal where "MDD_LEVEL_1_MAGNITUDE = 10"
definition MDD_LEVEL_2_MAGNITUDE :: decimal where "MDD_LEVEL_2_MAGNITUDE = 15"
definition MDD_LEVEL_3_MAGNITUDE :: decimal where "MDD_LEVEL_3_MAGNITUDE = 20"
definition GOLD_TRADES_MONTHLY_MAX :: int where "GOLD_TRADES_MONTHLY_MAX = 2"
definition GOLD_TRADES_QUARTERLY_MAX :: int where "GOLD_TRADES_QUARTERLY_MAX = 4"
definition RISK_FILTER_SCHEMA :: string where "RISK_FILTER_SCHEMA = ''risk_filter.v1''"
definition RISK_FILTER_VALIDATOR_VERSION :: string where
  "RISK_FILTER_VALIDATOR_VERSION = ''phase10''"

lemmas risk_constants =
  SINGLE_POSITION_CAP_PERCENT_def INVESTED_MIN_NORMAL_PERCENT_def INVESTED_MAX_PERCENT_def
  ASSET_CLASS_SOFT_BAND_MIN_def ASSET_CLASS_SOFT_BAND_MAX_def SLIPPAGE_TOLERANCE_KR_def
  SLIPPAGE_TOLERANCE_US_def MDD_LEVEL_1_MAGNITUDE_def MDD_LEVEL_2_MAGNITUDE_def
  MDD_LEVEL_3_MAGNITUDE_def GOLD_TRADES_MONTHLY_MAX_def GOLD_TRADES_QUARTERLY_MAX_def
  CASH_TARGET_MIN_def CASH_TARGET_MAX_def

definition slippage_tolerance_percent :: "market \<Rightarrow> decimal" where
  "slippage_tolerance_percent m = (if m = KR then SLIPPAGE_TOLERANCE_KR else SLIPPAGE_TOLERANCE_US)"

definition invested_lower_bound_percent :: "risk_mode \<Rightarrow> percent option \<Rightarrow> decimal" where
  "invested_lower_bound_percent mode paper_observation_min =
     (case paper_observation_min of Some v \<Rightarrow> v | None \<Rightarrow> INVESTED_MIN_NORMAL_PERCENT)"

definition percent_of_money :: "money \<Rightarrow> money \<Rightarrow> decimal" where
  "percent_of_money numerator denominator =
     (if amount denominator = 0 then 0
      else dmul (ddiv (amount numerator) (amount denominator)) 100)"

definition money_cap_from_nav_percent :: "money \<Rightarrow> decimal \<Rightarrow> money" where
  "money_cap_from_nav_percent total_nav cap_percent =
     \<lparr>amount = ddiv (dmul (amount total_nav) cap_percent) 100, currency = currency total_nav\<rparr>"

definition proposed_target_market_value :: "money \<Rightarrow> percent \<Rightarrow> money" where
  "proposed_target_market_value total_nav target_weight_percent =
     \<lparr>amount = ddiv (dmul (amount total_nav) target_weight_percent) 100,
      currency = currency total_nav\<rparr>"

definition additional_buy_cost :: "money \<Rightarrow> percent \<Rightarrow> money \<Rightarrow> money" where
  "additional_buy_cost total_nav target_weight_percent current_symbol_market_value =
     (let proposed = proposed_target_market_value total_nav target_weight_percent;
          delta = dsub (amount proposed) (amount current_symbol_market_value)
      in if delta \<le> 0 then money_zero (currency total_nav)
         else \<lparr>amount = delta, currency = currency total_nav\<rparr>)"

record asset_class_weights =
  aw_kr :: percent
  aw_us :: percent
  aw_gold :: percent

definition asset_class_soft_band_violations :: "asset_class_weights \<Rightarrow> string list" where
  "asset_class_soft_band_violations w =
     map fst (filter (\<lambda>(name, value).
        value < ASSET_CLASS_SOFT_BAND_MIN \<or> ASSET_CLASS_SOFT_BAND_MAX < value)
       [(''kr'', aw_kr w), (''us'', aw_us w), (''gold'', aw_gold w)])"

definition is_cash_target_in_band_value :: "decimal \<Rightarrow> bool" where
  "is_cash_target_in_band_value v \<longleftrightarrow> CASH_TARGET_MIN \<le> v \<and> v \<le> CASH_TARGET_MAX"

definition mdd_level_from_percent :: "percent option \<Rightarrow> nat option" where
  "mdd_level_from_percent mdd_percent =
     (case mdd_percent of None \<Rightarrow> None
      | Some value \<Rightarrow>
          if MDD_LEVEL_3_MAGNITUDE \<le> value then Some 3
          else if MDD_LEVEL_2_MAGNITUDE \<le> value then Some 2
          else if MDD_LEVEL_1_MAGNITUDE \<le> value then Some 1
          else None)"

section \<open>Context and input\<close>

record risk_filter_context =
  rc_created_at :: instant
  rc_mode :: risk_mode
  rc_total_nav :: money
  rc_cash :: money
  rc_invested_amount :: money
  rc_current_symbol_market_value :: "money option"
  rc_current_symbol_cumulative_buy_cost :: "money option"
  rc_current_symbol_weight_percent :: "percent option"
  rc_current_asset_weights :: "asset_class_weights option"
  rc_allocator_tolerance_percent :: percent
  rc_allocator_symbol_target_weight :: "percent option"
  rc_paper_observation_min_invested_percent :: "percent option"
  rc_mdd_percent :: "percent option"
  rc_market :: "market option"
  rc_currency :: "currency option"
  rc_asset_bucket :: "asset_bucket option"
  rc_gold_trades_this_month :: int
  rc_gold_trades_this_quarter :: int
  rc_proposed_price :: "money option"
  rc_reference_prices :: "(string \<times> market_price) list option"

definition optional_percent_ok :: "percent option \<Rightarrow> unit result" where
  "optional_percent_ok x = (case x of None \<Rightarrow> Inr () | Some v \<Rightarrow> percent_ok v)"

definition validate_context :: "risk_filter_context \<Rightarrow> risk_filter_context result" where
  "validate_context c =
     (let nav_currency = currency (rc_total_nav c);
          nav_money = (\<lambda>m. rbind (guard (0 \<le> amount m) (ValueError ''amount must be greater than or equal to 0.''))
            (\<lambda>_. guard (currency m = nav_currency) (ValueError ''currency must match total_nav.currency.'')));
          optional_money = (\<lambda>x. case x of None \<Rightarrow> Inr ()
            | Some m \<Rightarrow> guard (currency m = nav_currency) (ValueError ''currency must match total_nav.currency.''))
      in if amount (rc_total_nav c) \<le> 0
         then Inl (ValueError ''total_nav.amount must be greater than 0.'')
         else
           rbind (nav_money (rc_cash c)) (\<lambda>_.
           rbind (nav_money (rc_invested_amount c)) (\<lambda>_.
           rbind (optional_money (rc_current_symbol_market_value c)) (\<lambda>_.
           rbind (optional_money (rc_current_symbol_cumulative_buy_cost c)) (\<lambda>_.
           if (case rc_paper_observation_min_invested_percent c of None \<Rightarrow> False
               | Some lower \<Rightarrow> lower < 50 \<or> 70 < lower)
           then Inl (ValueError ''paper_observation_min_invested_percent must be between 50 and 70.'')
           else Inr c)))))"

definition mk_RiskFilterContext :: "risk_filter_context \<Rightarrow> risk_filter_context result" where
  "mk_RiskFilterContext c =
     rbind (optional_percent_ok (rc_current_symbol_weight_percent c)) (\<lambda>_.
     rbind (case rc_current_asset_weights c of None \<Rightarrow> Inr ()
            | Some w \<Rightarrow> rbind (percent_ok (aw_kr w)) (\<lambda>_. rbind (percent_ok (aw_us w)) (\<lambda>_.
                percent_ok (aw_gold w)))) (\<lambda>_.
     rbind (percent_ok (rc_allocator_tolerance_percent c)) (\<lambda>_.
     rbind (optional_percent_ok (rc_allocator_symbol_target_weight c)) (\<lambda>_.
     rbind (optional_percent_ok (rc_paper_observation_min_invested_percent c)) (\<lambda>_.
     rbind (optional_percent_ok (rc_mdd_percent c)) (\<lambda>_.
     rbind (guard (0 \<le> rc_gold_trades_this_month c)
       (ValueError ''gold_trades_this_month must be greater than or equal to 0.'')) (\<lambda>_.
     rbind (guard (0 \<le> rc_gold_trades_this_quarter c)
       (ValueError ''gold_trades_this_quarter must be greater than or equal to 0.'')) (\<lambda>_.
     validate_context c))))))))"

record risk_filter_input =
  ri_allocator_decision :: allocator_decision
  ri_analysis_decision :: analysis_decision
  ri_context :: risk_filter_context
  ri_correlation_id :: "string option"

definition mk_RiskFilterInput :: "risk_filter_input \<Rightarrow> risk_filter_input result" where
  "mk_RiskFilterInput r =
     rbind (normalize_optional_string (ri_correlation_id r)) (\<lambda>cid.
     if al_schema_name (ri_allocator_decision r) \<noteq> ALLOCATOR_DECISION_SCHEMA
     then Inl (ValueError ''allocator_decision.schema_name must be allocator_decision.v1.'')
     else if an_schema_name (ri_analysis_decision r) \<noteq> ANALYSIS_DECISION_SCHEMA
     then Inl (ValueError ''analysis_decision.schema_name must be analysis_decision.v1.'')
     else Inr (r\<lparr>ri_correlation_id := cid\<rparr>))"

section \<open>The checks\<close>

definition issue :: "string \<Rightarrow> string \<Rightarrow> severity \<Rightarrow> string \<Rightarrow> validation_issue" where
  "issue code message sev path =
     \<lparr>vi_code = code, vi_message = message, vi_severity = sev, vi_path = Some path\<rparr>"

definition RISK_SINGLE_POSITION_CAP_EXCEEDED :: string where
  "RISK_SINGLE_POSITION_CAP_EXCEEDED = ''RISK_SINGLE_POSITION_CAP_EXCEEDED''"
definition RISK_CASH_BAND_VIOLATION :: string where
  "RISK_CASH_BAND_VIOLATION = ''RISK_CASH_BAND_VIOLATION''"
definition RISK_INVESTED_BAND_VIOLATION :: string where
  "RISK_INVESTED_BAND_VIOLATION = ''RISK_INVESTED_BAND_VIOLATION''"
definition RISK_ALLOCATOR_TOLERANCE_VIOLATION :: string where
  "RISK_ALLOCATOR_TOLERANCE_VIOLATION = ''RISK_ALLOCATOR_TOLERANCE_VIOLATION''"
definition RISK_ASSET_CLASS_SOFT_BAND_WARNING :: string where
  "RISK_ASSET_CLASS_SOFT_BAND_WARNING = ''RISK_ASSET_CLASS_SOFT_BAND_WARNING''"
definition RISK_MDD_KILLSWITCH_ACTIVE :: string where
  "RISK_MDD_KILLSWITCH_ACTIVE = ''RISK_MDD_KILLSWITCH_ACTIVE''"
definition RISK_DIRECTIONAL_SLIPPAGE_EXCEEDED :: string where
  "RISK_DIRECTIONAL_SLIPPAGE_EXCEEDED = ''RISK_DIRECTIONAL_SLIPPAGE_EXCEEDED''"
definition RISK_GOLD_TRADE_FREQUENCY_EXCEEDED :: string where
  "RISK_GOLD_TRADE_FREQUENCY_EXCEEDED = ''RISK_GOLD_TRADE_FREQUENCY_EXCEEDED''"
definition RISK_INSUFFICIENT_CONTEXT :: string where
  "RISK_INSUFFICIENT_CONTEXT = ''RISK_INSUFFICIENT_CONTEXT''"
definition RISK_NO_ACTION :: string where "RISK_NO_ACTION = ''RISK_NO_ACTION''"
definition RISK_UNSUPPORTED_ACTION :: string where
  "RISK_UNSUPPORTED_ACTION = ''RISK_UNSUPPORTED_ACTION''"
definition RISK_ORDER_GENERATION_FAILED :: string where
  "RISK_ORDER_GENERATION_FAILED = ''RISK_ORDER_GENERATION_FAILED''"

definition ERROR_ISSUE_ORDER :: "string list" where
  "ERROR_ISSUE_ORDER =
     [RISK_UNSUPPORTED_ACTION, RISK_INSUFFICIENT_CONTEXT, RISK_MDD_KILLSWITCH_ACTIVE,
      RISK_SINGLE_POSITION_CAP_EXCEEDED, RISK_CASH_BAND_VIOLATION, RISK_INVESTED_BAND_VIOLATION,
      RISK_ALLOCATOR_TOLERANCE_VIOLATION, RISK_DIRECTIONAL_SLIPPAGE_EXCEEDED,
      RISK_GOLD_TRADE_FREQUENCY_EXCEEDED]"

definition WARNING_ISSUE_ORDER :: "string list" where
  "WARNING_ISSUE_ORDER = [RISK_ASSET_CLASS_SOFT_BAND_WARNING, RISK_NO_ACTION]"

definition check_action_supported :: "analysis_action \<Rightarrow> validation_issue list" where
  "check_action_supported action =
     (if action \<in> set [Action_BUY, Action_SELL, Action_HOLD] then []
      else [issue RISK_UNSUPPORTED_ACTION ''Unsupported AnalysisAction'' ERROR
              ''analysis_decision.fund_manager.action''])"

definition check_mdd_killswitch :: "risk_filter_context \<Rightarrow> analysis_action \<Rightarrow> validation_issue list" where
  "check_mdd_killswitch c action =
     (if rc_mode c \<noteq> Mode_MDD_KILLSWITCH then []
      else [issue RISK_MDD_KILLSWITCH_ACTIVE
              ''MDD_KILLSWITCH mode is active; normal BUY orders are restricted.''
              (if action = Action_BUY then ERROR else WARNING) ''context.mode''])"

definition check_mdd_percent_threshold :: "risk_filter_context \<Rightarrow> validation_issue list" where
  "check_mdd_percent_threshold c =
     (case mdd_level_from_percent (rc_mdd_percent c) of
        None \<Rightarrow> []
      | Some level \<Rightarrow>
          (if level = 3
           then [issue RISK_MDD_KILLSWITCH_ACTIVE
                   ''Account MDD drawdown reached Level 3 threshold (target cash 95%).'' ERROR
                   ''context.mdd_percent'']
           else if level = 2
           then [issue RISK_MDD_KILLSWITCH_ACTIVE
                   ''Account MDD drawdown reached Level 2 threshold (target cash 80%).'' WARNING
                   ''context.mdd_percent'']
           else [issue RISK_MDD_KILLSWITCH_ACTIVE
                   ''Account MDD drawdown reached Level 1 threshold (target cash 50%).'' WARNING
                   ''context.mdd_percent'']))"

definition target_weight_of :: "risk_filter_input \<Rightarrow> percent" where
  "target_weight_of r = fm_target_weight_percent (an_fund_manager (ri_analysis_decision r))"

definition check_single_position_cap :: "risk_filter_input \<Rightarrow> analysis_action \<Rightarrow> validation_issue list" where
  "check_single_position_cap r action =
     (if action \<noteq> Action_BUY then []
      else let c = ri_context r
       in case (rc_current_symbol_market_value c, rc_current_symbol_cumulative_buy_cost c) of
            (Some market_val, Some buy_cost) \<Rightarrow>
              let additional = additional_buy_cost (rc_total_nav c) (target_weight_of r) market_val;
                  cumulative_after = dadd (amount buy_cost) (amount additional);
                  cap = money_cap_from_nav_percent (rc_total_nav c) SINGLE_POSITION_CAP_PERCENT
              in if amount cap < cumulative_after
                 then [issue RISK_SINGLE_POSITION_CAP_EXCEEDED
                         ''Single position cumulative buy cost would exceed 5% NAV cap'' ERROR
                         ''context.current_symbol_cumulative_buy_cost'']
                 else []
          | _ \<Rightarrow> [issue RISK_INSUFFICIENT_CONTEXT
                    ''Single position cap check requires current_symbol_market_value and current_symbol_cumulative_buy_cost.''
                    ERROR ''context.current_symbol_market_value''])"

definition projected_cash_percent_after_buy :: "risk_filter_input \<Rightarrow> decimal option" where
  "projected_cash_percent_after_buy r =
     (let c = ri_context r
      in case rc_current_symbol_market_value c of
           None \<Rightarrow> None
         | Some market_val \<Rightarrow>
             let additional = additional_buy_cost (rc_total_nav c) (target_weight_of r) market_val;
                 projected_cash = dsub (amount (rc_cash c)) (amount additional)
             in Some (percent_of_money \<lparr>amount = projected_cash, currency = currency (rc_total_nav c)\<rparr>
                        (rc_total_nav c)))"

definition projected_cash_percent_after_sell :: "risk_filter_input \<Rightarrow> decimal option" where
  "projected_cash_percent_after_sell r =
     (let c = ri_context r
      in case rc_current_symbol_market_value c of
           None \<Rightarrow> None
         | Some market_val \<Rightarrow>
             let proposed = proposed_target_market_value (rc_total_nav c) (target_weight_of r);
                 sell_proceeds = dsub (amount market_val) (amount proposed)
             in if sell_proceeds \<le> 0 then Some (percent_of_money (rc_cash c) (rc_total_nav c))
                else Some (percent_of_money
                       \<lparr>amount = dadd (amount (rc_cash c)) sell_proceeds,
                        currency = currency (rc_total_nav c)\<rparr> (rc_total_nav c)))"

definition check_cash_band :: "risk_filter_input \<Rightarrow> analysis_action \<Rightarrow> validation_issue list" where
  "check_cash_band r action =
     (let c = ri_context r;
          cash_target = cp_cash_target_percent (al_cash_policy (ri_allocator_decision r));
          current_cash_percent = percent_of_money (rc_cash c) (rc_total_nav c)
      in (if \<not> is_cash_target_in_band_value cash_target
          then [issue RISK_CASH_BAND_VIOLATION ''Allocator cash_target_percent is outside 10~30 band.''
                  ERROR ''allocator_decision.cash_policy.cash_target_percent'']
          else []) @
         (case action of
            Action_BUY \<Rightarrow>
              (case projected_cash_percent_after_buy r of
                 None \<Rightarrow> []
               | Some projected \<Rightarrow>
                   if projected < CASH_TARGET_MIN
                   then [issue RISK_CASH_BAND_VIOLATION
                           ''Estimated post-BUY cash percent would fall below minimum 10.'' ERROR
                           ''context.cash'']
                   else [])
          | Action_SELL \<Rightarrow>
              (case projected_cash_percent_after_sell r of
                 None \<Rightarrow> []
               | Some projected \<Rightarrow>
                   if CASH_TARGET_MAX < projected
                   then [issue RISK_CASH_BAND_VIOLATION
                           ''Estimated post-SELL cash percent would exceed maximum 30.'' WARNING
                           ''context.cash'']
                   else [])
          | Action_HOLD \<Rightarrow>
              if current_cash_percent < CASH_TARGET_MIN \<or> CASH_TARGET_MAX < current_cash_percent
              then [issue RISK_CASH_BAND_VIOLATION ''Current cash percent is outside 10~30 band.''
                      ERROR ''context.cash'']
              else []))"

definition projected_invested_percent_after_sell :: "risk_filter_input \<Rightarrow> decimal option" where
  "projected_invested_percent_after_sell r =
     (let c = ri_context r
      in case rc_current_symbol_market_value c of
           None \<Rightarrow> None
         | Some market_val \<Rightarrow>
             let proposed = proposed_target_market_value (rc_total_nav c) (target_weight_of r);
                 reduction = dsub (amount market_val) (amount proposed)
             in if reduction \<le> 0
                then Some (percent_of_money (rc_invested_amount c) (rc_total_nav c))
                else Some (percent_of_money
                       \<lparr>amount = dsub (amount (rc_invested_amount c)) reduction,
                        currency = currency (rc_total_nav c)\<rparr> (rc_total_nav c)))"

definition check_invested_band :: "risk_filter_input \<Rightarrow> analysis_action \<Rightarrow> validation_issue list" where
  "check_invested_band r action =
     (let c = ri_context r;
          current_invested_percent = percent_of_money (rc_invested_amount c) (rc_total_nav c);
          lower_bound = invested_lower_bound_percent (rc_mode c)
            (rc_paper_observation_min_invested_percent c)
      in (if INVESTED_MAX_PERCENT < current_invested_percent
          then [issue RISK_INVESTED_BAND_VIOLATION ''Invested percent exceeds maximum 90.'' ERROR
                  ''context.invested_amount'']
          else []) @
         (if current_invested_percent < lower_bound
          then [issue RISK_INVESTED_BAND_VIOLATION ''Invested percent is below minimum for mode.''
                  (if rc_mode c \<in> set [Mode_REBALANCING, Mode_EMERGENCY_TRIGGER, Mode_MDD_KILLSWITCH]
                   then WARNING else ERROR) ''context.invested_amount'']
          else []) @
         (if action = Action_SELL \<and> rc_mode c = Mode_NORMAL
          then (case projected_invested_percent_after_sell r of
                  None \<Rightarrow> []
                | Some projected \<Rightarrow>
                    if projected < lower_bound
                    then [issue RISK_INVESTED_BAND_VIOLATION
                            ''Estimated post-SELL invested percent would fall below minimum in NORMAL mode.''
                            ERROR ''context.invested_amount'']
                    else [])
          else []))"

definition check_allocator_tolerance :: "risk_filter_input \<Rightarrow> validation_issue list" where
  "check_allocator_tolerance r =
     (let c = ri_context r
      in case rc_allocator_symbol_target_weight c of
           None \<Rightarrow> []
         | Some allocator_target \<Rightarrow>
             if is_within_allocator_tolerance (target_weight_of r) allocator_target
                  (rc_allocator_tolerance_percent c)
             then []
             else [issue RISK_ALLOCATOR_TOLERANCE_VIOLATION
                     ''fund_manager.target_weight_percent must be within allocator_symbol_target_weight tolerance_percent''
                     ERROR ''analysis_decision.fund_manager.target_weight_percent''])"

definition check_directional_slippage :: "risk_filter_input \<Rightarrow> analysis_action \<Rightarrow> validation_issue list" where
  "check_directional_slippage r action =
     (let c = ri_context r
      in if action = Action_HOLD then []
         else if rc_mode c = Mode_MDD_KILLSWITCH then []
         else case (rc_proposed_price c, rc_reference_prices c) of
           (Some proposed, Some prices) \<Rightarrow>
             (case map_of prices (an_symbol (ri_analysis_decision r)) of
                None \<Rightarrow> []
              | Some reference \<Rightarrow>
                  if currency proposed \<noteq> mp_currency reference
                  then [issue RISK_INSUFFICIENT_CONTEXT
                          ''Directional slippage requires proposed_price currency to match reference quote currency''
                          ERROR ''context.proposed_price'']
                  else
                    let tolerance = slippage_tolerance_percent (mp_market reference);
                        tolerance_factor = ddiv tolerance 100;
                        max_allowed = dmul (mp_price reference) (dadd 1 tolerance_factor)
                    in case action of
                         Action_BUY \<Rightarrow>
                           (if max_allowed < amount proposed
                            then [issue RISK_DIRECTIONAL_SLIPPAGE_EXCEEDED
                                    ''BUY proposed_price exceeds reference + tolerance.'' ERROR
                                    ''context.proposed_price'']
                            else [])
                       | Action_SELL \<Rightarrow>
                           (if max_allowed < amount proposed
                            then [issue RISK_DIRECTIONAL_SLIPPAGE_EXCEEDED
                                    ''SELL proposed_price rebounded above reference + tolerance.'' ERROR
                                    ''context.proposed_price'']
                            else [])
                       | Action_HOLD \<Rightarrow> [])
         | _ \<Rightarrow> [])"

definition check_gold_trade_frequency :: "risk_filter_input \<Rightarrow> analysis_action \<Rightarrow> validation_issue list" where
  "check_gold_trade_frequency r action =
     (let c = ri_context r
      in if action = Action_HOLD then []
         else if rc_asset_bucket c \<noteq> Some Bucket_GOLD then []
         else
           (if GOLD_TRADES_MONTHLY_MAX \<le> rc_gold_trades_this_month c
            then [issue RISK_GOLD_TRADE_FREQUENCY_EXCEEDED ''Gold trades this month reached monthly limit.''
                    ERROR ''context.gold_trades_this_month'']
            else []) @
           (if GOLD_TRADES_QUARTERLY_MAX \<le> rc_gold_trades_this_quarter c
            then [issue RISK_GOLD_TRADE_FREQUENCY_EXCEEDED ''Gold trades this quarter reached quarterly limit.''
                    ERROR ''context.gold_trades_this_quarter'']
            else []))"

definition check_asset_class_soft_band :: "risk_filter_context \<Rightarrow> validation_issue list" where
  "check_asset_class_soft_band c =
     (case rc_current_asset_weights c of
        None \<Rightarrow> []
      | Some w \<Rightarrow>
          if asset_class_soft_band_violations w = [] then []
          else [issue RISK_ASSET_CLASS_SOFT_BAND_WARNING
                  ''Asset class weights outside 15~55 soft band'' WARNING
                  ''context.current_asset_weights''])"

section \<open>Ordering the issues and the verdict\<close>

definition order_index :: "string list \<Rightarrow> string \<Rightarrow> nat" where
  "order_index codes code = length (takeWhile (\<lambda>c. c \<noteq> code) codes)"

definition issue_sort_key :: "validation_issue \<Rightarrow> nat \<times> nat \<times> string \<times> string \<times> string" where
  "issue_sort_key i =
     (let (group, order_map) =
            (case vi_severity i of
               ERROR \<Rightarrow> (0, ERROR_ISSUE_ORDER)
             | WARNING \<Rightarrow> (1, WARNING_ISSUE_ORDER)
             | INFO \<Rightarrow> (2, WARNING_ISSUE_ORDER))
      in (group, order_index order_map (vi_code i), vi_code i,
          (case vi_path i of Some p \<Rightarrow> p | None \<Rightarrow> ''''), vi_message i))"

definition sort_issues :: "validation_issue list \<Rightarrow> validation_issue list" where
  "sort_issues issues = sort_key issue_sort_key issues"

definition build_result :: "validation_issue list \<Rightarrow> validation_result" where
  "build_result issues =
     (let ordered = sort_issues issues
      in if ordered = []
         then \<lparr>vr_passed = True, vr_issues = [], vr_schema_name = Some RISK_FILTER_SCHEMA,
               vr_validator_version = Some RISK_FILTER_VALIDATOR_VERSION\<rparr>
         else \<lparr>vr_passed = \<not> has_error_issue ordered, vr_issues = ordered,
               vr_schema_name = Some RISK_FILTER_SCHEMA,
               vr_validator_version = Some RISK_FILTER_VALIDATOR_VERSION\<rparr>)"

definition has_blocking_errors :: "validation_result \<Rightarrow> bool" where
  "has_blocking_errors result \<longleftrightarrow> (\<exists>i \<in> set (vr_issues result). vi_severity i = ERROR)"

definition action_of :: "risk_filter_input \<Rightarrow> analysis_action" where
  "action_of r = fm_action (an_fund_manager (ri_analysis_decision r))"

definition evaluate :: "risk_filter_input \<Rightarrow> validation_result" where
  "evaluate r =
     (let action = action_of r; c = ri_context r;
          issues = check_action_supported action
      in if (\<exists>i \<in> set issues. vi_code i = RISK_UNSUPPORTED_ACTION) then build_result issues
         else
           let issues = issues @
             (if action = Action_HOLD
              then [issue RISK_NO_ACTION ''AnalysisAction.HOLD requires no order intent.'' INFO
                      ''analysis_decision.fund_manager.action'']
              else [])
           in build_result (issues @
                check_mdd_killswitch c action @
                check_mdd_percent_threshold c @
                check_single_position_cap r action @
                check_cash_band r action @
                check_invested_band r action @
                check_allocator_tolerance r @
                check_directional_slippage r action @
                check_gold_trade_frequency r action @
                check_asset_class_soft_band c))"

section \<open>What the verdict means\<close>

definition error_free :: "validation_issue list \<Rightarrow> bool" where
  "error_free issues \<longleftrightarrow> \<not> has_error_issue issues"

lemma error_free_simps [simp]:
  "error_free []" "error_free (a @ b) \<longleftrightarrow> error_free a \<and> error_free b"
  "error_free [issue code msg sev path] \<longleftrightarrow> sev \<noteq> ERROR"
  by (auto simp: error_free_def has_error_issue_def issue_def)

lemma set_sort_issues [simp]: "set (sort_issues issues) = set issues"
  by (simp add: sort_issues_def)

lemma sort_issues_Nil_iff [simp]: "sort_issues issues = [] \<longleftrightarrow> issues = []"
  by (metis set_empty set_sort_issues)

lemma has_error_sort [simp]: "has_error_issue (sort_issues issues) \<longleftrightarrow> has_error_issue issues"
  by (simp add: has_error_issue_def)

lemma build_result_fields:
  "vr_issues (build_result issues) = sort_issues issues"
  "vr_passed (build_result issues) \<longleftrightarrow> error_free issues"
proof -
  show "vr_issues (build_result issues) = sort_issues issues"
    by (cases "issues = []") (simp_all add: build_result_def Let_def, simp add: sort_issues_def)
  show "vr_passed (build_result issues) \<longleftrightarrow> error_free issues"
    by (cases "issues = []") (simp_all add: build_result_def Let_def error_free_def has_error_issue_def)
qed

lemma check_action_supported_Nil [simp]: "check_action_supported action = []"
  by (cases action) (simp_all add: check_action_supported_def)

definition all_issues :: "risk_filter_input \<Rightarrow> validation_issue list" where
  "all_issues r =
     (let action = action_of r; c = ri_context r
      in (if action = Action_HOLD
          then [issue RISK_NO_ACTION ''AnalysisAction.HOLD requires no order intent.'' INFO
                  ''analysis_decision.fund_manager.action'']
          else []) @
         check_mdd_killswitch c action @ check_mdd_percent_threshold c @
         check_single_position_cap r action @ check_cash_band r action @
         check_invested_band r action @ check_allocator_tolerance r @
         check_directional_slippage r action @ check_gold_trade_frequency r action @
         check_asset_class_soft_band c)"

lemma evaluate_eq: "evaluate r = build_result (all_issues r)"
  by (simp add: evaluate_def all_issues_def Let_def)

lemma blocking_iff: "has_blocking_errors (evaluate r) \<longleftrightarrow> \<not> vr_passed (evaluate r)"
  by (simp add: evaluate_eq build_result_fields has_blocking_errors_def error_free_def has_error_issue_def)

subsection \<open>The limits in declarative form\<close>

text \<open>The percentage of the NAV that an amount is, as the filter computes it.\<close>

definition pct_of_nav :: "risk_filter_context \<Rightarrow> decimal \<Rightarrow> decimal" where
  "pct_of_nav c x = dmul (ddiv x (amount (rc_total_nav c))) 100"

definition target_value :: "risk_filter_input \<Rightarrow> decimal" where
  "target_value r = ddiv (dmul (amount (rc_total_nav (ri_context r))) (target_weight_of r)) 100"

definition buy_cost_needed :: "risk_filter_input \<Rightarrow> money \<Rightarrow> decimal" where
  "buy_cost_needed r market_val = max 0 (dsub (target_value r) (amount market_val))"

definition drawdown_allows :: "risk_filter_context \<Rightarrow> bool" where
  "drawdown_allows c \<longleftrightarrow> (case rc_mdd_percent c of None \<Rightarrow> True | Some v \<Rightarrow> v < 20)"

definition cash_target_allows :: "risk_filter_input \<Rightarrow> bool" where
  "cash_target_allows r \<longleftrightarrow>
     (let v = cp_cash_target_percent (al_cash_policy (ri_allocator_decision r)) in 10 \<le> v \<and> v \<le> 30)"

definition invested_floor :: "risk_filter_context \<Rightarrow> decimal" where
  "invested_floor c =
     (case rc_paper_observation_min_invested_percent c of Some v \<Rightarrow> v | None \<Rightarrow> 70)"

definition invested_allows :: "risk_filter_context \<Rightarrow> bool" where
  "invested_allows c \<longleftrightarrow>
     (let v = pct_of_nav c (amount (rc_invested_amount c))
      in v \<le> 90 \<and> (rc_mode c = Mode_NORMAL \<longrightarrow> invested_floor c \<le> v))"

definition tolerance_allows :: "risk_filter_input \<Rightarrow> bool" where
  "tolerance_allows r \<longleftrightarrow>
     (case rc_allocator_symbol_target_weight (ri_context r) of
        None \<Rightarrow> True
      | Some w \<Rightarrow> dsub w (rc_allocator_tolerance_percent (ri_context r)) \<le> target_weight_of r \<and>
                 target_weight_of r \<le> dadd w (rc_allocator_tolerance_percent (ri_context r)))"

definition price_ceiling :: "market_price \<Rightarrow> decimal" where
  "price_ceiling ref = dmul (mp_price ref) (if mp_market ref = KR then 1005 / 1000 else 1002 / 1000)"

definition slippage_allows :: "risk_filter_input \<Rightarrow> bool" where
  "slippage_allows r \<longleftrightarrow>
     (let c = ri_context r
      in rc_mode c = Mode_MDD_KILLSWITCH \<or>
         (case (rc_proposed_price c, rc_reference_prices c) of
            (Some proposed, Some prices) \<Rightarrow>
              (case map_of prices (an_symbol (ri_analysis_decision r)) of
                 None \<Rightarrow> True
               | Some ref \<Rightarrow> currency proposed = mp_currency ref \<and> amount proposed \<le> price_ceiling ref)
          | _ \<Rightarrow> True))"

definition gold_allows :: "risk_filter_context \<Rightarrow> bool" where
  "gold_allows c \<longleftrightarrow> rc_asset_bucket c = Some Bucket_GOLD \<longrightarrow>
     rc_gold_trades_this_month c < 2 \<and> rc_gold_trades_this_quarter c < 4"

subsection \<open>Each check against its limit\<close>

lemma killswitch_error_free:
  "error_free (check_mdd_killswitch c action) \<longleftrightarrow>
     rc_mode c \<noteq> Mode_MDD_KILLSWITCH \<or> action \<noteq> Action_BUY"
  by (simp add: check_mdd_killswitch_def)

lemma threshold_error_free: "error_free (check_mdd_percent_threshold c) \<longleftrightarrow> drawdown_allows c"
  by (auto simp: check_mdd_percent_threshold_def mdd_level_from_percent_def drawdown_allows_def
      risk_constants split: option.splits if_splits)

lemma additional_buy_cost_eq:
  "amount (additional_buy_cost (rc_total_nav (ri_context r)) (target_weight_of r) mv) = buy_cost_needed r mv"
  by (simp add: additional_buy_cost_def buy_cost_needed_def target_value_def
      proposed_target_market_value_def money_zero_def Let_def max_def)

lemma cap_error_free:
  "error_free (check_single_position_cap r action) \<longleftrightarrow> action \<noteq> Action_BUY \<or>
     (\<exists>mv bc. rc_current_symbol_market_value (ri_context r) = Some mv \<and>
        rc_current_symbol_cumulative_buy_cost (ri_context r) = Some bc \<and>
        dadd (amount bc) (buy_cost_needed r mv) \<le>
          ddiv (dmul (amount (rc_total_nav (ri_context r))) 5) 100)"
  by (auto simp: check_single_position_cap_def additional_buy_cost_eq money_cap_from_nav_percent_def
      SINGLE_POSITION_CAP_PERCENT_def Let_def split: option.splits)

lemma cash_error_free:
  assumes "amount (rc_total_nav (ri_context r)) \<noteq> 0"
  shows "error_free (check_cash_band r action) \<longleftrightarrow> cash_target_allows r \<and>
     (case action of
        Action_BUY \<Rightarrow> (case rc_current_symbol_market_value (ri_context r) of None \<Rightarrow> True
          | Some mv \<Rightarrow> 10 \<le> pct_of_nav (ri_context r)
              (dsub (amount (rc_cash (ri_context r))) (buy_cost_needed r mv)))
      | Action_SELL \<Rightarrow> True
      | Action_HOLD \<Rightarrow> (let v = pct_of_nav (ri_context r) (amount (rc_cash (ri_context r)))
                        in 10 \<le> v \<and> v \<le> 30))"
  using assms
  by (cases action)
    (auto simp: check_cash_band_def cash_target_allows_def is_cash_target_in_band_value_def
      projected_cash_percent_after_buy_def percent_of_money_def pct_of_nav_def additional_buy_cost_eq
      CASH_TARGET_MIN_def CASH_TARGET_MAX_def Let_def split: option.splits if_splits)

text \<open>What a sale down to the target weight takes out of the invested amount.\<close>

definition invested_after_sell :: "risk_filter_input \<Rightarrow> money \<Rightarrow> decimal" where
  "invested_after_sell r mv =
     (let reduction = dsub (amount mv) (target_value r)
      in if reduction \<le> 0 then amount (rc_invested_amount (ri_context r))
         else dsub (amount (rc_invested_amount (ri_context r))) reduction)"

lemma projected_invested_eq:
  assumes "amount (rc_total_nav (ri_context r)) \<noteq> 0"
  shows "projected_invested_percent_after_sell r =
    map_option (\<lambda>mv. pct_of_nav (ri_context r) (invested_after_sell r mv))
      (rc_current_symbol_market_value (ri_context r))"
  using assms
  by (simp add: projected_invested_percent_after_sell_def invested_after_sell_def percent_of_money_def
      pct_of_nav_def target_value_def proposed_target_market_value_def Let_def split: option.splits)

lemma invested_error_free:
  assumes "amount (rc_total_nav (ri_context r)) \<noteq> 0"
  shows "error_free (check_invested_band r action) \<longleftrightarrow> invested_allows (ri_context r) \<and>
     (action = Action_SELL \<and> rc_mode (ri_context r) = Mode_NORMAL \<longrightarrow>
        (case rc_current_symbol_market_value (ri_context r) of None \<Rightarrow> True
         | Some mv \<Rightarrow> invested_floor (ri_context r) \<le> pct_of_nav (ri_context r) (invested_after_sell r mv)))"
proof -
  have floor: "invested_lower_bound_percent m (rc_paper_observation_min_invested_percent c) = invested_floor c"
    for m c by (simp add: invested_lower_bound_percent_def invested_floor_def
        INVESTED_MIN_NORMAL_PERCENT_def split: option.split)
  show ?thesis
    using assms
    by (cases "rc_mode (ri_context r)")
      (auto simp: check_invested_band_def invested_allows_def projected_invested_eq [OF assms] floor
        percent_of_money_def pct_of_nav_def INVESTED_MAX_PERCENT_def Let_def
        split: option.splits if_splits)
qed

lemma tolerance_error_free: "error_free (check_allocator_tolerance r) \<longleftrightarrow> tolerance_allows r"
  by (auto simp: check_allocator_tolerance_def tolerance_allows_def is_within_allocator_tolerance_def
      Let_def split: option.splits)

lemma tolerance_factors:
  "dadd 1 (ddiv (slippage_tolerance_percent m) 100) = (if m = KR then 1005 / 1000 else 1002 / 1000)"
proof -
  have a: "rnd (1 / 200) = 1 / 200" by (rule rnd_decimal [of _ 5 3]) simp_all
  have b: "rnd (1 / 500) = 1 / 500" by (rule rnd_decimal [of _ 2 3]) simp_all
  have c: "rnd (201 / 200) = 201 / 200" by (rule rnd_decimal [of _ 1005 3]) simp_all
  have d: "rnd (501 / 500) = 501 / 500" by (rule rnd_decimal [of _ 1002 3]) simp_all
  have "ddiv (1 / 2) 100 = 1 / 200" "ddiv (1 / 5) 100 = 1 / 500"
    unfolding ddiv_def by (simp_all only: divide_divide_eq_left mult.commute) (simp_all add: a b)
  moreover have "dadd 1 (1 / 200) = 1005 / 1000" "dadd 1 (1 / 500) = 1002 / 1000"
    using c d by (simp_all add: dadd_def)
  ultimately show ?thesis
    unfolding slippage_tolerance_percent_def SLIPPAGE_TOLERANCE_KR_def SLIPPAGE_TOLERANCE_US_def
    by (cases m) (simp_all only: if_True if_False market.distinct refl)
qed

lemma slippage_error_free:
  "error_free (check_directional_slippage r action) \<longleftrightarrow> action = Action_HOLD \<or> slippage_allows r"
  by (cases action)
    (auto simp: check_directional_slippage_def slippage_allows_def tolerance_factors price_ceiling_def
      Let_def split: option.splits)

lemma gold_error_free:
  "error_free (check_gold_trade_frequency r action) \<longleftrightarrow> action = Action_HOLD \<or> gold_allows (ri_context r)"
  by (auto simp: check_gold_trade_frequency_def gold_allows_def risk_constants Let_def)

lemma soft_band_error_free [simp]: "error_free (check_asset_class_soft_band c)"
  by (simp add: check_asset_class_soft_band_def split: option.split)

lemmas check_error_free =
  killswitch_error_free threshold_error_free cap_error_free tolerance_error_free
  slippage_error_free gold_error_free

section \<open>Properties of the risk filter\<close>

text \<open>A concrete decision pair and account.\<close>

definition example_reason :: decision_reason where
  "example_reason = \<lparr>rs_reason = ''momentum'', rs_date_id = ''260522-1'', rs_source_name = None, rs_quote = None\<rparr>"

definition example_analysis :: "analysis_action \<Rightarrow> percent \<Rightarrow> analysis_decision" where
  "example_analysis action weight =
     \<lparr>an_decision_id = ''analysis-1'', an_created_at = 0, an_schema_name = ANALYSIS_DECISION_SCHEMA,
      an_universe = ''kr'', an_symbol = ''005930'', an_market = ''KR'',
      an_summary_one_liner = ''steady'',
      an_bear = \<lparr>be_summary = ''b'', be_risks = [''r''], be_reasons = [example_reason]\<rparr>,
      an_bull = \<lparr>bu_summary = ''b'', bu_catalysts = [''c''], bu_reasons = [example_reason]\<rparr>,
      an_risk_manager = \<lparr>rm_summary = ''s'', rm_risk_flags = [], rm_max_weight_percent = None,
                         rm_reasons = [example_reason]\<rparr>,
      an_fund_manager = \<lparr>fm_action = action, fm_target_weight_percent = weight, fm_rationale = ''r'',
                         fm_reasons = [example_reason]\<rparr>,
      an_reasons = [example_reason]\<rparr>"

definition example_weights :: target_weights where
  "example_weights = \<lparr>tw_kr = 40, tw_us = 40, tw_gold = 20\<rparr>"

definition example_allocator :: allocator_decision where
  "example_allocator =
     \<lparr>al_decision_id = ''alloc-1'', al_created_at = 0, al_schema_name = ALLOCATOR_DECISION_SCHEMA,
      al_universe = ''kr'', al_summary_one_liner = ''steady'', al_gold_policy_mode = Gold_NORMAL,
      al_signal_summary = \<lparr>ss_summary = ''s'', ss_reasons = [example_reason]\<rparr>,
      al_cash_manager = \<lparr>cm_summary = ''s'', cm_recommended_cash_percent = 20, cm_reasons = [example_reason]\<rparr>,
      al_asset_allocator = \<lparr>aa_summary = ''s'', aa_target_weights = example_weights, aa_reasons = [example_reason]\<rparr>,
      al_consistency_checker = \<lparr>cc_passed = True, cc_summary = ''s'', cc_issues = [], cc_reasons = [example_reason]\<rparr>,
      al_cash_policy = \<lparr>cp_cash_target_percent = 20, cp_min_cash_percent = None, cp_max_cash_percent = None,
                        cp_rationale = ''r'', cp_reasons = [example_reason]\<rparr>,
      al_target_weights = example_weights, al_reasons = [example_reason]\<rparr>"

definition example_context :: risk_filter_context where
  "example_context =
     \<lparr>rc_created_at = 0, rc_mode = Mode_NORMAL,
      rc_total_nav = \<lparr>amount = 1000000, currency = KRW\<rparr>, rc_cash = \<lparr>amount = 250000, currency = KRW\<rparr>,
      rc_invested_amount = \<lparr>amount = 750000, currency = KRW\<rparr>,
      rc_current_symbol_market_value = Some \<lparr>amount = 0, currency = KRW\<rparr>,
      rc_current_symbol_cumulative_buy_cost = Some \<lparr>amount = 0, currency = KRW\<rparr>,
      rc_current_symbol_weight_percent = None, rc_current_asset_weights = None,
      rc_allocator_tolerance_percent = 5, rc_allocator_symbol_target_weight = Some 4,
      rc_paper_observation_min_invested_percent = None, rc_mdd_percent = Some 3,
      rc_market = Some KR, rc_currency = Some KRW, rc_asset_bucket = Some Bucket_KR,
      rc_gold_trades_this_month = 0, rc_gold_trades_this_quarter = 0,
      rc_proposed_price = None, rc_reference_prices = None\<rparr>"

definition example_input :: "analysis_action \<Rightarrow> percent \<Rightarrow> risk_filter_input" where
  "example_input action weight =
     \<lparr>ri_allocator_decision = example_allocator, ri_analysis_decision = example_analysis action weight,
      ri_context = example_context, ri_correlation_id = None\<rparr>"

lemmas example_input_defs = example_input_def example_context_def example_analysis_def
  example_allocator_def action_of_def target_weight_of_def


lemma buy_verdict:
  assumes "action_of r = Action_BUY" and "0 < amount (rc_total_nav c)" and "c = ri_context r"
  shows "vr_passed (evaluate r) \<longleftrightarrow>
    rc_mode c \<noteq> Mode_MDD_KILLSWITCH \<and> drawdown_allows c \<and>
    (\<exists>mv bc. rc_current_symbol_market_value c = Some mv \<and>
       rc_current_symbol_cumulative_buy_cost c = Some bc \<and>
       dadd (amount bc) (buy_cost_needed r mv) \<le> ddiv (dmul (amount (rc_total_nav c)) 5) 100 \<and>
       10 \<le> pct_of_nav c (dsub (amount (rc_cash c)) (buy_cost_needed r mv))) \<and>
    cash_target_allows r \<and> invested_allows c \<and> tolerance_allows r \<and> slippage_allows r \<and> gold_allows c"
proof -
  have nav: "amount (rc_total_nav (ri_context r)) \<noteq> 0" using assms(2,3) by simp
  show ?thesis
    using assms(1) unfolding assms(3)
    by (auto simp: evaluate_eq build_result_fields all_issues_def check_error_free
        cash_error_free [OF nav] invested_error_free [OF nav] Let_def)
qed

text \<open>The example purchase is within every limit.\<close>

lemma example_buy_limits:
  defines "r \<equiv> example_input Action_BUY 5"
  shows "action_of r = Action_BUY" "0 < amount (rc_total_nav (ri_context r))"
    "rc_mode (ri_context r) \<noteq> Mode_MDD_KILLSWITCH \<and> drawdown_allows (ri_context r) \<and>
    (\<exists>mv bc. rc_current_symbol_market_value (ri_context r) = Some mv \<and>
       rc_current_symbol_cumulative_buy_cost (ri_context r) = Some bc \<and>
       dadd (amount bc) (buy_cost_needed r mv) \<le> ddiv (dmul (amount (rc_total_nav (ri_context r))) 5) 100 \<and>
       10 \<le> pct_of_nav (ri_context r) (dsub (amount (rc_cash (ri_context r))) (buy_cost_needed r mv))) \<and>
    cash_target_allows r \<and> invested_allows (ri_context r) \<and> tolerance_allows r \<and>
    slippage_allows r \<and> gold_allows (ri_context r)"
proof -
  have q: "rnd (1 / 5) = 1 / 5" "rnd (3 / 4) = 3 / 4"
    by (rule rnd_decimal [of _ 2 1], simp, simp, rule rnd_decimal [of _ 75 2], simp, simp)
  have "target_value r = 50000"
    by (simp add: r_def target_value_def example_input_defs dmul_def ddiv_def)
  then have cost: "buy_cost_needed r \<lparr>amount = 0, currency = KRW\<rparr> = 50000"
    by (simp add: buy_cost_needed_def dsub_def)
  show "action_of r = Action_BUY" "0 < amount (rc_total_nav (ri_context r))"
    by (simp_all add: r_def example_input_defs)
  show "rc_mode (ri_context r) \<noteq> Mode_MDD_KILLSWITCH \<and> drawdown_allows (ri_context r) \<and>
    (\<exists>mv bc. rc_current_symbol_market_value (ri_context r) = Some mv \<and>
       rc_current_symbol_cumulative_buy_cost (ri_context r) = Some bc \<and>
       dadd (amount bc) (buy_cost_needed r mv) \<le> ddiv (dmul (amount (rc_total_nav (ri_context r))) 5) 100 \<and>
       10 \<le> pct_of_nav (ri_context r) (dsub (amount (rc_cash (ri_context r))) (buy_cost_needed r mv))) \<and>
    cash_target_allows r \<and> invested_allows (ri_context r) \<and> tolerance_allows r \<and>
    slippage_allows r \<and> gold_allows (ri_context r)"
    using cost unfolding r_def
    by (simp add: example_input_defs drawdown_allows_def cash_target_allows_def invested_allows_def
        tolerance_allows_def slippage_allows_def gold_allows_def invested_floor_def pct_of_nav_def
        dec_defs q)
qed

lemma example_buy_passes: "vr_passed (evaluate (example_input Action_BUY 5))"
  unfolding buy_verdict [OF example_buy_limits(1,2) refl] by (rule example_buy_limits(3))





end
