(* ===== verification/Order_Generation.thy ===== *)
theory Order_Generation
  imports Risk_Filter
begin

text \<open>
  From a validated decision to an order intent: \<^verbatim>\<open>src/src/risk/order_generation.py\<close>. The
  private exception \<^verbatim>\<open>_OrderGenerationError\<close>, which \<open>generate\<close> catches, is kept apart
  from the exceptions that the constructor of \<^verbatim>\<open>OrderIntent\<close> raises and that escape.
\<close>

datatype order_generation_status = GENERATED | BLOCKED | NOOP

record order_generation_result =
  og_status :: order_generation_status
  og_order_intent :: "order_intent option"
  og_validation_result :: validation_result
  og_correlation_id :: "string option"

fun risk_to_execution_mode :: "risk_mode \<Rightarrow> execution_mode" where
  "risk_to_execution_mode Mode_NORMAL = EM_NORMAL"
| "risk_to_execution_mode Mode_REBALANCING = EM_REBALANCING"
| "risk_to_execution_mode Mode_EMERGENCY_TRIGGER = EM_EMERGENCY_TRIGGER"
| "risk_to_execution_mode Mode_MDD_KILLSWITCH = EM_MDD_KILLSWITCH"

definition MARKET_STRING_MAP :: "(string \<times> market) list" where
  "MARKET_STRING_MAP = [(''KR'', KR), (''kr'', KR), (''US'', US), (''us'', US)]"

fun MARKET_DEFAULTS :: "market \<Rightarrow> currency \<times> asset_class \<times> account_role" where
  "MARKET_DEFAULTS KR = (KRW, KR_EQUITY, PAPER)"
| "MARKET_DEFAULTS US = (USD, US_EQUITY, PAPER)"

datatype build_error = OrderGenerationError string "string option" | Raised exn

definition parse_market :: "string \<Rightarrow> build_error + market" where
  "parse_market text =
     require (OrderGenerationError ''Unsupported market string'' (Some ''analysis_decision.market''))
       (map_of MARKET_STRING_MAP text)"

definition resolve_asset_routing ::
  "market \<Rightarrow> asset_bucket option \<Rightarrow> currency \<times> asset_class \<times> account_role" where
  "resolve_asset_routing m bucket =
     (if bucket = Some Bucket_GOLD then (KRW, GOLD, PAPER) else MARKET_DEFAULTS m)"

definition build_order_intent :: "risk_filter_input \<Rightarrow> string \<Rightarrow> build_error + order_intent" where
  "build_order_intent r correlation_id =
     (let analysis = ri_analysis_decision r; c = ri_context r; action = fm_action (an_fund_manager analysis)
      in rbind (case action of
                  Action_BUY \<Rightarrow> Inr BUY
                | Action_SELL \<Rightarrow> Inr SELL
                | Action_HOLD \<Rightarrow> Inl (OrderGenerationError ''Cannot generate OrderIntent for action''
                                   (Some ''analysis_decision.fund_manager.action''))) (\<lambda>side.
         rbind (parse_market (an_market analysis)) (\<lambda>m.
         case resolve_asset_routing m (rc_asset_bucket c) of
           (cur, ac, role) \<Rightarrow>
             (case mk_OrderIntent
               \<lparr>oi_order_id = ''order-'' @ an_decision_id analysis, oi_correlation_id = correlation_id,
                oi_symbol = an_symbol analysis, oi_market = m, oi_asset_class = ac,
                oi_account_role = role, oi_side = side, oi_order_type = MARKET,
                oi_execution_mode = risk_to_execution_mode (rc_mode c), oi_time_in_force = DAY,
                oi_quantity = None,
                oi_target_weight_percent = Some (fm_target_weight_percent (an_fund_manager analysis)),
                oi_limit_price = None, oi_reason_code = Some (an_summary_one_liner analysis),
                oi_source_decision_id = Some (an_decision_id analysis),
                oi_created_at = rc_created_at c\<rparr> of
              Inl e \<Rightarrow> Inl (Raised e)
            | Inr i \<Rightarrow> Inr i))))"

definition merge_generation_failure ::
  "validation_result \<Rightarrow> string \<Rightarrow> string option \<Rightarrow> validation_result" where
  "merge_generation_failure risk_result message path =
     \<lparr>vr_passed = False,
      vr_issues = vr_issues risk_result @
        [\<lparr>vi_code = RISK_ORDER_GENERATION_FAILED, vi_message = message, vi_severity = ERROR, vi_path = path\<rparr>],
      vr_schema_name = Some RISK_FILTER_SCHEMA,
      vr_validator_version = Some RISK_FILTER_VALIDATOR_VERSION\<rparr>"

definition generate :: "risk_filter_input \<Rightarrow> order_generation_result result" where
  "generate r =
     (let correlation_id =
            (case ri_correlation_id r of
               Some cid \<Rightarrow> if cid = '''' then an_decision_id (ri_analysis_decision r) else cid
             | None \<Rightarrow> an_decision_id (ri_analysis_decision r));
          risk_result = evaluate r;
          answer = (\<lambda>st intent vr. \<lparr>og_status = st, og_order_intent = intent,
                      og_validation_result = vr, og_correlation_id = Some correlation_id\<rparr>)
      in if has_blocking_errors risk_result then Inr (answer BLOCKED None risk_result)
         else if action_of r = Action_HOLD then Inr (answer NOOP None risk_result)
         else case build_order_intent r correlation_id of
           Inl (OrderGenerationError message path) \<Rightarrow>
             Inr (answer BLOCKED None (merge_generation_failure risk_result message path))
         | Inl (Raised e) \<Rightarrow> Inl e
         | Inr order_intent \<Rightarrow> Inr (answer GENERATED (Some order_intent) risk_result))"

section \<open>What is generated\<close>

text \<open>
  What the constructors of the input models guarantee: the decision id and the symbol are
  normalised, the target weight is a percentage, a correlation id is not blank.
\<close>

definition valid_risk_input :: "risk_filter_input \<Rightarrow> bool" where
  "valid_risk_input r \<longleftrightarrow>
     normalised (an_decision_id (ri_analysis_decision r)) \<and>
     normalised (an_symbol (ri_analysis_decision r)) \<and>
     0 \<le> target_weight_of r \<and> target_weight_of r \<le> 100 \<and>
     (case ri_correlation_id r of None \<Rightarrow> True | Some cid \<Rightarrow> normalised cid) \<and>
     0 < amount (rc_total_nav (ri_context r))"

lemma valid_risk_inputI:
  assumes "mk_AnalysisDecision d = Inr (ri_analysis_decision r)"
    and "mk_RiskFilterContext c = Inr (ri_context r)" and "mk_RiskFilterInput r' = Inr r"
  shows "valid_risk_input r"
proof -
  have "0 < amount (rc_total_nav (ri_context r))"
    using assms(2) by (auto simp: mk_RiskFilterContext_def validate_context_def rbind_Inr_iff Let_def
        split: if_splits)
  moreover have "case ri_correlation_id r of None \<Rightarrow> True | Some cid \<Rightarrow> normalised cid"
    using assms(3) by (auto simp: mk_RiskFilterInput_def normalize_optional_string_def rbind_Inr_iff
        split: if_splits option.splits dest!: normalize_required_string_Inr)
  ultimately show ?thesis
    using mk_AnalysisDecision_valid [OF assms(1)] by (simp add: valid_risk_input_def target_weight_of_def)
qed

definition side_of :: "analysis_action \<Rightarrow> order_side" where
  "side_of action = (if action = Action_BUY then BUY else SELL)"

definition effective_correlation :: "risk_filter_input \<Rightarrow> string" where
  "effective_correlation r =
     (case ri_correlation_id r of Some cid \<Rightarrow> cid | None \<Rightarrow> an_decision_id (ri_analysis_decision r))"

lemma build_order_intent_ok:
  assumes v: "valid_risk_input r" and a: "action_of r \<noteq> Action_HOLD" and cid: "normalised cid"
  shows "case map_of MARKET_STRING_MAP (an_market (ri_analysis_decision r)) of
      None \<Rightarrow> \<exists>m p. build_order_intent r cid = Inl (OrderGenerationError m p)
    | Some m \<Rightarrow> \<exists>i. build_order_intent r cid = Inr i \<and> valid_intent i \<and>
        oi_order_id i = ''order-'' @ an_decision_id (ri_analysis_decision r) \<and> oi_correlation_id i = cid \<and>
        oi_side i = side_of (action_of r) \<and> oi_order_type i = MARKET \<and> oi_market i = m \<and>
        oi_symbol i = an_symbol (ri_analysis_decision r) \<and> oi_quantity i = None \<and>
        oi_target_weight_percent i = Some (target_weight_of r) \<and> oi_account_role i = PAPER \<and>
        oi_source_decision_id i = Some (an_decision_id (ri_analysis_decision r))"
proof (cases "map_of MARKET_STRING_MAP (an_market (ri_analysis_decision r))")
  case None
  then show ?thesis
    using a by (cases "fm_action (an_fund_manager (ri_analysis_decision r))")
      (simp_all add: build_order_intent_def parse_market_def action_of_def Let_def)
next
  case (Some m)
  have oid: "normalised (''order-'' @ an_decision_id (ri_analysis_decision r))"
    using v by (intro normalised_prefix) (simp_all add: valid_risk_input_def is_space_def)
  have role: "snd (snd (resolve_asset_routing m (rc_asset_bucket (ri_context r)))) = PAPER"
    by (cases m) (simp_all add: resolve_asset_routing_def)
  obtain cur ac where route:
    "resolve_asset_routing m (rc_asset_bucket (ri_context r)) = (cur, ac, PAPER)"
    using role by (cases "resolve_asset_routing m (rc_asset_bucket (ri_context r))") auto
  have mk: "mk_OrderIntent i = Inr i" if "valid_intent i" for i using that by (rule mk_OrderIntent_idem)
  show ?thesis
    using Some a v oid cid route
    by (cases "fm_action (an_fund_manager (ri_analysis_decision r))")
      (auto simp: build_order_intent_def parse_market_def action_of_def Let_def mk valid_intent_def
        valid_risk_input_def target_weight_of_def side_of_def)
qed

text \<open>
  C21. For validated input the generator always answers. It answers BLOCKED with the failing
  verdict exactly when the filter blocks, NOOP for a HOLD that passes, BLOCKED with an added
  error for an unknown market text, and otherwise GENERATED with a valid market order that is
  still unsized: it carries the target weight, the side of the action, the symbol, and the order
  id derived from the decision id.
\<close>

theorem generate_spec:
  assumes "valid_risk_input r"
  shows "\<exists>g. generate r = Inr g \<and> og_correlation_id g = Some (effective_correlation r) \<and>
    (if \<not> vr_passed (evaluate r)
     then og_status g = BLOCKED \<and> og_order_intent g = None \<and> og_validation_result g = evaluate r
     else if action_of r = Action_HOLD then og_status g = NOOP \<and> og_order_intent g = None
     else case map_of MARKET_STRING_MAP (an_market (ri_analysis_decision r)) of
       None \<Rightarrow> og_status g = BLOCKED \<and> og_order_intent g = None \<and>
               has_blocking_errors (og_validation_result g)
     | Some m \<Rightarrow> og_status g = GENERATED \<and>
         (\<exists>i. og_order_intent g = Some i \<and> valid_intent i \<and>
            oi_order_id i = ''order-'' @ an_decision_id (ri_analysis_decision r) \<and>
            oi_side i = side_of (action_of r) \<and> oi_order_type i = MARKET \<and> oi_market i = m \<and>
            oi_symbol i = an_symbol (ri_analysis_decision r) \<and> oi_quantity i = None \<and>
            oi_target_weight_percent i = Some (target_weight_of r)))"
proof -
  have cid: "normalised (effective_correlation r)"
    using assms by (auto simp: valid_risk_input_def effective_correlation_def split: option.splits)
  have corr: "(case ri_correlation_id r of
               Some cid \<Rightarrow> if cid = '''' then an_decision_id (ri_analysis_decision r) else cid
             | None \<Rightarrow> an_decision_id (ri_analysis_decision r)) = effective_correlation r"
    using assms by (auto simp: valid_risk_input_def effective_correlation_def normalised_def
        split: option.splits)
  note build = build_order_intent_ok [OF assms _ cid]
  show ?thesis
  proof (cases "vr_passed (evaluate r) \<and> action_of r \<noteq> Action_HOLD")
    case False
    then show ?thesis
      unfolding generate_def Let_def corr blocking_iff by auto
  next
    case True
    then have open_gate: "\<not> has_blocking_errors (evaluate r)" "action_of r \<noteq> Action_HOLD"
      by (simp_all add: blocking_iff)
    show ?thesis
      using build [OF open_gate(2)] open_gate True unfolding generate_def Let_def corr
      by (auto simp: merge_generation_failure_def has_blocking_errors_def split: option.splits)
  qed
qed

lemma example_input_valid:
  "0 \<le> w \<Longrightarrow> w \<le> 100 \<Longrightarrow> valid_risk_input (example_input action w)"
  by (simp add: valid_risk_input_def example_input_defs normalised_def strip_def is_space_def)

theorem generate_spec_witness:
  "\<exists>g i. generate (example_input Action_BUY 5) = Inr g \<and> og_status g = GENERATED \<and>
     og_order_intent g = Some i \<and> oi_order_id i = ''order-analysis-1'' \<and> oi_side i = BUY \<and>
     oi_target_weight_percent i = Some 5"
proof -
  have "map_of MARKET_STRING_MAP (an_market (ri_analysis_decision (example_input Action_BUY 5))) = Some KR"
    by (simp add: MARKET_STRING_MAP_def example_input_defs)
  moreover have "action_of (example_input Action_BUY 5) = Action_BUY"
    "target_weight_of (example_input Action_BUY 5) = 5"
    "an_decision_id (ri_analysis_decision (example_input Action_BUY 5)) = ''analysis-1''"
    by (simp_all add: example_input_defs)
  ultimately show ?thesis
    using generate_spec [OF example_input_valid, of 5 Action_BUY] example_buy_passes
    by (auto simp: side_of_def)
qed

end
