(* ===== verification/Quantity_Resolver.thy ===== *)
theory Quantity_Resolver
  imports Order_Generation
begin

text \<open>
  Sizing: \<^verbatim>\<open>src/src/paper_loop/quantity_resolver.py\<close> turns an order intent that carries a
  target weight into one that carries a whole number of shares. The two rounding steps of
  \<^verbatim>\<open>Decimal\<close> (product and quotient) are in the model.
\<close>

datatype quantity_resolution_status = QR_RESOLVED | QR_NOOP | QR_FAILED

record quantity_resolution_result =
  qr_status :: quantity_resolution_status
  qr_order_intent :: "order_intent option"
  qr_validation_result :: validation_result

definition base_validation_result :: validation_result where
  "base_validation_result =
     \<lparr>vr_passed = True, vr_issues = [], vr_schema_name = Some RISK_FILTER_SCHEMA,
      vr_validator_version = Some RISK_FILTER_VALIDATOR_VERSION\<rparr>"

definition append_issue :: "validation_result \<Rightarrow> validation_issue \<Rightarrow> validation_result" where
  "append_issue base i =
     (let merged = vr_issues base @ [i]
      in \<lparr>vr_passed = \<not> has_error_issue merged, vr_issues = merged,
          vr_schema_name = vr_schema_name base, vr_validator_version = vr_validator_version base\<rparr>)"

definition resolve_failed :: "validation_result \<Rightarrow> string \<Rightarrow> string \<Rightarrow> string \<Rightarrow> quantity_resolution_result" where
  "resolve_failed base code message path =
     \<lparr>qr_status = QR_FAILED, qr_order_intent = None,
      qr_validation_result = append_issue base (issue code message ERROR path)\<rparr>"

definition resolve_current_value ::
  "risk_filter_context \<Rightarrow> market_price \<Rightarrow> decimal option \<Rightarrow> decimal option" where
  "resolve_current_value c p current_position_quantity =
     (case current_position_quantity of
        Some q \<Rightarrow> Some (dmul q (mp_price p))
      | None \<Rightarrow> map_option amount (rc_current_symbol_market_value c))"

definition floor_toward_zero :: "decimal \<Rightarrow> decimal" where
  "floor_toward_zero value =
     (if 0 \<le> value then of_int \<lfloor>value\<rfloor> else dneg (of_int \<lfloor>dneg value\<rfloor>))"

definition resolve ::
  "order_intent \<Rightarrow> risk_filter_context \<Rightarrow> market_price \<Rightarrow> decimal option \<Rightarrow> quantity_resolution_result result" where
  "resolve i c p current_position_quantity =
     (let base = base_validation_result
      in if oi_order_type i \<noteq> MARKET
         then Inr (resolve_failed base ''PAPER_LOOP_UNSUPPORTED_ORDER_TYPE''
                ''Phase 11 MVP supports MARKET orders only'' ''order_intent.order_type'')
         else if oi_quantity i \<noteq> None
         then Inr (resolve_failed base ''PAPER_LOOP_INVALID_TARGET_WEIGHT_INTENT''
                ''Input OrderIntent must not include quantity; target_weight_percent is required.''
                ''order_intent.quantity'')
         else case oi_target_weight_percent i of
           None \<Rightarrow> Inr (resolve_failed base ''PAPER_LOOP_INVALID_TARGET_WEIGHT_INTENT''
                ''Input OrderIntent requires target_weight_percent.'' ''order_intent.target_weight_percent'')
         | Some weight \<Rightarrow>
             if currency (rc_total_nav c) \<noteq> mp_currency p
             then Inr (resolve_failed base ''PAPER_LOOP_QUANTITY_CURRENCY_MISMATCH''
                    ''Quantity conversion requires total_nav.currency to match market_price.currency''
                    ''context.total_nav.currency'')
             else case resolve_current_value c p current_position_quantity of
               None \<Rightarrow> Inr (resolve_failed base ''PAPER_LOOP_QUANTITY_CONTEXT_MISSING''
                    ''Quantity conversion requires current_symbol_market_value or current_position_quantity.''
                    ''context.current_symbol_market_value'')
             | Some current_value \<Rightarrow>
                 let target_value = ddiv (dmul (amount (rc_total_nav c)) weight) 100;
                     value_delta = (case oi_side i of
                         BUY \<Rightarrow> max 0 (dsub target_value current_value)
                       | SELL \<Rightarrow> max 0 (dsub current_value target_value))
                 in rbind (ddiv_r value_delta (mp_price p)) (\<lambda>raw_quantity.
                    let quantity = floor_toward_zero raw_quantity
                    in if quantity \<le> 0
                       then Inr \<lparr>qr_status = QR_NOOP, qr_order_intent = None,
                              qr_validation_result = append_issue base
                                (issue ''PAPER_LOOP_NO_EXECUTABLE_QUANTITY''
                                   ''Computed quantity is zero; no executable order.'' INFO
                                   ''order_intent.quantity'')\<rparr>
                       else rbind (mk_OrderIntent
                              (i\<lparr>oi_quantity := Some quantity, oi_target_weight_percent := None,
                                oi_limit_price := None\<rparr>)) (\<lambda>executable.
                            Inr \<lparr>qr_status = QR_RESOLVED, qr_order_intent = Some executable,
                              qr_validation_result = append_issue base
                                (issue ''PAPER_LOOP_QUANTITY_RESOLVED'' ''Resolved executable quantity.'' INFO
                                   ''order_intent.quantity'')\<rparr>)))"

section \<open>The value gap and the shares that close it\<close>

definition value_gap :: "order_side \<Rightarrow> decimal \<Rightarrow> decimal \<Rightarrow> decimal" where
  "value_gap side target current =
     (case side of BUY \<Rightarrow> max 0 (dsub target current) | SELL \<Rightarrow> max 0 (dsub current target))"

lemma value_gap_nonneg: "0 \<le> value_gap side target current"
  by (cases side) (simp_all add: value_gap_def)

definition weight_value :: "risk_filter_context \<Rightarrow> decimal \<Rightarrow> decimal" where
  "weight_value c weight = ddiv (dmul (amount (rc_total_nav c)) weight) 100"

text \<open>Whole shares bought with a gap: within the rounding of one division of the exact count.\<close>

lemma whole_shares_bounds:
  assumes gap: "0 \<le> gap" and price: "0 < price"
  defines "q \<equiv> floor_toward_zero (ddiv gap price)"
  shows "q = of_int \<lfloor>ddiv gap price\<rfloor>" "0 \<le> q"
    and "q * price \<le> gap * (1 + 5 / 10 ^ 28)"
    and "gap * (1 - 5 / 10 ^ 28) < (q + 1) * price"
proof -
  define x where "x = gap / price"
  define eps :: rat where "eps = 5 / 10 ^ 28"
  have x: "0 \<le> x" "gap = x * price" using gap price by (simp_all add: x_def)
  have raw: "0 \<le> ddiv gap price" using gap price by (intro ddiv_nonneg) simp_all
  then show q: "q = of_int \<lfloor>ddiv gap price\<rfloor>" by (simp add: q_def floor_toward_zero_def)
  with raw show "0 \<le> q" by simp
  have "\<bar>ddiv gap price - x\<bar> \<le> \<bar>x\<bar> * eps"
    unfolding ddiv_def x_def [symmetric] eps_def by (rule rnd_error)
  then have err: "ddiv gap price \<le> x * (1 + eps)" "x * (1 - eps) \<le> ddiv gap price"
    using x(1) by (simp_all add: distrib_left right_diff_distrib abs_le_iff)
  have "q \<le> ddiv gap price" using q by simp
  with err have "q \<le> x * (1 + eps)" by linarith
  then have "q * price \<le> x * (1 + eps) * price" using price by (intro mult_right_mono) simp_all
  also have "\<dots> = gap * (1 + eps)" unfolding x(2) by (simp only: ac_simps)
  finally show "q * price \<le> gap * (1 + 5 / 10 ^ 28)" unfolding eps_def .
  have "ddiv gap price < q + 1" using q by linarith
  with err have "x * (1 - eps) < q + 1" by linarith
  then have "x * (1 - eps) * price < (q + 1) * price"
    using price by (intro mult_strict_right_mono) simp_all
  moreover have "x * (1 - eps) * price = gap * (1 - eps)" unfolding x(2) by (simp only: ac_simps)
  ultimately show "gap * (1 - 5 / 10 ^ 28) < (q + 1) * price" unfolding eps_def by (simp only:)
qed

lemma resolve_eq:
  assumes i: "valid_intent i" and ty: "oi_order_type i = MARKET" and w: "oi_target_weight_percent i = Some w"
    and cur: "currency (rc_total_nav c) = mp_currency p"
    and now: "resolve_current_value c p held = Some v" and price: "0 < mp_price p"
  shows "resolve i c p held = Inr
    (let q = floor_toward_zero (ddiv (value_gap (oi_side i) (weight_value c w) v) (mp_price p))
     in if q \<le> 0
        then \<lparr>qr_status = QR_NOOP, qr_order_intent = None,
               qr_validation_result = append_issue base_validation_result
                 (issue ''PAPER_LOOP_NO_EXECUTABLE_QUANTITY''
                    ''Computed quantity is zero; no executable order.'' INFO ''order_intent.quantity'')\<rparr>
        else \<lparr>qr_status = QR_RESOLVED,
               qr_order_intent = Some (i\<lparr>oi_quantity := Some q, oi_target_weight_percent := None,
                 oi_limit_price := None\<rparr>),
               qr_validation_result = append_issue base_validation_result
                 (issue ''PAPER_LOOP_QUANTITY_RESOLVED'' ''Resolved executable quantity.'' INFO
                    ''order_intent.quantity'')\<rparr>)"
proof -
  have q: "oi_quantity i = None" using i w by (auto simp: valid_intent_def)
  have mk: "mk_OrderIntent (i\<lparr>oi_quantity := Some q, oi_target_weight_percent := None,
      oi_limit_price := None\<rparr>) = Inr (i\<lparr>oi_quantity := Some q, oi_target_weight_percent := None,
      oi_limit_price := None\<rparr>)" if "0 < q" for q
    using i ty that by (intro mk_OrderIntent_idem) (simp add: valid_intent_def)
  show ?thesis
    unfolding resolve_def Let_def
    using ty q w cur now price mk
    by (cases "oi_side i") (simp_all add: ddiv_r_def value_gap_def weight_value_def not_le)
qed


definition example_unsized :: order_intent where
  "example_unsized =
     \<lparr>oi_order_id = ''order-analysis-1'', oi_correlation_id = ''analysis-1'', oi_symbol = ''005930'',
      oi_market = KR, oi_asset_class = KR_EQUITY, oi_account_role = PAPER, oi_side = BUY,
      oi_order_type = MARKET, oi_execution_mode = EM_NORMAL, oi_time_in_force = DAY,
      oi_quantity = None, oi_target_weight_percent = Some 5, oi_limit_price = None,
      oi_reason_code = None, oi_source_decision_id = None, oi_created_at = 0\<rparr>"

definition example_quote :: market_price where
  "example_quote = \<lparr>mp_symbol = ''005930'', mp_market = KR, mp_currency = KRW, mp_price = 7000, mp_as_of = 0\<rparr>"


end
