(* ===== verification/Ledger.thy ===== *)
theory Ledger
  imports Domain
begin

text \<open>
  The paper ledger of \<^verbatim>\<open>src/src/ledger/sqlite_ledger.py\<close>: one list of rows per SQLite
  table. Enum columns hold the member's text, as the database does; Decimal and timestamp
  columns hold the value that their text denotes (\<^verbatim>\<open>str\<close>/\<^verbatim>\<open>Decimal\<close> and
  \<^verbatim>\<open>isoformat\<close>/\<^verbatim>\<open>fromisoformat\<close> are exact). Reading a row rebuilds the domain model
  and so runs its validators again. \<^verbatim>\<open>PRAGMA foreign_keys = ON\<close> makes the foreign keys of
  results and fills part of the inserts. \<open>transaction\<close> commits the body's state or, on an
  exception, restores the state before it.
\<close>

section \<open>Rows\<close>

record intent_row =
  ir_order_id :: string
  ir_correlation_id :: string
  ir_symbol :: string
  ir_market :: string
  ir_asset_class :: string
  ir_account_role :: string
  ir_side :: string
  ir_order_type :: string
  ir_execution_mode :: string
  ir_time_in_force :: string
  ir_quantity :: "decimal option"
  ir_target_weight_percent :: "decimal option"
  ir_limit_price :: "decimal option"
  ir_reason_code :: "string option"
  ir_source_decision_id :: "string option"
  ir_created_at :: instant

record result_row =
  rr_order_id :: string
  rr_status :: string
  rr_accepted :: int
  rr_rejection_reason :: "string option"
  rr_created_at :: instant

record fill_row =
  fr_fill_id :: string
  fr_order_id :: string
  fr_symbol :: string
  fr_market :: string
  fr_side :: string
  fr_quantity :: decimal
  fr_fill_price :: decimal
  fr_commission_amount :: decimal
  fr_commission_currency :: string
  fr_tax_amount :: decimal
  fr_tax_currency :: string
  fr_slippage_amount :: "decimal option"
  fr_slippage_currency :: "string option"
  fr_filled_at :: instant

record cash_row =
  cr_currency :: string
  cr_account_role :: string
  cr_amount :: decimal
  cr_as_of :: instant

record cash_entry_row =
  ce_id :: int
  ce_order_id :: "string option"
  ce_correlation_id :: "string option"
  ce_currency :: string
  ce_account_role :: string
  ce_delta_amount :: decimal
  ce_balance_after :: decimal
  ce_reason :: string
  ce_created_at :: instant

record position_row =
  pr_symbol :: string
  pr_market :: string
  pr_account_role :: string
  pr_asset_class :: string
  pr_quantity :: decimal
  pr_avg_cost :: decimal
  pr_currency :: string
  pr_market_price :: "decimal option"

record ledger =
  order_intents :: "intent_row list"
  order_results :: "result_row list"
  fills :: "fill_row list"
  current_cash :: "cash_row list"
  paper_cash_ledger :: "cash_entry_row list"
  current_positions :: "position_row list"
  nav_snapshots :: "nav_snapshot list"

text \<open>A fresh database after \<^verbatim>\<open>_init_schema\<close>.\<close>

definition empty_ledger :: ledger where
  "empty_ledger =
     \<lparr>order_intents = [], order_results = [], fills = [], current_cash = [],
      paper_cash_ledger = [], current_positions = [], nav_snapshots = []\<rparr>"

definition cash_key :: "cash_row \<Rightarrow> string \<times> string" where
  "cash_key r = (cr_currency r, cr_account_role r)"

definition position_key :: "position_row \<Rightarrow> string \<times> string \<times> string" where
  "position_key r = (pr_symbol r, pr_market r, pr_account_role r)"

definition transaction :: "(ledger \<Rightarrow> (ledger \<times> 'a) result) \<Rightarrow> ledger \<Rightarrow> ledger \<times> 'a result" where
  "transaction body l =
     (case body l of Inl e \<Rightarrow> (l, Inl e) | Inr (l', x) \<Rightarrow> (l', Inr x))"

section \<open>Orders, results and fills\<close>

definition has_processed_order :: "ledger \<Rightarrow> string \<Rightarrow> bool" where
  "has_processed_order l oid \<longleftrightarrow> tbl_get rr_order_id oid (order_results l) \<noteq> None"

definition intent_to_row :: "order_intent \<Rightarrow> intent_row" where
  "intent_to_row i =
     \<lparr>ir_order_id = oi_order_id i, ir_correlation_id = oi_correlation_id i,
      ir_symbol = oi_symbol i, ir_market = market_str (oi_market i),
      ir_asset_class = asset_class_str (oi_asset_class i),
      ir_account_role = account_role_str (oi_account_role i),
      ir_side = order_side_str (oi_side i), ir_order_type = order_type_str (oi_order_type i),
      ir_execution_mode = execution_mode_str (oi_execution_mode i),
      ir_time_in_force = time_in_force_str (oi_time_in_force i),
      ir_quantity = oi_quantity i, ir_target_weight_percent = oi_target_weight_percent i,
      ir_limit_price = oi_limit_price i, ir_reason_code = oi_reason_code i,
      ir_source_decision_id = oi_source_decision_id i, ir_created_at = oi_created_at i\<rparr>"

definition save_order_intent :: "ledger \<Rightarrow> order_intent \<Rightarrow> ledger result" where
  "save_order_intent l i =
     rbind (tbl_insert ir_order_id (intent_to_row i) (order_intents l))
       (\<lambda>rows. Inr (l\<lparr>order_intents := rows\<rparr>))"

definition result_to_row :: "order_result \<Rightarrow> result_row" where
  "result_to_row r =
     \<lparr>rr_order_id = or_order_id r, rr_status = order_status_str (or_status r),
      rr_accepted = (if or_accepted r then 1 else 0),
      rr_rejection_reason = or_rejection_reason r, rr_created_at = or_created_at r\<rparr>"

definition references_intent :: "ledger \<Rightarrow> string \<Rightarrow> bool" where
  "references_intent l oid \<longleftrightarrow> tbl_get ir_order_id oid (order_intents l) \<noteq> None"

definition save_order_result :: "ledger \<Rightarrow> order_result \<Rightarrow> ledger result" where
  "save_order_result l r =
     rbind (tbl_insert rr_order_id (result_to_row r) (order_results l)) (\<lambda>rows.
     rbind (guard (references_intent l (or_order_id r))
       (IntegrityError ''FOREIGN KEY constraint failed'')) (\<lambda>_.
     Inr (l\<lparr>order_results := rows\<rparr>)))"

definition fill_to_row :: "fill \<Rightarrow> fill_row" where
  "fill_to_row f =
     \<lparr>fr_fill_id = f_fill_id f, fr_order_id = f_order_id f, fr_symbol = f_symbol f,
      fr_market = market_str (f_market f), fr_side = order_side_str (f_side f),
      fr_quantity = f_quantity f, fr_fill_price = f_fill_price f,
      fr_commission_amount = amount (f_commission f),
      fr_commission_currency = currency_str (currency (f_commission f)),
      fr_tax_amount = amount (f_tax f), fr_tax_currency = currency_str (currency (f_tax f)),
      fr_slippage_amount = map_option amount (f_slippage f),
      fr_slippage_currency = map_option (\<lambda>m. currency_str (currency m)) (f_slippage f),
      fr_filled_at = f_filled_at f\<rparr>"

definition save_fill :: "ledger \<Rightarrow> fill \<Rightarrow> ledger result" where
  "save_fill l f =
     rbind (tbl_insert fr_fill_id (fill_to_row f) (fills l)) (\<lambda>rows.
     rbind (guard (references_intent l (f_order_id f))
       (IntegrityError ''FOREIGN KEY constraint failed'')) (\<lambda>_.
     Inr (l\<lparr>fills := rows\<rparr>)))"

definition row_to_order_intent :: "intent_row \<Rightarrow> order_intent result" where
  "row_to_order_intent r =
     rbind (market_of_str (ir_market r)) (\<lambda>m.
     rbind (asset_class_of_str (ir_asset_class r)) (\<lambda>ac.
     rbind (account_role_of_str (ir_account_role r)) (\<lambda>role.
     rbind (order_side_of_str (ir_side r)) (\<lambda>side.
     rbind (order_type_of_str (ir_order_type r)) (\<lambda>ot.
     rbind (execution_mode_of_str (ir_execution_mode r)) (\<lambda>em.
     rbind (time_in_force_of_str (ir_time_in_force r)) (\<lambda>tif.
     mk_OrderIntent
       \<lparr>oi_order_id = ir_order_id r, oi_correlation_id = ir_correlation_id r,
        oi_symbol = ir_symbol r, oi_market = m, oi_asset_class = ac, oi_account_role = role,
        oi_side = side, oi_order_type = ot, oi_execution_mode = em, oi_time_in_force = tif,
        oi_quantity = ir_quantity r, oi_target_weight_percent = ir_target_weight_percent r,
        oi_limit_price = ir_limit_price r, oi_reason_code = ir_reason_code r,
        oi_source_decision_id = ir_source_decision_id r,
        oi_created_at = ir_created_at r\<rparr>)))))))"

definition row_to_order_result :: "result_row \<Rightarrow> order_result result" where
  "row_to_order_result r =
     rbind (order_status_of_str (rr_status r)) (\<lambda>st.
     mk_OrderResult
       \<lparr>or_order_id = rr_order_id r, or_status = st, or_accepted = (rr_accepted r \<noteq> 0),
        or_rejection_reason = rr_rejection_reason r, or_created_at = rr_created_at r\<rparr>)"

definition row_to_fill :: "fill_row \<Rightarrow> fill result" where
  "row_to_fill r =
     rbind (case fr_slippage_amount r of
              None \<Rightarrow> Inr None
            | Some a \<Rightarrow>
                rbind (require (ValueError ''None is not a valid Currency'') (fr_slippage_currency r))
                  (\<lambda>t. rbind (currency_of_str t) (\<lambda>c. Inr (Some \<lparr>amount = a, currency = c\<rparr>)))) (\<lambda>slip.
     rbind (market_of_str (fr_market r)) (\<lambda>m.
     rbind (order_side_of_str (fr_side r)) (\<lambda>side.
     rbind (currency_of_str (fr_commission_currency r)) (\<lambda>cc.
     rbind (currency_of_str (fr_tax_currency r)) (\<lambda>tc.
     mk_Fill
       \<lparr>f_fill_id = fr_fill_id r, f_order_id = fr_order_id r, f_symbol = fr_symbol r,
        f_market = m, f_side = side, f_quantity = fr_quantity r, f_fill_price = fr_fill_price r,
        f_commission = \<lparr>amount = fr_commission_amount r, currency = cc\<rparr>,
        f_tax = \<lparr>amount = fr_tax_amount r, currency = tc\<rparr>,
        f_slippage = slip, f_filled_at = fr_filled_at r\<rparr>)))))"

definition restore :: "('row \<Rightarrow> 'a result) \<Rightarrow> 'row option \<Rightarrow> 'a option result" where
  "restore f row = (case row of None \<Rightarrow> Inr None | Some r \<Rightarrow> rbind (f r) (\<lambda>x. Inr (Some x)))"

definition get_order_intent :: "ledger \<Rightarrow> string \<Rightarrow> order_intent option result" where
  "get_order_intent l oid = restore row_to_order_intent (tbl_get ir_order_id oid (order_intents l))"

definition get_order_result :: "ledger \<Rightarrow> string \<Rightarrow> order_result option result" where
  "get_order_result l oid = restore row_to_order_result (tbl_get rr_order_id oid (order_results l))"

definition get_fill_by_order_id :: "ledger \<Rightarrow> string \<Rightarrow> fill option result" where
  "get_fill_by_order_id l oid = restore row_to_fill (find (\<lambda>r. fr_order_id r = oid) (fills l))"

section \<open>Cash\<close>

definition cash_to_row :: "cash_snapshot \<Rightarrow> cash_row" where
  "cash_to_row c =
     \<lparr>cr_currency = currency_str (cs_currency c),
      cr_account_role = account_role_str (cs_account_role c),
      cr_amount = cs_amount c, cr_as_of = cs_as_of c\<rparr>"

definition upsert_cash :: "ledger \<Rightarrow> cash_snapshot \<Rightarrow> ledger" where
  "upsert_cash l c =
     l\<lparr>current_cash := tbl_upsert cash_key (cash_to_row c) (current_cash l)\<rparr>"

definition append_cash_ledger_entry ::
  "ledger \<Rightarrow> string option \<Rightarrow> string option \<Rightarrow> currency \<Rightarrow> account_role \<Rightarrow> decimal \<Rightarrow> decimal \<Rightarrow>
   string \<Rightarrow> instant \<Rightarrow> ledger" where
  "append_cash_ledger_entry l oid cid cur role delta balance reason created_at =
     l\<lparr>paper_cash_ledger := paper_cash_ledger l @
        [\<lparr>ce_id = int (length (paper_cash_ledger l)) + 1, ce_order_id = oid,
          ce_correlation_id = cid, ce_currency = currency_str cur,
          ce_account_role = account_role_str role, ce_delta_amount = delta,
          ce_balance_after = balance, ce_reason = reason, ce_created_at = created_at\<rparr>]\<rparr>"

definition row_to_cash_snapshot :: "cash_row \<Rightarrow> cash_snapshot result" where
  "row_to_cash_snapshot r =
     rbind (currency_of_str (cr_currency r)) (\<lambda>c.
     rbind (account_role_of_str (cr_account_role r)) (\<lambda>role.
     mk_CashSnapshot
       \<lparr>cs_currency = c, cs_amount = cr_amount r, cs_account_role = role, cs_as_of = cr_as_of r\<rparr>))"

definition get_cash :: "ledger \<Rightarrow> currency \<Rightarrow> account_role \<Rightarrow> cash_snapshot option result" where
  "get_cash l cur role =
     restore row_to_cash_snapshot
       (tbl_get cash_key (currency_str cur, account_role_str role) (current_cash l))"

definition apply_cash_change ::
  "ledger \<Rightarrow> cash_snapshot \<Rightarrow> string option \<Rightarrow> string option \<Rightarrow> decimal \<Rightarrow> string \<Rightarrow> ledger result" where
  "apply_cash_change l c oid cid delta reason =
     rbind (get_cash l (cs_currency c) (cs_account_role c)) (\<lambda>existing.
     let previous_amount = (case existing of None \<Rightarrow> 0 | Some e \<Rightarrow> cs_amount e);
         expected_balance = dadd previous_amount delta
     in if expected_balance \<noteq> cs_amount c
        then Inl (ValueError ''cash ledger balance mismatch: delta_amount does not match balance_after'')
        else Inr (append_cash_ledger_entry (upsert_cash l c) oid cid (cs_currency c)
                    (cs_account_role c) delta (cs_amount c) reason (cs_as_of c)))"

definition list_cash_ledger_entries ::
  "ledger \<Rightarrow> currency option \<Rightarrow> account_role option \<Rightarrow> cash_entry_row list" where
  "list_cash_ledger_entries l cur role =
     sort_key ce_id (filter (\<lambda>e.
       (case cur of None \<Rightarrow> True | Some c \<Rightarrow> ce_currency e = currency_str c) \<and>
       (case role of None \<Rightarrow> True | Some r \<Rightarrow> ce_account_role e = account_role_str r))
       (paper_cash_ledger l))"

section \<open>Positions and NAV snapshots\<close>

definition position_to_row :: "position \<Rightarrow> position_row" where
  "position_to_row p =
     \<lparr>pr_symbol = pos_symbol p, pr_market = market_str (pos_market p),
      pr_account_role = account_role_str (pos_account_role p),
      pr_asset_class = asset_class_str (pos_asset_class p), pr_quantity = pos_quantity p,
      pr_avg_cost = pos_avg_cost p, pr_currency = currency_str (pos_currency p),
      pr_market_price = pos_market_price p\<rparr>"

definition upsert_position :: "ledger \<Rightarrow> position \<Rightarrow> ledger" where
  "upsert_position l p =
     l\<lparr>current_positions := tbl_upsert position_key (position_to_row p) (current_positions l)\<rparr>"

definition delete_position :: "ledger \<Rightarrow> string \<Rightarrow> market \<Rightarrow> account_role \<Rightarrow> ledger" where
  "delete_position l symbol m role =
     l\<lparr>current_positions := tbl_delete position_key (symbol, market_str m, account_role_str role)
         (current_positions l)\<rparr>"

definition row_to_position :: "position_row \<Rightarrow> position result" where
  "row_to_position r =
     rbind (market_of_str (pr_market r)) (\<lambda>m.
     rbind (asset_class_of_str (pr_asset_class r)) (\<lambda>ac.
     rbind (account_role_of_str (pr_account_role r)) (\<lambda>role.
     rbind (currency_of_str (pr_currency r)) (\<lambda>cur.
     mk_Position
       \<lparr>pos_symbol = pr_symbol r, pos_market = m, pos_asset_class = ac, pos_account_role = role,
        pos_quantity = pr_quantity r, pos_avg_cost = pr_avg_cost r, pos_currency = cur,
        pos_market_price = pr_market_price r\<rparr>))))"

definition get_position ::
  "ledger \<Rightarrow> string \<Rightarrow> market \<Rightarrow> account_role \<Rightarrow> position option result" where
  "get_position l symbol m role =
     restore row_to_position
       (tbl_get position_key (symbol, market_str m, account_role_str role) (current_positions l))"

definition list_positions :: "ledger \<Rightarrow> position list result" where
  "list_positions l = traverse row_to_position (sort_key position_key (current_positions l))"

definition save_nav_snapshot :: "ledger \<Rightarrow> nav_snapshot \<Rightarrow> ledger result" where
  "save_nav_snapshot l n =
     rbind (tbl_insert nav_snapshot_id n (nav_snapshots l))
       (\<lambda>rows. Inr (l\<lparr>nav_snapshots := rows\<rparr>))"

section \<open>Rows restore the models they were written from\<close>

lemma row_to_order_intent_to_row:
  "valid_intent i \<Longrightarrow> row_to_order_intent (intent_to_row i) = Inr i"
  by (cases i) (simp add: row_to_order_intent_def intent_to_row_def mk_OrderIntent_idem)

lemma row_to_order_result_to_row:
  "valid_result r \<Longrightarrow> row_to_order_result (result_to_row r) = Inr r"
  by (cases r; cases "or_accepted r")
    (simp_all add: row_to_order_result_def result_to_row_def mk_OrderResult_idem)

lemma money_eta [simp]: "\<lparr>amount = amount m, currency = currency m\<rparr> = m"
  by (cases m) simp

lemma row_to_fill_to_row: "valid_fill f \<Longrightarrow> row_to_fill (fill_to_row f) = Inr f"
  by (cases f; cases "f_slippage f")
    (simp_all add: row_to_fill_def fill_to_row_def mk_Fill_idem)

lemma row_to_position_to_row:
  "valid_position p \<Longrightarrow> row_to_position (position_to_row p) = Inr p"
  by (cases p) (simp add: row_to_position_def position_to_row_def mk_Position_idem)

lemma row_to_cash_snapshot_to_row:
  "0 \<le> cs_amount c \<Longrightarrow> row_to_cash_snapshot (cash_to_row c) = Inr c"
  by (simp add: row_to_cash_snapshot_def cash_to_row_def mk_CashSnapshot_def)

lemmas row_roundtrips [simp] =
  row_to_order_intent_to_row row_to_order_result_to_row row_to_fill_to_row
  row_to_position_to_row row_to_cash_snapshot_to_row

lemma row_keys [simp]:
  "ir_order_id (intent_to_row i) = oi_order_id i"
  "rr_order_id (result_to_row r) = or_order_id r"
  "fr_fill_id (fill_to_row f) = f_fill_id f" "fr_order_id (fill_to_row f) = f_order_id f"
  "cash_key (cash_to_row c) = (currency_str (cs_currency c), account_role_str (cs_account_role c))"
  "position_key (position_to_row p) =
     (pos_symbol p, market_str (pos_market p), account_role_str (pos_account_role p))"
  "cr_amount (cash_to_row c) = cs_amount c"
  by (simp_all add: intent_to_row_def result_to_row_def fill_to_row_def cash_to_row_def
      cash_key_def position_to_row_def position_key_def)

lemma restore_simps [simp]:
  "restore f None = Inr None" "restore f (Some r) = rbind (f r) (\<lambda>x. Inr (Some x))"
  by (simp_all add: restore_def)

section \<open>Well-formed ledgers\<close>

text \<open>Every row was written from a valid model, keys are unique, foreign keys resolve.\<close>

definition cash_wf :: "cash_row list \<Rightarrow> bool" where
  "cash_wf rows \<longleftrightarrow> tbl_keyed cash_key rows \<and>
     (\<forall>r \<in> set rows. \<exists>c. 0 \<le> cs_amount c \<and> r = cash_to_row c)"

definition positions_wf :: "position_row list \<Rightarrow> bool" where
  "positions_wf rows \<longleftrightarrow> tbl_keyed position_key rows \<and>
     (\<forall>r \<in> set rows. \<exists>p. valid_position p \<and> 0 < pos_quantity p \<and> r = position_to_row p)"

definition orders_wf :: "ledger \<Rightarrow> bool" where
  "orders_wf l \<longleftrightarrow>
     tbl_keyed ir_order_id (order_intents l) \<and> tbl_keyed rr_order_id (order_results l) \<and>
     tbl_keyed fr_fill_id (fills l) \<and>
     (\<forall>r \<in> set (order_intents l). \<exists>i. valid_intent i \<and> r = intent_to_row i) \<and>
     (\<forall>r \<in> set (order_results l). \<exists>x. valid_result x \<and> r = result_to_row x) \<and>
     (\<forall>r \<in> set (fills l). \<exists>f. valid_fill f \<and> f_fill_id f = f_order_id f @ ''-fill'' \<and> r = fill_to_row f) \<and>
     (\<forall>r \<in> set (order_results l). references_intent l (rr_order_id r)) \<and>
     (\<forall>r \<in> set (fills l). references_intent l (fr_order_id r)) \<and>
     (\<forall>r \<in> set (order_intents l). has_processed_order l (ir_order_id r))"

subsection \<open>The append-only cash ledger and its projection\<close>

definition cash_entries :: "ledger \<Rightarrow> string \<times> string \<Rightarrow> cash_entry_row list" where
  "cash_entries l k = filter (\<lambda>e. (ce_currency e, ce_account_role e) = k) (paper_cash_ledger l)"

definition cash_balance :: "ledger \<Rightarrow> string \<times> string \<Rightarrow> decimal" where
  "cash_balance l k = (case tbl_get cash_key k (current_cash l) of None \<Rightarrow> 0 | Some r \<Rightarrow> cr_amount r)"

text \<open>
  A movement is a delta and the balance after it. A history is \<open>chained\<close> when every
  balance is the rounded sum of the one before and its delta; \<open>replay\<close> recomputes the
  balance from the deltas alone.
\<close>

fun chained :: "decimal \<Rightarrow> (decimal \<times> decimal) list \<Rightarrow> bool" where
  "chained prev [] \<longleftrightarrow> True"
| "chained prev ((d, b) # es) \<longleftrightarrow> b = dadd prev d \<and> chained b es"

definition replay :: "(decimal \<times> decimal) list \<Rightarrow> decimal" where
  "replay es = foldl (\<lambda>b e. dadd b (fst e)) 0 es"

lemma chained_append:
  "chained prev (es @ [(d, b)]) \<longleftrightarrow>
     chained prev es \<and> b = dadd (foldl (\<lambda>b e. dadd b (fst e)) prev es) d"
  by (induction prev es rule: chained.induct) auto

text \<open>
  The contract of a double-entry cash book: a posting is accepted only if its new balance is
  the rounded sum of the old balance and the delta, and it appends exactly that entry.
\<close>

locale cash_book =
  fixes apply_post :: "'l \<Rightarrow> 'p \<Rightarrow> 'l result"
    and acct :: "'p \<Rightarrow> 'k"
    and delta :: "'p \<Rightarrow> decimal"
    and new_balance :: "'p \<Rightarrow> decimal"
    and balance :: "'l \<Rightarrow> 'k \<Rightarrow> decimal"
    and entries :: "'l \<Rightarrow> 'k \<Rightarrow> (decimal \<times> decimal) list"
    and wf :: "'l \<Rightarrow> bool"
    and ok :: "'p \<Rightarrow> bool"
  assumes post_balanced:
      "wf l \<Longrightarrow> apply_post l p = Inr l' \<Longrightarrow> new_balance p = dadd (balance l (acct p)) (delta p)"
    and post_balance:
      "wf l \<Longrightarrow> apply_post l p = Inr l' \<Longrightarrow>
       balance l' k = (if k = acct p then new_balance p else balance l k)"
    and post_entries:
      "wf l \<Longrightarrow> apply_post l p = Inr l' \<Longrightarrow>
       entries l' k = (if k = acct p then entries l k @ [(delta p, new_balance p)] else entries l k)"
    and post_wf: "wf l \<Longrightarrow> ok p \<Longrightarrow> apply_post l p = Inr l' \<Longrightarrow> wf l'"
    and post_unbalanced:
      "wf l \<Longrightarrow> new_balance p \<noteq> dadd (balance l (acct p)) (delta p) \<Longrightarrow>
       \<exists>e. apply_post l p = Inl (ValueError e)"
begin

definition reconciled :: "'l \<Rightarrow> bool" where
  "reconciled l \<longleftrightarrow> (\<forall>k. chained 0 (entries l k) \<and> balance l k = replay (entries l k))"

lemma post_reconciled:
  assumes "wf l" "reconciled l" "apply_post l p = Inr l'"
  shows "reconciled l'"
  unfolding reconciled_def
proof
  fix k
  show "chained 0 (entries l' k) \<and> balance l' k = replay (entries l' k)"
    using assms post_balanced [OF assms(1,3)] post_balance [OF assms(1,3)]
      post_entries [OF assms(1,3)]
    by (auto simp: reconciled_def chained_append replay_def)
qed

fun post_all :: "'l \<Rightarrow> 'p list \<Rightarrow> 'l result" where
  "post_all l [] = Inr l"
| "post_all l (p # ps) = rbind (apply_post l p) (\<lambda>l'. post_all l' ps)"

lemma post_all_reconciled:
  "wf l \<Longrightarrow> reconciled l \<Longrightarrow> list_all ok ps \<Longrightarrow> post_all l ps = Inr l' \<Longrightarrow> wf l' \<and> reconciled l'"
proof (induction ps arbitrary: l)
  case (Cons p ps)
  then obtain m where m: "apply_post l p = Inr m" and rest: "post_all m ps = Inr l'"
    by (auto simp: rbind_Inr_iff)
  from Cons.prems m have "wf m" "reconciled m"
    by (auto intro: post_wf post_reconciled)
  moreover from Cons.prems have "list_all ok ps" by simp
  ultimately show ?case using rest by (rule Cons.IH)
qed simp

end

subsection \<open>The ledger is such a cash book\<close>

type_synonym posting = "cash_snapshot \<times> string option \<times> string option \<times> decimal \<times> string"

definition post_cash :: "ledger \<Rightarrow> posting \<Rightarrow> ledger result" where
  "post_cash l p = (case p of (c, oid, cid, d, reason) \<Rightarrow> apply_cash_change l c oid cid d reason)"

definition posting_acct :: "posting \<Rightarrow> string \<times> string" where
  "posting_acct p = cash_key (cash_to_row (fst p))"

abbreviation posting_delta :: "posting \<Rightarrow> decimal" where
  "posting_delta p \<equiv> fst (snd (snd (snd p)))"

abbreviation cash_movements :: "ledger \<Rightarrow> string \<times> string \<Rightarrow> (decimal \<times> decimal) list" where
  "cash_movements l k \<equiv> map (\<lambda>e. (ce_delta_amount e, ce_balance_after e)) (cash_entries l k)"

abbreviation acct_key :: "currency \<Rightarrow> account_role \<Rightarrow> string \<times> string" where
  "acct_key cur role \<equiv> (currency_str cur, account_role_str role)"

lemma str_eq_iffs [simp]:
  "currency_str a = currency_str b \<longleftrightarrow> a = b"
  "account_role_str r = account_role_str r' \<longleftrightarrow> r = r'"
  "market_str m = market_str m' \<longleftrightarrow> m = m'"
  by (cases a; cases b; simp) (simp_all add: account_role_str_eq_iff market_str_eq_iff)

lemma get_cash_wf:
  assumes "cash_wf (current_cash l)"
  obtains x where "get_cash l cur role = Inr x"
    and "(case x of None \<Rightarrow> 0 | Some e \<Rightarrow> cs_amount e) = cash_balance l (acct_key cur role)"
    and "x = None \<longleftrightarrow> tbl_get cash_key (acct_key cur role) (current_cash l) = None"
    and "\<And>c. x = Some c \<Longrightarrow> cs_currency c = cur \<and> cs_account_role c = role \<and> 0 \<le> cs_amount c"
proof (cases "tbl_get cash_key (acct_key cur role) (current_cash l)")
  case None
  then show ?thesis by (intro that [of None]) (simp_all add: get_cash_def cash_balance_def)
next
  case (Some r)
  then have "r \<in> set (current_cash l)" and key: "cash_key r = acct_key cur role"
    by (auto dest: tbl_get_Some_mem tbl_get_key)
  with assms obtain c where c: "0 \<le> cs_amount c" "r = cash_to_row c"
    by (auto simp: cash_wf_def)
  with Some key show ?thesis
    by (intro that [of "Some c"]) (simp_all add: get_cash_def cash_balance_def)
qed

lemma cash_balance_nonneg: "cash_wf (current_cash l) \<Longrightarrow> 0 \<le> cash_balance l k"
  by (auto simp: cash_balance_def cash_wf_def split: option.splits dest!: tbl_get_Some_mem)

lemma apply_cash_change_eq:
  assumes "cash_wf (current_cash l)"
  shows "apply_cash_change l c oid cid d reason =
    (if dadd (cash_balance l (acct_key (cs_currency c) (cs_account_role c))) d \<noteq> cs_amount c
     then Inl (ValueError ''cash ledger balance mismatch: delta_amount does not match balance_after'')
     else Inr (append_cash_ledger_entry (upsert_cash l c) oid cid (cs_currency c)
                    (cs_account_role c) d (cs_amount c) reason (cs_as_of c)))"
  by (rule get_cash_wf [OF assms, of "cs_currency c" "cs_account_role c"])
    (simp add: apply_cash_change_def Let_def)

lemma cash_wf_upsert:
  "cash_wf rows \<Longrightarrow> 0 \<le> cs_amount c \<Longrightarrow> cash_wf (tbl_upsert cash_key (cash_to_row c) rows)"
  by (auto simp: cash_wf_def tbl_keyed_upsert set_tbl_upsert)

lemma cash_balance_post:
  "cash_balance (append_cash_ledger_entry (upsert_cash l c) oid cid cur role d b reason t) k =
     (if k = acct_key (cs_currency c) (cs_account_role c) then cs_amount c else cash_balance l k)"
  by (simp add: cash_balance_def append_cash_ledger_entry_def upsert_cash_def tbl_get_upsert)

lemma cash_entries_post:
  "cash_movements (append_cash_ledger_entry (upsert_cash l c) oid cid cur role d b reason t) k =
     (if k = acct_key cur role then cash_movements l k @ [(d, b)] else cash_movements l k)"
  by (auto simp: cash_entries_def append_cash_ledger_entry_def upsert_cash_def)

interpretation book: cash_book post_cash posting_acct posting_delta "\<lambda>p. cs_amount (fst p)"
  cash_balance cash_movements "\<lambda>l. cash_wf (current_cash l)" "\<lambda>p. 0 \<le> cs_amount (fst p)"
proof (unfold_locales, goal_cases)
  case (1 l p l')
  then show ?case
    by (cases p) (simp add: post_cash_def apply_cash_change_eq posting_acct_def split: if_splits)
next
  case (2 l p l' k)
  then show ?case
    by (cases p) (auto simp: post_cash_def apply_cash_change_eq posting_acct_def cash_balance_post
        split: if_splits)
next
  case (3 l p l' k)
  then show ?case
    by (cases p) (auto simp: post_cash_def apply_cash_change_eq posting_acct_def cash_entries_post
        split: if_splits)
next
  case (4 l p l')
  then show ?case
    by (cases p) (auto simp: post_cash_def apply_cash_change_eq append_cash_ledger_entry_def
        upsert_cash_def cash_wf_upsert split: if_splits)
next
  case (5 l p)
  then show ?case
    by (cases p) (auto simp: post_cash_def apply_cash_change_eq posting_acct_def)
qed

section \<open>The ledger invariant\<close>

definition cash_reconciled :: "ledger \<Rightarrow> bool" where
  "cash_reconciled l \<longleftrightarrow>
     (\<forall>k. chained 0 (cash_movements l k) \<and> cash_balance l k = replay (cash_movements l k))"

lemma book_reconciled_iff: "book.reconciled l \<longleftrightarrow> cash_reconciled l"
  by (simp add: book.reconciled_def cash_reconciled_def)

definition ledger_inv :: "ledger \<Rightarrow> bool" where
  "ledger_inv l \<longleftrightarrow>
     orders_wf l \<and> cash_wf (current_cash l) \<and> positions_wf (current_positions l) \<and>
     cash_reconciled l"

lemma ledger_inv_empty: "ledger_inv empty_ledger"
  by (simp add: ledger_inv_def orders_wf_def cash_wf_def positions_wf_def tbl_keyed_def
      cash_reconciled_def replay_def empty_ledger_def cash_entries_def cash_balance_def)

lemma get_position_wf:
  assumes "positions_wf (current_positions l)"
  obtains x where "get_position l symbol m role = Inr x"
    and "\<And>p. x = Some p \<Longrightarrow> valid_position p \<and> 0 < pos_quantity p \<and>
           pos_symbol p = symbol \<and> pos_market p = m \<and> pos_account_role p = role \<and>
           tbl_get position_key (symbol, market_str m, account_role_str role) (current_positions l) =
             Some (position_to_row p)"
    and "x = None \<Longrightarrow>
      tbl_get position_key (symbol, market_str m, account_role_str role) (current_positions l) = None"
proof (cases "tbl_get position_key (symbol, market_str m, account_role_str role) (current_positions l)")
  case None
  then show ?thesis by (intro that [of None]) (simp_all add: get_position_def)
next
  case (Some r)
  then have "r \<in> set (current_positions l)"
    and key: "position_key r = (symbol, market_str m, account_role_str role)"
    by (auto dest: tbl_get_Some_mem tbl_get_key)
  with assms obtain p where "valid_position p" "0 < pos_quantity p" "r = position_to_row p"
    by (auto simp: positions_wf_def)
  with Some key show ?thesis
    by (intro that [of "Some p"]) (auto simp: get_position_def)
qed

lemma positions_wf_upsert:
  "positions_wf rows \<Longrightarrow> valid_position p \<Longrightarrow> 0 < pos_quantity p \<Longrightarrow>
   positions_wf (tbl_upsert position_key (position_to_row p) rows)"
  by (auto simp: positions_wf_def tbl_keyed_upsert set_tbl_upsert)

lemma positions_wf_delete:
  "positions_wf rows \<Longrightarrow> positions_wf (tbl_delete position_key k rows)"
  by (auto simp: positions_wf_def tbl_keyed_delete set_tbl_delete)

lemma list_positions_wf:
  assumes "positions_wf (current_positions l)"
  shows "\<exists>ps. list_positions l = Inr ps \<and>
    map position_to_row ps = sort_key position_key (current_positions l)"
proof -
  let ?rows = "sort_key position_key (current_positions l)"
  have "\<exists>p. row_to_position r = Inr p \<and> position_to_row p = r" if "r \<in> set ?rows" for r
    using that assms by (auto simp: positions_wf_def)
  then obtain g where g: "\<And>r. r \<in> set ?rows \<Longrightarrow> row_to_position r = Inr (g r) \<and> position_to_row (g r) = r"
    by metis
  then have "list_positions l = Inr (map g ?rows)"
    unfolding list_positions_def by (intro traverse_Inr_all) blast
  moreover have "map position_to_row (map g ?rows) = ?rows"
    using g by (auto intro!: map_idI)
  ultimately show ?thesis by blast
qed

section \<open>Properties of the ledger\<close>

text \<open>
  What is saved can be read back: an order intent that was accepted by its constructor and
  saved is returned unchanged by \<open>get_order_intent\<close>, other ids read as before, and a
  second insert of the same order id raises an integrity error.
\<close>

theorem order_intent_roundtrip:
  assumes "valid_intent i" and "save_order_intent l i = Inr l'"
  shows "get_order_intent l' (oi_order_id i) = Inr (Some i) \<and>
    (\<forall>oid. oid \<noteq> oi_order_id i \<longrightarrow> get_order_intent l' oid = get_order_intent l oid) \<and>
    (\<exists>e. save_order_intent l' i = Inl (IntegrityError e))"
proof -
  obtain rows where ins: "tbl_insert ir_order_id (intent_to_row i) (order_intents l) = Inr rows"
    and l': "l' = l\<lparr>order_intents := rows\<rparr>"
    using assms(2) by (auto simp: save_order_intent_def rbind_Inr_iff)
  have get: "tbl_get ir_order_id k rows =
      (if k = oi_order_id i then Some (intent_to_row i) else tbl_get ir_order_id k (order_intents l))" for k
    using tbl.ins_get [OF ins, of k] by simp
  obtain e where "tbl_insert ir_order_id (intent_to_row i) rows = Inl (IntegrityError e)"
    using tbl.ins_twice [OF ins] by blast
  then show ?thesis
    using assms(1) get by (simp add: get_order_intent_def save_order_intent_def l')
qed

text \<open>
  The cash table cannot drift from the cash ledger: \<open>apply_cash_change\<close> accepts a new
  balance exactly when it is the rounded sum of the stored balance and the delta, otherwise it
  raises; when it accepts, the account's balance is the new one, all others are untouched, and
  one entry with that delta and balance is appended to that account's history.
\<close>

theorem apply_cash_change_spec:
  assumes "cash_wf (current_cash l)" and "k = acct_key (cs_currency c) (cs_account_role c)"
  shows "if cs_amount c = dadd (cash_balance l k) d
     then \<exists>l'. apply_cash_change l c oid cid d reason = Inr l' \<and>
       (\<forall>j. cash_balance l' j = (if j = k then cs_amount c else cash_balance l j)) \<and>
       (\<forall>j. cash_movements l' j =
          (if j = k then cash_movements l j @ [(d, cs_amount c)] else cash_movements l j))
     else \<exists>e. apply_cash_change l c oid cid d reason = Inl (ValueError e)"
  using assms(2) by (simp add: apply_cash_change_eq [OF assms(1)] cash_balance_post cash_entries_post)

end
