(* ===== verification/Paper_Broker.thy ===== *)
theory Paper_Broker
  imports Ledger
begin

text \<open>
  The paper execution adapter of \<^verbatim>\<open>src/src/broker/paper_broker.py\<close> over the ledger. An
  operation returns the ledger after it and either its value or the exception it raised; an
  exception inside \<^verbatim>\<open>with self._ledger.transaction()\<close> leaves the ledger as it was. The
  injected fee calculator is a parameter; \<open>zero_fees\<close> is the source's default.
\<close>

type_synonym fee_calculator = "order_intent \<Rightarrow> decimal \<Rightarrow> currency \<Rightarrow> money \<times> money"

definition zero_fees :: fee_calculator where
  "zero_fees intent fill_price cur = (money_zero cur, money_zero cur)"

fun expected_currency_for_market :: "market \<Rightarrow> currency" where
  "expected_currency_for_market KR = KRW"
| "expected_currency_for_market US = USD"

record execution_decision =
  ed_status :: order_status
  ed_accepted :: bool
  ed_rejection_reason :: "string option"
  ed_fill_price :: "decimal option"
  ed_commission :: "money option"
  ed_tax :: "money option"
  ed_slippage :: "money option"

definition decision_without_fill :: "order_status \<Rightarrow> bool \<Rightarrow> string option \<Rightarrow> execution_decision" where
  "decision_without_fill st acc reason =
     \<lparr>ed_status = st, ed_accepted = acc, ed_rejection_reason = reason, ed_fill_price = None,
      ed_commission = None, ed_tax = None, ed_slippage = None\<rparr>"

definition decision_filled :: "decimal \<Rightarrow> money \<Rightarrow> money \<Rightarrow> money \<Rightarrow> execution_decision" where
  "decision_filled price commission tax slippage =
     \<lparr>ed_status = FILLED, ed_accepted = True, ed_rejection_reason = None,
      ed_fill_price = Some price, ed_commission = Some commission, ed_tax = Some tax,
      ed_slippage = Some slippage\<rparr>"

definition validate_intent_market_price_match ::
  "order_intent \<Rightarrow> market_price \<Rightarrow> string option" where
  "validate_intent_market_price_match i p =
     (if oi_symbol i \<noteq> mp_symbol p then Some ''symbol mismatch''
      else if oi_market i \<noteq> mp_market p then Some ''market mismatch''
      else if mp_currency p \<noteq> expected_currency_for_market (mp_market p)
      then Some ''currency mismatch''
      else None)"

text \<open>\<^verbatim>\<open>assert intent.quantity is not None\<close> and the like.\<close>

abbreviation assert_some :: "'a option \<Rightarrow> 'a result" where
  "assert_some x \<equiv> require (AssertionError ''is not None'') x"

definition evaluate_order ::
  "fee_calculator \<Rightarrow> ledger \<Rightarrow> order_intent \<Rightarrow> market_price \<Rightarrow> execution_decision result" where
  "evaluate_order fee l i p =
     rbind (assert_some (oi_quantity i)) (\<lambda>quantity.
     rbind (if oi_order_type i = LIMIT
            then rbind (assert_some (oi_limit_price i)) (\<lambda>limit.
                 Inr (oi_side i = BUY \<and> mp_price p > limit \<or> oi_side i = SELL \<and> mp_price p < limit))
            else Inr False) (\<lambda>pending.
     if pending then Inr (decision_without_fill PENDING True None)
     else
       let fill_price = mp_price p
       in if oi_side i = SELL
          then rbind (get_position l (oi_symbol i) (oi_market i) (oi_account_role i)) (\<lambda>position.
               let held = (case position of Some ps \<Rightarrow> pos_quantity ps | None \<Rightarrow> 0)
               in if held < quantity
                  then Inr (decision_without_fill REJECTED False (Some ''insufficient position quantity''))
                  else let (commission, tax) = fee i fill_price (mp_currency p)
                       in Inr (decision_filled fill_price commission tax (money_zero (mp_currency p))))
          else let (commission, tax) = fee i fill_price (mp_currency p);
                   total_cost = dadd (dadd (dmul quantity fill_price) (amount commission)) (amount tax)
               in rbind (get_cash l (mp_currency p) (oi_account_role i)) (\<lambda>cash.
                  let available = (case cash of Some c \<Rightarrow> cs_amount c | None \<Rightarrow> 0)
                  in if available < total_cost
                     then Inr (decision_without_fill REJECTED False (Some ''insufficient cash''))
                     else Inr (decision_filled fill_price commission tax (money_zero (mp_currency p))))))"

definition rejected_result :: "order_intent \<Rightarrow> string \<Rightarrow> instant \<Rightarrow> order_result" where
  "rejected_result i reason created_at =
     \<lparr>or_order_id = oi_order_id i, or_status = REJECTED, or_accepted = False,
      or_rejection_reason = Some reason, or_created_at = created_at\<rparr>"

definition accepted_result :: "order_intent \<Rightarrow> order_status \<Rightarrow> instant \<Rightarrow> order_result" where
  "accepted_result i st created_at =
     \<lparr>or_order_id = oi_order_id i, or_status = st, or_accepted = True,
      or_rejection_reason = None, or_created_at = created_at\<rparr>"

definition record_rejected_order ::
  "ledger \<Rightarrow> order_intent \<Rightarrow> string \<Rightarrow> instant \<Rightarrow> ledger \<times> order_result result" where
  "record_rejected_order l i reason created_at =
     (case mk_OrderResult (rejected_result i reason created_at) of
        Inl e \<Rightarrow> (l, Inl e)
      | Inr result \<Rightarrow>
          transaction (\<lambda>l.
            rbind (if \<not> has_processed_order l (oi_order_id i) then save_order_intent l i else Inr l) (\<lambda>l.
            rbind (save_order_result l result) (\<lambda>l. Inr (l, result)))) l)"

definition record_pending_order ::
  "ledger \<Rightarrow> order_intent \<Rightarrow> instant \<Rightarrow> ledger \<times> order_result result" where
  "record_pending_order l i created_at =
     (case mk_OrderResult (accepted_result i PENDING created_at) of
        Inl e \<Rightarrow> (l, Inl e)
      | Inr result \<Rightarrow>
          transaction (\<lambda>l.
            rbind (save_order_intent l i) (\<lambda>l.
            rbind (save_order_result l result) (\<lambda>l. Inr (l, result)))) l)"

definition increase_position ::
  "ledger \<Rightarrow> order_intent \<Rightarrow> market_price \<Rightarrow> fill \<Rightarrow> ledger result" where
  "increase_position l i p f =
     rbind (get_position l (oi_symbol i) (oi_market i) (oi_account_role i)) (\<lambda>existing.
     rbind (case existing of
        None \<Rightarrow> Inr (f_quantity f, f_fill_price f)
      | Some ex \<Rightarrow>
          let total_qty = dadd (pos_quantity ex) (f_quantity f)
          in rbind (ddiv_r (dadd (dmul (pos_quantity ex) (pos_avg_cost ex))
                                 (dmul (f_quantity f) (f_fill_price f))) total_qty)
               (\<lambda>weighted_avg. Inr (total_qty, weighted_avg))) (\<lambda>(qty, avg).
     rbind (mk_Position
       \<lparr>pos_symbol = oi_symbol i, pos_market = oi_market i, pos_asset_class = oi_asset_class i,
        pos_account_role = oi_account_role i, pos_quantity = qty, pos_avg_cost = avg,
        pos_currency = mp_currency p, pos_market_price = Some (f_fill_price f)\<rparr>) (\<lambda>new_position.
     Inr (upsert_position l new_position))))"

definition decrease_position :: "ledger \<Rightarrow> order_intent \<Rightarrow> fill \<Rightarrow> ledger result" where
  "decrease_position l i f =
     rbind (get_position l (oi_symbol i) (oi_market i) (oi_account_role i)) (\<lambda>existing.
     case existing of
       None \<Rightarrow> Inl (ValueError ''Cannot decrease position that does not exist.'')
     | Some ex \<Rightarrow>
         let remaining_qty = dsub (pos_quantity ex) (f_quantity f)
         in if remaining_qty < 0
            then Inl (ValueError ''Position quantity would become negative after sell fill.'')
            else if remaining_qty = 0
            then Inr (delete_position l (oi_symbol i) (oi_market i) (oi_account_role i))
            else rbind (mk_Position
              \<lparr>pos_symbol = oi_symbol i, pos_market = oi_market i,
               pos_asset_class = oi_asset_class i, pos_account_role = oi_account_role i,
               pos_quantity = remaining_qty, pos_avg_cost = pos_avg_cost ex,
               pos_currency = pos_currency ex, pos_market_price = Some (f_fill_price f)\<rparr>)
              (\<lambda>new_position. Inr (upsert_position l new_position)))"

definition update_cash ::
  "ledger \<Rightarrow> account_role \<Rightarrow> currency \<Rightarrow> decimal \<Rightarrow> instant \<Rightarrow> string \<Rightarrow> string \<Rightarrow> string \<Rightarrow> ledger result" where
  "update_cash l role cur cash_delta as_of oid cid reason =
     rbind (get_cash l cur role) (\<lambda>existing.
     let current_amount = (case existing of Some c \<Rightarrow> cs_amount c | None \<Rightarrow> 0);
         new_amount = dadd current_amount cash_delta
     in if new_amount < 0
        then Inl (ValueError ''Cash amount would become negative after fill application.'')
        else rbind (mk_CashSnapshot
               \<lparr>cs_currency = cur, cs_amount = new_amount, cs_account_role = role, cs_as_of = as_of\<rparr>)
               (\<lambda>snapshot. apply_cash_change l snapshot (Some oid) (Some cid) cash_delta reason))"

definition apply_fill ::
  "ledger \<Rightarrow> order_intent \<Rightarrow> market_price \<Rightarrow> fill \<Rightarrow> ledger result" where
  "apply_fill l i p f =
     rbind (assert_some (oi_quantity i)) (\<lambda>_.
     let proceeds = dmul (f_quantity f) (f_fill_price f)
     in rbind (case oi_side i of
          BUY \<Rightarrow> rbind (increase_position l i p f) (\<lambda>l.
                 Inr (l, dneg (dadd (dadd proceeds (amount (f_commission f))) (amount (f_tax f))),
                      ''BUY_FILL''))
        | SELL \<Rightarrow> rbind (decrease_position l i f) (\<lambda>l.
                  Inr (l, dsub (dsub proceeds (amount (f_commission f))) (amount (f_tax f)),
                       ''SELL_FILL''))) (\<lambda>(l, cash_delta, reason).
     update_cash l (oi_account_role i) (mp_currency p) cash_delta (f_filled_at f)
       (oi_order_id i) (oi_correlation_id i) reason))"

definition record_filled_order ::
  "ledger \<Rightarrow> order_intent \<Rightarrow> market_price \<Rightarrow> execution_decision \<Rightarrow> instant \<Rightarrow> ledger \<times> order_result result" where
  "record_filled_order l i p d created_at =
     (case rbind (assert_some (oi_quantity i)) (\<lambda>quantity.
           rbind (assert_some (ed_fill_price d)) (\<lambda>fill_price.
           rbind (assert_some (ed_commission d)) (\<lambda>commission.
           rbind (assert_some (ed_tax d)) (\<lambda>tax.
           rbind (assert_some (ed_slippage d)) (\<lambda>slippage.
           rbind (mk_Fill
             \<lparr>f_fill_id = oi_order_id i @ ''-fill'', f_order_id = oi_order_id i,
              f_symbol = oi_symbol i, f_market = oi_market i, f_side = oi_side i,
              f_quantity = quantity, f_fill_price = fill_price, f_commission = commission,
              f_tax = tax, f_slippage = Some slippage, f_filled_at = created_at\<rparr>) (\<lambda>fill.
           rbind (mk_OrderResult (accepted_result i FILLED created_at)) (\<lambda>result.
           Inr (fill, result)))))))) of
        Inl e \<Rightarrow> (l, Inl e)
      | Inr (fill, result) \<Rightarrow>
          transaction (\<lambda>l.
            rbind (save_order_intent l i) (\<lambda>l.
            rbind (save_order_result l result) (\<lambda>l.
            rbind (save_fill l fill) (\<lambda>l.
            rbind (apply_fill l i p fill) (\<lambda>l. Inr (l, result)))))) l)"

definition submit_order ::
  "fee_calculator \<Rightarrow> ledger \<Rightarrow> order_intent \<Rightarrow> market_price \<Rightarrow> ledger \<times> order_result result" where
  "submit_order fee l i p =
     (let now = oi_created_at i
      in if has_processed_order l (oi_order_id i)
         then (l, mk_OrderResult (rejected_result i ''duplicate order_id'' now))
         else case validate_intent_market_price_match i p of
           Some mismatch_reason \<Rightarrow> record_rejected_order l i mismatch_reason now
         | None \<Rightarrow>
             if oi_target_weight_percent i \<noteq> None
             then record_rejected_order l i
                    ''target_weight_percent requires sizing before broker execution'' now
             else if oi_quantity i = None then (l, Inl (AssertionError ''is not None''))
             else case evaluate_order fee l i p of
               Inl e \<Rightarrow> (l, Inl e)
             | Inr d \<Rightarrow>
                 if ed_status d = REJECTED
                 then record_rejected_order l i
                        (case ed_rejection_reason d of
                           Some r \<Rightarrow> if r = '''' then ''order rejected'' else r
                         | None \<Rightarrow> ''order rejected'') now
                 else if ed_status d = PENDING then record_pending_order l i now
                 else record_filled_order l i p d now)"

definition broker_get_cash :: "ledger \<Rightarrow> currency \<Rightarrow> account_role \<Rightarrow> cash_snapshot result" where
  "broker_get_cash l cur role =
     rbind (get_cash l cur role) (\<lambda>cash.
       require (LookupError ''Cash snapshot not found'') cash)"

fun seed_cash_rows :: "ledger \<Rightarrow> cash_snapshot list \<Rightarrow> ledger result" where
  "seed_cash_rows l [] = Inr l"
| "seed_cash_rows l (c # cs) =
     rbind (get_cash l (cs_currency c) (cs_account_role c)) (\<lambda>existing.
     rbind (case existing of
              None \<Rightarrow> apply_cash_change l c None None (cs_amount c) ''INITIAL_CASH''
            | Some _ \<Rightarrow> Inr l) (\<lambda>l. seed_cash_rows l cs))"

definition seed_initial_cash :: "ledger \<Rightarrow> cash_snapshot list \<Rightarrow> ledger \<times> unit result" where
  "seed_initial_cash l snapshots =
     transaction (\<lambda>l. rbind (seed_cash_rows l snapshots) (\<lambda>l. Inr (l, ()))) l"

section \<open>Writing a processed order\<close>

lemma rejected_result_valid:
  "normalised (oi_order_id i) \<Longrightarrow> reason \<noteq> '''' \<Longrightarrow>
   mk_OrderResult (rejected_result i reason t) = Inr (rejected_result i reason t)"
  by (simp add: mk_OrderResult_def rejected_result_def validate_order_result_def)

lemma accepted_result_valid:
  "normalised (oi_order_id i) \<Longrightarrow> st \<in> {PENDING, FILLED} \<Longrightarrow>
   mk_OrderResult (accepted_result i st t) = Inr (accepted_result i st t)"
  by (auto simp: mk_OrderResult_def accepted_result_def validate_order_result_def)

lemma result_ids [simp]:
  "or_order_id (rejected_result i reason t) = oi_order_id i"
  "or_order_id (accepted_result i st t) = oi_order_id i"
  "or_status (rejected_result i reason t) = REJECTED"
  "or_status (accepted_result i st t) = st"
  by (simp_all add: rejected_result_def accepted_result_def)

definition add_order :: "ledger \<Rightarrow> order_intent \<Rightarrow> order_result \<Rightarrow> ledger" where
  "add_order l i r =
     l\<lparr>order_intents := order_intents l @ [intent_to_row i],
       order_results := order_results l @ [result_to_row r]\<rparr>"

definition add_fill :: "ledger \<Rightarrow> fill \<Rightarrow> ledger" where
  "add_fill l f = l\<lparr>fills := fills l @ [fill_to_row f]\<rparr>"

lemma order_table_frames [simp]:
  "current_cash (add_order l i r) = current_cash l" "current_cash (add_fill l f) = current_cash l"
  "paper_cash_ledger (add_order l i r) = paper_cash_ledger l"
  "paper_cash_ledger (add_fill l f) = paper_cash_ledger l"
  "current_positions (add_order l i r) = current_positions l"
  "current_positions (add_fill l f) = current_positions l"
  "order_results (add_fill l f) = order_results l" "order_intents (add_fill l f) = order_intents l"
  "fills (add_order l i r) = fills l"
  by (simp_all add: add_order_def add_fill_def)

lemma fresh_intent:
  assumes "orders_wf l" and "\<not> has_processed_order l oid"
  shows "tbl_get ir_order_id oid (order_intents l) = None"
  using assms unfolding orders_wf_def tbl_get_None_iff by auto

lemma fresh_fill:
  assumes "orders_wf l" and "\<not> has_processed_order l oid"
  shows "tbl_get fr_fill_id (oid @ ''-fill'') (fills l) = None"
proof (rule ccontr)
  assume "tbl_get fr_fill_id (oid @ ''-fill'') (fills l) \<noteq> None"
  then obtain r where r: "r \<in> set (fills l)" "fr_fill_id r = oid @ ''-fill''"
    by (auto simp: tbl_get_None_iff)
  with assms(1) obtain f where "f_fill_id f = f_order_id f @ ''-fill''" "r = fill_to_row f"
    unfolding orders_wf_def by blast
  with r have "fr_order_id r = oid" by simp
  moreover from assms(1) r(1) have "references_intent l (fr_order_id r)"
    unfolding orders_wf_def by blast
  ultimately show False
    using fresh_intent [OF assms] by (simp add: references_intent_def)
qed

lemma save_order_fresh:
  assumes "orders_wf l" and "\<not> has_processed_order l (oi_order_id i)"
    and "or_order_id r = oi_order_id i"
  shows "rbind (save_order_intent l i) (\<lambda>l. save_order_result l r) = Inr (add_order l i r)"
  using fresh_intent [OF assms(1,2)] assms(2,3)
  by (simp add: save_order_intent_def save_order_result_def tbl_insert_def add_order_def
      references_intent_def has_processed_order_def tbl_get_append)

lemma has_processed_add_order [simp]:
  "has_processed_order (add_order l i r) oid \<longleftrightarrow>
     has_processed_order l oid \<or> oid = or_order_id r"
  by (auto simp: has_processed_order_def add_order_def tbl_get_append split: option.splits)

lemma references_add_order [simp]:
  "references_intent (add_order l i r) oid \<longleftrightarrow> references_intent l oid \<or> oid = oi_order_id i"
  by (auto simp: references_intent_def add_order_def tbl_get_append split: option.splits)

lemma tbl_keyed_snoc:
  "tbl_keyed key rows \<Longrightarrow> tbl_get key (key r) rows = None \<Longrightarrow> tbl_keyed key (rows @ [r])"
  by (auto simp: tbl_keyed_def tbl_get_None_iff)

lemma orders_wf_add_order:
  assumes wf: "orders_wf l" and fresh: "\<not> has_processed_order l (oi_order_id i)"
    and i: "valid_intent i" and r: "valid_result r" "or_order_id r = oi_order_id i"
  shows "orders_wf (add_order l i r)"
proof -
  have "tbl_keyed ir_order_id (order_intents l @ [intent_to_row i])"
    using wf fresh_intent [OF wf fresh] by (intro tbl_keyed_snoc) (simp_all add: orders_wf_def)
  moreover have "tbl_keyed rr_order_id (order_results l @ [result_to_row r])"
    using wf fresh r by (intro tbl_keyed_snoc) (simp_all add: orders_wf_def has_processed_order_def)
  ultimately show ?thesis
    using wf i r unfolding orders_wf_def references_add_order has_processed_add_order
    by (simp add: add_order_def) blast
qed

lemma save_fill_fresh:
  assumes "orders_wf l" and "\<not> has_processed_order l (oi_order_id i)"
    and "or_order_id r = oi_order_id i"
    and "f_fill_id f = oi_order_id i @ ''-fill''" and "f_order_id f = oi_order_id i"
  shows "save_fill (add_order l i r) f = Inr (add_fill (add_order l i r) f)"
  using fresh_fill [OF assms(1,2)] assms(4,5)
  by (simp add: save_fill_def tbl_insert_def add_fill_def)

lemma orders_wf_add_fill:
  assumes wf: "orders_wf l" and f: "valid_fill f" "f_fill_id f = f_order_id f @ ''-fill''"
    and fresh: "tbl_get fr_fill_id (f_fill_id f) (fills l) = None"
    and ref: "references_intent l (f_order_id f)"
  shows "orders_wf (add_fill l f)"
proof -
  have "tbl_keyed fr_fill_id (fills l @ [fill_to_row f])"
    using wf fresh by (intro tbl_keyed_snoc) (simp_all add: orders_wf_def)
  then show ?thesis
    using wf f ref unfolding orders_wf_def
    by (auto simp: add_fill_def references_intent_def has_processed_order_def)
qed

text \<open>Only the three order tables matter to \<open>orders_wf\<close>.\<close>

lemma orders_wf_cong:
  "order_intents l' = order_intents l \<Longrightarrow> order_results l' = order_results l \<Longrightarrow> fills l' = fills l \<Longrightarrow>
   orders_wf l' \<longleftrightarrow> orders_wf l"
  by (simp add: orders_wf_def references_intent_def has_processed_order_def)

lemma cash_frames:
  "current_cash l' = current_cash l \<Longrightarrow> cash_balance l' k = cash_balance l k"
  "paper_cash_ledger l' = paper_cash_ledger l \<Longrightarrow> cash_entries l' k = cash_entries l k"
  by (simp_all add: cash_balance_def cash_entries_def)

lemma cash_reconciled_cong:
  "current_cash l' = current_cash l \<Longrightarrow> paper_cash_ledger l' = paper_cash_ledger l \<Longrightarrow>
   cash_reconciled l' \<longleftrightarrow> cash_reconciled l"
  by (simp add: cash_reconciled_def cash_balance_def cash_entries_def)

lemma ledger_inv_add_order:
  assumes "ledger_inv l" "\<not> has_processed_order l (oi_order_id i)" "valid_intent i"
    "valid_result r" "or_order_id r = oi_order_id i"
  shows "ledger_inv (add_order l i r)"
  using assms unfolding ledger_inv_def
  by (simp add: orders_wf_add_order cash_reconciled_cong [of "add_order l i r" l])

section \<open>Positions and cash after a fill\<close>

definition holding :: "ledger \<Rightarrow> string \<times> market \<times> account_role \<Rightarrow> decimal" where
  "holding l k = (case k of (symbol, m, role) \<Rightarrow>
     (case tbl_get position_key (symbol, market_str m, account_role_str role) (current_positions l) of
        None \<Rightarrow> 0 | Some row \<Rightarrow> pr_quantity row))"

lemma pr_quantity_row [simp]: "pr_quantity (position_to_row p) = pos_quantity p"
  by (simp add: position_to_row_def)

lemma holding_upsert [simp]:
  "holding (upsert_position l p) k =
     (if k = (pos_symbol p, pos_market p, pos_account_role p) then pos_quantity p else holding l k)"
  by (cases k) (simp add: holding_def upsert_position_def tbl_get_upsert)

lemma holding_delete [simp]:
  "holding (delete_position l symbol m role) k = (if k = (symbol, m, role) then 0 else holding l k)"
  by (cases k) (simp add: holding_def delete_position_def tbl_get_delete)

lemma holding_nonneg: "positions_wf (current_positions l) \<Longrightarrow> 0 \<le> holding l k"
  by (cases k) (force simp: holding_def positions_wf_def split: option.splits dest: tbl_get_Some_mem)

lemma holding_cong: "current_positions l' = current_positions l \<Longrightarrow> holding l' = holding l"
  by (rule ext) (simp add: holding_def)

text \<open>The quantity after a purchase: exact for a new position, rounded when it adds to one.\<close>

definition bought :: "decimal \<Rightarrow> decimal \<Rightarrow> decimal" where
  "bought held q = (if held = 0 then q else dadd held q)"

lemma get_position_cases:
  assumes wf: "positions_wf (current_positions l)"
  obtains (Absent) "get_position l symbol m role = Inr None" "holding l (symbol, m, role) = 0"
    | (Held) ex where "get_position l symbol m role = Inr (Some ex)" "valid_position ex"
        "0 < pos_quantity ex" "holding l (symbol, m, role) = pos_quantity ex"
proof (rule get_position_wf [OF wf, of symbol m role])
  fix x
  assume *: "get_position l symbol m role = Inr x"
    "\<And>p. x = Some p \<Longrightarrow> valid_position p \<and> 0 < pos_quantity p \<and>
           pos_symbol p = symbol \<and> pos_market p = m \<and> pos_account_role p = role \<and>
           tbl_get position_key (symbol, market_str m, account_role_str role) (current_positions l) =
             Some (position_to_row p)"
    "x = None \<Longrightarrow>
      tbl_get position_key (symbol, market_str m, account_role_str role) (current_positions l) = None"
  show thesis
  proof (cases x)
    case None
    with * show thesis by (intro Absent) (simp_all add: holding_def)
  next
    case (Some ex)
    with * show thesis by (intro Held [of ex]) (simp_all add: holding_def)
  qed
qed

abbreviation intent_security :: "order_intent \<Rightarrow> string \<times> market \<times> account_role" where
  "intent_security i \<equiv> (oi_symbol i, oi_market i, oi_account_role i)"

lemma increase_position_ok:
  assumes wf: "positions_wf (current_positions l)" and sy: "normalised (oi_symbol i)"
    and q: "0 < f_quantity f" "0 < f_fill_price f"
  obtains pos where "increase_position l i p f = Inr (upsert_position l pos)"
    and "valid_position pos" "0 < pos_quantity pos"
    and "(pos_symbol pos, pos_market pos, pos_account_role pos) = intent_security i"
    and "pos_quantity pos = bought (holding l (intent_security i)) (f_quantity f)"
proof -
  let ?mk = "\<lambda>qty avg. \<lparr>pos_symbol = oi_symbol i, pos_market = oi_market i,
    pos_asset_class = oi_asset_class i, pos_account_role = oi_account_role i, pos_quantity = qty,
    pos_avg_cost = avg, pos_currency = mp_currency p, pos_market_price = Some (f_fill_price f)\<rparr>"
  have valid: "valid_position (?mk qty avg)" if "0 < qty" "0 \<le> avg" for qty avg
    using that sy q by (simp add: valid_position_def)
  show thesis
  proof (rule get_position_cases [OF wf, of "oi_symbol i" "oi_market i" "oi_account_role i"])
    assume get: "get_position l (oi_symbol i) (oi_market i) (oi_account_role i) = Inr None"
      and h: "holding l (intent_security i) = 0"
    show thesis
      using valid [of "f_quantity f" "f_fill_price f"] q h
      by (intro that [of "?mk (f_quantity f) (f_fill_price f)"])
        (simp_all add: bought_def increase_position_def get mk_Position_idem)
  next
    fix ex
    assume get: "get_position l (oi_symbol i) (oi_market i) (oi_account_role i) = Inr (Some ex)"
      and ex: "valid_position ex" "0 < pos_quantity ex"
      and h: "holding l (intent_security i) = pos_quantity ex"
    define total where "total = dadd (pos_quantity ex) (f_quantity f)"
    define cost where "cost =
      dadd (dmul (pos_quantity ex) (pos_avg_cost ex)) (dmul (f_quantity f) (f_fill_price f))"
    have pos: "0 < total" "0 \<le> ddiv cost total"
      using ex q unfolding total_def cost_def
      by (auto simp: valid_position_def intro!: dadd_pos ddiv_nonneg dadd_nonneg dmul_nonneg)
    have "increase_position l i p f = Inr (upsert_position l (?mk total (ddiv cost total)))"
      using valid [OF pos] pos
      by (simp add: increase_position_def get ddiv_r_def mk_Position_idem flip: total_def cost_def)
    with valid [OF pos] pos ex h show thesis
      by (intro that [of "?mk total (ddiv cost total)"]) (simp_all add: bought_def total_def)
  qed
qed

text \<open>What an update of the position table leaves alone.\<close>

definition same_but_positions :: "ledger \<Rightarrow> ledger \<Rightarrow> bool" where
  "same_but_positions l' l \<longleftrightarrow> l' = l\<lparr>current_positions := current_positions l'\<rparr>"

lemma same_but_positionsD:
  assumes "same_but_positions l' l"
  shows "current_cash l' = current_cash l" "paper_cash_ledger l' = paper_cash_ledger l"
    "order_intents l' = order_intents l" "order_results l' = order_results l" "fills l' = fills l"
proof -
  have l': "l' = l\<lparr>current_positions := current_positions l'\<rparr>"
    using assms by (simp add: same_but_positions_def)
  show "current_cash l' = current_cash l" by (subst l') simp
  show "paper_cash_ledger l' = paper_cash_ledger l" by (subst l') simp
  show "order_intents l' = order_intents l" by (subst l') simp
  show "order_results l' = order_results l" by (subst l') simp
  show "fills l' = fills l" by (subst l') simp
qed

lemma same_but_positions_ops [simp]:
  "same_but_positions (upsert_position l p) l"
  "same_but_positions (delete_position l symbol m role) l"
  by (simp_all add: same_but_positions_def upsert_position_def delete_position_def)

lemma decrease_position_ok:
  assumes wf: "positions_wf (current_positions l)" and sy: "normalised (oi_symbol i)"
    and q: "0 < f_quantity f" "0 < f_fill_price f"
    and held: "f_quantity f \<le> holding l (intent_security i)"
  obtains l' where "decrease_position l i f = Inr l'"
    and "holding l' = (holding l)(intent_security i := dsub (holding l (intent_security i)) (f_quantity f))"
    and "positions_wf (current_positions l')" and "same_but_positions l' l"
proof (rule get_position_cases [OF wf, of "oi_symbol i" "oi_market i" "oi_account_role i"])
  assume "holding l (intent_security i) = 0"
  with held q show thesis by simp
next
  fix ex
  assume get: "get_position l (oi_symbol i) (oi_market i) (oi_account_role i) = Inr (Some ex)"
    and ex: "valid_position ex" "0 < pos_quantity ex"
    and h: "holding l (intent_security i) = pos_quantity ex"
  define pos where "pos = \<lparr>pos_symbol = oi_symbol i, pos_market = oi_market i,
    pos_asset_class = oi_asset_class i, pos_account_role = oi_account_role i,
    pos_quantity = dsub (pos_quantity ex) (f_quantity f), pos_avg_cost = pos_avg_cost ex,
    pos_currency = pos_currency ex, pos_market_price = Some (f_fill_price f)\<rparr>"
  have pos: "pos_symbol pos = oi_symbol i" "pos_market pos = oi_market i"
    "pos_account_role pos = oi_account_role i"
    "pos_quantity pos = dsub (pos_quantity ex) (f_quantity f)"
    by (simp_all add: pos_def)
  show thesis
  proof (cases "pos_quantity ex = f_quantity f")
    case True
    let ?l' = "delete_position l (oi_symbol i) (oi_market i) (oi_account_role i)"
    have "decrease_position l i f = Inr ?l'"
      using True by (simp add: decrease_position_def get)
    moreover have "positions_wf (current_positions ?l')"
      using wf by (simp add: delete_position_def positions_wf_delete)
    ultimately show thesis
      using True h by (intro that [of ?l']) auto
  next
    case False
    with held h have gt: "f_quantity f < pos_quantity ex" by simp
    have valid: "valid_position pos" "0 < pos_quantity pos"
      using ex sy q gt by (simp_all add: valid_position_def pos_def)
    then have "decrease_position l i f = Inr (upsert_position l pos)"
      using gt by (simp add: decrease_position_def get mk_Position_idem flip: pos_def)
    moreover have "positions_wf (current_positions (upsert_position l pos))"
      using wf valid by (simp add: upsert_position_def positions_wf_upsert)
    ultimately show thesis
      using h pos by (intro that [of "upsert_position l pos"]) auto
  qed
qed

lemma update_cash_eq:
  assumes "cash_wf (current_cash l)"
  shows "update_cash l role cur d t oid cid reason =
    (let new_amount = dadd (cash_balance l (acct_key cur role)) d;
         snapshot = \<lparr>cs_currency = cur, cs_amount = new_amount, cs_account_role = role, cs_as_of = t\<rparr>
     in if new_amount < 0
        then Inl (ValueError ''Cash amount would become negative after fill application.'')
        else Inr (append_cash_ledger_entry (upsert_cash l snapshot) (Some oid) (Some cid) cur role d
                    new_amount reason t))"
  by (rule get_cash_wf [OF assms, of cur role])
    (simp add: update_cash_def Let_def mk_CashSnapshot_def apply_cash_change_eq [OF assms])

lemma update_cash_ok:
  assumes wf: "cash_wf (current_cash l)" and rec: "cash_reconciled l"
    and nonneg: "0 \<le> dadd (cash_balance l (acct_key cur role)) d"
  obtains l' where "update_cash l role cur d t oid cid reason = Inr l'"
    and "cash_wf (current_cash l')" "cash_reconciled l'"
    and "\<And>k. cash_balance l' k =
      (if k = acct_key cur role then dadd (cash_balance l k) d else cash_balance l k)"
    and "current_positions l' = current_positions l" "order_intents l' = order_intents l"
        "order_results l' = order_results l" "fills l' = fills l"
proof -
  let ?new = "dadd (cash_balance l (acct_key cur role)) d"
  let ?c = "\<lparr>cs_currency = cur, cs_amount = ?new, cs_account_role = role, cs_as_of = t\<rparr>"
  let ?l' = "append_cash_ledger_entry (upsert_cash l ?c) (Some oid) (Some cid) cur role d ?new reason t"
  have eq: "update_cash l role cur d t oid cid reason = Inr ?l'"
    using nonneg by (simp add: update_cash_eq [OF wf] Let_def)
  have post: "post_cash l (?c, Some oid, Some cid, d, reason) = Inr ?l'"
    by (simp add: post_cash_def apply_cash_change_eq [OF wf])
  have "cash_wf (current_cash ?l')"
    by (rule book.post_wf [OF wf _ post]) (use nonneg in simp)
  moreover have "cash_reconciled ?l'"
    using book.post_reconciled [OF wf _ post] rec by (simp add: book_reconciled_iff)
  moreover have "current_positions ?l' = current_positions l" "order_intents ?l' = order_intents l"
    "order_results ?l' = order_results l" "fills ?l' = fills l"
    by (simp_all add: append_cash_ledger_entry_def upsert_cash_def)
  ultimately show thesis
    using eq by (intro that [of ?l']) (simp_all add: cash_balance_post)
qed

section \<open>The account the broker promises\<close>

text \<open>
  The abstract account: which orders have been processed and how, the cash of every account,
  the quantity held of every security. \<open>spec_submit\<close> says what a submission does to it;
  \<open>None\<close> as its second component is a submission that raises and changes nothing.
\<close>

record paper_account =
  pa_orders :: "string \<Rightarrow> order_status option"
  pa_cash :: "currency \<times> account_role \<Rightarrow> decimal"
  pa_holding :: "string \<times> market \<times> account_role \<Rightarrow> decimal"

definition recorded :: "ledger \<Rightarrow> string \<Rightarrow> order_status option" where
  "recorded l oid =
     (case get_order_result l oid of Inr (Some r) \<Rightarrow> Some (or_status r) | _ \<Rightarrow> None)"

definition abs_ledger :: "ledger \<Rightarrow> paper_account" where
  "abs_ledger l =
     \<lparr>pa_orders = recorded l,
      pa_cash = (\<lambda>(cur, role). cash_balance l (acct_key cur role)),
      pa_holding = holding l\<rparr>"

definition limit_not_reached :: "order_intent \<Rightarrow> market_price \<Rightarrow> bool" where
  "limit_not_reached i p \<longleftrightarrow> oi_order_type i = LIMIT \<and>
     (case oi_limit_price i of None \<Rightarrow> False
      | Some limit \<Rightarrow> (case oi_side i of BUY \<Rightarrow> limit < mp_price p | SELL \<Rightarrow> mp_price p < limit))"

definition spec_record :: "paper_account \<Rightarrow> string \<Rightarrow> order_status \<Rightarrow> paper_account \<times> order_status option" where
  "spec_record s oid st = (s\<lparr>pa_orders := (pa_orders s)(oid \<mapsto> st)\<rparr>, Some st)"

definition spec_fill ::
  "paper_account \<Rightarrow> order_intent \<Rightarrow> currency \<times> account_role \<Rightarrow> decimal \<Rightarrow> decimal \<Rightarrow>
   paper_account \<times> order_status option" where
  "spec_fill s i acct cash' held' =
     spec_record (s\<lparr>pa_cash := (pa_cash s)(acct := cash'),
                    pa_holding := (pa_holding s)(intent_security i := held')\<rparr>) (oi_order_id i) FILLED"

definition spec_submit ::
  "fee_calculator \<Rightarrow> paper_account \<Rightarrow> order_intent \<Rightarrow> market_price \<Rightarrow>
   paper_account \<times> order_status option" where
  "spec_submit fee s i p =
     (let acct = (mp_currency p, oi_account_role i);
          held = pa_holding s (intent_security i); cash = pa_cash s acct;
          reject = spec_record s (oi_order_id i) REJECTED
      in if pa_orders s (oi_order_id i) \<noteq> None then (s, Some REJECTED)
         else if validate_intent_market_price_match i p \<noteq> None then reject
         else case oi_quantity i of
           None \<Rightarrow> reject
         | Some q \<Rightarrow>
             if limit_not_reached i p then spec_record s (oi_order_id i) PENDING
             else
               let (c, t) = fee i (mp_price p) (mp_currency p);
                   gross = dmul q (mp_price p);
                   cost = dadd (dadd gross (amount c)) (amount t);
                   net = dsub (dsub gross (amount c)) (amount t)
               in case oi_side i of
                 BUY \<Rightarrow>
                   if cash < cost then reject
                   else if amount c < 0 \<or> amount t < 0 then (s, None)
                   else spec_fill s i acct (dsub cash cost) (bought held q)
               | SELL \<Rightarrow>
                   if held < q then reject
                   else if amount c < 0 \<or> amount t < 0 \<or> dadd cash net < 0 then (s, None)
                   else spec_fill s i acct (dadd cash net) (dsub held q))"

subsection \<open>How the concrete operations move the abstract account\<close>

lemma recorded_add_order:
  assumes "\<not> has_processed_order l (or_order_id r)" "valid_result r"
  shows "recorded (add_order l i r) = (recorded l)(or_order_id r \<mapsto> or_status r)"
  using assms
  by (auto simp: recorded_def get_order_result_def add_order_def has_processed_order_def
      tbl_get_append fun_eq_iff split: option.splits)

lemma recorded_cong: "order_results l' = order_results l \<Longrightarrow> recorded l' = recorded l"
  by (simp add: recorded_def get_order_result_def fun_eq_iff)

lemma recorded_None_iff:
  assumes "orders_wf l"
  shows "recorded l oid = None \<longleftrightarrow> \<not> has_processed_order l oid"
proof (cases "tbl_get rr_order_id oid (order_results l)")
  case None
  then show ?thesis by (simp add: recorded_def get_order_result_def has_processed_order_def)
next
  case (Some row)
  with assms obtain r where "valid_result r" "row = result_to_row r"
    unfolding orders_wf_def by (blast dest: tbl_get_Some_mem)
  with Some show ?thesis by (simp add: recorded_def get_order_result_def has_processed_order_def)
qed

lemma abs_add_order:
  assumes "\<not> has_processed_order l (or_order_id r)" "valid_result r" "or_order_id r = oid"
  shows "(abs_ledger (add_order l i r), Some (or_status r)) = spec_record (abs_ledger l) oid (or_status r)"
  using assms
  by (simp add: abs_ledger_def spec_record_def recorded_add_order cash_balance_def
      holding_cong [of "add_order l i r" l])

lemma dadd_dneg: "representable b \<Longrightarrow> dadd a (dneg b) = dsub a b"
  by (simp add: dneg_eq) (simp add: dadd_def dsub_def)

definition status_of :: "order_result result \<Rightarrow> order_status option" where
  "status_of r = (case r of Inl _ \<Rightarrow> None | Inr x \<Rightarrow> Some (or_status x))"

abbreviation simulates :: "ledger \<times> order_result result \<Rightarrow> paper_account \<times> order_status option \<Rightarrow> bool" where
  "simulates c a \<equiv> ledger_inv (fst c) \<and> (abs_ledger (fst c), status_of (snd c)) = a"

lemma record_rejected_ok:
  assumes inv: "ledger_inv l" and i: "valid_intent i"
    and fresh: "\<not> has_processed_order l (oi_order_id i)" and reason: "reason \<noteq> ''''"
  shows "record_rejected_order l i reason t =
      (add_order l i (rejected_result i reason t), Inr (rejected_result i reason t))"
    and "simulates (record_rejected_order l i reason t)
      (spec_record (abs_ledger l) (oi_order_id i) REJECTED)"
proof -
  let ?r = "rejected_result i reason t"
  have n: "normalised (oi_order_id i)" using i by (simp add: valid_intent_def)
  have mk: "mk_OrderResult ?r = Inr ?r" by (rule rejected_result_valid [OF n reason])
  then have v: "valid_result ?r" by (rule mk_OrderResult_valid)
  have "rbind (save_order_intent l i) (\<lambda>l. save_order_result l ?r) = Inr (add_order l i ?r)"
    using inv fresh by (intro save_order_fresh) (simp_all add: ledger_inv_def)
  then obtain m where "save_order_intent l i = Inr m" "save_order_result m ?r = Inr (add_order l i ?r)"
    by (auto simp: rbind_Inr_iff)
  then show 1: "record_rejected_order l i reason t = (add_order l i ?r, Inr ?r)"
    using fresh by (simp add: record_rejected_order_def mk transaction_def)
  show "simulates (record_rejected_order l i reason t)
      (spec_record (abs_ledger l) (oi_order_id i) REJECTED)"
    using ledger_inv_add_order [OF inv fresh i v] abs_add_order [of l ?r "oi_order_id i" i] fresh v
    by (simp add: 1 status_of_def)
qed

lemma record_pending_ok:
  assumes inv: "ledger_inv l" and i: "valid_intent i"
    and fresh: "\<not> has_processed_order l (oi_order_id i)"
  shows "record_pending_order l i t =
      (add_order l i (accepted_result i PENDING t), Inr (accepted_result i PENDING t))"
    and "simulates (record_pending_order l i t)
      (spec_record (abs_ledger l) (oi_order_id i) PENDING)"
proof -
  let ?r = "accepted_result i PENDING t"
  have n: "normalised (oi_order_id i)" using i by (simp add: valid_intent_def)
  have mk: "mk_OrderResult ?r = Inr ?r" by (rule accepted_result_valid [OF n]) simp
  then have v: "valid_result ?r" by (rule mk_OrderResult_valid)
  have "rbind (save_order_intent l i) (\<lambda>l. save_order_result l ?r) = Inr (add_order l i ?r)"
    using inv fresh by (intro save_order_fresh) (simp_all add: ledger_inv_def)
  then obtain m where "save_order_intent l i = Inr m" "save_order_result m ?r = Inr (add_order l i ?r)"
    by (auto simp: rbind_Inr_iff)
  then show 1: "record_pending_order l i t = (add_order l i ?r, Inr ?r)"
    by (simp add: record_pending_order_def mk transaction_def)
  show "simulates (record_pending_order l i t)
      (spec_record (abs_ledger l) (oi_order_id i) PENDING)"
    using ledger_inv_add_order [OF inv fresh i v] abs_add_order [of l ?r "oi_order_id i" i] fresh v
    by (simp add: 1 status_of_def)
qed

subsection \<open>Applying a fill\<close>

abbreviation fill_gross :: "fill \<Rightarrow> decimal" where
  "fill_gross f \<equiv> dmul (f_quantity f) (f_fill_price f)"

definition fill_cost :: "fill \<Rightarrow> decimal" where
  "fill_cost f = dadd (dadd (fill_gross f) (amount (f_commission f))) (amount (f_tax f))"

definition fill_net :: "fill \<Rightarrow> decimal" where
  "fill_net f = dsub (dsub (fill_gross f) (amount (f_commission f))) (amount (f_tax f))"

definition holds_cash_positions :: "ledger \<Rightarrow> bool" where
  "holds_cash_positions l \<longleftrightarrow>
     cash_wf (current_cash l) \<and> cash_reconciled l \<and> positions_wf (current_positions l)"

lemma apply_fill_buy:
  assumes wf: "holds_cash_positions l" and i: "valid_intent i" "oi_side i = BUY" "oi_quantity i \<noteq> None"
    and f: "valid_fill f"
    and cash: "fill_cost f \<le> cash_balance l (acct_key (mp_currency p) (oi_account_role i))"
  obtains l' where "apply_fill l i p f = Inr l'" "holds_cash_positions l'"
    and "order_intents l' = order_intents l" "order_results l' = order_results l" "fills l' = fills l"
    and "\<And>k. cash_balance l' k = (if k = acct_key (mp_currency p) (oi_account_role i)
            then dsub (cash_balance l k) (fill_cost f) else cash_balance l k)"
    and "holding l' = (holding l)(intent_security i :=
            bought (holding l (intent_security i)) (f_quantity f))"
proof -
  have pwf: "positions_wf (current_positions l)" using wf by (simp add: holds_cash_positions_def)
  obtain pos where inc: "increase_position l i p f = Inr (upsert_position l pos)"
    and pos: "valid_position pos" "0 < pos_quantity pos"
      "(pos_symbol pos, pos_market pos, pos_account_role pos) = intent_security i"
      "pos_quantity pos = bought (holding l (intent_security i)) (f_quantity f)"
    by (rule increase_position_ok [OF pwf, of i f p]) (use i f in \<open>auto simp: valid_intent_def valid_fill_def\<close>)
  let ?m = "upsert_position l pos"
  note frame = same_but_positionsD [of ?m l, simplified]
  have bal: "cash_balance ?m k = cash_balance l k" for k using frame by (simp add: cash_balance_def)
  have rep: "representable (fill_cost f)" by (simp add: fill_cost_def)
  have mwf: "cash_wf (current_cash ?m)" "cash_reconciled ?m"
    using wf frame cash_reconciled_cong [of ?m l] by (simp_all add: holds_cash_positions_def)
  obtain l' where upd: "update_cash ?m (oi_account_role i) (mp_currency p) (dneg (fill_cost f))
        (f_filled_at f) (oi_order_id i) (oi_correlation_id i) ''BUY_FILL'' = Inr l'"
    and l': "cash_wf (current_cash l')" "cash_reconciled l'"
      "current_positions l' = current_positions ?m" "order_intents l' = order_intents ?m"
      "order_results l' = order_results ?m" "fills l' = fills ?m"
    and bal': "\<And>k. cash_balance l' k = (if k = acct_key (mp_currency p) (oi_account_role i)
        then dadd (cash_balance ?m k) (dneg (fill_cost f)) else cash_balance ?m k)"
    by (rule update_cash_ok [OF mwf, of "mp_currency p" "oi_account_role i" "dneg (fill_cost f)"])
      (use cash rep in \<open>auto simp: bal dadd_dneg\<close>)
  have "apply_fill l i p f = Inr l'"
    using i inc upd by (auto simp: apply_fill_def fill_cost_def)
  moreover have "positions_wf (current_positions l')"
    using pwf pos by (simp add: l' upsert_position_def positions_wf_upsert)
  moreover have "holding l' = (holding l)(intent_security i :=
      bought (holding l (intent_security i)) (f_quantity f))"
    using holding_cong [OF l'(3)] pos by (auto simp: fun_eq_iff)
  ultimately show thesis
    using l' frame rep by (intro that [of l']) (simp_all add: holds_cash_positions_def bal' bal dadd_dneg)
qed

lemma apply_fill_sell:
  assumes wf: "holds_cash_positions l" and i: "valid_intent i" "oi_side i = SELL" "oi_quantity i \<noteq> None"
    and f: "valid_fill f" and held: "f_quantity f \<le> holding l (intent_security i)"
    and cash: "0 \<le> dadd (cash_balance l (acct_key (mp_currency p) (oi_account_role i))) (fill_net f)"
  obtains l' where "apply_fill l i p f = Inr l'" "holds_cash_positions l'"
    and "order_intents l' = order_intents l" "order_results l' = order_results l" "fills l' = fills l"
    and "\<And>k. cash_balance l' k = (if k = acct_key (mp_currency p) (oi_account_role i)
            then dadd (cash_balance l k) (fill_net f) else cash_balance l k)"
    and "holding l' = (holding l)(intent_security i :=
            dsub (holding l (intent_security i)) (f_quantity f))"
proof -
  have pwf: "positions_wf (current_positions l)" using wf by (simp add: holds_cash_positions_def)
  obtain m where dec: "decrease_position l i f = Inr m"
    and m: "holding m = (holding l)(intent_security i := dsub (holding l (intent_security i)) (f_quantity f))"
      "positions_wf (current_positions m)" "same_but_positions m l"
    by (rule decrease_position_ok [OF pwf, of i f])
      (use i f held in \<open>auto simp: valid_intent_def valid_fill_def\<close>)
  note frame = same_but_positionsD [OF m(3)]
  have bal: "cash_balance m k = cash_balance l k" for k using frame by (simp add: cash_balance_def)
  have mwf: "cash_wf (current_cash m)" "cash_reconciled m"
    using wf frame cash_reconciled_cong [of m l] by (simp_all add: holds_cash_positions_def)
  obtain l' where upd: "update_cash m (oi_account_role i) (mp_currency p) (fill_net f)
        (f_filled_at f) (oi_order_id i) (oi_correlation_id i) ''SELL_FILL'' = Inr l'"
    and l': "cash_wf (current_cash l')" "cash_reconciled l'"
      "current_positions l' = current_positions m" "order_intents l' = order_intents m"
      "order_results l' = order_results m" "fills l' = fills m"
    and bal': "\<And>k. cash_balance l' k = (if k = acct_key (mp_currency p) (oi_account_role i)
        then dadd (cash_balance m k) (fill_net f) else cash_balance m k)"
    by (rule update_cash_ok [OF mwf, of "mp_currency p" "oi_account_role i" "fill_net f"])
      (use cash in \<open>auto simp: bal\<close>)
  have "apply_fill l i p f = Inr l'"
    using i dec upd by (auto simp: apply_fill_def fill_net_def)
  moreover have "holding l' = (holding l)(intent_security i :=
      dsub (holding l (intent_security i)) (f_quantity f))"
    using holding_cong [OF l'(3)] m by simp
  ultimately show thesis
    using l' frame m by (intro that [of l']) (simp_all add: holds_cash_positions_def bal' bal)
qed

lemma apply_fill_sell_overdraft:
  assumes wf: "holds_cash_positions l" and i: "valid_intent i" "oi_side i = SELL" "oi_quantity i \<noteq> None"
    and f: "valid_fill f" and held: "f_quantity f \<le> holding l (intent_security i)"
    and cash: "dadd (cash_balance l (acct_key (mp_currency p) (oi_account_role i))) (fill_net f) < 0"
  shows "\<exists>e. apply_fill l i p f = Inl e"
proof -
  have pwf: "positions_wf (current_positions l)" using wf by (simp add: holds_cash_positions_def)
  obtain m where dec: "decrease_position l i f = Inr m" and m: "same_but_positions m l"
    by (rule decrease_position_ok [OF pwf, of i f])
      (use i f held in \<open>auto simp: valid_intent_def valid_fill_def\<close>)
  note frame = same_but_positionsD [OF m]
  have mwf: "cash_wf (current_cash m)" using wf frame by (simp add: holds_cash_positions_def)
  have bal: "cash_balance m k = cash_balance l k" for k using frame by (simp add: cash_balance_def)
  obtain q where q: "oi_quantity i = Some q" using i by auto
  have "\<exists>e. update_cash m (oi_account_role i) (mp_currency p) (fill_net f)
        (f_filled_at f) (oi_order_id i) (oi_correlation_id i) ''SELL_FILL'' = Inl e"
    using cash by (simp add: update_cash_eq [OF mwf] bal)
  then show ?thesis
    using i dec q by (simp add: apply_fill_def fill_net_def)
qed

subsection \<open>Recording a fill\<close>

definition fill_of :: "order_intent \<Rightarrow> decimal \<Rightarrow> decimal \<Rightarrow> money \<Rightarrow> money \<Rightarrow> money \<Rightarrow> instant \<Rightarrow> fill" where
  "fill_of i q price c t slippage now =
     \<lparr>f_fill_id = oi_order_id i @ ''-fill'', f_order_id = oi_order_id i, f_symbol = oi_symbol i,
      f_market = oi_market i, f_side = oi_side i, f_quantity = q, f_fill_price = price,
      f_commission = c, f_tax = t, f_slippage = Some slippage, f_filled_at = now\<rparr>"

lemma fill_of_fields [simp]:
  "f_fill_id (fill_of i q price c t s now) = oi_order_id i @ ''-fill''"
  "f_order_id (fill_of i q price c t s now) = oi_order_id i"
  "f_quantity (fill_of i q price c t s now) = q" "f_fill_price (fill_of i q price c t s now) = price"
  "f_commission (fill_of i q price c t s now) = c" "f_tax (fill_of i q price c t s now) = t"
  "f_symbol (fill_of i q price c t s now) = oi_symbol i"
  by (simp_all add: fill_of_def)

lemma fill_of_normalised:
  assumes "valid_intent i"
  shows "normalised (oi_order_id i)" "normalised (oi_symbol i)"
    "normalised (oi_order_id i @ ''-fill'')"
  using assms by (auto simp: valid_intent_def is_space_def intro!: normalised_append)

lemma fill_of_valid:
  assumes "valid_intent i" "0 < q" "0 < price" "0 \<le> amount c" "0 \<le> amount t"
  shows "valid_fill (fill_of i q price c t s now)"
  using fill_of_normalised [OF assms(1)] assms by (simp add: valid_fill_def)

lemma record_filled_bad_fee:
  assumes "valid_intent i" "oi_quantity i = Some q" "0 < q" "0 < price"
    and "amount c < 0 \<or> amount t < 0"
  shows "\<exists>e. record_filled_order l i p (decision_filled price c t s) now = (l, Inl e)"
  using fill_of_normalised [OF assms(1)] assms
  by (auto simp: record_filled_order_def decision_filled_def mk_Fill_def)

lemma record_filled_eq:
  assumes inv: "ledger_inv l" and i: "valid_intent i" "oi_quantity i = Some q"
    and fresh: "\<not> has_processed_order l (oi_order_id i)"
    and f: "valid_fill (fill_of i q price c t s now)"
  shows "record_filled_order l i p (decision_filled price c t s) now =
    (let r = accepted_result i FILLED now; f = fill_of i q price c t s now
     in case apply_fill (add_fill (add_order l i r) f) i p f of
          Inl e \<Rightarrow> (l, Inl e) | Inr l' \<Rightarrow> (l', Inr r))"
proof -
  let ?r = "accepted_result i FILLED now" and ?f = "fill_of i q price c t s now"
  have wf: "orders_wf l" using inv by (simp add: ledger_inv_def)
  have mk: "mk_OrderResult ?r = Inr ?r"
    using i by (intro accepted_result_valid) (simp_all add: valid_intent_def)
  obtain m where m: "save_order_intent l i = Inr m" "save_order_result m ?r = Inr (add_order l i ?r)"
    using save_order_fresh [OF wf fresh, of ?r] by (auto simp: rbind_Inr_iff accepted_result_def)
  have sf: "save_fill (add_order l i ?r) ?f = Inr (add_fill (add_order l i ?r) ?f)"
    by (rule save_fill_fresh [OF wf fresh]) (simp_all add: accepted_result_def)
  show ?thesis
    using i m sf mk_Fill_idem [OF f] mk
    by (simp add: record_filled_order_def decision_filled_def transaction_def Let_def
        split: sum.splits flip: fill_of_def)
qed

lemma filled_ledger_ok:
  fixes now :: instant
  assumes inv: "ledger_inv l" and i: "valid_intent i"
    and fresh: "\<not> has_processed_order l (oi_order_id i)"
    and f: "valid_fill f" "f_fill_id f = oi_order_id i @ ''-fill''" "f_order_id f = oi_order_id i"
  defines "r \<equiv> accepted_result i FILLED now"
  defines "m \<equiv> add_fill (add_order l i r) f"
  shows "holds_cash_positions m" and "orders_wf m"
    and "cash_balance m = cash_balance l" and "holding m = holding l"
    and "recorded m = (recorded l)(oi_order_id i \<mapsto> FILLED)"
proof -
  have wf: "orders_wf l" using inv by (simp add: ledger_inv_def)
  have rid: "or_order_id r = oi_order_id i" "or_status r = FILLED"
    by (simp_all add: r_def accepted_result_def)
  have "mk_OrderResult r = Inr r"
    unfolding r_def using i by (intro accepted_result_valid) (simp_all add: valid_intent_def)
  then have v: "valid_result r" by (rule mk_OrderResult_valid)
  show "holds_cash_positions m"
    using inv cash_reconciled_cong [of m l]
    by (simp add: holds_cash_positions_def ledger_inv_def m_def)
  show "orders_wf m" unfolding m_def
    using orders_wf_add_order [OF wf fresh i v rid(1)] fresh_fill [OF wf fresh] f
    by (intro orders_wf_add_fill) simp_all
  show "cash_balance m = cash_balance l" by (rule ext) (simp add: cash_balance_def m_def)
  show "holding m = holding l" by (rule holding_cong) (simp add: m_def)
  have "recorded m = recorded (add_order l i r)" by (rule recorded_cong) (simp add: m_def)
  then show "recorded m = (recorded l)(oi_order_id i \<mapsto> FILLED)"
    using recorded_add_order [of l r i] fresh v rid by simp
qed

subsection \<open>The refinement\<close>

lemma evaluate_order_eq:
  assumes inv: "ledger_inv l" and i: "valid_intent i" and q: "oi_quantity i = Some q"
    and fees: "fee i (mp_price p) (mp_currency p) = (c, t)"
  shows "evaluate_order fee l i p = Inr
    (let filled = decision_filled (mp_price p) c t (money_zero (mp_currency p));
         reject = (\<lambda>why. decision_without_fill REJECTED False (Some why))
     in if limit_not_reached i p then decision_without_fill PENDING True None
        else case oi_side i of
          SELL \<Rightarrow> if holding l (intent_security i) < q then reject ''insufficient position quantity''
                  else filled
        | BUY \<Rightarrow> if cash_balance l (acct_key (mp_currency p) (oi_account_role i))
                    < dadd (dadd (dmul q (mp_price p)) (amount c)) (amount t)
                 then reject ''insufficient cash'' else filled)"
proof -
  obtain x where cash: "get_cash l (mp_currency p) (oi_account_role i) = Inr x"
    "(case x of None \<Rightarrow> 0 | Some e \<Rightarrow> cs_amount e) =
       cash_balance l (acct_key (mp_currency p) (oi_account_role i))"
    using inv by (auto simp: ledger_inv_def elim: get_cash_wf [of l "mp_currency p" "oi_account_role i"])
  have pwf: "positions_wf (current_positions l)" using inv by (simp add: ledger_inv_def)
  obtain y where pos: "get_position l (oi_symbol i) (oi_market i) (oi_account_role i) = Inr y"
    "(case y of Some ps \<Rightarrow> pos_quantity ps | None \<Rightarrow> 0) = holding l (intent_security i)"
    by (rule get_position_cases [OF pwf, of "oi_symbol i" "oi_market i" "oi_account_role i"]) auto
  have limit: "(if oi_order_type i = LIMIT
            then rbind (assert_some (oi_limit_price i)) (\<lambda>limit.
                 Inr (oi_side i = BUY \<and> mp_price p > limit \<or> oi_side i = SELL \<and> mp_price p < limit))
            else Inr False) = Inr (limit_not_reached i p)"
    using i by (cases "oi_order_type i"; cases "oi_limit_price i"; cases "oi_side i")
      (simp_all add: limit_not_reached_def valid_intent_def)
  show ?thesis
    unfolding evaluate_order_def q require_simps rbind_simps limit
    using cash pos fees by (cases "oi_side i") (simp_all add: Let_def)
qed

lemma decision_fields [simp]:
  "ed_status (decision_without_fill st a r) = st"
  "ed_rejection_reason (decision_without_fill st a r) = r"
  "ed_status (decision_filled price c t s) = FILLED"
  by (simp_all add: decision_without_fill_def decision_filled_def)

lemma record_filled_finish:
  fixes now :: instant and s :: money and p :: market_price
  assumes inv: "ledger_inv l" and i: "valid_intent i" and q: "oi_quantity i = Some q"
    and fresh: "\<not> has_processed_order l (oi_order_id i)"
    and f: "valid_fill (fill_of i q (mp_price p) c t s now)"
  defines "m \<equiv> add_fill (add_order l i (accepted_result i FILLED now)) (fill_of i q (mp_price p) c t s now)"
  assumes l': "apply_fill m i p (fill_of i q (mp_price p) c t s now) = Inr l'" "holds_cash_positions l'"
      "order_intents l' = order_intents m" "order_results l' = order_results m" "fills l' = fills m"
    and cash': "\<And>k. cash_balance l' k =
        (if k = acct_key (mp_currency p) (oi_account_role i) then cash' else cash_balance m k)"
    and held': "holding l' = (holding m)(intent_security i := held')"
  shows "simulates (record_filled_order l i p (decision_filled (mp_price p) c t s) now)
    (spec_fill (abs_ledger l) i (mp_currency p, oi_account_role i) cash' held')"
proof -
  note m = filled_ledger_ok [OF inv i fresh f, simplified, of now, folded m_def]
  have "orders_wf l'" using orders_wf_cong [OF l'(3-5)] m by simp
  then have inv': "ledger_inv l'" using l'(2) by (simp add: ledger_inv_def holds_cash_positions_def)
  have rec: "recorded l' = (recorded l)(oi_order_id i \<mapsto> FILLED)"
    using recorded_cong [OF l'(4)] m by simp
  have "abs_ledger l' = fst (spec_fill (abs_ledger l) i (mp_currency p, oi_account_role i) cash' held')"
    using cash' held' m rec
    by (auto simp: abs_ledger_def spec_fill_def spec_record_def fun_eq_iff)
  moreover have "record_filled_order l i p (decision_filled (mp_price p) c t s) now =
      (l', Inr (accepted_result i FILLED now))"
    unfolding record_filled_eq [OF inv i q fresh f] Let_def m_def [symmetric] l'(1) by simp
  moreover have "or_status (accepted_result i FILLED now) = FILLED" by (simp add: accepted_result_def)
  ultimately show ?thesis
    using inv' by (simp add: spec_fill_def spec_record_def status_of_def)
qed

abbreviation intent_acct :: "order_intent \<Rightarrow> market_price \<Rightarrow> currency \<times> account_role" where
  "intent_acct i p \<equiv> (mp_currency p, oi_account_role i)"

lemma abs_at_filled:
  fixes now :: instant
  assumes "ledger_inv l" "valid_intent i" "\<not> has_processed_order l (oi_order_id i)"
    and "valid_fill f" "f_fill_id f = oi_order_id i @ ''-fill''" "f_order_id f = oi_order_id i"
  shows "cash_balance (add_fill (add_order l i (accepted_result i FILLED now)) f)
      (acct_key cur role) = pa_cash (abs_ledger l) (cur, role)"
    and "holding (add_fill (add_order l i (accepted_result i FILLED now)) f) k =
      pa_holding (abs_ledger l) k"
  using filled_ledger_ok(3,4) [OF assms, of now] by (simp_all add: abs_ledger_def)

lemma record_filled_buy:
  assumes inv: "ledger_inv l" and i: "valid_intent i" and q: "oi_quantity i = Some q"
    and fresh: "\<not> has_processed_order l (oi_order_id i)"
    and f: "valid_fill f" "f = fill_of i q (mp_price p) c t s now"
    and side: "oi_side i = BUY"
    and cash: "fill_cost f \<le> pa_cash (abs_ledger l) (intent_acct i p)"
  shows "simulates (record_filled_order l i p (decision_filled (mp_price p) c t s) now)
    (spec_fill (abs_ledger l) i (intent_acct i p)
      (dsub (pa_cash (abs_ledger l) (intent_acct i p)) (fill_cost f))
      (bought (pa_holding (abs_ledger l) (intent_security i)) q))"
proof -
  let ?m = "add_fill (add_order l i (accepted_result i FILLED now)) f"
  have ids: "f_fill_id f = oi_order_id i @ ''-fill''" "f_order_id f = oi_order_id i" "f_quantity f = q"
    by (simp_all add: f(2))
  note m = filled_ledger_ok [OF inv i fresh f(1) ids(1,2), of now]
  note at = abs_at_filled [OF inv i fresh f(1) ids(1,2), of now]
  have qn: "oi_quantity i \<noteq> None" using q by simp
  have cm: "fill_cost f \<le> cash_balance ?m (acct_key (mp_currency p) (oi_account_role i))"
    using cash at by simp
  obtain l' where l': "apply_fill ?m i p f = Inr l'" "holds_cash_positions l'"
      "order_intents l' = order_intents ?m" "order_results l' = order_results ?m" "fills l' = fills ?m"
    and c': "\<And>k. cash_balance l' k = (if k = acct_key (mp_currency p) (oi_account_role i)
            then dsub (cash_balance ?m k) (fill_cost f) else cash_balance ?m k)"
    and h': "holding l' = (holding ?m)(intent_security i :=
            bought (holding ?m (intent_security i)) (f_quantity f))"
    by (rule apply_fill_buy [OF m(1) i side qn f(1) cm]) (rule that; assumption)
  have c'': "cash_balance l' k = (if k = acct_key (mp_currency p) (oi_account_role i)
      then dsub (pa_cash (abs_ledger l) (intent_acct i p)) (fill_cost f) else cash_balance ?m k)" for k
    using c' [of k] at by simp
  show ?thesis
    using record_filled_finish [OF inv i q fresh f(1) [unfolded f(2)] l' [unfolded f(2)]
        c'' [unfolded f(2)] h' [unfolded f(2)]] at ids
    unfolding f(2) by simp
qed

lemma record_filled_sell:
  assumes inv: "ledger_inv l" and i: "valid_intent i" and q: "oi_quantity i = Some q"
    and fresh: "\<not> has_processed_order l (oi_order_id i)"
    and f: "valid_fill f" "f = fill_of i q (mp_price p) c t s now"
    and side: "oi_side i = SELL" and held: "q \<le> pa_holding (abs_ledger l) (intent_security i)"
  defines "cash' \<equiv> dadd (pa_cash (abs_ledger l) (intent_acct i p)) (fill_net f)"
  shows "0 \<le> cash' \<Longrightarrow>
      simulates (record_filled_order l i p (decision_filled (mp_price p) c t s) now)
        (spec_fill (abs_ledger l) i (intent_acct i p) cash'
          (dsub (pa_holding (abs_ledger l) (intent_security i)) q))"
    and "cash' < 0 \<Longrightarrow>
      \<exists>e. record_filled_order l i p (decision_filled (mp_price p) c t s) now = (l, Inl e)"
proof -
  let ?m = "add_fill (add_order l i (accepted_result i FILLED now)) f"
  have ids: "f_fill_id f = oi_order_id i @ ''-fill''" "f_order_id f = oi_order_id i" "f_quantity f = q"
    by (simp_all add: f(2))
  note m = filled_ledger_ok [OF inv i fresh f(1) ids(1,2), of now]
  note at = abs_at_filled [OF inv i fresh f(1) ids(1,2), of now]
  have qn: "oi_quantity i \<noteq> None" using q by simp
  have hm: "f_quantity f \<le> holding ?m (intent_security i)" using held at ids by simp
  show "simulates (record_filled_order l i p (decision_filled (mp_price p) c t s) now)
        (spec_fill (abs_ledger l) i (intent_acct i p) cash'
          (dsub (pa_holding (abs_ledger l) (intent_security i)) q))" if "0 \<le> cash'"
  proof -
    have cm: "0 \<le> dadd (cash_balance ?m (acct_key (mp_currency p) (oi_account_role i))) (fill_net f)"
      using that at by (simp add: cash'_def)
    obtain l' where l': "apply_fill ?m i p f = Inr l'" "holds_cash_positions l'"
        "order_intents l' = order_intents ?m" "order_results l' = order_results ?m" "fills l' = fills ?m"
      and c': "\<And>k. cash_balance l' k = (if k = acct_key (mp_currency p) (oi_account_role i)
              then dadd (cash_balance ?m k) (fill_net f) else cash_balance ?m k)"
      and h': "holding l' = (holding ?m)(intent_security i :=
              dsub (holding ?m (intent_security i)) (f_quantity f))"
      by (rule apply_fill_sell [OF m(1) i side qn f(1) hm cm]) (rule that; assumption)
    have c'': "cash_balance l' k = (if k = acct_key (mp_currency p) (oi_account_role i)
        then cash' else cash_balance ?m k)" for k
      using c' [of k] at by (simp add: cash'_def)
    show ?thesis
      using record_filled_finish [OF inv i q fresh f(1) [unfolded f(2)] l' [unfolded f(2)]
          c'' [unfolded f(2)] h' [unfolded f(2)]] at ids
      unfolding f(2) by simp
  qed
  show "\<exists>e. record_filled_order l i p (decision_filled (mp_price p) c t s) now = (l, Inl e)"
    if "cash' < 0"
    using apply_fill_sell_overdraft [OF m(1) i side qn f(1) hm, of p] that at
      record_filled_eq [OF inv i q fresh f(1) [unfolded f(2)], of p]
    unfolding cash'_def f(2) by (auto simp: Let_def)
qed

lemma validate_match_reason: "validate_intent_market_price_match i p = Some why \<Longrightarrow> why \<noteq> ''''"
  by (auto simp: validate_intent_market_price_match_def split: if_splits)

text \<open>A fresh order that passes the adapter's checks and carries a quantity.\<close>

lemma submit_sized_simulates:
  assumes inv: "ledger_inv l" and i: "valid_intent i" and q: "oi_quantity i = Some q"
    and price: "0 < mp_price p" and fresh: "\<not> has_processed_order l (oi_order_id i)"
    and match: "validate_intent_market_price_match i p = None"
  shows "simulates (submit_order fee l i p) (spec_submit fee (abs_ledger l) i p)"
proof -
  obtain c t where fees: "fee i (mp_price p) (mp_currency p) = (c, t)" by fastforce
  have tw: "oi_target_weight_percent i = None" and q0: "0 < q"
    using i q by (simp_all add: valid_intent_def)
  have fresh': "pa_orders (abs_ledger l) (oi_order_id i) = None"
    using inv fresh by (simp add: abs_ledger_def recorded_None_iff ledger_inv_def)
  let ?slip = "money_zero (mp_currency p)"
  let ?f = "fill_of i q (mp_price p) c t ?slip (oi_created_at i)"
  let ?run = "record_filled_order l i p (decision_filled (mp_price p) c t ?slip) (oi_created_at i)"
  have costs: "fill_cost ?f = dadd (dadd (dmul q (mp_price p)) (amount c)) (amount t)"
    "fill_net ?f = dsub (dsub (dmul q (mp_price p)) (amount c)) (amount t)"
    by (simp_all add: fill_cost_def fill_net_def)
  have obs: "cash_balance l (acct_key (mp_currency p) (oi_account_role i)) =
      pa_cash (abs_ledger l) (intent_acct i p)"
    "holding l (intent_security i) = pa_holding (abs_ledger l) (intent_security i)"
    by (simp_all add: abs_ledger_def)
  note ev = evaluate_order_eq [where fee = fee, OF inv i q fees, unfolded obs]
  note reject = record_rejected_ok(2) [OF inv i fresh] and pend = record_pending_ok(2) [OF inv i fresh]
  note unfold = submit_order_def spec_submit_def Let_def
  show ?thesis
  proof (cases "limit_not_reached i p")
    case True
    then show ?thesis using fresh fresh' match tw q ev pend by (simp add: unfold)
  next
    case False
    note here = fresh fresh' match tw q ev fees False
    have bad: "simulates ?run (abs_ledger l, None)" if "amount c < 0 \<or> amount t < 0"
      using record_filled_bad_fee [OF i q q0 price that, of l p ?slip "oi_created_at i"] inv
      by (auto simp: status_of_def)
    have f: "valid_fill ?f" if "\<not> amount c < 0" "\<not> amount t < 0"
      using that by (intro fill_of_valid [OF i q0 price]) simp_all
    note buy = record_filled_buy [OF inv i q fresh f refl, unfolded costs]
      and sell = record_filled_sell [OF inv i q fresh f refl, unfolded costs]
    show ?thesis
    proof (cases "oi_side i")
      case BUY
      show ?thesis
        using here BUY reject bad buy [OF _ _ BUY]
        by (simp add: unfold not_less split del: if_split) (simp split: if_split)
    next
      case SELL
      have over: "simulates ?run (abs_ledger l, None)"
        if "\<not> amount c < 0" "\<not> amount t < 0" "q \<le> pa_holding (abs_ledger l) (intent_security i)"
          "dadd (pa_cash (abs_ledger l) (intent_acct i p))
            (dsub (dsub (dmul q (mp_price p)) (amount c)) (amount t)) < 0"
        using sell(2) [OF that(1,2) SELL that(3,4)] inv by (auto simp: status_of_def)
      let ?held = "pa_holding (abs_ledger l) (intent_security i)"
      let ?cash = "dadd (pa_cash (abs_ledger l) (intent_acct i p))
        (dsub (dsub (dmul q (mp_price p)) (amount c)) (amount t))"
      consider "?held < q" | "\<not> ?held < q" "amount c < 0 \<or> amount t < 0"
        | "\<not> ?held < q" "\<not> amount c < 0" "\<not> amount t < 0" "?cash < 0"
        | "\<not> ?held < q" "\<not> amount c < 0" "\<not> amount t < 0" "\<not> ?cash < 0" by blast
      then show ?thesis
      proof cases
        case 1
        then show ?thesis using here SELL reject by (simp add: unfold)
      next
        case 2
        then show ?thesis using here SELL bad by (auto simp: unfold)
      next
        case 3
        then show ?thesis using here SELL over by (simp add: unfold)
      next
        case 4
        then show ?thesis using here SELL sell(1) [OF _ _ SELL] by (simp add: unfold)
      qed
    qed
  qed
qed

lemma submit_simulates:
  assumes inv: "ledger_inv l" and i: "valid_intent i" and price: "0 < mp_price p"
  shows "simulates (submit_order fee l i p) (spec_submit fee (abs_ledger l) i p)"
proof -
  have dup: "pa_orders (abs_ledger l) (oi_order_id i) = None \<longleftrightarrow>
      \<not> has_processed_order l (oi_order_id i)"
    using inv by (simp add: abs_ledger_def recorded_None_iff ledger_inv_def)
  note reject = record_rejected_ok(2) [OF inv i]
  show ?thesis
  proof (cases "has_processed_order l (oi_order_id i)")
    case True
    have "mk_OrderResult (rejected_result i ''duplicate order_id'' (oi_created_at i)) =
        Inr (rejected_result i ''duplicate order_id'' (oi_created_at i))"
      using i by (intro rejected_result_valid) (simp_all add: valid_intent_def)
    then show ?thesis
      using True inv dup by (simp add: submit_order_def spec_submit_def status_of_def
          rejected_result_def Let_def)
  next
    case fresh: False
    show ?thesis
    proof (cases "validate_intent_market_price_match i p")
      case (Some why)
      then show ?thesis
        using fresh dup reject [OF fresh, of why] validate_match_reason [OF Some]
        by (simp add: submit_order_def spec_submit_def Let_def)
    next
      case None
      show ?thesis
      proof (cases "oi_quantity i")
        case (Some q)
        then show ?thesis by (rule submit_sized_simulates [OF inv i _ price fresh None])
      next
        case no_q: None
        then have "oi_target_weight_percent i \<noteq> None" using i by (simp add: valid_intent_def)
        then show ?thesis
          using fresh dup no_q None reject [OF fresh]
          by (auto simp: submit_order_def spec_submit_def Let_def)
      qed
    qed
  qed
qed

section \<open>Seeding\<close>

lemma ledger_inv_post:
  assumes inv: "ledger_inv l" and c: "0 \<le> cs_amount c"
    and post: "apply_cash_change l c oid cid d reason = Inr l'"
  shows "ledger_inv l'"
proof -
  have wf: "cash_wf (current_cash l)" "cash_reconciled l" using inv by (simp_all add: ledger_inv_def)
  have pc: "post_cash l (c, oid, cid, d, reason) = Inr l'" using post by (simp add: post_cash_def)
  have "cash_wf (current_cash l')" by (rule book.post_wf [OF wf(1) _ pc]) (use c in simp)
  moreover have "cash_reconciled l'"
    using book.post_reconciled [OF wf(1) _ pc] wf(2) by (simp add: book_reconciled_iff)
  moreover have "current_positions l' = current_positions l" "order_intents l' = order_intents l"
    "order_results l' = order_results l" "fills l' = fills l"
    using post by (auto simp: apply_cash_change_eq [OF wf(1)] append_cash_ledger_entry_def
        upsert_cash_def split: if_splits)
  ultimately show ?thesis using inv orders_wf_cong [of l' l] by (simp add: ledger_inv_def)
qed

definition has_account :: "ledger \<Rightarrow> currency \<Rightarrow> account_role \<Rightarrow> bool" where
  "has_account l cur role \<longleftrightarrow> tbl_get cash_key (acct_key cur role) (current_cash l) \<noteq> None"

lemma seed_cash_step:
  assumes inv: "ledger_inv l" and c: "0 \<le> cs_amount c" "representable (cs_amount c)"
  shows "\<exists>m. seed_cash_rows l (c # cs) = seed_cash_rows m cs \<and> ledger_inv m \<and>
    (\<forall>cur role. has_account m cur role \<longleftrightarrow>
       has_account l cur role \<or> cur = cs_currency c \<and> role = cs_account_role c) \<and>
    (\<forall>cur role. has_account l cur role \<longrightarrow>
       cash_balance m (acct_key cur role) = cash_balance l (acct_key cur role))"
proof -
  have wf: "cash_wf (current_cash l)" using inv by (simp add: ledger_inv_def)
  obtain x where x: "get_cash l (cs_currency c) (cs_account_role c) = Inr x"
    "x = None \<longleftrightarrow> \<not> has_account l (cs_currency c) (cs_account_role c)"
    by (rule get_cash_wf [OF wf, of "cs_currency c" "cs_account_role c"]) (auto simp: has_account_def)
  show ?thesis
  proof (cases x)
    case None
    then have none: "tbl_get cash_key (acct_key (cs_currency c) (cs_account_role c)) (current_cash l) = None"
      using x by (simp add: has_account_def)
    let ?m = "append_cash_ledger_entry (upsert_cash l c) None None (cs_currency c)
      (cs_account_role c) (cs_amount c) (cs_amount c) ''INITIAL_CASH'' (cs_as_of c)"
    have post: "apply_cash_change l c None None (cs_amount c) ''INITIAL_CASH'' = Inr ?m"
      using none c by (simp add: apply_cash_change_eq [OF wf] cash_balance_def rnd_exact)
    have "ledger_inv ?m" by (rule ledger_inv_post [OF inv c(1) post])
    moreover have "has_account ?m cur role \<longleftrightarrow>
        has_account l cur role \<or> cur = cs_currency c \<and> role = cs_account_role c" for cur role
      by (auto simp: has_account_def append_cash_ledger_entry_def upsert_cash_def tbl_get_upsert)
    moreover have "has_account l cur role \<longrightarrow>
        cash_balance ?m (acct_key cur role) = cash_balance l (acct_key cur role)" for cur role
      using none by (auto simp: cash_balance_post has_account_def)
    ultimately show ?thesis using x None post by (intro exI [of _ ?m]) simp
  next
    case (Some e)
    then show ?thesis using x inv by (intro exI [of _ l]) auto
  qed
qed

abbreviation seedable :: "cash_snapshot \<Rightarrow> bool" where
  "seedable c \<equiv> 0 \<le> cs_amount c \<and> representable (cs_amount c)"

lemma seed_cash_rows_ok:
  "ledger_inv l \<Longrightarrow> list_all seedable cs \<Longrightarrow>
   \<exists>m. seed_cash_rows l cs = Inr m \<and> ledger_inv m \<and>
    (\<forall>cur role. has_account m cur role \<longleftrightarrow>
       has_account l cur role \<or> (\<exists>c \<in> set cs. cur = cs_currency c \<and> role = cs_account_role c)) \<and>
    (\<forall>cur role. has_account l cur role \<longrightarrow>
       cash_balance m (acct_key cur role) = cash_balance l (acct_key cur role))"
proof (induction cs arbitrary: l)
  case (Cons c cs)
  then obtain m where m: "seed_cash_rows l (c # cs) = seed_cash_rows m cs" "ledger_inv m"
    "\<And>cur role. has_account m cur role \<longleftrightarrow>
       has_account l cur role \<or> cur = cs_currency c \<and> role = cs_account_role c"
    "\<And>cur role. has_account l cur role \<Longrightarrow>
       cash_balance m (acct_key cur role) = cash_balance l (acct_key cur role)"
    using seed_cash_step [of l c cs] by auto
  have "list_all seedable cs" using Cons.prems by simp
  from Cons.IH [OF m(2) this] obtain m' where m': "seed_cash_rows m cs = Inr m'" "ledger_inv m'"
    "\<And>cur role. has_account m' cur role \<longleftrightarrow>
       has_account m cur role \<or> (\<exists>c \<in> set cs. cur = cs_currency c \<and> role = cs_account_role c)"
    "\<And>cur role. has_account m cur role \<Longrightarrow>
       cash_balance m' (acct_key cur role) = cash_balance m (acct_key cur role)"
    by blast
  show ?case
    by (rule exI [of _ m']) (auto simp: m m' simp del: seed_cash_rows.simps)
qed simp

lemma seed_present:
  assumes wf: "cash_wf (current_cash l)"
  shows "\<forall>c \<in> set cs. has_account l (cs_currency c) (cs_account_role c) \<Longrightarrow> seed_cash_rows l cs = Inr l"
proof (induction cs)
  case (Cons c cs)
  obtain x where "get_cash l (cs_currency c) (cs_account_role c) = Inr x"
    "x = None \<longleftrightarrow> \<not> has_account l (cs_currency c) (cs_account_role c)"
    by (rule get_cash_wf [OF wf, of "cs_currency c" "cs_account_role c"]) (auto simp: has_account_def)
  with Cons show ?case by auto
qed simp

section \<open>Sequences of submissions\<close>

fun submit_all :: "fee_calculator \<Rightarrow> ledger \<Rightarrow> (order_intent \<times> market_price) list \<Rightarrow> ledger" where
  "submit_all fee l [] = l"
| "submit_all fee l ((i, p) # xs) = submit_all fee (fst (submit_order fee l i p)) xs"

abbreviation submittable :: "order_intent \<times> market_price \<Rightarrow> bool" where
  "submittable x \<equiv> valid_intent (fst x) \<and> 0 < mp_price (snd x)"

lemma submit_all_inv:
  "ledger_inv l \<Longrightarrow> list_all submittable xs \<Longrightarrow> ledger_inv (submit_all fee l xs)"
proof (induction fee l xs rule: submit_all.induct)
  case (2 fee l i p xs)
  then show ?case using submit_simulates [of l i p fee] by simp
qed simp

lemma one_fill_per_order:
  assumes "orders_wf l"
  shows "length (filter (\<lambda>r. fr_order_id r = oid) (fills l)) \<le> 1"
proof -
  have keyed: "distinct (map fr_fill_id (fills l))" using assms by (simp add: orders_wf_def tbl_keyed_def)
  have form: "fr_fill_id r = fr_order_id r @ ''-fill''" if "r \<in> set (fills l)" for r
    using that assms unfolding orders_wf_def by force
  let ?fs = "filter (\<lambda>r. fr_order_id r = oid) (fills l)"
  have "map fr_fill_id ?fs = replicate (length ?fs) (oid @ ''-fill'')"
    using form by (intro replicate_eqI) auto
  moreover have "distinct (map fr_fill_id ?fs)" using keyed by (rule distinct_map_filter)
  ultimately have dist: "distinct (replicate (length ?fs) (oid @ ''-fill''))" by simp
  have "n \<le> 1" if "distinct (replicate n (oid @ ''-fill''))" for n
  proof (cases n)
    case (Suc m)
    with that show ?thesis by (cases m) auto
  qed simp
  from this [OF dist] show ?thesis .
qed

lemma submit_result_id:
  assumes "snd (submit_order fee l i p) = Inr r" "valid_intent i"
  shows "or_order_id r = oi_order_id i"
proof -
  have n: "normalize_required_string (oi_order_id i) = Inr (oi_order_id i)"
    using assms(2) by (simp add: valid_intent_def)

  have id: "mk_OrderResult x = Inr y \<Longrightarrow> or_order_id x = oi_order_id i \<Longrightarrow> or_order_id y = oi_order_id i"
    for x y using n by (auto simp: mk_OrderResult_def dest!: validate_order_result_eq)
  have "snd (record_rejected_order l i why now) = Inr r \<Longrightarrow> or_order_id r = oi_order_id i" for why now
    by (auto simp: record_rejected_order_def transaction_def rbind_Inr_iff rejected_result_def
        split: sum.splits dest!: id)
  moreover have "snd (record_pending_order l i now) = Inr r \<Longrightarrow> or_order_id r = oi_order_id i" for now
    by (auto simp: record_pending_order_def transaction_def rbind_Inr_iff accepted_result_def
        split: sum.splits dest!: id)
  moreover have "snd (record_filled_order l i p d now) = Inr r \<Longrightarrow> or_order_id r = oi_order_id i" for d now
    by (auto simp: record_filled_order_def transaction_def rbind_Inr_iff accepted_result_def
        split: sum.splits dest!: id)
  ultimately show ?thesis
    using assms(1) id by (auto simp: submit_order_def Let_def rejected_result_def
        split: if_splits option.splits sum.splits)
qed

lemma transaction_Inl: "snd (transaction body l) = Inl e \<Longrightarrow> fst (transaction body l) = l"
  by (auto simp: transaction_def split: sum.splits)

lemma submit_raises_unchanged:
  assumes "snd (submit_order fee l i p) = Inl e"
  shows "fst (submit_order fee l i p) = l"
proof -
  have "snd (record_rejected_order l i why now) = Inl e \<Longrightarrow> fst (record_rejected_order l i why now) = l"
    for why now by (auto simp: record_rejected_order_def transaction_Inl split: sum.splits)
  moreover have "snd (record_pending_order l i now) = Inl e \<Longrightarrow> fst (record_pending_order l i now) = l"
    for now by (auto simp: record_pending_order_def transaction_Inl split: sum.splits)
  moreover have "snd (record_filled_order l i p d now) = Inl e \<Longrightarrow> fst (record_filled_order l i p d now) = l"
    for d now by (auto simp: record_filled_order_def transaction_Inl split: sum.splits)
  ultimately show ?thesis
    using assms by (auto simp: submit_order_def Let_def split: if_splits option.splits sum.splits)
qed

section \<open>Properties of the paper broker\<close>

text \<open>A concrete account, order and price at which the properties are instantiated.\<close>

definition example_intent :: order_intent where
  "example_intent =
     \<lparr>oi_order_id = ''O-1'', oi_correlation_id = ''C-1'', oi_symbol = ''005930'', oi_market = KR,
      oi_asset_class = KR_EQUITY, oi_account_role = PAPER, oi_side = BUY, oi_order_type = MARKET,
      oi_execution_mode = EM_NORMAL, oi_time_in_force = DAY, oi_quantity = Some 10,
      oi_target_weight_percent = None, oi_limit_price = None, oi_reason_code = None,
      oi_source_decision_id = None, oi_created_at = 0\<rparr>"

definition example_price :: market_price where
  "example_price =
     \<lparr>mp_symbol = ''005930'', mp_market = KR, mp_currency = KRW, mp_price = 70000, mp_as_of = 0\<rparr>"

definition example_cash :: cash_snapshot where
  "example_cash = \<lparr>cs_currency = KRW, cs_amount = 1000000, cs_account_role = PAPER, cs_as_of = 0\<rparr>"

definition example_ledger :: ledger where
  "example_ledger = fst (seed_initial_cash empty_ledger [example_cash])"

lemma example_intent_valid: "valid_intent example_intent"
  by (simp add: valid_intent_def example_intent_def normalised_def strip_def is_space_def)

lemma example_price_pos: "0 < mp_price example_price"
  by (simp add: example_price_def)

lemma example_cash_seedable: "seedable example_cash"
  by (simp add: example_cash_def representable_numeral)

lemma seed_inv:
  "ledger_inv l \<Longrightarrow> list_all seedable cs \<Longrightarrow> ledger_inv (fst (seed_initial_cash l cs))"
  using seed_cash_rows_ok [of l cs] by (auto simp: seed_initial_cash_def transaction_def)

lemma example_ledger_inv: "ledger_inv example_ledger"
  unfolding example_ledger_def
  by (rule seed_inv [OF ledger_inv_empty]) (simp add: example_cash_seedable)

lemmas example_facts = example_ledger_inv example_intent_valid example_price_pos

text \<open>
  C3. Submitting an order to the paper broker does to the ledger exactly what
  \<open>spec_submit\<close> does to the abstract account: duplicate ids, mismatched prices, unsized
  orders, unreached limits, missing cash or holdings, fees and the two fill directions, on every
  branch. The result has the status the specification gives, a submission that raises leaves the
  account alone, and the ledger invariant (unique keys, resolved references, reconciled
  non-negative cash, positive positions) is kept.
\<close>

theorem submit_order_refines:
  assumes "ledger_inv l" and "valid_intent i" and "0 < mp_price p"
  shows "ledger_inv (fst (submit_order fee l i p)) \<and>
    (abs_ledger (fst (submit_order fee l i p)), status_of (snd (submit_order fee l i p))) =
      spec_submit fee (abs_ledger l) i p"
  by (rule submit_simulates [OF assms])

theorem submit_order_refines_witness:
  "ledger_inv (fst (submit_order zero_fees example_ledger example_intent example_price)) \<and>
    (abs_ledger (fst (submit_order zero_fees example_ledger example_intent example_price)),
     status_of (snd (submit_order zero_fees example_ledger example_intent example_price))) =
      spec_submit zero_fees (abs_ledger example_ledger) example_intent example_price"
  by (rule submit_order_refines [OF example_facts])

text \<open>
  A submission is atomic: when it raises, the ledger is the one before it; when it returns a
  result, the result is for that order and the order counts as processed from then on.
\<close>

theorem submit_order_atomic:
  assumes "ledger_inv l" and "valid_intent i" and "0 < mp_price p"
  shows "case submit_order fee l i p of
      (l', Inl e) \<Rightarrow> l' = l
    | (l', Inr r) \<Rightarrow> or_order_id r = oi_order_id i \<and> has_processed_order l' (oi_order_id i)"
proof (cases "snd (submit_order fee l i p)")
  case (Inl e)
  then show ?thesis using submit_raises_unchanged [OF Inl] by (auto split: prod.splits)
next
  case (Inr r)
  let ?l' = "fst (submit_order fee l i p)"
  have sim: "simulates (submit_order fee l i p) (spec_submit fee (abs_ledger l) i p)"
    by (rule submit_simulates [OF assms])
  have "pa_orders (fst (spec_submit fee (abs_ledger l) i p)) (oi_order_id i) \<noteq> None"
    if "snd (spec_submit fee (abs_ledger l) i p) \<noteq> None"
    using that by (auto simp: spec_submit_def spec_fill_def spec_record_def Let_def
        split: prod.splits if_splits option.splits order_side.splits)
  moreover have "snd (spec_submit fee (abs_ledger l) i p) = Some (or_status r)"
    using sim Inr by (metis snd_conv status_of_def sum.simps(6))
  moreover have "fst (spec_submit fee (abs_ledger l) i p) = abs_ledger ?l'"
    using sim by (metis fst_conv)
  ultimately have "recorded ?l' (oi_order_id i) \<noteq> None" by (simp add: abs_ledger_def)
  then have "has_processed_order ?l' (oi_order_id i)"
    using sim recorded_None_iff [of ?l' "oi_order_id i"] by (auto simp: ledger_inv_def)
  with Inr show ?thesis using submit_result_id [OF Inr assms(2)] by (auto split: prod.splits)
qed

theorem submit_order_atomic_witness:
  "case submit_order zero_fees example_ledger example_intent example_price of
      (l', Inl e) \<Rightarrow> l' = example_ledger
    | (l', Inr r) \<Rightarrow> or_order_id r = oi_order_id example_intent \<and>
        has_processed_order l' (oi_order_id example_intent)"
  by (rule submit_order_atomic [OF example_facts])

text \<open>
  Order ids are idempotency keys: submitting again an order id that has been processed, with
  whatever intent, price and fees, changes nothing and returns REJECTED with the reason
  \<^verbatim>\<open>duplicate order_id\<close>.
\<close>

theorem submit_order_duplicate:
  assumes "has_processed_order l (oi_order_id i)" and "valid_intent i"
  shows "submit_order fee l i p =
    (l, Inr \<lparr>or_order_id = oi_order_id i, or_status = REJECTED, or_accepted = False,
             or_rejection_reason = Some ''duplicate order_id'', or_created_at = oi_created_at i\<rparr>)"
proof -
  have "mk_OrderResult (rejected_result i ''duplicate order_id'' (oi_created_at i)) =
      Inr (rejected_result i ''duplicate order_id'' (oi_created_at i))"
    using assms(2) by (intro rejected_result_valid) (simp_all add: valid_intent_def)
  with assms(1) show ?thesis by (simp add: submit_order_def rejected_result_def Let_def)
qed

definition example_done :: ledger where
  "example_done = fst (record_pending_order empty_ledger example_intent 0)"

lemma example_done_processed: "has_processed_order example_done (oi_order_id example_intent)"
proof -
  have "\<not> has_processed_order empty_ledger (oi_order_id example_intent)"
    by (simp add: has_processed_order_def empty_ledger_def)
  from record_pending_ok(1) [OF ledger_inv_empty example_intent_valid this, of 0]
  show ?thesis by (simp add: example_done_def accepted_result_def)
qed

theorem submit_order_duplicate_witness:
  "submit_order zero_fees example_done example_intent example_price =
    (example_done, Inr \<lparr>or_order_id = oi_order_id example_intent, or_status = REJECTED,
       or_accepted = False, or_rejection_reason = Some ''duplicate order_id'',
       or_created_at = oi_created_at example_intent\<rparr>)"
  by (rule submit_order_duplicate [OF example_done_processed example_intent_valid])

text \<open>
  C6. After any sequence of submissions on any well-formed ledger: the stored cash of every
  account is the sequential rounded sum of its cash-ledger entries, every entry's
  \<^verbatim>\<open>balance_after\<close> continues the one before, no balance is negative, no holding is
  negative, and no order has more than one fill.
\<close>

theorem submissions_keep_books:
  assumes "ledger_inv l" and "list_all submittable xs" and "l' = submit_all fee l xs"
  shows "chained 0 (cash_movements l' k) \<and> cash_balance l' k = replay (cash_movements l' k) \<and>
    0 \<le> cash_balance l' k \<and> 0 \<le> holding l' sec \<and>
    length (filter (\<lambda>r. fr_order_id r = oid) (fills l')) \<le> 1"
proof -
  have inv: "ledger_inv l'" using submit_all_inv [OF assms(1,2)] by (simp add: assms(3))
  then have "chained 0 (cash_movements l' k) \<and> cash_balance l' k = replay (cash_movements l' k)"
    unfolding ledger_inv_def cash_reconciled_def by blast
  then show ?thesis
    using inv cash_balance_nonneg [of l' k] holding_nonneg [of l' sec] one_fill_per_order [of l' oid]
    by (simp add: ledger_inv_def)
qed

theorem submissions_keep_books_witness:
  "let l' = submit_all zero_fees example_ledger
       [(example_intent, example_price),
        (example_intent\<lparr>oi_order_id := ''O-2'', oi_side := SELL\<rparr>, example_price)];
       k = (''KRW'', ''PAPER'')
   in chained 0 (cash_movements l' k) \<and> cash_balance l' k = replay (cash_movements l' k) \<and>
    0 \<le> cash_balance l' k \<and> 0 \<le> holding l' (''005930'', KR, PAPER) \<and>
    length (filter (\<lambda>r. fr_order_id r = ''O-2'') (fills l')) \<le> 1"
  unfolding Let_def
  by (rule submissions_keep_books [OF example_ledger_inv _ refl])
    (simp add: valid_intent_def example_intent_def example_price_def normalised_def strip_def
      is_space_def)

text \<open>
  A purchase never fails half-way: with non-negative fees a BUY submission always returns a
  result (rejected, pending or filled) and never raises.
\<close>

theorem buy_never_raises:
  assumes "ledger_inv l" and "valid_intent i" and "0 < mp_price p" and "oi_side i = BUY"
    and "0 \<le> amount (fst (fee i (mp_price p) (mp_currency p)))"
    and "0 \<le> amount (snd (fee i (mp_price p) (mp_currency p)))"
  shows "\<exists>r. snd (submit_order fee l i p) = Inr r"
proof -
  have "snd (spec_submit fee (abs_ledger l) i p) \<noteq> None"
    using assms(4-6) by (auto simp: spec_submit_def spec_fill_def spec_record_def Let_def
        split: prod.splits option.splits)
  then have "status_of (snd (submit_order fee l i p)) \<noteq> None"
    using submit_simulates [OF assms(1-3), of fee] by (metis snd_conv)
  then show ?thesis by (cases "snd (submit_order fee l i p)") (auto simp: status_of_def)
qed

theorem buy_never_raises_witness:
  "\<exists>r. snd (submit_order zero_fees example_ledger example_intent example_price) = Inr r"
  by (rule buy_never_raises [OF example_facts])
    (simp_all add: zero_fees_def money_zero_def example_intent_def)

text \<open>
  Seeding the initial cash: on a well-formed ledger it succeeds for amounts the decimal
  context holds exactly, opens every listed account, leaves the balance of every account that
  already existed, keeps the invariant, and doing it a second time changes nothing.
\<close>

theorem seed_initial_cash_idempotent:
  assumes "ledger_inv l" and "list_all seedable cs"
  shows "\<exists>m. seed_initial_cash l cs = (m, Inr ()) \<and> ledger_inv m \<and>
    (\<forall>cur role. has_account m cur role \<longleftrightarrow>
       has_account l cur role \<or> (\<exists>c \<in> set cs. cur = cs_currency c \<and> role = cs_account_role c)) \<and>
    (\<forall>cur role. has_account l cur role \<longrightarrow>
       cash_balance m (acct_key cur role) = cash_balance l (acct_key cur role)) \<and>
    seed_initial_cash m cs = (m, Inr ())"
proof -
  obtain m where m: "seed_cash_rows l cs = Inr m" "ledger_inv m"
    "\<And>cur role. has_account m cur role \<longleftrightarrow>
       has_account l cur role \<or> (\<exists>c \<in> set cs. cur = cs_currency c \<and> role = cs_account_role c)"
    "\<forall>cur role. has_account l cur role \<longrightarrow>
       cash_balance m (acct_key cur role) = cash_balance l (acct_key cur role)"
    using seed_cash_rows_ok [OF assms] by blast
  have "seed_cash_rows m cs = Inr m"
    using m(2,3) by (intro seed_present) (auto simp: ledger_inv_def)
  with m show ?thesis by (simp add: seed_initial_cash_def transaction_def)
qed

theorem seed_initial_cash_idempotent_witness:
  "\<exists>m. seed_initial_cash empty_ledger [example_cash] = (m, Inr ()) \<and> ledger_inv m \<and>
    has_account m KRW PAPER \<and> has_account m USD PAPER = False \<and>
    seed_initial_cash m [example_cash] = (m, Inr ())"
proof -
  have "list_all seedable [example_cash]" by (simp add: example_cash_seedable)
  moreover have "has_account empty_ledger cur role = False" for cur role
    by (simp add: has_account_def empty_ledger_def)
  moreover have "cs_currency example_cash = KRW" "cs_account_role example_cash = PAPER"
    by (simp_all add: example_cash_def)
  ultimately show ?thesis
    using seed_initial_cash_idempotent [OF ledger_inv_empty, of "[example_cash]"] by auto
qed

text \<open>The ledger's own properties at the example order and cash row.\<close>

theorem order_intent_roundtrip_witness:
  "get_order_intent (empty_ledger\<lparr>order_intents := [intent_to_row example_intent]\<rparr>)
      (oi_order_id example_intent) = Inr (Some example_intent) \<and>
    get_order_intent (empty_ledger\<lparr>order_intents := [intent_to_row example_intent]\<rparr>) ''O-2'' = Inr None \<and>
    (\<exists>e. save_order_intent (empty_ledger\<lparr>order_intents := [intent_to_row example_intent]\<rparr>)
       example_intent = Inl (IntegrityError e))"
proof -
  have "save_order_intent empty_ledger example_intent =
      Inr (empty_ledger\<lparr>order_intents := [intent_to_row example_intent]\<rparr>)"
    by (simp add: save_order_intent_def tbl_insert_def empty_ledger_def)
  note saved = order_intent_roundtrip [OF example_intent_valid this]
  moreover have "''O-2'' \<noteq> oi_order_id example_intent" by (simp add: example_intent_def)
  moreover have "get_order_intent empty_ledger ''O-2'' = Inr None"
    by (simp add: get_order_intent_def empty_ledger_def)
  ultimately show ?thesis by metis
qed

theorem apply_cash_change_spec_witness:
  "let k = acct_key (cs_currency example_cash) (cs_account_role example_cash)
   in \<exists>l'. apply_cash_change empty_ledger example_cash None None 1000000 ''INITIAL_CASH'' = Inr l' \<and>
     (\<forall>j. cash_balance l' j = (if j = k then cs_amount example_cash else cash_balance empty_ledger j)) \<and>
     (\<forall>j. cash_movements l' j =
        (if j = k then cash_movements empty_ledger j @ [(1000000, cs_amount example_cash)]
         else cash_movements empty_ledger j))"
proof -
  have wf: "cash_wf (current_cash empty_ledger)"
    by (simp add: empty_ledger_def cash_wf_def tbl_keyed_def)
  have "cs_amount example_cash =
      dadd (cash_balance empty_ledger (acct_key (cs_currency example_cash) (cs_account_role example_cash))) 1000000"
    by (simp add: cash_balance_def empty_ledger_def example_cash_def)
  then show ?thesis
    using apply_cash_change_spec [OF wf refl, of example_cash 1000000 None None "''INITIAL_CASH''"]
    unfolding Let_def by (simp only: if_True)
qed

end
