(* ===== verification/Market_State.thy ===== *)
theory Market_State
  imports Domain
begin

text \<open>
  Normalised market events and the latest-state store:
  \<^verbatim>\<open>src/src/market_data/models.py\<close> and \<^verbatim>\<open>latest_state.py\<close>. The dictionaries are
  maps. The lock makes every operation atomic, so an operation is a function on the store.
\<close>

section \<open>Events\<close>

datatype market_event_type = TRADE | BEST_BID_ASK | HEARTBEAT

record provider_sequence =
  sq_provider :: string
  sq_channel :: string
  sq_sequence :: int
  sq_received_at :: instant

record trade_tick =
  tt_provider :: string
  tt_symbol :: string
  tt_market :: market
  tt_currency :: currency
  tt_price :: decimal
  tt_quantity :: decimal
  tt_trade_at :: instant
  tt_received_at :: instant
  tt_provider_sequence :: provider_sequence
  tt_cumulative_volume :: "decimal option"

record best_bid_ask =
  ba_provider :: string
  ba_symbol :: string
  ba_market :: market
  ba_currency :: currency
  ba_bid_price :: decimal
  ba_ask_price :: decimal
  ba_bid_quantity :: decimal
  ba_ask_quantity :: decimal
  ba_quote_at :: instant
  ba_received_at :: instant
  ba_provider_sequence :: provider_sequence

record heartbeat =
  hb_provider :: string
  hb_channel :: string
  hb_sent_at :: instant
  hb_received_at :: instant
  hb_provider_sequence :: "provider_sequence option"

datatype market_event = Trade_Event trade_tick | Quote_Event best_bid_ask | Heartbeat_Event heartbeat

definition mk_ProviderSequence :: "provider_sequence \<Rightarrow> provider_sequence result" where
  "mk_ProviderSequence s =
     rbind (normalize_required_string (sq_provider s)) (\<lambda>p.
     rbind (normalize_required_string (sq_channel s)) (\<lambda>c.
     rbind (guard (0 \<le> sq_sequence s) (ValueError ''sequence must be greater than or equal to 0'')) (\<lambda>_.
     Inr (s\<lparr>sq_provider := p, sq_channel := c\<rparr>))))"

definition mk_NormalizedTradeTick :: "trade_tick \<Rightarrow> trade_tick result" where
  "mk_NormalizedTradeTick t =
     rbind (normalize_required_string (tt_provider t)) (\<lambda>p.
     rbind (normalize_required_string (tt_symbol t)) (\<lambda>s.
     rbind (guard (0 < tt_price t) (ValueError ''price must be greater than 0'')) (\<lambda>_.
     rbind (guard (0 < tt_quantity t) (ValueError ''quantity must be greater than 0'')) (\<lambda>_.
     rbind (mk_ProviderSequence (tt_provider_sequence t)) (\<lambda>q.
     rbind (guard (case tt_cumulative_volume t of None \<Rightarrow> True | Some v \<Rightarrow> 0 \<le> v)
       (ValueError ''cumulative_volume must be greater than or equal to 0'')) (\<lambda>_.
     Inr (t\<lparr>tt_provider := p, tt_symbol := s, tt_provider_sequence := q\<rparr>)))))))"

definition mk_NormalizedBestBidAsk :: "best_bid_ask \<Rightarrow> best_bid_ask result" where
  "mk_NormalizedBestBidAsk b =
     rbind (normalize_required_string (ba_provider b)) (\<lambda>p.
     rbind (normalize_required_string (ba_symbol b)) (\<lambda>s.
     rbind (guard (0 < ba_bid_price b) (ValueError ''bid_price must be greater than 0'')) (\<lambda>_.
     rbind (guard (0 < ba_ask_price b) (ValueError ''ask_price must be greater than 0'')) (\<lambda>_.
     rbind (guard (0 \<le> ba_bid_quantity b) (ValueError ''bid_quantity must be >= 0'')) (\<lambda>_.
     rbind (guard (0 \<le> ba_ask_quantity b) (ValueError ''ask_quantity must be >= 0'')) (\<lambda>_.
     rbind (mk_ProviderSequence (ba_provider_sequence b)) (\<lambda>q.
     if ba_ask_price b < ba_bid_price b
     then Inl (ValueError ''bid_price must not exceed ask_price (crossed book).'')
     else Inr (b\<lparr>ba_provider := p, ba_symbol := s, ba_provider_sequence := q\<rparr>))))))))"

definition mk_MarketHeartbeat :: "heartbeat \<Rightarrow> heartbeat result" where
  "mk_MarketHeartbeat h =
     rbind (normalize_required_string (hb_provider h)) (\<lambda>p.
     rbind (normalize_required_string (hb_channel h)) (\<lambda>c.
     rbind (case hb_provider_sequence h of None \<Rightarrow> Inr None
            | Some s \<Rightarrow> rbind (mk_ProviderSequence s) (\<lambda>q. Inr (Some q))) (\<lambda>q.
     Inr (h\<lparr>hb_provider := p, hb_channel := c, hb_provider_sequence := q\<rparr>))))"

section \<open>The store\<close>

datatype market_state_error =
    FutureMarketEventError
  | StaleMarketStateError
  | MissingMarketStateError
  | MS_ValueError

datatype apply_status = APPLIED | DUPLICATE | OUT_OF_ORDER | STREAM_MISMATCH

record apply_result =
  ar_status :: apply_status
  ar_event_type :: market_event_type
  ar_reason :: "string option"

definition DEFAULT_MAX_AGE :: int where
  "DEFAULT_MAX_AGE = 10 * 1000000"

definition is_fresh :: "int \<Rightarrow> instant \<Rightarrow> instant \<Rightarrow> bool" where
  "is_fresh max_age event_time now \<longleftrightarrow> (if now < event_time then False else now - event_time \<le> max_age)"

record market_state_snapshot =
  ls_market :: market
  ls_symbol :: string
  ls_trade :: "trade_tick option"
  ls_quote :: "best_bid_ask option"
  ls_trade_fresh :: bool
  ls_quote_fresh :: bool
  ls_evaluated_at :: instant

record liveness_snapshot =
  lv_provider :: string
  lv_channel :: string
  lv_heartbeat :: "heartbeat option"
  lv_is_live :: bool

record latest_store =
  st_max_age :: int
  st_trade :: "market \<times> string \<Rightarrow> trade_tick option"
  st_quote :: "market \<times> string \<Rightarrow> best_bid_ask option"
  st_liveness :: "string \<times> string \<Rightarrow> heartbeat option"

definition new_latest_store :: "int \<Rightarrow> latest_store" where
  "new_latest_store max_age =
     \<lparr>st_max_age = max_age, st_trade = (\<lambda>_. None), st_quote = (\<lambda>_. None), st_liveness = (\<lambda>_. None)\<rparr>"

text \<open>
  What \<^verbatim>\<open>_apply_market\<close> reads of a trade or a quote: its key, its stream identity, its
  sequence number and its two times (\<^verbatim>\<open>_stream_identity\<close>, \<^verbatim>\<open>_event_time\<close>).
\<close>

record event_view =
  ev_key :: "market \<times> string"
  ev_stream :: "string \<times> string"
  ev_sequence :: int
  ev_time :: instant
  ev_received_at :: instant

definition trade_view :: "trade_tick \<Rightarrow> event_view" where
  "trade_view t =
     \<lparr>ev_key = (tt_market t, tt_symbol t),
      ev_stream = (sq_provider (tt_provider_sequence t), sq_channel (tt_provider_sequence t)),
      ev_sequence = sq_sequence (tt_provider_sequence t), ev_time = tt_trade_at t,
      ev_received_at = tt_received_at t\<rparr>"

definition quote_view :: "best_bid_ask \<Rightarrow> event_view" where
  "quote_view b =
     \<lparr>ev_key = (ba_market b, ba_symbol b),
      ev_stream = (sq_provider (ba_provider_sequence b), sq_channel (ba_provider_sequence b)),
      ev_sequence = sq_sequence (ba_provider_sequence b), ev_time = ba_quote_at b,
      ev_received_at = ba_received_at b\<rparr>"

definition apply_market ::
  "('e \<Rightarrow> event_view) \<Rightarrow> 'e \<Rightarrow> market_event_type \<Rightarrow> (market \<times> string \<Rightarrow> 'e option) \<Rightarrow> instant \<Rightarrow>
   market_state_error + (market \<times> string \<Rightarrow> 'e option) \<times> apply_result" where
  "apply_market view event ty store now =
     (let v = view event;
          answer = (\<lambda>st reason. \<lparr>ar_status = st, ar_event_type = ty, ar_reason = reason\<rparr>);
          accept = Inr (store(ev_key v \<mapsto> event), answer APPLIED None)
      in if now < ev_time v then Inl FutureMarketEventError
         else if now < ev_received_at v then Inl FutureMarketEventError
         else case store (ev_key v) of
           None \<Rightarrow> accept
         | Some stored \<Rightarrow>
             let s = view stored
             in if ev_stream s \<noteq> ev_stream v
                then Inr (store, answer STREAM_MISMATCH (Some ''stream identity differs from stored slot''))
                else if ev_sequence v = ev_sequence s
                then Inr (store, answer DUPLICATE (Some ''duplicate sequence''))
                else if ev_sequence v < ev_sequence s
                then Inr (store, answer OUT_OF_ORDER (Some ''decreasing sequence''))
                else if ev_received_at v < ev_received_at s
                then Inr (store, answer OUT_OF_ORDER (Some ''received_at regression''))
                else if ev_time v < ev_time s
                then Inr (store, answer OUT_OF_ORDER (Some ''event time regression''))
                else accept)"

definition apply_heartbeat ::
  "heartbeat \<Rightarrow> (string \<times> string \<Rightarrow> heartbeat option) \<Rightarrow> instant \<Rightarrow>
   market_state_error + (string \<times> string \<Rightarrow> heartbeat option) \<times> apply_result" where
  "apply_heartbeat h store now =
     (let key = (hb_provider h, hb_channel h);
          answer = (\<lambda>st reason. \<lparr>ar_status = st, ar_event_type = HEARTBEAT, ar_reason = reason\<rparr>);
          accept = Inr (store(key \<mapsto> h), answer APPLIED None)
      in if now < hb_received_at h then Inl FutureMarketEventError
         else case store key of
           None \<Rightarrow> accept
         | Some stored \<Rightarrow>
             if hb_received_at h < hb_received_at stored
             then Inr (store, answer OUT_OF_ORDER (Some ''received_at regression''))
             else if hb_received_at h = hb_received_at stored
             then Inr (store, answer DUPLICATE (Some ''duplicate received_at''))
             else accept)"

definition apply_event ::
  "latest_store \<Rightarrow> market_event \<Rightarrow> instant \<Rightarrow> market_state_error + latest_store \<times> apply_result" where
  "apply_event s event now =
     (case event of
        Trade_Event t \<Rightarrow> rbind (apply_market trade_view t TRADE (st_trade s) now)
          (\<lambda>(m, res). Inr (s\<lparr>st_trade := m\<rparr>, res))
      | Quote_Event b \<Rightarrow> rbind (apply_market quote_view b BEST_BID_ASK (st_quote s) now)
          (\<lambda>(m, res). Inr (s\<lparr>st_quote := m\<rparr>, res))
      | Heartbeat_Event h \<Rightarrow> rbind (apply_heartbeat h (st_liveness s) now)
          (\<lambda>(m, res). Inr (s\<lparr>st_liveness := m\<rparr>, res)))"

definition drop_stream ::
  "('e \<Rightarrow> event_view) \<Rightarrow> string \<times> string \<Rightarrow> (market \<times> string \<Rightarrow> 'e option) \<Rightarrow> market \<times> string \<Rightarrow> 'e option" where
  "drop_stream view target store k =
     (case store k of Some v \<Rightarrow> if ev_stream (view v) = target then None else Some v | None \<Rightarrow> None)"

definition reset_stream :: "latest_store \<Rightarrow> string \<Rightarrow> string \<Rightarrow> latest_store" where
  "reset_stream s provider channel =
     (let target = (provider, channel)
      in s\<lparr>st_trade := drop_stream trade_view target (st_trade s),
          st_quote := drop_stream quote_view target (st_quote s),
          st_liveness := (st_liveness s)(target := None)\<rparr>)"

definition peek :: "latest_store \<Rightarrow> market \<Rightarrow> string \<Rightarrow> instant \<Rightarrow> market_state_snapshot" where
  "peek s m symbol now =
     (let trade = st_trade s (m, symbol); quote = st_quote s (m, symbol)
      in \<lparr>ls_market = m, ls_symbol = symbol, ls_trade = trade, ls_quote = quote,
          ls_trade_fresh = (case trade of None \<Rightarrow> False | Some t \<Rightarrow> is_fresh (st_max_age s) (tt_trade_at t) now),
          ls_quote_fresh = (case quote of None \<Rightarrow> False | Some q \<Rightarrow> is_fresh (st_max_age s) (ba_quote_at q) now),
          ls_evaluated_at = now\<rparr>)"

definition require_slot :: "'e option \<Rightarrow> bool \<Rightarrow> market_state_error + unit" where
  "require_slot slot fresh =
     (case slot of None \<Rightarrow> Inl MissingMarketStateError
      | Some _ \<Rightarrow> if \<not> fresh then Inl StaleMarketStateError else Inr ())"

definition require_fresh ::
  "latest_store \<Rightarrow> market \<Rightarrow> string \<Rightarrow> instant \<Rightarrow> market_event_type list \<Rightarrow>
   market_state_error + market_state_snapshot" where
  "require_fresh s m symbol now required =
     (if required = [] then Inl MS_ValueError
      else if list_ex (\<lambda>ty. ty \<noteq> TRADE \<and> ty \<noteq> BEST_BID_ASK) required then Inl MS_ValueError
      else let snapshot = peek s m symbol now
           in rbind (traverse (\<lambda>ty. if ty = TRADE
                       then require_slot (ls_trade snapshot) (ls_trade_fresh snapshot)
                       else require_slot (ls_quote snapshot) (ls_quote_fresh snapshot)) required)
                (\<lambda>_. Inr snapshot))"

definition peek_liveness :: "latest_store \<Rightarrow> string \<Rightarrow> string \<Rightarrow> instant \<Rightarrow> liveness_snapshot" where
  "peek_liveness s provider channel now =
     (let beat = st_liveness s (provider, channel)
      in \<lparr>lv_provider = provider, lv_channel = channel, lv_heartbeat = beat,
          lv_is_live = (case beat of None \<Rightarrow> False
            | Some h \<Rightarrow> is_fresh (st_max_age s) (hb_received_at h) now)\<rparr>)"

definition require_live ::
  "latest_store \<Rightarrow> string \<Rightarrow> string \<Rightarrow> instant \<Rightarrow> market_state_error + liveness_snapshot" where
  "require_live s provider channel now =
     (let snapshot = peek_liveness s provider channel now
      in if lv_heartbeat snapshot = None then Inl MissingMarketStateError
         else if \<not> lv_is_live snapshot then Inl StaleMarketStateError
         else Inr snapshot)"

section \<open>Slots only move forward\<close>

text \<open>A slot that has been replaced holds a later event of the same stream.\<close>

definition later_event :: "event_view \<Rightarrow> event_view \<Rightarrow> bool" where
  "later_event v w \<longleftrightarrow> ev_stream w = ev_stream v \<and> ev_sequence v < ev_sequence w \<and>
     ev_time v \<le> ev_time w \<and> ev_received_at v \<le> ev_received_at w"

lemma apply_market_cases:
  assumes "apply_market view event ty store now = Inr (store', res)"
  shows "ar_event_type res = ty \<and> ev_time (view event) \<le> now \<and> ev_received_at (view event) \<le> now \<and>
    (if ar_status res = APPLIED
     then store' = store(ev_key (view event) \<mapsto> event) \<and>
       (\<forall>old. store (ev_key (view event)) = Some old \<longrightarrow> later_event (view old) (view event))
     else store' = store)"
  using assms unfolding apply_market_def Let_def later_event_def
  by (auto split: if_splits option.splits)

definition slots_current :: "('e \<Rightarrow> event_view) \<Rightarrow> instant \<Rightarrow> (market \<times> string \<Rightarrow> 'e option) \<Rightarrow> bool" where
  "slots_current view now store \<longleftrightarrow>
     (\<forall>k e. store k = Some e \<longrightarrow> ev_key (view e) = k \<and> ev_time (view e) \<le> now \<and> ev_received_at (view e) \<le> now)"

definition store_current :: "instant \<Rightarrow> latest_store \<Rightarrow> bool" where
  "store_current now s \<longleftrightarrow> slots_current trade_view now (st_trade s) \<and> slots_current quote_view now (st_quote s)"

lemma apply_market_current:
  assumes "apply_market view event ty store now = Inr (store', res)" "slots_current view t0 store" "t0 \<le> now"
  shows "slots_current view now store'"
  using apply_market_cases [OF assms(1)] assms(2,3)
  by (fastforce simp: slots_current_def split: if_splits)

lemma apply_market_slots:
  assumes "apply_market view event ty store now = Inr (store', res)"
  shows "ar_status res \<noteq> APPLIED \<Longrightarrow> store' = store"
    and "store k = Some e \<Longrightarrow> \<exists>e'. store' k = Some e' \<and> (e' = e \<or> later_event (view e) (view e'))"
  using apply_market_cases [OF assms] by (auto split: if_splits)

lemma slots_current_mono:
  "slots_current view t0 store \<Longrightarrow> t0 \<le> now \<Longrightarrow> slots_current view now store"
  by (fastforce simp: slots_current_def)

lemma apply_heartbeat_rejected:
  "apply_heartbeat h store now = Inr (store', res) \<Longrightarrow> ar_status res \<noteq> APPLIED \<Longrightarrow> store' = store"
  unfolding apply_heartbeat_def Let_def by (auto split: if_splits option.splits)

text \<open>
  The latest-state store. An event that is not from the future either replaces the slot of
  its instrument and result type APPLIED, in which case it is a strictly later event (sequence
  number) of the same stream whose times do not go back, or leaves the whole store untouched. No
  event from the future is ever stored, and an event of the future raises.
\<close>

theorem apply_event_monotone:
  assumes "store_current t0 s" and "t0 \<le> now" and "apply_event s event now = Inr (s', res)"
  shows "store_current now s' \<and> st_max_age s' = st_max_age s \<and> (ar_status res \<noteq> APPLIED \<longrightarrow> s' = s) \<and>
    (\<forall>k t. st_trade s k = Some t \<longrightarrow> (\<exists>t'. st_trade s' k = Some t' \<and>
        (t' = t \<or> later_event (trade_view t) (trade_view t')))) \<and>
    (\<forall>k q. st_quote s k = Some q \<longrightarrow> (\<exists>q'. st_quote s' k = Some q' \<and>
        (q' = q \<or> later_event (quote_view q) (quote_view q'))))"
proof -
  from assms(1,2) have cur: "slots_current trade_view now (st_trade s)" "slots_current quote_view now (st_quote s)"
    by (auto simp: store_current_def intro: slots_current_mono)
  show ?thesis
  proof (cases event)
    case (Trade_Event t)
    then obtain m where m: "apply_market trade_view t TRADE (st_trade s) now = Inr (m, res)"
      and s': "s' = s\<lparr>st_trade := m\<rparr>"
      using assms(3) by (auto simp: apply_event_def rbind_Inr_iff)
    show ?thesis
      using apply_market_slots [OF m] apply_market_current [OF m cur(1) order.refl] cur(2)
      by (simp add: s' store_current_def)
  next
    case (Quote_Event b)
    then obtain m where m: "apply_market quote_view b BEST_BID_ASK (st_quote s) now = Inr (m, res)"
      and s': "s' = s\<lparr>st_quote := m\<rparr>"
      using assms(3) by (auto simp: apply_event_def rbind_Inr_iff)
    show ?thesis
      using apply_market_slots [OF m] apply_market_current [OF m cur(2) order.refl] cur(1)
      by (simp add: s' store_current_def)
  next
    case (Heartbeat_Event h)
    then obtain m where m: "apply_heartbeat h (st_liveness s) now = Inr (m, res)"
      and s': "s' = s\<lparr>st_liveness := m\<rparr>"
      using assms(3) by (auto simp: apply_event_def rbind_Inr_iff)
    show ?thesis using cur apply_heartbeat_rejected [OF m] by (simp add: s' store_current_def)
  qed
qed

definition example_trade :: "int \<Rightarrow> instant \<Rightarrow> trade_tick" where
  "example_trade seq tm =
     \<lparr>tt_provider = ''kis'', tt_symbol = ''005930'', tt_market = KR, tt_currency = KRW, tt_price = 70000,
      tt_quantity = 1, tt_trade_at = tm, tt_received_at = tm,
      tt_provider_sequence = \<lparr>sq_provider = ''kis'', sq_channel = ''trade'', sq_sequence = seq, sq_received_at = tm\<rparr>,
      tt_cumulative_volume = None\<rparr>"

theorem apply_event_monotone_witness:
  "\<exists>s' res. apply_event ((new_latest_store DEFAULT_MAX_AGE)\<lparr>st_trade := [(KR, ''005930'') \<mapsto> example_trade 1 5]\<rparr>)
       (Trade_Event (example_trade 2 6)) 7 = Inr (s', res) \<and> store_current 7 s' \<and>
     st_max_age s' = DEFAULT_MAX_AGE"
proof -
  let ?s = "(new_latest_store DEFAULT_MAX_AGE)\<lparr>st_trade := [(KR, ''005930'') \<mapsto> example_trade 1 5]\<rparr>"
  have "store_current 5 ?s"
    by (simp add: store_current_def slots_current_def new_latest_store_def example_trade_def trade_view_def)
  moreover obtain s' res where "apply_event ?s (Trade_Event (example_trade 2 6)) 7 = Inr (s', res)"
    by (simp add: apply_event_def apply_market_def example_trade_def trade_view_def new_latest_store_def)
  ultimately show ?thesis
    using apply_event_monotone [of 5 ?s 7 "Trade_Event (example_trade 2 6)"]
    by (auto simp: new_latest_store_def)
qed

text \<open>
  Freshness. What \<open>require_fresh\<close> returns is the current slots of the instrument, every
  required slot filled, with an event that is not from the future and at most the policy's age
  old; otherwise it raises, missing before stale for each required slot.
\<close>

theorem require_fresh_sound:
  assumes "require_fresh s m symbol now required = Inr snap"
  shows "snap = peek s m symbol now \<and>
    (TRADE \<in> set required \<longrightarrow> (\<exists>t. st_trade s (m, symbol) = Some t \<and> ls_trade snap = Some t \<and>
       0 \<le> now - tt_trade_at t \<and> now - tt_trade_at t \<le> st_max_age s)) \<and>
    (BEST_BID_ASK \<in> set required \<longrightarrow> (\<exists>q. st_quote s (m, symbol) = Some q \<and> ls_quote snap = Some q \<and>
       0 \<le> now - ba_quote_at q \<and> now - ba_quote_at q \<le> st_max_age s))"
proof -
  have all: "traverse f xs = Inr ys \<Longrightarrow> x \<in> set xs \<Longrightarrow> \<exists>y. f x = Inr y"
    for f :: "market_event_type \<Rightarrow> market_state_error + unit" and xs ys x
    by (induction xs arbitrary: ys) (auto simp: rbind_Inr_iff)
  from assms have snap: "snap = peek s m symbol now" and trav: "traverse (\<lambda>ty. if ty = TRADE
      then require_slot (ls_trade snap) (ls_trade_fresh snap)
      else require_slot (ls_quote snap) (ls_quote_fresh snap)) required \<noteq> Inl e" for e
    by (auto simp: require_fresh_def Let_def rbind_Inr_iff split: if_splits)
  obtain ys where ys: "traverse (\<lambda>ty. if ty = TRADE
      then require_slot (ls_trade snap) (ls_trade_fresh snap)
      else require_slot (ls_quote snap) (ls_quote_fresh snap)) required = Inr ys"
    using trav by (cases "traverse (\<lambda>ty. if ty = TRADE
      then require_slot (ls_trade snap) (ls_trade_fresh snap)
      else require_slot (ls_quote snap) (ls_quote_fresh snap)) required") auto
  show ?thesis
    using all [OF ys, of TRADE] all [OF ys, of BEST_BID_ASK]
    by (auto simp: snap peek_def require_slot_def is_fresh_def Let_def split: option.splits if_splits)
qed

theorem require_fresh_sound_witness:
  "require_fresh ((new_latest_store DEFAULT_MAX_AGE)\<lparr>st_trade := [(KR, ''005930'') \<mapsto> example_trade 1 5]\<rparr>)
     KR ''005930'' 7 [TRADE] =
   Inr (peek ((new_latest_store DEFAULT_MAX_AGE)\<lparr>st_trade := [(KR, ''005930'') \<mapsto> example_trade 1 5]\<rparr>)
     KR ''005930'' 7)"
proof -
  let ?s = "(new_latest_store DEFAULT_MAX_AGE)\<lparr>st_trade := [(KR, ''005930'') \<mapsto> example_trade 1 5]\<rparr>"
  obtain snap where "require_fresh ?s KR ''005930'' 7 [TRADE] = Inr snap"
    by (simp add: require_fresh_def peek_def require_slot_def is_fresh_def new_latest_store_def
        example_trade_def DEFAULT_MAX_AGE_def)
  with require_fresh_sound [OF this] show ?thesis by simp
qed

end
