(* ===== verification/Rolling_Window.thy ===== *)
theory Rolling_Window
  imports Market_State
begin

text \<open>
  The bounded trade history of \<^verbatim>\<open>src/src/market_data/rolling_window.py\<close>: the retention policy,
  the per-symbol state, \<open>observe\<close>, \<open>reset_stream_history\<close> and \<open>peek_history\<close>. It is shown to
  refine an unbounded log of the current epoch: the retained samples are a suffix of the log and
  the eviction counters say exactly which prefix is gone.
\<close>

section \<open>Retention policy and samples\<close>

text \<open>A \<^verbatim>\<open>timedelta\<close> holds at most 999999999 days, 23:59:59.999999.\<close>

definition MAX_TIMEDELTA :: int where
  "MAX_TIMEDELTA = 1000000000 * 86400000000 - 1"

definition to_micros :: "decimal \<Rightarrow> int" where
  "to_micros seconds = round_half_even (dmul seconds 1000000)"

definition validate_whole_micro_decimal :: "decimal \<Rightarrow> decimal result" where
  "validate_whole_micro_decimal v =
     (if v \<le> 0 then Inl (ValueError ''must be a finite Decimal > 0.'')
      else let micros = dmul v 1000000
           in if micros \<noteq> of_int (round_half_even micros)
              then Inl (ValueError ''must be representable in whole microseconds.'')
              else if MAX_TIMEDELTA < round_half_even micros
              then Inl (ValueError ''is out of timedelta range.'')
              else Inr v)"

record retention_policy =
  rp_hard_max_events :: int
  rp_hard_max_age_seconds :: decimal

definition mk_RollingRetentionPolicy :: "int \<Rightarrow> decimal \<Rightarrow> retention_policy result" where
  "mk_RollingRetentionPolicy events seconds =
     (if events < 1 then Inl (ValueError ''hard_max_events must be >= 1.'')
      else rbind (validate_whole_micro_decimal seconds) (\<lambda>s.
        Inr \<lparr>rp_hard_max_events = events, rp_hard_max_age_seconds = s\<rparr>))"

definition hard_max_age :: "retention_policy \<Rightarrow> int" where
  "hard_max_age p = to_micros (rp_hard_max_age_seconds p)"

record trade_sample =
  sm_price :: decimal
  sm_quantity :: decimal
  sm_trade_at :: instant
  sm_received_at :: instant
  sm_sequence :: int

datatype epoch_start_reason = INITIAL | EXPLICIT_RESET

datatype observe_status = RO_APPLIED | RO_DUPLICATE | RO_OUT_OF_ORDER | RO_STREAM_MISMATCH

record observe_result =
  ro_status :: observe_status
  ro_reason :: "string option"

record symbol_state =
  hs_provider :: "string option"
  hs_channel :: "string option"
  hs_samples :: "trade_sample list"
  hs_was_ever_observed :: bool
  hs_continuity_epoch :: int
  hs_epoch_start_reason :: epoch_start_reason
  hs_evicted_event_count :: int
  hs_evicted_through :: "instant option"
  hs_last_sequence :: "int option"
  hs_last_event_time :: "instant option"
  hs_last_received_at :: "instant option"

record history_snapshot =
  hh_market :: market
  hh_symbol :: string
  hh_samples :: "trade_sample list"
  hh_retention :: retention_policy
  hh_provider :: "string option"
  hh_channel :: "string option"
  hh_was_ever_observed :: bool
  hh_continuity_epoch :: int
  hh_epoch_start_reason :: epoch_start_reason
  hh_latest_sequence :: "int option"
  hh_latest_event_time :: "instant option"
  hh_latest_received_at :: "instant option"
  hh_oldest_event_time :: "instant option"
  hh_evicted_event_count :: int
  hh_evicted_through :: "instant option"
  hh_retention_truncated :: bool

section \<open>Operations\<close>

text \<open>The two eviction loops of \<^verbatim>\<open>_truncate\<close>.\<close>

definition pop_oldest :: "symbol_state \<Rightarrow> trade_sample \<Rightarrow> trade_sample list \<Rightarrow> symbol_state" where
  "pop_oldest st removed rest =
     st\<lparr>hs_samples := rest, hs_evicted_event_count := hs_evicted_event_count st + 1,
        hs_evicted_through := Some (sm_trade_at removed)\<rparr>"

lemma pop_oldest_samples [simp]: "hs_samples (pop_oldest st removed rest) = rest"
  by (simp add: pop_oldest_def)

function truncate_count :: "int \<Rightarrow> symbol_state \<Rightarrow> symbol_state" where
  "truncate_count cap st =
     (case hs_samples st of
        [] \<Rightarrow> st
      | removed # rest \<Rightarrow>
          if cap < int (length (removed # rest)) then truncate_count cap (pop_oldest st removed rest) else st)"
  by pat_completeness auto
termination
  by (relation "measure (\<lambda>(_, st). length (hs_samples st))") auto

function truncate_age :: "instant \<Rightarrow> symbol_state \<Rightarrow> symbol_state" where
  "truncate_age cutoff st =
     (case hs_samples st of
        [] \<Rightarrow> st
      | removed # rest \<Rightarrow>
          if rest \<noteq> [] \<and> sm_trade_at removed < cutoff
          then truncate_age cutoff (pop_oldest st removed rest) else st)"
  by pat_completeness auto
termination
  by (relation "measure (\<lambda>(_, st). length (hs_samples st))") auto

declare truncate_count.simps [simp del] truncate_age.simps [simp del]

definition truncate_history :: "retention_policy \<Rightarrow> symbol_state \<Rightarrow> symbol_state" where
  "truncate_history p st =
     (let st1 = truncate_count (rp_hard_max_events p) st
      in if hs_samples st1 = [] then st1
         else truncate_age (sm_trade_at (last (hs_samples st1)) - hard_max_age p) st1)"

definition initial_state :: "retention_policy \<Rightarrow> string \<times> string \<Rightarrow> trade_sample \<Rightarrow> symbol_state" where
  "initial_state p stream sample =
     truncate_history p
       \<lparr>hs_provider = Some (fst stream), hs_channel = Some (snd stream), hs_samples = [sample],
        hs_was_ever_observed = True, hs_continuity_epoch = 1, hs_epoch_start_reason = INITIAL,
        hs_evicted_event_count = 0, hs_evicted_through = None,
        hs_last_sequence = Some (sm_sequence sample), hs_last_event_time = Some (sm_trade_at sample),
        hs_last_received_at = Some (sm_received_at sample)\<rparr>"

definition adopt_after_reset ::
  "retention_policy \<Rightarrow> symbol_state \<Rightarrow> string \<times> string \<Rightarrow> trade_sample \<Rightarrow> symbol_state" where
  "adopt_after_reset p st stream sample =
     truncate_history p
       (st\<lparr>hs_provider := Some (fst stream), hs_channel := Some (snd stream), hs_samples := [sample],
          hs_last_sequence := Some (sm_sequence sample), hs_last_event_time := Some (sm_trade_at sample),
          hs_last_received_at := Some (sm_received_at sample)\<rparr>)"

definition append_sample :: "retention_policy \<Rightarrow> symbol_state \<Rightarrow> trade_sample \<Rightarrow> symbol_state" where
  "append_sample p st sample =
     truncate_history p
       (st\<lparr>hs_samples := hs_samples st @ [sample],
          hs_last_sequence := Some (sm_sequence sample), hs_last_event_time := Some (sm_trade_at sample),
          hs_last_received_at := Some (sm_received_at sample)\<rparr>)"

type_synonym history_store = "market \<times> string \<Rightarrow> symbol_state option"

definition tick_stream :: "trade_tick \<Rightarrow> string \<times> string" where
  "tick_stream t = (sq_provider (tt_provider_sequence t), sq_channel (tt_provider_sequence t))"

definition tick_sample :: "trade_tick \<Rightarrow> trade_sample" where
  "tick_sample t =
     \<lparr>sm_price = tt_price t, sm_quantity = tt_quantity t, sm_trade_at = tt_trade_at t,
      sm_received_at = tt_received_at t, sm_sequence = sq_sequence (tt_provider_sequence t)\<rparr>"

definition observe ::
  "retention_policy \<Rightarrow> history_store \<Rightarrow> trade_tick \<Rightarrow> instant \<Rightarrow> (history_store \<times> observe_result) result" where
  "observe p store tick now =
     (let answer = (\<lambda>status reason. \<lparr>ro_status = status, ro_reason = reason\<rparr>);
          key = (tt_market tick, tt_symbol tick);
          stream = tick_stream tick;
          sample = tick_sample tick
      in if now < tt_trade_at tick \<or> now < tt_received_at tick
         then Inr (store, answer RO_OUT_OF_ORDER (Some ''future event''))
         else case store key of
           None \<Rightarrow> Inr (store(key \<mapsto> initial_state p stream sample), answer RO_APPLIED None)
         | Some st \<Rightarrow>
             if hs_provider st = None \<and> hs_channel st = None
             then Inr (store(key \<mapsto> adopt_after_reset p st stream sample), answer RO_APPLIED None)
             else if (hs_provider st, hs_channel st) \<noteq> (Some (fst stream), Some (snd stream))
             then Inr (store, answer RO_STREAM_MISMATCH (Some ''stream identity differs from current epoch''))
             else
               rbind (require (AssertionError ''last_sequence'') (hs_last_sequence st)) (\<lambda>last_sequence.
               if sm_sequence sample = last_sequence
               then Inr (store, answer RO_DUPLICATE (Some ''duplicate sequence''))
               else if sm_sequence sample < last_sequence
               then Inr (store, answer RO_OUT_OF_ORDER (Some ''decreasing sequence''))
               else
               rbind (require (AssertionError ''last_received_at'') (hs_last_received_at st)) (\<lambda>last_received_at.
               if sm_received_at sample < last_received_at
               then Inr (store, answer RO_OUT_OF_ORDER (Some ''received_at regression''))
               else
               rbind (require (AssertionError ''last_event_time'') (hs_last_event_time st)) (\<lambda>last_event_time.
               if sm_trade_at sample < last_event_time
               then Inr (store, answer RO_OUT_OF_ORDER (Some ''event time regression''))
               else Inr (store(key \<mapsto> append_sample p st sample), answer RO_APPLIED None)))))"

definition reset_state :: "symbol_state \<Rightarrow> symbol_state" where
  "reset_state st =
     st\<lparr>hs_samples := [], hs_provider := None, hs_channel := None,
        hs_continuity_epoch := hs_continuity_epoch st + 1, hs_epoch_start_reason := EXPLICIT_RESET,
        hs_evicted_event_count := 0, hs_evicted_through := None, hs_last_sequence := None,
        hs_last_event_time := None, hs_last_received_at := None\<rparr>"

definition reset_stream_history :: "history_store \<Rightarrow> string \<Rightarrow> string \<Rightarrow> history_store" where
  "reset_stream_history store provider channel k =
     map_option (\<lambda>st. if (hs_provider st, hs_channel st) = (Some provider, Some channel)
                      then reset_state st else st) (store k)"

definition peek_history :: "retention_policy \<Rightarrow> history_store \<Rightarrow> market \<Rightarrow> string \<Rightarrow> history_snapshot" where
  "peek_history p store m symbol =
     (case store (m, symbol) of
        None \<Rightarrow>
          \<lparr>hh_market = m, hh_symbol = symbol, hh_samples = [], hh_retention = p, hh_provider = None,
           hh_channel = None, hh_was_ever_observed = False, hh_continuity_epoch = 0,
           hh_epoch_start_reason = INITIAL, hh_latest_sequence = None, hh_latest_event_time = None,
           hh_latest_received_at = None, hh_oldest_event_time = None, hh_evicted_event_count = 0,
           hh_evicted_through = None, hh_retention_truncated = False\<rparr>
      | Some st \<Rightarrow>
          \<lparr>hh_market = m, hh_symbol = symbol, hh_samples = hs_samples st, hh_retention = p,
           hh_provider = hs_provider st, hh_channel = hs_channel st,
           hh_was_ever_observed = hs_was_ever_observed st,
           hh_continuity_epoch = hs_continuity_epoch st,
           hh_epoch_start_reason = hs_epoch_start_reason st,
           hh_latest_sequence = hs_last_sequence st, hh_latest_event_time = hs_last_event_time st,
           hh_latest_received_at = hs_last_received_at st,
           hh_oldest_event_time = (case hs_samples st of [] \<Rightarrow> None | s # _ \<Rightarrow> Some (sm_trade_at s)),
           hh_evicted_event_count = hs_evicted_event_count st,
           hh_evicted_through = hs_evicted_through st,
           hh_retention_truncated = (0 < hs_evicted_event_count st)\<rparr>)"

section \<open>Truncation evicts a prefix\<close>

definition evict :: "nat \<Rightarrow> symbol_state \<Rightarrow> symbol_state" where
  "evict k st =
     st\<lparr>hs_samples := drop k (hs_samples st), hs_evicted_event_count := hs_evicted_event_count st + int k,
        hs_evicted_through :=
          (if k = 0 then hs_evicted_through st else Some (sm_trade_at (hs_samples st ! (k - 1))))\<rparr>"

lemma evict_0 [simp]: "evict 0 st = st"
  by (simp add: evict_def)

lemma evict_pop:
  "hs_samples st = removed # rest \<Longrightarrow> evict k (pop_oldest st removed rest) = evict (Suc k) st"
  by (cases k) (simp_all add: evict_def pop_oldest_def)

lemma evict_evict:
  "k \<le> length (hs_samples st) \<Longrightarrow> j \<le> length (hs_samples st) - k \<Longrightarrow> evict j (evict k st) = evict (k + j) st"
  by (auto simp: evict_def add.commute)

lemma truncate_count_eq:
  "0 \<le> cap \<Longrightarrow> truncate_count cap st = evict (length (hs_samples st) - nat cap) st"
proof (induction cap st rule: truncate_count.induct)
  case (1 cap st)
  show ?case
  proof (cases "hs_samples st")
    case Nil
    then show ?thesis by (simp add: truncate_count.simps)
  next
    case (Cons removed rest)
    show ?thesis
    proof (cases "cap < int (length (removed # rest))")
      case True
      then have "length (removed # rest) - nat cap = Suc (length rest - nat cap)" by auto
      with True 1 Cons show ?thesis
        by (subst truncate_count.simps) (simp add: evict_pop)
    next
      case False
      with Cons show ?thesis by (subst truncate_count.simps) simp
    qed
  qed
qed

lemma truncate_age_eq:
  "truncate_age cutoff st =
     evict (length (takeWhile (\<lambda>s. sm_trade_at s < cutoff) (butlast (hs_samples st)))) st"
proof (induction cutoff st rule: truncate_age.induct)
  case (1 cutoff st)
  show ?case
  proof (cases "hs_samples st")
    case Nil
    then show ?thesis by (simp add: truncate_age.simps)
  next
    case (Cons removed rest)
    with 1 show ?thesis
      by (subst truncate_age.simps) (simp add: evict_pop)
  qed
qed

section \<open>The unbounded log of an epoch\<close>

text \<open>
  \<open>tracks full k st\<close>: the state holds the log without its first \<open>k\<close> samples and says so.
  \<open>retains\<close> adds which samples may be gone: a sample is evicted only if it is not among the
  \<open>hard_max_events\<close> newest or is older than \<open>hard_max_age\<close> before the newest.
\<close>

definition tracks :: "trade_sample list \<Rightarrow> nat \<Rightarrow> symbol_state \<Rightarrow> bool" where
  "tracks full k st \<longleftrightarrow>
     k \<le> length full \<and> hs_samples st = drop k full \<and> hs_evicted_event_count st = int k \<and>
     hs_evicted_through st = (if k = 0 then None else Some (sm_trade_at (full ! (k - 1))))"

definition overflowed :: "retention_policy \<Rightarrow> trade_sample list \<Rightarrow> nat \<Rightarrow> bool" where
  "overflowed p full i \<longleftrightarrow>
     rp_hard_max_events p < int (length full - i) \<or>
     sm_trade_at (full ! i) < sm_trade_at (last full) - hard_max_age p"

definition retains :: "retention_policy \<Rightarrow> trade_sample list \<Rightarrow> symbol_state \<Rightarrow> bool" where
  "retains p full st \<longleftrightarrow>
     (\<exists>k. tracks full k st \<and> (\<forall>i<k. overflowed p full i)) \<and>
     int (length (hs_samples st)) \<le> rp_hard_max_events p \<and>
     (\<forall>s\<in>set (hs_samples st). sm_trade_at (last full) - hard_max_age p \<le> sm_trade_at s) \<and>
     (full \<noteq> [] \<longrightarrow> hs_samples st \<noteq> []) \<and> sorted (map sm_trade_at full) \<and>
     sorted_wrt (<) (map sm_sequence full)"

lemma tracks_evict:
  assumes "tracks full k st" and "j \<le> length full - k"
  shows "tracks full (k + j) (evict j st)"
proof (cases j)
  case (Suc m)
  then have "hs_samples st ! m = full ! (k + m)" using assms by (simp add: tracks_def)
  with Suc assms show ?thesis by (simp add: tracks_def evict_def add.commute)
qed (use assms in simp)

definition log_fields :: "trade_sample list \<Rightarrow> symbol_state \<Rightarrow> bool" where
  "log_fields full st \<longleftrightarrow>
     hs_last_sequence st = (if full = [] then None else Some (sm_sequence (last full))) \<and>
     hs_last_event_time st = (if full = [] then None else Some (sm_trade_at (last full))) \<and>
     hs_last_received_at st = (if full = [] then None else Some (sm_received_at (last full)))"

lemma takeWhile_nth_less: "i < length (takeWhile P xs) \<Longrightarrow> P (xs ! i)"
  by (metis nth_mem set_takeWhileD takeWhile_nth)

lemma retains_truncate:
  assumes t: "tracks full k st" and just: "\<forall>i<k. overflowed p full i"
    and cap: "1 \<le> rp_hard_max_events p" and ne: "k < length full" and age: "0 \<le> hard_max_age p"
    and srt: "sorted (map sm_trade_at full)" "sorted_wrt (<) (map sm_sequence full)"
  shows "retains p full (truncate_history p st)"
proof -
  let ?n = "length full - k"
  define c where "c = ?n - nat (rp_hard_max_events p)"
  let ?st1 = "evict c st"
  let ?cut = "sm_trade_at (last full) - hard_max_age p"
  let ?j = "length (takeWhile (\<lambda>s. sm_trade_at s < ?cut) (butlast (hs_samples ?st1)))"
  have len: "length (hs_samples st) = ?n" using t by (simp add: tracks_def)
  have t1: "tracks full (k + c) ?st1" using t by (rule tracks_evict) (simp add: c_def)
  then have s1: "hs_samples ?st1 = drop (k + c) full" by (simp add: tracks_def)
  have kc: "k + c < length full" using cap ne unfolding c_def by linarith
  have last1: "hs_samples ?st1 \<noteq> []" "last (hs_samples ?st1) = last full" using s1 kc by simp_all
  have j: "?j < length full - (k + c)"
    using kc length_takeWhile_le [of "\<lambda>s. sm_trade_at s < ?cut" "butlast (hs_samples ?st1)"] by (simp add: s1)
  have "truncate_count (rp_hard_max_events p) st = ?st1"
    using cap by (simp add: truncate_count_eq len c_def)
  with last1 have res: "truncate_history p st = evict ?j ?st1"
    by (simp add: truncate_history_def Let_def truncate_age_eq)
  have t2: "tracks full (k + c + ?j) (truncate_history p st)"
    unfolding res by (rule tracks_evict [OF t1]) (use j in simp)
  then have s2: "hs_samples (truncate_history p st) = drop (k + c + ?j) full" by (simp add: tracks_def)
  have over: "overflowed p full i" if "i < k + c + ?j" for i
  proof -
    consider "i < k" | "k \<le> i" "i < k + c" | "k + c \<le> i" by linarith
    then show ?thesis
    proof cases
      case 2
      then show ?thesis using cap by (auto simp: overflowed_def c_def)
    next
      case 3
      define m where "m = i - (k + c)"
      have m: "i = k + c + m" "m < ?j" using 3 that by (simp_all add: m_def)
      have "sm_trade_at (butlast (hs_samples ?st1) ! m) < ?cut" using takeWhile_nth_less [OF m(2)] .
      moreover have "butlast (hs_samples ?st1) ! m = full ! i"
        using m j by (simp add: s1 nth_butlast)
      ultimately show ?thesis by (simp add: overflowed_def)
    qed (use just in simp)
  qed
  have young: "?cut \<le> sm_trade_at s" if mem: "s \<in> set (hs_samples (truncate_history p st))" for s
  proof -
    define d where "d = k + c + ?j"
    have first: "?cut \<le> sm_trade_at (full ! d)"
    proof (cases "?j < length (butlast (hs_samples ?st1))")
      case True
      then have "\<not> sm_trade_at (butlast (hs_samples ?st1) ! ?j) < ?cut" by (rule nth_length_takeWhile)
      with True show ?thesis by (simp add: s1 nth_butlast d_def)
    next
      case False
      then have "d = length full - 1" using j by (simp add: s1 d_def)
      moreover have "full ! (length full - 1) = last full" using ne by (subst last_conv_nth) auto
      ultimately show ?thesis using age by simp
    qed
    have "s \<in> set (drop d full)" using mem unfolding s2 d_def .
    then obtain i where "d + i < length full" "s = full ! (d + i)" 
      by (metis add.commute in_set_conv_nth length_drop less_diff_conv less_or_eq_imp_le linorder_not_le
          nth_drop set_drop_subset drop_all list.set(1) empty_iff)
    then show ?thesis using first sorted_nth_mono [OF srt(1), of d "d + i"] by simp
  qed
  show ?thesis
    unfolding retains_def
    using t2 over young srt cap j by (auto simp: s2 c_def)
qed

lemma truncate_other [simp]:
  assumes "1 \<le> rp_hard_max_events p"
  shows "hs_provider (truncate_history p st) = hs_provider st" "hs_channel (truncate_history p st) = hs_channel st"
    "hs_was_ever_observed (truncate_history p st) = hs_was_ever_observed st"
    "hs_continuity_epoch (truncate_history p st) = hs_continuity_epoch st"
    "hs_epoch_start_reason (truncate_history p st) = hs_epoch_start_reason st"
    "log_fields full (truncate_history p st) = log_fields full st"
  using assms by (simp_all add: truncate_history_def Let_def truncate_count_eq truncate_age_eq evict_def log_fields_def)

section \<open>Refinement of the unbounded log\<close>

text \<open>
  The specification keeps, for every instrument, the stream it follows, the number of the epoch
  and all the samples of the epoch, with no bound.
\<close>

record epoch_log =
  el_stream :: "(string \<times> string) option"
  el_epoch :: int
  el_samples :: "trade_sample list"

type_synonym log_store = "market \<times> string \<Rightarrow> epoch_log option"

definition follows :: "trade_sample \<Rightarrow> trade_sample \<Rightarrow> observe_status" where
  "follows old s =
     (if sm_sequence s = sm_sequence old then RO_DUPLICATE
      else if sm_sequence s < sm_sequence old \<or> sm_received_at s < sm_received_at old \<or>
        sm_trade_at s < sm_trade_at old then RO_OUT_OF_ORDER
      else RO_APPLIED)"

definition log_observe :: "log_store \<Rightarrow> trade_tick \<Rightarrow> instant \<Rightarrow> log_store \<times> observe_status" where
  "log_observe logs tick now =
     (let key = (tt_market tick, tt_symbol tick); s = tick_sample tick
      in if now < tt_trade_at tick \<or> now < tt_received_at tick then (logs, RO_OUT_OF_ORDER)
         else case logs key of
           None \<Rightarrow> (logs(key \<mapsto> \<lparr>el_stream = Some (tick_stream tick), el_epoch = 1, el_samples = [s]\<rparr>), RO_APPLIED)
         | Some l \<Rightarrow>
             (case el_stream l of
                None \<Rightarrow> (logs(key \<mapsto> l\<lparr>el_stream := Some (tick_stream tick), el_samples := [s]\<rparr>), RO_APPLIED)
              | Some stream \<Rightarrow>
                  if stream \<noteq> tick_stream tick then (logs, RO_STREAM_MISMATCH)
                  else if follows (last (el_samples l)) s = RO_APPLIED
                  then (logs(key \<mapsto> l\<lparr>el_samples := el_samples l @ [s]\<rparr>), RO_APPLIED)
                  else (logs, follows (last (el_samples l)) s)))"

definition log_reset :: "log_store \<Rightarrow> string \<Rightarrow> string \<Rightarrow> log_store" where
  "log_reset logs provider channel k =
     map_option (\<lambda>l. if el_stream l = Some (provider, channel)
                     then l\<lparr>el_stream := None, el_epoch := el_epoch l + 1, el_samples := []\<rparr> else l) (logs k)"

definition state_rel :: "retention_policy \<Rightarrow> symbol_state \<Rightarrow> epoch_log \<Rightarrow> bool" where
  "state_rel p st l \<longleftrightarrow>
     retains p (el_samples l) st \<and> log_fields (el_samples l) st \<and>
     hs_provider st = map_option fst (el_stream l) \<and> hs_channel st = map_option snd (el_stream l) \<and>
     (el_stream l = None \<longleftrightarrow> el_samples l = []) \<and> hs_was_ever_observed st \<and>
     hs_continuity_epoch st = el_epoch l \<and> 1 \<le> el_epoch l \<and>
     hs_epoch_start_reason st = (if el_epoch l = 1 then INITIAL else EXPLICIT_RESET)"

definition policy_ok :: "retention_policy \<Rightarrow> bool" where
  "policy_ok p \<longleftrightarrow> 1 \<le> rp_hard_max_events p \<and> 0 \<le> hard_max_age p"

lemma to_micros_nonneg: "0 \<le> v \<Longrightarrow> 0 \<le> to_micros v"
  by (simp add: to_micros_def round_half_even_ge dmul_nonneg)

lemma mk_policy_ok: "mk_RollingRetentionPolicy n v = Inr p \<Longrightarrow> policy_ok p"
  by (auto simp: mk_RollingRetentionPolicy_def validate_whole_micro_decimal_def policy_ok_def hard_max_age_def
      rbind_Inr_iff Let_def to_micros_nonneg split: if_splits)

lemma retains_single:
  assumes "policy_ok p" and "hs_samples st = [s]" "hs_evicted_event_count st = 0" "hs_evicted_through st = None"
  shows "retains p [s] (truncate_history p st)"
  by (rule retains_truncate [where k = 0]) (use assms in \<open>simp_all add: tracks_def policy_ok_def\<close>)

lemma retains_append:
  assumes "policy_ok p" and "retains p full st" and "full \<noteq> []" and "follows (last full) s = RO_APPLIED"
    and st': "hs_samples st' = hs_samples st @ [s]" "hs_evicted_event_count st' = hs_evicted_event_count st"
      "hs_evicted_through st' = hs_evicted_through st"
  shows "retains p (full @ [s]) (truncate_history p st')"
proof -
  obtain k where k: "tracks full k st" "\<forall>i<k. overflowed p full i"
    using assms(2) by (auto simp: retains_def)
  have le: "sm_trade_at (last full) \<le> sm_trade_at s" "sm_sequence (last full) < sm_sequence s"
    using assms(4) by (auto simp: follows_def split: if_splits)
  have full: "full = butlast full @ [last full]" using assms(3) by simp
  have srt: "sorted (map sm_trade_at full)" "sorted_wrt (<) (map sm_sequence full)"
    using assms(2) by (simp_all add: retains_def)
  have "sorted (map sm_trade_at (full @ [s]))"
    using srt(1) le(1) by (subst (asm) full, subst full) (fastforce simp: sorted_append)
  moreover have "sorted_wrt (<) (map sm_sequence (full @ [s]))"
    using srt(2) le(2) by (subst (asm) full, subst full) (fastforce simp: sorted_wrt_append)
  moreover have "tracks (full @ [s]) k st'"
    using k(1) st' by (auto simp: tracks_def nth_append)
  moreover have "\<forall>i<k. overflowed p (full @ [s]) i"
    using k le(1) by (auto simp: overflowed_def tracks_def nth_append)
  ultimately show ?thesis
    using assms(1) k(1) by (intro retains_truncate) (auto simp: policy_ok_def tracks_def)
qed

lemma initial_state_rel:
  "policy_ok p \<Longrightarrow> state_rel p (initial_state p stream s) \<lparr>el_stream = Some stream, el_epoch = 1, el_samples = [s]\<rparr>"
  by (simp add: state_rel_def initial_state_def retains_single policy_ok_def) (simp add: log_fields_def)

lemma adopt_rel:
  assumes "policy_ok p" and "state_rel p st l" and "el_stream l = None"
  shows "state_rel p (adopt_after_reset p st stream s) (l\<lparr>el_stream := Some stream, el_samples := [s]\<rparr>)"
proof -
  have "hs_evicted_event_count st = 0" "hs_evicted_through st = None"
    using assms by (auto simp: state_rel_def retains_def tracks_def)
  then have "retains p [s] (adopt_after_reset p st stream s)"
    unfolding adopt_after_reset_def using assms(1) by (intro retains_single) simp_all
  with assms show ?thesis
    by (simp add: state_rel_def adopt_after_reset_def policy_ok_def) (simp add: log_fields_def)
qed

lemma append_rel:
  assumes "policy_ok p" and "state_rel p st l" and "el_stream l = Some stream"
    and "follows (last (el_samples l)) s = RO_APPLIED"
  shows "state_rel p (append_sample p st s) (l\<lparr>el_samples := el_samples l @ [s]\<rparr>)"
proof -
  have "retains p (el_samples l @ [s]) (append_sample p st s)"
    unfolding append_sample_def using assms by (intro retains_append) (auto simp: state_rel_def)
  with assms show ?thesis
    by (simp add: state_rel_def append_sample_def policy_ok_def) (simp add: log_fields_def)
qed

lemma reset_rel:
  "policy_ok p \<Longrightarrow> state_rel p st l \<Longrightarrow>
   state_rel p (reset_state st) (l\<lparr>el_stream := None, el_epoch := el_epoch l + 1, el_samples := []\<rparr>)"
  by (simp add: state_rel_def reset_state_def retains_def tracks_def log_fields_def policy_ok_def)

definition store_rel :: "retention_policy \<Rightarrow> history_store \<Rightarrow> log_store \<Rightarrow> bool" where
  "store_rel p store logs \<longleftrightarrow> (\<forall>k. rel_option (state_rel p) (store k) (logs k))"

lemma store_rel_update:
  "store_rel p store logs \<Longrightarrow> state_rel p st l \<Longrightarrow> store_rel p (store(k \<mapsto> st)) (logs(k \<mapsto> l))"
  by (simp add: store_rel_def)

lemma observe_refines:
  assumes "policy_ok p" and rel: "store_rel p store logs"
  shows "\<exists>store' r. observe p store tick now = Inr (store', r) \<and>
    store_rel p store' (fst (log_observe logs tick now)) \<and> ro_status r = snd (log_observe logs tick now)"
proof (cases "now < tt_trade_at tick \<or> now < tt_received_at tick")
  case True
  with rel show ?thesis by (simp add: observe_def log_observe_def Let_def)
next
  case now: False
  let ?k = "(tt_market tick, tt_symbol tick)"
  have "rel_option (state_rel p) (store ?k) (logs ?k)" using rel by (simp add: store_rel_def)
  then consider "store ?k = None" "logs ?k = None"
    | st l where "store ?k = Some st" "logs ?k = Some l" "state_rel p st l"
    by (cases rule: option.rel_cases) auto
  then show ?thesis
  proof cases
    case 1
    with now show ?thesis
      by (simp add: observe_def log_observe_def store_rel_update [OF rel] initial_state_rel [OF assms(1)])
  next
    case 2
    note st = this
    show ?thesis
    proof (cases "el_stream l")
      case None
      moreover have "hs_provider st = None" "hs_channel st = None"
        using None st(3) by (simp_all add: state_rel_def)
      ultimately show ?thesis using st now
        by (simp add: observe_def log_observe_def store_rel_update [OF rel] adopt_rel [OF assms(1)])
    next
      case (Some stream)
      have f: "hs_provider st = Some (fst stream)" "hs_channel st = Some (snd stream)"
        "hs_last_sequence st = Some (sm_sequence (last (el_samples l)))"
        "hs_last_event_time st = Some (sm_trade_at (last (el_samples l)))"
        "hs_last_received_at st = Some (sm_received_at (last (el_samples l)))"
        using st(3) Some by (auto simp: state_rel_def log_fields_def)
      note app = store_rel_update [OF rel append_rel [OF assms(1) st(3) Some]]
      show ?thesis
      proof (cases "stream = tick_stream tick")
        case mine: True
        show ?thesis
        proof (cases "follows (last (el_samples l)) (tick_sample tick) = RO_APPLIED")
          case True
          then have "\<not> sm_sequence (tick_sample tick) < sm_sequence (last (el_samples l))"
            "sm_sequence (tick_sample tick) \<noteq> sm_sequence (last (el_samples l))"
            "\<not> sm_received_at (tick_sample tick) < sm_received_at (last (el_samples l))"
            "\<not> sm_trade_at (tick_sample tick) < sm_trade_at (last (el_samples l))"
            by (simp_all add: follows_def split: if_splits)
          with True show ?thesis using st now Some app [OF True, of ?k]
            by (simp add: observe_def log_observe_def f mine)
        next
          case False
          then show ?thesis using st now Some rel
            by (auto simp: observe_def log_observe_def f mine follows_def Let_def split: if_splits)
        qed
      next
        case False
        with st now Some rel show ?thesis
          by (simp add: observe_def log_observe_def f prod_eq_iff)
      qed
    qed
  qed
qed

lemma reset_stream_history_refines:
  assumes "policy_ok p" and "store_rel p store logs"
  shows "store_rel p (reset_stream_history store provider channel) (log_reset logs provider channel)"
  unfolding store_rel_def
proof
  fix k
  have "rel_option (state_rel p) (store k) (logs k)" using assms(2) unfolding store_rel_def by blast
  then show "rel_option (state_rel p) (reset_stream_history store provider channel k) (log_reset logs provider channel k)"
  proof (cases rule: option.rel_cases)
    case (Some st l)
    have "(hs_provider st, hs_channel st) = (Some provider, Some channel) \<longleftrightarrow> el_stream l = Some (provider, channel)"
      using Some(3) by (auto simp: state_rel_def)
    with Some show ?thesis
      by (auto simp: reset_stream_history_def log_reset_def reset_rel [OF assms(1)])
  qed (simp add: reset_stream_history_def log_reset_def)
qed

section \<open>Runs of the store\<close>

datatype history_op = Observe_Tick trade_tick instant | Reset_Stream string string

fun run_history :: "retention_policy \<Rightarrow> history_store \<Rightarrow> history_op list \<Rightarrow> history_store result" where
  "run_history p store [] = Inr store"
| "run_history p store (Observe_Tick tick now # ops) =
     rbind (observe p store tick now) (\<lambda>(store', _). run_history p store' ops)"
| "run_history p store (Reset_Stream provider channel # ops) =
     run_history p (reset_stream_history store provider channel) ops"

fun run_log :: "log_store \<Rightarrow> history_op list \<Rightarrow> log_store" where
  "run_log logs [] = logs"
| "run_log logs (Observe_Tick tick now # ops) = run_log (fst (log_observe logs tick now)) ops"
| "run_log logs (Reset_Stream provider channel # ops) = run_log (log_reset logs provider channel) ops"

lemma run_history_refines:
  assumes "policy_ok p" and "store_rel p store logs"
  shows "\<exists>store'. run_history p store ops = Inr store' \<and> store_rel p store' (run_log logs ops)"
  using assms(2)
proof (induction ops arbitrary: store logs)
  case (Cons op ops)
  show ?case
  proof (cases op)
    case (Observe_Tick tick now)
    then show ?thesis using observe_refines [OF assms(1) Cons.prems, of tick now] Cons.IH by fastforce
  next
    case (Reset_Stream provider channel)
    then show ?thesis using reset_stream_history_refines [OF assms(1) Cons.prems] Cons.IH by simp
  qed
qed simp

lemma state_rel_peek:
  assumes "store (m, symbol) = Some st" and "state_rel p st l"
  defines "snap \<equiv> peek_history p store m symbol" and "k \<equiv> nat (hh_evicted_event_count (peek_history p store m symbol))"
  shows "hh_was_ever_observed snap" "hh_samples snap = drop k (el_samples l)"
    "hh_evicted_event_count snap = int k" "k \<le> length (el_samples l)"
    "hh_evicted_through snap = (if k = 0 then None else Some (sm_trade_at (el_samples l ! (k - 1))))"
    "sorted (map sm_trade_at (el_samples l))" "int (length (hh_samples snap)) \<le> rp_hard_max_events p"
    "el_samples l \<noteq> [] \<longrightarrow> hh_samples snap \<noteq> []" "\<forall>i<k. overflowed p (el_samples l) i"
    "hh_retention snap = p" "hh_latest_event_time snap = hs_last_event_time st"
    "hh_continuity_epoch snap = el_epoch l"
  using assms(2) unfolding snap_def k_def
  by (auto simp: peek_history_def assms(1) state_rel_def retains_def tracks_def)


lemma example_policy: "mk_RollingRetentionPolicy 2 60 = Inr \<lparr>rp_hard_max_events = 2, rp_hard_max_age_seconds = 60\<rparr>"
  by (simp add: mk_RollingRetentionPolicy_def validate_whole_micro_decimal_def dec_defs Let_def MAX_TIMEDELTA_def
      round_half_even_of_int [of 60000000, simplified])


end
