(* ===== verification/Indicators.thy ===== *)
theory Indicators
  imports Rolling_Window "HOL-Library.List_Lexorder" "HOL-Library.Char_ord"
begin

text \<open>
  Rolling-window indicators: \<^verbatim>\<open>src/src/market_data/indicators.py\<close>. The window policy with its
  validators, window selection and readiness, the four indicators and the context handed to the
  trigger engine. \<open>window_hash\<close>, a parameter, is the SHA-256 of the canonical JSON of a window
  payload.
\<close>

section \<open>Window policy\<close>

datatype indicator_readiness =
    MISSING | WARMING | DISCONTINUOUS | READY | STALE | FUTURE | INSUFFICIENT_RETENTION

datatype indicator_kind = SMA_PRICE | RETURN_BPS | ROLLING_VOLUME | VWAP

datatype indicator_error = IndicatorNotReadyError string | IndicatorArithmetic exn

record window_spec =
  ws_lookback_events :: "int option"
  ws_lookback_seconds :: "decimal option"
  ws_min_events :: int
  ws_freshness_max_age_seconds :: decimal
  ws_max_gap_seconds :: "decimal option"

definition validate_duration :: "decimal option \<Rightarrow> decimal option result" where
  "validate_duration v =
     (case v of None \<Rightarrow> Inr None
      | Some d \<Rightarrow> rbind (validate_whole_micro_decimal d) (\<lambda>d'. Inr (Some d')))"

definition mk_IndicatorWindowSpec :: "window_spec \<Rightarrow> window_spec result" where
  "mk_IndicatorWindowSpec s =
     rbind (guard (case ws_lookback_events s of None \<Rightarrow> True | Some n \<Rightarrow> 1 \<le> n)
       (ValueError ''lookback_events must be >= 1 when provided.'')) (\<lambda>_.
     rbind (validate_duration (ws_lookback_seconds s)) (\<lambda>_.
     rbind (guard (1 \<le> ws_min_events s) (ValueError ''min_events must be >= 1.'')) (\<lambda>_.
     rbind (validate_duration (Some (ws_freshness_max_age_seconds s))) (\<lambda>_.
     rbind (validate_duration (ws_max_gap_seconds s)) (\<lambda>_.
     if ws_lookback_events s = None \<and> ws_lookback_seconds s = None
     then Inl (ValueError ''at least one of lookback_events or lookback_seconds is required.'')
     else if (case ws_lookback_events s of None \<Rightarrow> False | Some n \<Rightarrow> n < ws_min_events s)
     then Inl (ValueError ''lookback_events must be >= min_events.'')
     else Inr s)))))"

text \<open>
  \<^verbatim>\<open>_canonical_decimal\<close> is \<^verbatim>\<open>Decimal.normalize\<close>, which rounds to the context: two
  decimals have the same text exactly when their rounded values are equal.
\<close>

definition canonical_decimal :: "decimal option \<Rightarrow> decimal option" where
  "canonical_decimal v = map_option rnd v"

definition canonical_window_payload :: "window_spec \<Rightarrow> window_spec" where
  "canonical_window_payload s =
     \<lparr>ws_lookback_events = ws_lookback_events s,
      ws_lookback_seconds = canonical_decimal (ws_lookback_seconds s),
      ws_min_events = ws_min_events s,
      ws_freshness_max_age_seconds = rnd (ws_freshness_max_age_seconds s),
      ws_max_gap_seconds = canonical_decimal (ws_max_gap_seconds s)\<rparr>"

definition window_id :: "(window_spec \<Rightarrow> string) \<Rightarrow> window_spec \<Rightarrow> string" where
  "window_id window_hash s = window_hash (canonical_window_payload s)"

record window_snapshot =
  iw_window_id :: string
  iw_market :: market
  iw_symbol :: string
  iw_readiness :: indicator_readiness
  iw_selected :: "trade_sample list"
  iw_anchor_event_time :: "instant option"
  iw_latest_event_time :: "instant option"
  iw_oldest_selected_event_time :: "instant option"
  iw_age_seconds :: "decimal option"
  iw_continuity_epoch :: int
  iw_epoch_start_reason :: epoch_start_reason
  iw_provider :: "string option"
  iw_channel :: "string option"
  iw_latest_sequence :: "int option"
  iw_latest_received_at :: "instant option"

section \<open>Window selection and readiness\<close>

definition age_seconds :: "instant \<Rightarrow> instant \<Rightarrow> decimal" where
  "age_seconds now latest = ddiv (of_int (now - latest)) 1000000"

definition count_start :: "window_spec \<Rightarrow> trade_sample list \<Rightarrow> nat" where
  "count_start spec samples =
     (case ws_lookback_events spec of None \<Rightarrow> 0 | Some n \<Rightarrow> nat (max 0 (int (length samples) - n)))"

definition old_edge :: "decimal \<Rightarrow> trade_sample list \<Rightarrow> instant" where
  "old_edge seconds samples = sm_trade_at (last samples) - to_micros seconds"

definition time_start :: "window_spec \<Rightarrow> trade_sample list \<Rightarrow> nat" where
  "time_start spec samples =
     (case ws_lookback_seconds spec of None \<Rightarrow> 0
      | Some seconds \<Rightarrow> length (takeWhile (\<lambda>s. \<not> old_edge seconds samples < sm_trade_at s) samples))"

definition window_evicted :: "window_spec \<Rightarrow> history_snapshot \<Rightarrow> bool" where
  "window_evicted spec history =
     (let samples = hh_samples history;
          time_evicted =
            (case (ws_lookback_seconds spec, hh_evicted_through history) of
               (Some seconds, Some evicted_time) \<Rightarrow> old_edge seconds samples < evicted_time
             | _ \<Rightarrow> False);
          count_evicted =
            (case ws_lookback_events spec of
               Some n \<Rightarrow> int (length samples) < n \<and> 0 < hh_evicted_event_count history
             | None \<Rightarrow> False)
      in if ws_lookback_events spec \<noteq> None \<and> ws_lookback_seconds spec \<noteq> None
         then time_evicted \<and> count_evicted
         else if ws_lookback_seconds spec \<noteq> None then time_evicted
         else count_evicted)"

text \<open>The index at which the search for a gap, from the newest sample backwards, stops; 0 if there is none.\<close>

fun last_gap :: "int \<Rightarrow> trade_sample list \<Rightarrow> nat \<Rightarrow> nat" where
  "last_gap max_gap selected 0 = 0"
| "last_gap max_gap selected (Suc i) =
     (if max_gap < sm_trade_at (selected ! Suc i) - sm_trade_at (selected ! i) then Suc i
      else last_gap max_gap selected i)"

definition gap_cut :: "window_spec \<Rightarrow> trade_sample list \<Rightarrow> nat" where
  "gap_cut spec selected =
     (case ws_max_gap_seconds spec of
        None \<Rightarrow> 0
      | Some g \<Rightarrow> if 2 \<le> length selected then last_gap (to_micros g) selected (length selected - 1) else 0)"

definition static_shortfall :: "window_spec \<Rightarrow> retention_policy \<Rightarrow> bool" where
  "static_shortfall spec retention \<longleftrightarrow>
     (case ws_lookback_events spec of None \<Rightarrow> False | Some n \<Rightarrow> rp_hard_max_events retention < n) \<or>
     (case ws_lookback_seconds spec of None \<Rightarrow> False | Some v \<Rightarrow> rp_hard_max_age_seconds retention < v)"

definition evaluate_window ::
  "(window_spec \<Rightarrow> string) \<Rightarrow> history_snapshot \<Rightarrow> window_spec \<Rightarrow> instant \<Rightarrow> window_snapshot" where
  "evaluate_window window_hash history spec now =
     (let base =
        \<lparr>iw_window_id = window_id window_hash spec, iw_market = hh_market history, iw_symbol = hh_symbol history,
         iw_readiness = MISSING, iw_selected = [], iw_anchor_event_time = None,
         iw_latest_event_time = hh_latest_event_time history, iw_oldest_selected_event_time = None,
         iw_age_seconds = None, iw_continuity_epoch = hh_continuity_epoch history,
         iw_epoch_start_reason = hh_epoch_start_reason history, iw_provider = hh_provider history,
         iw_channel = hh_channel history, iw_latest_sequence = hh_latest_sequence history,
         iw_latest_received_at = hh_latest_received_at history\<rparr>;
        samples = hh_samples history
      in if \<not> hh_was_ever_observed history then base
         else if static_shortfall spec (hh_retention history)
         then base\<lparr>iw_readiness := INSUFFICIENT_RETENTION\<rparr>
         else if samples = [] then base\<lparr>iw_readiness := DISCONTINUOUS\<rparr>
         else let anchor = sm_trade_at (last samples);
                  start = max (count_start spec samples) (time_start spec samples);
                  selected = drop start samples
              in if window_evicted spec history then base\<lparr>iw_readiness := INSUFFICIENT_RETENTION\<rparr>
                 else let cut_at = gap_cut spec selected;
                          gap_present = (cut_at \<noteq> 0);
                          suffix = drop cut_at selected;
                          oldest = (case suffix of [] \<Rightarrow> None | s # _ \<Rightarrow> Some (sm_trade_at s));
                          chosen = base\<lparr>iw_selected := suffix, iw_anchor_event_time := Some anchor,
                            iw_oldest_selected_event_time := oldest\<rparr>
                      in if int (length suffix) < ws_min_events spec
                         then chosen\<lparr>iw_readiness :=
                           (if gap_present \<or> hh_epoch_start_reason history = EXPLICIT_RESET
                            then DISCONTINUOUS else WARMING)\<rparr>
                         else let age = age_seconds now anchor;
                                  aged = chosen\<lparr>iw_age_seconds := Some age\<rparr>
                              in if age < 0 then aged\<lparr>iw_readiness := FUTURE\<rparr>
                                 else if ws_freshness_max_age_seconds spec < age then aged\<lparr>iw_readiness := STALE\<rparr>
                                 else aged\<lparr>iw_readiness := READY\<rparr>)"

section \<open>The indicators\<close>

definition require_ready :: "window_snapshot \<Rightarrow> indicator_error + trade_sample list" where
  "require_ready w =
     (if iw_readiness w \<noteq> READY then Inl (IndicatorNotReadyError ''window not READY.'')
      else if iw_selected w = [] then Inl (IndicatorNotReadyError ''READY window has no samples.'')
      else Inr (iw_selected w))"

definition divide_ind :: "decimal \<Rightarrow> decimal \<Rightarrow> indicator_error + decimal" where
  "divide_ind a b = (case ddiv_r a b of Inl e \<Rightarrow> Inl (IndicatorArithmetic e) | Inr q \<Rightarrow> Inr q)"

definition dsum :: "decimal list \<Rightarrow> decimal" where
  "dsum xs = foldl dadd 0 xs"

definition sma_price :: "window_snapshot \<Rightarrow> indicator_error + decimal" where
  "sma_price w = rbind (require_ready w) (\<lambda>samples.
     divide_ind (dsum (map sm_price samples)) (of_nat (length samples)))"

definition return_bps :: "window_snapshot \<Rightarrow> indicator_error + decimal" where
  "return_bps w = rbind (require_ready w) (\<lambda>samples.
     let oldest = sm_price (hd samples); latest = sm_price (last samples)
     in rbind (divide_ind (dsub latest oldest) oldest) (\<lambda>q. Inr (dmul q 10000)))"

definition rolling_volume :: "window_snapshot \<Rightarrow> indicator_error + decimal" where
  "rolling_volume w = rbind (require_ready w) (\<lambda>samples. Inr (dsum (map sm_quantity samples)))"

definition vwap :: "window_snapshot \<Rightarrow> indicator_error + decimal" where
  "vwap w = rbind (require_ready w) (\<lambda>samples.
     divide_ind (dsum (map (\<lambda>s. dmul (sm_price s) (sm_quantity s)) samples)) (dsum (map sm_quantity samples)))"

definition compute_indicator :: "indicator_kind \<Rightarrow> window_snapshot \<Rightarrow> indicator_error + decimal" where
  "compute_indicator kind w =
     (case kind of SMA_PRICE \<Rightarrow> sma_price w | RETURN_BPS \<Rightarrow> return_bps w
      | ROLLING_VOLUME \<Rightarrow> rolling_volume w | VWAP \<Rightarrow> vwap w)"

section \<open>The context\<close>

record indicator_context =
  cx_market :: market
  cx_symbol :: string
  cx_windows :: "window_snapshot list"
  cx_evaluated_at :: instant

fun check_windows :: "market \<Rightarrow> string \<Rightarrow> string list \<Rightarrow> window_snapshot list \<Rightarrow> unit result" where
  "check_windows m symbol seen [] = Inr ()"
| "check_windows m symbol seen (w # rest) =
     (if iw_window_id w \<in> set seen then Inl (ValueError ''duplicate window_id in IndicatorContext'')
      else if iw_market w \<noteq> m \<or> iw_symbol w \<noteq> symbol
      then Inl (ValueError ''IndicatorContext window market/symbol must match the context.'')
      else check_windows m symbol (iw_window_id w # seen) rest)"

definition mk_IndicatorContext ::
  "market \<Rightarrow> string \<Rightarrow> window_snapshot list \<Rightarrow> instant \<Rightarrow> indicator_context result" where
  "mk_IndicatorContext m symbol windows evaluated_at =
     rbind (check_windows m symbol [] windows) (\<lambda>_.
     Inr \<lparr>cx_market = m, cx_symbol = symbol, cx_windows = sort_key iw_window_id windows,
          cx_evaluated_at = evaluated_at\<rparr>)"

definition context_get :: "indicator_context \<Rightarrow> string \<Rightarrow> window_snapshot option" where
  "context_get c wid = find (\<lambda>w. iw_window_id w = wid) (cx_windows c)"

fun evaluate_specs ::
  "(window_spec \<Rightarrow> string) \<Rightarrow> history_snapshot \<Rightarrow> instant \<Rightarrow> window_snapshot list \<Rightarrow> window_spec list \<Rightarrow>
   window_snapshot list" where
  "evaluate_specs window_hash history now acc [] = acc"
| "evaluate_specs window_hash history now acc (spec # specs) =
     (if window_id window_hash spec \<in> set (map iw_window_id acc)
      then evaluate_specs window_hash history now acc specs
      else evaluate_specs window_hash history now (acc @ [evaluate_window window_hash history spec now]) specs)"

definition build_indicator_context ::
  "(window_spec \<Rightarrow> string) \<Rightarrow> history_snapshot \<Rightarrow> window_spec list \<Rightarrow> instant \<Rightarrow> indicator_context result" where
  "build_indicator_context window_hash history specs now =
     mk_IndicatorContext (hh_market history) (hh_symbol history)
       (evaluate_specs window_hash history now [] specs) now"

section \<open>The window over the whole epoch\<close>

text \<open>
  The window a policy asks for, defined on the unbounded log of the epoch: the samples within
  the last \<open>lookback_events\<close> and newer than \<open>lookback_seconds\<close> before the newest, with no gap
  above \<open>max_gap_seconds\<close> between them and the newest.
\<close>

definition requested :: "window_spec \<Rightarrow> trade_sample list \<Rightarrow> nat \<Rightarrow> bool" where
  "requested spec full i \<longleftrightarrow>
     (case ws_lookback_events spec of None \<Rightarrow> True | Some n \<Rightarrow> int (length full - i) \<le> n) \<and>
     (case ws_lookback_seconds spec of None \<Rightarrow> True | Some v \<Rightarrow> old_edge v full < sm_trade_at (full ! i))"

definition contiguous :: "window_spec \<Rightarrow> trade_sample list \<Rightarrow> nat \<Rightarrow> bool" where
  "contiguous spec full i \<longleftrightarrow>
     (case ws_max_gap_seconds spec of None \<Rightarrow> True
      | Some g \<Rightarrow> \<forall>j. i \<le> j \<and> Suc j < length full \<longrightarrow>
          sm_trade_at (full ! Suc j) - sm_trade_at (full ! j) \<le> to_micros g)"

definition ideal_window :: "window_spec \<Rightarrow> trade_sample list \<Rightarrow> trade_sample list" where
  "ideal_window spec full =
     map ((!) full) (filter (\<lambda>i. requested spec full i \<and> contiguous spec full i) [0..<length full])"

lemma filter_upt_threshold: "(\<And>i. i < n \<Longrightarrow> P i \<longleftrightarrow> d \<le> i) \<Longrightarrow> filter P [0..<n] = [d..<n]"
proof (induction n)
  case (Suc n)
  then show ?case by (cases "d \<le> n") auto
qed simp

lemma map_nth_upt: "map ((!) xs) [d..<length xs] = drop d xs"
  by (rule nth_equalityI) auto

lemma takeWhile_threshold:
  fixes e :: int
  assumes "sorted (map f xs)" and "j < length xs"
  shows "length (takeWhile (\<lambda>x. \<not> e < f x) xs) \<le> j \<longleftrightarrow> e < f (xs ! j)"
proof
  assume le: "length (takeWhile (\<lambda>x. \<not> e < f x) xs) \<le> j"
  then have "length (takeWhile (\<lambda>x. \<not> e < f x) xs) < length xs" using assms(2) by simp
  then have "e < f (xs ! length (takeWhile (\<lambda>x. \<not> e < f x) xs))"
    using nth_length_takeWhile by blast
  also have "\<dots> \<le> f (xs ! j)" using sorted_nth_mono [OF assms(1) le] le assms(2) by simp
  finally show "e < f (xs ! j)" .
next
  assume "e < f (xs ! j)"
  then show "length (takeWhile (\<lambda>x. \<not> e < f x) xs) \<le> j"
    using takeWhile_nth_less [of j "\<lambda>x. \<not> e < f x" xs] by (meson not_le_imp_less)
qed

lemma last_gap_le: "last_gap g xs n \<le> n"
  by (induction n) (auto intro: le_SucI)

lemma last_gap_found: "0 < last_gap g xs n \<Longrightarrow>
  g < sm_trade_at (xs ! last_gap g xs n) - sm_trade_at (xs ! (last_gap g xs n - 1))"
  by (induction n) (auto split: if_splits)

lemma last_gap_after: "last_gap g xs n \<le> j \<Longrightarrow> j < n \<Longrightarrow> sm_trade_at (xs ! Suc j) - sm_trade_at (xs ! j) \<le> g"
proof (induction n)
  case (Suc n)
  then show ?case by (cases "j = n") (auto split: if_splits)
qed simp

lemma requested_upward:
  assumes "sorted (map sm_trade_at full)" and "requested spec full i" and "i \<le> j" and "j < length full"
  shows "requested spec full j"
proof -
  have "sm_trade_at (full ! i) \<le> sm_trade_at (full ! j)"
    using sorted_nth_mono [OF assms(1) assms(3)] assms(3,4) by simp
  with assms show ?thesis by (auto simp: requested_def split: option.splits)
qed

text \<open>
  What the indicators rely on of a bounded history: a snapshot is the log of the epoch without a
  prefix of known length whose newest time is known. The rolling store provides it.
\<close>

locale trade_history =
  fixes ok :: "'s \<Rightarrow> bool"
    and view :: "'s \<Rightarrow> market \<times> string \<Rightarrow> history_snapshot"
    and epoch :: "'s \<Rightarrow> market \<times> string \<Rightarrow> trade_sample list"
  assumes view_samples: "ok s \<Longrightarrow> hh_samples (view s x) = drop (nat (hh_evicted_event_count (view s x))) (epoch s x)"
    and view_count: "ok s \<Longrightarrow> 0 \<le> hh_evicted_event_count (view s x)"
    and view_through: "ok s \<Longrightarrow> hh_evicted_through (view s x) =
          (if hh_evicted_event_count (view s x) = 0 then None
           else Some (sm_trade_at (epoch s x ! (nat (hh_evicted_event_count (view s x)) - 1))))"
    and epoch_sorted: "ok s \<Longrightarrow> sorted (map sm_trade_at (epoch s x))"
begin

definition gone :: "'s \<Rightarrow> market \<times> string \<Rightarrow> nat" where
  "gone s x = nat (hh_evicted_event_count (view s x))"

lemma samples_eq: "ok s \<Longrightarrow> hh_samples (view s x) = drop (gone s x) (epoch s x)"
  using view_samples by (simp add: gone_def)

lemma last_sample:
  "ok s \<Longrightarrow> hh_samples (view s x) \<noteq> [] \<Longrightarrow>
   gone s x < length (epoch s x) \<and> last (hh_samples (view s x)) = last (epoch s x)"
  by (simp add: samples_eq)

text \<open>Retention is reported insufficient exactly when a requested sample is gone.\<close>

lemma window_evicted_iff:
  assumes ok: "ok s" and ne: "hh_samples (view s x) \<noteq> []"
    and lookback: "ws_lookback_events spec \<noteq> None \<or> ws_lookback_seconds spec \<noteq> None"
  shows "window_evicted spec (view s x) \<longleftrightarrow> (\<exists>i<gone s x. requested spec (epoch s x) i)"
proof -
  have k: "gone s x < length (epoch s x)" "last (hh_samples (view s x)) = last (epoch s x)"
    using last_sample [OF ok ne] by simp_all
  have edge: "old_edge v (drop (gone s x) (epoch s x)) = old_edge v (epoch s x)" for v
    using k by (simp add: old_edge_def)
  have count: "hh_evicted_event_count (view s x) = int (gone s x)"
    using view_count [OF ok] by (simp add: gone_def)
  have through: "hh_evicted_through (view s x) =
      (if gone s x = 0 then None else Some (sm_trade_at (epoch s x ! (gone s x - 1))))"
    using view_through [OF ok] count by simp
  have "(\<exists>i<gone s x. requested spec (epoch s x) i) \<longleftrightarrow>
      0 < gone s x \<and> requested spec (epoch s x) (gone s x - 1)"
  proof
    assume "\<exists>i<gone s x. requested spec (epoch s x) i"
    then obtain i where i: "i < gone s x" "requested spec (epoch s x) i" by blast
    have "requested spec (epoch s x) (gone s x - 1)"
      by (rule requested_upward [OF epoch_sorted [OF ok] i(2)]) (use i k in auto)
    with i(1) show "0 < gone s x \<and> requested spec (epoch s x) (gone s x - 1)" by simp
  qed (metis diff_less zero_less_one)
  also have "\<dots> \<longleftrightarrow> window_evicted spec (view s x)"
    using lookback k(1)
    by (auto simp: window_evicted_def Let_def requested_def edge count through samples_eq [OF ok]
        split: option.splits)
  finally show ?thesis by simp
qed

lemma requested_iff_start:
  assumes ok: "ok s" and ne: "hh_samples (view s x) \<noteq> []"
    and none: "\<not> (\<exists>i<gone s x. requested spec (epoch s x) i)" and i: "i < length (epoch s x)"
  defines "samples \<equiv> hh_samples (view s x)"
  shows "requested spec (epoch s x) i \<longleftrightarrow> gone s x + max (count_start spec samples) (time_start spec samples) \<le> i"
proof (cases "i < gone s x")
  case False
  define j where "j = i - gone s x"
  have j: "i = gone s x + j" "j < length samples" using False i by (simp_all add: j_def samples_def samples_eq [OF ok])
  have nth: "samples ! j = epoch s x ! i" using i j by (simp add: samples_def samples_eq [OF ok])
  have edge: "old_edge v samples = old_edge v (epoch s x)" for v
    using last_sample [OF ok ne] by (simp add: old_edge_def samples_def)
  have srt: "sorted (map sm_trade_at samples)"
    using epoch_sorted [OF ok] by (simp add: samples_def samples_eq [OF ok] drop_map [symmetric] sorted_wrt_drop)
  have "count_start spec samples \<le> j \<longleftrightarrow>
      (case ws_lookback_events spec of None \<Rightarrow> True | Some n \<Rightarrow> int (length (epoch s x) - i) \<le> n)"
    using i j by (auto simp: count_start_def samples_def samples_eq [OF ok] split: option.splits)
  moreover have "time_start spec samples \<le> j \<longleftrightarrow>
      (case ws_lookback_seconds spec of None \<Rightarrow> True | Some v \<Rightarrow> old_edge v (epoch s x) < sm_trade_at (epoch s x ! i))"
    by (simp add: time_start_def edge takeWhile_threshold [OF srt j(2)] nth split: option.splits)
  moreover have "gone s x + m \<le> i \<longleftrightarrow> m \<le> j" for m using j(1) by simp
  ultimately show ?thesis by (simp add: requested_def)
qed (use none in auto)

end

lemma gap_cut_le: "gap_cut spec xs \<le> length xs - 1"
  using last_gap_le by (auto simp: gap_cut_def split: option.splits)

lemma contiguous_iff_cut:
  assumes "d \<le> i" and "i < length full"
  shows "contiguous spec full i \<longleftrightarrow> d + gap_cut spec (drop d full) \<le> i"
proof (cases "ws_max_gap_seconds spec")
  case None
  with assms show ?thesis by (simp add: contiguous_def gap_cut_def)
next
  case (Some g)
  let ?xs = "drop d full"
  define c where "c = last_gap (to_micros g) ?xs (length ?xs - 1)"
  have c: "gap_cut spec ?xs = c" using Some by (auto simp: gap_cut_def c_def)
  have cle: "c \<le> length full - d - 1" using last_gap_le [of "to_micros g" ?xs "length ?xs - 1"] by (simp add: c_def)
  show ?thesis unfolding c
  proof
    assume cont: "contiguous spec full i"
    show "d + c \<le> i"
    proof (rule ccontr)
      assume less: "\<not> d + c \<le> i"
      then have pos: "0 < c" using assms(1) by simp
      have "to_micros g < sm_trade_at (?xs ! c) - sm_trade_at (?xs ! (c - 1))"
        using last_gap_found [of "to_micros g" ?xs "length ?xs - 1"] pos by (simp add: c_def)
      moreover have "?xs ! c = full ! Suc (d + c - 1)" "?xs ! (c - 1) = full ! (d + c - 1)"
        using pos by (simp_all add: nth_drop assms(2) less_imp_le le_less_trans [OF assms])
      moreover have "sm_trade_at (full ! Suc (d + c - 1)) - sm_trade_at (full ! (d + c - 1)) \<le> to_micros g"
        using cont Some less pos cle by (auto simp: contiguous_def elim!: allE [of _ "d + c - 1"])
      ultimately show False by simp
    qed
  next
    assume le: "d + c \<le> i"
    have "sm_trade_at (full ! Suc j) - sm_trade_at (full ! j) \<le> to_micros g" if "i \<le> j" "Suc j < length full" for j
    proof -
      have "sm_trade_at (?xs ! Suc (j - d)) - sm_trade_at (?xs ! (j - d)) \<le> to_micros g"
        by (rule last_gap_after [where n = "length ?xs - 1"])
          (use le that assms in \<open>auto simp: c_def\<close>)
      then show ?thesis using that assms(1) by (simp add: nth_drop)
    qed
    then show "contiguous spec full i" using Some by (simp add: contiguous_def)
  qed
qed

context trade_history
begin

lemma suffix_ideal:
  assumes ok: "ok s" and ne: "hh_samples (view s x) \<noteq> []" and kept: "\<not> window_evicted spec (view s x)"
    and lookback: "ws_lookback_events spec \<noteq> None \<or> ws_lookback_seconds spec \<noteq> None"
  defines "samples \<equiv> hh_samples (view s x)"
  defines "selected \<equiv> drop (max (count_start spec samples) (time_start spec samples)) samples"
  shows "drop (gap_cut spec selected) selected = ideal_window spec (epoch s x)"
proof -
  define d where "d = gone s x + max (count_start spec samples) (time_start spec samples)"
  have none: "\<not> (\<exists>i<gone s x. requested spec (epoch s x) i)"
    using kept window_evicted_iff [OF ok ne lookback] by simp
  have sel: "selected = drop d (epoch s x)"
    by (simp add: selected_def samples_def samples_eq [OF ok] d_def add.commute)
  have "requested spec (epoch s x) i \<and> contiguous spec (epoch s x) i \<longleftrightarrow> d + gap_cut spec selected \<le> i"
    if i: "i < length (epoch s x)" for i
    using requested_iff_start [OF ok ne none i] contiguous_iff_cut [of d i "epoch s x" spec] i
    by (auto simp: d_def [symmetric] samples_def [symmetric] sel)
  then have "ideal_window spec (epoch s x) = drop (d + gap_cut spec selected) (epoch s x)"
    unfolding ideal_window_def map_nth_upt [symmetric]
    by (intro arg_cong [where f = "map ((!) (epoch s x))"] filter_upt_threshold)
  then show ?thesis by (simp add: sel add.commute)
qed

lemma evaluate_window_ideal:
  fixes now :: instant and window_hash :: "window_spec \<Rightarrow> string"
  assumes ok: "ok s" and ne: "hh_samples (view s x) \<noteq> []" and seen: "hh_was_ever_observed (view s x)"
    and lookback: "ws_lookback_events spec \<noteq> None \<or> ws_lookback_seconds spec \<noteq> None"
  defines "w \<equiv> evaluate_window window_hash (view s x) spec now"
  shows "iw_readiness w = INSUFFICIENT_RETENTION \<longleftrightarrow>
      static_shortfall spec (hh_retention (view s x)) \<or> (\<exists>i<gone s x. requested spec (epoch s x) i)"
    and "iw_readiness w \<noteq> INSUFFICIENT_RETENTION \<Longrightarrow> iw_selected w = ideal_window spec (epoch s x) \<and>
      iw_anchor_event_time w = Some (sm_trade_at (last (epoch s x)))"
    and "iw_readiness w = READY \<longleftrightarrow>
      \<not> static_shortfall spec (hh_retention (view s x)) \<and> \<not> (\<exists>i<gone s x. requested spec (epoch s x) i) \<and>
      ws_min_events spec \<le> int (length (ideal_window spec (epoch s x))) \<and>
      0 \<le> age_seconds now (sm_trade_at (last (epoch s x))) \<and>
      age_seconds now (sm_trade_at (last (epoch s x))) \<le> ws_freshness_max_age_seconds spec"
proof -
  note evicted = window_evicted_iff [OF ok ne lookback]
  note last = last_sample [OF ok ne, THEN conjunct2]
  consider "static_shortfall spec (hh_retention (view s x)) \<or> window_evicted spec (view s x)"
    | "\<not> static_shortfall spec (hh_retention (view s x))" "\<not> window_evicted spec (view s x)" by blast
  then have "(iw_readiness w = INSUFFICIENT_RETENTION \<longleftrightarrow>
      static_shortfall spec (hh_retention (view s x)) \<or> window_evicted spec (view s x)) \<and>
    (iw_readiness w \<noteq> INSUFFICIENT_RETENTION \<longrightarrow> iw_selected w = ideal_window spec (epoch s x) \<and>
      iw_anchor_event_time w = Some (sm_trade_at (last (epoch s x)))) \<and>
    (iw_readiness w = READY \<longleftrightarrow>
      \<not> static_shortfall spec (hh_retention (view s x)) \<and> \<not> window_evicted spec (view s x) \<and>
      ws_min_events spec \<le> int (length (ideal_window spec (epoch s x))) \<and>
      0 \<le> age_seconds now (sm_trade_at (last (epoch s x))) \<and>
      age_seconds now (sm_trade_at (last (epoch s x))) \<le> ws_freshness_max_age_seconds spec)"
  proof cases
    case 1
    then show ?thesis using seen ne by (auto simp: w_def evaluate_window_def Let_def)
  next
    case 2
    define sel where "sel = drop (max (count_start spec (hh_samples (view s x)))
      (time_start spec (hh_samples (view s x)))) (hh_samples (view s x))"
    have suf: "drop (gap_cut spec sel) sel = ideal_window spec (epoch s x)"
      using suffix_ideal [OF ok ne 2(2) lookback] by (simp only: sel_def)
    show ?thesis
      using seen ne 2 unfolding w_def evaluate_window_def Let_def sel_def [symmetric] suf last
      by (simp add: not_less)
  qed
  then show "iw_readiness w = INSUFFICIENT_RETENTION \<longleftrightarrow>
      static_shortfall spec (hh_retention (view s x)) \<or> (\<exists>i<gone s x. requested spec (epoch s x) i)"
    and "iw_readiness w \<noteq> INSUFFICIENT_RETENTION \<Longrightarrow> iw_selected w = ideal_window spec (epoch s x) \<and>
      iw_anchor_event_time w = Some (sm_trade_at (last (epoch s x)))"
    and "iw_readiness w = READY \<longleftrightarrow>
      \<not> static_shortfall spec (hh_retention (view s x)) \<and> \<not> (\<exists>i<gone s x. requested spec (epoch s x) i) \<and>
      ws_min_events spec \<le> int (length (ideal_window spec (epoch s x))) \<and>
      0 \<le> age_seconds now (sm_trade_at (last (epoch s x))) \<and>
      age_seconds now (sm_trade_at (last (epoch s x))) \<le> ws_freshness_max_age_seconds spec"
    unfolding evicted by blast+
qed

end

section \<open>The rolling store provides the history\<close>

type_synonym tracked_store = "retention_policy \<times> history_store \<times> log_store"

definition tracked_ok :: "tracked_store \<Rightarrow> bool" where
  "tracked_ok t \<longleftrightarrow> (case t of (p, store, logs) \<Rightarrow> store_rel p store logs)"

definition tracked_view :: "tracked_store \<Rightarrow> market \<times> string \<Rightarrow> history_snapshot" where
  "tracked_view t x = (case t of (p, store, logs) \<Rightarrow> peek_history p store (fst x) (snd x))"

definition tracked_epoch :: "tracked_store \<Rightarrow> market \<times> string \<Rightarrow> trade_sample list" where
  "tracked_epoch t x = (case t of (p, store, logs) \<Rightarrow> case logs x of None \<Rightarrow> [] | Some l \<Rightarrow> el_samples l)"

lemma tracked_laws:
  fixes x :: "market \<times> string"
  assumes "tracked_ok t"
  defines "k \<equiv> nat (hh_evicted_event_count (tracked_view t x))"
  shows "hh_samples (tracked_view t x) = drop k (tracked_epoch t x)"
    "hh_evicted_event_count (tracked_view t x) = int k"
    "hh_evicted_through (tracked_view t x) = (if k = 0 then None else Some (sm_trade_at (tracked_epoch t x ! (k - 1))))"
    "sorted (map sm_trade_at (tracked_epoch t x))"
    "tracked_epoch t x \<noteq> [] \<Longrightarrow> hh_samples (tracked_view t x) \<noteq> [] \<and> hh_was_ever_observed (tracked_view t x)"
proof -
  obtain p store logs m symbol where t: "t = (p, store, logs)" "x = (m, symbol)" by (metis prod_cases3 surj_pair)
  have "rel_option (state_rel p) (store (m, symbol)) (logs (m, symbol))"
    using assms(1) unfolding tracked_ok_def t(1) prod.case store_rel_def by blast
  then have "hh_samples (tracked_view t x) = drop k (tracked_epoch t x) \<and>
    hh_evicted_event_count (tracked_view t x) = int k \<and>
    hh_evicted_through (tracked_view t x) = (if k = 0 then None else Some (sm_trade_at (tracked_epoch t x ! (k - 1)))) \<and>
    sorted (map sm_trade_at (tracked_epoch t x)) \<and>
    (tracked_epoch t x \<noteq> [] \<longrightarrow> hh_samples (tracked_view t x) \<noteq> [] \<and> hh_was_ever_observed (tracked_view t x))"
  proof (cases rule: option.rel_cases)
    case None
    then show ?thesis by (simp add: t tracked_view_def tracked_epoch_def k_def peek_history_def)
  next
    case (Some st l)
    show ?thesis
      unfolding k_def tracked_view_def tracked_epoch_def t prod.case fst_conv snd_conv Some(2) option.case
      using state_rel_peek [of store m symbol, OF Some(1,3)] by blast
  qed
  then show "hh_samples (tracked_view t x) = drop k (tracked_epoch t x)"
    "hh_evicted_event_count (tracked_view t x) = int k"
    "hh_evicted_through (tracked_view t x) = (if k = 0 then None else Some (sm_trade_at (tracked_epoch t x ! (k - 1))))"
    "sorted (map sm_trade_at (tracked_epoch t x))"
    "tracked_epoch t x \<noteq> [] \<Longrightarrow> hh_samples (tracked_view t x) \<noteq> [] \<and> hh_was_ever_observed (tracked_view t x)"
    by blast+
qed

interpretation rolling: trade_history tracked_ok tracked_view tracked_epoch
proof
  fix t x
  assume t: "tracked_ok t"
  show "hh_samples (tracked_view t x) = drop (nat (hh_evicted_event_count (tracked_view t x))) (tracked_epoch t x)"
    using tracked_laws(1) [OF t] .
  show "0 \<le> hh_evicted_event_count (tracked_view t x)"
    by (subst tracked_laws(2) [OF t]) simp
  show "hh_evicted_through (tracked_view t x) = (if hh_evicted_event_count (tracked_view t x) = 0 then None
      else Some (sm_trade_at (tracked_epoch t x ! (nat (hh_evicted_event_count (tracked_view t x)) - 1))))"
    using tracked_laws(2,3) [OF t, of x] by (metis nat_0 of_nat_0)
  show "sorted (map sm_trade_at (tracked_epoch t x))" using tracked_laws(4) [OF t] .
qed

lemma mk_spec_lookback:
  "mk_IndicatorWindowSpec spec0 = Inr spec \<Longrightarrow> ws_lookback_events spec \<noteq> None \<or> ws_lookback_seconds spec \<noteq> None"
  by (auto simp: mk_IndicatorWindowSpec_def rbind_Inr_iff split: if_splits)

lemma run_history_tracked:
  assumes "mk_RollingRetentionPolicy n seconds = Inr p" and "run_history p (\<lambda>_. None) ops = Inr store"
  shows "tracked_ok (p, store, run_log (\<lambda>_. None) ops)"
proof -
  have "store_rel p (\<lambda>_. None) (\<lambda>_. None)" by (simp add: store_rel_def)
  then show ?thesis
    using run_history_refines [OF mk_policy_ok [OF assms(1)], of "\<lambda>_. None" "\<lambda>_. None" ops] assms(2)
    by (auto simp: tracked_ok_def)
qed

text \<open>
  C25. Bounded retention never silently narrows an indicator window. After any run of the rolling
  store, for an instrument whose current epoch has samples: \<^verbatim>\<open>evaluate_window\<close> answers
  INSUFFICIENT_RETENTION exactly when the policy asks for more than the caps or a sample it asks
  for has been evicted; in every other case the samples it selects are those the policy asks for
  of the whole epoch, as if nothing had ever been evicted, and it answers READY exactly when there
  are at least \<open>min_events\<close> of them and the newest is neither from the future nor older than the
  freshness bound.
\<close>

theorem window_over_whole_epoch:
  fixes window_hash :: "window_spec \<Rightarrow> string" and now :: instant
  assumes "mk_RollingRetentionPolicy n seconds = Inr p" and "run_history p (\<lambda>_. None) ops = Inr store"
    and "run_log (\<lambda>_. None) ops (m, symbol) = Some l" and "el_samples l \<noteq> []"
    and "mk_IndicatorWindowSpec spec0 = Inr spec"
  defines "snap \<equiv> peek_history p store m symbol"
  defines "w \<equiv> evaluate_window window_hash snap spec now"
    and "lost \<equiv> \<exists>i < nat (hh_evicted_event_count snap). requested spec (el_samples l) i"
    and "since \<equiv> age_seconds now (sm_trade_at (last (el_samples l)))"
  shows "(iw_readiness w = INSUFFICIENT_RETENTION \<longleftrightarrow> static_shortfall spec p \<or> lost) \<and>
    (iw_readiness w \<noteq> INSUFFICIENT_RETENTION \<longrightarrow> iw_selected w = ideal_window spec (el_samples l)) \<and>
    (iw_readiness w = READY \<longleftrightarrow> \<not> static_shortfall spec p \<and> \<not> lost \<and>
       ws_min_events spec \<le> int (length (ideal_window spec (el_samples l))) \<and>
       0 \<le> since \<and> since \<le> ws_freshness_max_age_seconds spec)"
proof -
  let ?t = "(p, store, run_log (\<lambda>_. None) ops)" and ?x = "(m, symbol)"
  have ok: "tracked_ok ?t" by (rule run_history_tracked [OF assms(1,2)])
  have view: "tracked_view ?t ?x = snap" "tracked_epoch ?t ?x = el_samples l"
    by (simp_all add: tracked_view_def tracked_epoch_def snap_def assms(3))
  have ne: "hh_samples (tracked_view ?t ?x) \<noteq> []" "hh_was_ever_observed (tracked_view ?t ?x)"
    using tracked_laws(5) [OF ok, of ?x] assms(4) by (simp_all add: view(2))
  have ret: "hh_retention snap = p" by (simp add: snap_def peek_history_def split: option.splits)
  note ideal = rolling.evaluate_window_ideal [OF ok ne mk_spec_lookback [OF assms(5)],
      where window_hash = window_hash and now = now,
      unfolded rolling.gone_def view ret, folded lost_def since_def w_def]
  show ?thesis using ideal by blast
qed

definition example_window :: window_spec where
  "example_window = \<lparr>ws_lookback_events = Some 2, ws_lookback_seconds = None, ws_min_events = 2,
     ws_freshness_max_age_seconds = 10, ws_max_gap_seconds = None\<rparr>"

lemma example_window_ok: "mk_IndicatorWindowSpec example_window = Inr example_window"
  by (simp add: mk_IndicatorWindowSpec_def example_window_def validate_duration_def validate_whole_micro_decimal_def
      dec_defs Let_def MAX_TIMEDELTA_def round_half_even_of_int [of 10000000, simplified])

definition example_ticks :: "history_op list" where
  "example_ticks = map (\<lambda>i. Observe_Tick (example_trade i i) i) [1, 2, 3]"

lemma example_log:
  "run_log (\<lambda>_. None) example_ticks (KR, ''005930'') =
     Some \<lparr>el_stream = Some (''kis'', ''trade''), el_epoch = 1,
       el_samples = map (\<lambda>i. tick_sample (example_trade i i)) [1, 2, 3]\<rparr>"
  by (simp add: example_ticks_def log_observe_def example_trade_def tick_stream_def tick_sample_def follows_def)

lemma example_evaluation:
  "rbind (run_history \<lparr>rp_hard_max_events = 2, rp_hard_max_age_seconds = 60\<rparr> (\<lambda>_. None) example_ticks) (\<lambda>store.
     Inr (iw_readiness (evaluate_window (\<lambda>_. ''w'')
       (peek_history \<lparr>rp_hard_max_events = 2, rp_hard_max_age_seconds = 60\<rparr> store KR ''005930'') example_window 4))) =
   Inr READY"
proof -
  have micros: "to_micros 60 = 60000000"
    by (simp add: to_micros_def dec_defs round_half_even_of_int [of 60000000, simplified])
  have age: "age_seconds 4 3 = 1 / 1000000"
    using rnd_decimal [of "1 / 1000000" 1 6] by (simp add: age_seconds_def dec_defs)
  show ?thesis
    by (simp add: example_ticks_def observe_def tick_stream_def tick_sample_def example_trade_def initial_state_def
        append_sample_def truncate_history_def truncate_count.simps truncate_age.simps pop_oldest_def hard_max_age_def
        micros age peek_history_def evaluate_window_def static_shortfall_def example_window_def count_start_def
        time_start_def window_evicted_def gap_cut_def)
qed

theorem window_over_whole_epoch_witness:
  "\<exists>store. run_history \<lparr>rp_hard_max_events = 2, rp_hard_max_age_seconds = 60\<rparr> (\<lambda>_. None) example_ticks = Inr store \<and>
    iw_readiness (evaluate_window (\<lambda>_. ''w'')
       (peek_history \<lparr>rp_hard_max_events = 2, rp_hard_max_age_seconds = 60\<rparr> store KR ''005930'') example_window 4)
       = READY \<and>
    iw_selected (evaluate_window (\<lambda>_. ''w'')
       (peek_history \<lparr>rp_hard_max_events = 2, rp_hard_max_age_seconds = 60\<rparr> store KR ''005930'') example_window 4)
       = ideal_window example_window (map (\<lambda>i. tick_sample (example_trade i i)) [1, 2, 3])"
proof -
  let ?p = "\<lparr>rp_hard_max_events = 2, rp_hard_max_age_seconds = 60\<rparr> :: retention_policy"
  obtain store where run: "run_history ?p (\<lambda>_. None) example_ticks = Inr store"
    and ready: "iw_readiness (evaluate_window (\<lambda>_. ''w'') (peek_history ?p store KR ''005930'') example_window 4) = READY"
    using example_evaluation by (auto simp: rbind_Inr_iff)
  have "el_samples \<lparr>el_stream = Some (''kis'', ''trade''), el_epoch = 1,
       el_samples = map (\<lambda>i. tick_sample (example_trade i i)) [1, 2, 3]\<rparr> \<noteq> []" by simp
  note w = window_over_whole_epoch [OF example_policy run example_log this example_window_ok, of "\<lambda>_. ''w''" 4]
  show ?thesis using run ready w by auto
qed

section \<open>Contexts and indicator values\<close>

lemma evaluate_window_identity [simp]:
  "iw_window_id (evaluate_window window_hash history spec now) = window_id window_hash spec"
  "iw_market (evaluate_window window_hash history spec now) = hh_market history"
  "iw_symbol (evaluate_window window_hash history spec now) = hh_symbol history"
  by (simp_all add: evaluate_window_def Let_def)

lemma check_windows_ok:
  "check_windows m symbol seen ws = Inr () \<longleftrightarrow>
     distinct (map iw_window_id ws) \<and> set (map iw_window_id ws) \<inter> set seen = {} \<and>
     (\<forall>w\<in>set ws. iw_market w = m \<and> iw_symbol w = symbol)"
  by (induction ws arbitrary: seen) auto

definition evaluated_from ::
  "(window_spec \<Rightarrow> string) \<Rightarrow> history_snapshot \<Rightarrow> instant \<Rightarrow> window_spec list \<Rightarrow> window_snapshot list \<Rightarrow> bool" where
  "evaluated_from window_hash history now specs ws \<longleftrightarrow>
     distinct (map iw_window_id ws) \<and> set ws \<subseteq> (\<lambda>spec. evaluate_window window_hash history spec now) ` set specs"

lemma evaluate_specs_spec:
  assumes "evaluated_from window_hash history now done acc"
  shows "evaluated_from window_hash history now (done @ specs) (evaluate_specs window_hash history now acc specs) \<and>
    set (map iw_window_id acc) \<union> window_id window_hash ` set specs \<subseteq>
      set (map iw_window_id (evaluate_specs window_hash history now acc specs))"
  using assms
proof (induction specs arbitrary: acc "done")
  case (Cons spec specs)
  show ?case
  proof (cases "window_id window_hash spec \<in> set (map iw_window_id acc)")
    case True
    have "evaluated_from window_hash history now (done @ [spec]) acc"
      using Cons.prems by (auto simp: evaluated_from_def)
    from Cons.IH [OF this] True show ?thesis by auto
  next
    case False
    have "evaluated_from window_hash history now (done @ [spec]) (acc @ [evaluate_window window_hash history spec now])"
      using Cons.prems False by (auto simp: evaluated_from_def)
    from Cons.IH [OF this] False show ?thesis by auto
  qed
qed simp

lemma find_distinct:
  "distinct (map f ws) \<Longrightarrow> w \<in> set ws \<Longrightarrow> find (\<lambda>v. f v = f w) ws = Some w"
  by (induction ws) auto

lemma context_get_sorted:
  assumes "distinct (map iw_window_id ws)" and "wid \<in> iw_window_id ` set ws"
  shows "\<exists>w. context_get (cx\<lparr>cx_windows := sort_key iw_window_id ws\<rparr>) wid = Some w \<and> w \<in> set ws \<and> iw_window_id w = wid"
proof -
  obtain w where w: "w \<in> set ws" "wid = iw_window_id w" using assms(2) by (rule imageE)
  have "distinct (map iw_window_id (sort_key iw_window_id ws))"
    using assms(1) by (simp add: distinct_map)
  from find_distinct [OF this, of w] w show ?thesis by (simp add: context_get_def)
qed

lemma evaluate_specs_complete:
  shows "distinct (map iw_window_id (evaluate_specs window_hash history now [] specs))"
    and "w \<in> set (evaluate_specs window_hash history now [] specs) \<Longrightarrow>
      \<exists>spec. spec \<in> set specs \<and> w = evaluate_window window_hash history spec now"
    and "spec \<in> set specs \<Longrightarrow> window_id window_hash spec \<in>
      iw_window_id ` set (evaluate_specs window_hash history now [] specs)"
proof -
  have "evaluated_from window_hash history now [] []" by (simp add: evaluated_from_def)
  from evaluate_specs_spec [OF this, of specs]
  have ev: "evaluated_from window_hash history now specs (evaluate_specs window_hash history now [] specs)"
    and all: "window_id window_hash ` set specs \<subseteq> iw_window_id ` set (evaluate_specs window_hash history now [] specs)"
    by simp_all
  show "distinct (map iw_window_id (evaluate_specs window_hash history now [] specs))"
    using ev by (simp add: evaluated_from_def)
  show "\<exists>spec. spec \<in> set specs \<and> w = evaluate_window window_hash history spec now"
    if "w \<in> set (evaluate_specs window_hash history now [] specs)"
    using ev that unfolding evaluated_from_def image_def by fast
  show "window_id window_hash spec \<in> iw_window_id ` set (evaluate_specs window_hash history now [] specs)"
    if "spec \<in> set specs"
    using all that by (meson imageI subsetD)
qed

text \<open>
  Building a context never fails: the windows of a history share its instrument and equal
  identifiers are evaluated once. Every requested window can be looked up by its identifier, and
  what is found is the evaluation, at the same instant, of a requested policy with that
  identifier.
\<close>

theorem build_indicator_context_complete:
  "\<exists>c. build_indicator_context window_hash history specs now = Inr c \<and>
     cx_market c = hh_market history \<and> cx_symbol c = hh_symbol history \<and> cx_evaluated_at c = now \<and>
     sorted (map iw_window_id (cx_windows c)) \<and>
     list_all (\<lambda>spec. case context_get c (window_id window_hash spec) of
        None \<Rightarrow> False
      | Some w \<Rightarrow> list_ex (\<lambda>spec'. window_id window_hash spec' = window_id window_hash spec \<and>
          w = evaluate_window window_hash history spec' now) specs) specs"
proof -
  define ws where "ws = evaluate_specs window_hash history now [] specs"
  note ws = evaluate_specs_complete [where window_hash = window_hash and history = history and now = now
      and specs = specs, folded ws_def]
  define c where "c = \<lparr>cx_market = hh_market history, cx_symbol = hh_symbol history,
        cx_windows = sort_key iw_window_id ws, cx_evaluated_at = now\<rparr>"
  have "iw_market w = hh_market history \<and> iw_symbol w = hh_symbol history" if "w \<in> set ws" for w
    using ws(2) [OF that] by (elim exE conjE) simp
  then have "check_windows (hh_market history) (hh_symbol history) [] ws = Inr ()"
    using ws(1) by (simp add: check_windows_ok)
  then have build: "build_indicator_context window_hash history specs now = Inr c"
    by (simp add: build_indicator_context_def mk_IndicatorContext_def ws_def [symmetric] c_def)
  have "case context_get c (window_id window_hash spec) of
        None \<Rightarrow> False
      | Some w \<Rightarrow> list_ex (\<lambda>spec'. window_id window_hash spec' = window_id window_hash spec \<and>
          w = evaluate_window window_hash history spec' now) specs" if "spec \<in> set specs" for spec
  proof -
    have "\<exists>w. context_get c (window_id window_hash spec) = Some w \<and> w \<in> set ws \<and>
        iw_window_id w = window_id window_hash spec"
      using context_get_sorted [OF ws(1) ws(3) [OF that], of c] by (simp add: c_def)
    then obtain w where w: "context_get c (window_id window_hash spec) = Some w" "w \<in> set ws"
      "iw_window_id w = window_id window_hash spec" by (elim exE conjE)
    obtain spec' where spec': "spec' \<in> set specs" "w = evaluate_window window_hash history spec' now"
      using ws(2) [OF w(2)] by (elim exE conjE)
    have "window_id window_hash spec' = window_id window_hash spec" using w(3) spec'(2) by simp
    then show ?thesis unfolding w(1) option.case list_ex_iff using spec' by blast
  qed
  then show ?thesis
    using build unfolding list_all_iff
    by (intro exI [of _ c]) (simp add: c_def)
qed

lemma foldl_dadd_mono: "0 \<le> a \<Longrightarrow> (\<And>x. x \<in> set xs \<Longrightarrow> 0 < x) \<Longrightarrow> 0 \<le> foldl dadd a xs \<and> (0 < a \<longrightarrow> 0 < foldl dadd a xs)"
proof (induction xs arbitrary: a)
  case (Cons x xs)
  have "0 < x" using Cons.prems(2) [of x] by simp
  then have "0 < dadd a x" using Cons.prems(1) by (simp add: dadd_def)
  moreover have "0 < x'" if "x' \<in> set xs" for x' using Cons.prems that by simp
  ultimately have "0 \<le> foldl dadd (dadd a x) xs \<and> (0 < dadd a x \<longrightarrow> 0 < foldl dadd (dadd a x) xs)"
    by (intro Cons.IH) auto
  then show ?case using \<open>0 < dadd a x\<close> by simp
qed simp

lemma dsum_pos:
  assumes "xs \<noteq> []" and "\<And>x. x \<in> set xs \<Longrightarrow> 0 < x"
  shows "0 < dsum xs"
proof -
  obtain x ys where xs: "xs = x # ys" using assms(1) by (cases xs) auto
  have "0 < dadd 0 x" using assms(2) [of x] by (simp add: xs dadd_def)
  moreover have "0 < y" if "y \<in> set ys" for y using assms(2) that by (simp add: xs)
  ultimately have "0 < foldl dadd (dadd 0 x) ys" using foldl_dadd_mono [of "dadd 0 x" ys] by auto
  then show ?thesis by (simp add: xs dsum_def)
qed

text \<open>
  Indicator values. On a READY window whose samples have positive prices and quantities
  (which a normalised tick guarantees) every indicator has a value: no division by zero, and the
  moving average, the volume and the volume-weighted price are positive. On any window that is not
  READY every indicator raises \<^verbatim>\<open>IndicatorNotReadyError\<close>.
\<close>

theorem compute_indicator_total:
  assumes "list_all (\<lambda>s. 0 < sm_price s \<and> 0 < sm_quantity s) (iw_selected w)" and "iw_selected w \<noteq> []"
  shows "if iw_readiness w = READY
    then \<exists>v. compute_indicator kind w = Inr v \<and> (kind \<noteq> RETURN_BPS \<longrightarrow> 0 < v)
    else \<exists>msg. compute_indicator kind w = Inl (IndicatorNotReadyError msg)"
proof (cases "iw_readiness w = READY")
  case True
  let ?xs = "iw_selected w"
  have pos: "0 < sm_price s" "0 < sm_quantity s" if "s \<in> set ?xs" for s
    using assms(1) that by (simp_all add: list_all_iff)
  have "0 < dsum (map sm_price ?xs)" "0 < dsum (map sm_quantity ?xs)"
    "0 < dsum (map (\<lambda>s. dmul (sm_price s) (sm_quantity s)) ?xs)"
    using assms(2) pos by (auto intro!: dsum_pos dmul_pos)
  moreover have "0 < sm_price (hd ?xs)" using assms(2) pos by simp
  ultimately show ?thesis
    using True assms(2)
    by (cases kind) (auto simp: compute_indicator_def sma_price_def return_bps_def rolling_volume_def vwap_def
        require_ready_def divide_ind_def ddiv_r_def ddiv_pos Let_def)
next
  case False
  then show ?thesis
    by (cases kind) (auto simp: compute_indicator_def sma_price_def return_bps_def rolling_volume_def vwap_def
        require_ready_def)
qed

definition example_ready :: window_snapshot where
  "example_ready =
     \<lparr>iw_window_id = ''w'', iw_market = KR, iw_symbol = ''005930'', iw_readiness = READY,
      iw_selected = [tick_sample (example_trade 1 1)], iw_anchor_event_time = Some 1, iw_latest_event_time = Some 1,
      iw_oldest_selected_event_time = Some 1, iw_age_seconds = Some 0, iw_continuity_epoch = 1,
      iw_epoch_start_reason = INITIAL, iw_provider = Some ''kis'', iw_channel = Some ''trade'',
      iw_latest_sequence = Some 1, iw_latest_received_at = Some 1\<rparr>"

theorem compute_indicator_total_witness:
  "\<exists>v. compute_indicator VWAP example_ready = Inr v \<and> 0 < v"
  using compute_indicator_total [of example_ready VWAP]
  by (simp add: example_ready_def tick_sample_def example_trade_def)

end
