(* ===== verification/Trigger_Conditions.thy ===== *)
theory Trigger_Conditions
  imports Indicators
begin

text \<open>
  Trigger conditions: \<^verbatim>\<open>src/src/market_data/conditions.py\<close>. A clause compares a metric of the
  latest market state, or of a READY rolling window, with a threshold.
\<close>

datatype metric =
    M_LAST_TRADE_PRICE | M_BEST_BID_PRICE | M_BEST_ASK_PRICE | M_SPREAD_BPS
  | M_SMA_PRICE | M_RETURN_BPS | M_ROLLING_VOLUME | M_VWAP

datatype comparator = LTE | GTE

record condition_clause =
  cl_metric :: metric
  cl_comparator :: comparator
  cl_threshold :: decimal
  cl_window :: "window_spec option"

definition QUOTE_METRICS :: "metric set" where
  "QUOTE_METRICS = {M_BEST_BID_PRICE, M_BEST_ASK_PRICE, M_SPREAD_BPS}"

definition POSITIVE_METRICS :: "metric set" where
  "POSITIVE_METRICS = {M_LAST_TRADE_PRICE, M_BEST_BID_PRICE, M_BEST_ASK_PRICE, M_SMA_PRICE, M_VWAP}"

definition NON_NEGATIVE_METRICS :: "metric set" where
  "NON_NEGATIVE_METRICS = {M_SPREAD_BPS, M_ROLLING_VOLUME}"

fun rolling_metric :: "metric \<Rightarrow> indicator_kind option" where
  "rolling_metric M_SMA_PRICE = Some SMA_PRICE"
| "rolling_metric M_RETURN_BPS = Some RETURN_BPS"
| "rolling_metric M_ROLLING_VOLUME = Some ROLLING_VOLUME"
| "rolling_metric M_VWAP = Some VWAP"
| "rolling_metric _ = None"

definition is_rolling :: "metric \<Rightarrow> bool" where
  "is_rolling m \<longleftrightarrow> rolling_metric m \<noteq> None"

definition mk_ConditionClause :: "condition_clause \<Rightarrow> condition_clause result" where
  "mk_ConditionClause c =
     rbind (if cl_metric c \<in> POSITIVE_METRICS
            then guard (0 < cl_threshold c) (ValueError ''threshold must be > 0.'')
            else if cl_metric c \<in> NON_NEGATIVE_METRICS
            then guard (0 \<le> cl_threshold c) (ValueError ''threshold must be >= 0.'')
            else Inr ()) (\<lambda>_.
     rbind (case cl_window c of None \<Rightarrow> Inr None
            | Some w \<Rightarrow> rbind (mk_IndicatorWindowSpec w) (\<lambda>w'. Inr (Some w'))) (\<lambda>w.
     if is_rolling (cl_metric c)
     then (if w = None then Inl (ValueError ''requires a window spec.'') else Inr c)
     else if w \<noteq> None then Inl (ValueError ''must not carry a window spec.'')
     else Inr c))"

definition metric_value ::
  "(window_spec \<Rightarrow> string) \<Rightarrow> metric \<Rightarrow> market_state_snapshot \<Rightarrow> indicator_context option \<Rightarrow> window_spec option \<Rightarrow>
   decimal option result" where
  "metric_value window_hash m snapshot indicators window =
     (case rolling_metric m of
        Some kind \<Rightarrow>
          (case (indicators, window) of
             (Some ctx, Some spec) \<Rightarrow>
               (case context_get ctx (window_id window_hash spec) of
                  None \<Rightarrow> Inr None
                | Some w \<Rightarrow>
                    if iw_readiness w \<noteq> READY then Inr None
                    else (case compute_indicator kind w of
                            Inr v \<Rightarrow> Inr (Some v)
                          | Inl (IndicatorNotReadyError _) \<Rightarrow> Inr None
                          | Inl (IndicatorArithmetic e) \<Rightarrow> Inl e))
           | _ \<Rightarrow> Inr None)
      | None \<Rightarrow>
          if m = M_LAST_TRADE_PRICE then Inr (map_option tt_price (ls_trade snapshot))
          else if m = M_BEST_BID_PRICE then Inr (map_option ba_bid_price (ls_quote snapshot))
          else if m = M_BEST_ASK_PRICE then Inr (map_option ba_ask_price (ls_quote snapshot))
          else (case ls_quote snapshot of
                  None \<Rightarrow> Inr None
                | Some q \<Rightarrow>
                    let mid = ddiv (dadd (ba_bid_price q) (ba_ask_price q)) 2
                    in rbind (ddiv_r (dsub (ba_ask_price q) (ba_bid_price q)) mid) (\<lambda>r.
                       Inr (Some (dmul r 10000)))))"

definition evaluate_clause ::
  "(window_spec \<Rightarrow> string) \<Rightarrow> condition_clause \<Rightarrow> market_state_snapshot \<Rightarrow> indicator_context option \<Rightarrow> bool result" where
  "evaluate_clause window_hash clause snapshot indicators =
     rbind (metric_value window_hash (cl_metric clause) snapshot indicators (cl_window clause)) (\<lambda>value.
       case value of None \<Rightarrow> Inr False
       | Some v \<Rightarrow> if cl_comparator clause = LTE then Inr (v \<le> cl_threshold clause)
                   else Inr (cl_threshold clause \<le> v))"

fun all_clauses ::
  "(window_spec \<Rightarrow> string) \<Rightarrow> condition_clause list \<Rightarrow> market_state_snapshot \<Rightarrow> indicator_context option \<Rightarrow> bool result" where
  "all_clauses window_hash [] snapshot indicators = Inr True"
| "all_clauses window_hash (c # cs) snapshot indicators =
     rbind (evaluate_clause window_hash c snapshot indicators) (\<lambda>holds.
       if holds then all_clauses window_hash cs snapshot indicators else Inr False)"

definition evaluate_all ::
  "(window_spec \<Rightarrow> string) \<Rightarrow> condition_clause list \<Rightarrow> market_state_snapshot \<Rightarrow> indicator_context option \<Rightarrow> bool result" where
  "evaluate_all window_hash rules snapshot indicators =
     (if rules = [] then Inr False else all_clauses window_hash rules snapshot indicators)"

definition rule_required_slots :: "condition_clause list \<Rightarrow> bool \<times> bool" where
  "rule_required_slots rules =
     (list_ex (\<lambda>r. cl_metric r = M_LAST_TRADE_PRICE \<or> is_rolling (cl_metric r)) rules,
      list_ex (\<lambda>r. cl_metric r \<in> QUOTE_METRICS) rules)"

fun windows_by_id ::
  "(window_spec \<Rightarrow> string) \<Rightarrow> (string \<times> window_spec) list \<Rightarrow> condition_clause list \<Rightarrow> (string \<times> window_spec) list" where
  "windows_by_id window_hash by_id [] = by_id"
| "windows_by_id window_hash by_id (r # rules) =
     windows_by_id window_hash
       (case cl_window r of None \<Rightarrow> by_id
        | Some w \<Rightarrow> tbl_upsert fst (window_id window_hash w, w) by_id) rules"

definition rule_required_windows :: "(window_spec \<Rightarrow> string) \<Rightarrow> condition_clause list \<Rightarrow> window_spec list" where
  "rule_required_windows window_hash rules = map snd (sort_key fst (windows_by_id window_hash [] rules))"

section \<open>What a satisfied rule set says\<close>

lemma all_clauses_True_iff:
  "all_clauses window_hash rules snapshot indicators = Inr True \<longleftrightarrow>
     (\<forall>c\<in>set rules. evaluate_clause window_hash c snapshot indicators = Inr True)"
  by (induction rules) (auto simp: rbind_Inr_iff)

lemma evaluate_clause_TrueD:
  assumes "evaluate_clause window_hash c snapshot indicators = Inr True"
  obtains v where "metric_value window_hash (cl_metric c) snapshot indicators (cl_window c) = Inr (Some v)"
    and "if cl_comparator c = LTE then v \<le> cl_threshold c else cl_threshold c \<le> v"
  using assms unfolding evaluate_clause_def
  by (auto simp: rbind_Inr_iff split: option.splits if_splits)

lemma windows_by_id_mono: "k \<in> fst ` set by_id \<Longrightarrow> k \<in> fst ` set (windows_by_id window_hash by_id rules)"
proof (induction rules arbitrary: by_id)
  case (Cons r rules)
  show ?case
  proof (cases "cl_window r")
    case (Some w)
    have "k \<in> fst ` set (tbl_upsert fst (window_id window_hash w, w) by_id)"
      using Cons.prems by (force simp: set_tbl_upsert)
    with Some Cons.IH show ?thesis by simp
  qed (use Cons in simp)
qed simp

lemma windows_by_id_ids:
  "(\<And>k w. (k, w) \<in> set by_id \<Longrightarrow> k = window_id window_hash w) \<Longrightarrow>
   (k, w) \<in> set (windows_by_id window_hash by_id rules) \<Longrightarrow> k = window_id window_hash w"
proof (induction rules arbitrary: by_id)
  case (Cons r rules)
  show ?case
    by (rule Cons.IH [OF _ Cons.prems(2) [unfolded windows_by_id.simps]])
      (use Cons.prems(1) in \<open>auto simp: set_tbl_upsert split: option.splits if_splits\<close>)
qed simp

lemma required_window_listed:
  assumes "r \<in> set rules" and "cl_window r = Some w"
  shows "window_id window_hash w \<in> window_id window_hash ` set (rule_required_windows window_hash rules)"
proof -
  have "window_id window_hash w \<in> fst ` set (windows_by_id window_hash by_id rules)" for by_id
    using assms(1)
  proof (induction rules arbitrary: by_id)
    case (Cons r' rules)
    show ?case
    proof (cases "r = r'")
      case True
      have "window_id window_hash w \<in> fst ` set (tbl_upsert fst (window_id window_hash w, w) by_id)"
        by (force simp: set_tbl_upsert)
      then show ?thesis using True assms(2) windows_by_id_mono by simp
    qed (use Cons in auto)
  qed simp
  from this [of "[]"] obtain kv where kv: "kv \<in> set (windows_by_id window_hash [] rules)"
    "window_id window_hash w = fst kv" by (rule imageE)
  then have "window_id window_hash w = window_id window_hash (snd kv)"
    using windows_by_id_ids [of "[]" window_hash "fst kv" "snd kv" rules] by simp
  moreover have "snd kv \<in> set (rule_required_windows window_hash rules)"
    using kv(1) by (simp add: rule_required_windows_def)
  ultimately show ?thesis by (simp add: image_eqI)
qed

end
