(* ===== verification/Trigger_Engine.thy ===== *)
theory Trigger_Engine
  imports Trigger_Conditions Risk_Filter
begin

text \<open>
  The trigger engine: \<^verbatim>\<open>src/src/market_data/trigger_engine.py\<close>. Plans, permissions, bundles and
  signals with their validators, the replacement of the active bundle and the evaluation of a
  tick as a state machine. The four SHA-256 digests of canonical JSON are the fields of the
  parameter \<open>hashing\<close>. The lock makes both operations atomic: each is a function on the engine
  state. An operation that raises still returns the state it leaves behind. Durations are exact:
  \<^verbatim>\<open>total_seconds\<close> of a microsecond difference is the quotient by a million, and
  \<^verbatim>\<open>timedelta(seconds=float(v))\<close> is \<open>v\<close> rounded to microseconds, ties to even (binary
  floating point represents both exactly enough below about 30 years).
\<close>

section \<open>Models\<close>

record trigger_plan =
  pl_plan_id :: string
  pl_decision_id :: string
  pl_created_at :: instant
  pl_valid_from :: instant
  pl_expires_at :: instant
  pl_universe :: string
  pl_market :: market
  pl_symbol :: string
  pl_action :: analysis_action
  pl_rules :: "condition_clause list"
  pl_reset_rules :: "condition_clause list"
  pl_debounce_events :: int
  pl_debounce_seconds :: decimal
  pl_reset_events :: int
  pl_cooldown_seconds :: decimal
  pl_max_fires :: int

definition EXECUTABLE_ACTIONS :: "analysis_action set" where
  "EXECUTABLE_ACTIONS = {Action_BUY, Action_SELL}"

definition validate_plan :: "trigger_plan \<Rightarrow> trigger_plan result" where
  "validate_plan p =
     (if pl_action p \<notin> EXECUTABLE_ACTIONS
      then Inl (ValueError ''TriggerPlan.action must be BUY or SELL (HOLD is non-executable).'')
      else if pl_rules p = [] then Inl (ValueError ''TriggerPlan.rules must not be empty.'')
      else if pl_valid_from p < pl_created_at p then Inl (ValueError ''created_at must be <= valid_from.'')
      else if pl_expires_at p < pl_valid_from p then Inl (ValueError ''valid_from must be <= expires_at.'')
      else if pl_debounce_events p < 1 then Inl (ValueError ''debounce_events must be >= 1.'')
      else if pl_reset_events p < 1 then Inl (ValueError ''reset_events must be >= 1.'')
      else if pl_debounce_seconds p < 0 then Inl (ValueError ''debounce_seconds must be >= 0.'')
      else if pl_cooldown_seconds p < 0 then Inl (ValueError ''cooldown_seconds must be >= 0.'')
      else if pl_max_fires p < 1 then Inl (ValueError ''max_fires_per_decision must be >= 1.'')
      else Inr p)"

definition mk_TriggerPlan :: "trigger_plan \<Rightarrow> trigger_plan result" where
  "mk_TriggerPlan p =
     rbind (normalize_required_string (pl_plan_id p)) (\<lambda>plan_id.
     rbind (parse_decision_id (pl_decision_id p)) (\<lambda>decision_id.
     rbind (normalize_required_string (pl_universe p)) (\<lambda>universe.
     rbind (normalize_required_string (pl_symbol p)) (\<lambda>symbol.
     rbind (traverse mk_ConditionClause (pl_rules p)) (\<lambda>rules.
     rbind (traverse mk_ConditionClause (pl_reset_rules p)) (\<lambda>reset_rules.
     validate_plan (p\<lparr>pl_plan_id := plan_id, pl_decision_id := decision_id, pl_universe := universe,
       pl_symbol := symbol, pl_rules := rules, pl_reset_rules := reset_rules\<rparr>)))))))"

record trading_permission =
  tp_market :: market
  tp_allowed :: bool
  tp_checked_at :: instant
  tp_valid_until :: instant
  tp_reason_code :: string

definition mk_TradingPermission :: "trading_permission \<Rightarrow> trading_permission result" where
  "mk_TradingPermission p =
     rbind (normalize_required_string (tp_reason_code p)) (\<lambda>reason.
     if tp_valid_until p < tp_checked_at p then Inl (ValueError ''checked_at must be <= valid_until.'')
     else Inr (p\<lparr>tp_reason_code := reason\<rparr>))"

record condition_observation =
  co_metric :: metric
  co_value :: decimal
  co_window_id :: "string option"

record trigger_signal =
  sg_trigger_id :: string
  sg_idempotency_key :: string
  sg_decision_id :: string
  sg_plan_id :: string
  sg_market :: market
  sg_symbol :: string
  sg_action :: analysis_action
  sg_reference_price :: decimal
  sg_triggered_at :: instant
  sg_condition_values :: "condition_observation list"

record trigger_bundle =
  bn_decision :: analysis_decision
  bn_plan :: "trigger_plan option"

definition bundle_action :: "trigger_bundle \<Rightarrow> analysis_action" where
  "bundle_action b = fm_action (an_fund_manager (bn_decision b))"

definition mk_DecisionTriggerBundle :: "trigger_bundle \<Rightarrow> trigger_bundle result" where
  "mk_DecisionTriggerBundle b =
     (let d = bn_decision b; action = bundle_action b
      in if action = Action_HOLD
         then (if bn_plan b \<noteq> None then Inl (ValueError ''HOLD decision must not carry a TriggerPlan.'') else Inr b)
         else case bn_plan b of
           None \<Rightarrow> Inl (ValueError ''BUY/SELL decision requires a TriggerPlan.'')
         | Some p \<Rightarrow>
             if pl_decision_id p \<noteq> an_decision_id d
             then Inl (ValueError ''plan.decision_id must equal decision.decision_id.'')
             else if market_str (pl_market p) \<noteq> an_market d
             then Inl (ValueError ''plan.market must equal decision.market.'')
             else if pl_symbol p \<noteq> an_symbol d then Inl (ValueError ''plan.symbol must equal decision.symbol.'')
             else if pl_universe p \<noteq> an_universe d
             then Inl (ValueError ''plan.universe must equal decision.universe.'')
             else if pl_action p \<noteq> action
             then Inl (ValueError ''plan.action must equal decision.fund_manager.action.'')
             else if pl_created_at p < an_created_at d
             then Inl (ValueError ''plan.created_at must be >= decision.created_at.'')
             else if pl_valid_from p < an_created_at d
             then Inl (ValueError ''plan.valid_from must be >= decision.created_at.'')
             else Inr b)"

datatype trigger_state = TS_DISARMED | TS_ARMED | TS_DEBOUNCING | TS_TRIGGERED | TS_COOLDOWN | TS_LOCKED

datatype trigger_status =
    TRIGGERED | CONDITION_NOT_MET | DEBOUNCING | COOLDOWN | ALREADY_FIRED | SUPPRESSED

datatype trigger_reason =
    HOLD_ACTION | NO_ACTIVE_DECISION | DECISION_NOT_YET_VALID | STALE_DECISION | TRADING_NOT_ALLOWED
  | STALE_PERMISSION | PERMISSION_NOT_YET_VALID | PERMISSION_MARKET_MISMATCH | SNAPSHOT_MARKET_MISMATCH
  | SNAPSHOT_SYMBOL_MISMATCH | MISSING_TRADE | STALE_TRADE | MISSING_QUOTE | STALE_QUOTE | CONDITION_FALSE
  | DEBOUNCE_PENDING | COOLDOWN_ACTIVE | MAX_FIRES_REACHED | STALE_SNAPSHOT | INDICATOR_CONTEXT_STALE
  | MISSING_INDICATOR | INDICATOR_WARMING | INDICATOR_DISCONTINUOUS | INDICATOR_STALE | INDICATOR_FUTURE
  | INDICATOR_INSUFFICIENT_RETENTION | INDICATOR_IDENTITY_MISMATCH | INDICATOR_LAGGING

record trigger_evaluation =
  tv_status :: trigger_status
  tv_state :: trigger_state
  tv_reason :: "trigger_reason option"
  tv_signal :: "trigger_signal option"

datatype replace_status = REPLACED | UNCHANGED | REJECTED_OLDER | REJECTED_CONFLICT

section \<open>Digests\<close>

record canonical_rule =
  cn_metric :: metric
  cn_comparator :: comparator
  cn_threshold :: decimal
  cn_window :: "window_spec option"

definition mk_canonical_rule :: "condition_clause \<Rightarrow> canonical_rule" where
  "mk_canonical_rule c =
     \<lparr>cn_metric = cl_metric c, cn_comparator = cl_comparator c, cn_threshold = cl_threshold c,
      cn_window = map_option canonical_window_payload (cl_window c)\<rparr>"

record key_payload =
  kp_decision_id :: string
  kp_plan_id :: string
  kp_rule_set_id :: string
  kp_market :: market
  kp_symbol :: string
  kp_action :: analysis_action
  kp_activation_epoch :: int

record hashing =
  hx_window :: "window_spec \<Rightarrow> string"
  hx_rules :: "canonical_rule list \<times> canonical_rule list \<Rightarrow> string"
  hx_bundle :: "trigger_bundle \<Rightarrow> string"
  hx_key :: "key_payload \<Rightarrow> string"

definition rule_set_id :: "hashing \<Rightarrow> trigger_plan \<Rightarrow> string" where
  "rule_set_id hx p = hx_rules hx (map mk_canonical_rule (pl_rules p), map mk_canonical_rule (pl_reset_rules p))"

definition bundle_fingerprint :: "hashing \<Rightarrow> trigger_bundle \<Rightarrow> string" where
  "bundle_fingerprint hx b = hx_bundle hx b"

section \<open>The engine\<close>

record trigger_engine =
  te_active :: "trigger_bundle option"
  te_state :: trigger_state
  te_rule_set_id :: string
  te_fingerprint :: string
  te_activation_epoch :: int
  te_debounce_count :: int
  te_first_true_at :: "instant option"
  te_reset_count :: int
  te_cooldown_until :: "instant option"
  te_fires :: int

definition new_engine :: trigger_engine where
  "new_engine =
     \<lparr>te_active = None, te_state = TS_DISARMED, te_rule_set_id = '''', te_fingerprint = '''',
      te_activation_epoch = 0, te_debounce_count = 0, te_first_true_at = None, te_reset_count = 0,
      te_cooldown_until = None, te_fires = 0\<rparr>"

definition install :: "hashing \<Rightarrow> trigger_engine \<Rightarrow> trigger_bundle \<Rightarrow> string \<Rightarrow> trigger_engine" where
  "install hx e b fingerprint =
     e\<lparr>te_active := Some b, te_fingerprint := fingerprint, te_activation_epoch := te_activation_epoch e + 1,
       te_debounce_count := 0, te_first_true_at := None, te_reset_count := 0, te_cooldown_until := None,
       te_fires := 0,
       te_state := (case bn_plan b of None \<Rightarrow> TS_DISARMED | Some _ \<Rightarrow> TS_ARMED),
       te_rule_set_id := (case bn_plan b of None \<Rightarrow> '''' | Some p \<Rightarrow> rule_set_id hx p)\<rparr>"

definition replace_bundle :: "hashing \<Rightarrow> trigger_engine \<Rightarrow> trigger_bundle \<Rightarrow> trigger_engine \<times> replace_status" where
  "replace_bundle hx e b =
     (let fingerprint = bundle_fingerprint hx b;
          incoming = bn_decision b;
          accept = (install hx e b fingerprint, REPLACED)
      in case te_active e of
           None \<Rightarrow> accept
         | Some current \<Rightarrow>
             let existing = bn_decision current;
                 same_id = (an_decision_id incoming = an_decision_id existing);
                 same_time = (an_created_at incoming = an_created_at existing)
             in if same_id \<and> same_time
                then (if fingerprint = te_fingerprint e then (e, UNCHANGED) else (e, REJECTED_CONFLICT))
                else if same_time \<and> \<not> same_id then (e, REJECTED_CONFLICT)
                else if an_created_at incoming < an_created_at existing then (e, REJECTED_OLDER)
                else accept)"

definition answer :: "trigger_status \<Rightarrow> trigger_state \<Rightarrow> trigger_reason option \<Rightarrow> trigger_evaluation" where
  "answer status state reason = \<lparr>tv_status = status, tv_state = state, tv_reason = reason, tv_signal = None\<rparr>"

definition suppressed :: "trigger_engine \<Rightarrow> trigger_reason \<Rightarrow> trigger_engine \<times> trigger_evaluation result" where
  "suppressed e reason = (e, Inr (answer SUPPRESSED (te_state e) (Some reason)))"

definition suppress_break :: "trigger_engine \<Rightarrow> trigger_reason \<Rightarrow> trigger_engine \<times> trigger_evaluation result" where
  "suppress_break e reason =
     (let e' = (if te_state e = TS_DEBOUNCING
                then e\<lparr>te_state := TS_ARMED, te_debounce_count := 0, te_first_true_at := None\<rparr>
                else if te_state e = TS_COOLDOWN then e\<lparr>te_reset_count := 0\<rparr>
                else e)
      in (e', Inr (answer SUPPRESSED (te_state e') (Some reason))))"

fun readiness_reason :: "indicator_readiness \<Rightarrow> trigger_reason option" where
  "readiness_reason MISSING = Some MISSING_INDICATOR"
| "readiness_reason WARMING = Some INDICATOR_WARMING"
| "readiness_reason DISCONTINUOUS = Some INDICATOR_DISCONTINUOUS"
| "readiness_reason STALE = Some INDICATOR_STALE"
| "readiness_reason FUTURE = Some INDICATOR_FUTURE"
| "readiness_reason INSUFFICIENT_RETENTION = Some INDICATOR_INSUFFICIENT_RETENTION"
| "readiness_reason READY = None"

definition coherence_reason :: "window_snapshot \<Rightarrow> trade_tick \<Rightarrow> trigger_reason option" where
  "coherence_reason w t =
     (let sq = tt_provider_sequence t
      in if iw_market w \<noteq> tt_market t \<or> iw_symbol w \<noteq> tt_symbol t then Some INDICATOR_IDENTITY_MISMATCH
         else if iw_provider w \<noteq> Some (sq_provider sq) \<or> iw_channel w \<noteq> Some (sq_channel sq)
         then Some INDICATOR_IDENTITY_MISMATCH
         else case (iw_latest_sequence w, iw_latest_event_time w, iw_latest_received_at w) of
           (Some latest_sequence, Some latest_event_time, Some latest_received_at) \<Rightarrow>
             if latest_sequence < sq_sequence sq \<or> latest_event_time < tt_trade_at t then Some INDICATOR_LAGGING
             else if latest_sequence = sq_sequence sq \<and> latest_event_time = tt_trade_at t \<and>
               latest_received_at = tt_received_at t then None
             else Some INDICATOR_IDENTITY_MISMATCH
         | _ \<Rightarrow> Some INDICATOR_IDENTITY_MISMATCH)"

fun gate_windows ::
  "hashing \<Rightarrow> indicator_context \<Rightarrow> trade_tick \<Rightarrow> window_spec list \<Rightarrow> trigger_reason option" where
  "gate_windows hx ctx trade [] = None"
| "gate_windows hx ctx trade (spec # specs) =
     (case context_get ctx (window_id (hx_window hx) spec) of
        None \<Rightarrow> Some MISSING_INDICATOR
      | Some w \<Rightarrow>
          (case readiness_reason (iw_readiness w) of
             Some r \<Rightarrow> Some r
           | None \<Rightarrow>
               (case coherence_reason w trade of
                  Some r \<Rightarrow> Some r
                | None \<Rightarrow> gate_windows hx ctx trade specs)))"

definition indicator_gate ::
  "hashing \<Rightarrow> trigger_plan \<Rightarrow> condition_clause list \<Rightarrow> market_state_snapshot \<Rightarrow> indicator_context option \<Rightarrow> instant \<Rightarrow>
   trigger_reason option" where
  "indicator_gate hx plan rules snapshot indicators now =
     (let required = rule_required_windows (hx_window hx) rules
      in if required = [] then None
         else case indicators of
           None \<Rightarrow> Some MISSING_INDICATOR
         | Some ctx \<Rightarrow>
             if cx_market ctx \<noteq> pl_market plan \<or> cx_symbol ctx \<noteq> pl_symbol plan then Some INDICATOR_IDENTITY_MISMATCH
             else if cx_evaluated_at ctx \<noteq> now then Some INDICATOR_CONTEXT_STALE
             else case ls_trade snapshot of
               None \<Rightarrow> Some MISSING_TRADE
             | Some trade \<Rightarrow> gate_windows hx ctx trade required)"

text \<open>The checks of one slot: it is filled, of the planned instrument, and fresh.\<close>

definition quote_gate :: "trigger_plan \<Rightarrow> market_state_snapshot \<Rightarrow> trigger_reason option" where
  "quote_gate plan snapshot =
     (case ls_quote snapshot of
        None \<Rightarrow> Some MISSING_QUOTE
      | Some q \<Rightarrow>
          if ba_market q \<noteq> pl_market plan \<or> ba_symbol q \<noteq> pl_symbol plan then Some SNAPSHOT_SYMBOL_MISMATCH
          else if \<not> ls_quote_fresh snapshot then Some STALE_QUOTE else None)"

definition trade_gate :: "trigger_plan \<Rightarrow> market_state_snapshot \<Rightarrow> trigger_reason option" where
  "trade_gate plan snapshot =
     (case ls_trade snapshot of
        None \<Rightarrow> Some MISSING_TRADE
      | Some t \<Rightarrow>
          if tt_market t \<noteq> pl_market plan \<or> tt_symbol t \<noteq> pl_symbol plan then Some SNAPSHOT_SYMBOL_MISMATCH
          else if \<not> ls_trade_fresh snapshot then Some STALE_TRADE else None)"

definition reset_slot_gate :: "trigger_plan \<Rightarrow> market_state_snapshot \<Rightarrow> trigger_reason option" where
  "reset_slot_gate plan snapshot =
     (if pl_reset_rules plan = [] then None
      else let (needs_trade, needs_quote) = rule_required_slots (pl_reset_rules plan)
           in case (if needs_quote then quote_gate plan snapshot else None) of
                Some r \<Rightarrow> Some r
              | None \<Rightarrow> if needs_trade then trade_gate plan snapshot else None)"

text \<open>The gates of \<^verbatim>\<open>_evaluate_locked\<close> between the lock check and the rules, in order.\<close>

definition entry_gate ::
  "hashing \<Rightarrow> trigger_plan \<Rightarrow> market_state_snapshot \<Rightarrow> trading_permission option \<Rightarrow> instant \<Rightarrow>
   indicator_context option \<Rightarrow> trigger_reason option" where
  "entry_gate hx plan snapshot permission now indicators =
     (if now < pl_valid_from plan then Some DECISION_NOT_YET_VALID
      else if pl_expires_at plan < now then Some STALE_DECISION
      else if ls_market snapshot \<noteq> pl_market plan then Some SNAPSHOT_MARKET_MISMATCH
      else if ls_symbol snapshot \<noteq> pl_symbol plan then Some SNAPSHOT_SYMBOL_MISMATCH
      else case permission of
        None \<Rightarrow> Some TRADING_NOT_ALLOWED
      | Some p \<Rightarrow>
          if tp_market p \<noteq> pl_market plan then Some PERMISSION_MARKET_MISMATCH
          else if \<not> tp_allowed p then Some TRADING_NOT_ALLOWED
          else if now < tp_checked_at p then Some PERMISSION_NOT_YET_VALID
          else if tp_valid_until p < now then Some STALE_PERMISSION
          else if ls_evaluated_at snapshot \<noteq> now then Some STALE_SNAPSHOT
          else case quote_gate plan snapshot of
            Some r \<Rightarrow> Some r
          | None \<Rightarrow>
              (case (if fst (rule_required_slots (pl_rules plan)) then trade_gate plan snapshot else None) of
                 Some r \<Rightarrow> Some r
               | None \<Rightarrow> indicator_gate hx plan (pl_rules plan) snapshot indicators now))"

definition observed ::
  "hashing \<Rightarrow> market_state_snapshot \<Rightarrow> indicator_context option \<Rightarrow> condition_clause \<Rightarrow> condition_observation result" where
  "observed hx snapshot indicators c =
     rbind (metric_value (hx_window hx) (cl_metric c) snapshot indicators (cl_window c)) (\<lambda>value.
     rbind (require (AssertionError ''value is not None'') value) (\<lambda>v.
     Inr \<lparr>co_metric = cl_metric c, co_value = v,
          co_window_id = map_option (window_id (hx_window hx)) (cl_window c)\<rparr>))"

definition idempotency_key :: "hashing \<Rightarrow> trigger_plan \<Rightarrow> string \<Rightarrow> int \<Rightarrow> string" where
  "idempotency_key hx plan rules_id epoch =
     hx_key hx \<lparr>kp_decision_id = pl_decision_id plan, kp_plan_id = pl_plan_id plan, kp_rule_set_id = rules_id,
       kp_market = pl_market plan, kp_symbol = pl_symbol plan, kp_action = pl_action plan,
       kp_activation_epoch = epoch\<rparr>"

definition fire ::
  "hashing \<Rightarrow> trigger_engine \<Rightarrow> trigger_plan \<Rightarrow> market_state_snapshot \<Rightarrow> instant \<Rightarrow> indicator_context option \<Rightarrow>
   trigger_engine \<times> trigger_evaluation result" where
  "fire hx e plan snapshot now indicators =
     (case ls_quote snapshot of
        None \<Rightarrow> (e, Inl (AssertionError ''snapshot.quote is not None''))
      | Some q \<Rightarrow>
          let reference_price = (if pl_action plan = Action_BUY then ba_ask_price q else ba_bid_price q)
          in case traverse (observed hx snapshot indicators) (pl_rules plan) of
               Inl err \<Rightarrow> (e, Inl err)
             | Inr observations \<Rightarrow>
                 let key = idempotency_key hx plan (te_rule_set_id e) (te_activation_epoch e);
                     signal = \<lparr>sg_trigger_id = key, sg_idempotency_key = key, sg_decision_id = pl_decision_id plan,
                       sg_plan_id = pl_plan_id plan, sg_market = pl_market plan, sg_symbol = pl_symbol plan,
                       sg_action = pl_action plan, sg_reference_price = reference_price,
                       sg_triggered_at = now, sg_condition_values = observations\<rparr>;
                     fires = te_fires e + 1
                 in if pl_max_fires plan \<le> fires
                    then (e\<lparr>te_fires := fires, te_state := TS_LOCKED\<rparr>,
                          Inr \<lparr>tv_status = TRIGGERED, tv_state = TS_LOCKED, tv_reason = None, tv_signal = Some signal\<rparr>)
                    else let cooldown = round_half_even (pl_cooldown_seconds plan * 1000000)
                         in if MAX_TIMEDELTA < cooldown
                            then (e\<lparr>te_fires := fires, te_state := TS_COOLDOWN\<rparr>,
                                  Inl (OverflowError ''days=%d; must have magnitude <= 999999999''))
                            else (e\<lparr>te_fires := fires, te_state := TS_COOLDOWN,
                                    te_cooldown_until := Some (now + cooldown), te_reset_count := 0,
                                    te_debounce_count := 0, te_first_true_at := None\<rparr>,
                                  Inr \<lparr>tv_status = TRIGGERED, tv_state = TS_COOLDOWN, tv_reason = None,
                                       tv_signal = Some signal\<rparr>))"

definition debounce_step ::
  "hashing \<Rightarrow> trigger_engine \<Rightarrow> trigger_plan \<Rightarrow> market_state_snapshot \<Rightarrow> instant \<Rightarrow> indicator_context option \<Rightarrow>
   trigger_engine \<times> trigger_evaluation result" where
  "debounce_step hx e plan snapshot now indicators =
     (let events_ok = (pl_debounce_events plan \<le> te_debounce_count e);
          seconds_ok = (case te_first_true_at e of None \<Rightarrow> False
            | Some t \<Rightarrow> pl_debounce_seconds plan \<le> of_int (now - t) / 1000000)
      in if \<not> (events_ok \<and> seconds_ok)
         then (e, Inr (answer DEBOUNCING TS_DEBOUNCING (Some DEBOUNCE_PENDING)))
         else fire hx e plan snapshot now indicators)"

definition armed_step ::
  "hashing \<Rightarrow> trigger_engine \<Rightarrow> trigger_plan \<Rightarrow> market_state_snapshot \<Rightarrow> instant \<Rightarrow> indicator_context option \<Rightarrow> bool \<Rightarrow>
   trigger_engine \<times> trigger_evaluation result" where
  "armed_step hx e plan snapshot now indicators condition_true =
     (if te_state e = TS_ARMED
      then (if \<not> condition_true
            then (e, Inr (answer CONDITION_NOT_MET TS_ARMED (Some CONDITION_FALSE)))
            else debounce_step hx
                   (e\<lparr>te_state := TS_DEBOUNCING, te_debounce_count := 1, te_first_true_at := Some now\<rparr>)
                   plan snapshot now indicators)
      else if te_state e = TS_DEBOUNCING
      then (if \<not> condition_true
            then (e\<lparr>te_state := TS_ARMED, te_debounce_count := 0, te_first_true_at := None\<rparr>,
                  Inr (answer CONDITION_NOT_MET TS_ARMED (Some CONDITION_FALSE)))
            else debounce_step hx (e\<lparr>te_debounce_count := te_debounce_count e + 1\<rparr>) plan snapshot now indicators)
      else debounce_step hx e plan snapshot now indicators)"

definition cooldown_step ::
  "hashing \<Rightarrow> trigger_engine \<Rightarrow> trigger_plan \<Rightarrow> market_state_snapshot \<Rightarrow> instant \<Rightarrow> indicator_context option \<Rightarrow> bool \<Rightarrow>
   trigger_engine \<times> trigger_evaluation result" where
  "cooldown_step hx e plan snapshot now indicators condition_true =
     (case reset_slot_gate plan snapshot of
        Some r \<Rightarrow> suppress_break e r
      | None \<Rightarrow>
          (case indicator_gate hx plan (pl_reset_rules plan) snapshot indicators now of
             Some r \<Rightarrow> suppress_break e r
           | None \<Rightarrow>
               (case (if pl_reset_rules plan \<noteq> []
                      then evaluate_all (hx_window hx) (pl_reset_rules plan) snapshot indicators
                      else Inr (\<not> condition_true)) of
                  Inl err \<Rightarrow> (e, Inl err)
                | Inr reset_true \<Rightarrow>
                    let e1 = e\<lparr>te_reset_count := (if reset_true then te_reset_count e + 1 else 0)\<rparr>;
                        cooldown_done = (case te_cooldown_until e of None \<Rightarrow> True | Some t \<Rightarrow> t \<le> now)
                    in if cooldown_done \<and> pl_reset_events plan \<le> te_reset_count e1 \<and> te_fires e1 < pl_max_fires plan
                       then armed_step hx
                              (e1\<lparr>te_state := TS_ARMED, te_activation_epoch := te_activation_epoch e1 + 1,
                                 te_debounce_count := 0, te_first_true_at := None, te_reset_count := 0,
                                 te_cooldown_until := None\<rparr>)
                              plan snapshot now indicators condition_true
                       else (e1, Inr (answer COOLDOWN TS_COOLDOWN (Some COOLDOWN_ACTIVE))))))"

definition evaluate_engine ::
  "hashing \<Rightarrow> trigger_engine \<Rightarrow> market_state_snapshot \<Rightarrow> trading_permission option \<Rightarrow> instant \<Rightarrow>
   indicator_context option \<Rightarrow> trigger_engine \<times> trigger_evaluation result" where
  "evaluate_engine hx e snapshot permission now indicators =
     (case te_active e of
        None \<Rightarrow> suppressed e NO_ACTIVE_DECISION
      | Some b \<Rightarrow>
          (case bn_plan b of
             None \<Rightarrow> (e, Inr (answer SUPPRESSED TS_DISARMED (Some HOLD_ACTION)))
           | Some plan \<Rightarrow>
               if te_state e = TS_LOCKED
               then (e, Inr (answer ALREADY_FIRED TS_LOCKED (Some MAX_FIRES_REACHED)))
               else case entry_gate hx plan snapshot permission now indicators of
                 Some r \<Rightarrow> suppress_break e r
               | None \<Rightarrow>
                   (case evaluate_all (hx_window hx) (pl_rules plan) snapshot indicators of
                      Inl err \<Rightarrow> (e, Inl err)
                    | Inr condition_true \<Rightarrow>
                        if te_state e = TS_COOLDOWN
                        then cooldown_step hx e plan snapshot now indicators condition_true
                        else armed_step hx e plan snapshot now indicators condition_true)))"

section \<open>Inversion of a fire\<close>

text \<open>The fields no evaluation changes.\<close>

definition same_install :: "trigger_engine \<Rightarrow> trigger_engine \<Rightarrow> bool" where
  "same_install e' e \<longleftrightarrow>
     te_active e' = te_active e \<and> te_rule_set_id e' = te_rule_set_id e \<and> te_fingerprint e' = te_fingerprint e"

definition fired_signal ::
  "hashing \<Rightarrow> trigger_plan \<Rightarrow> string \<Rightarrow> int \<Rightarrow> best_bid_ask \<Rightarrow> instant \<Rightarrow> condition_observation list \<Rightarrow> trigger_signal" where
  "fired_signal hx plan rules_id epoch q now obs =
     \<lparr>sg_trigger_id = idempotency_key hx plan rules_id epoch,
      sg_idempotency_key = idempotency_key hx plan rules_id epoch, sg_decision_id = pl_decision_id plan,
      sg_plan_id = pl_plan_id plan, sg_market = pl_market plan, sg_symbol = pl_symbol plan,
      sg_action = pl_action plan,
      sg_reference_price = (if pl_action plan = Action_BUY then ba_ask_price q else ba_bid_price q),
      sg_triggered_at = now, sg_condition_values = obs\<rparr>"

definition cooldown_of :: "trigger_plan \<Rightarrow> int" where
  "cooldown_of plan = round_half_even (pl_cooldown_seconds plan * 1000000)"

lemma fire_frame:
  assumes "fire hx e plan snapshot now indicators = (e', res)"
  shows "same_install e' e \<and> te_activation_epoch e' = te_activation_epoch e \<and>
    (e' = e \<or> te_fires e' = te_fires e + 1 \<and>
       te_state e' = (if pl_max_fires plan \<le> te_fires e + 1 then TS_LOCKED else TS_COOLDOWN))"
  using assms unfolding fire_def
  by (auto simp: Let_def same_install_def split: option.splits sum.splits if_splits)

lemma fire_Inr:
  assumes "fire hx e plan snapshot now indicators = (e', Inr ev)"
  obtains q obs where "ls_quote snapshot = Some q"
    and "traverse (observed hx snapshot indicators) (pl_rules plan) = Inr obs"
    and "tv_signal ev = Some (fired_signal hx plan (te_rule_set_id e) (te_activation_epoch e) q now obs)"
    and "tv_status ev = TRIGGERED" and "te_fires e' = te_fires e + 1"
    and "te_state e' = (if pl_max_fires plan \<le> te_fires e + 1 then TS_LOCKED else TS_COOLDOWN)"
    and "te_state e' = TS_COOLDOWN \<Longrightarrow> te_cooldown_until e' = Some (now + cooldown_of plan)"
  using assms unfolding fire_def
  by (auto simp: Let_def fired_signal_def cooldown_of_def split: option.splits sum.splits if_splits)

lemma debounce_step_cases:
  assumes "debounce_step hx e plan snapshot now indicators = (e', res)"
  obtains (pending) "e' = e" "res = Inr (answer DEBOUNCING TS_DEBOUNCING (Some DEBOUNCE_PENDING))"
  | (fires) t where "pl_debounce_events plan \<le> te_debounce_count e" "te_first_true_at e = Some t"
      "pl_debounce_seconds plan \<le> of_int (now - t) / 1000000"
      "fire hx e plan snapshot now indicators = (e', res)"
  using assms unfolding debounce_step_def
  by (auto simp: Let_def split: option.splits if_splits)

lemma answer_simps [simp]:
  "tv_status (answer st s r) = st" "tv_state (answer st s r) = s" "tv_reason (answer st s r) = r"
  "tv_signal (answer st s r) = None"
  by (simp_all add: answer_def)

text \<open>The states an engine with a plan can be in, and the state the debounce check starts from.\<close>

definition begin_debounce :: "trigger_engine \<Rightarrow> instant \<Rightarrow> trigger_engine" where
  "begin_debounce e now =
     (if te_state e = TS_DEBOUNCING then e\<lparr>te_debounce_count := te_debounce_count e + 1\<rparr>
      else e\<lparr>te_state := TS_DEBOUNCING, te_debounce_count := 1, te_first_true_at := Some now\<rparr>)"

definition rearm :: "trigger_engine \<Rightarrow> trigger_engine" where
  "rearm e = e\<lparr>te_state := TS_ARMED, te_activation_epoch := te_activation_epoch e + 1, te_debounce_count := 0,
     te_first_true_at := None, te_reset_count := 0, te_cooldown_until := None\<rparr>"

definition disarm_debounce :: "trigger_engine \<Rightarrow> trigger_engine" where
  "disarm_debounce e =
     (if te_state e = TS_DEBOUNCING then e\<lparr>te_state := TS_ARMED, te_debounce_count := 0, te_first_true_at := None\<rparr> else e)"

lemma armed_step_cases:
  assumes "armed_step hx e plan snapshot now indicators c = (e', res)" and "te_state e \<in> {TS_ARMED, TS_DEBOUNCING}"
  obtains (unmet) "\<not> c" "e' = disarm_debounce e" "res = Inr (answer CONDITION_NOT_MET TS_ARMED (Some CONDITION_FALSE))"
  | (met) c "debounce_step hx (begin_debounce e now) plan snapshot now indicators = (e', res)"
  using assms unfolding armed_step_def
  by (auto simp: begin_debounce_def disarm_debounce_def split: if_splits)

definition broken :: "trigger_engine \<Rightarrow> trigger_engine" where
  "broken e = (if te_state e = TS_COOLDOWN then e\<lparr>te_reset_count := 0\<rparr> else disarm_debounce e)"

lemma suppress_break_eq:
  "suppress_break e r = (broken e, Inr (answer SUPPRESSED (te_state (broken e)) (Some r)))"
  by (auto simp: suppress_break_def broken_def disarm_debounce_def)

definition counted :: "trigger_engine \<Rightarrow> bool \<Rightarrow> trigger_engine" where
  "counted e reset_true = e\<lparr>te_reset_count := (if reset_true then te_reset_count e + 1 else 0)\<rparr>"

lemma cooldown_step_cases:
  assumes "cooldown_step hx e plan snapshot now indicators c = (e', res)"
  obtains (broke) r where "e' = broken e" "res = Inr (answer SUPPRESSED (te_state (broken e)) (Some r))"
  | (raised) err where "e' = e" "res = Inl err"
  | (waiting) reset_true where "e' = counted e reset_true" "res = Inr (answer COOLDOWN TS_COOLDOWN (Some COOLDOWN_ACTIVE))"
  | (rearmed) reset_true where "te_fires e < pl_max_fires plan"
      "case te_cooldown_until e of None \<Rightarrow> True | Some t \<Rightarrow> t \<le> now"
      "pl_reset_events plan \<le> te_reset_count (counted e reset_true)"
      "armed_step hx (rearm (counted e reset_true)) plan snapshot now indicators c = (e', res)"
proof (cases "reset_slot_gate plan snapshot")
  case (Some r)
  show thesis by (rule broke [of r]) (use assms Some in \<open>auto simp: cooldown_step_def suppress_break_eq\<close>)
next
  case slots: None
  show thesis
  proof (cases "indicator_gate hx plan (pl_reset_rules plan) snapshot indicators now")
    case (Some r)
    show thesis by (rule broke [of r]) (use assms slots Some in \<open>auto simp: cooldown_step_def suppress_break_eq\<close>)
  next
    case windows: None
    show thesis
    proof (cases "if pl_reset_rules plan \<noteq> [] then evaluate_all (hx_window hx) (pl_reset_rules plan) snapshot indicators
        else Inr (\<not> c)")
      case (Inl err)
      show thesis by (rule raised [of err]) (use assms slots windows Inl in \<open>auto simp: cooldown_step_def\<close>)
    next
      case (Inr r)
      let ?go = "(case te_cooldown_until e of None \<Rightarrow> True | Some t \<Rightarrow> t \<le> now) \<and>
        pl_reset_events plan \<le> te_reset_count (counted e r) \<and> te_fires e < pl_max_fires plan"
      have eq: "(e', res) = (if ?go then armed_step hx (rearm (counted e r)) plan snapshot now indicators c
          else (counted e r, Inr (answer COOLDOWN TS_COOLDOWN (Some COOLDOWN_ACTIVE))))"
        using assms [symmetric] unfolding cooldown_step_def slots windows Inr
        by (cases r) (simp_all add: Let_def counted_def rearm_def)
      show thesis
      proof (cases ?go)
        case True
        show thesis by (rule rearmed [of r]) (use True eq in simp_all)
      next
        case False
        show thesis by (rule waiting [of r]) (use eq in \<open>simp_all only: if_not_P [OF False] prod.inject\<close>)
      qed
    qed
  qed
qed

lemma armed_step_split:
  assumes "armed_step hx e plan snapshot now indicators c = (e', res)" and "te_state e \<in> {TS_ARMED, TS_DEBOUNCING}"
  shows "(\<exists>v. e' = disarm_debounce e \<and> res = Inr v \<and> tv_signal v = None \<and> tv_status v = CONDITION_NOT_MET) \<or>
    (c \<and> debounce_step hx (begin_debounce e now) plan snapshot now indicators = (e', res))"
  using assms by (cases rule: armed_step_cases) auto

text \<open>The invariant of an engine that has only been given validated bundles.\<close>

definition bundle_ok :: "trigger_bundle \<Rightarrow> bool" where
  "bundle_ok b \<longleftrightarrow> (case bn_plan b of None \<Rightarrow> True | Some p \<Rightarrow> validate_plan p = Inr p)"

definition engine_inv :: "hashing \<Rightarrow> trigger_engine \<Rightarrow> bool" where
  "engine_inv hx e \<longleftrightarrow>
     (case te_active e of
        None \<Rightarrow> te_state e = TS_DISARMED
      | Some b \<Rightarrow> bundle_ok b \<and>
          (case bn_plan b of
             None \<Rightarrow> te_state e = TS_DISARMED
           | Some p \<Rightarrow> te_state e \<in> {TS_ARMED, TS_DEBOUNCING, TS_COOLDOWN, TS_LOCKED} \<and>
               te_rule_set_id e = rule_set_id hx p \<and> 0 \<le> te_fires e \<and> te_fires e \<le> pl_max_fires p \<and>
               (te_state e = TS_LOCKED \<longleftrightarrow> te_fires e = pl_max_fires p) \<and>
               (te_state e = TS_DEBOUNCING \<longrightarrow> 1 \<le> te_debounce_count e)))"

lemma validate_plan_max_fires: "validate_plan p = Inr p \<Longrightarrow> 1 \<le> pl_max_fires p"
  by (simp add: validate_plan_def split: if_splits)

lemma new_engine_inv: "engine_inv hx new_engine"
  by (simp add: engine_inv_def new_engine_def)

lemma install_inv: "bundle_ok b \<Longrightarrow> engine_inv hx (install hx e b fp)"
  by (auto simp: engine_inv_def install_def bundle_ok_def dest!: validate_plan_max_fires split: option.splits)

lemma replace_bundle_cases:
  "replace_bundle hx e b = (e', st) \<Longrightarrow>
     (st = REPLACED \<and> e' = install hx e b (bundle_fingerprint hx b)) \<or> (st \<noteq> REPLACED \<and> e' = e)"
  unfolding replace_bundle_def by (auto simp: Let_def split: option.splits if_splits)

text \<open>
  Every evaluation of an engine with a plan, classified: the engine stays as it is or is broken
  off, counts resets, waits in the debounce, or fires from \<open>begin_debounce\<close> of itself or of
  the re-armed engine.
\<close>

lemma evaluate_engine_cases:
  assumes ev: "evaluate_engine hx e snapshot permission now indicators = (e', res)" and inv: "engine_inv hx e"
  obtains (idle) "e' = e" "\<And>v. res = Inr v \<Longrightarrow> tv_signal v = None \<and> tv_status v \<notin> {DEBOUNCING, TRIGGERED} \<and>
      te_state e \<in> {TS_DISARMED, TS_LOCKED}"
  | (broke) v where "te_state e \<noteq> TS_LOCKED" "e' = broken e" "res = Inr v" "tv_signal v = None" "tv_status v = SUPPRESSED"
  | (waiting) v reset_true where "te_state e = TS_COOLDOWN" "e' = counted e reset_true" "res = Inr v" "tv_signal v = None"
      "tv_status v = COOLDOWN"
  | (active) b plan e0 where "te_active e = Some b" "bn_plan b = Some plan" "te_fires e < pl_max_fires plan"
      "entry_gate hx plan snapshot permission now indicators = None"
      "if te_state e = TS_COOLDOWN
       then (case te_cooldown_until e of None \<Rightarrow> True | Some t \<Rightarrow> t \<le> now) \<and> (\<exists>r. e0 = rearm (counted e r))
       else te_state e \<in> {TS_ARMED, TS_DEBOUNCING} \<and> e0 = e"
      "(\<exists>v. e' = disarm_debounce e0 \<and> res = Inr v \<and> tv_signal v = None \<and> tv_status v = CONDITION_NOT_MET) \<or>
       (evaluate_all (hx_window hx) (pl_rules plan) snapshot indicators = Inr True \<and>
        debounce_step hx (begin_debounce e0 now) plan snapshot now indicators = (e', res))"
proof (cases "te_active e")
  case None
  show thesis by (rule idle) (use ev inv None in \<open>auto simp: evaluate_engine_def suppressed_def engine_inv_def\<close>)
next
  case active: (Some b)
  show thesis
  proof (cases "bn_plan b")
    case None
    show thesis by (rule idle) (use ev inv active None in \<open>auto simp: evaluate_engine_def engine_inv_def\<close>)
  next
    case (Some plan)
    show thesis
    proof (cases "te_state e = TS_LOCKED")
      case True
      show thesis by (rule idle) (use ev active Some True in \<open>auto simp: evaluate_engine_def\<close>)
    next
      case unlocked: False
      have fires: "te_fires e < pl_max_fires plan"
        and st: "te_state e \<in> {TS_ARMED, TS_DEBOUNCING, TS_COOLDOWN}"
        using inv active Some unlocked by (auto simp: engine_inv_def)
      show thesis
      proof (cases "entry_gate hx plan snapshot permission now indicators")
        case (Some r)
        show thesis
          by (rule broke [of "answer SUPPRESSED (te_state (broken e)) (Some r)"])
            (use ev active \<open>bn_plan b = Some plan\<close> Some unlocked in \<open>auto simp: evaluate_engine_def suppress_break_eq\<close>)
      next
        case gate: None
        show thesis
        proof (cases "evaluate_all (hx_window hx) (pl_rules plan) snapshot indicators")
          case (Inl err)
          show thesis
            by (rule idle) (use ev active \<open>bn_plan b = Some plan\<close> gate unlocked Inl in \<open>auto simp: evaluate_engine_def\<close>)
        next
          case (Inr c)
          show thesis
          proof (cases "te_state e = TS_COOLDOWN")
            case True
            then have step: "cooldown_step hx e plan snapshot now indicators c = (e', res)"
              using ev active \<open>bn_plan b = Some plan\<close> gate Inr by (simp add: evaluate_engine_def)
            then show thesis
            proof (cases rule: cooldown_step_cases)
              case (broke r)
              show thesis by (rule that(2)) (use unlocked broke in auto)
            next
              case (raised err)
              show thesis by (rule idle) (use raised in auto)
            next
              case (waiting r)
              show thesis by (rule that(3)) (use True waiting in auto)
            next
              case (rearmed r)
              have arm: "te_state (rearm (counted e r)) \<in> {TS_ARMED, TS_DEBOUNCING}" by (simp add: rearm_def)
              show thesis
              proof (rule that(4) [OF active Some fires gate, of "rearm (counted e r)"])
                show "if te_state e = TS_COOLDOWN
                  then (case te_cooldown_until e of None \<Rightarrow> True | Some t \<Rightarrow> t \<le> now) \<and>
                    (\<exists>r'. rearm (counted e r) = rearm (counted e r'))
                  else te_state e \<in> {TS_ARMED, TS_DEBOUNCING} \<and> rearm (counted e r) = e"
                  using True rearmed(2) by auto
              qed (use armed_step_split [OF rearmed(4) arm] Inr in auto)
            qed
          next
            case False
            then have arm: "te_state e \<in> {TS_ARMED, TS_DEBOUNCING}" using st by auto
            from False have step: "armed_step hx e plan snapshot now indicators c = (e', res)"
              using ev active \<open>bn_plan b = Some plan\<close> gate Inr unlocked by (simp add: evaluate_engine_def)
            show thesis
              by (rule that(4) [OF active Some fires gate, of e])
                (use False arm Inr armed_step_split [OF step arm] in auto)
          qed
        qed
      qed
    qed
  qed
qed

section \<open>Invariant and frames\<close>

lemma transition_simps [simp]:
  "te_active (broken e) = te_active e" "te_rule_set_id (broken e) = te_rule_set_id e"
  "te_fingerprint (broken e) = te_fingerprint e" "te_fires (broken e) = te_fires e"
  "te_activation_epoch (broken e) = te_activation_epoch e" "te_cooldown_until (broken e) = te_cooldown_until e"
  "te_active (disarm_debounce e) = te_active e" "te_rule_set_id (disarm_debounce e) = te_rule_set_id e"
  "te_fingerprint (disarm_debounce e) = te_fingerprint e" "te_fires (disarm_debounce e) = te_fires e"
  "te_activation_epoch (disarm_debounce e) = te_activation_epoch e"
  "te_active (begin_debounce e now) = te_active e" "te_rule_set_id (begin_debounce e now) = te_rule_set_id e"
  "te_fingerprint (begin_debounce e now) = te_fingerprint e" "te_fires (begin_debounce e now) = te_fires e"
  "te_activation_epoch (begin_debounce e now) = te_activation_epoch e"
  "te_state (begin_debounce e now) = TS_DEBOUNCING"
  "te_active (rearm e) = te_active e" "te_rule_set_id (rearm e) = te_rule_set_id e"
  "te_fingerprint (rearm e) = te_fingerprint e" "te_fires (rearm e) = te_fires e"
  "te_activation_epoch (rearm e) = te_activation_epoch e + 1" "te_state (rearm e) = TS_ARMED"
  "te_active (counted e r) = te_active e" "te_rule_set_id (counted e r) = te_rule_set_id e"
  "te_fingerprint (counted e r) = te_fingerprint e" "te_fires (counted e r) = te_fires e"
  "te_activation_epoch (counted e r) = te_activation_epoch e" "te_state (counted e r) = te_state e"
  "te_cooldown_until (counted e r) = te_cooldown_until e"
  by (simp_all add: broken_def disarm_debounce_def begin_debounce_def rearm_def counted_def)

lemma state_broken: "te_state (broken e) = (if te_state e = TS_DEBOUNCING then TS_ARMED else te_state e)"
  by (simp add: broken_def disarm_debounce_def)

lemma state_disarm: "te_state (disarm_debounce e) = (if te_state e = TS_DEBOUNCING then TS_ARMED else te_state e)"
  by (simp add: disarm_debounce_def)

text \<open>
  What one evaluation does, as the rest of the proofs use it. \<open>spent\<close> is the highest activation
  epoch that can already have been used in a key.
\<close>

definition spent :: "trigger_engine \<Rightarrow> int" where
  "spent e = (if te_state e \<in> {TS_ARMED, TS_DEBOUNCING} then te_activation_epoch e - 1 else te_activation_epoch e)"

lemma evaluate_engine_step:
  assumes ev: "evaluate_engine hx e snapshot permission now indicators = (e', res)" and inv: "engine_inv hx e"
  shows "engine_inv hx e'" and "same_install e' e" and "te_fires e \<le> te_fires e'" and "spent e \<le> spent e'"
    and "res = Inr v \<Longrightarrow> tv_signal v = Some sg \<Longrightarrow>
      (\<exists>plan rid n. sg_idempotency_key sg = idempotency_key hx plan rid n \<and> spent e < n \<and> n \<le> spent e') \<and>
      te_fires e' = te_fires e + 1"
proof -
  have "engine_inv hx e' \<and> same_install e' e \<and> te_fires e \<le> te_fires e' \<and> spent e \<le> spent e' \<and>
    (\<forall>v sg. res = Inr v \<and> tv_signal v = Some sg \<longrightarrow>
      (\<exists>plan rid n. sg_idempotency_key sg = idempotency_key hx plan rid n \<and> spent e < n \<and> n \<le> spent e') \<and>
      te_fires e' = te_fires e + 1)"
    using ev inv
  proof (cases rule: evaluate_engine_cases)
    case idle
    then show ?thesis using inv by (auto simp: same_install_def)
  next
    case (broke v)
    then show ?thesis using inv
      by (auto simp: same_install_def spent_def state_broken engine_inv_def split: option.splits)
  next
    case (waiting v r)
    then show ?thesis using inv
      by (auto simp: same_install_def spent_def engine_inv_def split: option.splits)
  next
    case (active b plan e0)
    have e0: "te_active e0 = te_active e" "te_rule_set_id e0 = te_rule_set_id e" "te_fingerprint e0 = te_fingerprint e"
      "te_fires e0 = te_fires e" "te_state e0 \<in> {TS_ARMED, TS_DEBOUNCING}" "te_activation_epoch e0 = spent e + 1"
      "te_state e0 = TS_DEBOUNCING \<Longrightarrow> 1 \<le> te_debounce_count e0"
      using active(1,2,5) inv by (auto simp: spent_def engine_inv_def split: if_splits)
    from active(6) show ?thesis
    proof
      assume "\<exists>v. e' = disarm_debounce e0 \<and> res = Inr v \<and> tv_signal v = None \<and> tv_status v = CONDITION_NOT_MET"
      then show ?thesis using inv active(1-3) e0
        by (auto simp: same_install_def spent_def state_disarm engine_inv_def)
    next
      assume "evaluate_all (hx_window hx) (pl_rules plan) snapshot indicators = Inr True \<and>
        debounce_step hx (begin_debounce e0 now) plan snapshot now indicators = (e', res)"
      then have step: "debounce_step hx (begin_debounce e0 now) plan snapshot now indicators = (e', res)" by simp
      have "1 \<le> te_debounce_count (begin_debounce e0 now)" using e0(7) by (fastforce simp: begin_debounce_def)
      then have d: "engine_inv hx (begin_debounce e0 now)" "same_install (begin_debounce e0 now) e"
        "spent (begin_debounce e0 now) = spent e"
        using inv active(1-3) e0 by (auto simp: same_install_def spent_def engine_inv_def)
      from step show ?thesis
      proof (cases rule: debounce_step_cases)
        case pending
        then show ?thesis using d e0(4) by auto
      next
        case (fires t)
        note frame = fire_frame [OF fires(4), simplified]
        show ?thesis
        proof (cases "e' = begin_debounce e0 now")
          case True
          have "te_fires (begin_debounce e0 now) = te_fires e" using e0(4) by simp
          moreover have "\<not> (res = Inr v \<and> tv_signal v = Some sg)" for v sg
            using fires(4) True by (auto elim!: fire_Inr)
          ultimately show ?thesis using d by (auto simp: True)
        next
          case False
          then have st: "te_fires e' = te_fires e + 1"
              "te_state e' = (if pl_max_fires plan \<le> te_fires e + 1 then TS_LOCKED else TS_COOLDOWN)"
            and same: "same_install e' e" and epoch: "te_activation_epoch e' = spent e + 1"
            using frame e0 by (simp_all add: same_install_def)
          have "engine_inv hx e'"
            using d(1) st same active(1-3) e0 by (simp add: engine_inv_def same_install_def)
          moreover have "spent e' = spent e + 1" using st(2) epoch by (simp add: spent_def)
          moreover have "sg_idempotency_key sg = idempotency_key hx plan (te_rule_set_id e0) (spent e + 1)"
            if "res = Inr v" "tv_signal v = Some sg" for v sg
            using fires(4) that e0 by (auto elim!: fire_Inr simp: fired_signal_def)
          ultimately show ?thesis using same st(1) by (auto intro!: exI)
        qed
      qed
    qed
  qed
  then show "engine_inv hx e'" and "same_install e' e" and "te_fires e \<le> te_fires e'" and "spent e \<le> spent e'"
    and "res = Inr v \<Longrightarrow> tv_signal v = Some sg \<Longrightarrow>
      (\<exists>plan rid n. sg_idempotency_key sg = idempotency_key hx plan rid n \<and> spent e < n \<and> n \<le> spent e') \<and>
      te_fires e' = te_fires e + 1"
    by blast+
qed

section \<open>A fire has passed every gate\<close>

lemma entry_gate_None:
  assumes "entry_gate hx plan snapshot permission now indicators = None"
  shows "pl_valid_from plan \<le> now \<and> now \<le> pl_expires_at plan \<and> ls_evaluated_at snapshot = now"
    and "\<exists>p. permission = Some p \<and> tp_allowed p \<and> tp_market p = pl_market plan \<and> tp_checked_at p \<le> now \<and> now \<le> tp_valid_until p"
    and "\<exists>q. ls_quote snapshot = Some q \<and> ls_quote_fresh snapshot \<and> ba_market q = pl_market plan \<and> ba_symbol q = pl_symbol plan"
    and "indicator_gate hx plan (pl_rules plan) snapshot indicators now = None"
  using assms by (auto simp: entry_gate_def quote_gate_def split: if_splits option.splits)

definition coherent_window :: "hashing \<Rightarrow> indicator_context \<Rightarrow> trade_tick \<Rightarrow> window_spec \<Rightarrow> bool" where
  "coherent_window hx ctx trade spec \<longleftrightarrow>
     (case context_get ctx (window_id (hx_window hx) spec) of
        None \<Rightarrow> False
      | Some w \<Rightarrow> iw_readiness w = READY \<and> iw_market w = tt_market trade \<and> iw_symbol w = tt_symbol trade \<and>
          iw_latest_sequence w = Some (sq_sequence (tt_provider_sequence trade)) \<and>
          iw_latest_event_time w = Some (tt_trade_at trade))"

lemma readiness_reason_None: "readiness_reason r = None \<longleftrightarrow> r = READY"
  by (cases r) auto

lemma coherence_reason_None:
  "coherence_reason w t = None \<Longrightarrow> iw_market w = tt_market t \<and> iw_symbol w = tt_symbol t \<and>
     iw_latest_sequence w = Some (sq_sequence (tt_provider_sequence t)) \<and> iw_latest_event_time w = Some (tt_trade_at t)"
  unfolding coherence_reason_def by (auto simp: Let_def split: if_splits option.splits)

lemma gate_windows_None:
  "gate_windows hx ctx trade specs = None \<Longrightarrow> spec \<in> set specs \<Longrightarrow> coherent_window hx ctx trade spec"
  by (induction specs)
    (auto simp: coherent_window_def readiness_reason_None dest: coherence_reason_None split: option.splits)

lemma indicator_gate_None:
  assumes "indicator_gate hx plan rules snapshot indicators now = None" and "c \<in> set rules" and "cl_window c = Some spec"
  shows "\<exists>ctx trade. indicators = Some ctx \<and> cx_evaluated_at ctx = now \<and> ls_trade snapshot = Some trade \<and>
    coherent_window hx ctx trade spec"
proof -
  obtain spec' where spec': "spec' \<in> set (rule_required_windows (hx_window hx) rules)"
    "window_id (hx_window hx) spec = window_id (hx_window hx) spec'"
    using required_window_listed [OF assms(2,3)] by (rule imageE)
  then have "rule_required_windows (hx_window hx) rules \<noteq> []" by auto
  with assms(1) obtain ctx trade where "indicators = Some ctx" "cx_evaluated_at ctx = now" "ls_trade snapshot = Some trade"
    "gate_windows hx ctx trade (rule_required_windows (hx_window hx) rules) = None"
    unfolding indicator_gate_def Let_def by (auto split: option.splits if_splits)
  moreover from gate_windows_None [OF this(4) spec'(1)] have "coherent_window hx ctx trade spec"
    by (simp add: coherent_window_def spec'(2))
  ultimately show ?thesis by blast
qed

lemma triggered_cases:
  assumes inv: "engine_inv hx e" and ev: "evaluate_engine hx e snapshot permission now indicators = (e', Inr v)"
    and "tv_status v = TRIGGERED"
  obtains b plan e0 t where "te_active e = Some b" "bn_plan b = Some plan" "te_fires e < pl_max_fires plan"
    "entry_gate hx plan snapshot permission now indicators = None"
    "evaluate_all (hx_window hx) (pl_rules plan) snapshot indicators = Inr True"
    "if te_state e = TS_COOLDOWN
       then (case te_cooldown_until e of None \<Rightarrow> True | Some t \<Rightarrow> t \<le> now) \<and> (\<exists>r. e0 = rearm (counted e r))
       else te_state e \<in> {TS_ARMED, TS_DEBOUNCING} \<and> e0 = e"
    "pl_debounce_events plan \<le> te_debounce_count (begin_debounce e0 now)"
    "te_first_true_at (begin_debounce e0 now) = Some t" "pl_debounce_seconds plan \<le> of_int (now - t) / 1000000"
    "fire hx (begin_debounce e0 now) plan snapshot now indicators = (e', Inr v)"
  using ev inv
proof (cases rule: evaluate_engine_cases)
  case (active b plan e0)
  then have all: "evaluate_all (hx_window hx) (pl_rules plan) snapshot indicators = Inr True"
    and step: "debounce_step hx (begin_debounce e0 now) plan snapshot now indicators = (e', Inr v)"
    using assms(3) by auto
  from step show thesis
  proof (cases rule: debounce_step_cases)
    case (fires t)
    show thesis by (rule that [OF active(1-4) all active(5) fires])
  qed (use assms(3) in auto)
qed (use assms(3) in auto)

text \<open>
  C7. A signal is only ever emitted through every gate. When an evaluation answers TRIGGERED, the
  active bundle has a plan, the instant lies in its validity window and in that of a permission
  which allows trading on its market, the snapshot was taken at this very instant, its quote is
  fresh and of the planned instrument, every rule of the plan holds on the snapshot, every rolling
  window a rule reads was evaluated at this instant, is READY and ends at the latest trade, the
  plan's fires were not used up, and the signal carries the plan's identity with the ask as
  reference price for a BUY and the bid for a SELL.
\<close>

theorem triggered_through_every_gate:
  assumes "engine_inv hx e" and "evaluate_engine hx e snapshot permission now indicators = (e', Inr v)"
    and "tv_status v = TRIGGERED"
  shows "\<exists>b plan p q sg. te_active e = Some b \<and> bn_plan b = Some plan \<and> te_fires e < pl_max_fires plan \<and>
    pl_valid_from plan \<le> now \<and> now \<le> pl_expires_at plan \<and>
    permission = Some p \<and> tp_allowed p \<and> tp_market p = pl_market plan \<and> tp_checked_at p \<le> now \<and> now \<le> tp_valid_until p \<and>
    ls_evaluated_at snapshot = now \<and> ls_quote snapshot = Some q \<and> ls_quote_fresh snapshot \<and>
    ba_market q = pl_market plan \<and> ba_symbol q = pl_symbol plan \<and>
    (\<forall>c\<in>set (pl_rules plan). evaluate_clause (hx_window hx) c snapshot indicators = Inr True \<and>
       (\<forall>spec. cl_window c = Some spec \<longrightarrow> (\<exists>ctx trade. indicators = Some ctx \<and> cx_evaluated_at ctx = now \<and>
          ls_trade snapshot = Some trade \<and> coherent_window hx ctx trade spec))) \<and>
    tv_signal v = Some sg \<and> sg_decision_id sg = pl_decision_id plan \<and> sg_plan_id sg = pl_plan_id plan \<and>
    sg_market sg = pl_market plan \<and> sg_symbol sg = pl_symbol plan \<and> sg_action sg = pl_action plan \<and>
    sg_triggered_at sg = now \<and>
    sg_reference_price sg = (if pl_action plan = Action_BUY then ba_ask_price q else ba_bid_price q)"
  using assms
proof (cases rule: triggered_cases)
  case (1 b plan e0 t)
  note gate = entry_gate_None [OF 1(4)]
  obtain p where p: "permission = Some p \<and> tp_allowed p \<and> tp_market p = pl_market plan \<and> tp_checked_at p \<le> now \<and>
      now \<le> tp_valid_until p" using gate(2) by blast
  obtain q where q: "ls_quote snapshot = Some q \<and> ls_quote_fresh snapshot \<and> ba_market q = pl_market plan \<and>
      ba_symbol q = pl_symbol plan" using gate(3) by blast
  have clauses: "evaluate_clause (hx_window hx) c snapshot indicators = Inr True" if "c \<in> set (pl_rules plan)" for c
    using 1(5) that by (auto simp: evaluate_all_def all_clauses_True_iff split: if_splits)
  obtain obs where sg: "tv_signal v = Some (fired_signal hx plan (te_rule_set_id (begin_debounce e0 now))
      (te_activation_epoch (begin_debounce e0 now)) q now obs)" (is "_ = Some ?sg")
    using 1(10) q by (auto elim!: fire_Inr)
  show ?thesis
  proof (intro exI [of _ b] exI [of _ plan] exI [of _ p] exI [of _ q] exI [of _ ?sg] conjI ballI)
    show "\<forall>spec. cl_window c = Some spec \<longrightarrow> (\<exists>ctx trade. indicators = Some ctx \<and> cx_evaluated_at ctx = now \<and>
        ls_trade snapshot = Some trade \<and> coherent_window hx ctx trade spec)" if "c \<in> set (pl_rules plan)" for c
      using indicator_gate_None [OF gate(4) that] by blast
  qed (use 1 gate(1) p q clauses sg in \<open>simp_all add: fired_signal_def\<close>)
qed

section \<open>Runs of the engine\<close>

datatype engine_op =
    Replace_Bundle trigger_bundle
  | Evaluate_Tick market_state_snapshot "trading_permission option" instant "indicator_context option"

fun engine_step :: "hashing \<Rightarrow> trigger_engine \<Rightarrow> engine_op \<Rightarrow> trigger_engine \<times> trigger_signal option" where
  "engine_step hx e (Replace_Bundle b) = (fst (replace_bundle hx e b), None)"
| "engine_step hx e (Evaluate_Tick snapshot permission now indicators) =
     (case evaluate_engine hx e snapshot permission now indicators of
        (e', Inr v) \<Rightarrow> (e', tv_signal v)
      | (e', Inl _) \<Rightarrow> (e', None))"

fun run_engine :: "hashing \<Rightarrow> trigger_engine \<Rightarrow> engine_op list \<Rightarrow> trigger_engine \<times> trigger_signal list" where
  "run_engine hx e [] = (e, [])"
| "run_engine hx e (op # ops) =
     (let (e1, out) = engine_step hx e op; (e2, outs) = run_engine hx e1 ops
      in (e2, (case out of None \<Rightarrow> outs | Some sg \<Rightarrow> sg # outs)))"

fun op_ok :: "engine_op \<Rightarrow> bool" where
  "op_ok (Replace_Bundle b) = bundle_ok b"
| "op_ok (Evaluate_Tick _ _ _ _) = True"

fun is_tick :: "engine_op \<Rightarrow> bool" where
  "is_tick (Replace_Bundle b) = False"
| "is_tick (Evaluate_Tick _ _ _ _) = True"

definition key_of_epoch :: "hashing \<Rightarrow> trigger_signal \<Rightarrow> int \<Rightarrow> bool" where
  "key_of_epoch hx sg n \<longleftrightarrow> (\<exists>plan rid. sg_idempotency_key sg = idempotency_key hx plan rid n)"

lemma engine_step_inv:
  assumes "engine_inv hx e" and "op_ok op" and "engine_step hx e op = (e', out)"
  shows "engine_inv hx e'" and "spent e \<le> spent e'"
    and "out = Some sg \<Longrightarrow> \<exists>n. key_of_epoch hx sg n \<and> spent e < n \<and> n \<le> spent e'"
proof -
  have "engine_inv hx e' \<and> spent e \<le> spent e' \<and>
      (\<forall>sg. out = Some sg \<longrightarrow> (\<exists>n. key_of_epoch hx sg n \<and> spent e < n \<and> n \<le> spent e'))"
  proof (cases op)
    case (Replace_Bundle b)
    then have e': "e' = fst (replace_bundle hx e b)" "out = None" using assms(3) by simp_all
    obtain st where r: "replace_bundle hx e b = (e', st)" using e'(1) by (metis prod.collapse)
    have "spent e \<le> spent (install hx e b fp)" for fp
      by (auto simp: spent_def install_def split: option.splits)
    then show ?thesis
      using replace_bundle_cases [OF r] assms(1,2) Replace_Bundle e'(2) install_inv by auto
  next
    case (Evaluate_Tick snapshot permission now indicators)
    obtain e1 res where ev: "evaluate_engine hx e snapshot permission now indicators = (e1, res)" by (metis surj_pair)
    then have "e1 = e'" "\<And>sg. out = Some sg \<Longrightarrow> \<exists>v. res = Inr v \<and> tv_signal v = Some sg"
      using assms(3) Evaluate_Tick by (auto split: sum.splits)
    then show ?thesis
      using evaluate_engine_step [OF ev assms(1)] unfolding key_of_epoch_def by metis
  qed
  then show "engine_inv hx e'" and "spent e \<le> spent e'"
    and "out = Some sg \<Longrightarrow> \<exists>n. key_of_epoch hx sg n \<and> spent e < n \<and> n \<le> spent e'" by blast+
qed

lemma run_engine_epochs:
  assumes "engine_inv hx e" and "list_all op_ok ops" and "run_engine hx e ops = (e', outs)"
  shows "engine_inv hx e' \<and> (\<exists>ns. list_all2 (key_of_epoch hx) outs ns \<and> sorted_wrt (<) ns \<and> (\<forall>n\<in>set ns. spent e < n))"
  using assms
proof (induction ops arbitrary: e outs)
  case (Cons op ops)
  obtain e1 out where s: "engine_step hx e op = (e1, out)" by (metis surj_pair)
  obtain outs' where r: "run_engine hx e1 ops = (e', outs')"
    using Cons.prems(3) s by (auto simp: Let_def split: prod.splits)
  have step: "engine_inv hx e1" "spent e \<le> spent e1"
    "\<And>sg. out = Some sg \<Longrightarrow> \<exists>n. key_of_epoch hx sg n \<and> spent e < n \<and> n \<le> spent e1"
    using engine_step_inv [OF Cons.prems(1) _ s] Cons.prems(2) by simp_all
  obtain ns where ns: "engine_inv hx e'" "list_all2 (key_of_epoch hx) outs' ns" "sorted_wrt (<) ns" "\<forall>n\<in>set ns. spent e1 < n"
    using Cons.IH [OF step(1) _ r] Cons.prems(2) by auto
  show ?case
  proof (cases out)
    case None
    then show ?thesis using Cons.prems(3) s r ns step(2) by (auto intro!: exI [of _ ns])
  next
    case (Some sg)
    then obtain n where n: "key_of_epoch hx sg n" "spent e < n" "n \<le> spent e1" using step(3) by blast
    have "n < m \<and> spent e < m" if "m \<in> set ns" for m using ns(4) n that by force
    then show ?thesis using Cons.prems(3) s r ns(1-3) Some n by (auto intro!: exI [of _ "n # ns"])
  qed
qed auto

text \<open>
  C26. No two signals of an engine's life share an idempotency key, whatever bundles are offered and
  whatever ticks are evaluated, if the key digest separates payloads with different activation
  epochs: every fire uses an epoch higher than all before, across re-arming and replacement.
\<close>

theorem signal_keys_distinct:
  assumes "\<And>x y. hx_key hx x = hx_key hx y \<Longrightarrow> kp_activation_epoch x = kp_activation_epoch y"
    and "list_all op_ok ops" and "run_engine hx new_engine ops = (e, signals)"
  shows "distinct (map sg_idempotency_key signals)"
proof -
  obtain ns where ns: "list_all2 (key_of_epoch hx) signals ns" "sorted_wrt (<) ns"
    using run_engine_epochs [OF new_engine_inv assms(2,3)] by blast
  have same: "n = m" if "key_of_epoch hx sg n" "key_of_epoch hx sg' m" "sg_idempotency_key sg = sg_idempotency_key sg'"
    for sg sg' n m
    using that assms(1) unfolding key_of_epoch_def idempotency_key_def by fastforce
  have dist: "distinct ns" using ns(2) by (simp add: strict_sorted_iff)
  have len: "length signals = length ns" using ns(1) by (rule list_all2_lengthD)
  show ?thesis
    unfolding distinct_conv_nth
    using dist len same list_all2_nthD [OF ns(1)] by (metis (no_types, lifting) length_map nth_eq_iff_index_eq nth_map)
qed

lemma tick_step:
  assumes "engine_inv hx e" and "is_tick op" and "engine_step hx e op = (e', out)"
  shows "engine_inv hx e' \<and> te_active e' = te_active e \<and> te_fires e \<le> te_fires e' \<and>
    (out \<noteq> None \<longrightarrow> te_fires e' = te_fires e + 1)"
proof (cases op)
  case (Evaluate_Tick snapshot permission now indicators)
  obtain e1 res where ev: "evaluate_engine hx e snapshot permission now indicators = (e1, res)" by (metis surj_pair)
  note step = evaluate_engine_step [OF ev assms(1)]
  have "e1 = e'" "out \<noteq> None \<longrightarrow> (\<exists>v sg. res = Inr v \<and> tv_signal v = Some sg)"
    using assms(3) Evaluate_Tick ev by (auto split: sum.splits)
  then show ?thesis using step(1-3) step(5) by (auto simp: same_install_def)
qed (use assms(2) in simp)

text \<open>
  An installed plan fires at most \<open>max_fires_per_decision\<close> times however many ticks are
  evaluated; once the engine is LOCKED nothing is emitted and nothing changes until another bundle
  replaces it.
\<close>

theorem fires_bounded:
  assumes "engine_inv hx e" and "te_active e = Some b" and "bn_plan b = Some plan"
    and "list_all is_tick ops" and "run_engine hx e ops = (e', signals)"
  shows "te_fires e + int (length signals) \<le> te_fires e' \<and> te_fires e' \<le> pl_max_fires plan \<and>
    (te_state e = TS_LOCKED \<longrightarrow> signals = [])"
proof -
  have "te_fires e + int (length signals) \<le> te_fires e' \<and> engine_inv hx e' \<and> te_active e' = te_active e"
    using assms(1,4,5)
  proof (induction ops arbitrary: e signals)
    case (Cons op ops)
    obtain e1 out where s: "engine_step hx e op = (e1, out)" by (metis surj_pair)
    obtain outs where r: "run_engine hx e1 ops = (e', outs)"
      and sg: "signals = (case out of None \<Rightarrow> outs | Some sg \<Rightarrow> sg # outs)"
      using Cons.prems(3) s by (auto simp: Let_def split: prod.splits)
    have step: "engine_inv hx e1" "te_active e1 = te_active e" "te_fires e \<le> te_fires e1"
      "out \<noteq> None \<longrightarrow> te_fires e1 = te_fires e + 1"
      using tick_step [OF Cons.prems(1) _ s] Cons.prems(2) by auto
    have "te_fires e1 + int (length outs) \<le> te_fires e' \<and> engine_inv hx e' \<and> te_active e' = te_active e1"
      using Cons.IH [OF step(1) _ r] Cons.prems(2) by simp
    with step(2-4) sg show ?case by (cases out) auto
  qed auto
  moreover from this have "engine_inv hx e'" "te_active e' = Some b" using assms(2) by simp_all
  then have "te_fires e' \<le> pl_max_fires plan" using assms(3) by (simp add: engine_inv_def)
  moreover have "te_state e = TS_LOCKED \<longrightarrow> te_fires e = pl_max_fires plan"
    using assms(1-3) by (auto simp: engine_inv_def)
  ultimately show ?thesis by (auto simp flip: length_0_conv)
qed

section \<open>Debounce and cooldown in time\<close>

text \<open>The evaluations of one installed plan: each with its instant and its status, \<open>None\<close> if it raised.\<close>

type_synonym tick_trace = "(instant \<times> trigger_status option) list"

definition outcome :: "trigger_evaluation result \<Rightarrow> trigger_status option" where
  "outcome res = (case res of Inl _ \<Rightarrow> None | Inr v \<Rightarrow> Some (tv_status v))"

inductive traced :: "hashing \<Rightarrow> trigger_engine \<Rightarrow> trigger_engine \<Rightarrow> tick_trace \<Rightarrow> bool" for hx e0 where
  start: "traced hx e0 e0 []"
| tick: "traced hx e0 e tr \<Longrightarrow> evaluate_engine hx e snapshot permission now indicators = (e', res) \<Longrightarrow>
    traced hx e0 e' (tr @ [(now, outcome res)])"

lemma clauses_observed:
  assumes "\<forall>c\<in>set rules. evaluate_clause (hx_window hx) c snapshot indicators = Inr True"
  shows "\<exists>obs. traverse (observed hx snapshot indicators) rules = Inr obs"
  using assms
proof (induction rules)
  case (Cons c rules)
  then obtain v where "metric_value (hx_window hx) (cl_metric c) snapshot indicators (cl_window c) = Inr (Some v)"
    by (auto elim: evaluate_clause_TrueD)
  with Cons show ?case by (auto simp: observed_def)
qed simp

text \<open>After the gates and the rules nothing keeps a due fire from happening.\<close>

lemma fire_happens:
  assumes "entry_gate hx plan snapshot permission now indicators = None"
    and "evaluate_all (hx_window hx) (pl_rules plan) snapshot indicators = Inr True"
    and "fire hx e plan snapshot now indicators = (e', res)"
  shows "te_fires e' = te_fires e + 1 \<and> outcome res \<in> {None, Some TRIGGERED} \<and>
    te_state e' = (if pl_max_fires plan \<le> te_fires e + 1 then TS_LOCKED else TS_COOLDOWN) \<and>
    (te_state e' = TS_COOLDOWN \<longrightarrow>
       te_cooldown_until e' = (if outcome res = None then te_cooldown_until e else Some (now + cooldown_of plan)))"
proof -
  obtain q where "ls_quote snapshot = Some q" using entry_gate_None(3) [OF assms(1)] by blast
  moreover obtain obs where "traverse (observed hx snapshot indicators) (pl_rules plan) = Inr obs"
    using clauses_observed assms(2) by (fastforce simp: evaluate_all_def all_clauses_True_iff split: if_splits)
  ultimately show ?thesis
    using assms(3) by (auto simp: fire_def Let_def outcome_def cooldown_of_def split: if_splits)
qed

text \<open>
  The invariant of a trace: while DEBOUNCING, the counter and the start are those of the current
  streak of ticks on which the rules held. An evaluation that raises neither ends nor extends it.
\<close>

definition streak_of :: "tick_trace \<Rightarrow> bool" where
  "streak_of ms \<longleftrightarrow> (\<forall>m\<in>set ms. snd m \<in> {Some DEBOUNCING, None})"

definition held :: "tick_trace \<Rightarrow> int" where
  "held ms = int (length (filter (\<lambda>m. snd m \<noteq> None) ms))"

definition streak :: "trigger_engine \<Rightarrow> tick_trace \<Rightarrow> bool" where
  "streak e tr \<longleftrightarrow>
     te_state e = TS_DEBOUNCING \<longrightarrow>
     (\<exists>pre ms. tr = pre @ ms \<and> ms \<noteq> [] \<and> streak_of ms \<and> te_debounce_count e = held ms \<and>
        te_first_true_at e = Some (fst (hd ms)))"

lemma streak_intro:
  "tr = pre @ ms \<Longrightarrow> ms \<noteq> [] \<Longrightarrow> streak_of ms \<Longrightarrow> te_debounce_count e = held ms \<Longrightarrow>
   te_first_true_at e = Some (fst (hd ms)) \<Longrightarrow> streak e tr"
  unfolding streak_def by blast

lemma held_append [simp]: "held (ms @ [m]) = held ms + (if snd m \<noteq> None then 1 else 0)" "held [] = 0"
  by (simp_all add: held_def)

lemma streak_of_append [simp]: "streak_of (ms @ [m]) \<longleftrightarrow> streak_of ms \<and> snd m \<in> {Some DEBOUNCING, None}" "streak_of []"
  by (auto simp: streak_of_def)

lemma begin_debounce_streak:
  assumes "streak e tr" and "te_state e \<in> {TS_ARMED, TS_DEBOUNCING}"
  obtains pre ms where "tr = pre @ ms" "streak_of ms" "te_debounce_count (begin_debounce e now) = held ms + 1"
    "te_first_true_at (begin_debounce e now) = Some (fst (hd (ms @ [(now, x)])))"
proof (cases "te_state e = TS_DEBOUNCING")
  case True
  with assms(1) obtain pre ms where "tr = pre @ ms" "ms \<noteq> []" "streak_of ms"
    "te_debounce_count e = held ms" "te_first_true_at e = Some (fst (hd ms))"
    by (auto simp: streak_def)
  then show thesis using True by (intro that [of pre ms]) (auto simp: begin_debounce_def)
next
  case False
  then show thesis by (intro that [of tr "[]"]) (auto simp: begin_debounce_def)
qed

lemma streak_not_debouncing: "te_state e \<noteq> TS_DEBOUNCING \<Longrightarrow> streak e tr"
  by (simp add: streak_def)

lemma idle_streak:
  assumes "streak e tr"
  shows "streak e (tr @ [(now, None)])"
proof (cases "te_state e = TS_DEBOUNCING")
  case True
  with assms obtain pre ms where "tr = pre @ ms" "ms \<noteq> []" "streak_of ms"
    "te_debounce_count e = held ms" "te_first_true_at e = Some (fst (hd ms))"
    by (auto simp: streak_def)
  then show ?thesis by (intro streak_intro [of _ pre "ms @ [(now, None)]"]) auto
qed (simp add: streak_def)

lemma traced_inv:
  assumes "traced hx e0 e tr" and "engine_inv hx e0" and "te_state e0 = TS_ARMED"
  shows "engine_inv hx e \<and> same_install e e0 \<and> streak e tr"
  using assms
proof (induction rule: traced.induct)
  case start
  then show ?case by (simp add: same_install_def streak_def)
next
  case (tick e tr snapshot permission now indicators e' res)
  then have IH: "engine_inv hx e" "same_install e e0" "streak e tr" by auto
  note step = evaluate_engine_step [OF tick.hyps(2) IH(1)]
  have "streak e' (tr @ [(now, outcome res)])"
    using tick.hyps(2) IH(1)
  proof (cases rule: evaluate_engine_cases)
    case idle
    show ?thesis
    proof (cases res)
      case (Inl err)
      then show ?thesis using idle(1) idle_streak [OF IH(3)] by (simp add: outcome_def)
    next
      case (Inr v)
      then show ?thesis using idle by (intro streak_not_debouncing) auto
    qed
  next
    case (broke v)
    then show ?thesis by (intro streak_not_debouncing) (simp add: state_broken)
  next
    case (waiting v r)
    then show ?thesis by (intro streak_not_debouncing) simp
  next
    case (active b plan e1)
    have e1: "streak e1 tr" "te_state e1 \<in> {TS_ARMED, TS_DEBOUNCING}"
      using active(5) IH(3) by (auto simp: streak_def split: if_splits)
    from active(6) show ?thesis
    proof
      assume "\<exists>v. e' = disarm_debounce e1 \<and> res = Inr v \<and> tv_signal v = None \<and> tv_status v = CONDITION_NOT_MET"
      then show ?thesis by (intro streak_not_debouncing) (auto simp: state_disarm)
    next
      assume go: "evaluate_all (hx_window hx) (pl_rules plan) snapshot indicators = Inr True \<and>
        debounce_step hx (begin_debounce e1 now) plan snapshot now indicators = (e', res)"
      obtain pre ms where ms: "tr = pre @ ms" "streak_of ms" "te_debounce_count (begin_debounce e1 now) = held ms + 1"
        "te_first_true_at (begin_debounce e1 now) = Some (fst (hd (ms @ [(now, Some DEBOUNCING)])))"
        by (rule begin_debounce_streak [OF e1])
      from go [THEN conjunct2] show ?thesis
      proof (cases rule: debounce_step_cases)
        case pending
        then show ?thesis using ms
          by (intro streak_intro [of _ pre "ms @ [(now, Some DEBOUNCING)]"]) (auto simp: outcome_def)
      next
        case (fires t)
        then show ?thesis using fire_happens [OF active(4) go [THEN conjunct1] fires(4)]
          by (intro streak_not_debouncing) (auto split: if_splits)
      qed
    qed
  qed
  then show ?case using step(1,2) IH(2) by (simp add: same_install_def)
qed

text \<open>
  Debounce. When an installed plan fires, the evaluations just before it form a streak on each
  of which the rules held (evaluations that raised aside), with at least \<open>debounce_events\<close> of
  them counting the one that fires, and at least \<open>debounce_seconds\<close> from the first of them to the
  fire.
\<close>

theorem debounce_respected:
  assumes "traced hx e0 e tr" and "engine_inv hx e0" and "te_state e0 = TS_ARMED"
    and "te_active e0 = Some b" and "bn_plan b = Some plan"
    and "evaluate_engine hx e snapshot permission now indicators = (e', Inr v)" and "tv_status v = TRIGGERED"
  shows "\<exists>pre ms. tr = pre @ ms \<and> streak_of ms \<and> pl_debounce_events plan \<le> held ms + 1 \<and>
    pl_debounce_seconds plan \<le> of_int (now - fst (hd (ms @ [(now, Some TRIGGERED)]))) / 1000000"
proof -
  have inv: "engine_inv hx e" "same_install e e0" "streak e tr" using traced_inv [OF assms(1-3)] by auto
  show ?thesis
    using inv(1) assms(6,7)
  proof (cases rule: triggered_cases)
    case (1 b' plan' e1 t)
    have plan: "plan' = plan" using 1(1,2) inv(2) assms(4,5) by (simp add: same_install_def)
    have e1: "streak e1 tr" "te_state e1 \<in> {TS_ARMED, TS_DEBOUNCING}"
      using 1(6) inv(3) by (auto simp: streak_def split: if_splits)
    obtain pre ms where ms: "tr = pre @ ms" "streak_of ms" "te_debounce_count (begin_debounce e1 now) = held ms + 1"
      "te_first_true_at (begin_debounce e1 now) = Some (fst (hd (ms @ [(now, Some TRIGGERED)])))"
      by (rule begin_debounce_streak [OF e1])
    then show ?thesis using 1(7-9) plan by auto
  qed
qed

text \<open>When the earliest next fire may be: the end of the cooldown, or the last instant seen.\<close>

definition release :: "trigger_engine \<Rightarrow> tick_trace \<Rightarrow> instant" where
  "release e tr = (case te_cooldown_until e of Some u \<Rightarrow> u | None \<Rightarrow> fst (last tr))"

definition spacing :: "trigger_plan \<Rightarrow> trigger_engine \<Rightarrow> tick_trace \<Rightarrow> bool" where
  "spacing plan e tr \<longleftrightarrow>
     (te_state e \<in> {TS_ARMED, TS_DEBOUNCING} \<longrightarrow> te_cooldown_until e = None) \<and>
     (\<forall>t. (t, Some TRIGGERED) \<in> set tr \<longrightarrow> te_state e \<noteq> TS_LOCKED \<longrightarrow> t + cooldown_of plan \<le> release e tr)"

lemma release_later:
  assumes "te_cooldown_until e' = te_cooldown_until e" and "sorted (map fst tr @ [now])" and "tr \<noteq> []"
  shows "release e tr \<le> release e' (tr @ [(now, x)])"
proof -
  have "fst (last tr) \<le> now" using assms(2,3) by (simp add: sorted_append)
  then show ?thesis by (simp add: release_def assms(1) split: option.splits)
qed

lemma spacing_later:
  assumes "spacing plan e tr" and "te_cooldown_until e' = te_cooldown_until e" and "sorted (map fst tr @ [now])"
    and "te_state e' \<in> {TS_ARMED, TS_DEBOUNCING} \<Longrightarrow> te_state e \<in> {TS_ARMED, TS_DEBOUNCING}"
    and "te_state e' \<noteq> TS_LOCKED \<Longrightarrow> te_state e \<noteq> TS_LOCKED" and "x \<noteq> Some TRIGGERED"
  shows "spacing plan e' (tr @ [(now, x)])"
proof -
  have "t + cooldown_of plan \<le> release e' (tr @ [(now, x)])"
    if "(t, Some TRIGGERED) \<in> set tr" "te_state e' \<noteq> TS_LOCKED" for t
  proof -
    have "t + cooldown_of plan \<le> release e tr"
      using assms(1) that assms(5) by (simp add: spacing_def)
    also have "\<dots> \<le> release e' (tr @ [(now, x)])" using that(1) by (intro release_later assms(2,3)) auto
    finally show ?thesis .
  qed
  then show ?thesis using assms(1,2,4,6) by (auto simp: spacing_def)
qed

lemma due_before:
  assumes sp: "spacing plan e tr" and srt: "sorted (map fst tr @ [now])"
    and e1: "if te_state e = TS_COOLDOWN
       then (case te_cooldown_until e of None \<Rightarrow> True | Some u \<Rightarrow> u \<le> now) \<and> (\<exists>r. e1 = rearm (counted e r))
       else te_state e \<in> {TS_ARMED, TS_DEBOUNCING} \<and> e1 = e"
    and t: "(t, Some TRIGGERED) \<in> set tr"
  shows "t + cooldown_of plan \<le> now"
proof -
  have "te_state e \<noteq> TS_LOCKED" using e1 by (auto split: if_splits)
  then have "t + cooldown_of plan \<le> release e tr" using sp t by (simp add: spacing_def)
  also have "release e tr \<le> now"
  proof (cases "te_cooldown_until e")
    case None
    have "fst (last tr) \<le> now" using srt t by (cases tr rule: rev_cases) (auto simp: sorted_append)
    then show ?thesis by (simp add: release_def None)
  next
    case (Some u)
    then show ?thesis using e1 sp by (auto simp: release_def spacing_def split: if_splits)
  qed
  finally show ?thesis .
qed

lemma traced_spacing:
  assumes "traced hx e0 e tr" and "engine_inv hx e0" and "te_state e0 = TS_ARMED" and "te_cooldown_until e0 = None"
    and "te_active e0 = Some b" and "bn_plan b = Some plan" and "sorted (map fst tr)"
  shows "spacing plan e tr"
  using assms(1,7)
proof (induction rule: traced.induct)
  case start
  then show ?case using assms(4) by (simp add: spacing_def)
next
  case (tick e tr snapshot permission now indicators e' res)
  have inv: "engine_inv hx e" "same_install e e0" using traced_inv [OF tick.hyps(1) assms(2,3)] by auto
  have srt: "sorted (map fst tr @ [now])" and sp: "spacing plan e tr"
    using tick.prems tick.IH by (auto simp: sorted_append)
  show ?case
    using tick.hyps(2) inv(1)
  proof (cases rule: evaluate_engine_cases)
    case idle
    then show ?thesis by (intro spacing_later [OF sp _ srt]) (auto simp: outcome_def split: sum.splits)
  next
    case (broke v)
    then show ?thesis by (intro spacing_later [OF sp _ srt]) (auto simp: outcome_def state_broken split: if_splits)
  next
    case (waiting v r)
    then show ?thesis by (intro spacing_later [OF sp _ srt]) (auto simp: outcome_def)
  next
    case (active b' plan' e1)
    have plan: "plan' = plan" using active(1,2) inv(2) assms(5,6) by (simp add: same_install_def)
    note due = due_before [OF sp srt active(5)]
    have until: "te_cooldown_until e1 = None" "te_state e1 \<in> {TS_ARMED, TS_DEBOUNCING}"
      using active(5) sp by (auto simp: spacing_def rearm_def split: if_splits)
    have quiet: "spacing plan e' (tr @ [(now, x)])"
      if "te_cooldown_until e' = None" "x \<noteq> Some TRIGGERED" for x
      using due that by (auto simp: spacing_def release_def)
    from active(6) show ?thesis
    proof
      assume "\<exists>v. e' = disarm_debounce e1 \<and> res = Inr v \<and> tv_signal v = None \<and> tv_status v = CONDITION_NOT_MET"
      then show ?thesis using until by (intro quiet) (auto simp: disarm_debounce_def outcome_def)
    next
      assume go: "evaluate_all (hx_window hx) (pl_rules plan') snapshot indicators = Inr True \<and>
        debounce_step hx (begin_debounce e1 now) plan' snapshot now indicators = (e', res)"
      have none: "te_cooldown_until (begin_debounce e1 now) = None" using until by (simp add: begin_debounce_def)
      from go [THEN conjunct2] show ?thesis
      proof (cases rule: debounce_step_cases)
        case pending
        then show ?thesis using none by (intro quiet) (auto simp: outcome_def)
      next
        case (fires u)
        note f = fire_happens [OF active(4) go [THEN conjunct1] fires(4)]
        have C: "0 \<le> cooldown_of plan"
        proof -
          have "validate_plan plan = Inr plan"
            using inv(1) active(1,2) plan by (simp add: engine_inv_def bundle_ok_def)
          then have "0 \<le> pl_cooldown_seconds plan" by (simp add: validate_plan_def split: if_splits)
          then show ?thesis by (simp add: cooldown_of_def round_half_even_ge)
        qed
        have "t + cooldown_of plan \<le> now + cooldown_of plan" if "(t, Some TRIGGERED) \<in> set tr" for t
          using due [OF that] C by linarith
        then show ?thesis using f due none plan
          by (auto simp: spacing_def release_def split: if_splits)
      qed
    qed
  qed
qed


section \<open>A worked run\<close>

definition epoch_text :: "int \<Rightarrow> string" where
  "epoch_text n = (if 0 \<le> n then replicate (nat n) CHR ''p'' else replicate (nat (- n)) CHR ''m'')"

lemma epoch_text_inj: "epoch_text m = epoch_text n \<Longrightarrow> m = n"
  by (auto simp: epoch_text_def replicate_eq_replicate split: if_splits)

definition example_hashing :: hashing where
  "example_hashing = \<lparr>hx_window = (\<lambda>_. ''w''), hx_rules = (\<lambda>_. ''r''), hx_bundle = (\<lambda>_. ''b''),
     hx_key = (\<lambda>p. epoch_text (kp_activation_epoch p))\<rparr>"

definition example_plan :: trigger_plan where
  "example_plan =
     \<lparr>pl_plan_id = ''plan-1'', pl_decision_id = ''analysis-1'', pl_created_at = 0, pl_valid_from = 0,
      pl_expires_at = 100000000, pl_universe = ''kr'', pl_market = KR, pl_symbol = ''005930'', pl_action = Action_BUY,
      pl_rules = [\<lparr>cl_metric = M_LAST_TRADE_PRICE, cl_comparator = GTE, cl_threshold = 60000, cl_window = None\<rparr>],
      pl_reset_rules = [], pl_debounce_events = 1, pl_debounce_seconds = 0, pl_reset_events = 1,
      pl_cooldown_seconds = 1, pl_max_fires = 2\<rparr>"

definition example_bundle :: trigger_bundle where
  "example_bundle = \<lparr>bn_decision = example_analysis Action_BUY 5, bn_plan = Some example_plan\<rparr>"

definition example_permission :: trading_permission where
  "example_permission = \<lparr>tp_market = KR, tp_allowed = True, tp_checked_at = 0, tp_valid_until = 100000000,
     tp_reason_code = ''open''\<rparr>"

definition example_best :: "instant \<Rightarrow> best_bid_ask" where
  "example_best tm =
     \<lparr>ba_provider = ''kis'', ba_symbol = ''005930'', ba_market = KR, ba_currency = KRW, ba_bid_price = 69900,
      ba_ask_price = 70100, ba_bid_quantity = 1, ba_ask_quantity = 1, ba_quote_at = tm, ba_received_at = tm,
      ba_provider_sequence = \<lparr>sq_provider = ''kis'', sq_channel = ''quote'', sq_sequence = 1, sq_received_at = tm\<rparr>\<rparr>"

definition example_snapshot :: "decimal \<Rightarrow> instant \<Rightarrow> market_state_snapshot" where
  "example_snapshot price tm =
     \<lparr>ls_market = KR, ls_symbol = ''005930'', ls_trade = Some ((example_trade 1 tm)\<lparr>tt_price := price\<rparr>),
      ls_quote = Some (example_best tm), ls_trade_fresh = True, ls_quote_fresh = True, ls_evaluated_at = tm\<rparr>"

definition example_eval :: "trigger_engine \<Rightarrow> decimal \<Rightarrow> instant \<Rightarrow> trigger_engine \<times> trigger_evaluation result" where
  "example_eval e price tm =
     evaluate_engine example_hashing e (example_snapshot price tm) (Some example_permission) tm None"

definition example_engine :: trigger_engine where
  "example_engine = install example_hashing new_engine example_bundle ''b''"

lemma example_bundle_ok: "bundle_ok example_bundle"
  by (simp add: bundle_ok_def example_bundle_def validate_plan_def example_plan_def EXECUTABLE_ACTIONS_def)

lemma example_engine_facts:
  "engine_inv example_hashing example_engine" "te_state example_engine = TS_ARMED"
  "te_active example_engine = Some example_bundle" "bn_plan example_bundle = Some example_plan"
  "te_cooldown_until example_engine = None"
  using install_inv [OF example_bundle_ok] by (simp_all add: example_engine_def install_def example_bundle_def)

lemma example_cooldown: "cooldown_of example_plan = 1000000"
  using round_half_even_of_int [of 1000000] by (simp add: cooldown_of_def example_plan_def)

lemmas example_eval_defs = example_eval_def evaluate_engine_def entry_gate_def quote_gate_def trade_gate_def
  indicator_gate_def rule_required_windows_def rule_required_slots_def is_rolling_def evaluate_all_def evaluate_clause_def metric_value_def
  armed_step_def debounce_step_def fire_def cooldown_step_def reset_slot_gate_def observed_def
  example_snapshot_def example_permission_def example_best_def example_trade_def example_bundle_def example_plan_def

definition example_fired :: trigger_engine where
  "example_fired = example_engine\<lparr>te_fires := 1, te_state := TS_COOLDOWN, te_cooldown_until := Some 1000001,
     te_reset_count := 0, te_debounce_count := 0, te_first_true_at := None\<rparr>"

lemma example_first:
  "\<exists>v. example_eval example_engine 70000 1 = (example_fired, Inr v) \<and> tv_status v = TRIGGERED"
  using round_half_even_of_int [of 1000000]
  by (simp add: example_eval_defs Let_def example_fired_def MAX_TIMEDELTA_def example_engine_def install_def new_engine_def)

definition example_rearmed :: trigger_engine where
  "example_rearmed = example_fired\<lparr>te_state := TS_ARMED, te_activation_epoch := 2, te_cooldown_until := None\<rparr>"

lemma example_second:
  "\<exists>v. example_eval example_fired 50000 1000001 = (example_rearmed, Inr v) \<and> tv_status v = CONDITION_NOT_MET"
  by (simp add: example_eval_defs Let_def example_rearmed_def example_fired_def example_engine_def install_def new_engine_def)

lemma example_third:
  "\<exists>e v. example_eval example_rearmed 70000 1000002 = (e, Inr v) \<and> tv_status v = TRIGGERED \<and> te_state e = TS_LOCKED"
  by (simp add: example_eval_defs Let_def example_rearmed_def example_fired_def example_engine_def install_def new_engine_def)

lemma example_traced:
  "traced example_hashing example_engine example_rearmed [(1, Some TRIGGERED), (1000001, Some CONDITION_NOT_MET)]"
proof -
  obtain v w where v: "example_eval example_engine 70000 1 = (example_fired, Inr v)" "tv_status v = TRIGGERED"
    and w: "example_eval example_fired 50000 1000001 = (example_rearmed, Inr w)" "tv_status w = CONDITION_NOT_MET"
    using example_first example_second by blast
  have "traced example_hashing example_engine example_fired ([] @ [(1, outcome (Inr v))])"
    by (rule traced.tick [OF traced.start v(1) [unfolded example_eval_def]])
  from traced.tick [OF this w(1) [unfolded example_eval_def]] show ?thesis by (simp add: outcome_def v(2) w(2))
qed

theorem triggered_through_every_gate_witness:
  "\<exists>v sg. example_eval example_engine 70000 1 = (example_fired, Inr v) \<and> tv_signal v = Some sg \<and>
     sg_decision_id sg = ''analysis-1'' \<and> sg_triggered_at sg = 1 \<and> sg_reference_price sg = 70100"
proof -
  obtain v where v: "example_eval example_engine 70000 1 = (example_fired, Inr v)" "tv_status v = TRIGGERED"
    using example_first by blast
  from triggered_through_every_gate [OF example_engine_facts(1) v(1) [unfolded example_eval_def] v(2)]
  show ?thesis
    using v(1) by (auto simp: example_engine_facts example_plan_def example_snapshot_def example_best_def)
qed

theorem signal_keys_distinct_witness:
  "distinct (map sg_idempotency_key (snd (run_engine example_hashing new_engine
     [Replace_Bundle example_bundle,
      Evaluate_Tick (example_snapshot 70000 1) (Some example_permission) 1 None,
      Evaluate_Tick (example_snapshot 50000 1000001) (Some example_permission) 1000001 None,
      Evaluate_Tick (example_snapshot 70000 1000002) (Some example_permission) 1000002 None])))"
  by (rule signal_keys_distinct [OF _ _ prod.collapse [symmetric]])
    (auto simp: example_hashing_def example_bundle_ok dest: epoch_text_inj)

theorem fires_bounded_witness:
  "te_fires (fst (run_engine example_hashing example_engine
     [Evaluate_Tick (example_snapshot 70000 1) (Some example_permission) 1 None,
      Evaluate_Tick (example_snapshot 70000 2) (Some example_permission) 2 None])) \<le> 2"
proof -
  let ?ops = "[Evaluate_Tick (example_snapshot 70000 1) (Some example_permission) 1 None,
      Evaluate_Tick (example_snapshot 70000 2) (Some example_permission) 2 None]"
  have "list_all is_tick ?ops" by simp
  from fires_bounded [OF example_engine_facts(1,3,4) this prod.collapse [symmetric]]
  have "te_fires (fst (run_engine example_hashing example_engine ?ops)) \<le> pl_max_fires example_plan" by blast
  then show ?thesis by (simp only: example_plan_def trigger_plan.select_convs)
qed

theorem debounce_respected_witness:
  "\<exists>pre ms. [(1, Some TRIGGERED), (1000001, Some CONDITION_NOT_MET)] = pre @ ms \<and> streak_of ms \<and>
     pl_debounce_events example_plan \<le> held ms + 1"
proof -
  obtain e v where v: "example_eval example_rearmed 70000 1000002 = (e, Inr v)" "tv_status v = TRIGGERED"
    using example_third by blast
  from debounce_respected [OF example_traced example_engine_facts(1-4) v(1) [unfolded example_eval_def] v(2)]
  show ?thesis by blast
qed


end
