(* ===== verification/Order_Bridge.thy ===== *)
theory Order_Bridge
  imports Trigger_Journal Quantity_Resolver Paper_Broker Trigger_Engine
begin

text \<open>
  The bridge from a fire to an order: \<^verbatim>\<open>src/src/execution/trigger_order_bridge.py\<close>. It
  composes the journal, the order generator, the quantity resolver, the paper broker and the
  ledger. The world is the journal with the ledger; \<open>bw_submits\<close> is a ghost log of the broker
  calls. An operation that raises still returns the world it leaves behind.
\<close>

section \<open>Results and errors\<close>

definition REASON_RISK_BLOCKED :: string where "REASON_RISK_BLOCKED = ''risk_blocked''"
definition REASON_HOLD_NOOP :: string where "REASON_HOLD_NOOP = ''hold_noop''"
definition REASON_SIZING_FAILED :: string where "REASON_SIZING_FAILED = ''sizing_failed''"
definition REASON_NO_EXECUTABLE_QUANTITY :: string where "REASON_NO_EXECUTABLE_QUANTITY = ''no_executable_quantity''"
definition REASON_COHERENCE_FAILED :: string where "REASON_COHERENCE_FAILED = ''coherence_failed''"
definition REASON_GENERATION_EXCEPTION :: string where "REASON_GENERATION_EXCEPTION = ''generation_exception''"
definition REASON_SIZING_EXCEPTION :: string where "REASON_SIZING_EXCEPTION = ''sizing_exception''"
definition REASON_LEDGER_PREFLIGHT_EXCEPTION :: string where
  "REASON_LEDGER_PREFLIGHT_EXCEPTION = ''ledger_preflight_exception''"
definition REASON_LEDGER_POSTFLIGHT_EXCEPTION :: string where
  "REASON_LEDGER_POSTFLIGHT_EXCEPTION = ''ledger_postflight_exception''"
definition REASON_BROKER_EXCEPTION :: string where "REASON_BROKER_EXCEPTION = ''broker_exception''"
definition REASON_DISPATCH_OUTCOME_MISSING :: string where
  "REASON_DISPATCH_OUTCOME_MISSING = ''dispatch_outcome_missing''"
definition REASON_DISPATCH_OUTCOME_NONTERMINAL :: string where
  "REASON_DISPATCH_OUTCOME_NONTERMINAL = ''dispatch_outcome_nonterminal''"
definition REASON_RESTART_BEFORE_DISPATCH :: string where
  "REASON_RESTART_BEFORE_DISPATCH = ''restart_before_dispatch''"
definition REASON_DISPATCH_OUTCOME_UNKNOWN :: string where
  "REASON_DISPATCH_OUTCOME_UNKNOWN = ''dispatch_outcome_unknown''"

lemmas reason_defs = REASON_RISK_BLOCKED_def REASON_HOLD_NOOP_def REASON_SIZING_FAILED_def
  REASON_NO_EXECUTABLE_QUANTITY_def REASON_COHERENCE_FAILED_def REASON_GENERATION_EXCEPTION_def
  REASON_SIZING_EXCEPTION_def REASON_LEDGER_PREFLIGHT_EXCEPTION_def REASON_LEDGER_POSTFLIGHT_EXCEPTION_def
  REASON_BROKER_EXCEPTION_def REASON_DISPATCH_OUTCOME_MISSING_def REASON_DISPATCH_OUTCOME_NONTERMINAL_def
  REASON_RESTART_BEFORE_DISPATCH_def REASON_DISPATCH_OUTCOME_UNKNOWN_def

fun action_str :: "analysis_action \<Rightarrow> string" where
  "action_str Action_BUY = ''buy''" | "action_str Action_SELL = ''sell''" | "action_str Action_HOLD = ''hold''"

definition ACTION_TO_SIDE :: "string \<Rightarrow> order_side option" where
  "ACTION_TO_SIDE a = (if a = ''buy'' then Some BUY else if a = ''sell'' then Some SELL else None)"

fun TERMINAL_RESULT_MAP :: "order_status \<Rightarrow> journal_result_status option" where
  "TERMINAL_RESULT_MAP FILLED = Some JR_FILLED"
| "TERMINAL_RESULT_MAP REJECTED = Some JR_REJECTED"
| "TERMINAL_RESULT_MAP _ = None"

datatype bridge_error =
    BridgePreflightError string
  | BridgeCoherenceError "string list"
  | BridgeDependencyError string exn
  | BridgeError string
  | JournalRaised journal_error
  | LedgerRaised exn

datatype bridge_outcome =
    BO_SKIPPED_TERMINAL | BO_RECONCILE_REQUIRED | BO_ABORTED | BO_COMMITTED | BO_UNCERTAIN

record bridge_result =
  br_outcome :: bridge_outcome
  br_record :: trigger_journal_record
  br_reason_code :: "string option"
  br_order_result :: "order_result option"

record bridge_world =
  bw_journal :: journal
  bw_ledger :: ledger
  bw_submits :: "(string \<times> string) list"

record fire_args =
  fa_signal :: fire_signal
  fa_bundle :: trigger_bundle
  fa_risk_input :: risk_filter_input
  fa_market_price :: market_price
  fa_position :: "decimal option"
  fa_now :: instant

type_synonym bridge_answer = "bridge_world \<times> (bridge_error + bridge_result)"

text \<open>The identity fields the journal and the bridge read of a trigger signal, as text.\<close>

definition fire_signal_of :: "trigger_signal \<Rightarrow> fire_signal" where
  "fire_signal_of sg =
     \<lparr>fs_idempotency_key = sg_idempotency_key sg, fs_trigger_id = sg_trigger_id sg,
      fs_decision_id = sg_decision_id sg, fs_plan_id = sg_plan_id sg, fs_market = market_str (sg_market sg),
      fs_symbol = sg_symbol sg, fs_action = action_str (sg_action sg), fs_triggered_at = sg_triggered_at sg\<rparr>"

section \<open>Preflight\<close>

definition preflight :: "fire_args \<Rightarrow> bridge_error + unit" where
  "preflight a =
     (let s = fa_signal a; d = bn_decision (fa_bundle a); r = fa_risk_input a; p = fa_market_price a;
          fail = (\<lambda>msg. Inl (BridgePreflightError msg))
      in case bn_plan (fa_bundle a) of
        None \<Rightarrow> fail ''Fire dispatch requires a BUY/SELL bundle with a TriggerPlan (HOLD has no fire).''
      | Some plan \<Rightarrow>
          if fs_plan_id s \<noteq> pl_plan_id plan then fail ''signal.plan_id != plan.plan_id.''
          else if fs_decision_id s \<noteq> pl_decision_id plan then fail ''signal.decision_id != plan.decision_id.''
          else if fs_market s \<noteq> market_str (pl_market plan) then fail ''signal.market != plan.market.''
          else if fs_symbol s \<noteq> pl_symbol plan then fail ''signal.symbol != plan.symbol.''
          else if fs_action s \<noteq> action_str (pl_action plan) then fail ''signal.action != plan.action.''
          else if fs_decision_id s \<noteq> an_decision_id d then fail ''signal.decision_id != decision.decision_id.''
          else if fs_market s \<noteq> an_market d then fail ''signal.market != decision.market.''
          else if fs_symbol s \<noteq> an_symbol d then fail ''signal.symbol != decision.symbol.''
          else if fs_action s \<noteq> action_str (bundle_action (fa_bundle a)) then fail ''signal.action != bundle.action.''
          else if pl_max_fires plan \<noteq> 1 then fail ''plan.max_fires_per_decision must be 1 at the bridge.''
          else if ri_correlation_id r \<noteq> Some (fs_idempotency_key s)
          then fail ''risk_input.correlation_id must equal signal.idempotency_key.''
          else if ri_analysis_decision r \<noteq> d then fail ''risk_input.analysis_decision must equal bundle.decision''
          else if market_str (mp_market p) \<noteq> fs_market s then fail ''market_price.market != signal.market.''
          else if mp_symbol p \<noteq> fs_symbol s then fail ''market_price.symbol != signal.symbol.''
          else Inr ())"

definition order_id_of :: "fire_signal \<Rightarrow> string" where
  "order_id_of s = ''order-'' @ fs_decision_id s"

section \<open>Between reservation and dispatch\<close>

definition coherence_problems :: "fire_signal \<Rightarrow> order_intent option \<Rightarrow> string list" where
  "coherence_problems s executable =
     (case executable of
        None \<Rightarrow> [''RESOLVED status without order_intent'']
      | Some i \<Rightarrow>
          (if oi_order_id i \<noteq> order_id_of s then [''order_id''] else []) @
          (if oi_correlation_id i \<noteq> fs_idempotency_key s then [''correlation_id''] else []) @
          (if oi_quantity i = None then [''executable intent missing quantity''] else []) @
          (if oi_target_weight_percent i \<noteq> None then [''executable intent still carries target_weight_percent''] else []) @
          (if oi_symbol i \<noteq> fs_symbol s then [''symbol''] else []) @
          (if market_str (oi_market i) \<noteq> fs_market s then [''market''] else []) @
          (case ACTION_TO_SIDE (fs_action s) of
             None \<Rightarrow> [''unmappable signal.action'']
           | Some side \<Rightarrow> if oi_side i \<noteq> side then [''side''] else []) @
          (if oi_source_decision_id i \<noteq> Some (fs_decision_id s) then [''source_decision_id''] else []) @
          (if oi_order_type i \<noteq> MARKET then [''order_type''] else []) @
          (if oi_account_role i \<noteq> PAPER then [''account_role''] else []))"

text \<open>
  Steps 2 to 4 of \<^verbatim>\<open>dispatch\<close> read no state: they end with an intent to execute, or with the
  reason to abort and either a result or an exception to raise.
\<close>

datatype prepared = Executable order_intent | Abort_Return string | Abort_Raise string bridge_error

definition prepare :: "fire_args \<Rightarrow> prepared" where
  "prepare a =
     (case generate (fa_risk_input a) of
        Inl e \<Rightarrow> Abort_Raise REASON_GENERATION_EXCEPTION (BridgeDependencyError ''OrderIntentGenerator.generate raised'' e)
      | Inr gen \<Rightarrow>
          if og_status gen = BLOCKED then Abort_Return REASON_RISK_BLOCKED
          else if og_status gen = NOOP then Abort_Return REASON_HOLD_NOOP
          else case og_order_intent gen of
            None \<Rightarrow> Abort_Raise REASON_COHERENCE_FAILED (BridgeCoherenceError [''GENERATED status without order_intent.''])
          | Some intent \<Rightarrow>
              (case resolve intent (ri_context (fa_risk_input a)) (fa_market_price a) (fa_position a) of
                 Inl e \<Rightarrow> Abort_Raise REASON_SIZING_EXCEPTION (BridgeDependencyError ''QuantityResolver.resolve raised'' e)
               | Inr resolution \<Rightarrow>
                   if qr_status resolution = QR_FAILED then Abort_Return REASON_SIZING_FAILED
                   else if qr_status resolution = QR_NOOP then Abort_Return REASON_NO_EXECUTABLE_QUANTITY
                   else let problems = coherence_problems (fa_signal a) (qr_order_intent resolution)
                        in case qr_order_intent resolution of
                             Some i \<Rightarrow>
                               if problems = [] then Executable i
                               else Abort_Raise REASON_COHERENCE_FAILED (BridgeCoherenceError problems)
                           | None \<Rightarrow> Abort_Raise REASON_COHERENCE_FAILED (BridgeCoherenceError problems)))"

section \<open>Dispatch\<close>

definition journal_write ::
  "bridge_world \<Rightarrow> (journal_error + journal \<times> trigger_journal_record) \<Rightarrow>
   (bridge_world \<Rightarrow> trigger_journal_record \<Rightarrow> bridge_answer) \<Rightarrow> bridge_answer" where
  "journal_write w written k =
     (case written of
        Inl e \<Rightarrow> (w, Inl (JournalRaised e))
      | Inr (j, r) \<Rightarrow> k (w\<lparr>bw_journal := j\<rparr>) r)"

definition respond ::
  "bridge_outcome \<Rightarrow> string option \<Rightarrow> order_result option \<Rightarrow> bridge_world \<Rightarrow> trigger_journal_record \<Rightarrow> bridge_answer" where
  "respond outc reason durable w r =
     (w, Inr \<lparr>br_outcome = outc, br_record = r, br_reason_code = reason, br_order_result = durable\<rparr>)"

definition abort_fire :: "bridge_world \<Rightarrow> string \<Rightarrow> string \<Rightarrow> instant \<Rightarrow> bridge_answer" where
  "abort_fire w key reason now =
     journal_write w (mark_aborted (bw_journal w) key reason now) (respond BO_ABORTED (Some reason) None)"

definition abort_and_raise :: "bridge_world \<Rightarrow> string \<Rightarrow> string \<Rightarrow> bridge_error \<Rightarrow> instant \<Rightarrow> bridge_answer" where
  "abort_and_raise w key reason err now =
     journal_write w (mark_aborted (bw_journal w) key reason now) (\<lambda>w' _. (w', Inl err))"

definition finalize_from_durable :: "bridge_world \<Rightarrow> string \<Rightarrow> order_result option \<Rightarrow> instant \<Rightarrow> bridge_answer" where
  "finalize_from_durable w key durable now =
     (case durable of
        None \<Rightarrow> journal_write w (mark_uncertain (bw_journal w) key REASON_DISPATCH_OUTCOME_MISSING now)
          (respond BO_UNCERTAIN (Some REASON_DISPATCH_OUTCOME_MISSING) None)
      | Some d \<Rightarrow>
          (case TERMINAL_RESULT_MAP (or_status d) of
             None \<Rightarrow> journal_write w (mark_uncertain (bw_journal w) key REASON_DISPATCH_OUTCOME_NONTERMINAL now)
               (respond BO_UNCERTAIN (Some REASON_DISPATCH_OUTCOME_NONTERMINAL) durable)
           | Some st \<Rightarrow> journal_write w (mark_committed (bw_journal w) key st now)
               (respond BO_COMMITTED None durable)))"

definition reconcile_after_broker_exception :: "bridge_world \<Rightarrow> string \<Rightarrow> string \<Rightarrow> instant \<Rightarrow> bridge_answer" where
  "reconcile_after_broker_exception w key order_id now =
     (let durable = (case get_order_result (bw_ledger w) order_id of Inl _ \<Rightarrow> None | Inr d \<Rightarrow> d)
      in case (case durable of None \<Rightarrow> None | Some d \<Rightarrow> TERMINAL_RESULT_MAP (or_status d)) of
           Some st \<Rightarrow> journal_write w (mark_committed (bw_journal w) key st now) (respond BO_COMMITTED None durable)
         | None \<Rightarrow> journal_write w (mark_uncertain (bw_journal w) key REASON_BROKER_EXCEPTION now)
             (respond BO_UNCERTAIN (Some REASON_BROKER_EXCEPTION) None))"

definition submit_and_settle :: "fee_calculator \<Rightarrow> bridge_world \<Rightarrow> fire_args \<Rightarrow> order_intent \<Rightarrow> bridge_answer" where
  "submit_and_settle fee w a i =
     (let key = fs_idempotency_key (fa_signal a); order_id = order_id_of (fa_signal a); now = fa_now a;
          (l, res) = submit_order fee (bw_ledger w) i (fa_market_price a);
          w' = w\<lparr>bw_ledger := l, bw_submits := bw_submits w @ [(key, order_id)]\<rparr>
      in case res of
           Inl _ \<Rightarrow> reconcile_after_broker_exception w' key order_id now
         | Inr _ \<Rightarrow>
             (case get_order_result (bw_ledger w') order_id of
                Inl _ \<Rightarrow> journal_write w' (mark_uncertain (bw_journal w') key REASON_LEDGER_POSTFLIGHT_EXCEPTION now)
                  (respond BO_UNCERTAIN (Some REASON_LEDGER_POSTFLIGHT_EXCEPTION) None)
              | Inr durable_post \<Rightarrow> finalize_from_durable w' key durable_post now))"

definition dispatch_executable :: "fee_calculator \<Rightarrow> bridge_world \<Rightarrow> fire_args \<Rightarrow> order_intent \<Rightarrow> bridge_answer" where
  "dispatch_executable fee w a i =
     (let key = fs_idempotency_key (fa_signal a); order_id = order_id_of (fa_signal a); now = fa_now a
      in case get_order_result (bw_ledger w) order_id of
           Inl e \<Rightarrow> abort_and_raise w key REASON_LEDGER_PREFLIGHT_EXCEPTION
             (BridgeDependencyError ''ledger.get_order_result (preflight) raised'' e) now
         | Inr durable_pre \<Rightarrow>
             journal_write w (mark_dispatching (bw_journal w) key order_id now) (\<lambda>w' _.
               case durable_pre of
                 Some _ \<Rightarrow> finalize_from_durable w' key durable_pre now
               | None \<Rightarrow> submit_and_settle fee w' a i))"

definition dispatch :: "fee_calculator \<Rightarrow> bridge_world \<Rightarrow> fire_args \<Rightarrow> bridge_answer" where
  "dispatch fee w a =
     (let key = fs_idempotency_key (fa_signal a); now = fa_now a
      in case preflight a of
        Inl e \<Rightarrow> (w, Inl e)
      | Inr _ \<Rightarrow>
          (case reserve (bw_journal w) (fa_signal a) now of
             Inl e \<Rightarrow> (w, Inl (JournalRaised e))
           | Inr (j, outc, r) \<Rightarrow>
               let w' = w\<lparr>bw_journal := j\<rparr>
               in if outc = EXISTING_TERMINAL then respond BO_SKIPPED_TERMINAL None None w' r
                  else if outc = EXISTING_PENDING then respond BO_RECONCILE_REQUIRED None None w' r
                  else case prepare a of
                    Abort_Return reason \<Rightarrow> abort_fire w' key reason now
                  | Abort_Raise reason err \<Rightarrow> abort_and_raise w' key reason err now
                  | Executable i \<Rightarrow> dispatch_executable fee w' a i))"

section \<open>Reconciliation\<close>

definition reconcile_record :: "bridge_world \<Rightarrow> trigger_journal_record \<Rightarrow> instant \<Rightarrow> bridge_answer" where
  "reconcile_record w record now =
     (let key = tj_idempotency_key record;
          unknown = journal_write w (mark_uncertain (bw_journal w) key REASON_DISPATCH_OUTCOME_UNKNOWN now)
            (respond BO_UNCERTAIN (Some REASON_DISPATCH_OUTCOME_UNKNOWN) None)
      in if tj_state record = JS_RESERVED then abort_fire w key REASON_RESTART_BEFORE_DISPATCH now
         else if tj_state record = JS_DISPATCHING
         then (case tj_order_id record of
                 None \<Rightarrow> unknown
               | Some order_id \<Rightarrow>
                   if has_processed_order (bw_ledger w) order_id
                   then (case get_order_result (bw_ledger w) order_id of
                           Inl e \<Rightarrow> (w, Inl (LedgerRaised e))
                         | Inr durable \<Rightarrow>
                             (case (case durable of None \<Rightarrow> None | Some d \<Rightarrow> TERMINAL_RESULT_MAP (or_status d)) of
                                Some st \<Rightarrow> journal_write w (mark_committed (bw_journal w) key st now)
                                  (respond BO_COMMITTED None durable)
                              | None \<Rightarrow> unknown))
                   else unknown)
         else (w, Inl (BridgeError ''reconcile_record requires a nonterminal record'')))"

fun reconcile_records ::
  "bridge_world \<Rightarrow> instant \<Rightarrow> trigger_journal_record list \<Rightarrow> bridge_world \<times> (bridge_error + bridge_result list)" where
  "reconcile_records w now [] = (w, Inr [])"
| "reconcile_records w now (r # rs) =
     (case reconcile_record w r now of
        (w', Inl e) \<Rightarrow> (w', Inl e)
      | (w', Inr res) \<Rightarrow>
          (case reconcile_records w' now rs of
             (w'', Inl e) \<Rightarrow> (w'', Inl e)
           | (w'', Inr results) \<Rightarrow> (w'', Inr (res # results))))"

definition reconcile_all :: "bridge_world \<Rightarrow> instant \<Rightarrow> bridge_world \<times> (bridge_error + bridge_result list)" where
  "reconcile_all w now = reconcile_records w now (list_nonterminal (bw_journal w))"

section \<open>What reaches the broker\<close>

abbreviation fire_key :: "fire_args \<Rightarrow> string" where
  "fire_key a \<equiv> fs_idempotency_key (fa_signal a)"

abbreviation fire_order :: "fire_args \<Rightarrow> string" where
  "fire_order a \<equiv> order_id_of (fa_signal a)"

definition fire_ok :: "fire_args \<Rightarrow> bool" where
  "fire_ok a \<longleftrightarrow> 0 < mp_price (fa_market_price a)"

lemma coherence_problems_Nil:
  "coherence_problems s (Some i) = [] \<Longrightarrow>
     oi_order_id i = order_id_of s \<and> oi_correlation_id i = fs_idempotency_key s \<and> oi_quantity i \<noteq> None \<and>
     oi_target_weight_percent i = None \<and> oi_symbol i = fs_symbol s \<and> market_str (oi_market i) = fs_market s \<and>
     ACTION_TO_SIDE (fs_action s) = Some (oi_side i) \<and> oi_source_decision_id i = Some (fs_decision_id s) \<and>
     oi_order_type i = MARKET \<and> oi_account_role i = PAPER"
  by (auto simp: coherence_problems_def split: if_splits option.splits)

lemma resolve_valid:
  assumes "resolve i c p qty = Inr r" and "qr_order_intent r = Some x"
  shows "valid_intent x"
  using assms unfolding resolve_def Let_def
  by (auto simp: rbind_Inr_iff resolve_failed_def dest: mk_OrderIntent_valid
      split: if_splits option.splits order_side.splits)

lemma prepare_Executable:
  assumes "prepare a = Executable i"
  shows "valid_intent i" and "coherence_problems (fa_signal a) (Some i) = []"
proof -
  obtain gen intent res where "generate (fa_risk_input a) = Inr gen" "og_order_intent gen = Some intent"
    "resolve intent (ri_context (fa_risk_input a)) (fa_market_price a) (fa_position a) = Inr res"
    "qr_order_intent res = Some i" "coherence_problems (fa_signal a) (Some i) = []"
    using assms unfolding prepare_def Let_def
    by (auto split: sum.splits if_splits option.splits)
  then show "valid_intent i" "coherence_problems (fa_signal a) (Some i) = []"
    using resolve_valid by blast+
qed

text \<open>
  What the bridge relies on of the broker and the ledger behind it: a result that has been
  recorded for an order is never lost or changed by a later submission.
\<close>

locale durable_orders =
  fixes submit :: "'l \<Rightarrow> 'i \<Rightarrow> 'p \<Rightarrow> 'l"
    and ok :: "'l \<Rightarrow> bool"
    and sendable :: "'i \<Rightarrow> 'p \<Rightarrow> bool"
    and result :: "'l \<Rightarrow> 'k \<Rightarrow> 's option"
  assumes submit_ok: "ok l \<Longrightarrow> sendable i p \<Longrightarrow> ok (submit l i p)"
    and submit_keeps: "ok l \<Longrightarrow> sendable i p \<Longrightarrow> result l k = Some s \<Longrightarrow> result (submit l i p) k = Some s"
begin

lemma submits_keep:
  "ok l \<Longrightarrow> list_all (\<lambda>(i, p). sendable i p) xs \<Longrightarrow> result l k = Some s \<Longrightarrow>
   ok (foldl (\<lambda>l (i, p). submit l i p) l xs) \<and> result (foldl (\<lambda>l (i, p). submit l i p) l xs) k = Some s"
  by (induction xs arbitrary: l) (auto simp: submit_ok submit_keeps)

end

lemma spec_submit_keeps:
  "pa_orders s k = Some st \<Longrightarrow> pa_orders (fst (spec_submit fee s i p)) k = Some st"
  by (auto simp: spec_submit_def spec_fill_def spec_record_def Let_def split: prod.splits option.splits order_side.splits)

interpretation paper: durable_orders "\<lambda>l i p. fst (submit_order fee l i p)" ledger_inv
  "\<lambda>(i :: order_intent) (p :: market_price). valid_intent i \<and> 0 < mp_price p" recorded for fee
proof
  fix l and i :: order_intent and p :: market_price and k s
  assume a: "ledger_inv l" "valid_intent i \<and> 0 < mp_price p"
  then have sim: "simulates (submit_order fee l i p) (spec_submit fee (abs_ledger l) i p)"
    by (intro submit_simulates) auto
  then show "ledger_inv (fst (submit_order fee l i p))" by blast
  have "recorded (fst (submit_order fee l i p)) = pa_orders (fst (spec_submit fee (abs_ledger l) i p))"
    using sim by (metis abs_ledger_def fst_conv paper_account.select_convs(1))
  then show "recorded (fst (submit_order fee l i p)) k = Some s" if "recorded l k = Some s"
    using that spec_submit_keeps [of "abs_ledger l"] by (simp add: abs_ledger_def)
qed

section \<open>Interleaved processes\<close>

text \<open>
  Several processes may run the bridge on the same database and any of them may die at any
  moment. The journal operations and a submission are single transactions, everything between
  them is local: a process is described by how far it is. A crash, or an exception that escapes,
  makes it idle again. \<open>env_abort\<close>, \<open>env_uncertain\<close> and \<open>env_commit\<close> are the writes of a
  reconciliation, which may happen at any time, even while the process that owns the fire is
  alive.
\<close>

datatype bridge_pc =
    Idle
  | Held fire_args
  | Checked fire_args order_intent "order_result option"
  | Claimed fire_args order_intent
  | Submitted fire_args
  | Settling fire_args "order_result option"

record bridge_sys =
  bs_world :: bridge_world
  bs_pc :: "nat \<Rightarrow> bridge_pc"

definition at_pc :: "bridge_sys \<Rightarrow> nat \<Rightarrow> bridge_world \<Rightarrow> bridge_pc \<Rightarrow> bridge_sys" where
  "at_pc s p w pc = s\<lparr>bs_world := w, bs_pc := (bs_pc s)(p := pc)\<rparr>"

inductive bridge_step :: "fee_calculator \<Rightarrow> bridge_sys \<Rightarrow> bridge_sys \<Rightarrow> bool" for fee where
  st_reserve: "bs_pc s p = Idle \<Longrightarrow> bs_world s = w \<Longrightarrow> fire_ok a \<Longrightarrow> preflight a = Inr () \<Longrightarrow>
    reserve (bw_journal w) (fa_signal a) (fa_now a) = Inr (j, RESERVED_NEW, r) \<Longrightarrow>
    bridge_step fee s (at_pc s p (w\<lparr>bw_journal := j\<rparr>) (Held a))"
| st_check: "bs_pc s p = Held a \<Longrightarrow> bs_world s = w \<Longrightarrow> prepare a = Executable i \<Longrightarrow>
    get_order_result (bw_ledger w) (fire_order a) = Inr d \<Longrightarrow>
    bridge_step fee s (at_pc s p w (Checked a i d))"
| st_claim: "bs_pc s p = Checked a i d \<Longrightarrow> bs_world s = w \<Longrightarrow>
    mark_dispatching (bw_journal w) (fire_key a) (fire_order a) (fa_now a) = Inr (j, r) \<Longrightarrow>
    bridge_step fee s (at_pc s p (w\<lparr>bw_journal := j\<rparr>) (if d = None then Claimed a i else Settling a d))"
| st_submit: "bs_pc s p = Claimed a i \<Longrightarrow> bs_world s = w \<Longrightarrow>
    submit_order fee (bw_ledger w) i (fa_market_price a) = (l, res) \<Longrightarrow>
    bridge_step fee s (at_pc s p
      (w\<lparr>bw_ledger := l, bw_submits := bw_submits w @ [(fire_key a, fire_order a)]\<rparr>) (Submitted a))"
| st_read: "bs_pc s p = Submitted a \<Longrightarrow> bs_world s = w \<Longrightarrow>
    get_order_result (bw_ledger w) (fire_order a) = Inr d \<Longrightarrow>
    bridge_step fee s (at_pc s p w (Settling a d))"
| st_commit: "bs_pc s p = Settling a (Some d) \<Longrightarrow> bs_world s = w \<Longrightarrow> TERMINAL_RESULT_MAP (or_status d) = Some st \<Longrightarrow>
    mark_committed (bw_journal w) (fire_key a) st (fa_now a) = Inr (j, r) \<Longrightarrow>
    bridge_step fee s (at_pc s p (w\<lparr>bw_journal := j\<rparr>) Idle)"
| env_abort: "bs_world s = w \<Longrightarrow> mark_aborted (bw_journal w) key reason now = Inr (j, r) \<Longrightarrow>
    bridge_step fee s (at_pc s p (w\<lparr>bw_journal := j\<rparr>) Idle)"
| env_uncertain: "bs_world s = w \<Longrightarrow> mark_uncertain (bw_journal w) key reason now = Inr (j, r) \<Longrightarrow>
    bridge_step fee s (at_pc s p (w\<lparr>bw_journal := j\<rparr>) Idle)"
| env_commit: "bs_world s = w \<Longrightarrow> journal_get (bw_journal w) key = Some rec \<Longrightarrow> tj_order_id rec = Some oid \<Longrightarrow>
    get_order_result (bw_ledger w) oid = Inr (Some d) \<Longrightarrow> TERMINAL_RESULT_MAP (or_status d) = Some st \<Longrightarrow>
    mark_committed (bw_journal w) key st now = Inr (j, r) \<Longrightarrow>
    bridge_step fee s (at_pc s p (w\<lparr>bw_journal := j\<rparr>) Idle)"
| crash: "bridge_step fee s (at_pc s p (bs_world s) Idle)"

section \<open>The invariant\<close>

text \<open>A fire owns an order id once its record carries it.\<close>

definition owns :: "journal \<Rightarrow> string \<Rightarrow> string \<Rightarrow> bool" where
  "owns j key oid \<longleftrightarrow> (\<exists>r. journal_get j key = Some r \<and> tj_order_id r = Some oid)"

lemma owns_step: "journal_op j j' \<Longrightarrow> journal_wf j \<Longrightarrow> owns j key oid \<Longrightarrow> owns j' key oid"
  using one_write_get [OF journal_op_ok(2)] by (fastforce simp: owns_def evolves_def)

lemma owns_unique: "journal_wf j \<Longrightarrow> owns j k oid \<Longrightarrow> owns j k' oid \<Longrightarrow> k = k'"
  unfolding owns_def by (meson journal_wf_unique)

lemma owns_same: "owns j k oid \<Longrightarrow> owns j k oid' \<Longrightarrow> oid = oid'"
  by (auto simp: owns_def)

definition committed_durable :: "journal \<Rightarrow> ledger \<Rightarrow> bool" where
  "committed_durable j l \<longleftrightarrow>
     (\<forall>r\<in>set j. tj_state r = JS_COMMITTED \<longrightarrow>
        (\<exists>oid st. tj_order_id r = Some oid \<and> recorded l oid = Some st \<and> TERMINAL_RESULT_MAP st = tj_result_status r))"

fun pc_ok :: "bridge_world \<Rightarrow> bridge_pc \<Rightarrow> bool" where
  "pc_ok w Idle = True"
| "pc_ok w (Held a) = fire_ok a"
| "pc_ok w (Checked a i d) =
     (fire_ok a \<and> prepare a = Executable i \<and>
      (\<forall>x. d = Some x \<longrightarrow> recorded (bw_ledger w) (fire_order a) = Some (or_status x)))"
| "pc_ok w (Claimed a i) =
     (fire_ok a \<and> prepare a = Executable i \<and> owns (bw_journal w) (fire_key a) (fire_order a) \<and>
      fire_key a \<notin> fst ` set (bw_submits w))"
| "pc_ok w (Submitted a) = owns (bw_journal w) (fire_key a) (fire_order a)"
| "pc_ok w (Settling a d) =
     (owns (bw_journal w) (fire_key a) (fire_order a) \<and>
      (\<forall>x. d = Some x \<longrightarrow> recorded (bw_ledger w) (fire_order a) = Some (or_status x)))"

fun claims :: "bridge_pc \<Rightarrow> string option" where
  "claims (Claimed a i) = Some (fire_key a)"
| "claims _ = None"

definition world_ok :: "bridge_world \<Rightarrow> bool" where
  "world_ok w \<longleftrightarrow>
     journal_wf (bw_journal w) \<and> ledger_inv (bw_ledger w) \<and> committed_durable (bw_journal w) (bw_ledger w) \<and>
     distinct (map fst (bw_submits w)) \<and> (\<forall>(k, oid)\<in>set (bw_submits w). owns (bw_journal w) k oid)"

definition bridge_inv :: "bridge_sys \<Rightarrow> bool" where
  "bridge_inv s \<longleftrightarrow> world_ok (bs_world s) \<and> (\<forall>p. pc_ok (bs_world s) (bs_pc s p)) \<and>
     (\<forall>p q k. p \<noteq> q \<longrightarrow> claims (bs_pc s p) = Some k \<longrightarrow> claims (bs_pc s q) \<noteq> Some k)"

lemma recorded_of_result: "get_order_result l oid = Inr (Some d) \<Longrightarrow> recorded l oid = Some (or_status d)"
  by (simp add: recorded_def)

definition extends :: "bridge_world \<Rightarrow> bridge_world \<Rightarrow> bool" where
  "extends w w' \<longleftrightarrow>
     (\<forall>k oid. owns (bw_journal w) k oid \<longrightarrow> owns (bw_journal w') k oid) \<and>
     (\<forall>oid st. recorded (bw_ledger w) oid = Some st \<longrightarrow> recorded (bw_ledger w') oid = Some st)"

lemma extends_refl [simp]: "extends w w"
  by (simp add: extends_def)

lemma pc_ok_extends:
  assumes "pc_ok w pc" "extends w w'"
    and "\<And>k. k \<in> fst ` set (bw_submits w') \<Longrightarrow> k \<in> fst ` set (bw_submits w) \<or> claims pc \<noteq> Some k"
  shows "pc_ok w' pc"
  using assms by (cases pc) (auto simp: extends_def)

lemma committed_put:
  "committed_durable j l \<Longrightarrow>
   (tj_state r = JS_COMMITTED \<Longrightarrow>
      \<exists>oid st. tj_order_id r = Some oid \<and> recorded l oid = Some st \<and> TERMINAL_RESULT_MAP st = tj_result_status r) \<Longrightarrow>
   committed_durable (tbl_upsert tj_idempotency_key r j) l"
  by (auto simp: committed_durable_def set_tbl_upsert)

text \<open>A step that moves one process preserves the invariant when it extends the world.\<close>

lemma bridge_inv_at:
  assumes inv: "bridge_inv s" and world: "world_ok w'" and ext: "extends (bs_world s) w'"
    and new: "pc_ok w' pc"
    and subs: "\<And>k q. k \<in> fst ` set (bw_submits w') \<Longrightarrow> q \<noteq> p \<Longrightarrow>
      k \<in> fst ` set (bw_submits (bs_world s)) \<or> claims (bs_pc s q) \<noteq> Some k"
    and fresh: "\<And>k q. claims pc = Some k \<Longrightarrow> q \<noteq> p \<Longrightarrow> claims (bs_pc s q) \<noteq> Some k"
  shows "bridge_inv (at_pc s p w' pc)"
proof -
  have pcs: "pc_ok w' (bs_pc s q)" if "q \<noteq> p" for q
    by (rule pc_ok_extends [OF _ ext subs [OF _ that]]) (use inv in \<open>simp_all add: bridge_inv_def\<close>)
  have "claims (bs_pc s q) \<noteq> Some k" if "q \<noteq> q'" "claims (bs_pc s q') = Some k" for q q' k
    using inv that unfolding bridge_inv_def by metis
  with fresh pcs show ?thesis
    unfolding bridge_inv_def at_pc_def by (simp add: world new) metis
qed

text \<open>A write of the journal extends the world.\<close>

lemma journal_write_extends:
  "world_ok w \<Longrightarrow> journal_op (bw_journal w) j \<Longrightarrow> extends w (w\<lparr>bw_journal := j\<rparr>)"
  by (auto simp: extends_def world_ok_def intro: owns_step)

lemma journal_write_world_ok:
  assumes "world_ok w" "journal_op (bw_journal w) j" "committed_durable j (bw_ledger w)"
  shows "world_ok (w\<lparr>bw_journal := j\<rparr>)"
  using assms journal_op_ok(1) [OF assms(2)] by (auto simp: world_ok_def intro: owns_step)

lemma mark_uncommitted:
  assumes "world_ok w"
  shows "reserve (bw_journal w) sg now = Inr (j, out, r) \<Longrightarrow> committed_durable j (bw_ledger w)"
    and "mark_dispatching (bw_journal w) key oid now = Inr (j, r) \<Longrightarrow> committed_durable j (bw_ledger w)"
    and "mark_aborted (bw_journal w) key reason now = Inr (j, r) \<Longrightarrow> committed_durable j (bw_ledger w)"
    and "mark_uncertain (bw_journal w) key reason now = Inr (j, r) \<Longrightarrow> committed_durable j (bw_ledger w)"
proof -
  have k: "tbl_keyed tj_idempotency_key (bw_journal w)" and c: "committed_durable (bw_journal w) (bw_ledger w)"
    using assms by (auto simp: world_ok_def keyed_of_wf)
  show "reserve (bw_journal w) sg now = Inr (j, out, r) \<Longrightarrow> committed_durable j (bw_ledger w)"
    using c by (auto simp: reserve_Inr [OF k] intro!: committed_put split: option.splits)
  show "mark_dispatching (bw_journal w) key oid now = Inr (j, r) \<Longrightarrow> committed_durable j (bw_ledger w)"
    "mark_aborted (bw_journal w) key reason now = Inr (j, r) \<Longrightarrow> committed_durable j (bw_ledger w)"
    "mark_uncertain (bw_journal w) key reason now = Inr (j, r) \<Longrightarrow> committed_durable j (bw_ledger w)"
    using c by (auto simp: marks_advance [OF k] rbind_Inr_iff advance_Inr intro!: committed_put)
qed

lemma mark_committed_durable:
  assumes "world_ok w" "owns (bw_journal w) key oid" "recorded (bw_ledger w) oid = Some rs"
    "TERMINAL_RESULT_MAP rs = Some st" "mark_committed (bw_journal w) key st now = Inr (j, r)"
  shows "committed_durable j (bw_ledger w)"
proof -
  have k: "tbl_keyed tj_idempotency_key (bw_journal w)" and c: "committed_durable (bw_journal w) (bw_ledger w)"
    using assms(1) by (auto simp: world_ok_def keyed_of_wf)
  obtain x where "journal_get (bw_journal w) key = Some x" "tj_order_id x = Some oid"
    "j = tbl_upsert tj_idempotency_key (to_committed st now x) (bw_journal w)"
    using assms(2,5) by (auto simp: owns_def marks_advance [OF k] advance_Inr)
  then show ?thesis using c assms(3,4) by (auto simp: to_committed_def intro!: committed_put)
qed

lemma mark_dispatching_owns:
  assumes "journal_wf j" "mark_dispatching j key oid now = Inr (j', r)"
  shows "\<not> owns j key oid'" and "owns j' key oid"
proof -
  obtain x where x: "journal_get j key = Some x" "tj_state x = JS_RESERVED"
    "j' = tbl_upsert tj_idempotency_key (to_dispatching oid now x) j"
    using assms(2) by (auto simp: marks_advance [OF keyed_of_wf [OF assms(1)]] rbind_Inr_iff advance_Inr
        require_nonblank_Inr)
  show "\<not> owns j key oid'"
    using x(1,2) journal_wfD [OF assms(1) x(1)] by (auto simp: owns_def record_wf_def)
  show "owns j' key oid"
    using x journal_get_keyD [OF x(1)] by (simp add: owns_def journal_get_put)
qed

lemma pc_claims_owns: "pc_ok w pc \<Longrightarrow> claims pc = Some k \<Longrightarrow> \<exists>oid. owns (bw_journal w) k oid"
  by (cases pc) auto

lemma bridge_invD:
  assumes "bridge_inv s"
  shows "world_ok (bs_world s)" "bs_pc s p = pc \<Longrightarrow> pc_ok (bs_world s) pc"
    and "p \<noteq> q \<Longrightarrow> claims (bs_pc s p) = Some k \<Longrightarrow> claims (bs_pc s q) \<noteq> Some k"
  using assms by (auto simp: bridge_inv_def)

text \<open>The environment's writes, and every step that only writes the journal and claims nothing.\<close>

lemma bridge_inv_write:
  assumes "bridge_inv s" "journal_op (bw_journal (bs_world s)) j" "committed_durable j (bw_ledger (bs_world s))"
    and "pc_ok (bs_world s\<lparr>bw_journal := j\<rparr>) pc"
    and "\<And>k q. claims pc = Some k \<Longrightarrow> q \<noteq> p \<Longrightarrow> claims (bs_pc s q) \<noteq> Some k"
  shows "bridge_inv (at_pc s p (bs_world s\<lparr>bw_journal := j\<rparr>) pc)"
  using assms bridge_invD(1) [OF assms(1)]
  by (intro bridge_inv_at [OF assms(1)] journal_write_world_ok journal_write_extends) auto

lemma bridge_inv_claim:
  assumes inv: "bridge_inv s" and pc: "bs_pc s p = Checked a i d"
    and m: "mark_dispatching (bw_journal (bs_world s)) (fire_key a) (fire_order a) now = Inr (j, r)"
  shows "bridge_inv (at_pc s p (bs_world s\<lparr>bw_journal := j\<rparr>) (if d = None then Claimed a i else Settling a d))"
proof -
  let ?w = "bs_world s"
  note w = bridge_invD(1) [OF inv] and ok = bridge_invD(2) [OF inv pc]
  have wf: "journal_wf (bw_journal ?w)" using w by (simp add: world_ok_def)
  note o = mark_dispatching_owns [OF wf m]
  have "fire_key a \<notin> fst ` set (bw_submits ?w)"
    using w o(1) by (fastforce simp: world_ok_def)
  moreover have "claims (bs_pc s q) \<noteq> Some (fire_key a)" for q
    using pc_claims_owns [OF bridge_invD(2) [OF inv refl]] o(1) by blast
  ultimately show ?thesis
    using ok o(2) by (intro bridge_inv_write [OF inv op_dispatching [OF m] mark_uncommitted(2) [OF w m]])
      (auto split: if_splits)
qed

lemma bridge_inv_submit:
  assumes inv: "bridge_inv s" and pc: "bs_pc s p = Claimed a i"
    and sub: "submit_order fee (bw_ledger (bs_world s)) i (fa_market_price a) = (l, res)"
  shows "bridge_inv (at_pc s p (bs_world s\<lparr>bw_ledger := l,
    bw_submits := bw_submits (bs_world s) @ [(fire_key a, fire_order a)]\<rparr>) (Submitted a))"
proof -
  let ?w = "bs_world s"
  note w = bridge_invD(1) [OF inv] and ok = bridge_invD(2) [OF inv pc]
  have send: "valid_intent i \<and> 0 < mp_price (fa_market_price a)"
    using ok prepare_Executable by (auto simp: fire_ok_def)
  have l: "ledger_inv (bw_ledger ?w)" using w by (simp add: world_ok_def)
  have l': "ledger_inv l" "recorded (bw_ledger ?w) oid = Some st \<Longrightarrow> recorded l oid = Some st" for oid st
    using paper.submit_ok [OF l send, of fee] paper.submit_keeps [OF l send, of oid st fee] sub by simp_all
  have "committed_durable (bw_journal ?w) l"
    using w l'(2) by (fastforce simp: world_ok_def committed_durable_def)
  then have "world_ok (?w\<lparr>bw_ledger := l, bw_submits := bw_submits ?w @ [(fire_key a, fire_order a)]\<rparr>)"
    using w ok l'(1) by (auto simp: world_ok_def)
  then show ?thesis
    using ok l'(2) bridge_invD(3) [OF inv, of p] pc
    by (intro bridge_inv_at [OF inv]) (auto simp: extends_def)
qed

lemma bridge_step_inv:
  assumes "bridge_step fee s s'" "bridge_inv s"
  shows "bridge_inv s'"
proof -
  note w = bridge_invD(1) [OF assms(2)]
  show ?thesis
    using assms(1)
  proof cases
    case (st_reserve p v a j r)
    then show ?thesis
      using bridge_inv_write [OF assms(2), of j "Held a"] mark_uncommitted(1) [OF w] op_reserve by auto
  next
    case (st_check p a v i d)
    then have "pc_ok v (Checked a i d)"
      using bridge_invD(2) [OF assms(2) st_check(2)] recorded_of_result by auto
    then show ?thesis using st_check(1,3) w by (auto intro!: bridge_inv_at [OF assms(2)])
  next
    case (st_claim p a i d v j r)
    then show ?thesis using bridge_inv_claim [OF assms(2)] by simp
  next
    case (st_submit p a i v l res)
    then show ?thesis using bridge_inv_submit [OF assms(2)] by simp
  next
    case (st_read p a v d)
    then have "pc_ok v (Settling a d)"
      using bridge_invD(2) [OF assms(2) st_read(2)] recorded_of_result by auto
    then show ?thesis using st_read(1,3) w by (auto intro!: bridge_inv_at [OF assms(2)])
  next
    case (st_commit p a d v st j r)
    then have "committed_durable j (bw_ledger v)"
      using bridge_invD(2) [OF assms(2) st_commit(2)] w
      by (intro mark_committed_durable [OF _ _ _ st_commit(4,5)]) auto
    then show ?thesis using bridge_inv_write [OF assms(2), of j Idle] op_committed st_commit by auto
  next
    case (env_abort v key reason now j r p)
    then show ?thesis
      using bridge_inv_write [OF assms(2), of j Idle] mark_uncommitted(3) [OF w] op_aborted by auto
  next
    case (env_uncertain v key reason now j r p)
    then show ?thesis
      using bridge_inv_write [OF assms(2), of j Idle] mark_uncommitted(4) [OF w] op_uncertain by auto
  next
    case (env_commit v key rec oid d st now j r p)
    have "owns (bw_journal v) key oid" using env_commit by (auto simp: owns_def)
    then have "committed_durable j (bw_ledger v)"
      using env_commit w recorded_of_result mark_committed_durable by blast
    then show ?thesis using bridge_inv_write [OF assms(2), of j Idle] op_committed env_commit by auto
  next
    case (crash p)
    then show ?thesis using w by (auto intro!: bridge_inv_at [OF assms(2)])
  qed
qed

lemma bridge_run_inv: "(bridge_step fee)\<^sup>*\<^sup>* s s' \<Longrightarrow> bridge_inv s \<Longrightarrow> bridge_inv s'"
  by (induction rule: rtranclp_induct) (auto intro: bridge_step_inv)

section \<open>The code as runs of the step relation\<close>

lemma at_pc_simps [simp]:
  "bs_world (at_pc s p w pc) = w" "bs_pc (at_pc s p w pc) p = pc"
  "at_pc (at_pc s p w pc) p w' pc' = at_pc s p w' pc'"
  by (simp_all add: at_pc_def)

lemma at_pc_self: "bs_pc s p = pc \<Longrightarrow> at_pc s p (bs_world s) pc = s"
  by (auto simp: at_pc_def)

text \<open>Each step, with the process put where the step starts.\<close>

lemma crash_at: "bridge_step fee (at_pc s p w pc) (at_pc s p w Idle)"
  using bridge_step.crash [of fee "at_pc s p w pc" p] by simp

lemma reserve_at:
  "fire_ok a \<Longrightarrow> preflight a = Inr () \<Longrightarrow>
   reserve (bw_journal w) (fa_signal a) (fa_now a) = Inr (j, RESERVED_NEW, r) \<Longrightarrow>
   bridge_step fee (at_pc s p w Idle) (at_pc s p (w\<lparr>bw_journal := j\<rparr>) (Held a))"
  using st_reserve [of "at_pc s p w Idle" p w a j r fee] by simp

lemma check_at:
  "prepare a = Executable i \<Longrightarrow> get_order_result (bw_ledger w) (fire_order a) = Inr d \<Longrightarrow>
   bridge_step fee (at_pc s p w (Held a)) (at_pc s p w (Checked a i d))"
  using st_check [of "at_pc s p w (Held a)" p a w i d fee] by simp

lemma claim_at:
  "mark_dispatching (bw_journal w) (fire_key a) (fire_order a) (fa_now a) = Inr (j, r) \<Longrightarrow>
   bridge_step fee (at_pc s p w (Checked a i d))
     (at_pc s p (w\<lparr>bw_journal := j\<rparr>) (if d = None then Claimed a i else Settling a d))"
  using st_claim [of "at_pc s p w (Checked a i d)" p a i d w j r fee] by simp

lemma submit_at:
  "submit_order fee (bw_ledger w) i (fa_market_price a) = (l, res) \<Longrightarrow>
   bridge_step fee (at_pc s p w (Claimed a i)) (at_pc s p
     (w\<lparr>bw_ledger := l, bw_submits := bw_submits w @ [(fire_key a, fire_order a)]\<rparr>) (Submitted a))"
  using st_submit [of "at_pc s p w (Claimed a i)" p a i w fee l res] by simp

lemma read_at:
  "get_order_result (bw_ledger w) (fire_order a) = Inr d \<Longrightarrow>
   bridge_step fee (at_pc s p w (Submitted a)) (at_pc s p w (Settling a d))"
  using st_read [of "at_pc s p w (Submitted a)" p a w d fee] by simp

lemma commit_at:
  "TERMINAL_RESULT_MAP (or_status d) = Some st \<Longrightarrow>
   mark_committed (bw_journal w) (fire_key a) st (fa_now a) = Inr (j, r) \<Longrightarrow>
   bridge_step fee (at_pc s p w (Settling a (Some d))) (at_pc s p (w\<lparr>bw_journal := j\<rparr>) Idle)"
  using st_commit [of "at_pc s p w (Settling a (Some d))" p a d w st j r fee] by simp

lemma abort_at:
  "mark_aborted (bw_journal w) key reason now = Inr (j, r) \<Longrightarrow>
   bridge_step fee (at_pc s p w pc) (at_pc s p (w\<lparr>bw_journal := j\<rparr>) Idle)"
  using env_abort [of "at_pc s p w pc" w key reason now j r fee p] by simp

lemma uncertain_at:
  "mark_uncertain (bw_journal w) key reason now = Inr (j, r) \<Longrightarrow>
   bridge_step fee (at_pc s p w pc) (at_pc s p (w\<lparr>bw_journal := j\<rparr>) Idle)"
  using env_uncertain [of "at_pc s p w pc" w key reason now j r fee p] by simp

lemma step_runs:
  "bridge_step fee s t \<Longrightarrow> (bridge_step fee)\<^sup>*\<^sup>* t u \<Longrightarrow> (bridge_step fee)\<^sup>*\<^sup>* s u"
  by (rule converse_rtranclp_into_rtranclp)

lemma reserve_existing: "reserve j sg now = Inr (j', oc, r) \<Longrightarrow> oc \<noteq> RESERVED_NEW \<Longrightarrow> j' = j"
  by (auto simp: reserve_def rbind_Inr_iff split: if_splits sum.splits)

lemma fst_respond [simp]: "fst (respond oc reason durable w r) = w"
  by (simp add: respond_def)

lemma write_runs:
  assumes "\<And>j r. written = Inr (j, r) \<Longrightarrow>
      bridge_step fee (at_pc s p w pc) (at_pc s p (w\<lparr>bw_journal := j\<rparr>) Idle)"
    and "\<And>w r. fst (k w r) = w"
  shows "(bridge_step fee)\<^sup>*\<^sup>* (at_pc s p w pc) (at_pc s p (fst (journal_write w written k)) Idle)"
  using assms crash_at by (auto simp: journal_write_def split: sum.split)

lemma abort_runs:
  "(bridge_step fee)\<^sup>*\<^sup>* (at_pc s p w pc) (at_pc s p (fst (abort_fire w key reason now)) Idle)"
  "(bridge_step fee)\<^sup>*\<^sup>* (at_pc s p w pc) (at_pc s p (fst (abort_and_raise w key reason err now)) Idle)"
  unfolding abort_fire_def abort_and_raise_def by (auto intro!: write_runs abort_at)

lemma uncertain_runs:
  "(bridge_step fee)\<^sup>*\<^sup>* (at_pc s p w pc) (at_pc s p
     (fst (journal_write w (mark_uncertain (bw_journal w) key reason now) (respond oc rs d))) Idle)"
  by (auto intro!: write_runs uncertain_at)

lemma commit_runs:
  "TERMINAL_RESULT_MAP (or_status d) = Some st \<Longrightarrow>
   (bridge_step fee)\<^sup>*\<^sup>* (at_pc s p w (Settling a (Some d))) (at_pc s p
     (fst (journal_write w (mark_committed (bw_journal w) (fire_key a) st (fa_now a)) (respond oc rs d'))) Idle)"
  by (auto intro!: write_runs commit_at)

lemma finalize_runs:
  "(bridge_step fee)\<^sup>*\<^sup>* (at_pc s p w (Settling a d))
     (at_pc s p (fst (finalize_from_durable w (fire_key a) d (fa_now a))) Idle)"
  by (auto simp: finalize_from_durable_def uncertain_runs commit_runs split: option.split)

lemma after_exception_runs:
  "(bridge_step fee)\<^sup>*\<^sup>* (at_pc s p w (Submitted a))
     (at_pc s p (fst (reconcile_after_broker_exception w (fire_key a) (fire_order a) (fa_now a))) Idle)"
proof (cases "get_order_result (bw_ledger w) (fire_order a)")
  case (Inr d)
  then have read: "bridge_step fee (at_pc s p w (Submitted a)) (at_pc s p w (Settling a d))" by (rule read_at)
  show ?thesis
  proof (cases d)
    case (Some x)
    then show ?thesis
      using Inr step_runs [OF read]
      by (cases "TERMINAL_RESULT_MAP (or_status x)")
        (auto simp: reconcile_after_broker_exception_def uncertain_runs commit_runs)
  qed (simp add: reconcile_after_broker_exception_def Inr uncertain_runs)
qed (simp add: reconcile_after_broker_exception_def uncertain_runs)

lemma submit_and_settle_runs:
  "(bridge_step fee)\<^sup>*\<^sup>* (at_pc s p w (Claimed a i)) (at_pc s p (fst (submit_and_settle fee w a i)) Idle)"
proof -
  obtain l res where sub: "submit_order fee (bw_ledger w) i (fa_market_price a) = (l, res)" by fastforce
  let ?w = "w\<lparr>bw_ledger := l, bw_submits := bw_submits w @ [(fire_key a, fire_order a)]\<rparr>"
  have "(bridge_step fee)\<^sup>*\<^sup>* (at_pc s p ?w (Submitted a)) (at_pc s p (fst (submit_and_settle fee w a i)) Idle)"
  proof (cases res)
    case (Inl e)
    then show ?thesis using after_exception_runs [of fee s p ?w a] by (simp add: submit_and_settle_def Let_def sub)
  next
    case (Inr r)
    show ?thesis
    proof (cases "get_order_result l (fire_order a)")
      case (Inl e)
      with Inr show ?thesis
        using uncertain_runs [of fee s p ?w] by (simp add: submit_and_settle_def Let_def sub)
    next
      case (Inr d)
      with \<open>res = Inr r\<close> show ?thesis
        using step_runs [OF read_at finalize_runs, of ?w a d fee s p]
        by (simp add: submit_and_settle_def Let_def sub)
    qed
  qed
  then show ?thesis using step_runs [OF submit_at [OF sub]] by blast
qed

lemma dispatch_executable_runs:
  assumes "prepare a = Executable i"
  shows "(bridge_step fee)\<^sup>*\<^sup>* (at_pc s p w (Held a)) (at_pc s p (fst (dispatch_executable fee w a i)) Idle)"
proof (cases "get_order_result (bw_ledger w) (fire_order a)")
  case (Inl e)
  then show ?thesis by (simp add: dispatch_executable_def abort_runs)
next
  case (Inr d)
  note check = check_at [OF assms Inr, of fee s p]
  show ?thesis
  proof (cases "mark_dispatching (bw_journal w) (fire_key a) (fire_order a) (fa_now a)")
    case (Inl e)
    then show ?thesis
      using Inr step_runs [OF check r_into_rtranclp [of "bridge_step fee"], OF crash_at]
      by (simp add: dispatch_executable_def journal_write_def)
  next
    case (Inr jr)
    obtain j r where jr: "jr = (j, r)" by fastforce
    note claim = claim_at [of w a j r fee s p i d, OF Inr [unfolded jr]]
    have "(bridge_step fee)\<^sup>*\<^sup>* (at_pc s p (w\<lparr>bw_journal := j\<rparr>) (if d = None then Claimed a i else Settling a d))
        (at_pc s p (fst (dispatch_executable fee w a i)) Idle)"
      using Inr \<open>get_order_result (bw_ledger w) (fire_order a) = Inr d\<close> jr
      by (auto simp: dispatch_executable_def journal_write_def submit_and_settle_runs finalize_runs
          split: option.split)
    then show ?thesis
      using step_runs [OF check step_runs [OF claim]] by blast
  qed
qed

lemma dispatch_held_runs:
  assumes "preflight a = Inr ()" "reserve (bw_journal w) (fa_signal a) (fa_now a) = Inr (j, RESERVED_NEW, r)"
  shows "(bridge_step fee)\<^sup>*\<^sup>* (at_pc s p (w\<lparr>bw_journal := j\<rparr>) (Held a)) (at_pc s p (fst (dispatch fee w a)) Idle)"
  using assms by (cases "prepare a") (auto simp: dispatch_def abort_runs dispatch_executable_runs)

lemma dispatch_runs:
  assumes "fire_ok a"
  shows "(bridge_step fee)\<^sup>*\<^sup>* (at_pc s p w Idle) (at_pc s p (fst (dispatch fee w a)) Idle)"
proof (cases "preflight a")
  case (Inr u)
  show ?thesis
  proof (cases "reserve (bw_journal w) (fa_signal a) (fa_now a)")
    case (Inr jor)
    obtain j oc r where jor: "jor = (j, oc, r)" by (metis prod_cases3)
    show ?thesis
    proof (cases oc)
      case RESERVED_NEW
      with Inr jor \<open>preflight a = Inr u\<close> show ?thesis
        by (auto intro: step_runs [OF reserve_at [OF assms] dispatch_held_runs])
    qed (use Inr jor \<open>preflight a = Inr u\<close> reserve_existing [of "bw_journal w"] in \<open>fastforce simp: dispatch_def\<close>)+
  qed (simp add: dispatch_def Inr)
qed (simp add: dispatch_def)

section \<open>Settling a fire\<close>

definition settled_in :: "bridge_world \<Rightarrow> string \<Rightarrow> bool" where
  "settled_in w key \<longleftrightarrow> (\<exists>r. journal_get (bw_journal w) key = Some r \<and> tj_state r \<in> TERMINAL_STATES)"

text \<open>A fire that is being dispatched, last written no later than now.\<close>

definition in_flight :: "bridge_world \<Rightarrow> string \<Rightarrow> instant \<Rightarrow> bool" where
  "in_flight w key now \<longleftrightarrow> journal_wf (bw_journal w) \<and>
     (\<exists>r. journal_get (bw_journal w) key = Some r \<and> tj_state r = JS_DISPATCHING \<and> tj_updated_at r \<le> now)"

lemma advance_ok:
  "journal_get j key = Some r \<Longrightarrow> tj_state r = expected \<Longrightarrow> tj_updated_at r \<le> now \<Longrightarrow>
   advance j key expected now False upd = Inr (tbl_upsert tj_idempotency_key (upd r) j, upd r)"
  by (simp add: advance_def)

lemma terminal_simps [simp]:
  "JS_COMMITTED \<in> TERMINAL_STATES" "JS_ABORTED \<in> TERMINAL_STATES" "JS_UNCERTAIN \<in> TERMINAL_STATES"
  "JS_RESERVED \<notin> TERMINAL_STATES" "JS_DISPATCHING \<notin> TERMINAL_STATES"
  by (simp_all add: TERMINAL_STATES_def)

lemma nonblank_reasons [simp]:
  "require_nonblank REASON_DISPATCH_OUTCOME_MISSING = Inr REASON_DISPATCH_OUTCOME_MISSING"
  "require_nonblank REASON_DISPATCH_OUTCOME_NONTERMINAL = Inr REASON_DISPATCH_OUTCOME_NONTERMINAL"
  "require_nonblank REASON_BROKER_EXCEPTION = Inr REASON_BROKER_EXCEPTION"
  "require_nonblank REASON_LEDGER_POSTFLIGHT_EXCEPTION = Inr REASON_LEDGER_POSTFLIGHT_EXCEPTION"
  "require_nonblank REASON_LEDGER_PREFLIGHT_EXCEPTION = Inr REASON_LEDGER_PREFLIGHT_EXCEPTION"
  "require_nonblank REASON_RESTART_BEFORE_DISPATCH = Inr REASON_RESTART_BEFORE_DISPATCH"
  "require_nonblank REASON_DISPATCH_OUTCOME_UNKNOWN = Inr REASON_DISPATCH_OUTCOME_UNKNOWN"
  "require_nonblank REASON_RISK_BLOCKED = Inr REASON_RISK_BLOCKED"
  "require_nonblank REASON_HOLD_NOOP = Inr REASON_HOLD_NOOP"
  "require_nonblank REASON_SIZING_FAILED = Inr REASON_SIZING_FAILED"
  "require_nonblank REASON_NO_EXECUTABLE_QUANTITY = Inr REASON_NO_EXECUTABLE_QUANTITY"
  "require_nonblank REASON_COHERENCE_FAILED = Inr REASON_COHERENCE_FAILED"
  "require_nonblank REASON_GENERATION_EXCEPTION = Inr REASON_GENERATION_EXCEPTION"
  "require_nonblank REASON_SIZING_EXCEPTION = Inr REASON_SIZING_EXCEPTION"
  by (simp_all add: require_nonblank_def reason_defs strip_def is_space_def)

lemma nonblank_order_id [simp]: "require_nonblank (order_id_of s) = Inr (order_id_of s)"
  by (simp add: require_nonblank_def order_id_of_def strip_def is_space_def)

lemma write_settles:
  assumes "in_flight w key now" "\<And>w r. fst (k w r) = w"
  shows "require_nonblank reason = Inr reason \<Longrightarrow>
      settled_in (fst (journal_write w (mark_uncertain (bw_journal w) key reason now) k)) key"
    and "settled_in (fst (journal_write w (mark_committed (bw_journal w) key st now) k)) key"
proof -
  obtain r where r: "journal_get (bw_journal w) key = Some r" "tj_state r = JS_DISPATCHING" "tj_updated_at r \<le> now"
    and k: "tbl_keyed tj_idempotency_key (bw_journal w)"
    using assms(1) by (auto simp: in_flight_def keyed_of_wf)
  note key = journal_get_keyD [OF r(1)]
  show "require_nonblank reason = Inr reason \<Longrightarrow>
      settled_in (fst (journal_write w (mark_uncertain (bw_journal w) key reason now) k)) key"
    "settled_in (fst (journal_write w (mark_committed (bw_journal w) key st now) k)) key"
    using key assms(2) by (simp_all add: marks_advance [OF k] advance_ok [OF r] journal_write_def settled_in_def
        journal_get_put)
qed

lemma finalize_settles: "in_flight w key now \<Longrightarrow> settled_in (fst (finalize_from_durable w key d now)) key"
  by (auto simp: finalize_from_durable_def write_settles split: option.split)

lemma after_exception_settles:
  "in_flight w key now \<Longrightarrow> settled_in (fst (reconcile_after_broker_exception w key oid now)) key"
  by (auto simp: reconcile_after_broker_exception_def Let_def write_settles split: option.split)

lemma submit_and_settle_settles:
  assumes "in_flight w (fire_key a) (fa_now a)"
  shows "settled_in (fst (submit_and_settle fee w a i)) (fire_key a)"
proof -
  obtain l res where sub: "submit_order fee (bw_ledger w) i (fa_market_price a) = (l, res)" by fastforce
  let ?w = "w\<lparr>bw_ledger := l, bw_submits := bw_submits w @ [(fire_key a, fire_order a)]\<rparr>"
  have fl: "in_flight ?w (fire_key a) (fa_now a)" using assms by (simp add: in_flight_def)
  show ?thesis
    using write_settles(1) [OF fl, of "respond BO_UNCERTAIN (Some REASON_LEDGER_POSTFLIGHT_EXCEPTION) None"
        REASON_LEDGER_POSTFLIGHT_EXCEPTION]
    by (auto simp: submit_and_settle_def Let_def sub after_exception_settles [OF fl] finalize_settles [OF fl]
        split: sum.split)
qed

lemma abort_settles:
  assumes "journal_wf (bw_journal w)" "journal_get (bw_journal w) key = Some r" "tj_state r = JS_RESERVED"
    "tj_updated_at r \<le> now" "require_nonblank reason = Inr reason"
  shows "settled_in (fst (abort_fire w key reason now)) key"
    and "settled_in (fst (abort_and_raise w key reason err now)) key"
  using journal_get_keyD [OF assms(2)]
  by (simp_all add: abort_fire_def abort_and_raise_def marks_advance [OF keyed_of_wf [OF assms(1)]] assms(5)
      advance_ok [OF assms(2-4)] journal_write_def settled_in_def journal_get_put)

lemma prepare_reason:
  "prepare a = Abort_Return reason \<Longrightarrow> require_nonblank reason = Inr reason"
  "prepare a = Abort_Raise reason err \<Longrightarrow> require_nonblank reason = Inr reason"
  by (auto simp: prepare_def Let_def split: sum.splits if_splits option.splits)

lemma dispatch_executable_settles:
  assumes wf: "journal_wf (bw_journal w)" and r: "journal_get (bw_journal w) (fire_key a) = Some r"
    "tj_state r = JS_RESERVED" "tj_updated_at r \<le> fa_now a"
  shows "if (\<exists>d. get_order_result (bw_ledger w) (fire_order a) = Inr d) \<and>
      order_id_taken (bw_journal w) (fire_key a) (fire_order a)
    then dispatch_executable fee w a i = (w, Inl (JournalRaised OrderIdConflictError))
    else settled_in (fst (dispatch_executable fee w a i)) (fire_key a)"
proof (cases "get_order_result (bw_ledger w) (fire_order a)")
  case (Inl e)
  then show ?thesis by (simp add: dispatch_executable_def abort_settles [OF wf r])
next
  case (Inr d)
  note k = keyed_of_wf [OF wf]
  show ?thesis
  proof (cases "order_id_taken (bw_journal w) (fire_key a) (fire_order a)")
    case True
    then show ?thesis
      using Inr r by (simp add: dispatch_executable_def marks_advance [OF k] advance_def journal_write_def)
  next
    case False
    let ?r = "to_dispatching (fire_order a) (fa_now a) r"
    let ?j = "tbl_upsert tj_idempotency_key ?r (bw_journal w)"
    have m: "mark_dispatching (bw_journal w) (fire_key a) (fire_order a) (fa_now a) = Inr (?j, ?r)"
      using False r by (simp add: marks_advance [OF k] advance_def)
    have "in_flight (w\<lparr>bw_journal := ?j\<rparr>) (fire_key a) (fa_now a)"
      using journal_op_ok(1) [OF op_dispatching [OF m] wf] journal_get_keyD [OF r(1)]
      by (simp add: in_flight_def journal_get_put)
    then show ?thesis
      using False Inr
      by (auto simp: dispatch_executable_def Let_def m journal_write_def finalize_settles submit_and_settle_settles
          split: option.split)
  qed
qed

section \<open>Reconciliation against a reference\<close>

text \<open>What a restart makes of a record, read off the ledger alone.\<close>

definition settled :: "ledger \<Rightarrow> instant \<Rightarrow> trigger_journal_record \<Rightarrow> trigger_journal_record" where
  "settled l now r =
     (case tj_state r of
        JS_RESERVED \<Rightarrow> to_final JS_ABORTED REASON_RESTART_BEFORE_DISPATCH now r
      | JS_DISPATCHING \<Rightarrow>
          (case Option.bind (Option.bind (tj_order_id r) (recorded l)) TERMINAL_RESULT_MAP of
             Some st \<Rightarrow> to_committed st now r
           | None \<Rightarrow> to_final JS_UNCERTAIN REASON_DISPATCH_OUTCOME_UNKNOWN now r)
      | _ \<Rightarrow> r)"

lemma settled_simps [simp]:
  "tj_idempotency_key (settled l now r) = tj_idempotency_key r" "tj_state (settled l now r) \<in> TERMINAL_STATES"
  "tj_state r \<in> TERMINAL_STATES \<Longrightarrow> settled l now r = r"
  by (auto simp: settled_def TERMINAL_STATES_def split: journal_state.split option.split)

lemma nonterminal_iff: "tj_state r \<in> NONTERMINAL_STATES \<longleftrightarrow> tj_state r \<notin> TERMINAL_STATES"
  by (cases "tj_state r") (auto simp: NONTERMINAL_STATES_def TERMINAL_STATES_def)

definition settle_at :: "ledger \<Rightarrow> instant \<Rightarrow> string set \<Rightarrow> journal \<Rightarrow> journal" where
  "settle_at l now ks j = map (\<lambda>x. if tj_idempotency_key x \<in> ks then settled l now x else x) j"

lemma settle_upsert:
  assumes "journal_wf j" "journal_get j key = Some r" "settled l now r = r'"
  shows "tbl_upsert tj_idempotency_key r' j = settle_at l now {key} j"
proof -
  note kd = journal_get_keyD [OF assms(2)]
  have "x = r" if "x \<in> set j" "tj_idempotency_key x = key" for x
    using tbl_get_mem [OF keyed_of_wf [OF assms(1)] that(1)] assms(2) that(2) by (simp add: journal_get_def)
  moreover have "tj_idempotency_key r' = key" using assms(3) kd by auto
  ultimately show ?thesis
    using assms(2,3) by (auto simp: tbl_upsert_def settle_at_def journal_get_def)
qed

lemma reconcile_record_settles:
  assumes wf: "journal_wf (bw_journal w)" and l: "ledger_inv (bw_ledger w)"
    and r: "journal_get (bw_journal w) (tj_idempotency_key r) = Some r"
    and nt: "tj_state r \<in> NONTERMINAL_STATES" and now: "tj_updated_at r \<le> now"
  shows "\<exists>res. reconcile_record w r now =
      (w\<lparr>bw_journal := settle_at (bw_ledger w) now {tj_idempotency_key r} (bw_journal w)\<rparr>, Inr res) \<and>
      br_record res = settled (bw_ledger w) now r"
proof -
  note k = marks_advance [OF keyed_of_wf [OF wf]]
  note up = settle_upsert [OF wf r, of "bw_ledger w" now, symmetric]
  have read: "\<exists>d. get_order_result (bw_ledger w) oid = Inr (Some d) \<and> recorded (bw_ledger w) oid = Some (or_status d)"
    if "has_processed_order (bw_ledger w) oid" for oid
  proof -
    have "recorded (bw_ledger w) oid \<noteq> None"
      using that l recorded_None_iff by (auto simp: ledger_inv_def)
    then show ?thesis by (auto simp: recorded_def split: sum.splits option.splits)
  qed
  have unread: "recorded (bw_ledger w) oid = None" if "\<not> has_processed_order (bw_ledger w) oid" for oid
    using that l recorded_None_iff by (auto simp: ledger_inv_def)
  show ?thesis
  proof (cases "tj_state r")
    case JS_RESERVED
    then show ?thesis
      by (simp add: reconcile_record_def abort_fire_def k advance_ok [OF r _ now] journal_write_def respond_def
          settled_def up [OF refl])
  next
    case JS_DISPATCHING
    then obtain oid where oid: "tj_order_id r = Some oid"
      using journal_wfD [OF wf r] by (auto simp: record_wf_def)
    show ?thesis
    proof (cases "has_processed_order (bw_ledger w) oid")
      case False
      then show ?thesis
        using JS_DISPATCHING oid unread [OF False]
        by (simp add: reconcile_record_def k advance_ok [OF r _ now] journal_write_def respond_def
            settled_def up [OF refl])
    next
      case True
      then obtain d where d: "get_order_result (bw_ledger w) oid = Inr (Some d)"
        "recorded (bw_ledger w) oid = Some (or_status d)" using read by blast
      then show ?thesis
        using JS_DISPATCHING oid True
        by (cases "TERMINAL_RESULT_MAP (or_status d)")
          (simp_all add: reconcile_record_def k advance_ok [OF r _ now] journal_write_def respond_def
            settled_def up [OF refl])
    qed
  qed (use nt in \<open>simp_all add: NONTERMINAL_STATES_def\<close>)
qed

lemma journal_get_settle:
  "journal_wf j \<Longrightarrow> journal_get (settle_at l now ks j) k =
     map_option (\<lambda>x. if k \<in> ks then settled l now x else x) (journal_get j k)"
proof -
  have "tbl_get tj_idempotency_key k (settle_at l now ks j) =
      map_option (\<lambda>x. if k \<in> ks then settled l now x else x) (tbl_get tj_idempotency_key k j)" for j
    by (induction j) (auto simp: settle_at_def tbl_get_def)
  then show ?thesis by (simp add: journal_get_def)
qed

lemma settle_op:
  assumes wf: "journal_wf j" and r: "journal_get j key = Some r" "tj_state r \<in> NONTERMINAL_STATES" "tj_updated_at r \<le> now"
  shows "journal_op j (settle_at l now {key} j)"
proof -
  note k = marks_advance [OF keyed_of_wf [OF wf]] and up = settle_upsert [OF wf r(1), of l now, symmetric]
  consider "tj_state r = JS_RESERVED" "settled l now r = to_final JS_ABORTED REASON_RESTART_BEFORE_DISPATCH now r"
    | st where "tj_state r = JS_DISPATCHING" "settled l now r = to_committed st now r"
    | "tj_state r = JS_DISPATCHING" "settled l now r = to_final JS_UNCERTAIN REASON_DISPATCH_OUTCOME_UNKNOWN now r"
    using r(2)
    by (cases "Option.bind (Option.bind (tj_order_id r) (recorded l)) TERMINAL_RESULT_MAP")
      (auto simp: settled_def NONTERMINAL_STATES_def simp del: bind_assoc)
  then show ?thesis
  proof cases
    case 1
    then show ?thesis
      using op_aborted [of j key REASON_RESTART_BEFORE_DISPATCH now] by (simp add: k advance_ok [OF r(1) _ r(3)] up)
  next
    case (2 st)
    then show ?thesis using op_committed [of j key st now] by (simp add: k advance_ok [OF r(1) _ r(3)] up)
  next
    case 3
    then show ?thesis
      using op_uncertain [of j key REASON_DISPATCH_OUTCOME_UNKNOWN now] by (simp add: k advance_ok [OF r(1) _ r(3)] up)
  qed
qed

lemma settle_at_insert:
  "k \<notin> ks \<Longrightarrow> settle_at l now ks (settle_at l now {k} j) = settle_at l now (insert k ks) j"
  by (auto simp: settle_at_def)

lemma reconcile_records_settle:
  assumes "journal_wf (bw_journal w)" "ledger_inv (bw_ledger w)" "distinct (map tj_idempotency_key rs)"
    and "\<And>r. r \<in> set rs \<Longrightarrow> journal_get (bw_journal w) (tj_idempotency_key r) = Some r \<and>
      tj_state r \<in> NONTERMINAL_STATES \<and> tj_updated_at r \<le> now"
  shows "\<exists>results. reconcile_records w now rs =
      (w\<lparr>bw_journal := settle_at (bw_ledger w) now (tj_idempotency_key ` set rs) (bw_journal w)\<rparr>, Inr results) \<and>
      map br_record results = map (settled (bw_ledger w) now) rs"
  using assms
proof (induction rs arbitrary: w)
  case Nil
  then show ?case by (simp add: settle_at_def)
next
  case (Cons r rs)
  let ?j = "settle_at (bw_ledger w) now {tj_idempotency_key r} (bw_journal w)"
  have r: "journal_get (bw_journal w) (tj_idempotency_key r) = Some r" "tj_state r \<in> NONTERMINAL_STATES"
    "tj_updated_at r \<le> now" using Cons.prems(4) [of r] by simp_all
  obtain res where res: "reconcile_record w r now = (w\<lparr>bw_journal := ?j\<rparr>, Inr res)"
    "br_record res = settled (bw_ledger w) now r"
    using reconcile_record_settles [OF Cons.prems(1,2) r] by blast
  have wf: "journal_wf ?j" using journal_op_ok(1) [OF settle_op [OF Cons.prems(1) r] Cons.prems(1)] .
  have "journal_get ?j (tj_idempotency_key x) = Some x" if "x \<in> set rs" for x
  proof -
    have "tj_idempotency_key x \<noteq> tj_idempotency_key r" using that Cons.prems(3) by (metis distinct.simps(2) image_eqI list.map(2) set_map)
    then show ?thesis using Cons.prems(4) [of x] that by (simp add: journal_get_settle [OF Cons.prems(1)])
  qed
  then obtain results where "reconcile_records (w\<lparr>bw_journal := ?j\<rparr>) now rs =
      (w\<lparr>bw_journal := settle_at (bw_ledger w) now (tj_idempotency_key ` set rs) ?j\<rparr>, Inr results)"
    "map br_record results = map (settled (bw_ledger w) now) rs"
    using Cons.IH [of "w\<lparr>bw_journal := ?j\<rparr>"] wf Cons.prems(2-4) by auto
  then show ?case using res Cons.prems(3) by (simp add: settle_at_insert)
qed

section \<open>Properties of the bridge\<close>

definition bridge_start :: "ledger \<Rightarrow> bridge_sys" where
  "bridge_start l = \<lparr>bs_world = \<lparr>bw_journal = [], bw_ledger = l, bw_submits = []\<rparr>, bs_pc = (\<lambda>_. Idle)\<rparr>"

lemma bridge_start_inv: "ledger_inv l \<Longrightarrow> bridge_inv (bridge_start l)"
  by (simp add: bridge_inv_def bridge_start_def world_ok_def committed_durable_def)

lemma submits_distinct:
  assumes "world_ok w"
  shows "distinct (map snd (bw_submits w))"
proof -
  have d: "distinct (bw_submits w)" "inj_on fst (set (bw_submits w))"
    using assms by (simp_all add: world_ok_def distinct_map)
  have "inj_on snd (set (bw_submits w))"
  proof (rule inj_onI)
    fix x y assume xy: "x \<in> set (bw_submits w)" "y \<in> set (bw_submits w)" "snd x = snd y"
    then have "owns (bw_journal w) (fst x) (snd x)" "owns (bw_journal w) (fst y) (snd x)"
      using assms by (auto simp: world_ok_def)
    then have "fst x = fst y" using owns_unique assms unfolding world_ok_def by blast
    then show "x = y" using xy(3) by (simp add: prod_eq_iff)
  qed
  then show ?thesis using d(1) by (simp add: distinct_map)
qed

text \<open>The end-to-end fixture: a buy of 5% of the NAV fires once.\<close>

definition example_fire :: "instant \<Rightarrow> fire_args" where
  "example_fire now =
     \<lparr>fa_signal = example_signal,
      fa_bundle = example_bundle\<lparr>bn_plan := Some (example_plan\<lparr>pl_max_fires := 1\<rparr>)\<rparr>,
      fa_risk_input = (example_input Action_BUY 5)\<lparr>ri_correlation_id := Some ''key-1''\<rparr>,
      fa_market_price = example_quote\<lparr>mp_price := 10000\<rparr>, fa_position = Some 0, fa_now = now\<rparr>"

lemma example_fire_facts:
  "fire_ok (example_fire now)" "preflight (example_fire now) = Inr ()" "fa_signal (example_fire now) = example_signal"
  "fa_now (example_fire now) = now" "fire_key (example_fire now) = ''key-1''" "fs_triggered_at example_signal = 0"
  by (simp_all add: example_fire_def fire_ok_def example_quote_def preflight_def Let_def example_bundle_def example_plan_def
      example_signal_def example_input_defs bundle_action_def)

definition example_world :: bridge_world where
  "example_world = bs_world (bridge_start example_ledger)"

text \<open>
  C4. However many processes run the bridge on one database, wherever they are interrupted, and
  whatever a reconciliation writes in between: the broker is called at most once per idempotency
  key and at most once per order id, and only for a key whose journal record carries that order id.
\<close>

theorem broker_called_once:
  assumes "(bridge_step fee)\<^sup>*\<^sup>* (bridge_start l) s" and "ledger_inv l"
  shows "distinct (map fst (bw_submits (bs_world s))) \<and> distinct (map snd (bw_submits (bs_world s))) \<and>
    (\<forall>key oid. (key, oid) \<in> set (bw_submits (bs_world s)) \<longrightarrow>
       (\<exists>r. journal_get (bw_journal (bs_world s)) key = Some r \<and> tj_order_id r = Some oid))"
proof -
  have w: "world_ok (bs_world s)"
    using bridge_run_inv [OF assms(1) bridge_start_inv [OF assms(2)]] by (rule bridge_invD(1))
  then show ?thesis using submits_distinct [OF w] by (auto simp: world_ok_def owns_def)
qed

lemma example_run:
  "(bridge_step zero_fees)\<^sup>*\<^sup>* (bridge_start example_ledger)
     (at_pc (bridge_start example_ledger) 0 (fst (dispatch zero_fees example_world (example_fire 5))) Idle)"
  using dispatch_runs [OF example_fire_facts(1), of zero_fees "bridge_start example_ledger" 0 example_world 5]
    at_pc_self [of "bridge_start example_ledger" 0 Idle]
  by (simp add: example_world_def) (simp add: bridge_start_def)

theorem broker_called_once_witness:
  "distinct (map fst (bw_submits (fst (dispatch zero_fees example_world (example_fire 5)))))"
  using broker_called_once [OF example_run example_ledger_inv] by simp

text \<open>
  C5. In every state such a system reaches, a record is COMMITTED only with an order id whose
  result is durable in the ledger, and the recorded outcome is the ledger's; the journal and the
  ledger keep their invariants.
\<close>

theorem committed_means_durable:
  assumes "(bridge_step fee)\<^sup>*\<^sup>* (bridge_start l) s" and "ledger_inv l"
    and "journal_get (bw_journal (bs_world s)) key = Some r" and "tj_state r = JS_COMMITTED"
  shows "journal_wf (bw_journal (bs_world s)) \<and> ledger_inv (bw_ledger (bs_world s)) \<and>
    (\<exists>oid d. tj_order_id r = Some oid \<and> get_order_result (bw_ledger (bs_world s)) oid = Inr (Some d) \<and>
       TERMINAL_RESULT_MAP (or_status d) = tj_result_status r \<and> tj_result_status r \<noteq> None)"
proof -
  have w: "world_ok (bs_world s)"
    using bridge_run_inv [OF assms(1) bridge_start_inv [OF assms(2)]] by (rule bridge_invD(1))
  then obtain oid st where o: "tj_order_id r = Some oid" "recorded (bw_ledger (bs_world s)) oid = Some st"
    "TERMINAL_RESULT_MAP st = tj_result_status r"
    using assms(4) journal_get_keyD [OF assms(3)] by (auto simp: world_ok_def committed_durable_def)
  obtain d where "get_order_result (bw_ledger (bs_world s)) oid = Inr (Some d)" "or_status d = st"
    using o(2) by (auto simp: recorded_def split: sum.splits option.splits)
  moreover have "tj_result_status r \<noteq> None"
    using journal_wfD [OF _ assms(3)] w assms(4) by (simp add: world_ok_def record_wf_def)
  ultimately show ?thesis using w o by (auto simp: world_ok_def)
qed

lemma example_correlated_passes:
  "vr_passed (evaluate ((example_input Action_BUY 5)\<lparr>ri_correlation_id := c\<rparr>))"
proof -
  let ?r = "example_input Action_BUY 5"
  let ?r' = "?r\<lparr>ri_correlation_id := c\<rparr>"
  have eqs: "action_of ?r' = action_of ?r" "ri_context ?r' = ri_context ?r" "buy_cost_needed ?r' = buy_cost_needed ?r"
    "cash_target_allows ?r' = cash_target_allows ?r" "tolerance_allows ?r' = tolerance_allows ?r"
    "slippage_allows ?r' = slippage_allows ?r"
    by (simp_all add: fun_eq_iff action_of_def buy_cost_needed_def target_value_def target_weight_of_def
        cash_target_allows_def tolerance_allows_def slippage_allows_def Let_def cong: option.case_cong)
  then have r: "action_of ?r' = Action_BUY" "0 < amount (rc_total_nav (ri_context ?r'))"
    using example_buy_limits(1,2) by simp_all
  show ?thesis unfolding buy_verdict [OF r refl] eqs by (rule example_buy_limits(3))
qed

definition example_order :: "decimal option \<Rightarrow> percent option \<Rightarrow> order_intent" where
  "example_order q weight =
     \<lparr>oi_order_id = ''order-analysis-1'', oi_correlation_id = ''key-1'', oi_symbol = ''005930'', oi_market = KR,
      oi_asset_class = KR_EQUITY, oi_account_role = PAPER, oi_side = BUY, oi_order_type = MARKET,
      oi_execution_mode = EM_NORMAL, oi_time_in_force = DAY, oi_quantity = q, oi_target_weight_percent = weight,
      oi_limit_price = None, oi_reason_code = Some ''steady'', oi_source_decision_id = Some ''analysis-1'',
      oi_created_at = 0\<rparr>"

lemma example_order_valid:
  "valid_intent (example_order None (Some 5))" "valid_intent (example_order (Some 5) None)"
  by (simp_all add: valid_intent_def example_order_def normalised_def strip_def is_space_def)

lemma example_generated:
  "\<exists>g. generate ((example_input Action_BUY 5)\<lparr>ri_correlation_id := Some ''key-1''\<rparr>) = Inr g \<and>
     og_status g = GENERATED \<and> og_order_intent g = Some (example_order None (Some 5))"
proof -
  let ?r = "(example_input Action_BUY 5)\<lparr>ri_correlation_id := Some ''key-1''\<rparr>"
  have "build_order_intent ?r ''key-1'' = Inr (example_order None (Some 5))"
    using mk_OrderIntent_idem [OF example_order_valid(1)]
    by (simp add: build_order_intent_def Let_def example_input_defs parse_market_def MARKET_STRING_MAP_def
        resolve_asset_routing_def example_order_def)
  moreover have "action_of ?r \<noteq> Action_HOLD" by (simp add: example_input_defs)
  ultimately show ?thesis
    using example_correlated_passes [of "Some ''key-1''"] by (simp add: generate_def Let_def blocking_iff)
qed

lemma example_resolved:
  "\<exists>q. resolve (example_order None (Some 5)) example_context (example_quote\<lparr>mp_price := 10000\<rparr>) (Some 0) = Inr q \<and>
     qr_status q = QR_RESOLVED \<and> qr_order_intent q = Some (example_order (Some 5) None)"
  using mk_OrderIntent_idem [OF example_order_valid(2)]
  by (simp add: resolve_def Let_def example_order_def example_quote_def example_context_def resolve_current_value_def
      floor_toward_zero_def ddiv_r_def dec_defs)

lemma example_prepared: "prepare (example_fire now) = Executable (example_order (Some 5) None)"
proof -
  have "ri_context (fa_risk_input (example_fire now)) = example_context"
    by (simp add: example_fire_def example_input_def)
  moreover have "coherence_problems example_signal (Some (example_order (Some 5) None)) = []"
    by (simp add: coherence_problems_def example_signal_def example_order_def order_id_of_def ACTION_TO_SIDE_def)
  ultimately show ?thesis
    using example_generated example_resolved by (auto simp: prepare_def example_fire_def)
qed

lemma apply_cash_change_orders:
  "apply_cash_change l c o' f' d why = Inr m \<Longrightarrow> order_results m = order_results l"
  by (auto simp: apply_cash_change_def rbind_Inr_iff upsert_cash_def append_cash_ledger_entry_def Let_def
      split: if_splits option.splits)

lemma seed_cash_rows_orders: "seed_cash_rows l cs = Inr m \<Longrightarrow> order_results m = order_results l"
  by (induction cs arbitrary: l) (auto simp: rbind_Inr_iff apply_cash_change_orders split: option.splits)

lemma example_ledger_orders: "order_results example_ledger = []"
  using seed_cash_rows_orders [of empty_ledger "[example_cash]"]
  by (auto simp: example_ledger_def seed_initial_cash_def transaction_def empty_ledger_def split: sum.split
      simp del: seed_cash_rows.simps simp: rbind_Inr_iff)

lemma example_terminal:
  "\<exists>st. recorded (fst (submit_order zero_fees example_ledger (example_order (Some 5) None)
      (example_quote\<lparr>mp_price := 10000\<rparr>))) ''order-analysis-1'' = Some st \<and> (st = FILLED \<or> st = REJECTED)"
proof -
  let ?i = "example_order (Some 5) None"
  let ?p = "example_quote\<lparr>mp_price := 10000\<rparr>"
  let ?s = "abs_ledger example_ledger"
  have fresh: "pa_orders ?s ''order-analysis-1'' = None"
    by (simp add: abs_ledger_def recorded_def get_order_result_def example_ledger_orders)
  have "validate_intent_market_price_match ?i ?p = None" "\<not> limit_not_reached ?i ?p"
    by (simp_all add: validate_intent_market_price_match_def example_order_def example_quote_def limit_not_reached_def)
  moreover have "oi_order_id ?i = ''order-analysis-1''" "oi_quantity ?i = Some 5" "oi_side ?i = BUY"
    by (simp_all add: example_order_def)
  ultimately have "\<exists>st. pa_orders (fst (spec_submit zero_fees ?s ?i ?p)) ''order-analysis-1'' = Some st \<and>
      (st = FILLED \<or> st = REJECTED)"
    using fresh by (simp add: spec_submit_def Let_def spec_record_def spec_fill_def zero_fees_def money_zero_def)
  moreover have "simulates (submit_order zero_fees example_ledger ?i ?p) (spec_submit zero_fees ?s ?i ?p)"
    by (rule submit_simulates [OF example_ledger_inv example_order_valid(2)]) simp
  ultimately show ?thesis by (metis abs_ledger_def fst_conv paper_account.select_convs(1))
qed

text \<open>The end-to-end run of the fixture: the fire is journaled, submitted and committed.\<close>

lemma example_committed:
  "\<exists>r. journal_get (bw_journal (fst (dispatch zero_fees example_world (example_fire 5)))) ''key-1'' = Some r \<and>
     tj_state r = JS_COMMITTED \<and> (\<exists>res. snd (dispatch zero_fees example_world (example_fire 5)) = Inr res)"
proof -
  let ?a = "example_fire 5" and ?oid = "''order-analysis-1''" and ?n = "new_record example_signal 5"
  let ?w = "example_world\<lparr>bw_journal := [?n]\<rparr>"
  let ?d = "to_dispatching ?oid 5 ?n"
  have key: "fs_idempotency_key example_signal = ''key-1''" and oid: "fire_order ?a = ?oid"
    by (simp_all add: example_signal_def example_fire_def order_id_of_def)
  have wf: "journal_wf [?n]" using journal_op_ok(1) [OF op_reserve [OF example_reserve] journal_wf_Nil] .
  have world: "bw_journal example_world = []" "bw_ledger example_world = example_ledger"
    by (simp_all add: example_world_def bridge_start_def)
  have none: "get_order_result example_ledger ?oid = Inr None"
    by (simp add: get_order_result_def example_ledger_orders)
  have m: "mark_dispatching [?n] ''key-1'' ?oid 5 = Inr ([?d], ?d)"
    by (simp add: marks_advance [OF keyed_of_wf [OF wf]] advance_def require_nonblank_def strip_def is_space_def
        journal_get_def tbl_upsert_def order_id_taken_def key)
  have wf': "journal_wf [?d]" using journal_op_ok(1) [OF op_dispatching [OF m] wf] .
  have c: "mark_committed [?d] ''key-1'' st 5 = Inr ([to_committed st 5 ?d], to_committed st 5 ?d)" for st
    by (simp add: marks_advance [OF keyed_of_wf [OF wf']] advance_def journal_get_def tbl_upsert_def key)
  obtain l res where sub: "submit_order zero_fees example_ledger (example_order (Some 5) None)
      (example_quote\<lparr>mp_price := 10000\<rparr>) = (l, res)" by fastforce
  obtain d st where d: "get_order_result l ?oid = Inr (Some d)" "TERMINAL_RESULT_MAP (or_status d) = Some st"
    using example_terminal sub by (auto simp: recorded_def split: sum.splits option.splits)
  have "\<exists>r. journal_get (bw_journal (fst (submit_and_settle zero_fees (?w\<lparr>bw_journal := [?d]\<rparr>) ?a
      (example_order (Some 5) None)))) ''key-1'' = Some r \<and> tj_state r = JS_COMMITTED \<and>
      (\<exists>res. snd (submit_and_settle zero_fees (?w\<lparr>bw_journal := [?d]\<rparr>) ?a (example_order (Some 5) None)) = Inr res)"
    using d sub world oid
    by (cases res) (simp_all add: respond_def submit_and_settle_def Let_def example_fire_def key
        reconcile_after_broker_exception_def finalize_from_durable_def journal_write_def c journal_get_def)
  then show ?thesis
    using example_reserve m none world oid
    by (simp add: dispatch_def example_fire_facts example_prepared dispatch_executable_def journal_write_def
        Let_def key)
qed

theorem committed_means_durable_witness:
  "\<exists>oid d. get_order_result (bw_ledger (fst (dispatch zero_fees example_world (example_fire 5)))) oid = Inr (Some d)"
proof -
  obtain r where "journal_get (bw_journal (fst (dispatch zero_fees example_world (example_fire 5)))) ''key-1'' = Some r"
    "tj_state r = JS_COMMITTED" using example_committed by blast
  then show ?thesis
    using committed_means_durable [OF example_run example_ledger_inv, of "''key-1''" r] by auto
qed

text \<open>
  C16. The code refines the step relation: a whole call of \<^verbatim>\<open>dispatch\<close>, on whatever branch
  it ends and whether it returns or raises, is a run of the steps by an idle process which leaves
  that process idle.
\<close>

theorem dispatch_refines_steps:
  assumes "bs_pc s p = Idle" and "fire_ok a" and "dispatch fee (bs_world s) a = (w', ans)"
  shows "(bridge_step fee)\<^sup>*\<^sup>* s (at_pc s p w' Idle)"
  using dispatch_runs [OF assms(2), of fee s p "bs_world s"] assms(3) at_pc_self [OF assms(1)] by simp

theorem dispatch_refines_steps_witness:
  "(bridge_step zero_fees)\<^sup>*\<^sup>* (bridge_start example_ledger)
     (at_pc (bridge_start example_ledger) 7 (fst (dispatch zero_fees example_world (example_fire 5))) Idle)"
proof (rule dispatch_refines_steps [OF _ example_fire_facts(1) [of 5]])
  show "bs_pc (bridge_start example_ledger) 7 = Idle" by (simp add: bridge_start_def)
  show "dispatch zero_fees (bs_world (bridge_start example_ledger)) (example_fire 5) =
      (fst (dispatch zero_fees example_world (example_fire 5)), snd (dispatch zero_fees example_world (example_fire 5)))"
    by (simp add: example_world_def)
qed

text \<open>Every step changes the journal by one of its operations, or not at all.\<close>

lemma bridge_step_journal:
  "bridge_step fee s s' \<Longrightarrow> journal_op\<^sup>*\<^sup>* (bw_journal (bs_world s)) (bw_journal (bs_world s'))"
  by (induction rule: bridge_step.induct)
    (auto intro!: r_into_rtranclp intro: op_reserve op_dispatching op_committed op_aborted op_uncertain)

lemma bridge_run_journal:
  "(bridge_step fee)\<^sup>*\<^sup>* s s' \<Longrightarrow> journal_op\<^sup>*\<^sup>* (bw_journal (bs_world s)) (bw_journal (bs_world s'))"
  by (induction rule: rtranclp_induct) (auto dest: bridge_step_journal)

lemma dispatch_existing:
  assumes "journal_wf (bw_journal w)" "preflight a = Inr ()" "coerce_signal (fa_signal a) = Inr (fa_signal a)"
    "fs_triggered_at (fa_signal a) \<le> fa_now a"
    and "journal_get (bw_journal w) (fire_key a) = Some r" "identity_matches r (fa_signal a)"
  shows "dispatch fee w a =
    (w, Inr \<lparr>br_outcome = if tj_state r \<in> TERMINAL_STATES then BO_SKIPPED_TERMINAL else BO_RECONCILE_REQUIRED,
             br_record = r, br_reason_code = None, br_order_result = None\<rparr>)"
proof -
  have "reserve (bw_journal w) (fa_signal a) (fa_now a) = Inr (bw_journal w,
      (if tj_state r \<in> TERMINAL_STATES then EXISTING_TERMINAL else EXISTING_PENDING), r)"
    using assms(3-6) by (simp add: reserve_Inr [OF keyed_of_wf [OF assms(1)]])
  then show ?thesis using assms(2) by (simp add: dispatch_def respond_def)
qed

lemma dispatch_reserves:
  assumes "journal_wf (bw_journal w)" "dispatch fee w a = (w', Inr res)"
  shows "coerce_signal (fa_signal a) = Inr (fa_signal a)" "fs_triggered_at (fa_signal a) \<le> fa_now a"
    "preflight a = Inr ()"
    "\<exists>j r oc. reserve (bw_journal w) (fa_signal a) (fa_now a) = Inr (j, oc, r) \<and> identity_matches r (fa_signal a) \<and>
       journal_get j (fire_key a) = Some r"
proof -
  obtain j oc r where res: "preflight a = Inr ()" "reserve (bw_journal w) (fa_signal a) (fa_now a) = Inr (j, oc, r)"
    using assms(2)
    by (cases "preflight a"; cases "reserve (bw_journal w) (fa_signal a) (fa_now a)") (auto simp: dispatch_def)
  note r = res(2) [unfolded reserve_Inr [OF keyed_of_wf [OF assms(1)]]]
  have "identity_matches (new_record (fa_signal a) (fa_now a)) (fa_signal a)"
    by (simp add: identity_matches_def new_record_def)
  then have "identity_matches r (fa_signal a) \<and> journal_get j (fire_key a) = Some r"
    using r by (auto simp: journal_get_put split: option.splits)
  with r res show "coerce_signal (fa_signal a) = Inr (fa_signal a)" "fs_triggered_at (fa_signal a) \<le> fa_now a"
    "preflight a = Inr ()"
    "\<exists>j r oc. reserve (bw_journal w) (fa_signal a) (fa_now a) = Inr (j, oc, r) \<and> identity_matches r (fa_signal a) \<and>
       journal_get j (fire_key a) = Some r" by auto
qed

lemma dispatch_journal:
  assumes "preflight a = Inr ()" "reserve (bw_journal w) (fa_signal a) (fa_now a) = Inr (j, oc, r)"
  shows "journal_op\<^sup>*\<^sup>* j (bw_journal (fst (dispatch fee w a)))"
proof (cases "oc = RESERVED_NEW")
  case True
  from bridge_run_journal [OF dispatch_held_runs [OF assms(1) assms(2) [unfolded True]]]
  show ?thesis by simp
next
  case False
  then have "dispatch fee w a = (w\<lparr>bw_journal := j\<rparr>, snd (dispatch fee w a))"
    using assms by (cases oc) (simp_all add: dispatch_def respond_def)
  then show ?thesis by (metis bridge_world.select_convs(1) bridge_world.surjective bridge_world.update_convs(1)
        fst_conv rtranclp.rtrancl_refl)
qed

text \<open>
  Dispatching a fire again is a no-op. Once a dispatch has returned, then after any further
  activity on the database a second dispatch of the same fire changes neither journal nor ledger
  and calls no broker: it answers SKIPPED_TERMINAL with the stored record when that is final, and
  RECONCILE_REQUIRED otherwise.
\<close>

theorem redispatch_is_noop:
  assumes "journal_wf (bw_journal w)" and "dispatch fee w a = (w', Inr res)"
    and "(bridge_step fee)\<^sup>*\<^sup>* s s'" and "bs_world s = w'" and "fa_now a \<le> now'"
  shows "\<exists>r. journal_get (bw_journal (bs_world s')) (fire_key a) = Some r \<and>
    dispatch fee (bs_world s') (a\<lparr>fa_now := now'\<rparr>) =
      (bs_world s',
       Inr \<lparr>br_outcome = if tj_state r \<in> TERMINAL_STATES then BO_SKIPPED_TERMINAL else BO_RECONCILE_REQUIRED,
            br_record = r, br_reason_code = None, br_order_result = None\<rparr>)"
proof -
  note d = dispatch_reserves [OF assms(1,2)]
  obtain j r0 oc where r0: "reserve (bw_journal w) (fa_signal a) (fa_now a) = Inr (j, oc, r0)"
    "identity_matches r0 (fa_signal a)" "journal_get j (fire_key a) = Some r0" using d(4) by blast
  have wf: "journal_wf j" using journal_op_ok(1) [OF op_reserve [OF r0(1)] assms(1)] .
  have run: "journal_op\<^sup>*\<^sup>* j (bw_journal (bs_world s'))"
    using dispatch_journal [OF d(3) r0(1), of fee] bridge_run_journal [OF assms(3)] assms(2,4) by auto
  obtain r where r: "journal_get (bw_journal (bs_world s')) (fire_key a) = Some r" "same_fire r r0"
    using rtranclp_same_fire [OF run wf r0(3)] by blast
  have "preflight (a\<lparr>fa_now := now'\<rparr>) = Inr ()"
    using d(3) by (cases "bn_plan (fa_bundle a)") (simp_all add: preflight_def Let_def split: if_splits)
  moreover have "identity_matches r (fa_signal a)"
    using r0(2) r(2) by (simp add: identity_matches_def same_fire_def)
  ultimately show ?thesis
    using dispatch_existing [of "bs_world s'" "a\<lparr>fa_now := now'\<rparr>" r fee] fj.run_wf [OF run wf] d(1,2) r(1) assms(5)
    by auto
qed

theorem redispatch_is_noop_witness:
  "fst (dispatch zero_fees (fst (dispatch zero_fees example_world (example_fire 5))) (example_fire 9)) =
     fst (dispatch zero_fees example_world (example_fire 5))"
proof -
  let ?d = "dispatch zero_fees example_world (example_fire 5)"
  obtain res where "?d = (fst ?d, Inr res)" using example_committed by (metis prod.collapse)
  moreover have "journal_wf (bw_journal example_world)" by (simp add: example_world_def bridge_start_def)
  moreover have "(example_fire 5)\<lparr>fa_now := 9\<rparr> = example_fire 9" by (simp add: example_fire_def)
  ultimately show ?thesis
    using redispatch_is_noop [of example_world zero_fees "example_fire 5" "fst ?d" res
        "at_pc (bridge_start example_ledger) 0 (fst ?d) Idle" "at_pc (bridge_start example_ledger) 0 (fst ?d) Idle" 9]
    by (auto simp: example_fire_facts)
qed

lemma dispatch_ends_fire:
  assumes "journal_wf (bw_journal w)" and "preflight a = Inr ()" and "coerce_signal (fa_signal a) = Inr (fa_signal a)"
    and "fs_triggered_at (fa_signal a) \<le> fa_now a" and "journal_get (bw_journal w) (fire_key a) = None"
    and "dispatch fee w a = (w', ans)"
  shows "\<exists>r. journal_get (bw_journal w') (fire_key a) = Some r \<and>
    (tj_state r \<in> TERMINAL_STATES \<or>
     tj_state r = JS_RESERVED \<and> ans = Inl (JournalRaised OrderIdConflictError) \<and>
       order_id_taken (bw_journal w) (fire_key a) (order_id_of (fa_signal a)))"
proof -
  let ?n = "new_record (fa_signal a) (fa_now a)"
  let ?j = "tbl_upsert tj_idempotency_key ?n (bw_journal w)"
  let ?w = "w\<lparr>bw_journal := ?j\<rparr>"
  have res: "reserve (bw_journal w) (fa_signal a) (fa_now a) = Inr (?j, RESERVED_NEW, ?n)"
    using assms(3-5) by (simp add: reserve_Inr [OF keyed_of_wf [OF assms(1)]])
  have wf: "journal_wf (bw_journal ?w)" using journal_op_ok(1) [OF op_reserve [OF res] assms(1)] by simp
  have n: "journal_get (bw_journal ?w) (fire_key a) = Some ?n" "tj_state ?n = JS_RESERVED" "tj_updated_at ?n \<le> fa_now a"
    by (simp_all add: journal_get_put)
  have taken: "order_id_taken ?j (fire_key a) (fire_order a) \<longleftrightarrow> order_id_taken (bw_journal w) (fire_key a) (fire_order a)"
    by (auto simp: order_id_taken_def set_tbl_upsert)
  have step: "dispatch fee w a = (case prepare a of
        Abort_Return reason \<Rightarrow> abort_fire ?w (fire_key a) reason (fa_now a)
      | Abort_Raise reason err \<Rightarrow> abort_and_raise ?w (fire_key a) reason err (fa_now a)
      | Executable i \<Rightarrow> dispatch_executable fee ?w a i)"
    using assms(2) res by (simp add: dispatch_def Let_def)
  have "settled_in w' (fire_key a) \<or> w' = ?w \<and> ans = Inl (JournalRaised OrderIdConflictError) \<and>
      order_id_taken (bw_journal w) (fire_key a) (fire_order a)"
  proof (cases "prepare a")
    case (Executable i)
    then have "dispatch_executable fee ?w a i = (w', ans)" using step assms(6) by simp
    then show ?thesis
      using dispatch_executable_settles [OF wf n, of fee i] taken by (simp split: if_splits)
  next
    case (Abort_Return reason)
    then have "abort_fire ?w (fire_key a) reason (fa_now a) = (w', ans)" using step assms(6) by simp
    then show ?thesis using abort_settles(1) [OF wf n prepare_reason(1) [OF Abort_Return]] by simp
  next
    case (Abort_Raise reason err)
    then have "abort_and_raise ?w (fire_key a) reason err (fa_now a) = (w', ans)" using step assms(6) by simp
    then show ?thesis using abort_settles(2) [OF wf n prepare_reason(2) [OF Abort_Raise], of err] by simp
  qed
  then show ?thesis using n(1) by (auto simp: settled_in_def)
qed

text \<open>
  C28. A fire that passed preflight is never left half way by a dispatch that runs to its end: its
  record is then COMMITTED, ABORTED or UNCERTAIN, whatever the filter, the resolver, the broker or
  the ledger did. The one exception is an order id that another fire already owns: the conflict
  escapes as an exception and the record stays RESERVED.
\<close>

theorem dispatch_settles:
  assumes "journal_wf (bw_journal w)" and "preflight a = Inr ()" and "coerce_signal (fa_signal a) = Inr (fa_signal a)"
    and "fs_triggered_at (fa_signal a) \<le> fa_now a" and "journal_get (bw_journal w) (fire_key a) = None"
    and "dispatch fee w a = (w', ans)"
  shows "\<exists>r. journal_get (bw_journal w') (fire_key a) = Some r \<and>
    (tj_state r \<in> TERMINAL_STATES \<or>
     tj_state r = JS_RESERVED \<and> ans = Inl (JournalRaised OrderIdConflictError) \<and>
       order_id_taken (bw_journal w) (fire_key a) (order_id_of (fa_signal a)))"
  using dispatch_ends_fire [OF assms] .

theorem dispatch_settles_witness:
  "\<exists>r. journal_get (bw_journal (fst (dispatch zero_fees example_world (example_fire 5)))) ''key-1'' = Some r"
proof -
  have w: "bw_journal example_world = []" by (simp add: example_world_def bridge_start_def)
  have key: "fs_idempotency_key example_signal = ''key-1''" by (simp add: example_signal_def)
  show ?thesis
    using dispatch_settles [of example_world "example_fire 5" zero_fees, OF _ _ _ _ _ prod.collapse [symmetric]]
    by (auto simp: w key example_fire_facts example_signal_ok journal_get_def)
qed



end
