(* ===== verification/Portfolio_Context.thy ===== *)
theory Portfolio_Context
  imports Paper_Broker Risk_Filter Market_State "HOL-Library.AList"
begin

text \<open>
  The portfolio context of the risk filter, computed from the ledger and the latest quotes:
  \<^verbatim>\<open>src/src/execution/paper_portfolio_context.py\<close>. Dictionaries are association lists in
  insertion order. The source of the other positions' snapshots is injected and a parameter; it may
  raise. The free-form metadata of the policy is not a field.
\<close>

section \<open>Errors, policy and valuation\<close>

definition BASE_ACCOUNT_ROLE :: account_role where "BASE_ACCOUNT_ROLE = PAPER"
definition BASE_CURRENCY :: currency where "BASE_CURRENCY = KRW"

definition REASON_CASH_MISSING :: string where "REASON_CASH_MISSING = ''portfolio_cash_missing''"
definition REASON_CASH_FUTURE :: string where "REASON_CASH_FUTURE = ''portfolio_cash_future''"
definition REASON_POSITION_SOURCE_ERROR :: string where "REASON_POSITION_SOURCE_ERROR = ''portfolio_position_source_error''"
definition REASON_SNAPSHOT_MISSING :: string where "REASON_SNAPSHOT_MISSING = ''portfolio_snapshot_missing''"
definition REASON_SNAPSHOT_STALE :: string where "REASON_SNAPSHOT_STALE = ''portfolio_snapshot_stale''"
definition REASON_PORTFOLIO_SNAPSHOT_IDENTITY_MISMATCH :: string where
  "REASON_PORTFOLIO_SNAPSHOT_IDENTITY_MISMATCH = ''portfolio_snapshot_identity_mismatch''"
definition REASON_CURRENCY_UNSUPPORTED :: string where "REASON_CURRENCY_UNSUPPORTED = ''portfolio_currency_unsupported''"
definition REASON_ASSET_BUCKET_UNSUPPORTED :: string where
  "REASON_ASSET_BUCKET_UNSUPPORTED = ''portfolio_asset_bucket_unsupported''"
definition REASON_NAV_INVALID :: string where "REASON_NAV_INVALID = ''portfolio_nav_invalid''"
definition REASON_PROPOSED_PRICE_MISMATCH :: string where
  "REASON_PROPOSED_PRICE_MISMATCH = ''portfolio_proposed_price_mismatch''"

text \<open>The typed exception with its reason code, or another exception that escapes.\<close>

datatype context_error = PaperPortfolioContextError string | ContextRaised exn

definition raised :: "'a result \<Rightarrow> context_error + 'a" where
  "raised r = (case r of Inl e \<Rightarrow> Inl (ContextRaised e) | Inr x \<Rightarrow> Inr x)"

definition ASSET_BUCKET :: "asset_class \<Rightarrow> string option" where
  "ASSET_BUCKET c =
     (case c of KR_EQUITY \<Rightarrow> Some ''kr'' | US_EQUITY \<Rightarrow> Some ''us'' | GOLD \<Rightarrow> Some ''gold'' | CASH \<Rightarrow> None)"

record portfolio_policy =
  po_mode :: risk_mode
  po_allocator_tolerance_percent :: percent
  po_allocator_symbol_target_weight :: "percent option"
  po_paper_observation_min_invested_percent :: "percent option"
  po_mdd_percent :: "percent option"
  po_gold_trades_this_month :: int
  po_gold_trades_this_quarter :: int
  po_asset_bucket :: "asset_bucket option"

record portfolio_valuation =
  pv_created_at :: instant
  pv_base_currency :: currency
  pv_cash :: money
  pv_invested_amount :: money
  pv_total_nav :: money
  pv_current_symbol_market_value :: money
  pv_current_symbol_cumulative_buy_cost :: money
  pv_current_symbol_weight_percent :: percent
  pv_current_asset_weights :: asset_class_weights
  pv_position_quantity :: decimal
  pv_marks :: "((market \<times> string) \<times> market_price) list"
  pv_risk_filter_context :: risk_filter_context

type_synonym snapshot_source = "string \<Rightarrow> market \<Rightarrow> instant \<Rightarrow> market_state_snapshot option result"

section \<open>Reading the sources\<close>

definition load_cash :: "ledger \<Rightarrow> instant \<Rightarrow> context_error + cash_snapshot" where
  "load_cash l now =
     (case get_cash l BASE_CURRENCY BASE_ACCOUNT_ROLE of
        Inl _ \<Rightarrow> Inl (PaperPortfolioContextError REASON_POSITION_SOURCE_ERROR)
      | Inr None \<Rightarrow> Inl (PaperPortfolioContextError REASON_CASH_MISSING)
      | Inr (Some cash) \<Rightarrow>
          if cs_currency cash \<noteq> BASE_CURRENCY then Inl (PaperPortfolioContextError REASON_CURRENCY_UNSUPPORTED)
          else if now < cs_as_of cash then Inl (PaperPortfolioContextError REASON_CASH_FUTURE)
          else Inr cash)"

definition load_positions :: "ledger \<Rightarrow> context_error + position list" where
  "load_positions l =
     (case list_positions l of
        Inl _ \<Rightarrow> Inl (PaperPortfolioContextError REASON_POSITION_SOURCE_ERROR)
      | Inr ps \<Rightarrow> Inr (filter (\<lambda>p. pos_account_role p = BASE_ACCOUNT_ROLE) ps))"

definition mark_from_snapshot ::
  "market_state_snapshot option \<Rightarrow> string \<Rightarrow> market \<Rightarrow> instant \<Rightarrow> context_error + market_price" where
  "mark_from_snapshot snap symbol m now =
     (case Option.bind snap (\<lambda>s. map_option (Pair s) (ls_quote s)) of
        None \<Rightarrow> Inl (PaperPortfolioContextError REASON_SNAPSHOT_MISSING)
      | Some (s, quote) \<Rightarrow>
          if ls_symbol s \<noteq> symbol \<or> ls_market s \<noteq> m
          then Inl (PaperPortfolioContextError REASON_PORTFOLIO_SNAPSHOT_IDENTITY_MISMATCH)
          else if ls_evaluated_at s \<noteq> now \<or> \<not> ls_quote_fresh s
          then Inl (PaperPortfolioContextError REASON_SNAPSHOT_STALE)
          else if ba_currency quote \<noteq> BASE_CURRENCY
          then Inl (PaperPortfolioContextError REASON_CURRENCY_UNSUPPORTED)
          else raised (mk_MarketPrice \<lparr>mp_symbol = symbol, mp_market = m, mp_currency = BASE_CURRENCY,
                 mp_price = ddiv (dadd (ba_bid_price quote) (ba_ask_price quote)) 2, mp_as_of = ba_quote_at quote\<rparr>))"

definition mark_for :: "snapshot_source \<Rightarrow> string \<Rightarrow> market \<Rightarrow> instant \<Rightarrow> context_error + market_price" where
  "mark_for source symbol m now =
     (case source symbol m now of
        Inl _ \<Rightarrow> Inl (PaperPortfolioContextError REASON_POSITION_SOURCE_ERROR)
      | Inr snap \<Rightarrow> mark_from_snapshot snap symbol m now)"

section \<open>The loop over the positions\<close>

record valuation_state =
  va_marks :: "((market \<times> string) \<times> market_price) list"
  va_invested :: decimal
  va_buckets :: "string \<Rightarrow> decimal"
  va_quantity :: decimal
  va_avg_cost :: decimal

definition value_position ::
  "snapshot_source \<Rightarrow> string \<Rightarrow> market \<Rightarrow> instant \<Rightarrow> valuation_state \<Rightarrow> position \<Rightarrow> context_error + valuation_state" where
  "value_position source symbol m now st p =
     (if pos_currency p \<noteq> BASE_CURRENCY then Inl (PaperPortfolioContextError REASON_CURRENCY_UNSUPPORTED)
      else if pos_asset_class p = CASH then Inr st
      else case ASSET_BUCKET (pos_asset_class p) of
        None \<Rightarrow> Inl (PaperPortfolioContextError REASON_ASSET_BUCKET_UNSUPPORTED)
      | Some bucket \<Rightarrow>
          let key = (pos_market p, pos_symbol p)
          in rbind (case map_of (va_marks st) key of
                      Some mark \<Rightarrow> Inr (va_marks st, mark)
                    | None \<Rightarrow> rbind (mark_for source (pos_symbol p) (pos_market p) now)
                                (\<lambda>mark. Inr (AList.update key mark (va_marks st), mark)))
               (\<lambda>(marks, mark).
                  let mv = dmul (pos_quantity p) (mp_price mark);
                      here = (pos_symbol p = symbol \<and> pos_market p = m)
                  in Inr \<lparr>va_marks = marks, va_invested = dadd (va_invested st) mv,
                       va_buckets = (va_buckets st)(bucket := dadd (va_buckets st bucket) mv),
                       va_quantity = (if here then pos_quantity p else va_quantity st),
                       va_avg_cost = (if here then pos_avg_cost p else va_avg_cost st)\<rparr>))"

primrec value_positions ::
  "snapshot_source \<Rightarrow> string \<Rightarrow> market \<Rightarrow> instant \<Rightarrow> valuation_state \<Rightarrow> position list \<Rightarrow> context_error + valuation_state" where
  "value_positions source symbol m now st [] = Inr st"
| "value_positions source symbol m now st (p # ps) =
     rbind (value_position source symbol m now st p) (\<lambda>st'. value_positions source symbol m now st' ps)"

definition as_percent :: "decimal \<Rightarrow> context_error + percent" where
  "as_percent v = raised (mk_Percent (PyDecimal (Finite v)))"

definition asset_weights :: "(string \<Rightarrow> decimal) \<Rightarrow> decimal \<Rightarrow> context_error + asset_class_weights" where
  "asset_weights buckets invested_total =
     (if invested_total \<le> 0 then Inr \<lparr>aw_kr = 0, aw_us = 0, aw_gold = 0\<rparr>
      else rbind (as_percent (dmul (ddiv (buckets ''kr'') invested_total) 100)) (\<lambda>kr.
           rbind (as_percent (dmul (ddiv (buckets ''us'') invested_total) 100)) (\<lambda>us.
           rbind (as_percent (dmul (ddiv (buckets ''gold'') invested_total) 100)) (\<lambda>gold.
           Inr \<lparr>aw_kr = kr, aw_us = us, aw_gold = gold\<rparr>))))"

definition reference_prices_of :: "((market \<times> string) \<times> market_price) list \<Rightarrow> string \<Rightarrow> market_price \<Rightarrow> (string \<times> market_price) list" where
  "reference_prices_of marks symbol current_mark =
     AList.update symbol current_mark (fold (\<lambda>((_, sy), mp). AList.update sy mp) marks [])"

section \<open>Building the context\<close>

definition won :: "decimal \<Rightarrow> money" where
  "won v = \<lparr>amount = v, currency = BASE_CURRENCY\<rparr>"

definition build_context ::
  "snapshot_source \<Rightarrow> ledger \<Rightarrow> string \<Rightarrow> market \<Rightarrow> market_price \<Rightarrow> market_state_snapshot \<Rightarrow> portfolio_policy \<Rightarrow> instant \<Rightarrow>
   context_error + portfolio_valuation" where
  "build_context source l symbol m proposed snap policy now =
     (if mp_symbol proposed \<noteq> symbol \<or> mp_market proposed \<noteq> m
      then Inl (PaperPortfolioContextError REASON_PROPOSED_PRICE_MISMATCH)
      else if mp_currency proposed \<noteq> BASE_CURRENCY then Inl (PaperPortfolioContextError REASON_CURRENCY_UNSUPPORTED)
      else
        rbind (mark_from_snapshot (Some snap) symbol m now) (\<lambda>current_mark.
        if mp_as_of proposed \<noteq> mp_as_of current_mark then Inl (PaperPortfolioContextError REASON_PROPOSED_PRICE_MISMATCH)
        else
          rbind (load_cash l now) (\<lambda>cash.
          rbind (load_positions l) (\<lambda>positions.
          rbind (value_positions source symbol m now
                  \<lparr>va_marks = [((m, symbol), current_mark)], va_invested = 0, va_buckets = (\<lambda>_. 0), va_quantity = 0,
                   va_avg_cost = 0\<rparr> positions) (\<lambda>st.
          let nav = dadd (cs_amount cash) (va_invested st);
              value = dmul (va_quantity st) (mp_price current_mark);
              cost = dmul (va_quantity st) (va_avg_cost st)
          in if nav \<le> 0 then Inl (PaperPortfolioContextError REASON_NAV_INVALID)
             else
               rbind (as_percent (dmul (ddiv value nav) 100)) (\<lambda>weight.
               rbind (asset_weights (va_buckets st) (va_invested st)) (\<lambda>weights.
               rbind (raised (mk_RiskFilterContext
                 \<lparr>rc_created_at = now, rc_mode = po_mode policy, rc_total_nav = won nav, rc_cash = won (cs_amount cash),
                  rc_invested_amount = won (va_invested st), rc_current_symbol_market_value = Some (won value),
                  rc_current_symbol_cumulative_buy_cost = Some (won cost),
                  rc_current_symbol_weight_percent = Some weight, rc_current_asset_weights = Some weights,
                  rc_allocator_tolerance_percent = po_allocator_tolerance_percent policy,
                  rc_allocator_symbol_target_weight = po_allocator_symbol_target_weight policy,
                  rc_paper_observation_min_invested_percent = po_paper_observation_min_invested_percent policy,
                  rc_mdd_percent = po_mdd_percent policy, rc_market = Some m, rc_currency = Some BASE_CURRENCY,
                  rc_asset_bucket = po_asset_bucket policy, rc_gold_trades_this_month = po_gold_trades_this_month policy,
                  rc_gold_trades_this_quarter = po_gold_trades_this_quarter policy,
                  rc_proposed_price = Some \<lparr>amount = mp_price proposed, currency = mp_currency proposed\<rparr>,
                  rc_reference_prices = Some (reference_prices_of (va_marks st) symbol current_mark)\<rparr>)) (\<lambda>context.
               Inr \<lparr>pv_created_at = now, pv_base_currency = BASE_CURRENCY, pv_cash = won (cs_amount cash),
                    pv_invested_amount = won (va_invested st), pv_total_nav = won nav,
                    pv_current_symbol_market_value = won value, pv_current_symbol_cumulative_buy_cost = won cost,
                    pv_current_symbol_weight_percent = weight, pv_current_asset_weights = weights,
                    pv_position_quantity = va_quantity st, pv_marks = va_marks st, pv_risk_filter_context = context\<rparr>))))))))"

text \<open>The adapter that serves snapshots from the latest-state store.\<close>

definition latest_source :: "latest_store \<Rightarrow> snapshot_source" where
  "latest_source store symbol m now = Inr (Some (peek store m symbol now))"

section \<open>What the loop computes\<close>

text \<open>
  The marks without the cache: the current mark for the evaluated instrument, the source's for any
  other.
\<close>

definition mark_at :: "snapshot_source \<Rightarrow> market_price \<Rightarrow> string \<Rightarrow> market \<Rightarrow> instant \<Rightarrow> market \<times> string \<Rightarrow> context_error + market_price" where
  "mark_at source current symbol m now k =
     (if k = (m, symbol) then Inr current else mark_for source (snd k) (fst k) now)"

abbreviation position_instrument :: "position \<Rightarrow> market \<times> string" where
  "position_instrument p \<equiv> (pos_market p, pos_symbol p)"

definition marked_price :: "(market \<times> string \<Rightarrow> context_error + market_price) \<Rightarrow> position \<Rightarrow> decimal" where
  "marked_price mk p = (case mk (position_instrument p) of Inl _ \<Rightarrow> 0 | Inr x \<Rightarrow> mp_price x)"

definition invested_value :: "(market \<times> string \<Rightarrow> context_error + market_price) \<Rightarrow> position list \<Rightarrow> decimal \<Rightarrow> decimal" where
  "invested_value mk ps a = foldl (\<lambda>a p. dadd a (dmul (pos_quantity p) (marked_price mk p))) a ps"

definition invested_positions :: "position list \<Rightarrow> position list" where
  "invested_positions ps = filter (\<lambda>p. pos_asset_class p \<noteq> CASH) ps"

definition bucket_positions :: "string \<Rightarrow> position list \<Rightarrow> position list" where
  "bucket_positions b ps = filter (\<lambda>p. ASSET_BUCKET (pos_asset_class p) = Some b) ps"

definition cache_ok :: "(market \<times> string \<Rightarrow> context_error + market_price) \<Rightarrow> ((market \<times> string) \<times> market_price) list \<Rightarrow> bool" where
  "cache_ok mk marks \<longleftrightarrow> (\<forall>k x. map_of marks k = Some x \<longrightarrow> mk k = Inr x)"

definition last_or :: "'a \<Rightarrow> ('b \<Rightarrow> 'a) \<Rightarrow> 'b list \<Rightarrow> 'a" where
  "last_or d f xs = (if xs = [] then d else f (last xs))"

definition state_of ::
  "(market \<times> string \<Rightarrow> context_error + market_price) \<Rightarrow> market \<times> string \<Rightarrow> valuation_state \<Rightarrow> position list \<Rightarrow> valuation_state \<Rightarrow> bool" where
  "state_of mk k st ps st' \<longleftrightarrow>
     cache_ok mk (va_marks st') \<and> map_of (va_marks st) \<subseteq>\<^sub>m map_of (va_marks st') \<and>
     va_invested st' = invested_value mk (invested_positions ps) (va_invested st) \<and>
     (\<forall>b. va_buckets st' b = invested_value mk (bucket_positions b ps) (va_buckets st b)) \<and>
     va_quantity st' = last_or (va_quantity st) pos_quantity (filter (\<lambda>p. position_instrument p = k) (invested_positions ps)) \<and>
     va_avg_cost st' = last_or (va_avg_cost st) pos_avg_cost (filter (\<lambda>p. position_instrument p = k) (invested_positions ps))"

lemma cache_ok_update: "cache_ok mk marks \<Longrightarrow> mk k = Inr x \<Longrightarrow> cache_ok mk (AList.update k x marks)"
  by (simp add: cache_ok_def update_conv' split: if_splits)

lemma map_le_update: "map_of marks k = None \<Longrightarrow> map_of marks \<subseteq>\<^sub>m map_of (AList.update k x marks)"
  by (auto simp: map_le_def update_conv')

lemma value_position_step:
  assumes ok: "cache_ok (mark_at source current symbol m now) (va_marks st)"
    and here: "map_of (va_marks st) (m, symbol) = Some current"
    and val: "value_position source symbol m now st p = Inr st'"
  shows "pos_currency p = BASE_CURRENCY" (is ?cur)
    and "pos_asset_class p \<noteq> CASH \<Longrightarrow> \<exists>x. mark_at source current symbol m now (position_instrument p) = Inr x"
    and "state_of (mark_at source current symbol m now) (m, symbol) st [p] st'"
proof -
  let ?mk = "mark_at source current symbol m now"
  show ?cur using val by (auto simp: value_position_def split: if_splits)
  have *: "(pos_asset_class p \<noteq> CASH \<longrightarrow> (\<exists>x. ?mk (position_instrument p) = Inr x)) \<and> state_of ?mk (m, symbol) st [p] st'"
  proof (cases "pos_asset_class p = CASH")
    case True
    then have "st' = st" using val by (auto simp: value_position_def split: if_splits)
    then show ?thesis using True ok
      by (simp add: state_of_def invested_positions_def bucket_positions_def invested_value_def last_or_def ASSET_BUCKET_def)
  next
    case False
    let ?k = "position_instrument p"
    obtain b where b: "ASSET_BUCKET (pos_asset_class p) = Some b"
      using False by (cases "pos_asset_class p") (auto simp: ASSET_BUCKET_def)
    obtain marks x where x: "?mk ?k = Inr x" and marks: "cache_ok ?mk marks" "map_of (va_marks st) \<subseteq>\<^sub>m map_of marks"
      and st': "st' = \<lparr>va_marks = marks, va_invested = dadd (va_invested st) (dmul (pos_quantity p) (mp_price x)),
        va_buckets = (va_buckets st)(b := dadd (va_buckets st b) (dmul (pos_quantity p) (mp_price x))),
        va_quantity = (if ?k = (m, symbol) then pos_quantity p else va_quantity st),
        va_avg_cost = (if ?k = (m, symbol) then pos_avg_cost p else va_avg_cost st)\<rparr>"
    proof (cases "map_of (va_marks st) ?k")
      case (Some x)
      then have "?mk ?k = Inr x" using ok by (simp add: cache_ok_def)
      then show ?thesis using that [of x "va_marks st"] val False b Some ok
        by (auto simp: value_position_def Let_def split: if_splits)
    next
      case None
      then have ne: "?k \<noteq> (m, symbol)" using here by auto
      obtain x where x: "mark_for source (pos_symbol p) (pos_market p) now = Inr x"
        using val False b None by (auto simp: value_position_def Let_def rbind_Inr_iff split: if_splits)
      then have "?mk ?k = Inr x" using ne by (auto simp: mark_at_def)
      moreover have "st' = \<lparr>va_marks = AList.update ?k x (va_marks st),
          va_invested = dadd (va_invested st) (dmul (pos_quantity p) (mp_price x)),
          va_buckets = (va_buckets st)(b := dadd (va_buckets st b) (dmul (pos_quantity p) (mp_price x))),
          va_quantity = (if ?k = (m, symbol) then pos_quantity p else va_quantity st),
          va_avg_cost = (if ?k = (m, symbol) then pos_avg_cost p else va_avg_cost st)\<rparr>"
        using val False b None x ne by (auto simp: value_position_def Let_def split: if_splits)
      ultimately show ?thesis using that cache_ok_update [OF ok] map_le_update [OF None] by blast
    qed
    then show ?thesis using b False
      by (auto simp: state_of_def invested_positions_def bucket_positions_def invested_value_def last_or_def marked_price_def)
  qed
  show "pos_asset_class p \<noteq> CASH \<Longrightarrow> \<exists>x. ?mk (position_instrument p) = Inr x" "state_of ?mk (m, symbol) st [p] st'"
    using * by auto
qed

lemma last_or_append: "last_or (last_or d f xs) f ys = last_or d f (xs @ ys)"
  by (simp add: last_or_def)

lemma invested_value_append: "invested_value mk (xs @ ys) a = invested_value mk ys (invested_value mk xs a)"
  by (simp add: invested_value_def)

lemma state_of_append:
  assumes "state_of mk k st xs st1" and "state_of mk k st1 ys st2"
  shows "state_of mk k st (xs @ ys) st2"
  using assms map_le_trans
  by (fastforce simp: state_of_def invested_positions_def bucket_positions_def invested_value_append last_or_append)

lemma state_of_refl: "cache_ok mk (va_marks st) \<Longrightarrow> state_of mk k st [] st"
  by (simp add: state_of_def invested_positions_def bucket_positions_def invested_value_def last_or_def)

lemma value_positions_state:
  assumes "cache_ok (mark_at source current symbol m now) (va_marks st)"
    and "map_of (va_marks st) (m, symbol) = Some current"
    and "value_positions source symbol m now st ps = Inr st'"
  shows "state_of (mark_at source current symbol m now) (m, symbol) st ps st'"
    and "\<And>p. p \<in> set ps \<Longrightarrow> pos_currency p = BASE_CURRENCY"
    and "\<And>p. p \<in> set (invested_positions ps) \<Longrightarrow> \<exists>x. mark_at source current symbol m now (position_instrument p) = Inr x"
proof -
  let ?mk = "mark_at source current symbol m now"
  have "state_of ?mk (m, symbol) st ps st' \<and> (\<forall>p \<in> set ps. pos_currency p = BASE_CURRENCY) \<and>
      (\<forall>p \<in> set (invested_positions ps). \<exists>x. ?mk (position_instrument p) = Inr x)"
    using assms
  proof (induction ps arbitrary: st)
    case Nil
    then show ?case by (simp add: state_of_refl invested_positions_def)
  next
    case (Cons p ps)
    obtain st1 where st1: "value_position source symbol m now st p = Inr st1" "value_positions source symbol m now st1 ps = Inr st'"
      using Cons.prems(3) by (auto simp: rbind_Inr_iff)
    note step = value_position_step [OF Cons.prems(1,2) st1(1)]
    have "cache_ok ?mk (va_marks st1)" "map_of (va_marks st1) (m, symbol) = Some current"
      using step(3) Cons.prems(2) by (auto simp: state_of_def map_le_def dom_def)
    note rest = Cons.IH [OF this st1(2)]
    show ?case
    proof (intro conjI ballI)
      show "state_of ?mk (m, symbol) st (p # ps) st'"
        using state_of_append [OF step(3)] rest by auto
      show "pos_currency q = BASE_CURRENCY" if "q \<in> set (p # ps)" for q
        using that step(1) rest by auto
      show "\<exists>x. ?mk (position_instrument q) = Inr x" if "q \<in> set (invested_positions (p # ps))" for q
        using that step(2) rest by (auto simp: invested_positions_def split: if_splits)
    qed
  qed
  then show "state_of ?mk (m, symbol) st ps st'" "\<And>p. p \<in> set ps \<Longrightarrow> pos_currency p = BASE_CURRENCY"
    "\<And>p. p \<in> set (invested_positions ps) \<Longrightarrow> \<exists>x. ?mk (position_instrument p) = Inr x" by auto
qed

text \<open>A mark that exists is the midpoint of a fresh quote of the instrument.\<close>

definition quoted :: "market_state_snapshot option \<Rightarrow> market \<times> string \<Rightarrow> instant \<Rightarrow> market_price \<Rightarrow> bool" where
  "quoted snap k now x \<longleftrightarrow>
     (\<exists>s q. snap = Some s \<and> ls_quote s = Some q \<and> (ls_market s, ls_symbol s) = k \<and> ls_evaluated_at s = now \<and> ls_quote_fresh s \<and>
        ba_currency q = KRW \<and> mp_price x = ddiv (dadd (ba_bid_price q) (ba_ask_price q)) 2 \<and> 0 < mp_price x \<and>
        mp_as_of x = ba_quote_at q \<and> mp_market x = fst k \<and> mp_currency x = KRW)"

lemma mark_from_snapshot_Inr: "mark_from_snapshot snap symbol m now = Inr x \<Longrightarrow> quoted snap (m, symbol) now x"
  by (auto simp: mark_from_snapshot_def quoted_def raised_def mk_MarketPrice_def BASE_CURRENCY_def rbind_Inr_iff
      bind_eq_Some_conv split: option.splits if_splits sum.splits)

lemma mark_for_Inr: "mark_for source symbol m now = Inr x \<Longrightarrow> \<exists>snap. source symbol m now = Inr snap \<and> quoted snap (m, symbol) now x"
  by (auto simp: mark_for_def dest: mark_from_snapshot_Inr split: sum.splits)

section \<open>Bounds on the sums\<close>

lemma dadd_ge_left: "representable a \<Longrightarrow> 0 \<le> b \<Longrightarrow> a \<le> dadd a b"
  by (simp add: dadd_def rnd_ge_representable)

lemma dadd_ge_right: "representable b \<Longrightarrow> 0 \<le> a \<Longrightarrow> b \<le> dadd a b"
  by (simp add: dadd_def rnd_ge_representable)

lemma invested_value_Cons:
  "invested_value mk (p # ps) a = invested_value mk ps (dadd a (dmul (pos_quantity p) (marked_price mk p)))"
  by (simp add: invested_value_def)

lemma invested_value_Nil [simp]: "invested_value mk [] a = a"
  by (simp add: invested_value_def)

lemma representable_invested: "representable a \<Longrightarrow> representable (invested_value mk ps a)"
  by (induction ps arbitrary: a) (simp_all add: invested_value_Cons)

lemma invested_value_ge:
  assumes "representable a" and "\<And>p. p \<in> set ps \<Longrightarrow> 0 \<le> pos_quantity p \<and> 0 \<le> marked_price mk p"
  shows "a \<le> invested_value mk ps a"
  using assms
proof (induction ps arbitrary: a)
  case (Cons p ps)
  let ?a = "dadd a (dmul (pos_quantity p) (marked_price mk p))"
  have "a \<le> ?a" using Cons.prems by (intro dadd_ge_left dmul_nonneg) auto
  also have "?a \<le> invested_value mk ps ?a" using Cons by (intro Cons.IH) auto
  finally show ?case by (simp add: invested_value_Cons)
qed simp

lemma invested_value_ge_member:
  assumes "0 \<le> a" and "\<And>p. p \<in> set ps \<Longrightarrow> 0 \<le> pos_quantity p \<and> 0 \<le> marked_price mk p" and "q \<in> set ps"
  shows "dmul (pos_quantity q) (marked_price mk q) \<le> invested_value mk ps a"
  using assms
proof (induction ps arbitrary: a)
  case (Cons p ps)
  let ?v = "dmul (pos_quantity p) (marked_price mk p)"
  have v: "0 \<le> ?v" using Cons.prems by (intro dmul_nonneg) auto
  show ?case
  proof (cases "q \<in> set ps")
    case True
    then show ?thesis using Cons v by (auto simp: invested_value_Cons dadd_nonneg)
  next
    case False
    then have "q = p" using Cons.prems by simp
    moreover have "?v \<le> dadd a ?v" using Cons.prems by (intro dadd_ge_right) auto
    moreover have "dadd a ?v \<le> invested_value mk ps (dadd a ?v)"
      using Cons.prems by (intro invested_value_ge) auto
    ultimately show ?thesis by (simp add: invested_value_Cons)
  qed
qed simp

lemma bucket_le_invested:
  assumes "a \<le> a'" and "representable a'"
    and "\<And>p. p \<in> set (invested_positions ps) \<Longrightarrow> 0 \<le> pos_quantity p \<and> 0 \<le> marked_price mk p"
  shows "invested_value mk (bucket_positions b ps) a \<le> invested_value mk (invested_positions ps) a'"
  using assms
proof (induction ps arbitrary: a a')
  case Nil
  then show ?case by (simp add: bucket_positions_def invested_positions_def)
next
  case (Cons p ps)
  let ?v = "dmul (pos_quantity p) (marked_price mk p)"
  have rest: "\<And>q. q \<in> set (invested_positions ps) \<Longrightarrow> 0 \<le> pos_quantity q \<and> 0 \<le> marked_price mk q"
    using Cons.prems(3) by (auto simp: invested_positions_def split: if_splits)
  show ?case
  proof (cases "pos_asset_class p = CASH")
    case True
    then show ?thesis using Cons.IH [OF Cons.prems(1,2) rest]
      by (simp add: bucket_positions_def invested_positions_def ASSET_BUCKET_def)
  next
    case False
    then have v: "0 \<le> ?v" using Cons.prems(3) [of p] by (auto simp: invested_positions_def intro: dmul_nonneg)
    have inv: "invested_positions (p # ps) = p # invested_positions ps" using False by (simp add: invested_positions_def)
    show ?thesis
    proof (cases "ASSET_BUCKET (pos_asset_class p) = Some b")
      case True
      then have "bucket_positions b (p # ps) = p # bucket_positions b ps" by (simp add: bucket_positions_def)
      then show ?thesis using Cons.IH [of "dadd a ?v" "dadd a' ?v"] rest Cons.prems(1)
        by (simp add: inv invested_value_Cons dadd_mono)
    next
      case False
      then have "bucket_positions b (p # ps) = bucket_positions b ps" by (simp add: bucket_positions_def)
      moreover have "a \<le> dadd a' ?v" using dadd_ge_left [OF Cons.prems(2) v] Cons.prems(1) by simp
      ultimately show ?thesis using Cons.IH [of a "dadd a' ?v"] rest by (simp add: inv invested_value_Cons)
    qed
  qed
qed

lemma percent_of_part:
  assumes "0 \<le> x" and "x \<le> y" and "0 < y"
  shows "as_percent (dmul (ddiv x y) 100) = Inr (dmul (ddiv x y) 100)" and "0 \<le> dmul (ddiv x y) 100" and "dmul (ddiv x y) 100 \<le> 100"
proof -
  have d: "0 \<le> ddiv x y" using assms by (intro ddiv_nonneg) simp_all
  have "ddiv x y \<le> 1" unfolding ddiv_def using assms rnd_mono [of "x / y" 1] by simp
  then have "dmul (ddiv x y) 100 \<le> dmul 1 100" using d by (intro dmul_mono) simp_all
  also have "dmul 1 100 = (100::rat)" by (simp add: dmul_def)
  finally show le: "dmul (ddiv x y) 100 \<le> 100" .
  show ge: "0 \<le> dmul (ddiv x y) 100" using d by (intro dmul_nonneg) simp_all
  show "as_percent (dmul (ddiv x y) 100) = Inr (dmul (ddiv x y) 100)"
    using le ge by (simp add: as_percent_def mk_Percent_def require_finite_decimal_def raised_def not_le)
qed

lemma traverse_Inr_mem:
  "traverse f xs = Inr ys \<Longrightarrow> y \<in> set ys \<Longrightarrow> \<exists>x \<in> set xs. f x = Inr y"
  by (induction xs arbitrary: ys) (auto simp: rbind_Inr_iff)

lemma ledger_positions_nonneg:
  assumes "list_positions l = Inr ps" and "p \<in> set ps"
  shows "0 \<le> pos_quantity p" and "0 \<le> pos_avg_cost p"
  using traverse_Inr_mem [OF assms(1) [unfolded list_positions_def] assms(2)]
  by (auto simp: row_to_position_def mk_Position_def rbind_Inr_iff split: if_splits)

lemma ledger_cash_nonneg: "get_cash l cur role = Inr (Some c) \<Longrightarrow> 0 \<le> cs_amount c"
  by (auto simp: get_cash_def restore_def row_to_cash_snapshot_def mk_CashSnapshot_def rbind_Inr_iff split: option.splits)

section \<open>Properties\<close>

lemma raised_Inr_iff: "raised r = Inr x \<longleftrightarrow> r = Inr x"
  by (cases r) (simp_all add: raised_def)

lemma mk_RiskFilterContext_eq: "mk_RiskFilterContext c = Inr c' \<Longrightarrow> c' = c"
  by (auto simp: mk_RiskFilterContext_def validate_context_def Let_def rbind_Inr_iff split: if_splits)

lemma build_context_Inr:
  assumes "build_context source l symbol m proposed snap policy now = Inr v"
  obtains current cash ps st ctx where
    "mark_from_snapshot (Some snap) symbol m now = Inr current" "mp_as_of proposed = mp_as_of current"
    "load_cash l now = Inr cash" "load_positions l = Inr ps"
    "value_positions source symbol m now \<lparr>va_marks = [((m, symbol), current)], va_invested = 0, va_buckets = (\<lambda>_. 0),
       va_quantity = 0, va_avg_cost = 0\<rparr> ps = Inr st"
    "0 < dadd (cs_amount cash) (va_invested st)"
    "as_percent (dmul (ddiv (dmul (va_quantity st) (mp_price current)) (dadd (cs_amount cash) (va_invested st))) 100) =
       Inr (pv_current_symbol_weight_percent v)"
    "asset_weights (va_buckets st) (va_invested st) = Inr (pv_current_asset_weights v)"
    "pv_invested_amount v = won (va_invested st)" "pv_cash v = won (cs_amount cash)"
    "pv_total_nav v = won (dadd (cs_amount cash) (va_invested st))" "pv_position_quantity v = va_quantity st"
    "pv_current_symbol_market_value v = won (dmul (va_quantity st) (mp_price current))"
    "pv_current_symbol_cumulative_buy_cost v = won (dmul (va_quantity st) (va_avg_cost st))"
    "pv_risk_filter_context v = ctx" "rc_total_nav ctx = pv_total_nav v" "rc_cash ctx = pv_cash v"
    "rc_invested_amount ctx = pv_invested_amount v"
    "rc_current_symbol_market_value ctx = Some (pv_current_symbol_market_value v)"
    "rc_current_symbol_cumulative_buy_cost ctx = Some (pv_current_symbol_cumulative_buy_cost v)"
    "rc_reference_prices ctx = Some (reference_prices_of (va_marks st) symbol current)" "rc_created_at ctx = now"
proof -
  note eq = assms [unfolded build_context_def]
  obtain current where c: "mark_from_snapshot (Some snap) symbol m now = Inr current" "mp_as_of proposed = mp_as_of current"
    using eq by (auto simp: rbind_Inr_iff split: if_splits)
  obtain cash ps st where cs: "load_cash l now = Inr cash" "load_positions l = Inr ps"
    "value_positions source symbol m now \<lparr>va_marks = [((m, symbol), current)], va_invested = 0, va_buckets = (\<lambda>_. 0),
       va_quantity = 0, va_avg_cost = 0\<rparr> ps = Inr st"
    using eq c by (auto simp: rbind_Inr_iff split: if_splits)
  show ?thesis
    by (rule that [OF c cs])
      (use eq c cs in \<open>auto simp: Let_def rbind_Inr_iff raised_Inr_iff dest!: mk_RiskFilterContext_eq split: if_splits\<close>)
qed

lemma load_cash_Inr: "load_cash l now = Inr c \<Longrightarrow> get_cash l KRW PAPER = Inr (Some c) \<and> cs_currency c = KRW \<and> cs_as_of c \<le> now"
  by (auto simp: load_cash_def BASE_CURRENCY_def BASE_ACCOUNT_ROLE_def split: sum.splits option.splits if_splits)

lemma load_positions_Inr:
  "load_positions l = Inr ps \<Longrightarrow> \<exists>all. list_positions l = Inr all \<and> ps = filter (\<lambda>p. pos_account_role p = PAPER) all"
  by (auto simp: load_positions_def BASE_ACCOUNT_ROLE_def split: sum.splits)

lemma reference_current: "map_of (reference_prices_of marks symbol current) symbol = Some current"
  by (simp add: reference_prices_of_def update_conv')

definition start_state :: "string \<Rightarrow> market \<Rightarrow> market_price \<Rightarrow> valuation_state" where
  "start_state symbol m current = \<lparr>va_marks = [((m, symbol), current)], va_invested = 0, va_buckets = (\<lambda>_. 0),
     va_quantity = 0, va_avg_cost = 0\<rparr>"

lemma start_state_cache:
  "cache_ok (mark_at source current symbol m now) (va_marks (start_state symbol m current))"
  "map_of (va_marks (start_state symbol m current)) (m, symbol) = Some current"
  by (auto simp: cache_ok_def start_state_def mark_at_def split: if_splits)

lemma bucket_positions_invested: "p \<in> set (bucket_positions b ps) \<Longrightarrow> p \<in> set (invested_positions ps)"
  by (cases "pos_asset_class p") (auto simp: bucket_positions_def invested_positions_def ASSET_BUCKET_def)

text \<open>The valuation of a loaded portfolio, with what is known of its parts.\<close>

lemma valuation_facts:
  assumes cur: "mark_from_snapshot (Some snap) symbol m now = Inr current"
    and cash: "load_cash l now = Inr cash" and ps: "load_positions l = Inr ps"
    and val: "value_positions source symbol m now (start_state symbol m current) ps = Inr st"
  shows "\<And>p. p \<in> set (invested_positions ps) \<Longrightarrow>
      0 \<le> pos_quantity p \<and> 0 \<le> marked_price (mark_at source current symbol m now) p"
    and "0 \<le> va_buckets st b" and "va_buckets st b \<le> va_invested st"
    and "0 \<le> dmul (va_quantity st) (mp_price current)"
    and "dmul (va_quantity st) (mp_price current) \<le> va_invested st"
    and "va_invested st \<le> dadd (cs_amount cash) (va_invested st)"
    and "0 \<le> va_quantity st" and "0 \<le> va_avg_cost st" and "0 \<le> va_invested st" and "0 \<le> cs_amount cash"
proof -
  let ?mk = "mark_at source current symbol m now" and ?hs = "invested_positions ps"
  note loop = value_positions_state [OF start_state_cache val]
  have st: "va_invested st = invested_value ?mk ?hs 0" "\<And>b. va_buckets st b = invested_value ?mk (bucket_positions b ps) 0"
    "va_quantity st = last_or 0 pos_quantity (filter (\<lambda>p. position_instrument p = (m, symbol)) ?hs)"
    "va_avg_cost st = last_or 0 pos_avg_cost (filter (\<lambda>p. position_instrument p = (m, symbol)) ?hs)"
    using loop(1) by (simp_all add: state_of_def start_state_def)
  obtain all where all: "list_positions l = Inr all" "ps = filter (\<lambda>p. pos_account_role p = PAPER) all"
    using load_positions_Inr [OF ps] by blast
  have q: "0 \<le> pos_quantity p \<and> 0 \<le> pos_avg_cost p" if "p \<in> set ps" for p
    using ledger_positions_nonneg [OF all(1)] all(2) that by auto
  have cpos: "0 < mp_price current" using mark_from_snapshot_Inr [OF cur] by (auto simp: quoted_def)
  have price: "0 \<le> marked_price ?mk p" if p: "p \<in> set ?hs" for p
  proof -
    obtain x where x: "?mk (position_instrument p) = Inr x" using loop(3) [OF p] by blast
    then have "0 < mp_price x"
      using cpos mark_for_Inr by (fastforce simp: mark_at_def quoted_def split: if_splits)
    then show ?thesis using x by (simp add: marked_price_def)
  qed
  show ok: "0 \<le> pos_quantity p \<and> 0 \<le> marked_price ?mk p" if "p \<in> set ?hs" for p
    using q price that by (auto simp: invested_positions_def)
  show "0 \<le> va_buckets st b" unfolding st
    by (rule invested_value_ge) (use ok bucket_positions_invested in auto)
  show "va_buckets st b \<le> va_invested st" unfolding st
    by (rule bucket_le_invested) (use ok in auto)
  show inv: "0 \<le> va_invested st" unfolding st by (rule invested_value_ge) (use ok in auto)
  have last: "xs = [] \<or> last xs \<in> set xs" for xs :: "position list" by (cases xs) auto
  let ?mine = "filter (\<lambda>p. position_instrument p = (m, symbol)) ?hs"
  show "0 \<le> va_quantity st" "0 \<le> va_avg_cost st"
    unfolding st last_or_def using last [of ?mine] q by (auto simp: invested_positions_def)
  then show "0 \<le> dmul (va_quantity st) (mp_price current)" using cpos by (intro dmul_nonneg) simp_all
  show "dmul (va_quantity st) (mp_price current) \<le> va_invested st"
  proof (cases "?mine = []")
    case True
    then show ?thesis using inv st(3) by (simp add: last_or_def dmul_def)
  next
    case False
    then have mem: "last ?mine \<in> set ?hs" "position_instrument (last ?mine) = (m, symbol)"
      using last_in_set [OF False] by auto
    then have "marked_price ?mk (last ?mine) = mp_price current" by (simp add: marked_price_def mark_at_def)
    then show ?thesis
      using invested_value_ge_member [of 0 ?hs ?mk "last ?mine"] ok mem False st(1,3) by (simp add: last_or_def)
  qed
  show c: "0 \<le> cs_amount cash" using load_cash_Inr [OF cash] ledger_cash_nonneg by blast
  show "va_invested st \<le> dadd (cs_amount cash) (va_invested st)"
    using c representable_invested [of 0 ?mk ?hs] st(1) by (intro dadd_ge_right) simp_all
qed

lemma asset_weights_total:
  assumes "\<And>b. 0 \<le> buckets b" and "\<And>b. buckets b \<le> total_value"
  shows "\<exists>w. asset_weights buckets total_value = Inr w \<and> (\<forall>v \<in> {aw_kr w, aw_us w, aw_gold w}. 0 \<le> v \<and> v \<le> 100)"
  using percent_of_part [OF assms] by (cases "total_value \<le> 0") (auto simp: asset_weights_def)

text \<open>A valuation \<open>v\<close> of the positions and cash of the ledger, as the contract of the service has it.\<close>

definition values_portfolio ::
  "snapshot_source \<Rightarrow> market_price \<Rightarrow> string \<Rightarrow> market \<Rightarrow> instant \<Rightarrow> cash_snapshot \<Rightarrow> position list \<Rightarrow> portfolio_valuation \<Rightarrow> bool" where
  "values_portfolio source current symbol m now cash all v \<longleftrightarrow>
    (let ps = filter (\<lambda>p. pos_account_role p = PAPER \<and> pos_asset_class p \<noteq> CASH) all;
         mk = mark_at source current symbol m now;
         mine = filter (\<lambda>p. position_instrument p = (m, symbol)) ps;
         c = pv_risk_filter_context v
     in (\<forall>p \<in> set ps. pos_currency p = KRW \<and> (\<exists>x. mk (position_instrument p) = Inr x \<and>
           (position_instrument p = (m, symbol) \<or>
            (\<exists>sn. source (pos_symbol p) (pos_market p) now = Inr sn \<and> quoted sn (position_instrument p) now x)))) \<and>
        amount (rc_cash c) = cs_amount cash \<and>
        amount (rc_invested_amount c) = foldl (\<lambda>a p. dadd a (dmul (pos_quantity p) (marked_price mk p))) 0 ps \<and>
        amount (rc_total_nav c) = dadd (cs_amount cash) (amount (rc_invested_amount c)) \<and> 0 < amount (rc_total_nav c) \<and>
        pv_position_quantity v = (if mine = [] then 0 else pos_quantity (last mine)) \<and>
        rc_current_symbol_market_value c = Some (won (dmul (pv_position_quantity v) (mp_price current))) \<and>
        rc_current_symbol_cumulative_buy_cost c =
          Some (won (dmul (pv_position_quantity v) (if mine = [] then 0 else pos_avg_cost (last mine)))) \<and>
        0 \<le> pv_current_symbol_weight_percent v \<and> pv_current_symbol_weight_percent v \<le> 100 \<and>
        (\<forall>w \<in> {aw_kr (pv_current_asset_weights v), aw_us (pv_current_asset_weights v), aw_gold (pv_current_asset_weights v)}.
           0 \<le> w \<and> w \<le> 100) \<and>
        (\<exists>refs. rc_reference_prices c = Some refs \<and> map_of refs symbol = Some current))"


text \<open>Stages that fail only with a reason code.\<close>

definition typed :: "context_error + 'a \<Rightarrow> bool" where
  "typed r \<longleftrightarrow> (\<forall>e. r \<noteq> Inl (ContextRaised e))"

lemma typed_rbind: "typed a \<Longrightarrow> (\<And>x. a = Inr x \<Longrightarrow> typed (f x)) \<Longrightarrow> typed (rbind a f)"
  by (cases a) (auto simp: typed_def)

lemma typed_simps [simp]: "typed (Inr x)" "typed (Inl (PaperPortfolioContextError r))"
  by (simp_all add: typed_def)

definition quotes_ok :: "market_state_snapshot option \<Rightarrow> bool" where
  "quotes_ok snap \<longleftrightarrow> (\<forall>s q. snap = Some s \<longrightarrow> ls_quote s = Some q \<longrightarrow> 0 < ba_bid_price q \<and> 0 < ba_ask_price q)"

definition policy_ok :: "portfolio_policy \<Rightarrow> bool" where
  "policy_ok p \<longleftrightarrow>
     percent_ok (po_allocator_tolerance_percent p) = Inr () \<and> optional_percent_ok (po_allocator_symbol_target_weight p) = Inr () \<and>
     optional_percent_ok (po_mdd_percent p) = Inr () \<and> 0 \<le> po_gold_trades_this_month p \<and> 0 \<le> po_gold_trades_this_quarter p \<and>
     (\<forall>lower. po_paper_observation_min_invested_percent p = Some lower \<longrightarrow> 50 \<le> lower \<and> lower \<le> 70)"

lemma typed_mark:
  assumes "quotes_ok snap" and "normalize_required_string symbol = Inr sy"
  shows "typed (mark_from_snapshot snap symbol m now)"
  using assms
  by (auto simp: mark_from_snapshot_def quotes_ok_def mk_MarketPrice_def raised_def bind_eq_Some_conv ddiv_def dadd_def
      not_le split: option.splits)

lemma typed_value_positions:
  assumes "\<And>sy m snap. source sy m now = Inr snap \<Longrightarrow> quotes_ok snap"
    and "\<And>p. p \<in> set ps \<Longrightarrow> \<exists>sy. normalize_required_string (pos_symbol p) = Inr sy"
  shows "typed (value_positions source symbol m now st ps)"
  using assms(2)
proof (induction ps arbitrary: st)
  case (Cons p ps)
  have mark: "typed (mark_for source (pos_symbol p) (pos_market p) now)"
    using assms(1) Cons.prems typed_mark by (fastforce simp: mark_for_def split: sum.splits)
  have "typed (value_position source symbol m now st p)"
    unfolding value_position_def Let_def
    by (auto intro!: typed_rbind mark split: option.splits)
  then show ?case using Cons by (auto intro!: typed_rbind)
qed simp

lemma ledger_position_symbol:
  assumes "list_positions l = Inr ps" and "p \<in> set ps"
  shows "\<exists>sy. normalize_required_string (pos_symbol p) = Inr sy"
  using traverse_Inr_mem [OF assms(1) [unfolded list_positions_def] assms(2)]
  by (auto simp: row_to_position_def mk_Position_def rbind_Inr_iff dest!: normalize_required_string_Inr split: if_splits)

lemma mk_RiskFilterContext_accepts:
  assumes "policy_ok policy" and "0 < nav" and "0 \<le> cash" and "0 \<le> invested" and "0 \<le> weight" and "weight \<le> 100"
    and "\<forall>v \<in> {aw_kr ws, aw_us ws, aw_gold ws}. 0 \<le> v \<and> v \<le> 100"
  shows "typed (raised (mk_RiskFilterContext
    \<lparr>rc_created_at = now, rc_mode = po_mode policy, rc_total_nav = won nav, rc_cash = won cash,
     rc_invested_amount = won invested, rc_current_symbol_market_value = Some (won value),
     rc_current_symbol_cumulative_buy_cost = Some (won cost),
     rc_current_symbol_weight_percent = Some weight, rc_current_asset_weights = Some ws,
     rc_allocator_tolerance_percent = po_allocator_tolerance_percent policy,
     rc_allocator_symbol_target_weight = po_allocator_symbol_target_weight policy,
     rc_paper_observation_min_invested_percent = po_paper_observation_min_invested_percent policy,
     rc_mdd_percent = po_mdd_percent policy, rc_market = Some m, rc_currency = Some BASE_CURRENCY,
     rc_asset_bucket = po_asset_bucket policy, rc_gold_trades_this_month = po_gold_trades_this_month policy,
     rc_gold_trades_this_quarter = po_gold_trades_this_quarter policy, rc_proposed_price = pp,
     rc_reference_prices = rp\<rparr>))"
proof -
  have "optional_percent_ok (po_paper_observation_min_invested_percent policy) = Inr ()"
    using assms(1) by (auto simp: policy_ok_def optional_percent_ok_def percent_ok_def split: option.splits)
  then show ?thesis using assms
    by (auto simp: mk_RiskFilterContext_def validate_context_def won_def Let_def policy_ok_def percent_ok_def
        optional_percent_ok_def [of "Some weight"] not_less not_le raised_def split: option.splits)
qed

text \<open>With every input available and a positive net asset value a context is returned.\<close>

lemma context_succeeds:
  assumes "mp_symbol proposed = symbol" and "mp_market proposed = m" and "mp_currency proposed = BASE_CURRENCY"
    and cur: "mark_from_snapshot (Some snap) symbol m now = Inr current" and "mp_as_of proposed = mp_as_of current"
    and cash: "load_cash l now = Inr cash" and ps: "load_positions l = Inr ps"
    and val: "value_positions source symbol m now (start_state symbol m current) ps = Inr st"
    and policy: "policy_ok policy" and nav: "0 < dadd (cs_amount cash) (va_invested st)"
  shows "\<exists>v. build_context source l symbol m proposed snap policy now = Inr v"
proof -
  note facts = valuation_facts [OF cur cash ps val]
  let ?nav = "dadd (cs_amount cash) (va_invested st)"
  have le: "dmul (va_quantity st) (mp_price current) \<le> ?nav" using facts(5,6) by simp
  obtain ws where ws: "asset_weights (va_buckets st) (va_invested st) = Inr ws"
    "\<forall>v \<in> {aw_kr ws, aw_us ws, aw_gold ws}. 0 \<le> v \<and> v \<le> 100"
    using asset_weights_total [of "va_buckets st" "va_invested st"] facts(2,3) by blast
  note pct = percent_of_part [OF facts(4) le nav]
  have step: "\<exists>v. rbind (raised (mk_RiskFilterContext c)) (\<lambda>ctx. Inr (f ctx)) = Inr v"
    if "typed (raised (mk_RiskFilterContext c))" for c and f :: "risk_filter_context \<Rightarrow> portfolio_valuation"
    using that by (cases "mk_RiskFilterContext c") (simp_all add: typed_def raised_def)
  show ?thesis
    unfolding build_context_def start_state_def [symmetric] Let_def
    using assms(1-8) nav pct(1) ws(1)
    by (simp add: not_le) (rule step, rule mk_RiskFilterContext_accepts [OF policy nav facts(10,9) pct(2,3) ws(2)])
qed

text \<open>
  The context service raises nothing but its own typed error. For quotes with positive prices, a
  normalised symbol and a policy within the documented ranges, every failure carries one of the
  reason codes: the percentages never leave their range, whatever the rounding of the sums, and the
  risk context is always accepted.
\<close>

theorem context_errors_typed:
  assumes "normalize_required_string symbol = Inr sy" and "quotes_ok (Some snap)"
    and "\<And>sy m sn. source sy m now = Inr sn \<Longrightarrow> quotes_ok sn" and "policy_ok policy"
  shows "build_context source l symbol m proposed snap policy now \<noteq> Inl (ContextRaised e)"
proof -
  have "typed (build_context source l symbol m proposed snap policy now)"
    unfolding build_context_def start_state_def [symmetric]
  proof (split if_split, intro conjI impI typed_simps, split if_split, intro conjI impI typed_simps,
      rule typed_rbind [OF typed_mark [OF assms(2,1)]], split if_split, intro conjI impI typed_simps,
      rule typed_rbind, goal_cases cash rest)
    case (cash current)
    show ?case by (auto simp: load_cash_def split: sum.splits option.splits)
  next
    case (rest current cash)
    show ?case
    proof (rule typed_rbind, goal_cases positions rest)
      case positions
      show ?case by (auto simp: load_positions_def split: sum.splits)
    next
      case (rest ps)
      then obtain all where all: "list_positions l = Inr all" "ps = filter (\<lambda>p. pos_account_role p = PAPER) all"
        using load_positions_Inr by blast
      show ?case
      proof (rule typed_rbind, goal_cases loop rest)
        case loop
        show ?case using ledger_position_symbol [OF all(1)] all(2) assms(3) by (intro typed_value_positions) auto
      next
        case (rest st)
        note facts = valuation_facts [OF \<open>mark_from_snapshot (Some snap) symbol m now = Inr current\<close>
          \<open>load_cash l now = Inr cash\<close> \<open>load_positions l = Inr ps\<close> rest]
        let ?nav = "dadd (cs_amount cash) (va_invested st)"
        show ?case
        proof (cases "?nav \<le> 0")
          case False
          then have nav: "0 < ?nav" by simp
          have le: "dmul (va_quantity st) (mp_price current) \<le> ?nav" using facts(5,6) by simp
          obtain ws where ws: "asset_weights (va_buckets st) (va_invested st) = Inr ws"
            "\<forall>v \<in> {aw_kr ws, aw_us ws, aw_gold ws}. 0 \<le> v \<and> v \<le> 100"
            using asset_weights_total [of "va_buckets st" "va_invested st"] facts(2,3) by blast
          note pct = percent_of_part [OF facts(4) le nav]
          show ?thesis using False mk_RiskFilterContext_accepts [OF assms(4) nav facts(10,9) pct(2,3) ws(2)]
            by (simp add: Let_def pct(1) ws(1) typed_rbind)
        qed (simp add: Let_def)
      qed
    qed
  qed
  then show ?thesis by (simp add: typed_def)
qed

section \<open>A worked valuation\<close>

definition book_position :: position where
  "book_position = \<lparr>pos_symbol = ''005930'', pos_market = KR, pos_asset_class = KR_EQUITY, pos_account_role = PAPER,
     pos_quantity = 2, pos_avg_cost = 60000, pos_currency = KRW, pos_market_price = None\<rparr>"

definition book_ledger :: ledger where
  "book_ledger = upsert_position (upsert_cash empty_ledger example_cash) book_position"

definition book_quote :: best_bid_ask where
  "book_quote = \<lparr>ba_provider = ''p'', ba_symbol = ''005930'', ba_market = KR, ba_currency = KRW, ba_bid_price = 69900,
     ba_ask_price = 70100, ba_bid_quantity = 1, ba_ask_quantity = 1, ba_quote_at = 5, ba_received_at = 5,
     ba_provider_sequence = \<lparr>sq_provider = ''p'', sq_channel = ''c'', sq_sequence = 1, sq_received_at = 5\<rparr>\<rparr>"

definition book_snapshot :: market_state_snapshot where
  "book_snapshot = \<lparr>ls_market = KR, ls_symbol = ''005930'', ls_trade = None, ls_quote = Some book_quote,
     ls_trade_fresh = False, ls_quote_fresh = True, ls_evaluated_at = 6\<rparr>"

definition book_mark :: market_price where
  "book_mark = \<lparr>mp_symbol = ''005930'', mp_market = KR, mp_currency = KRW, mp_price = 70000, mp_as_of = 5\<rparr>"

definition book_policy :: portfolio_policy where
  "book_policy = \<lparr>po_mode = Mode_NORMAL, po_allocator_tolerance_percent = 5, po_allocator_symbol_target_weight = None,
     po_paper_observation_min_invested_percent = Some 50, po_mdd_percent = None, po_gold_trades_this_month = 0,
     po_gold_trades_this_quarter = 0, po_asset_bucket = None\<rparr>"

definition book_valuation :: "context_error + portfolio_valuation" where
  "book_valuation = build_context (\<lambda>_ _ _. Inr None) book_ledger ''005930'' KR (book_mark\<lparr>mp_price := 70100\<rparr>) book_snapshot book_policy 6"

lemma book_normalised: "normalised ''005930''"
  by (simp add: normalised_def strip_def is_space_def)

lemma book_mark_eq: "mark_from_snapshot (Some book_snapshot) ''005930'' KR 6 = Inr book_mark"
  by (simp add: mark_from_snapshot_def book_snapshot_def book_quote_def book_mark_def mk_MarketPrice_def raised_def
      BASE_CURRENCY_def book_normalised dec_defs)

lemma book_positions: "load_positions book_ledger = Inr [book_position]"
  by (simp add: load_positions_def list_positions_def book_ledger_def upsert_position_def upsert_cash_def empty_ledger_def
      tbl_upsert_def position_to_row_def book_position_def row_to_position_def enum_of_str_def mk_Position_def book_normalised
      BASE_ACCOUNT_ROLE_def)

lemma book_cash: "load_cash book_ledger 6 = Inr example_cash"
  by (simp add: load_cash_def get_cash_def restore_def book_ledger_def upsert_position_def upsert_cash_def empty_ledger_def
      tbl_upsert_def cash_to_row_def cash_key_def example_cash_def row_to_cash_snapshot_def enum_of_str_def mk_CashSnapshot_def
      BASE_CURRENCY_def BASE_ACCOUNT_ROLE_def)

lemma book_loop:
  "value_positions (\<lambda>_ _ _. Inr None) ''005930'' KR 6 (start_state ''005930'' KR book_mark) [book_position] =
     Inr \<lparr>va_marks = [((KR, ''005930''), book_mark)], va_invested = 140000, va_buckets = (\<lambda>_. 0)(''kr'' := 140000),
       va_quantity = 2, va_avg_cost = 60000\<rparr>"
  by (simp add: value_position_def book_position_def ASSET_BUCKET_def start_state_def book_mark_def BASE_CURRENCY_def dec_defs)

lemma book_value: "\<exists>v. book_valuation = Inr v"
  using context_succeeds [OF _ _ _ book_mark_eq _ book_cash book_positions book_loop, of "book_mark\<lparr>mp_price := 70100\<rparr>" book_policy]
  by (simp add: book_valuation_def book_mark_def BASE_CURRENCY_def example_cash_def policy_ok_def book_policy_def percent_ok_def
      optional_percent_ok_def dec_defs)


theorem context_errors_typed_witness:
  "normalize_required_string ''005930'' = Inr ''005930'' \<and> quotes_ok (Some book_snapshot) \<and> policy_ok book_policy \<and>
   book_valuation \<noteq> Inl (ContextRaised (ValueError ''percent must be between 0 and 100.''))"
proof -
  have "normalize_required_string ''005930'' = Inr ''005930''" by (simp add: book_normalised)
  moreover have "quotes_ok (Some book_snapshot)" by (simp add: quotes_ok_def book_snapshot_def book_quote_def)
  moreover have "policy_ok book_policy" by (simp add: policy_ok_def book_policy_def percent_ok_def optional_percent_ok_def)
  ultimately show ?thesis
    using context_errors_typed [of "''005930''" "''005930''" book_snapshot "\<lambda>_ _ _. Inr None" 6 book_policy]
    by (auto simp: book_valuation_def quotes_ok_def)
qed

end
