(* ===== verification/Coordinator.thy ===== *)
theory Coordinator
  imports Order_Bridge Portfolio_Context
begin

text \<open>
  The paper execution coordinator: \<^verbatim>\<open>src/src/execution/paper_execution_coordinator.py\<close>. One
  \<^verbatim>\<open>process\<close> takes a decision bundle and a market snapshot through the portfolio context, the
  trigger engine and the order bridge. The state is the engine with the world of the bridge; the
  context service reads the ledger of that world. An exception that escapes still returns the state
  it leaves behind.
\<close>

section \<open>Results\<close>

definition REASON_SNAPSHOT_AS_OF_MISMATCH :: string where "REASON_SNAPSHOT_AS_OF_MISMATCH = ''snapshot_as_of_mismatch''"
definition REASON_INDICATOR_AS_OF_MISMATCH :: string where "REASON_INDICATOR_AS_OF_MISMATCH = ''indicator_as_of_mismatch''"
definition REASON_SNAPSHOT_IDENTITY_MISMATCH :: string where "REASON_SNAPSHOT_IDENTITY_MISMATCH = ''snapshot_identity_mismatch''"
definition REASON_DECISION_REPLACE_CONFLICT :: string where "REASON_DECISION_REPLACE_CONFLICT = ''decision_replace_conflict''"
definition REASON_DECISION_REPLACE_OLDER :: string where "REASON_DECISION_REPLACE_OLDER = ''decision_replace_older''"
definition REASON_QUOTE_UNAVAILABLE :: string where "REASON_QUOTE_UNAVAILABLE = ''quote_unavailable''"
definition REASON_PORTFOLIO_CONTEXT_BUILD_ERROR :: string where
  "REASON_PORTFOLIO_CONTEXT_BUILD_ERROR = ''portfolio_context_build_error''"
definition REASON_RISK_INPUT_BUILD_ERROR :: string where "REASON_RISK_INPUT_BUILD_ERROR = ''risk_input_build_error''"

datatype coordinator_status =
    CS_SUPPRESSED | CS_FAILED_CLOSED | CS_SKIPPED_TERMINAL | CS_RECONCILE_REQUIRED | CS_TRIGGERED_ABORTED
  | CS_COMMITTED | CS_UNCERTAIN

record coordinator_result =
  cr_status :: coordinator_status
  cr_trigger_status :: "trigger_status option"
  cr_trigger_reason :: "trigger_reason option"
  cr_reason_code :: "string option"
  cr_signal :: "trigger_signal option"
  cr_bridge_result :: "bridge_result option"
  cr_order_result :: "order_result option"

fun BRIDGE_OUTCOME_MAP :: "bridge_outcome \<Rightarrow> coordinator_status" where
  "BRIDGE_OUTCOME_MAP BO_ABORTED = CS_TRIGGERED_ABORTED"
| "BRIDGE_OUTCOME_MAP BO_COMMITTED = CS_COMMITTED"
| "BRIDGE_OUTCOME_MAP BO_UNCERTAIN = CS_UNCERTAIN"
| "BRIDGE_OUTCOME_MAP BO_RECONCILE_REQUIRED = CS_RECONCILE_REQUIRED"
| "BRIDGE_OUTCOME_MAP BO_SKIPPED_TERMINAL = CS_SKIPPED_TERMINAL"

datatype coordinator_error = CE_Raised exn | CE_Bridge bridge_error

record coordinator =
  cd_engine :: trigger_engine
  cd_world :: bridge_world

type_synonym coordinator_answer = "coordinator \<times> (coordinator_error + coordinator_result)"

definition failed :: "string \<Rightarrow> trigger_signal option \<Rightarrow> trigger_status option \<Rightarrow> coordinator_result" where
  "failed reason_code signal trigger_status =
     \<lparr>cr_status = CS_FAILED_CLOSED, cr_trigger_status = trigger_status, cr_trigger_reason = None,
      cr_reason_code = Some reason_code, cr_signal = signal, cr_bridge_result = None, cr_order_result = None\<rparr>"

definition from_bridge :: "trigger_signal \<Rightarrow> trigger_status \<Rightarrow> bridge_result \<Rightarrow> coordinator_result" where
  "from_bridge signal trigger_status r =
     \<lparr>cr_status = BRIDGE_OUTCOME_MAP (br_outcome r), cr_trigger_status = Some trigger_status, cr_trigger_reason = None,
      cr_reason_code = br_reason_code r, cr_signal = Some signal, cr_bridge_result = Some r,
      cr_order_result = br_order_result r\<rparr>"

section \<open>Processing a tick\<close>

text \<open>
  Steps 2 to 5, before the engine is touched: the execution price, the portfolio context and the
  risk input. They read the ledger and change nothing. A bundle without a plan stages nothing.
\<close>

datatype staged =
    Staged "(market_price \<times> portfolio_valuation) option"
  | Stage_Failed string
  | Stage_Raised exn

definition risk_input_of ::
  "allocator_decision \<Rightarrow> trigger_bundle \<Rightarrow> portfolio_valuation \<Rightarrow> string option \<Rightarrow> risk_filter_input result" where
  "risk_input_of alloc b v cid =
     mk_RiskFilterInput \<lparr>ri_allocator_decision = alloc, ri_analysis_decision = bn_decision b,
       ri_context = pv_risk_filter_context v, ri_correlation_id = cid\<rparr>"

definition stage ::
  "snapshot_source \<Rightarrow> ledger \<Rightarrow> trigger_bundle \<Rightarrow> market_state_snapshot \<Rightarrow> allocator_decision \<Rightarrow> portfolio_policy \<Rightarrow> instant \<Rightarrow> staged" where
  "stage source l b snap alloc policy now =
     (case bn_plan b of
        None \<Rightarrow> Staged None
      | Some plan \<Rightarrow>
          if ls_market snap \<noteq> pl_market plan \<or> ls_symbol snap \<noteq> pl_symbol plan
          then Stage_Failed REASON_SNAPSHOT_IDENTITY_MISMATCH
          else case ls_quote snap of
            None \<Rightarrow> Stage_Failed REASON_QUOTE_UNAVAILABLE
          | Some quote \<Rightarrow>
              (case mk_MarketPrice
                     \<lparr>mp_symbol = ls_symbol snap, mp_market = ls_market snap, mp_currency = ba_currency quote,
                      mp_price = (if pl_action plan = Action_BUY then ba_ask_price quote else ba_bid_price quote),
                      mp_as_of = ba_quote_at quote\<rparr> of
                 Inl e \<Rightarrow> Stage_Raised e
               | Inr price \<Rightarrow>
                   (case build_context source l (pl_symbol plan) (pl_market plan) price snap policy now of
                      Inl (PaperPortfolioContextError reason) \<Rightarrow> Stage_Failed reason
                    | Inl (ContextRaised _) \<Rightarrow> Stage_Failed REASON_PORTFOLIO_CONTEXT_BUILD_ERROR
                    | Inr v \<Rightarrow>
                        (case risk_input_of alloc b v None of
                           Inl _ \<Rightarrow> Stage_Failed REASON_RISK_INPUT_BUILD_ERROR
                         | Inr _ \<Rightarrow> Staged (Some (price, v))))))"

text \<open>Steps 8 and 9, after a fire.\<close>

definition execute_fire ::
  "fee_calculator \<Rightarrow> coordinator \<Rightarrow> trigger_bundle \<Rightarrow> allocator_decision \<Rightarrow> (market_price \<times> portfolio_valuation) option \<Rightarrow>
   trigger_signal \<Rightarrow> trigger_status \<Rightarrow> instant \<Rightarrow> coordinator_answer" where
  "execute_fire fee c b alloc prepared signal status now =
     (case prepared of
        None \<Rightarrow> (c, Inr (failed REASON_PORTFOLIO_CONTEXT_BUILD_ERROR (Some signal) (Some status)))
      | Some (price, v) \<Rightarrow>
          (case risk_input_of alloc b v (Some (sg_idempotency_key signal)) of
             Inl _ \<Rightarrow> (c, Inr (failed REASON_RISK_INPUT_BUILD_ERROR (Some signal) (Some status)))
           | Inr risk_input \<Rightarrow>
               (case dispatch fee (cd_world c)
                       \<lparr>fa_signal = fire_signal_of signal, fa_bundle = b, fa_risk_input = risk_input,
                        fa_market_price = price, fa_position = Some (pv_position_quantity v), fa_now = now\<rparr> of
                  (w, Inl e) \<Rightarrow> (c\<lparr>cd_world := w\<rparr>, Inl (CE_Bridge e))
                | (w, Inr r) \<Rightarrow> (c\<lparr>cd_world := w\<rparr>, Inr (from_bridge signal status r)))))"

definition process ::
  "hashing \<Rightarrow> fee_calculator \<Rightarrow> snapshot_source \<Rightarrow> coordinator \<Rightarrow> trigger_bundle \<Rightarrow> market_state_snapshot \<Rightarrow>
   trading_permission option \<Rightarrow> allocator_decision \<Rightarrow> portfolio_policy \<Rightarrow> instant \<Rightarrow> indicator_context option \<Rightarrow>
   coordinator_answer" where
  "process hx fee source c b snap permission alloc policy now indicators =
     (if ls_evaluated_at snap \<noteq> now then (c, Inr (failed REASON_SNAPSHOT_AS_OF_MISMATCH None None))
      else if (\<exists>ctx \<in> set_option indicators. cx_evaluated_at ctx \<noteq> now)
      then (c, Inr (failed REASON_INDICATOR_AS_OF_MISMATCH None None))
      else case stage source (bw_ledger (cd_world c)) b snap alloc policy now of
        Stage_Failed reason \<Rightarrow> (c, Inr (failed reason None None))
      | Stage_Raised e \<Rightarrow> (c, Inl (CE_Raised e))
      | Staged prepared \<Rightarrow>
          (case replace_bundle hx (cd_engine c) b of (e1, rs) \<Rightarrow>
             let c1 = c\<lparr>cd_engine := e1\<rparr>
             in if rs = REJECTED_CONFLICT then (c1, Inr (failed REASON_DECISION_REPLACE_CONFLICT None None))
                else if rs = REJECTED_OLDER then (c1, Inr (failed REASON_DECISION_REPLACE_OLDER None None))
                else case evaluate_engine hx e1 snap permission now indicators of
                  (e2, Inl err) \<Rightarrow> (c1\<lparr>cd_engine := e2\<rparr>, Inl (CE_Raised err))
                | (e2, Inr ev) \<Rightarrow>
                    let c2 = c1\<lparr>cd_engine := e2\<rparr>
                    in case (if tv_status ev = TRIGGERED then tv_signal ev else None) of
                         None \<Rightarrow> (c2, Inr \<lparr>cr_status = CS_SUPPRESSED, cr_trigger_status = Some (tv_status ev),
                             cr_trigger_reason = tv_reason ev, cr_reason_code = None, cr_signal = None,
                             cr_bridge_result = None, cr_order_result = None\<rparr>)
                       | Some signal \<Rightarrow> execute_fire fee c2 b alloc prepared signal (tv_status ev) now))"

definition recover :: "coordinator \<Rightarrow> instant \<Rightarrow> coordinator \<times> (bridge_error + bridge_result list)" where
  "recover c now = (case reconcile_all (cd_world c) now of (w, ans) \<Rightarrow> (c\<lparr>cd_world := w\<rparr>, ans))"

section \<open>The parts of a tick\<close>

definition single_fire_plan :: "trigger_plan \<Rightarrow> bool" where
  "single_fire_plan p \<longleftrightarrow> validate_plan p = Inr p \<and> normalised (pl_plan_id p) \<and> normalised (pl_decision_id p) \<and>
     normalised (pl_symbol p) \<and> pl_max_fires p = 1"

definition executable_bundle :: "trigger_bundle \<Rightarrow> bool" where
  "executable_bundle b \<longleftrightarrow> mk_DecisionTriggerBundle b = Inr b \<and> (\<forall>p. bn_plan b = Some p \<longrightarrow> single_fire_plan p)"

definition fingerprint_ok :: "hashing \<Rightarrow> trigger_engine \<Rightarrow> bool" where
  "fingerprint_ok hx e \<longleftrightarrow> (\<forall>b. te_active e = Some b \<longrightarrow> te_fingerprint e = bundle_fingerprint hx b)"

definition coordinator_ok :: "hashing \<Rightarrow> coordinator \<Rightarrow> bool" where
  "coordinator_ok hx c \<longleftrightarrow> engine_inv hx (cd_engine c) \<and> fingerprint_ok hx (cd_engine c) \<and> world_ok (cd_world c)"

lemma executable_bundle_ok: "executable_bundle b \<Longrightarrow> bundle_ok b"
  by (auto simp: executable_bundle_def bundle_ok_def single_fire_plan_def split: option.splits)

lemma replace_bundle_ok:
  assumes "replace_bundle hx e b = (e1, rs)" and "bundle_ok b" and "engine_inv hx e" and "fingerprint_ok hx e"
  shows "engine_inv hx e1" and "fingerprint_ok hx e1" and "te_fires e1 \<in> {te_fires e, 0}"
    and "rs \<in> {REPLACED, UNCHANGED} \<Longrightarrow>
      (\<And>a. te_active e = Some a \<Longrightarrow> bundle_fingerprint hx a = bundle_fingerprint hx b \<Longrightarrow> a = b) \<Longrightarrow> te_active e1 = Some b"
proof -
  consider "rs = REPLACED" "e1 = install hx e b (bundle_fingerprint hx b)" | "rs \<noteq> REPLACED" "e1 = e"
    using replace_bundle_cases [OF assms(1)] by blast
  then have "engine_inv hx e1 \<and> fingerprint_ok hx e1 \<and> te_fires e1 \<in> {te_fires e, 0} \<and> (rs = REPLACED \<longrightarrow> te_active e1 = Some b)"
    by cases (use assms(3,4) install_inv [OF assms(2), of hx e] in \<open>auto simp: fingerprint_ok_def install_def\<close>)
  moreover have "te_active e1 = Some b" if "rs = UNCHANGED"
    "\<And>a. te_active e = Some a \<Longrightarrow> bundle_fingerprint hx a = bundle_fingerprint hx b \<Longrightarrow> a = b"
    using assms(1,4) that
    by (cases "te_active e") (auto simp: replace_bundle_def Let_def fingerprint_ok_def split: if_splits)
  ultimately show "engine_inv hx e1" "fingerprint_ok hx e1" "te_fires e1 \<in> {te_fires e, 0}"
    "rs \<in> {REPLACED, UNCHANGED} \<Longrightarrow>
      (\<And>a. te_active e = Some a \<Longrightarrow> bundle_fingerprint hx a = bundle_fingerprint hx b \<Longrightarrow> a = b) \<Longrightarrow> te_active e1 = Some b"
    by auto
qed

text \<open>With a single fire per decision an evaluation that consumes the fire returns its signal.\<close>

lemma single_fire_evaluation:
  assumes ev: "evaluate_engine hx e snap permission now indicators = (e', res)" and inv: "engine_inv hx e"
    and "te_active e = Some b" and "\<forall>p. bn_plan b = Some p \<longrightarrow> pl_max_fires p = 1"
  shows "te_fires e' = te_fires e \<and> (\<forall>v. res = Inr v \<longrightarrow> tv_signal v = None \<and> tv_status v \<noteq> TRIGGERED) \<or>
    (\<exists>v plan q obs n. res = Inr v \<and> bn_plan b = Some plan \<and> te_fires e = 0 \<and> te_fires e' = 1 \<and> tv_status v = TRIGGERED \<and>
       tv_signal v = Some (fired_signal hx plan (rule_set_id hx plan) n q now obs))"
  using ev inv
proof (cases rule: evaluate_engine_cases)
  case (active b' plan e0)
  then have b: "b' = b" "bn_plan b = Some plan" and max: "pl_max_fires plan = 1" using assms(3,4) by auto
  then have rid: "te_rule_set_id e = rule_set_id hx plan" and f: "te_fires e = 0"
    using inv active(1-3) by (auto simp: engine_inv_def)
  have e0: "te_fires e0 = te_fires e" "te_rule_set_id e0 = te_rule_set_id e" using active(5) by (auto split: if_splits)
  from active(6) show ?thesis
  proof
    assume "\<exists>v. e' = disarm_debounce e0 \<and> res = Inr v \<and> tv_signal v = None \<and> tv_status v = CONDITION_NOT_MET"
    then show ?thesis using e0 by auto
  next
    assume "evaluate_all (hx_window hx) (pl_rules plan) snap indicators = Inr True \<and>
      debounce_step hx (begin_debounce e0 now) plan snap now indicators = (e', res)"
    then have "debounce_step hx (begin_debounce e0 now) plan snap now indicators = (e', res)" by simp
    then show ?thesis
    proof (cases rule: debounce_step_cases)
      case pending
      then show ?thesis using e0 by auto
    next
      case (fires t)
      show ?thesis
      proof (cases res)
        case (Inl err)
        then have "e' = begin_debounce e0 now"
          using fires(4) e0 f max by (auto simp: fire_def Let_def split: option.splits sum.splits if_splits)
        then show ?thesis using Inl e0 by auto
      next
        case (Inr v)
        from fires(4) [unfolded Inr] show ?thesis
          by (rule fire_Inr) (use Inr e0 f rid b in \<open>auto intro!: exI\<close>)
      qed
    qed
  qed
qed (use assms(3) in auto)

lemma staged_facts:
  assumes "stage source l b snap alloc policy now = Staged (Some (price, v))"
  shows "\<exists>plan. bn_plan b = Some plan \<and> mp_market price = pl_market plan \<and> mp_symbol price = pl_symbol plan \<and>
    0 < mp_price price \<and> build_context source l (pl_symbol plan) (pl_market plan) price snap policy now = Inr v \<and>
    al_schema_name alloc = ALLOCATOR_DECISION_SCHEMA \<and> an_schema_name (bn_decision b) = ANALYSIS_DECISION_SCHEMA"
proof -
  obtain plan quote r where p: "bn_plan b = Some plan" "ls_market snap = pl_market plan" "ls_symbol snap = pl_symbol plan"
    "ls_quote snap = Some quote"
    "mk_MarketPrice \<lparr>mp_symbol = ls_symbol snap, mp_market = ls_market snap, mp_currency = ba_currency quote,
        mp_price = (if pl_action plan = Action_BUY then ba_ask_price quote else ba_bid_price quote),
        mp_as_of = ba_quote_at quote\<rparr> = Inr price"
    "build_context source l (pl_symbol plan) (pl_market plan) price snap policy now = Inr v"
    "risk_input_of alloc b v None = Inr r"
    using assms unfolding stage_def
    by (auto split: option.splits if_splits sum.splits context_error.splits)
  have "mp_symbol price = pl_symbol plan \<and> mp_market price = pl_market plan"
    using p(6) by (auto simp: build_context_def split: if_splits)
  moreover have "0 < mp_price price"
    using p(5) by (auto simp: mk_MarketPrice_def rbind_Inr_iff not_le split: if_splits)
  ultimately show ?thesis using p by (auto simp: risk_input_of_def mk_RiskFilterInput_def rbind_Inr_iff split: if_splits)
qed

section \<open>From a fire to the bridge\<close>

definition fire_args_of ::
  "trigger_bundle \<Rightarrow> risk_filter_input \<Rightarrow> market_price \<Rightarrow> portfolio_valuation \<Rightarrow> trigger_signal \<Rightarrow> instant \<Rightarrow> fire_args" where
  "fire_args_of b r price v sg now =
     \<lparr>fa_signal = fire_signal_of sg, fa_bundle = b, fa_risk_input = r, fa_market_price = price,
      fa_position = Some (pv_position_quantity v), fa_now = now\<rparr>"

lemma normalize_optional_normalised [simp]: "normalised s \<Longrightarrow> normalize_optional_string (Some s) = Inr (Some s)"
  by (simp add: normalize_optional_string_def normalised_def)

lemma risk_input_of_accepts:
  assumes "al_schema_name alloc = ALLOCATOR_DECISION_SCHEMA" "an_schema_name (bn_decision b) = ANALYSIS_DECISION_SCHEMA"
    and "normalised key"
  shows "risk_input_of alloc b v (Some key) =
    Inr \<lparr>ri_allocator_decision = alloc, ri_analysis_decision = bn_decision b, ri_context = pv_risk_filter_context v,
      ri_correlation_id = Some key\<rparr>"
  using assms by (simp add: risk_input_of_def mk_RiskFilterInput_def)

lemma fired_signal_simps:
  "fs_idempotency_key (fire_signal_of (fired_signal hx plan rid n q now obs)) = idempotency_key hx plan rid n"
  "sg_idempotency_key (fired_signal hx plan rid n q now obs) = idempotency_key hx plan rid n"
  "fs_triggered_at (fire_signal_of (fired_signal hx plan rid n q now obs)) = now"
  by (simp_all add: fire_signal_of_def fired_signal_def)

lemma coordinator_preflight:
  assumes b: "executable_bundle b" and plan: "bn_plan b = Some plan" and "mp_market price = pl_market plan"
    and "mp_symbol price = pl_symbol plan" and "ri_correlation_id r = Some (idempotency_key hx plan rid n)"
    and "ri_analysis_decision r = bn_decision b"
  shows "preflight (fire_args_of b r price v (fired_signal hx plan rid n q now obs) now) = Inr ()"
proof -
  have "pl_decision_id plan = an_decision_id (bn_decision b) \<and> market_str (pl_market plan) = an_market (bn_decision b) \<and>
      pl_symbol plan = an_symbol (bn_decision b) \<and> pl_action plan = bundle_action b \<and> pl_max_fires plan = 1"
    using b plan by (auto simp: executable_bundle_def mk_DecisionTriggerBundle_def single_fire_plan_def Let_def split: if_splits)
  then show ?thesis
    using assms by (simp add: preflight_def Let_def fire_args_of_def fire_signal_of_def fired_signal_def)
qed

lemma coordinator_signal_coerces:
  assumes "single_fire_plan plan" and "normalised (idempotency_key hx plan rid n)"
  shows "coerce_signal (fire_signal_of (fired_signal hx plan rid n q now obs)) =
    Inr (fire_signal_of (fired_signal hx plan rid n q now obs))"
proof -
  have "pl_action plan \<in> {Action_BUY, Action_SELL}"
    using assms(1) by (auto simp: single_fire_plan_def validate_plan_def EXECUTABLE_ACTIONS_def split: if_splits)
  then show ?thesis using assms
    by (cases "pl_market plan")
      (auto simp: coerce_signal_def fire_signal_of_def fired_signal_def single_fire_plan_def normalised_def
        require_nonblank_def coerce_enum_def)
qed

lemma dispatch_world_ok:
  assumes "world_ok w" and "fire_ok a"
  shows "world_ok (fst (dispatch fee w a))"
proof -
  let ?s = "\<lparr>bs_world = w, bs_pc = (\<lambda>_. Idle)\<rparr>"
  have "bridge_inv ?s" using assms(1) by (simp add: bridge_inv_def)
  then have "bridge_inv (at_pc ?s 0 w Idle)" by (simp add: at_pc_def bridge_inv_def)
  from bridge_run_inv [OF dispatch_runs [OF assms(2)] this] show ?thesis by (simp add: bridge_inv_def)
qed

lemma dispatch_known_fire:
  assumes "journal_wf (bw_journal w)" and "journal_get (bw_journal w) (fire_key a) = Some r"
  shows "fst (dispatch fee w a) = w"
proof (cases "reserve (bw_journal w) (fa_signal a) (fa_now a)")
  case (Inr q)
  obtain j oc r' where q: "q = (j, oc, r')" by (metis prod_cases3)
  have "j = bw_journal w \<and> oc \<noteq> RESERVED_NEW"
    using Inr [unfolded q reserve_Inr [OF keyed_of_wf [OF assms(1)]]] assms(2) by auto
  then show ?thesis using Inr q
    by (cases "preflight a"; cases oc) (simp_all add: dispatch_def respond_def)
next
  case (Inl e)
  then show ?thesis by (cases "preflight a") (simp_all add: dispatch_def)
qed

lemma execute_fire_dispatches:
  assumes w: "world_ok (cd_world c)" and b: "executable_bundle b" and plan: "bn_plan b = Some plan"
    and staged: "stage source l b snap alloc policy now = Staged (Some (price, v))"
    and sg: "sg = fired_signal hx plan rid n q now obs" and key: "normalised (idempotency_key hx plan rid n)"
  obtains r a rec where "a = fire_args_of b r price v sg now" "preflight a = Inr ()"
    "execute_fire fee c b alloc (Some (price, v)) sg TRIGGERED now =
       (c\<lparr>cd_world := fst (dispatch fee (cd_world c) a)\<rparr>,
        case snd (dispatch fee (cd_world c) a) of Inl e \<Rightarrow> Inl (CE_Bridge e) | Inr br \<Rightarrow> Inr (from_bridge sg TRIGGERED br))"
    "world_ok (fst (dispatch fee (cd_world c) a))"
    "journal_get (bw_journal (fst (dispatch fee (cd_world c) a))) (sg_idempotency_key sg) = Some rec"
    "journal_get (bw_journal (cd_world c)) (sg_idempotency_key sg) = Some rec \<and> fst (dispatch fee (cd_world c) a) = cd_world c \<or>
     tj_state rec \<in> TERMINAL_STATES \<or>
     tj_state rec = JS_RESERVED \<and> snd (dispatch fee (cd_world c) a) = Inl (JournalRaised OrderIdConflictError)"
proof -
  obtain plan' where s: "bn_plan b = Some plan'" "mp_market price = pl_market plan'" "mp_symbol price = pl_symbol plan'"
    "0 < mp_price price" "al_schema_name alloc = ALLOCATOR_DECISION_SCHEMA"
    "an_schema_name (bn_decision b) = ANALYSIS_DECISION_SCHEMA"
    using staged_facts [OF staged] by blast
  have [simp]: "plan' = plan" using s(1) plan by simp
  define r where "r = \<lparr>ri_allocator_decision = alloc, ri_analysis_decision = bn_decision b,
    ri_context = pv_risk_filter_context v, ri_correlation_id = Some (sg_idempotency_key sg)\<rparr>"
  define a where "a = fire_args_of b r price v sg now"
  let ?d = "dispatch fee (cd_world c) a"
  have pre: "preflight a = Inr ()"
    unfolding a_def sg by (rule coordinator_preflight [OF b plan]) (use s in \<open>simp_all add: r_def sg fired_signal_simps\<close>)
  have risk: "risk_input_of alloc b v (Some (sg_idempotency_key sg)) = Inr r"
    unfolding r_def by (rule risk_input_of_accepts) (use s key in \<open>simp_all add: sg fired_signal_simps\<close>)
  have exec: "execute_fire fee c b alloc (Some (price, v)) sg TRIGGERED now =
      (c\<lparr>cd_world := fst ?d\<rparr>, case snd ?d of Inl e \<Rightarrow> Inl (CE_Bridge e) | Inr br \<Rightarrow> Inr (from_bridge sg TRIGGERED br))"
    using risk by (simp add: execute_fire_def a_def fire_args_of_def case_prod_unfold split: sum.splits prod.splits)
  have fok: "fire_ok a" using s(4) by (simp add: fire_ok_def a_def fire_args_of_def)
  have jwf: "journal_wf (bw_journal (cd_world c))" using w by (simp add: world_ok_def)
  have fk: "fire_key a = sg_idempotency_key sg" "fa_signal a = fire_signal_of sg" "fa_now a = now"
    by (simp_all add: a_def fire_args_of_def fire_signal_of_def)
  have "single_fire_plan plan" using b plan by (simp add: executable_bundle_def)
  note coerce = coordinator_signal_coerces [OF this key]
  show thesis
  proof (cases "journal_get (bw_journal (cd_world c)) (sg_idempotency_key sg)")
    case (Some rec)
    then have "fst ?d = cd_world c" using dispatch_known_fire [OF jwf] fk by metis
    then show thesis using that [OF a_def pre exec dispatch_world_ok [OF w fok]] Some by simp
  next
    case None
    have "\<exists>rec. journal_get (bw_journal (fst ?d)) (fire_key a) = Some rec \<and> (tj_state rec \<in> TERMINAL_STATES \<or>
        tj_state rec = JS_RESERVED \<and> snd ?d = Inl (JournalRaised OrderIdConflictError) \<and>
        order_id_taken (bw_journal (cd_world c)) (fire_key a) (order_id_of (fa_signal a)))"
      by (rule dispatch_ends_fire [OF jwf pre])
        (use coerce None fk in \<open>simp_all add: sg fired_signal_simps\<close>)
    then obtain rec where "journal_get (bw_journal (fst ?d)) (sg_idempotency_key sg) = Some rec"
      "tj_state rec \<in> TERMINAL_STATES \<or> tj_state rec = JS_RESERVED \<and> snd ?d = Inl (JournalRaised OrderIdConflictError)"
      unfolding fk(1) by blast
    then show thesis using that [OF a_def pre exec dispatch_world_ok [OF w fok]] by blast
  qed
qed

text \<open>The two ways a tick can go: nothing was consumed, or the one fire was and is being executed.\<close>

lemma process_cases [consumes 4]:
  assumes ok: "coordinator_ok hx c" and b: "executable_bundle b"
    and proc: "process hx fee source c b snap permission alloc policy now indicators = (c', ans)"
    and collide: "\<forall>a. te_active (cd_engine c) = Some a \<longrightarrow> bundle_fingerprint hx a = bundle_fingerprint hx b \<longrightarrow> a = b"
  obtains (idle) "coordinator_ok hx c'" "cd_world c' = cd_world c" "te_fires (cd_engine c') \<in> {te_fires (cd_engine c), 0}"
      "case ans of Inl e \<Rightarrow> \<exists>x. e = CE_Raised x | Inr r \<Rightarrow> cr_status r \<in> {CS_SUPPRESSED, CS_FAILED_CLOSED}"
    | (fires) e2 plan n q obs price v where "engine_inv hx e2" "fingerprint_ok hx e2" "te_fires e2 = 1" "bn_plan b = Some plan"
      "stage source (bw_ledger (cd_world c)) b snap alloc policy now = Staged (Some (price, v))"
      "execute_fire fee (c\<lparr>cd_engine := e2\<rparr>) b alloc (Some (price, v))
         (fired_signal hx plan (rule_set_id hx plan) n q now obs) TRIGGERED now = (c', ans)"
proof (cases "ls_evaluated_at snap = now \<and> (\<forall>ctx \<in> set_option indicators. cx_evaluated_at ctx = now)")
  case False
  then show thesis using proc ok by (intro idle) (auto simp: process_def failed_def split: if_splits)
next
  case asof: True
  show thesis
  proof (cases "stage source (bw_ledger (cd_world c)) b snap alloc policy now")
    case (Staged prep)
    obtain e1 rs where rep: "replace_bundle hx (cd_engine c) b = (e1, rs)" by fastforce
    have inv: "engine_inv hx (cd_engine c)" "fingerprint_ok hx (cd_engine c)" "world_ok (cd_world c)"
      using ok by (simp_all add: coordinator_ok_def)
    note e1 = replace_bundle_ok [OF rep executable_bundle_ok [OF b] inv(1,2)]
    show thesis
    proof (cases "rs \<in> {REPLACED, UNCHANGED}")
      case False
      then have "(c', ans) \<in> {(c\<lparr>cd_engine := e1\<rparr>, Inr (failed REASON_DECISION_REPLACE_CONFLICT None None)),
          (c\<lparr>cd_engine := e1\<rparr>, Inr (failed REASON_DECISION_REPLACE_OLDER None None))}"
        using proc asof Staged rep by (cases rs) (auto simp: process_def Let_def split: if_splits)
      then show thesis using inv e1 by (intro idle) (auto simp: coordinator_ok_def failed_def)
    next
      case True
      have act: "te_active e1 = Some b" using e1(4) [OF True] collide by blast
      obtain e2 res where ev: "evaluate_engine hx e1 snap permission now indicators = (e2, res)" by fastforce
      have e2: "engine_inv hx e2" "fingerprint_ok hx e2"
        using evaluate_engine_step(1,2) [OF ev e1(1)] e1(2) by (auto simp: fingerprint_ok_def same_install_def)
      have single: "\<forall>p. bn_plan b = Some p \<longrightarrow> pl_max_fires p = 1"
        using b by (simp add: executable_bundle_def single_fire_plan_def)
      from single_fire_evaluation [OF ev e1(1) act single] show thesis
      proof (elim disjE exE conjE)
        assume "te_fires e2 = te_fires e1" "\<forall>v. res = Inr v \<longrightarrow> tv_signal v = None \<and> tv_status v \<noteq> TRIGGERED"
        then show thesis using proc asof Staged rep True ev inv e2 e1(3)
          by (intro idle; cases res) (auto simp: process_def Let_def coordinator_ok_def)
      next
        fix ev' plan q obs n
        assume r: "res = Inr ev'" "bn_plan b = Some plan" "te_fires e1 = 0" "te_fires e2 = 1" "tv_status ev' = TRIGGERED"
          "tv_signal ev' = Some (fired_signal hx plan (rule_set_id hx plan) n q now obs)"
        moreover obtain price v where "prep = Some (price, v)"
          using Staged r(2) by (auto simp: stage_def split: if_splits option.splits sum.splits context_error.splits)
        ultimately show thesis using proc asof Staged rep True ev e2
          by (intro fires [of e2 plan price v n q obs]) (auto simp: process_def Let_def)
      qed
    qed
  qed (use proc asof ok in \<open>auto simp: process_def failed_def intro!: idle\<close>)
qed


text \<open>The fixture: a fresh engine over an empty journal, a buy decision with one fire, a full snapshot.\<close>

definition tick_hashing :: hashing where
  "tick_hashing = example_hashing\<lparr>hx_key := (\<lambda>_. ''key-1'')\<rparr>"

definition tick_coordinator :: coordinator where
  "tick_coordinator = \<lparr>cd_engine = new_engine, cd_world = example_world\<rparr>"

definition tick_bundle :: trigger_bundle where
  "tick_bundle = example_bundle\<lparr>bn_plan := Some (example_plan\<lparr>pl_max_fires := 1\<rparr>)\<rparr>"

lemma tick_coordinator_ok: "coordinator_ok tick_hashing tick_coordinator"
proof -
  have "world_ok example_world"
    using example_ledger_inv example_ledger_orders
    by (auto simp: world_ok_def example_world_def bridge_start_def journal_wf_Nil committed_durable_def)
  then show ?thesis
    using new_engine_inv by (simp add: coordinator_ok_def tick_coordinator_def fingerprint_ok_def) (simp add: new_engine_def)
qed

lemma tick_bundle_executable: "executable_bundle tick_bundle"
  by (simp add: executable_bundle_def tick_bundle_def example_bundle_def single_fire_plan_def example_plan_def
      mk_DecisionTriggerBundle_def validate_plan_def EXECUTABLE_ACTIONS_def normalised_def strip_def is_space_def
      example_analysis_def Let_def bundle_action_def)


end
