(* ===== verification/Market_Health.thy ===== *)
theory Market_Health
  imports Market_State
begin

text \<open>
  Trading sessions, the health of the feed, and the gate in front of execution:
  \<^verbatim>\<open>src/src/market_data/market_session.py\<close>, \<^verbatim>\<open>src/src/market_data/health_policy.py\<close>
  and \<^verbatim>\<open>src/src/orchestration/execution_gate.py\<close>. A date is the number of days since
  1970-01-01 and a time of day its microsecond. A time zone is a parameter, the UTC offset (in
  microseconds) of every instant; all datetimes are aware. Seconds are exact rationals:
  \<^verbatim>\<open>total_seconds\<close> is the quotient by a million. The calendar interface is the locale
  \<open>market_calendar\<close>; both calendars of the code interpret it.
\<close>

section \<open>Sessions\<close>

datatype market_session_state = MS_UNKNOWN | MS_CLOSED | MS_PRE_OPEN | MS_OPEN | MS_POST_CLOSE

datatype calendar_reason = CALENDAR_MISSING | PROVIDER_ERROR

datatype session_error = MarketSessionError string

record session_window =
  sw_pre_open :: int
  sw_open :: int
  sw_close :: int
  sw_post_close_end :: int

definition mk_SessionWindow :: "session_window \<Rightarrow> session_error + session_window" where
  "mk_SessionWindow w =
     (if sw_pre_open w \<le> sw_open w \<and> sw_open w \<le> sw_close w \<and> sw_close w \<le> sw_post_close_end w then Inr w
      else Inl (MarketSessionError ''SessionWindow times must be non-decreasing''))"

record market_session =
  se_market :: market
  se_state :: market_session_state
  se_as_of :: instant
  se_calendar_reason :: "calendar_reason option"

definition is_open :: "market_session \<Rightarrow> bool" where
  "is_open s \<longleftrightarrow> se_state s = MS_OPEN"

definition is_tradable_quote_expected :: "market_session \<Rightarrow> bool" where
  "is_tradable_quote_expected s \<longleftrightarrow> se_state s = MS_OPEN"

definition is_calendar_missing :: "market_session \<Rightarrow> bool" where
  "is_calendar_missing s \<longleftrightarrow> se_calendar_reason s = Some CALENDAR_MISSING"

definition state_from_window :: "session_window \<Rightarrow> int \<Rightarrow> market_session_state" where
  "state_from_window w t =
     (if t < sw_pre_open w \<or> sw_post_close_end w \<le> t then MS_CLOSED
      else if t < sw_open w then MS_PRE_OPEN
      else if t < sw_close w then MS_OPEN
      else MS_POST_CLOSE)"

definition minute_of_day :: "int \<Rightarrow> int" where
  "minute_of_day t = t div 60000000"

definition minutes_between :: "int \<Rightarrow> int \<Rightarrow> int" where
  "minutes_between s e = minute_of_day e - minute_of_day s"

definition add_minutes_clamped :: "int \<Rightarrow> int \<Rightarrow> int" where
  "add_minutes_clamped base minutes = max 0 (min (minute_of_day base + minutes) (23 * 60 + 59)) * 60000000"

definition window_for_day :: "session_window \<Rightarrow> int \<Rightarrow> (int \<rightharpoonup> int) option \<Rightarrow> session_error + session_window" where
  "window_for_day base day half_days =
     (case Option.bind half_days (\<lambda>h. h day) of
        None \<Rightarrow> Inr base
      | Some half \<Rightarrow>
          let margin = minutes_between (sw_close base) (sw_post_close_end base)
          in mk_SessionWindow \<lparr>sw_pre_open = sw_pre_open base, sw_open = sw_open base, sw_close = half,
               sw_post_close_end = add_minutes_clamped half margin\<rparr>)"

type_synonym zone = "instant \<Rightarrow> int"

definition local_date :: "zone \<Rightarrow> instant \<Rightarrow> int" where
  "local_date tz i = (i + tz i) div 86400000000"

definition local_time :: "zone \<Rightarrow> instant \<Rightarrow> int" where
  "local_time tz i = (i + tz i) mod 86400000000"

definition weekday :: "int \<Rightarrow> int" where
  "weekday day = (day + 3) mod 7"

definition WEEKEND :: "int set" where
  "WEEKEND = {5, 6}"

record explicit_schedule =
  xs_timezone :: zone
  xs_schedule :: "int \<rightharpoonup> session_window"
  xs_weekend_weekdays :: "int set"

definition schedule_is_trading_day :: "explicit_schedule \<Rightarrow> market \<Rightarrow> int \<Rightarrow> bool" where
  "schedule_is_trading_day c m day \<longleftrightarrow> xs_schedule c day \<noteq> None"

definition schedule_session_at :: "explicit_schedule \<Rightarrow> market \<Rightarrow> instant \<Rightarrow> session_error + market_session" where
  "schedule_session_at c m i =
     (let day = local_date (xs_timezone c) i
      in case xs_schedule c day of
           None \<Rightarrow>
             if weekday day \<in> xs_weekend_weekdays c
             then Inr \<lparr>se_market = m, se_state = MS_CLOSED, se_as_of = i, se_calendar_reason = None\<rparr>
             else Inr \<lparr>se_market = m, se_state = MS_UNKNOWN, se_as_of = i, se_calendar_reason = Some CALENDAR_MISSING\<rparr>
         | Some w \<Rightarrow>
             Inr \<lparr>se_market = m, se_state = state_from_window w (local_time (xs_timezone c) i), se_as_of = i,
                  se_calendar_reason = None\<rparr>)"

record fixture_calendar =
  fc_timezone :: zone
  fc_window :: session_window
  fc_holidays :: "int set"
  fc_half_days :: "(int \<rightharpoonup> int) option"
  fc_weekend_weekdays :: "int set"

definition for_krx :: "zone \<Rightarrow> int set \<Rightarrow> (int \<rightharpoonup> int) option \<Rightarrow> fixture_calendar" where
  "for_krx seoul holidays half_days =
     \<lparr>fc_timezone = seoul,
      fc_window = \<lparr>sw_pre_open = (8 * 60 + 30) * 60000000, sw_open = 9 * 60 * 60000000,
                   sw_close = (15 * 60 + 30) * 60000000, sw_post_close_end = 16 * 60 * 60000000\<rparr>,
      fc_holidays = holidays, fc_half_days = half_days, fc_weekend_weekdays = WEEKEND\<rparr>"

definition fixture_is_trading_day :: "fixture_calendar \<Rightarrow> market \<Rightarrow> int \<Rightarrow> bool" where
  "fixture_is_trading_day c m day \<longleftrightarrow> weekday day \<notin> fc_weekend_weekdays c \<and> day \<notin> fc_holidays c"

definition fixture_session_at :: "fixture_calendar \<Rightarrow> market \<Rightarrow> instant \<Rightarrow> session_error + market_session" where
  "fixture_session_at c m i =
     (let day = local_date (fc_timezone c) i
      in if \<not> fixture_is_trading_day c m day
         then Inr \<lparr>se_market = m, se_state = MS_CLOSED, se_as_of = i, se_calendar_reason = None\<rparr>
         else rbind (window_for_day (fc_window c) day (fc_half_days c)) (\<lambda>w.
              Inr \<lparr>se_market = m, se_state = state_from_window w (local_time (fc_timezone c) i), se_as_of = i,
                   se_calendar_reason = None\<rparr>))"

text \<open>\<^verbatim>\<open>build_explicit_schedule\<close>: the days in the order of the loop, the dictionary as a map.\<close>

primrec schedule_of :: "session_window \<Rightarrow> (int \<rightharpoonup> int) option \<Rightarrow> int list \<Rightarrow> (int \<rightharpoonup> session_window) \<Rightarrow> session_error + (int \<rightharpoonup> session_window)" where
  "schedule_of w half_days [] acc = Inr acc"
| "schedule_of w half_days (day # days) acc =
     rbind (window_for_day w day half_days) (\<lambda>dw. schedule_of w half_days days (acc(day \<mapsto> dw)))"

definition build_explicit_schedule ::
  "zone \<Rightarrow> int list \<Rightarrow> session_window \<Rightarrow> (int \<rightharpoonup> int) option \<Rightarrow> session_error + explicit_schedule" where
  "build_explicit_schedule tz trading_days w half_days =
     rbind (schedule_of w half_days trading_days Map.empty) (\<lambda>s.
     Inr \<lparr>xs_timezone = tz, xs_schedule = s, xs_weekend_weekdays = WEEKEND\<rparr>)"

section \<open>Health of the feed\<close>

datatype record_result = RR_RECORDED | RR_DUPLICATE | RR_OUT_OF_ORDER | RR_FUTURE | RR_UNKNOWN_KIND

datatype transport_health_status = TH_UNKNOWN | TH_WARMING | TH_HEALTHY | TH_DEGRADED | TH_FLAPPING | TH_UNHEALTHY

datatype market_data_health_status = MD_NOT_EXPECTED | MD_WARMING | MD_HEALTHY | MD_STARVED | MD_STALE | MD_INVALID | MD_UNKNOWN

definition MAX_EPOCH_HISTORY :: nat where
  "MAX_EPOCH_HISTORY = 64"

definition TRANSPORT_KINDS :: "string set" where
  "TRANSPORT_KINDS = {''connected'', ''all_subscribed'', ''disconnect'', ''ping_received'', ''pong_sent''}"

definition MARKET_KINDS :: "string set" where
  "MARKET_KINDS = {''best_bid_ask'', ''trade'', ''heartbeat''}"

record connection_epoch =
  ce_connected_at :: instant
  ce_disconnected_at :: instant
  ce_uptime_seconds :: rat
  ce_market_event_count :: nat
  ce_all_subscribed :: bool
  ce_disconnect_reason :: string

record health_thresholds =
  th_subscription_grace_seconds :: rat
  th_heartbeat_timeout_seconds :: rat
  th_minimum_stable_uptime_seconds :: rat
  th_flapping_window_seconds :: rat
  th_flapping_max_short_epochs :: int
  th_flapping_min_uptime_seconds :: rat
  th_flapping_min_market_events :: int
  th_quote_grace_seconds :: rat
  th_quote_starvation_seconds :: rat
  th_max_quote_age_seconds :: rat

datatype health_error = HealthPolicyError string

definition positive_thresholds :: "health_thresholds \<Rightarrow> (string \<times> rat) list" where
  "positive_thresholds h =
     [(''subscription_grace_seconds'', th_subscription_grace_seconds h),
      (''heartbeat_timeout_seconds'', th_heartbeat_timeout_seconds h),
      (''minimum_stable_uptime_seconds'', th_minimum_stable_uptime_seconds h),
      (''flapping_window_seconds'', th_flapping_window_seconds h),
      (''flapping_min_uptime_seconds'', th_flapping_min_uptime_seconds h),
      (''quote_grace_seconds'', th_quote_grace_seconds h),
      (''quote_starvation_seconds'', th_quote_starvation_seconds h),
      (''max_quote_age_seconds'', th_max_quote_age_seconds h)]"

definition mk_HealthThresholds :: "health_thresholds \<Rightarrow> health_error + health_thresholds" where
  "mk_HealthThresholds h =
     (case find (\<lambda>(_, v). v \<le> 0) (positive_thresholds h) of
        Some (name, _) \<Rightarrow> Inl (HealthPolicyError (name @ '' must be > 0.''))
      | None \<Rightarrow>
          if th_flapping_max_short_epochs h < 1 then Inl (HealthPolicyError ''flapping_max_short_epochs must be >= 1.'')
          else if th_flapping_min_market_events h < 0 then Inl (HealthPolicyError ''flapping_min_market_events must be >= 0.'')
          else Inr h)"

definition provisional_thresholds :: health_thresholds where
  "provisional_thresholds =
     \<lparr>th_subscription_grace_seconds = 30, th_heartbeat_timeout_seconds = 60, th_minimum_stable_uptime_seconds = 300,
      th_flapping_window_seconds = 120, th_flapping_max_short_epochs = 3, th_flapping_min_uptime_seconds = 30,
      th_flapping_min_market_events = 1, th_quote_grace_seconds = 30, th_quote_starvation_seconds = 30,
      th_max_quote_age_seconds = 60\<rparr>"

record health_verdict =
  hv_transport :: transport_health_status
  hv_market_data :: market_data_health_status
  hv_session_state :: market_session_state
  hv_short_epochs_in_window :: nat
  hv_last_quote_age_seconds :: "rat option"
  hv_reasons :: "string list"

definition is_healthy :: "health_verdict \<Rightarrow> bool" where
  "is_healthy v \<longleftrightarrow> hv_transport v = TH_HEALTHY \<and> hv_market_data v = MD_HEALTHY"

definition is_observable :: "health_verdict \<Rightarrow> bool" where
  "is_observable v \<longleftrightarrow> hv_transport v \<notin> {TH_UNKNOWN, TH_UNHEALTHY}"

definition is_warming :: "health_verdict \<Rightarrow> bool" where
  "is_warming v \<longleftrightarrow> hv_transport v = TH_WARMING \<or> hv_market_data v = MD_WARMING"

definition is_execution_ready :: "health_verdict \<Rightarrow> bool" where
  "is_execution_ready v \<longleftrightarrow> is_healthy v"

record health_tracker =
  mh_thresholds :: health_thresholds
  mh_connected :: bool
  mh_all_subscribed :: bool
  mh_epoch_connected_at :: "instant option"
  mh_last_pong_at :: "instant option"
  mh_last_transport_at :: "instant option"
  mh_last_quote_at :: "instant option"
  mh_last_market_at :: "instant option"
  mh_market_events_in_epoch :: nat
  mh_completed_epochs :: "connection_epoch list"

definition new_tracker :: "health_thresholds \<Rightarrow> health_tracker" where
  "new_tracker h =
     \<lparr>mh_thresholds = h, mh_connected = False, mh_all_subscribed = False, mh_epoch_connected_at = None,
      mh_last_pong_at = None, mh_last_transport_at = None, mh_last_quote_at = None, mh_last_market_at = None,
      mh_market_events_in_epoch = 0, mh_completed_epochs = []\<rparr>"

definition seconds_between :: "instant \<Rightarrow> instant \<Rightarrow> rat" where
  "seconds_between i j = of_int (j - i) / 1000000"

definition begin_epoch :: "health_tracker \<Rightarrow> instant \<Rightarrow> health_tracker" where
  "begin_epoch t i =
     t\<lparr>mh_connected := True, mh_all_subscribed := False, mh_epoch_connected_at := Some i,
       mh_last_pong_at := None, mh_market_events_in_epoch := 0\<rparr>"

text \<open>The \<^verbatim>\<open>while\<close> loop pops from the left until the history has at most 64 epochs.\<close>

definition finalize_epoch :: "health_tracker \<Rightarrow> instant \<Rightarrow> string \<Rightarrow> health_tracker" where
  "finalize_epoch t i reason =
     (case mh_epoch_connected_at t of
        None \<Rightarrow> t
      | Some c \<Rightarrow>
          let epochs = mh_completed_epochs t @ [\<lparr>ce_connected_at = c, ce_disconnected_at = i,
                 ce_uptime_seconds = max 0 (seconds_between c i), ce_market_event_count = mh_market_events_in_epoch t,
                 ce_all_subscribed = mh_all_subscribed t, ce_disconnect_reason = reason\<rparr>]
          in t\<lparr>mh_completed_epochs := drop (length epochs - MAX_EPOCH_HISTORY) epochs,
               mh_epoch_connected_at := None, mh_market_events_in_epoch := 0\<rparr>)"

definition record_transport_event :: "health_tracker \<Rightarrow> string \<Rightarrow> instant \<Rightarrow> instant \<Rightarrow> health_tracker \<times> record_result" where
  "record_transport_event t kind i now =
     (let recorded = (\<lambda>u. (u\<lparr>mh_last_transport_at := Some i\<rparr>, RR_RECORDED))
      in if kind \<notin> TRANSPORT_KINDS then (t, RR_UNKNOWN_KIND)
         else if now < i then (t, RR_FUTURE)
         else if (\<exists>c \<in> set_option (mh_epoch_connected_at t). i < c) \<and> kind \<noteq> ''connected'' then (t, RR_OUT_OF_ORDER)
         else if (\<exists>l \<in> set_option (mh_last_transport_at t). i < l) then (t, RR_OUT_OF_ORDER)
         else if kind \<in> {''ping_received'', ''pong_sent''} \<and> mh_last_pong_at t = Some i then (t, RR_DUPLICATE)
         else if kind = ''connected''
         then recorded (begin_epoch
                (if mh_connected t \<and> mh_epoch_connected_at t \<noteq> None then finalize_epoch t i ''superseded'' else t) i)
         else if \<not> mh_connected t then (t, RR_OUT_OF_ORDER)
         else if kind = ''all_subscribed'' then recorded (t\<lparr>mh_all_subscribed := True\<rparr>)
         else if kind = ''disconnect''
         then recorded ((finalize_epoch t i ''disconnect'')\<lparr>mh_connected := False, mh_all_subscribed := False\<rparr>)
         else recorded (t\<lparr>mh_last_pong_at := Some i\<rparr>))"

definition record_market_event :: "health_tracker \<Rightarrow> string \<Rightarrow> instant \<Rightarrow> instant \<Rightarrow> health_tracker \<times> record_result" where
  "record_market_event t event_type i now =
     (if event_type \<notin> MARKET_KINDS then (t, RR_UNKNOWN_KIND)
      else if now < i then (t, RR_FUTURE)
      else if (\<exists>c \<in> set_option (mh_epoch_connected_at t). i < c) then (t, RR_OUT_OF_ORDER)
      else if (\<exists>l \<in> set_option (mh_last_market_at t). i < l) then (t, RR_OUT_OF_ORDER)
      else (t\<lparr>mh_last_market_at := Some i,
              mh_last_quote_at := (if event_type = ''best_bid_ask'' then Some i else mh_last_quote_at t),
              mh_market_events_in_epoch := (if event_type \<in> {''best_bid_ask'', ''trade''}
                then mh_market_events_in_epoch t + 1 else mh_market_events_in_epoch t)\<rparr>, RR_RECORDED))"

text \<open>The cutoff subtracts the window, a \<^verbatim>\<open>timedelta\<close> rounded to the microsecond.\<close>

definition trim_epochs :: "health_tracker \<Rightarrow> instant \<Rightarrow> health_tracker" where
  "trim_epochs t now =
     (let cutoff = now - round_half_even (th_flapping_window_seconds (mh_thresholds t) * 1000000)
      in t\<lparr>mh_completed_epochs := dropWhile (\<lambda>e. ce_disconnected_at e < cutoff) (mh_completed_epochs t)\<rparr>)"

definition is_short_unstable :: "health_thresholds \<Rightarrow> connection_epoch \<Rightarrow> bool" where
  "is_short_unstable h e \<longleftrightarrow>
     ce_uptime_seconds e < th_flapping_min_uptime_seconds h \<and> int (ce_market_event_count e) < th_flapping_min_market_events h"

definition short_epochs :: "health_tracker \<Rightarrow> nat" where
  "short_epochs t = length (filter (is_short_unstable (mh_thresholds t)) (mh_completed_epochs t))"

definition transport_status :: "health_tracker \<Rightarrow> instant \<Rightarrow> nat \<Rightarrow> (transport_health_status \<times> string list) result" where
  "transport_status t now short =
     (let h = mh_thresholds t
      in if th_flapping_max_short_epochs h \<le> int short then Inr (TH_FLAPPING, [''transport_flapping_epochs''])
         else if mh_epoch_connected_at t = None \<and> \<not> mh_connected t
         then (if mh_completed_epochs t \<noteq> [] then Inr (TH_UNHEALTHY, [''transport_disconnected''])
               else Inr (TH_UNKNOWN, [''transport_never_connected'']))
         else case mh_epoch_connected_at t of
           None \<Rightarrow> Inl (TypeError ''unsupported operand type(s) for -'')
         | Some c \<Rightarrow>
             let since_connect = seconds_between c now
             in if \<not> mh_all_subscribed t
                then (if since_connect \<le> th_subscription_grace_seconds h then Inr (TH_WARMING, [''subscription_pending_grace''])
                      else Inr (TH_UNHEALTHY, [''subscription_grace_exceeded'']))
                else if (\<exists>p \<in> set_option (mh_last_pong_at t). th_heartbeat_timeout_seconds h < seconds_between p now)
                then Inr (TH_UNHEALTHY, [''heartbeat_timeout''])
                else if mh_last_pong_at t = None \<and> th_heartbeat_timeout_seconds h < since_connect
                then Inr (TH_UNHEALTHY, [''heartbeat_timeout_no_pong''])
                else if since_connect < th_minimum_stable_uptime_seconds h then Inr (TH_WARMING, [''transport_warming''])
                else Inr (TH_HEALTHY, []))"

definition market_data_status ::
  "health_tracker \<Rightarrow> market_session \<Rightarrow> instant \<Rightarrow> market_data_health_status \<times> rat option \<times> string list" where
  "market_data_status t s now =
     (let h = mh_thresholds t
      in if \<not> is_tradable_quote_expected s then (MD_NOT_EXPECTED, None, [])
         else case mh_last_quote_at t of
           Some q \<Rightarrow>
             let quote_age = seconds_between q now
             in if th_max_quote_age_seconds h < quote_age then (MD_STALE, Some quote_age, [''quote_stale''])
                else if th_quote_starvation_seconds h < quote_age then (MD_STARVED, Some quote_age, [''quote_starvation''])
                else (MD_HEALTHY, Some quote_age, [])
         | None \<Rightarrow> (case mh_epoch_connected_at t of
             None \<Rightarrow> (MD_UNKNOWN, None, [''quote_pending_no_connection''])
           | Some c \<Rightarrow>
               if seconds_between c now \<le> th_quote_grace_seconds h then (MD_WARMING, None, [''quote_pending_grace''])
               else (MD_STARVED, None, [''quote_starvation_no_quote''])))"

definition evaluate_health :: "health_tracker \<Rightarrow> market_session \<Rightarrow> instant \<Rightarrow> health_tracker \<times> health_verdict result" where
  "evaluate_health t s now =
     (let t' = trim_epochs t now; short = short_epochs t'
      in case transport_status t' now short of
           Inl e \<Rightarrow> (t', Inl e)
         | Inr (transport, reasons) \<Rightarrow>
             (case market_data_status t' s now of (market_data, quote_age, extra) \<Rightarrow>
               (t', Inr \<lparr>hv_transport = transport, hv_market_data = market_data, hv_session_state = se_state s,
                 hv_short_epochs_in_window = short, hv_last_quote_age_seconds = quote_age, hv_reasons = reasons @ extra\<rparr>)))"

section \<open>The gate\<close>

record execution_gate_snapshot =
  eg_market :: market
  eg_evaluated_at :: instant
  eg_session :: market_session
  eg_health :: health_verdict

text \<open>
  \<open>evaluate_gate\<close> is \<^verbatim>\<open>SessionHealthExecutionGate.evaluate\<close> over any calendar; an
  exception of the calendar or of the tracker is \<open>None\<close>, which \<^verbatim>\<open>evaluate_gate_safe\<close>
  turns into a reason.
\<close>

definition evaluate_gate ::
  "(market \<Rightarrow> instant \<Rightarrow> session_error + market_session) \<Rightarrow> health_tracker \<Rightarrow> market \<Rightarrow> instant \<Rightarrow>
   health_tracker \<times> execution_gate_snapshot option" where
  "evaluate_gate session_at t m now =
     (case session_at m now of
        Inl _ \<Rightarrow> (t, None)
      | Inr s \<Rightarrow>
          (case evaluate_health t s now of
             (t', Inl _) \<Rightarrow> (t', None)
           | (t', Inr v) \<Rightarrow> (t', Some \<lparr>eg_market = m, eg_evaluated_at = now, eg_session = s, eg_health = v\<rparr>)))"

definition REASON_GATE_PROVIDER_ERROR :: string where
  "REASON_GATE_PROVIDER_ERROR = ''gate_provider_error''"

definition evaluate_gate_safe :: "execution_gate_snapshot option \<Rightarrow> string + execution_gate_snapshot" where
  "evaluate_gate_safe g = (case g of None \<Rightarrow> Inl REASON_GATE_PROVIDER_ERROR | Some snap \<Rightarrow> Inr snap)"

definition gate_execution_reason :: "execution_gate_snapshot \<Rightarrow> market \<Rightarrow> instant \<Rightarrow> string option" where
  "gate_execution_reason g m applied_at =
     (if eg_market g \<noteq> m then Some ''gate_market_mismatch''
      else if eg_evaluated_at g \<noteq> applied_at then Some ''gate_as_of_mismatch''
      else if se_state (eg_session g) \<noteq> MS_OPEN then Some ''held_session''
      else if \<not> is_execution_ready (eg_health g) then Some ''held_health''
      else None)"

section \<open>Calendars\<close>

text \<open>
  What the gate and the schedulers rely on: a session names the market and instant it was asked
  for, and a market is open on trading days only.
\<close>

locale market_calendar =
  fixes session_at :: "market \<Rightarrow> instant \<Rightarrow> session_error + market_session"
    and is_trading_day :: "market \<Rightarrow> int \<Rightarrow> bool"
    and tz :: zone
  assumes session_identity: "session_at m i = Inr s \<Longrightarrow> se_market s = m \<and> se_as_of s = i"
    and open_on_trading_day: "session_at m i = Inr s \<Longrightarrow> se_state s = MS_OPEN \<Longrightarrow> is_trading_day m (local_date tz i)"
begin

lemma gate_passes:
  assumes "evaluate_gate session_at t m now = (t', Some g)" and "gate_execution_reason g m' applied_at = None"
  shows "m' = m \<and> applied_at = now \<and> is_open (eg_session g) \<and> se_market (eg_session g) = m \<and>
    se_as_of (eg_session g) = now \<and> is_trading_day m (local_date tz now) \<and> is_execution_ready (eg_health g)"
  using assms session_identity open_on_trading_day
  by (auto simp: evaluate_gate_def gate_execution_reason_def is_open_def split: sum.splits prod.splits if_splits)

end

lemma state_open_iff: "mk_SessionWindow w = Inr w' \<Longrightarrow> state_from_window w t = MS_OPEN \<longleftrightarrow> sw_open w \<le> t \<and> t < sw_close w"
  by (auto simp: mk_SessionWindow_def state_from_window_def split: if_splits)

interpretation explicit: market_calendar "schedule_session_at c" "schedule_is_trading_day c" "xs_timezone c" for c
  by unfold_locales
    (auto simp: schedule_session_at_def schedule_is_trading_day_def Let_def split: option.splits if_splits)

interpretation fixture: market_calendar "fixture_session_at c" "fixture_is_trading_day c" "fc_timezone c" for c
  by unfold_locales (auto simp: fixture_session_at_def Let_def rbind_Inr_iff split: if_splits)

lemma schedule_of_spec:
  "schedule_of w half_days days acc = Inr s \<Longrightarrow>
     s d = (if d \<in> set days then (case window_for_day w d half_days of Inl _ \<Rightarrow> None | Inr dw \<Rightarrow> Some dw) else acc d)"
proof (induction days arbitrary: acc)
  case (Cons day days)
  then obtain dw where dw: "window_for_day w day half_days = Inr dw" "schedule_of w half_days days (acc(day \<mapsto> dw)) = Inr s"
    by (auto simp: rbind_Inr_iff)
  show ?case using Cons.IH [OF dw(2)] dw(1) by auto
qed simp

lemma schedule_of_windows:
  "schedule_of w half_days days acc = Inr s \<Longrightarrow> d \<in> set days \<Longrightarrow> \<exists>dw. window_for_day w d half_days = Inr dw"
  by (induction days arbitrary: acc) (auto simp: rbind_Inr_iff)

text \<open>On the days it was built from, the explicit schedule answers like the calendar of rules.\<close>

lemma explicit_schedule_agrees:
  assumes "build_explicit_schedule (fc_timezone c) days (fc_window c) (fc_half_days c) = Inr x"
    and "local_date (fc_timezone c) i \<in> set days" and "fixture_is_trading_day c m (local_date (fc_timezone c) i)"
  shows "schedule_session_at x m i = fixture_session_at c m i"
proof -
  obtain s where s: "schedule_of (fc_window c) (fc_half_days c) days Map.empty = Inr s"
    and x: "x = \<lparr>xs_timezone = fc_timezone c, xs_schedule = s, xs_weekend_weekdays = WEEKEND\<rparr>"
    using assms(1) by (auto simp: build_explicit_schedule_def rbind_Inr_iff)
  let ?d = "local_date (fc_timezone c) i"
  obtain dw where "window_for_day (fc_window c) ?d (fc_half_days c) = Inr dw"
    using schedule_of_windows [OF s assms(2)] by blast
  then show ?thesis using schedule_of_spec [OF s, of ?d] assms(2,3)
    by (auto simp: x schedule_session_at_def fixture_session_at_def Let_def split: option.splits sum.splits)
qed

section \<open>The tracker and the signals it accepted\<close>

text \<open>
  A run of the tracker with the signals it recorded, newest first. The functions below read the
  connection off that log alone.
\<close>

datatype health_op = H_Transport string instant instant | H_Market string instant instant | H_Evaluate market_session instant

type_synonym signal_log = "(string \<times> instant) list"

fun health_step :: "health_op \<Rightarrow> health_tracker \<times> signal_log \<times> signal_log \<Rightarrow> health_tracker \<times> signal_log \<times> signal_log" where
  "health_step (H_Transport kind i now) (t, L, M) =
     (case record_transport_event t kind i now of (t', res) \<Rightarrow> (t', if res = RR_RECORDED then (kind, i) # L else L, M))"
| "health_step (H_Market kind i now) (t, L, M) =
     (case record_market_event t kind i now of (t', res) \<Rightarrow> (t', L, if res = RR_RECORDED then (kind, i) # M else M))"
| "health_step (H_Evaluate s now) (t, L, M) = (fst (evaluate_health t s now), L, M)"

definition health_run :: "health_thresholds \<Rightarrow> health_op list \<Rightarrow> health_tracker \<times> signal_log \<times> signal_log" where
  "health_run h ops = fold health_step ops (new_tracker h, [], [])"

fun epoch_start :: "signal_log \<Rightarrow> instant option" where
  "epoch_start [] = None"
| "epoch_start ((k, i) # L) = (if k = ''connected'' then Some i else if k = ''disconnect'' then None else epoch_start L)"

fun epoch_subscribed :: "signal_log \<Rightarrow> bool" where
  "epoch_subscribed [] = False"
| "epoch_subscribed ((k, i) # L) =
     (if k \<in> {''connected'', ''disconnect''} then False else k = ''all_subscribed'' \<or> epoch_subscribed L)"

fun epoch_pong :: "signal_log \<Rightarrow> instant option" where
  "epoch_pong [] = None"
| "epoch_pong ((k, i) # L) =
     (if k = ''connected'' then None else if k \<in> {''ping_received'', ''pong_sent''} then Some i else epoch_pong L)"

fun log_quote :: "signal_log \<Rightarrow> instant option" where
  "log_quote [] = None"
| "log_quote ((k, i) # M) = (if k = ''best_bid_ask'' then Some i else log_quote M)"

definition newest :: "signal_log \<Rightarrow> instant option" where
  "newest L = (case L of [] \<Rightarrow> None | e # _ \<Rightarrow> Some (snd e))"

definition tracks :: "health_tracker \<Rightarrow> signal_log \<Rightarrow> signal_log \<Rightarrow> bool" where
  "tracks t L M \<longleftrightarrow>
     mh_epoch_connected_at t = epoch_start L \<and> mh_connected t = (epoch_start L \<noteq> None) \<and>
     mh_all_subscribed t = epoch_subscribed L \<and> mh_last_pong_at t = epoch_pong L \<and> mh_last_quote_at t = log_quote M \<and>
     mh_last_transport_at t = newest L \<and>
     mh_last_market_at t = newest M \<and>
     sorted_wrt (\<lambda>a b. snd b \<le> snd a) L \<and> sorted_wrt (\<lambda>a b. snd b \<le> snd a) M \<and>
     length (mh_completed_epochs t) \<le> MAX_EPOCH_HISTORY"

lemma finalize_epoch_simps [simp]:
  "mh_epoch_connected_at (finalize_epoch t i reason) = None"
  "mh_connected (finalize_epoch t i reason) = mh_connected t"
  "mh_all_subscribed (finalize_epoch t i reason) = mh_all_subscribed t"
  "mh_last_pong_at (finalize_epoch t i reason) = mh_last_pong_at t"
  "mh_last_quote_at (finalize_epoch t i reason) = mh_last_quote_at t"
  "mh_last_transport_at (finalize_epoch t i reason) = mh_last_transport_at t"
  "mh_last_market_at (finalize_epoch t i reason) = mh_last_market_at t"
  "mh_thresholds (finalize_epoch t i reason) = mh_thresholds t"
  by (simp_all add: finalize_epoch_def Let_def split: option.splits)

lemma finalize_epoch_bounded:
  "length (mh_completed_epochs t) \<le> MAX_EPOCH_HISTORY \<Longrightarrow>
   length (mh_completed_epochs (finalize_epoch t i reason)) \<le> MAX_EPOCH_HISTORY"
  by (auto simp: finalize_epoch_def Let_def split: option.splits)

lemma begin_epoch_simps [simp]:
  "mh_epoch_connected_at (begin_epoch t i) = Some i" "mh_connected (begin_epoch t i)"
  "\<not> mh_all_subscribed (begin_epoch t i)" "mh_last_pong_at (begin_epoch t i) = None"
  "mh_last_quote_at (begin_epoch t i) = mh_last_quote_at t" "mh_last_market_at (begin_epoch t i) = mh_last_market_at t"
  "mh_completed_epochs (begin_epoch t i) = mh_completed_epochs t" "mh_thresholds (begin_epoch t i) = mh_thresholds t"
  by (simp_all add: begin_epoch_def)

lemma newest_dominates:
  assumes "sorted_wrt (\<lambda>a b. snd b \<le> snd a) L" and "\<not> (\<exists>l \<in> set_option (newest L). i < l)"
  shows "sorted_wrt (\<lambda>a b. snd b \<le> snd a) ((k, i) # L)" and "newest ((k, i) # L) = Some i"
  using assms by (cases L; fastforce simp: newest_def)+

text \<open>What recording a transport signal does, by its kind.\<close>

lemma record_transport_recorded:
  assumes "record_transport_event t kind i now = (t', RR_RECORDED)"
  obtains (connected) u where "kind = ''connected''" "t' = (begin_epoch u i)\<lparr>mh_last_transport_at := Some i\<rparr>"
      "u = t \<or> (\<exists>r. u = finalize_epoch t i r)"
  | (subscribed) "kind = ''all_subscribed''" "mh_connected t" "t' = t\<lparr>mh_all_subscribed := True, mh_last_transport_at := Some i\<rparr>"
  | (disconnect) "kind = ''disconnect''" "mh_connected t"
      "t' = (finalize_epoch t i ''disconnect'')\<lparr>mh_connected := False, mh_all_subscribed := False, mh_last_transport_at := Some i\<rparr>"
  | (pong) "kind \<in> {''ping_received'', ''pong_sent''}" "mh_connected t" "t' = t\<lparr>mh_last_pong_at := Some i, mh_last_transport_at := Some i\<rparr>"
  using assms unfolding record_transport_event_def Let_def TRANSPORT_KINDS_def
  by (simp split: if_splits) (metis)+

lemma record_transport_rejected:
  "record_transport_event t kind i now = (t', res) \<Longrightarrow> res \<noteq> RR_RECORDED \<Longrightarrow> t' = t"
  by (auto simp: record_transport_event_def Let_def split: if_splits)

lemma record_transport_in_order:
  "record_transport_event t kind i now = (t', RR_RECORDED) \<Longrightarrow> \<not> (\<exists>l \<in> set_option (mh_last_transport_at t). i < l) \<and> i \<le> now"
  by (auto simp: record_transport_event_def Let_def split: if_splits)

lemma record_transport_tracks:
  assumes tr: "tracks t L M" and rec: "record_transport_event t kind i now = (t', res)"
  shows "tracks t' (if res = RR_RECORDED then (kind, i) # L else L) M \<and> mh_thresholds t' = mh_thresholds t"
proof (cases "res = RR_RECORDED")
  case True
  note ord = newest_dominates [of L i kind]
  have L: "sorted_wrt (\<lambda>a b. snd b \<le> snd a) ((kind, i) # L)" "newest ((kind, i) # L) = Some i"
    using ord record_transport_in_order [OF rec [unfolded True]] tr by (simp_all add: tracks_def)
  from rec [unfolded True] show ?thesis
  proof (cases rule: record_transport_recorded)
    case (connected u)
    then show ?thesis using tr L True by (auto simp: tracks_def finalize_epoch_bounded)
  next
    case subscribed
    then show ?thesis using tr L True by (simp add: tracks_def)
  next
    case disconnect
    then show ?thesis using tr L True by (simp add: tracks_def finalize_epoch_bounded)
  next
    case pong
    then show ?thesis using tr L True by (auto simp: tracks_def)
  qed
qed (use record_transport_rejected [OF rec] tr in simp)

lemma record_market_tracks:
  assumes tr: "tracks t L M" and rec: "record_market_event t kind i now = (t', res)"
  shows "tracks t' L (if res = RR_RECORDED then (kind, i) # M else M) \<and> mh_thresholds t' = mh_thresholds t"
proof (cases "res = RR_RECORDED")
  case True
  then have ok: "\<not> (\<exists>l \<in> set_option (newest M). i < l)"
    using rec tr by (auto simp: record_market_event_def tracks_def split: if_splits)
  show ?thesis
    using newest_dominates [OF _ ok, of kind] rec tr True
    by (auto simp: record_market_event_def tracks_def split: if_splits)
qed (use rec tr in \<open>auto simp: record_market_event_def split: if_splits\<close>)

lemma evaluate_health_tracker: "fst (evaluate_health t s now) = trim_epochs t now"
  by (auto simp: evaluate_health_def Let_def split: sum.splits prod.splits)

lemma trim_epochs_tracks: "tracks t L M \<Longrightarrow> tracks (trim_epochs t now) L M"
  by (auto simp: tracks_def trim_epochs_def Let_def intro: order_trans [OF length_dropWhile_le])

lemma trim_epochs_thresholds [simp]: "mh_thresholds (trim_epochs t now) = mh_thresholds t"
  by (simp add: trim_epochs_def Let_def)

lemma health_step_tracks:
  assumes "health_step op (t0, L0, M0) = (t1, L1, M1)" and "tracks t0 L0 M0"
  shows "tracks t1 L1 M1 \<and> mh_thresholds t1 = mh_thresholds t0"
proof (cases op)
  case (H_Transport k i now)
  obtain u res where u: "record_transport_event t0 k i now = (u, res)" by fastforce
  then have "t1 = u" "L1 = (if res = RR_RECORDED then (k, i) # L0 else L0)" "M1 = M0"
    using assms(1) H_Transport by simp_all
  then show ?thesis using record_transport_tracks [OF assms(2) u] by simp
next
  case (H_Market k i now)
  obtain u res where u: "record_market_event t0 k i now = (u, res)" by fastforce
  then have "t1 = u" "M1 = (if res = RR_RECORDED then (k, i) # M0 else M0)" "L1 = L0"
    using assms(1) H_Market by simp_all
  then show ?thesis using record_market_tracks [OF assms(2) u] by simp
next
  case (H_Evaluate s now)
  then have "t1 = trim_epochs t0 now" "L1 = L0" "M1 = M0" using assms(1) by (simp_all add: evaluate_health_tracker)
  then show ?thesis using trim_epochs_tracks [OF assms(2)] by simp
qed

lemma health_fold_tracks:
  "fold health_step ops (t0, L0, M0) = (t, L, M) \<Longrightarrow> tracks t0 L0 M0 \<Longrightarrow> tracks t L M \<and> mh_thresholds t = mh_thresholds t0"
proof (induction ops arbitrary: t0 L0 M0)
  case (Cons op ops)
  obtain t1 L1 M1 where st: "health_step op (t0, L0, M0) = (t1, L1, M1)" by (rule prod_cases3)
  show ?case using Cons.IH [of t1 L1 M1] Cons.prems(1) health_step_tracks [OF st Cons.prems(2)] st by simp
qed simp

lemma health_run_tracks:
  assumes "health_run h ops = (t, L, M)"
  shows "tracks t L M" and "mh_thresholds t = h"
  using health_fold_tracks [OF assms [unfolded health_run_def]]
  by (simp_all add: tracks_def new_tracker_def newest_def)

lemma transport_status_total:
  assumes "tracks t L M"
  shows "\<exists>y. transport_status t now n = Inr y"
proof -
  have "mh_connected t = (mh_epoch_connected_at t \<noteq> None)" using assms by (simp add: tracks_def)
  then show ?thesis by (cases "mh_epoch_connected_at t") (simp_all add: transport_status_def Let_def)
qed


definition example_signals :: "health_op list" where
  "example_signals =
     [H_Transport ''connected'' 0 0, H_Transport ''all_subscribed'' 1000000 1000000,
      H_Transport ''pong_sent'' 300000000 300000000, H_Market ''best_bid_ask'' 310000000 310000000]"


end
