(* ===== verification/Active_Decisions.thy ===== *)
theory Active_Decisions
  imports Trigger_Engine Tables
begin

text \<open>
  The store of published decisions and of the refresh slots:
  \<^verbatim>\<open>src/src/orchestration/active_decision_store.py\<close> with the loader
  \<^verbatim>\<open>src/src/market_data/decision_loader.py\<close>. The three tables are keyed row lists. Every
  operation is one transaction (\<^verbatim>\<open>BEGIN IMMEDIATE\<close>): it returns the new store, or an
  exception and the old store. Datetimes are their instants, a session date is a day number. The
  JSON codec of a bundle and the SHA-256 digests are parameters (\<open>codec\<close>); the token of a
  reservation, a random UUID in the code, is an argument. Parsing the payload of a snapshot is
  represented by its result.
\<close>

section \<open>Data\<close>

datatype store_error = PublicationError string | StoreRaised exn

datatype publication_status =
    PS_PUBLISHED | PS_IDEMPOTENT | PS_REJECTED_INVALID_BUNDLE | PS_REJECTED_CONFLICT | PS_REJECTED_OLDER
  | PS_REJECTED_EXPIRED | PS_REJECTED_RESERVATION_LOST

datatype slot_state = SL_RESERVED | SL_PUBLISHED | SL_MISSED | SL_MISSED_SESSION_CLOSED | SL_FAILED | SL_UNCERTAIN

definition TERMINAL_SLOT_STATES :: "slot_state set" where
  "TERMINAL_SLOT_STATES = {SL_PUBLISHED, SL_MISSED, SL_MISSED_SESSION_CLOSED, SL_FAILED, SL_UNCERTAIN}"

datatype slot_reservation_status = SR_RESERVED | SR_ALREADY_TERMINAL | SR_ACTIVE_ELSEWHERE | SR_DANGLING_RESERVED

record slot_reservation =
  sv_status :: slot_reservation_status
  sv_token :: "string option"
  sv_existing_state :: "slot_state option"

record decision_snapshot =
  dn_decision_id :: string
  dn_created_at :: instant
  dn_schema_name :: string
  dn_decision :: "analysis_decision option"
  dn_payload_hash :: string
  dn_passed :: bool

record publication_candidate =
  pc_snapshot :: decision_snapshot
  pc_plan :: "trigger_plan option"
  pc_valid_from :: instant
  pc_expires_at :: instant

record publication_result =
  pu_status :: publication_status
  pu_publication_id :: "string option"
  pu_reason :: "string option"

record version_row =
  vr_publication_id :: string
  vr_market :: string
  vr_symbol :: string
  vr_decision_id :: string
  vr_plan_id :: "string option"
  vr_decision_created_at :: instant
  vr_valid_from :: instant
  vr_expires_at :: instant
  vr_bundle_json :: string
  vr_bundle_hash :: string
  vr_source_payload_hash :: string
  vr_published_at :: instant

record pointer_row =
  pt_key :: "string \<times> string"
  pt_publication_id :: string
  pt_updated_at :: instant

record slot_row =
  sl_key :: "string \<times> int \<times> string"
  sl_scheduled_at :: instant
  sl_state :: slot_state
  sl_reservation_token :: "string option"
  sl_owner_id :: "string option"
  sl_reserved_at :: instant
  sl_lease_expires_at :: "instant option"
  sl_finished_at :: "instant option"
  sl_outcome :: "string option"
  sl_publication_id :: "string option"

record decision_store =
  ds_versions :: "version_row list"
  ds_pointers :: "pointer_row list"
  ds_slots :: "slot_row list"

definition empty_store :: decision_store where
  "empty_store = \<lparr>ds_versions = [], ds_pointers = [], ds_slots = []\<rparr>"

record active_bundle =
  ab_publication_id :: string
  ab_market :: string
  ab_symbol :: string
  ab_decision_id :: string
  ab_plan_id :: "string option"
  ab_decision_created_at :: instant
  ab_valid_from :: instant
  ab_expires_at :: instant
  ab_bundle :: trigger_bundle
  ab_bundle_hash :: string
  ab_source_payload_hash :: string
  ab_published_at :: instant

text \<open>
  \<open>cx_dump\<close> is \<^verbatim>\<open>_bundle_to_json\<close>, \<open>cx_hash\<close> the digest of the payload that a text
  parses to (\<open>None\<close>: not a JSON object), \<open>cx_load\<close> the models and validity restored from it,
  \<open>cx_publication\<close> the digest \<^verbatim>\<open>_publication_id\<close>.
\<close>

record codec =
  cx_dump :: "trigger_bundle \<Rightarrow> instant \<Rightarrow> instant \<Rightarrow> string"
  cx_hash :: "string \<Rightarrow> string option"
  cx_load :: "string \<Rightarrow> (trigger_bundle \<times> instant \<times> instant) option"
  cx_publication :: "string \<times> string \<times> string \<times> instant \<times> string \<Rightarrow> string"

section \<open>Publication\<close>

definition load_decision_bundle :: "decision_snapshot \<Rightarrow> trigger_plan option \<Rightarrow> string + trigger_bundle" where
  "load_decision_bundle snap plan =
     (if dn_schema_name snap \<noteq> ANALYSIS_DECISION_SCHEMA then Inl ''snapshot.schema_name must be''
      else if \<not> dn_passed snap then Inl ''snapshot.validation_result.passed must be True.''
      else case dn_decision snap of
        None \<Rightarrow> Inl ''normalized_payload is not a valid AnalysisDecision.''
      | Some d \<Rightarrow>
          if an_decision_id d \<noteq> dn_decision_id snap then Inl ''decision.decision_id must equal snapshot.decision_id.''
          else if an_created_at d \<noteq> dn_created_at snap then Inl ''decision.created_at must equal snapshot.created_at.''
          else case mk_DecisionTriggerBundle \<lparr>bn_decision = d, bn_plan = plan\<rparr> of
            Inl _ \<Rightarrow> Inl ''decision and plan are inconsistent.''
          | Inr b \<Rightarrow> Inr b)"

record prepared_publication =
  pp_market :: string
  pp_symbol :: string
  pp_decision_id :: string
  pp_decision_created_at :: instant
  pp_plan_id :: "string option"
  pp_valid_from :: instant
  pp_expires_at :: instant
  pp_bundle_json :: string
  pp_bundle_hash :: string
  pp_source_payload_hash :: string
  pp_publication_id :: string

definition rejected_invalid :: "string \<Rightarrow> publication_result" where
  "rejected_invalid reason =
     \<lparr>pu_status = PS_REJECTED_INVALID_BUNDLE, pu_publication_id = None, pu_reason = Some reason\<rparr>"

definition bundle_plan_id :: "trigger_bundle \<Rightarrow> string option" where
  "bundle_plan_id b = map_option pl_plan_id (bn_plan b)"

text \<open>The digest of a text the store has just written is that of its own payload: \<open>the\<close> is applied to it.\<close>

definition validate_and_prepare ::
  "codec \<Rightarrow> publication_candidate \<Rightarrow> string option \<Rightarrow> publication_result + prepared_publication" where
  "validate_and_prepare cx c expected_market =
     (let valid_from = pc_valid_from c; expires_at = pc_expires_at c
      in if expires_at < valid_from then Inl (rejected_invalid ''valid_from must be <= expires_at'')
         else case load_decision_bundle (pc_snapshot c) (pc_plan c) of
           Inl reason \<Rightarrow> Inl (rejected_invalid reason)
         | Inr b \<Rightarrow>
             let d = bn_decision b
             in if expected_market \<noteq> None \<and> expected_market \<noteq> Some (an_market d)
                then Inl (rejected_invalid ''decision market does not match expected market'')
                else if valid_from < an_created_at d
                then Inl (rejected_invalid ''decision.created_at must be <= valid_from'')
                else if (case bn_plan b of None \<Rightarrow> False
                         | Some p \<Rightarrow> valid_from \<noteq> pl_valid_from p \<or> expires_at \<noteq> pl_expires_at p)
                then Inl (rejected_invalid ''candidate validity must equal plan validity for BUY/SELL'')
                else
                  let bundle_json = cx_dump cx b valid_from expires_at;
                      bundle_hash = the (cx_hash cx bundle_json)
                  in Inr \<lparr>pp_market = an_market d, pp_symbol = an_symbol d, pp_decision_id = an_decision_id d,
                       pp_decision_created_at = an_created_at d, pp_plan_id = bundle_plan_id b,
                       pp_valid_from = valid_from, pp_expires_at = expires_at, pp_bundle_json = bundle_json,
                       pp_bundle_hash = bundle_hash, pp_source_payload_hash = dn_payload_hash (pc_snapshot c),
                       pp_publication_id = cx_publication cx
                         (an_market d, an_symbol d, an_decision_id d, an_created_at d, bundle_hash)\<rparr>)"

definition version_get :: "decision_store \<Rightarrow> string \<Rightarrow> version_row option" where
  "version_get s pid = tbl_get vr_publication_id pid (ds_versions s)"

definition pointer_get :: "decision_store \<Rightarrow> string \<times> string \<Rightarrow> pointer_row option" where
  "pointer_get s k = tbl_get pt_key k (ds_pointers s)"

definition corrupt_pointer :: store_error where
  "corrupt_pointer = PublicationError ''active pointer references a missing bundle version (corrupt pointer).''"

definition read_pointer_view :: "decision_store \<Rightarrow> string \<Rightarrow> string \<Rightarrow> store_error + version_row option" where
  "read_pointer_view s m sy =
     (case pointer_get s (m, sy) of
        None \<Rightarrow> Inr None
      | Some p \<Rightarrow> (case version_get s (pt_publication_id p) of
          None \<Rightarrow> Inl corrupt_pointer
        | Some v \<Rightarrow> Inr (Some v)))"

definition version_of :: "prepared_publication \<Rightarrow> instant \<Rightarrow> version_row" where
  "version_of p now =
     \<lparr>vr_publication_id = pp_publication_id p, vr_market = pp_market p, vr_symbol = pp_symbol p,
      vr_decision_id = pp_decision_id p, vr_plan_id = pp_plan_id p, vr_decision_created_at = pp_decision_created_at p,
      vr_valid_from = pp_valid_from p, vr_expires_at = pp_expires_at p, vr_bundle_json = pp_bundle_json p,
      vr_bundle_hash = pp_bundle_hash p, vr_source_payload_hash = pp_source_payload_hash p, vr_published_at = now\<rparr>"

definition publish_decision ::
  "decision_store \<Rightarrow> version_row option \<Rightarrow> prepared_publication \<Rightarrow> instant \<Rightarrow> store_error + decision_store \<times> publication_result" where
  "publish_decision s current p now =
     (let answer = (\<lambda>st pid reason. Inr (s, \<lparr>pu_status = st, pu_publication_id = pid, pu_reason = reason\<rparr>));
          insert_new =
            (if pp_expires_at p \<le> now
             then answer PS_REJECTED_EXPIRED None (Some ''candidate already expired at publish time'')
             else case tbl_insert vr_publication_id (version_of p now) (ds_versions s) of
               Inl e \<Rightarrow> Inl (StoreRaised e)
             | Inr versions \<Rightarrow>
                 Inr (s\<lparr>ds_versions := versions,
                        ds_pointers := tbl_upsert pt_key \<lparr>pt_key = (pp_market p, pp_symbol p),
                          pt_publication_id = pp_publication_id p, pt_updated_at = now\<rparr> (ds_pointers s)\<rparr>,
                      \<lparr>pu_status = PS_PUBLISHED, pu_publication_id = Some (pp_publication_id p), pu_reason = None\<rparr>))
      in case current of
           None \<Rightarrow> insert_new
         | Some v \<Rightarrow>
             let same_id = (vr_decision_id v = pp_decision_id p);
                 same_time = (vr_decision_created_at v = pp_decision_created_at p)
             in if same_id \<and> same_time
                then (if vr_bundle_hash v = pp_bundle_hash p
                      then answer PS_IDEMPOTENT (Some (vr_publication_id v)) None
                      else answer PS_REJECTED_CONFLICT (Some (vr_publication_id v)) (Some ''same identity, different content''))
                else if same_time
                then answer PS_REJECTED_CONFLICT (Some (vr_publication_id v)) (Some ''same created_at, different decision_id'')
                else if pp_decision_created_at p < vr_decision_created_at v
                then answer PS_REJECTED_OLDER (Some (vr_publication_id v)) None
                else insert_new)"

text \<open>An operation on the store: the store after it, and its answer or exception.\<close>

type_synonym 'a store_answer = "decision_store \<times> (store_error + 'a)"

definition in_transaction :: "decision_store \<Rightarrow> (store_error + decision_store \<times> 'a) \<Rightarrow> 'a store_answer" where
  "in_transaction s body = (case body of Inl e \<Rightarrow> (s, Inl e) | Inr (s', x) \<Rightarrow> (s', Inr x))"

definition publish :: "codec \<Rightarrow> decision_store \<Rightarrow> publication_candidate \<Rightarrow> instant \<Rightarrow> string option \<Rightarrow> publication_result store_answer" where
  "publish cx s c now expected_market =
     (case validate_and_prepare cx c expected_market of
        Inl rejected \<Rightarrow> (s, Inr rejected)
      | Inr p \<Rightarrow> in_transaction s
          (rbind (read_pointer_view s (pp_market p) (pp_symbol p)) (\<lambda>current. publish_decision s current p now)))"

section \<open>Slots\<close>

type_synonym slot_key = "string \<times> int \<times> string"

definition slot_get :: "decision_store \<Rightarrow> slot_key \<Rightarrow> slot_row option" where
  "slot_get s k = tbl_get sl_key k (ds_slots s)"

definition reservation_held :: "slot_row option \<Rightarrow> string \<Rightarrow> instant \<Rightarrow> bool" where
  "reservation_held row token now =
     (case row of None \<Rightarrow> False
      | Some r \<Rightarrow> sl_state r = SL_RESERVED \<and> sl_reservation_token r = Some token \<and>
          (case sl_lease_expires_at r of None \<Rightarrow> False | Some lease \<Rightarrow> now < lease))"

text \<open>
  The guarded \<^verbatim>\<open>UPDATE\<close> that ends a slot: the rows it applies to, the store after it and
  the number of rows changed.
\<close>

definition slot_owned :: "slot_key \<Rightarrow> string \<Rightarrow> slot_row \<Rightarrow> bool" where
  "slot_owned k token r \<longleftrightarrow> sl_key r = k \<and> sl_state r = SL_RESERVED \<and> sl_reservation_token r = Some token"

definition slot_closed :: "slot_state \<Rightarrow> instant \<Rightarrow> string option \<Rightarrow> string option \<Rightarrow> slot_row \<Rightarrow> slot_row" where
  "slot_closed st now outc pid r =
     r\<lparr>sl_state := st, sl_finished_at := Some now, sl_outcome := outc, sl_publication_id := pid\<rparr>"

definition update_slots :: "(slot_row \<Rightarrow> bool) \<Rightarrow> (slot_row \<Rightarrow> slot_row) \<Rightarrow> decision_store \<Rightarrow> decision_store \<times> nat" where
  "update_slots P f s =
     (s\<lparr>ds_slots := map (\<lambda>r. if P r then f r else r) (ds_slots s)\<rparr>, length (filter P (ds_slots s)))"

definition finalize_slot_in_tx ::
  "decision_store \<Rightarrow> slot_key \<Rightarrow> string \<Rightarrow> slot_state \<Rightarrow> instant \<Rightarrow> string option \<Rightarrow> string option \<Rightarrow> store_error + decision_store" where
  "finalize_slot_in_tx s k token st now outc pid =
     (case update_slots (slot_owned k token) (slot_closed st now outc pid) s of
        (s', n) \<Rightarrow> if n \<noteq> 1
                   then Inl (PublicationError ''reserved slot disappeared mid-transaction (reservation invariant broken).'')
                   else Inr s')"

definition publication_status_str :: "publication_status \<Rightarrow> string" where
  "publication_status_str st =
     (case st of PS_PUBLISHED \<Rightarrow> ''published'' | PS_IDEMPOTENT \<Rightarrow> ''idempotent''
      | PS_REJECTED_INVALID_BUNDLE \<Rightarrow> ''rejected_invalid_bundle'' | PS_REJECTED_CONFLICT \<Rightarrow> ''rejected_conflict''
      | PS_REJECTED_OLDER \<Rightarrow> ''rejected_older'' | PS_REJECTED_EXPIRED \<Rightarrow> ''rejected_expired''
      | PS_REJECTED_RESERVATION_LOST \<Rightarrow> ''rejected_reservation_lost'')"

definition reservation_lost :: publication_result where
  "reservation_lost = \<lparr>pu_status = PS_REJECTED_RESERVATION_LOST, pu_publication_id = None,
     pu_reason = Some ''slot reservation lost (state/token/lease changed).''\<rparr>"

definition publish_reserved_slot ::
  "codec \<Rightarrow> decision_store \<Rightarrow> publication_candidate \<Rightarrow> instant \<Rightarrow> slot_key \<Rightarrow> string \<Rightarrow> string option \<Rightarrow> publication_result store_answer" where
  "publish_reserved_slot cx s c now k token expected_market =
     (let prepared = validate_and_prepare cx c expected_market
      in if \<not> reservation_held (slot_get s k) token now then (s, Inr reservation_lost)
         else in_transaction s
           (case prepared of
              Inl rejected \<Rightarrow>
                rbind (finalize_slot_in_tx s k token SL_FAILED now
                         (Some (publication_status_str (pu_status rejected))) (pu_publication_id rejected))
                  (\<lambda>s'. Inr (s', rejected))
            | Inr p \<Rightarrow>
                rbind (read_pointer_view s (pp_market p) (pp_symbol p)) (\<lambda>current.
                rbind (publish_decision s current p now) (\<lambda>(s1, res).
                rbind (finalize_slot_in_tx s1 k token
                         (if pu_status res \<in> {PS_PUBLISHED, PS_IDEMPOTENT} then SL_PUBLISHED else SL_FAILED) now
                         (Some (publication_status_str (pu_status res))) (pu_publication_id res))
                  (\<lambda>s2. Inr (s2, res))))))"

definition reserve_slot ::
  "decision_store \<Rightarrow> slot_key \<Rightarrow> instant \<Rightarrow> string \<Rightarrow> instant \<Rightarrow> int \<Rightarrow> string \<Rightarrow> slot_reservation store_answer" where
  "reserve_slot s k scheduled_at owner_id now lease_us token =
     in_transaction s
       (case slot_get s k of
          Some r \<Rightarrow>
            Inr (s, \<lparr>sv_status =
                       (if sl_state r \<noteq> SL_RESERVED then SR_ALREADY_TERMINAL
                        else (case sl_lease_expires_at r of
                                None \<Rightarrow> SR_DANGLING_RESERVED
                              | Some lease \<Rightarrow> if now < lease then SR_ACTIVE_ELSEWHERE else SR_DANGLING_RESERVED)),
                     sv_token = None, sv_existing_state = Some (sl_state r)\<rparr>)
        | None \<Rightarrow>
            (case tbl_insert sl_key
                    \<lparr>sl_key = k, sl_scheduled_at = scheduled_at, sl_state = SL_RESERVED, sl_reservation_token = Some token,
                     sl_owner_id = Some owner_id, sl_reserved_at = now, sl_lease_expires_at = Some (now + lease_us),
                     sl_finished_at = None, sl_outcome = None, sl_publication_id = None\<rparr> (ds_slots s) of
               Inl e \<Rightarrow> Inl (StoreRaised e)
             | Inr slots \<Rightarrow> Inr (s\<lparr>ds_slots := slots\<rparr>,
                 \<lparr>sv_status = SR_RESERVED, sv_token = Some token, sv_existing_state = None\<rparr>)))"

definition complete_slot ::
  "decision_store \<Rightarrow> slot_key \<Rightarrow> slot_state \<Rightarrow> string \<Rightarrow> instant \<Rightarrow> string option \<Rightarrow> string option \<Rightarrow> bool store_answer" where
  "complete_slot s k st token now outc pid =
     (if st \<notin> TERMINAL_SLOT_STATES then (s, Inl (PublicationError ''complete_slot state must be terminal''))
      else case update_slots (slot_owned k token) (slot_closed st now outc pid) s of
        (s', n) \<Rightarrow> (s', Inr (n = 1)))"

definition mark_unreserved_terminal ::
  "decision_store \<Rightarrow> slot_key \<Rightarrow> instant \<Rightarrow> slot_state \<Rightarrow> instant \<Rightarrow> string option \<Rightarrow> bool store_answer" where
  "mark_unreserved_terminal s k scheduled_at st now outc =
     (if st \<notin> {SL_MISSED, SL_MISSED_SESSION_CLOSED}
      then (s, Inl (PublicationError ''mark_unreserved_terminal state must be a missed state''))
      else case tbl_insert sl_key
                  \<lparr>sl_key = k, sl_scheduled_at = scheduled_at, sl_state = st, sl_reservation_token = None,
                   sl_owner_id = None, sl_reserved_at = now, sl_lease_expires_at = None,
                   sl_finished_at = Some now, sl_outcome = outc, sl_publication_id = None\<rparr> (ds_slots s) of
        Inl _ \<Rightarrow> (s, Inr False)
      | Inr slots \<Rightarrow> (s\<lparr>ds_slots := slots\<rparr>, Inr True))"

definition session_slots :: "decision_store \<Rightarrow> string \<Rightarrow> int \<Rightarrow> slot_row list" where
  "session_slots s m sd = filter (\<lambda>r. fst (sl_key r) = m \<and> fst (snd (sl_key r)) = sd) (ds_slots s)"

definition slot_id_of :: "slot_row \<Rightarrow> string" where
  "slot_id_of r = snd (snd (sl_key r))"

definition lease_expired :: "slot_row \<Rightarrow> instant \<Rightarrow> bool" where
  "lease_expired r now = (case sl_lease_expires_at r of None \<Rightarrow> False | Some lease \<Rightarrow> lease \<le> now)"

definition expired_reservations :: "decision_store \<Rightarrow> string \<Rightarrow> int \<Rightarrow> instant \<Rightarrow> (string \<times> instant) list" where
  "expired_reservations s m sd now =
     map (\<lambda>r. (slot_id_of r, sl_scheduled_at r))
       (filter (\<lambda>r. lease_expired r now) (filter (\<lambda>r. sl_state r = SL_RESERVED) (session_slots s m sd)))"

definition reconcile_expired_reservation ::
  "decision_store \<Rightarrow> slot_key \<Rightarrow> instant \<Rightarrow> string option \<Rightarrow> bool store_answer" where
  "reconcile_expired_reservation s k now outc =
     (case slot_get s k of
        None \<Rightarrow> (s, Inr False)
      | Some r \<Rightarrow>
          if sl_state r \<noteq> SL_RESERVED \<or> \<not> lease_expired r now then (s, Inr False)
          else (fst (update_slots (\<lambda>r. sl_key r = k \<and> sl_state r = SL_RESERVED)
                  (\<lambda>r. r\<lparr>sl_state := SL_UNCERTAIN, sl_finished_at := Some now, sl_outcome := outc\<rparr>) s), Inr True))"

definition slot_states :: "decision_store \<Rightarrow> string \<Rightarrow> int \<Rightarrow> (string \<rightharpoonup> slot_state)" where
  "slot_states s m sd = map_of (rev (map (\<lambda>r. (slot_id_of r, sl_state r)) (session_slots s m sd)))"

section \<open>Reading\<close>

definition row_to_active_bundle :: "codec \<Rightarrow> version_row \<Rightarrow> store_error + active_bundle" where
  "row_to_active_bundle cx v =
     (case cx_hash cx (vr_bundle_json v) of
        None \<Rightarrow> Inl (PublicationError ''stored bundle_json must be a JSON object.'')
      | Some h \<Rightarrow>
          if h \<noteq> vr_bundle_hash v then Inl (PublicationError ''stored bundle_hash does not match the stored payload.'')
          else case cx_load cx (vr_bundle_json v) of
            None \<Rightarrow> Inl (PublicationError ''stored bundle could not be deserialized into a valid DecisionTriggerBundle.'')
          | Some (b, valid_from, expires_at) \<Rightarrow>
              if cx_publication cx (vr_market v, vr_symbol v, vr_decision_id v, vr_decision_created_at v, vr_bundle_hash v)
                   \<noteq> vr_publication_id v
              then Inl (PublicationError ''stored publication_id does not match recomputed id.'')
              else if valid_from \<noteq> vr_valid_from v \<or> expires_at \<noteq> vr_expires_at v
              then Inl (PublicationError ''stored payload validity does not match stored columns.'')
              else if an_market (bn_decision b) \<noteq> vr_market v \<or> an_symbol (bn_decision b) \<noteq> vr_symbol v \<or>
                      an_decision_id (bn_decision b) \<noteq> vr_decision_id v \<or> bundle_plan_id b \<noteq> vr_plan_id v \<or>
                      an_created_at (bn_decision b) \<noteq> vr_decision_created_at v
              then Inl (PublicationError ''stored row identity does not match bundle identity.'')
              else Inr \<lparr>ab_publication_id = vr_publication_id v, ab_market = vr_market v, ab_symbol = vr_symbol v,
                ab_decision_id = vr_decision_id v, ab_plan_id = vr_plan_id v,
                ab_decision_created_at = vr_decision_created_at v, ab_valid_from = vr_valid_from v,
                ab_expires_at = vr_expires_at v, ab_bundle = b, ab_bundle_hash = vr_bundle_hash v,
                ab_source_payload_hash = vr_source_payload_hash v, ab_published_at = vr_published_at v\<rparr>)"

definition read_active :: "codec \<Rightarrow> decision_store \<Rightarrow> string \<Rightarrow> string \<Rightarrow> store_error + active_bundle option" where
  "read_active cx s m sy =
     (case pointer_get s (m, sy) of
        None \<Rightarrow> Inr None
      | Some p \<Rightarrow> (case version_get s (pt_publication_id p) of
          None \<Rightarrow> Inl corrupt_pointer
        | Some v \<Rightarrow> rbind (row_to_active_bundle cx v) (\<lambda>b. Inr (Some b))))"

text \<open>
  The history is ordered by the stored text of \<^verbatim>\<open>published_at\<close>; \<open>isoformat\<close> is
  \<^verbatim>\<open>isoformat\<close> in the zone of the writer.
\<close>

definition list_history :: "codec \<Rightarrow> (instant \<Rightarrow> string) \<Rightarrow> decision_store \<Rightarrow> string \<Rightarrow> string \<Rightarrow> store_error + active_bundle list" where
  "list_history cx isoformat s m sy =
     traverse (row_to_active_bundle cx)
       (sort_key (\<lambda>v. (isoformat (vr_published_at v), vr_publication_id v))
         (filter (\<lambda>v. vr_market v = m \<and> vr_symbol v = sy) (ds_versions s)))"

section \<open>Lemmas on the slots\<close>

lemma slot_get_update_slots:
  assumes "\<And>r. sl_key (f r) = sl_key r"
  shows "slot_get (fst (update_slots P f s)) k = map_option (\<lambda>r. if P r then f r else r) (slot_get s k)"
proof -
  have "tbl_get sl_key k (map (\<lambda>r. if P r then f r else r) rows) =
      map_option (\<lambda>r. if P r then f r else r) (tbl_get sl_key k rows)" for rows
    by (induction rows) (auto simp: assms)
  then show ?thesis by (simp add: slot_get_def update_slots_def)
qed

lemma keyed_update_slots:
  assumes "\<And>r. sl_key (f r) = sl_key r" and "tbl_keyed sl_key (ds_slots s)"
  shows "tbl_keyed sl_key (ds_slots (fst (update_slots P f s)))"
proof -
  have "sl_key \<circ> (\<lambda>r. if P r then f r else r) = sl_key" by (auto simp: assms)
  with assms(2) show ?thesis by (simp add: tbl_keyed_def update_slots_def)
qed

lemma update_slots_rest [simp]:
  "ds_versions (fst (update_slots P f s)) = ds_versions s"
  "ds_pointers (fst (update_slots P f s)) = ds_pointers s"
  by (simp_all add: update_slots_def)

lemma slot_closed_key [simp]: "sl_key (slot_closed st now outc pid r) = sl_key r"
  by (simp add: slot_closed_def)

lemma reservation_held_iff:
  "reservation_held row token now \<longleftrightarrow>
     (\<exists>r lease. row = Some r \<and> sl_state r = SL_RESERVED \<and> sl_reservation_token r = Some token \<and>
        sl_lease_expires_at r = Some lease \<and> now < lease)"
  by (auto simp: reservation_held_def split: option.splits)

lemma tbl_keyed_filter_one:
  assumes "tbl_keyed key rows" and "tbl_get key k rows = Some r" and "P r" and "\<And>x. P x \<Longrightarrow> key x = k"
  shows "filter P rows = [r]"
  using assms(1,2)
proof (induction rows)
  case (Cons x rows)
  show ?case
  proof (cases "key x = k")
    case True
    then have "x = r" using Cons.prems by simp
    moreover have "k \<notin> key ` set rows" using Cons.prems(1) True by (auto simp: tbl_keyed_def)
    then have "filter P rows = []" using assms(4) by (force simp: filter_empty_conv)
    ultimately show ?thesis using assms(3) by simp
  next
    case False
    then show ?thesis using Cons assms(4) by (auto simp: tbl_keyed_def)
  qed
qed simp

lemma finalize_slot_owned:
  assumes "tbl_keyed sl_key (ds_slots s)" and "slot_get s k = Some r" and "slot_owned k token r"
  shows "finalize_slot_in_tx s k token st now outc pid =
    Inr (fst (update_slots (slot_owned k token) (slot_closed st now outc pid) s))"
proof -
  have "filter (slot_owned k token) (ds_slots s) = [r]"
    using assms by (intro tbl_keyed_filter_one [of sl_key _ k]) (auto simp: slot_get_def slot_owned_def)
  then show ?thesis by (simp add: finalize_slot_in_tx_def update_slots_def)
qed

lemma finalize_slot_Inr:
  "finalize_slot_in_tx s k token st now outc pid = Inr s' \<Longrightarrow>
     s' = fst (update_slots (slot_owned k token) (slot_closed st now outc pid) s)"
  by (auto simp: finalize_slot_in_tx_def update_slots_def split: if_splits)

section \<open>The store over time\<close>

definition version_active :: "decision_store \<Rightarrow> string \<times> string \<Rightarrow> version_row option" where
  "version_active s k = Option.bind (pointer_get s k) (\<lambda>p. version_get s (pt_publication_id p))"

definition vr_key :: "version_row \<Rightarrow> string \<times> string" where
  "vr_key v = (vr_market v, vr_symbol v)"

definition store_wf :: "decision_store \<Rightarrow> bool" where
  "store_wf s \<longleftrightarrow>
     tbl_keyed vr_publication_id (ds_versions s) \<and> tbl_keyed pt_key (ds_pointers s) \<and> tbl_keyed sl_key (ds_slots s) \<and>
     (\<forall>p \<in> set (ds_pointers s). \<exists>v. version_get s (pt_publication_id p) = Some v \<and> vr_key v = pt_key p) \<and>
     (\<forall>v \<in> set (ds_versions s). \<exists>a. version_active s (vr_key v) = Some a \<and>
        vr_decision_created_at v \<le> vr_decision_created_at a)"

text \<open>A slot row after an operation: the same, or a reservation that was closed in a terminal state.\<close>

definition slot_follows :: "slot_row \<Rightarrow> slot_row \<Rightarrow> bool" where
  "slot_follows r r' \<longleftrightarrow> r' = r \<or>
     sl_state r = SL_RESERVED \<and>
     (\<exists>st now outc pid. st \<in> TERMINAL_SLOT_STATES \<and> r' = slot_closed st now outc pid r)"

definition store_evolves :: "decision_store \<Rightarrow> decision_store \<Rightarrow> bool" where
  "store_evolves s s' \<longleftrightarrow>
     (\<exists>vs. ds_versions s' = ds_versions s @ vs) \<and>
     (\<forall>k v. version_active s k = Some v \<longrightarrow>
        (\<exists>v'. version_active s' k = Some v' \<and> (v' = v \<or> vr_decision_created_at v < vr_decision_created_at v'))) \<and>
     (\<forall>k r. slot_get s k = Some r \<longrightarrow> (\<exists>r'. slot_get s' k = Some r' \<and> slot_follows r r'))"

inductive store_step :: "codec \<Rightarrow> decision_store \<Rightarrow> decision_store \<Rightarrow> bool" for cx where
  step_publish: "publish cx s c now m = (s', a) \<Longrightarrow> store_step cx s s'"
| step_publish_slot: "publish_reserved_slot cx s c now k token m = (s', a) \<Longrightarrow> store_step cx s s'"
| step_reserve: "reserve_slot s k scheduled_at owner now lease_us token = (s', b) \<Longrightarrow> store_step cx s s'"
| step_complete: "complete_slot s k st token now outc pid = (s', d) \<Longrightarrow> store_step cx s s'"
| step_missed: "mark_unreserved_terminal s k scheduled_at st now outc = (s', d) \<Longrightarrow> store_step cx s s'"
| step_reconcile: "reconcile_expired_reservation s k now outc = (s', d) \<Longrightarrow> store_step cx s s'"

inductive store_reaches :: "codec \<Rightarrow> decision_store \<Rightarrow> decision_store \<Rightarrow> bool" for cx where
  reaches_refl: "store_reaches cx s s"
| reaches_step: "store_reaches cx s s' \<Longrightarrow> store_step cx s' s'' \<Longrightarrow> store_reaches cx s s''"

lemma slot_follows_refl [simp]: "slot_follows r r"
  by (simp add: slot_follows_def)

lemma slot_closed_state [simp]: "sl_state (slot_closed st now outc pid r) = st"
  by (simp add: slot_closed_def)

lemma reserved_not_terminal: "SL_RESERVED \<notin> TERMINAL_SLOT_STATES"
  by (simp add: TERMINAL_SLOT_STATES_def)

lemma slot_follows_trans: "slot_follows r r' \<Longrightarrow> slot_follows r' r'' \<Longrightarrow> slot_follows r r''"
  unfolding slot_follows_def by (metis reserved_not_terminal slot_closed_state)

lemma store_evolves_refl [simp]: "store_evolves s s"
  by (auto simp: store_evolves_def)

lemma store_evolvesD:
  assumes "store_evolves s s'"
  shows evolves_versions: "\<exists>vs. ds_versions s' = ds_versions s @ vs"
    and evolves_active: "version_active s k = Some v \<Longrightarrow>
      \<exists>v'. version_active s' k = Some v' \<and> (v' = v \<or> vr_decision_created_at v < vr_decision_created_at v')"
    and evolves_slot: "slot_get s j = Some r \<Longrightarrow> \<exists>r'. slot_get s' j = Some r' \<and> slot_follows r r'"
  using assms unfolding store_evolves_def by blast+

lemma store_evolves_trans:
  assumes "store_evolves s s'" and "store_evolves s' s''"
  shows "store_evolves s s''"
  unfolding store_evolves_def
proof (intro conjI allI impI)
  show "\<exists>vs. ds_versions s'' = ds_versions s @ vs"
    using evolves_versions [OF assms(1)] evolves_versions [OF assms(2)] by force
  show "\<exists>v''. version_active s'' k = Some v'' \<and> (v'' = v \<or> vr_decision_created_at v < vr_decision_created_at v'')"
    if v: "version_active s k = Some v" for k v
  proof -
    obtain v' where v': "version_active s' k = Some v'" "v' = v \<or> vr_decision_created_at v < vr_decision_created_at v'"
      using evolves_active [OF assms(1) v] by blast
    show ?thesis using evolves_active [OF assms(2) v'(1)] v'(2) by force
  qed
  show "\<exists>r''. slot_get s'' k = Some r'' \<and> slot_follows r r''" if r: "slot_get s k = Some r" for k r
  proof -
    obtain r' where r': "slot_get s' k = Some r'" "slot_follows r r'"
      using evolves_slot [OF assms(1) r] by blast
    show ?thesis using evolves_slot [OF assms(2) r'(1)] r'(2) slot_follows_trans by blast
  qed
qed

text \<open>Operations on the slots alone keep the published part; a publication keeps the slots.\<close>

lemma slots_only:
  assumes "store_wf s" and "ds_versions s' = ds_versions s" and "ds_pointers s' = ds_pointers s"
    and "tbl_keyed sl_key (ds_slots s')"
    and "\<And>k r. slot_get s k = Some r \<Longrightarrow> \<exists>r'. slot_get s' k = Some r' \<and> slot_follows r r'"
  shows "store_wf s' \<and> store_evolves s s'"
proof -
  have "version_active s' = version_active s" "version_get s' = version_get s"
    using assms(2,3) by (auto simp: version_active_def version_get_def pointer_get_def fun_eq_iff)
  then show ?thesis using assms by (auto simp: store_wf_def store_evolves_def)
qed

lemma update_slots_wf:
  assumes "store_wf s" and "\<And>r. sl_key (f r) = sl_key r"
    and "\<And>r. P r \<Longrightarrow> slot_follows r (f r)"
  shows "store_wf (fst (update_slots P f s)) \<and> store_evolves s (fst (update_slots P f s))"
  using assms by (intro slots_only)
    (auto simp: slot_get_update_slots store_wf_def intro: keyed_update_slots)

lemma insert_slot_wf:
  assumes "store_wf s" and "tbl_insert sl_key r (ds_slots s) = Inr slots"
  shows "store_wf (s\<lparr>ds_slots := slots\<rparr>) \<and> store_evolves s (s\<lparr>ds_slots := slots\<rparr>)"
  using assms
  by (intro slots_only)
    (auto simp: store_wf_def slot_get_def tbl.ins_get [of sl_key] tbl.ins_Inr_iff [of sl_key] tbl_keyed_upsert tbl_get_upsert)

lemma slot_follows_closed:
  "slot_owned k token r \<Longrightarrow> st \<in> TERMINAL_SLOT_STATES \<Longrightarrow> slot_follows r (slot_closed st now outc pid r)"
  by (auto simp: slot_follows_def slot_owned_def)

text \<open>What a publication writes, and when.\<close>

definition published :: "decision_store \<Rightarrow> prepared_publication \<Rightarrow> instant \<Rightarrow> decision_store" where
  "published s p now =
     s\<lparr>ds_versions := ds_versions s @ [version_of p now],
       ds_pointers := tbl_upsert pt_key \<lparr>pt_key = (pp_market p, pp_symbol p),
         pt_publication_id = pp_publication_id p, pt_updated_at = now\<rparr> (ds_pointers s)\<rparr>"

lemma vr_publication_id_version_of [simp]:
  "vr_publication_id (version_of p now) = pp_publication_id p"
  "vr_key (version_of p now) = (pp_market p, pp_symbol p)"
  "vr_decision_created_at (version_of p now) = pp_decision_created_at p"
  by (simp_all add: version_of_def vr_key_def)

definition supersedes :: "prepared_publication \<Rightarrow> version_row option \<Rightarrow> bool" where
  "supersedes p current = (case current of None \<Rightarrow> True | Some v \<Rightarrow> vr_decision_created_at v < pp_decision_created_at p)"

lemma publish_decision_cases:
  assumes "publish_decision s current p now = Inr (s', res)"
  shows "s' = s \<and> pu_status res \<noteq> PS_PUBLISHED \<or>
    s' = published s p now \<and> supersedes p current \<and> version_get s (pp_publication_id p) = None \<and> now < pp_expires_at p \<and>
    res = \<lparr>pu_status = PS_PUBLISHED, pu_publication_id = Some (pp_publication_id p), pu_reason = None\<rparr>"
  using assms
  by (auto simp: publish_decision_def Let_def published_def supersedes_def tbl_insert_def version_get_def
      split: option.splits if_splits)

lemma publish_decision_fresh:
  assumes "supersedes p current" and "now < pp_expires_at p" and "version_get s (pp_publication_id p) = None"
  shows "publish_decision s current p now = Inr (published s p now,
    \<lparr>pu_status = PS_PUBLISHED, pu_publication_id = Some (pp_publication_id p), pu_reason = None\<rparr>)"
  using assms
  by (auto simp: publish_decision_def Let_def published_def supersedes_def tbl_insert_def version_get_def
      split: option.splits)

lemma read_pointer_view_wf:
  assumes "store_wf s"
  shows "read_pointer_view s m sy = Inr (version_active s (m, sy))"
proof (cases "pointer_get s (m, sy)")
  case (Some p)
  then have "p \<in> set (ds_pointers s)" by (simp add: pointer_get_def tbl_get_Some_mem)
  then obtain v where "version_get s (pt_publication_id p) = Some v"
    using assms by (auto simp: store_wf_def)
  then show ?thesis using Some by (simp add: read_pointer_view_def version_active_def)
qed (simp add: read_pointer_view_def version_active_def)

lemma version_get_published:
  "version_get s (pp_publication_id p) = None \<Longrightarrow>
   version_get (published s p now) pid =
     (if pid = pp_publication_id p then Some (version_of p now) else version_get s pid)"
  by (auto simp: version_get_def published_def tbl_get_append split: option.splits)

lemma store_wf_pointer:
  assumes "store_wf s" and "pointer_get s k = Some q"
  obtains v where "version_get s (pt_publication_id q) = Some v" and "vr_key v = k"
  using assms tbl_get_Some_mem [of pt_key k] tbl_get_key [of pt_key k]
  unfolding store_wf_def pointer_get_def by blast

lemma version_active_key:
  assumes "store_wf s" and "version_active s k = Some v"
  shows "vr_key v = k"
proof -
  obtain q where q: "pointer_get s k = Some q" "version_get s (pt_publication_id q) = Some v"
    using assms(2) by (auto simp: version_active_def bind_eq_Some_conv)
  show ?thesis using store_wf_pointer [OF assms(1) q(1)] q(2) by auto
qed

lemma pointer_get_published:
  "pointer_get (published s p now) k =
     (if k = (pp_market p, pp_symbol p) then Some \<lparr>pt_key = (pp_market p, pp_symbol p),
        pt_publication_id = pp_publication_id p, pt_updated_at = now\<rparr> else pointer_get s k)"
  by (simp add: pointer_get_def published_def tbl_get_upsert)

lemma version_active_published:
  assumes "store_wf s" and fresh: "version_get s (pp_publication_id p) = None"
  shows "version_active (published s p now) k =
    (if k = (pp_market p, pp_symbol p) then Some (version_of p now) else version_active s k)"
proof (cases "k = (pp_market p, pp_symbol p)")
  case True
  then show ?thesis
    by (simp add: version_active_def pointer_get_published version_get_published [OF fresh])
next
  case False
  show ?thesis
  proof (cases "pointer_get s k")
    case None
    then show ?thesis using False by (simp add: version_active_def pointer_get_published)
  next
    case (Some q)
    obtain v where "version_get s (pt_publication_id q) = Some v" by (rule store_wf_pointer [OF assms(1) Some])
    then have "pt_publication_id q \<noteq> pp_publication_id p" using fresh by force
    then show ?thesis
      using False Some by (simp add: version_active_def pointer_get_published version_get_published [OF fresh])
  qed
qed

lemma published_wf:
  assumes wf: "store_wf s" and fresh: "version_get s (pp_publication_id p) = None"
    and newer: "supersedes p (version_active s (pp_market p, pp_symbol p))"
  shows "store_wf (published s p now)" and "store_evolves s (published s p now)"
proof -
  let ?s = "published s p now"
  note act = version_active_published [OF wf fresh, of now]
  have lt: "vr_decision_created_at v < pp_decision_created_at p"
    if "version_active s (pp_market p, pp_symbol p) = Some v" for v
    using newer that by (simp add: supersedes_def)
  have keyed: "tbl_keyed vr_publication_id (ds_versions ?s)"
    using wf fresh by (auto simp: store_wf_def published_def tbl_keyed_def version_get_def tbl_get_None_iff)
  have pointers: "\<exists>v. version_get ?s (pt_publication_id q) = Some v \<and> vr_key v = pt_key q"
    if "q \<in> set (ds_pointers ?s)" for q
  proof (cases "pt_key q = (pp_market p, pp_symbol p)")
    case True
    with that have "pt_publication_id q = pp_publication_id p" by (auto simp: published_def set_tbl_upsert)
    then show ?thesis using True by (simp add: version_get_published [OF fresh])
  next
    case False
    with that have "q \<in> set (ds_pointers s)" by (auto simp: published_def set_tbl_upsert)
    then obtain v where "version_get s (pt_publication_id q) = Some v" "vr_key v = pt_key q"
      using wf by (auto simp: store_wf_def)
    then show ?thesis using fresh by (auto simp: version_get_published [OF fresh])
  qed
  have versions: "\<exists>a. version_active ?s (vr_key v) = Some a \<and> vr_decision_created_at v \<le> vr_decision_created_at a"
    if "v \<in> set (ds_versions ?s)" for v
  proof (cases "v = version_of p now")
    case False
    with that have "v \<in> set (ds_versions s)" by (simp add: published_def)
    then obtain a where "version_active s (vr_key v) = Some a" "vr_decision_created_at v \<le> vr_decision_created_at a"
      using wf by (auto simp: store_wf_def)
    then show ?thesis using lt [of a] by (auto simp: act)
  qed (simp add: act)
  have "tbl_keyed pt_key (ds_pointers ?s)" "tbl_keyed sl_key (ds_slots ?s)"
    using wf by (simp_all add: store_wf_def published_def tbl_keyed_upsert)
  with keyed pointers versions show "store_wf ?s" by (simp add: store_wf_def)
  show "store_evolves s ?s"
    using lt by (auto simp: store_evolves_def act) (simp_all add: published_def slot_get_def)
qed

lemma publish_decision_wf:
  assumes "store_wf s" and "publish_decision s (version_active s (pp_market p, pp_symbol p)) p now = Inr (s', res)"
  shows "store_wf s' \<and> store_evolves s s' \<and> ds_slots s' = ds_slots s"
  using publish_decision_cases [OF assms(2)] published_wf [OF assms(1)] assms(1)
  by (auto simp: published_def)

lemma publish_wf:
  assumes "store_wf s"
  shows "store_wf (fst (publish cx s c now m)) \<and> store_evolves s (fst (publish cx s c now m))"
proof (cases "validate_and_prepare cx c m")
  case (Inr p)
  show ?thesis
  proof (cases "publish_decision s (version_active s (pp_market p, pp_symbol p)) p now")
    case (Inr q)
    then show ?thesis
      using publish_decision_wf [of s p now "fst q" "snd q"] assms \<open>validate_and_prepare cx c m = Inr p\<close>
      by (simp add: publish_def in_transaction_def read_pointer_view_wf case_prod_unfold)
  qed (use assms Inr in \<open>simp add: publish_def in_transaction_def read_pointer_view_wf\<close>)
qed (use assms in \<open>simp add: publish_def\<close>)

lemma finalize_wf:
  assumes "store_wf s" and "finalize_slot_in_tx s k token st now outc pid = Inr s'" and "st \<in> TERMINAL_SLOT_STATES"
  shows "store_wf s' \<and> store_evolves s s'"
  unfolding finalize_slot_Inr [OF assms(2)]
  by (rule update_slots_wf) (use assms(1,3) slot_follows_closed in auto)

lemma finalize_transaction_wf:
  assumes "store_wf s1" and "store_wf s" and "store_evolves s s1" and "st \<in> TERMINAL_SLOT_STATES"
  shows "store_wf (fst (in_transaction s (rbind (finalize_slot_in_tx s1 k token st now outc pid) (\<lambda>s'. Inr (s', res))))) \<and>
    store_evolves s (fst (in_transaction s (rbind (finalize_slot_in_tx s1 k token st now outc pid) (\<lambda>s'. Inr (s', res)))))"
proof (cases "finalize_slot_in_tx s1 k token st now outc pid")
  case (Inr s')
  then show ?thesis
    using finalize_wf [OF assms(1) Inr assms(4)] store_evolves_trans [OF assms(3), of s'] by (simp add: in_transaction_def)
qed (use assms in \<open>simp add: in_transaction_def\<close>)

lemma publish_reserved_slot_wf:
  assumes "store_wf s"
  shows "store_wf (fst (publish_reserved_slot cx s c now k token m)) \<and>
    store_evolves s (fst (publish_reserved_slot cx s c now k token m))"
proof (cases "reservation_held (slot_get s k) token now")
  case True
  show ?thesis
  proof (cases "validate_and_prepare cx c m")
    case (Inl rejected)
    then show ?thesis using True assms finalize_transaction_wf [OF assms assms store_evolves_refl, of SL_FAILED]
      by (simp add: publish_reserved_slot_def TERMINAL_SLOT_STATES_def)
  next
    case (Inr p)
    show ?thesis
    proof (cases "publish_decision s (version_active s (pp_market p, pp_symbol p)) p now")
      case (Inr q)
      obtain s1 res where q: "q = (s1, res)" by force
      have s1: "store_wf s1" "store_evolves s s1" using publish_decision_wf [OF assms Inr [unfolded q]] by auto
      let ?st = "if pu_status res \<in> {PS_PUBLISHED, PS_IDEMPOTENT} then SL_PUBLISHED else SL_FAILED"
      have st: "?st \<in> TERMINAL_SLOT_STATES" by (simp add: TERMINAL_SLOT_STATES_def)
      have "publish_reserved_slot cx s c now k token m = in_transaction s (rbind
          (finalize_slot_in_tx s1 k token ?st now (Some (publication_status_str (pu_status res))) (pu_publication_id res))
          (\<lambda>s2. Inr (s2, res)))"
        using Inr q True assms \<open>validate_and_prepare cx c m = Inr p\<close>
        by (simp add: publish_reserved_slot_def read_pointer_view_wf)
      then show ?thesis using finalize_transaction_wf [OF s1(1) assms s1(2) st] by metis
    qed (use assms Inr True in \<open>simp add: publish_reserved_slot_def in_transaction_def read_pointer_view_wf\<close>)
  qed
qed (use assms in \<open>simp add: publish_reserved_slot_def\<close>)

lemma store_step_wf: "store_step cx s s' \<Longrightarrow> store_wf s \<Longrightarrow> store_wf s' \<and> store_evolves s s'"
proof (induction rule: store_step.induct)
  case (step_publish s c now m s' a)
  then show ?case using publish_wf [of s cx c now m] by simp
next
  case (step_publish_slot s c now k token m s' a)
  then show ?case using publish_reserved_slot_wf [of s cx c now k token m] by simp
next
  case (step_reserve s k scheduled_at owner now lease_us token s' b)
  then show ?case
    by (auto simp: reserve_slot_def in_transaction_def dest: insert_slot_wf split: option.splits sum.splits)
next
  case (step_complete s k st token now outc pid s' d)
  then show ?case
    using update_slots_wf [of s "slot_closed st now outc pid" "slot_owned k token"] slot_follows_closed
    by (auto simp: complete_slot_def split: if_splits prod.splits)
next
  case (step_missed s k scheduled_at st now outc s' d)
  then show ?case by (auto simp: mark_unreserved_terminal_def dest: insert_slot_wf split: if_splits sum.splits)
next
  case (step_reconcile s k now outc s' d)
  let ?f = "\<lambda>r. r\<lparr>sl_state := SL_UNCERTAIN, sl_finished_at := Some now, sl_outcome := outc\<rparr>"
  have "?f r = slot_closed SL_UNCERTAIN now outc (sl_publication_id r) r" for r by (simp add: slot_closed_def)
  then have "slot_follows r (?f r)" if "sl_state r = SL_RESERVED" for r
    using that unfolding slot_follows_def TERMINAL_SLOT_STATES_def by blast
  then show ?case
    using step_reconcile update_slots_wf [of s ?f "\<lambda>r. sl_key r = k \<and> sl_state r = SL_RESERVED"]
    by (auto simp: reconcile_expired_reservation_def split: option.splits if_splits)
qed

lemma store_reaches_wf: "store_reaches cx s s' \<Longrightarrow> store_wf s \<Longrightarrow> store_wf s' \<and> store_evolves s s'"
proof (induction rule: store_reaches.induct)
  case (reaches_step t t' t'')
  then show ?case using store_step_wf [OF reaches_step.hyps(2)] store_evolves_trans [of t t' t''] by blast
qed simp

lemma empty_store_wf: "store_wf empty_store"
  by (simp add: store_wf_def empty_store_def tbl_keyed_def)

section \<open>What the readers see\<close>

definition codec_restores :: "codec \<Rightarrow> trigger_bundle \<Rightarrow> instant \<Rightarrow> instant \<Rightarrow> bool" where
  "codec_restores cx b valid_from expires_at \<longleftrightarrow>
     cx_hash cx (cx_dump cx b valid_from expires_at) \<noteq> None \<and>
     cx_load cx (cx_dump cx b valid_from expires_at) = Some (b, valid_from, expires_at)"

definition publication_key :: "version_row \<Rightarrow> string \<times> string \<times> string \<times> instant \<times> string" where
  "publication_key v = (vr_market v, vr_symbol v, vr_decision_id v, vr_decision_created_at v, vr_bundle_hash v)"

definition store_sound :: "codec \<Rightarrow> decision_store \<Rightarrow> bool" where
  "store_sound cx s \<longleftrightarrow> store_wf s \<and> (\<forall>v \<in> set (ds_versions s). \<exists>ab. row_to_active_bundle cx v = Inr ab)"

definition active_view :: "codec \<Rightarrow> decision_store \<Rightarrow> string \<times> string \<Rightarrow> active_bundle option" where
  "active_view cx s k = (case read_active cx s (fst k) (snd k) of Inl _ \<Rightarrow> None | Inr x \<Rightarrow> x)"

text \<open>
  The contract: one active bundle per market and symbol. A candidate replaces it when its decision
  is newer and it has not expired; a repeat is answered \<open>PS_IDEMPOTENT\<close>, anything else with the
  same time is a conflict.
\<close>

definition spec_publish ::
  "(string \<times> string \<Rightarrow> active_bundle option) \<Rightarrow> active_bundle \<Rightarrow> instant \<Rightarrow>
   (string \<times> string \<Rightarrow> active_bundle option) \<times> publication_status" where
  "spec_publish V ab now =
     (let k = (ab_market ab, ab_symbol ab);
          fresh = (if ab_expires_at ab \<le> now then (V, PS_REJECTED_EXPIRED) else (V(k \<mapsto> ab), PS_PUBLISHED))
      in case V k of
           None \<Rightarrow> fresh
         | Some a \<Rightarrow>
             if ab_decision_created_at ab < ab_decision_created_at a then (V, PS_REJECTED_OLDER)
             else if ab_decision_created_at ab = ab_decision_created_at a
             then (V, if ab_decision_id ab = ab_decision_id a \<and> ab_bundle_hash ab = ab_bundle_hash a
                      then PS_IDEMPOTENT else PS_REJECTED_CONFLICT)
             else fresh)"

definition candidate_bundle :: "prepared_publication \<Rightarrow> trigger_bundle \<Rightarrow> instant \<Rightarrow> active_bundle" where
  "candidate_bundle p b now =
     \<lparr>ab_publication_id = pp_publication_id p, ab_market = pp_market p, ab_symbol = pp_symbol p,
      ab_decision_id = pp_decision_id p, ab_plan_id = pp_plan_id p, ab_decision_created_at = pp_decision_created_at p,
      ab_valid_from = pp_valid_from p, ab_expires_at = pp_expires_at p, ab_bundle = b, ab_bundle_hash = pp_bundle_hash p,
      ab_source_payload_hash = pp_source_payload_hash p, ab_published_at = now\<rparr>"

lemma row_to_active_bundle_fields:
  assumes "row_to_active_bundle cx v = Inr ab"
  shows "ab_decision_created_at ab = vr_decision_created_at v" and "ab_decision_id ab = vr_decision_id v"
    and "ab_bundle_hash ab = vr_bundle_hash v" and "vr_publication_id v = cx_publication cx (publication_key v)"
  using assms by (auto simp: row_to_active_bundle_def publication_key_def split: option.splits if_splits)

lemma read_active_sound:
  assumes "store_sound cx s"
  shows "read_active cx s m sy =
    (case version_active s (m, sy) of None \<Rightarrow> Inr None | Some v \<Rightarrow> rbind (row_to_active_bundle cx v) (\<lambda>b. Inr (Some b)))"
proof (cases "pointer_get s (m, sy)")
  case (Some q)
  have "store_wf s" using assms by (simp add: store_sound_def)
  then obtain v where "version_get s (pt_publication_id q) = Some v" by (rule store_wf_pointer [OF _ Some])
  then show ?thesis using Some by (simp add: read_active_def version_active_def)
qed (simp add: read_active_def version_active_def)

lemma version_active_mem: "version_active s k = Some v \<Longrightarrow> v \<in> set (ds_versions s)"
  by (auto simp: version_active_def version_get_def bind_eq_Some_conv dest: tbl_get_Some_mem)

lemma version_active_readable:
  assumes "store_sound cx s" and "version_active s k = Some v"
  obtains ab where "row_to_active_bundle cx v = Inr ab"
  using assms version_active_mem unfolding store_sound_def by blast

lemma read_active_total: "store_sound cx s \<Longrightarrow> \<exists>x. read_active cx s m sy = Inr x"
  by (cases "version_active s (m, sy)")
    (auto simp: read_active_sound elim: version_active_readable)

lemma active_view_sound:
  assumes "store_sound cx s"
  shows "active_view cx s k =
    (case version_active s k of None \<Rightarrow> None | Some v \<Rightarrow>
       (case row_to_active_bundle cx v of Inl _ \<Rightarrow> None | Inr ab \<Rightarrow> Some ab))"
  by (cases k) (auto simp: active_view_def read_active_sound [OF assms] split: option.splits sum.splits)

lemma validate_and_prepare_Inr:
  assumes "validate_and_prepare cx c m = Inr p"
  obtains b where "load_decision_bundle (pc_snapshot c) (pc_plan c) = Inr b"
    and "pp_market p = an_market (bn_decision b)" and "pp_symbol p = an_symbol (bn_decision b)"
    and "pp_decision_id p = an_decision_id (bn_decision b)" and "pp_decision_created_at p = an_created_at (bn_decision b)"
    and "pp_plan_id p = bundle_plan_id b" and "pp_valid_from p = pc_valid_from c" and "pp_expires_at p = pc_expires_at c"
    and "pp_bundle_json p = cx_dump cx b (pc_valid_from c) (pc_expires_at c)"
    and "pp_bundle_hash p = the (cx_hash cx (pp_bundle_json p))"
    and "pp_publication_id p = cx_publication cx
      (pp_market p, pp_symbol p, pp_decision_id p, pp_decision_created_at p, pp_bundle_hash p)"
  using assms by (auto simp: validate_and_prepare_def Let_def split: if_splits sum.splits)

lemma candidate_readable:
  assumes p: "validate_and_prepare cx c m = Inr p" and b: "load_decision_bundle (pc_snapshot c) (pc_plan c) = Inr b"
    and ok: "codec_restores cx b (pc_valid_from c) (pc_expires_at c)"
  shows "row_to_active_bundle cx (version_of p now) = Inr (candidate_bundle p b now)"
proof -
  obtain b' where b': "load_decision_bundle (pc_snapshot c) (pc_plan c) = Inr b'"
    and eqs: "pp_market p = an_market (bn_decision b')" "pp_symbol p = an_symbol (bn_decision b')"
    "pp_decision_id p = an_decision_id (bn_decision b')" "pp_decision_created_at p = an_created_at (bn_decision b')"
    "pp_plan_id p = bundle_plan_id b'" "pp_valid_from p = pc_valid_from c" "pp_expires_at p = pc_expires_at c"
    "pp_bundle_json p = cx_dump cx b' (pc_valid_from c) (pc_expires_at c)"
    and hash: "pp_bundle_hash p = the (cx_hash cx (pp_bundle_json p))"
    and pid: "pp_publication_id p = cx_publication cx
      (pp_market p, pp_symbol p, pp_decision_id p, pp_decision_created_at p, pp_bundle_hash p)"
    by (rule validate_and_prepare_Inr [OF p])
  have "b' = b" using b b' by simp
  moreover obtain h where "cx_hash cx (cx_dump cx b (pc_valid_from c) (pc_expires_at c)) = Some h"
    using ok by (auto simp: codec_restores_def)
  ultimately show ?thesis
    using ok eqs hash pid by (simp add: row_to_active_bundle_def version_of_def candidate_bundle_def codec_restores_def)
qed

lemma fresh_publication_id:
  assumes sound: "store_sound cx s" and newer: "supersedes p (version_active s (pp_market p, pp_symbol p))"
    and pid: "pp_publication_id p = cx_publication cx (publication_key (version_of p now))"
    and inj: "inj_on (cx_publication cx) (publication_key ` insert (version_of p now) (set (ds_versions s)))"
  shows "version_get s (pp_publication_id p) = None"
proof (rule ccontr)
  assume "version_get s (pp_publication_id p) \<noteq> None"
  then obtain v where v: "v \<in> set (ds_versions s)" "vr_publication_id v = pp_publication_id p"
    by (auto simp: version_get_def dest: tbl_get_Some_mem tbl_get_key [of vr_publication_id])
  obtain ab where "row_to_active_bundle cx v = Inr ab" using sound v(1) by (auto simp: store_sound_def)
  then have "cx_publication cx (publication_key v) = cx_publication cx (publication_key (version_of p now))"
    using row_to_active_bundle_fields(4) v(2) pid by metis
  then have "publication_key v = publication_key (version_of p now)"
    using inj_onD [OF inj] v(1) by blast
  then have "vr_key v = (pp_market p, pp_symbol p)" "vr_decision_created_at v = pp_decision_created_at p"
    by (auto simp: publication_key_def version_of_def vr_key_def)
  moreover obtain a where "version_active s (vr_key v) = Some a" "vr_decision_created_at v \<le> vr_decision_created_at a"
    using sound v(1) by (auto simp: store_sound_def store_wf_def)
  ultimately show False using newer by (simp add: supersedes_def)
qed

lemma publish_prepared:
  "store_wf s \<Longrightarrow> validate_and_prepare cx c m = Inr p \<Longrightarrow>
   publish cx s c now m = in_transaction s (publish_decision s (version_active s (pp_market p, pp_symbol p)) p now)"
  by (simp add: publish_def read_pointer_view_wf)

lemma published_sound:
  assumes sound: "store_sound cx s" and fresh: "version_get s (pp_publication_id p) = None"
    and newer: "supersedes p (version_active s (pp_market p, pp_symbol p))"
    and readable: "row_to_active_bundle cx (version_of p now) = Inr ab"
  shows "store_sound cx (published s p now)"
    and "active_view cx (published s p now) = (active_view cx s)((pp_market p, pp_symbol p) \<mapsto> ab)"
proof -
  have wf: "store_wf s" using sound by (simp add: store_sound_def)
  have "ds_versions (published s p now) = ds_versions s @ [version_of p now]" by (simp add: published_def)
  then show snd: "store_sound cx (published s p now)"
    using published_wf(1) [OF wf fresh newer] sound readable by (auto simp: store_sound_def)
  show "active_view cx (published s p now) = (active_view cx s)((pp_market p, pp_symbol p) \<mapsto> ab)"
    using readable
    by (auto simp: fun_eq_iff active_view_sound [OF snd] active_view_sound [OF sound]
        version_active_published [OF wf fresh])
qed

lemma spec_publish_newer:
  assumes "\<And>a. V (ab_market ab, ab_symbol ab) = Some a \<Longrightarrow> ab_decision_created_at a < ab_decision_created_at ab"
    and "now < ab_expires_at ab"
  shows "spec_publish V ab now = (V((ab_market ab, ab_symbol ab) \<mapsto> ab), PS_PUBLISHED)"
  using assms by (cases "V (ab_market ab, ab_symbol ab)") (force simp: spec_publish_def Let_def)+

lemma publish_decision_rejects:
  assumes "\<not> (supersedes p current \<and> now < pp_expires_at p)"
    and "current = None \<Longrightarrow> V (pp_market p, pp_symbol p) = None"
    and "\<And>v. current = Some v \<Longrightarrow> \<exists>a. V (pp_market p, pp_symbol p) = Some a \<and>
      ab_decision_created_at a = vr_decision_created_at v \<and> ab_decision_id a = vr_decision_id v \<and> ab_bundle_hash a = vr_bundle_hash v"
  shows "\<exists>res. publish_decision s current p now = Inr (s, res) \<and>
    spec_publish V (candidate_bundle p b now) now = (V, pu_status res)"
proof (cases current)
  case None
  then show ?thesis using assms(1,2)
    by (simp add: publish_decision_def spec_publish_def candidate_bundle_def supersedes_def)
next
  case (Some v)
  then obtain a where a: "V (pp_market p, pp_symbol p) = Some a" "ab_decision_created_at a = vr_decision_created_at v"
    "ab_decision_id a = vr_decision_id v" "ab_bundle_hash a = vr_bundle_hash v"
    using assms(3) by blast
  consider "pp_decision_created_at p < vr_decision_created_at v" | "pp_decision_created_at p = vr_decision_created_at v"
    | "vr_decision_created_at v < pp_decision_created_at p" "pp_expires_at p \<le> now"
    using assms(1) Some by (fastforce simp: supersedes_def)
  then show ?thesis
    by cases (simp_all add: Some a publish_decision_def Let_def spec_publish_def candidate_bundle_def eq_commute)
qed

text \<open>
  C13. Publishing implements the contract \<open>spec_publish\<close>. For a candidate that passes validation,
  on a store whose rows read back, with a codec that restores this bundle and no collision between
  the digests at hand, \<^verbatim>\<open>publish\<close> does not raise; the bundles that
  \<^verbatim>\<open>read_active\<close> returns afterwards and the status are exactly those of the contract, every
  row still reads back, and \<^verbatim>\<open>read_active\<close> never raises on the new store.
\<close>

theorem publish_refines:
  assumes sound: "store_sound cx s"
    and p: "validate_and_prepare cx c m = Inr p"
    and b: "load_decision_bundle (pc_snapshot c) (pc_plan c) = Inr b"
    and ok: "codec_restores cx b (pc_valid_from c) (pc_expires_at c)"
    and inj: "inj_on (cx_publication cx) (publication_key ` insert (version_of p now) (set (ds_versions s)))"
  shows "\<exists>s' res. publish cx s c now m = (s', Inr res) \<and> store_sound cx s' \<and>
    (active_view cx s', pu_status res) = spec_publish (active_view cx s) (candidate_bundle p b now) now \<and>
    (\<forall>m sy. \<exists>x. read_active cx s' m sy = Inr x)"
proof -
  let ?k = "(pp_market p, pp_symbol p)"
  have wf: "store_wf s" using sound by (simp add: store_sound_def)
  have pid: "pp_publication_id p = cx_publication cx (publication_key (version_of p now))"
    by (rule validate_and_prepare_Inr [OF p]) (simp add: publication_key_def version_of_def)
  note readable = candidate_readable [OF p b ok, of now]
  show ?thesis
  proof (cases "supersedes p (version_active s ?k) \<and> now < pp_expires_at p")
    case True
    then have newer: "supersedes p (version_active s ?k)" by simp
    note fresh = fresh_publication_id [OF sound newer pid inj]
    note snd = published_sound [OF sound fresh newer readable]
    have "spec_publish (active_view cx s) (candidate_bundle p b now) now =
        ((active_view cx s)(?k \<mapsto> candidate_bundle p b now), PS_PUBLISHED)"
      using True by (subst spec_publish_newer)
        (auto simp: candidate_bundle_def active_view_sound [OF sound] supersedes_def
          dest: row_to_active_bundle_fields(1) split: option.splits sum.splits)
    then show ?thesis
      using True snd publish_decision_fresh [OF newer _ fresh] read_active_total [OF snd(1)]
      by (simp add: publish_prepared [OF wf p] in_transaction_def)
  next
    case False
    obtain res where res: "publish_decision s (version_active s ?k) p now = Inr (s, res)"
      and st: "spec_publish (active_view cx s) (candidate_bundle p b now) now = (active_view cx s, pu_status res)"
    proof -
      have "\<exists>a. active_view cx s ?k = Some a \<and> ab_decision_created_at a = vr_decision_created_at v \<and>
          ab_decision_id a = vr_decision_id v \<and> ab_bundle_hash a = vr_bundle_hash v" if v: "version_active s ?k = Some v" for v
      proof -
        obtain ab where "row_to_active_bundle cx v = Inr ab" by (rule version_active_readable [OF sound v])
        then show ?thesis using v row_to_active_bundle_fields by (simp add: active_view_sound [OF sound])
      qed
      then show ?thesis
        using that publish_decision_rejects [OF False, of "active_view cx s" s b]
        by (auto simp: active_view_sound [OF sound])
    qed
    then show ?thesis using sound read_active_total [OF sound]
      by (simp add: publish_prepared [OF wf p] in_transaction_def)
  qed
qed

text \<open>
  C17. The store over any sequence of operations, from the empty database on: the active pointers
  always name a stored version of the same market and symbol, which is the newest decision stored
  for it; versions are only appended; an active decision is only replaced by a later one; and a
  refresh slot, once recorded, stays as it is unless it was reserved, and is then closed once, in a
  terminal state, with its reservation kept.
\<close>

theorem store_history:
  assumes "store_reaches cx empty_store s" and "store_reaches cx s s'"
  shows "store_wf s \<and> store_wf s' \<and> store_evolves s s'"
  using store_reaches_wf [OF assms(1) empty_store_wf] store_reaches_wf [OF assms(2)] by blast

text \<open>Closing the slot of a live reservation.\<close>

definition close_slot :: "slot_key \<Rightarrow> string \<Rightarrow> instant \<Rightarrow> publication_result \<Rightarrow> decision_store \<Rightarrow> decision_store" where
  "close_slot k token now res t =
     fst (update_slots (slot_owned k token)
       (slot_closed (if pu_status res \<in> {PS_PUBLISHED, PS_IDEMPOTENT} then SL_PUBLISHED else SL_FAILED)
         now (Some (publication_status_str (pu_status res))) (pu_publication_id res)) t)"

lemma reservation_held_owned:
  assumes "reservation_held (slot_get s k) token now"
  obtains r where "slot_get s k = Some r" and "slot_owned k token r"
  using assms tbl_get_key [of sl_key k "ds_slots s"]
  by (auto simp: reservation_held_iff slot_owned_def slot_get_def)

lemma slot_get_owned_update:
  assumes "slot_get t k = Some r" and "slot_owned k token r"
  shows "slot_get (fst (update_slots (slot_owned k token) (slot_closed st now outc pid) t)) j =
    (if j = k then Some (slot_closed st now outc pid r) else slot_get t j)"
proof -
  have upd: "slot_get (fst (update_slots (slot_owned k token) (slot_closed st now outc pid) t)) j =
      map_option (\<lambda>r. if slot_owned k token r then slot_closed st now outc pid r else r) (slot_get t j)"
    by (rule slot_get_update_slots) (rule slot_closed_key)
  show ?thesis
  proof (cases "j = k")
    case True
    then show ?thesis unfolding upd by (simp add: assms)
  next
    case False
    have "\<not> slot_owned k token r'" if "slot_get t j = Some r'" for r'
      using tbl_get_key [of sl_key j _ r'] that False by (auto simp: slot_owned_def slot_get_def)
    then show ?thesis unfolding upd using False by (cases "slot_get t j") simp_all
  qed
qed

lemma slot_get_close_slot:
  assumes "slot_get t k = Some r" and "slot_owned k token r"
  shows "slot_get (close_slot k token now res t) j =
    (if j = k then Some (slot_closed (if pu_status res \<in> {PS_PUBLISHED, PS_IDEMPOTENT} then SL_PUBLISHED else SL_FAILED)
       now (Some (publication_status_str (pu_status res))) (pu_publication_id res) r) else slot_get t j)"
  unfolding close_slot_def by (rule slot_get_owned_update [OF assms])

lemma finalize_close_slot:
  assumes "tbl_keyed sl_key (ds_slots t)" and "slot_get t k = Some r" and "slot_owned k token r"
    and "st = (if pu_status res \<in> {PS_PUBLISHED, PS_IDEMPOTENT} then SL_PUBLISHED else SL_FAILED)"
  shows "finalize_slot_in_tx t k token st now (Some (publication_status_str (pu_status res))) (pu_publication_id res) =
    Inr (close_slot k token now res t)"
  unfolding close_slot_def assms(4) by (rule finalize_slot_owned [OF assms(1-3)])

lemma publish_reserved_slot_eq:
  assumes wf: "store_wf s" and held: "reservation_held (slot_get s k) token now"
  shows "publish_reserved_slot cx s c now k token m =
    (case publish cx s c now m of (t, Inl e) \<Rightarrow> (s, Inl e) | (t, Inr res) \<Rightarrow> (close_slot k token now res t, Inr res))"
proof -
  obtain r where r: "slot_get s k = Some r" "slot_owned k token r" by (rule reservation_held_owned [OF held])
  have keyed: "tbl_keyed sl_key (ds_slots s)" using wf by (simp add: store_wf_def)
  show ?thesis
  proof (cases "validate_and_prepare cx c m")
    case (Inl rejected)
    then have "pu_status rejected = PS_REJECTED_INVALID_BUNDLE"
      by (auto simp: validate_and_prepare_def Let_def rejected_invalid_def split: if_splits sum.splits)
    then show ?thesis using Inl held finalize_close_slot [OF keyed r, of SL_FAILED rejected now]
      by (simp add: publish_reserved_slot_def publish_def in_transaction_def)
  next
    case (Inr p)
    show ?thesis
    proof (cases "publish_decision s (version_active s (pp_market p, pp_symbol p)) p now")
      case (Inr q)
      obtain t res where q: "q = (t, res)" by force
      then have "ds_slots t = ds_slots s" using publish_decision_wf [OF wf] Inr by blast
      then have "tbl_keyed sl_key (ds_slots t)" "slot_get t k = Some r" using keyed r by (simp_all add: slot_get_def)
      from finalize_close_slot [OF this r(2) refl, of res now]
      show ?thesis using Inr q held \<open>validate_and_prepare cx c m = Inr p\<close>
        by (simp add: publish_reserved_slot_def publish_prepared [OF wf] in_transaction_def read_pointer_view_wf [OF wf])
    qed (use Inr held wf in \<open>simp add: publish_reserved_slot_def publish_prepared in_transaction_def read_pointer_view_wf\<close>)
  qed
qed

lemma publish_keeps_slots: "store_wf s \<Longrightarrow> publish cx s c now m = (t, a) \<Longrightarrow> ds_slots t = ds_slots s"
proof (cases "validate_and_prepare cx c m")
  case (Inr p)
  then show "store_wf s \<Longrightarrow> publish cx s c now m = (t, a) \<Longrightarrow> ds_slots t = ds_slots s"
    by (cases "publish_decision s (version_active s (pp_market p, pp_symbol p)) p now")
      (auto simp: publish_prepared in_transaction_def dest: publish_decision_wf)
qed (simp add: publish_def)

text \<open>
  C32. Publishing under a reservation is atomic and happens at most once per slot. Without the live
  reservation nothing changes. With it the effect on versions and pointers, and the answer, are
  those of \<^verbatim>\<open>publish\<close>; the slot is closed in the same transaction, as PUBLISHED exactly
  when the candidate is the active one, the other slots stay, and if \<^verbatim>\<open>publish\<close> raises
  everything is rolled back. After an answer the slot admits no further publication.
\<close>

theorem reserved_publication:
  assumes wf: "store_wf s"
  shows "case publish_reserved_slot cx s c now k token m of (s', a) \<Rightarrow>
    if \<not> reservation_held (slot_get s k) token now then s' = s \<and> a = Inr reservation_lost
    else (case publish cx s c now m of
        (t, Inl e) \<Rightarrow> s' = s \<and> a = Inl e
      | (t, Inr res) \<Rightarrow> a = Inr res \<and> ds_versions s' = ds_versions t \<and> ds_pointers s' = ds_pointers t \<and>
          slot_get s' k = Some (slot_closed (if pu_status res \<in> {PS_PUBLISHED, PS_IDEMPOTENT} then SL_PUBLISHED else SL_FAILED)
            now (Some (publication_status_str (pu_status res))) (pu_publication_id res) (the (slot_get s k))) \<and>
          (\<forall>j. j \<noteq> k \<longrightarrow> slot_get s' j = slot_get s j) \<and>
          (\<forall>c' now' token' m'. publish_reserved_slot cx s' c' now' k token' m' = (s', Inr reservation_lost)))"
proof (cases "reservation_held (slot_get s k) token now")
  case held: True
  obtain t a where ta: "publish cx s c now m = (t, a)" by force
  obtain r where r: "slot_get s k = Some r" "slot_owned k token r" by (rule reservation_held_owned [OF held])
  then have "slot_get t k = Some r" using publish_keeps_slots [OF wf ta] by (simp add: slot_get_def)
  note got = slot_get_close_slot [OF this r(2)]
  have other: "slot_get t j = slot_get s j" for j using publish_keeps_slots [OF wf ta] by (simp add: slot_get_def)
  have lost: "publish_reserved_slot cx (close_slot k token now res t) c' now' k token' m' =
      (close_slot k token now res t, Inr reservation_lost)" for res c' now' token' m'
    by (simp add: publish_reserved_slot_def got reservation_held_def)
  show ?thesis
  proof (cases a)
    case (Inr res)
    have "ds_versions (close_slot k token now res t) = ds_versions t" "ds_pointers (close_slot k token now res t) = ds_pointers t"
      by (simp_all add: close_slot_def)
    then show ?thesis using held Inr ta r lost other
      by (simp add: publish_reserved_slot_eq [OF wf held] got)
  qed (use held ta in \<open>simp add: publish_reserved_slot_eq [OF wf held]\<close>)
qed (simp add: publish_reserved_slot_def)

section \<open>A worked run\<close>

definition example_codec :: codec where
  "example_codec = \<lparr>cx_dump = (\<lambda>_ _ _. ''{}''), cx_hash = (\<lambda>_. Some ''h''),
     cx_load = (\<lambda>_. Some (example_bundle, 0, 100000000)), cx_publication = (\<lambda>(_, _, _, t, _). epoch_text t)\<rparr>"

definition example_candidate :: publication_candidate where
  "example_candidate =
     \<lparr>pc_snapshot = \<lparr>dn_decision_id = ''analysis-1'', dn_created_at = 0, dn_schema_name = ANALYSIS_DECISION_SCHEMA,
        dn_decision = Some (example_analysis Action_BUY 5), dn_payload_hash = ''p'', dn_passed = True\<rparr>,
      pc_plan = Some example_plan, pc_valid_from = 0, pc_expires_at = 100000000\<rparr>"

definition example_prepared :: prepared_publication where
  "example_prepared =
     \<lparr>pp_market = ''KR'', pp_symbol = ''005930'', pp_decision_id = ''analysis-1'', pp_decision_created_at = 0,
      pp_plan_id = Some ''plan-1'', pp_valid_from = 0, pp_expires_at = 100000000, pp_bundle_json = ''{}'',
      pp_bundle_hash = ''h'', pp_source_payload_hash = ''p'', pp_publication_id = epoch_text 0\<rparr>"

definition example_slot :: slot_key where
  "example_slot = (''KR'', 738000, ''slot-1'')"

definition example_reserved_store :: decision_store where
  "example_reserved_store = fst (reserve_slot empty_store example_slot 0 ''owner'' 0 60000000 ''token'')"

lemma example_load: "load_decision_bundle (pc_snapshot example_candidate) (pc_plan example_candidate) = Inr example_bundle"
  by (simp add: load_decision_bundle_def example_candidate_def mk_DecisionTriggerBundle_def example_bundle_def
      example_analysis_def example_plan_def bundle_action_def Let_def)

lemma example_validate: "validate_and_prepare example_codec example_candidate (Some ''KR'') = Inr example_prepared"
  using example_load
  by (simp add: validate_and_prepare_def Let_def example_candidate_def example_bundle_def example_analysis_def
      example_plan_def example_codec_def example_prepared_def bundle_plan_id_def)

lemma example_codec_restores: "codec_restores example_codec example_bundle 0 100000000"
  by (simp add: codec_restores_def example_codec_def)

lemma empty_store_sound: "store_sound cx empty_store"
  by (simp add: store_sound_def store_wf_def empty_store_def tbl_keyed_def)

lemma example_publish_into:
  assumes "store_wf s" and "ds_versions s = []" and "ds_pointers s = []"
  shows "publish example_codec s example_candidate 1 (Some ''KR'') =
     (published s example_prepared 1,
      Inr \<lparr>pu_status = PS_PUBLISHED, pu_publication_id = Some (epoch_text 0), pu_reason = None\<rparr>)"
proof -
  have "version_active s k = None" "version_get s pid = None" for k pid
    using assms by (simp_all add: version_active_def pointer_get_def version_get_def)
  then show ?thesis
    using publish_decision_fresh [of example_prepared None 1 s] assms(1)
    by (simp add: publish_prepared [OF _ example_validate] in_transaction_def supersedes_def example_prepared_def)
qed

lemma example_publish:
  "publish example_codec empty_store example_candidate 1 (Some ''KR'') =
     (published empty_store example_prepared 1,
      Inr \<lparr>pu_status = PS_PUBLISHED, pu_publication_id = Some (epoch_text 0), pu_reason = None\<rparr>)"
  using empty_store_sound by (intro example_publish_into) (simp_all add: store_sound_def empty_store_def)

theorem publish_refines_witness:
  "store_sound example_codec empty_store \<and>
   validate_and_prepare example_codec example_candidate (Some ''KR'') = Inr example_prepared \<and>
   (\<exists>s' res. publish example_codec empty_store example_candidate 1 (Some ''KR'') = (s', Inr res) \<and> pu_status res = PS_PUBLISHED \<and>
      (active_view example_codec s', pu_status res) =
        spec_publish (active_view example_codec empty_store) (candidate_bundle example_prepared example_bundle 1) 1)"
proof -
  have "codec_restores example_codec example_bundle (pc_valid_from example_candidate) (pc_expires_at example_candidate)"
    using example_codec_restores by (simp add: example_candidate_def)
  moreover have "inj_on (cx_publication example_codec)
      (publication_key ` insert (version_of example_prepared 1) (set (ds_versions empty_store)))"
    by (simp add: empty_store_def)
  ultimately show ?thesis
    using publish_refines [OF empty_store_sound example_validate example_load, of 1] example_publish empty_store_sound
      example_validate by auto
qed

theorem store_history_witness:
  "store_reaches example_codec empty_store empty_store \<and>
   store_reaches example_codec empty_store (published empty_store example_prepared 1) \<and>
   store_wf (published empty_store example_prepared 1) \<and> store_evolves empty_store (published empty_store example_prepared 1) \<and>
   ds_versions (published empty_store example_prepared 1) = [version_of example_prepared 1]"
proof -
  have "store_reaches example_codec empty_store (published empty_store example_prepared 1)"
    by (rule reaches_step [OF reaches_refl step_publish [OF example_publish]])
  moreover have "ds_versions (published empty_store example_prepared 1) = [version_of example_prepared 1]"
    by (simp add: published_def empty_store_def)
  ultimately show ?thesis
    using store_history [OF reaches_refl, of example_codec "published empty_store example_prepared 1"] reaches_refl by blast
qed

lemma example_reserved:
  "store_wf example_reserved_store" "ds_versions example_reserved_store = []" "ds_pointers example_reserved_store = []"
  "slot_get example_reserved_store example_slot =
     Some \<lparr>sl_key = example_slot, sl_scheduled_at = 0, sl_state = SL_RESERVED, sl_reservation_token = Some ''token'',
       sl_owner_id = Some ''owner'', sl_reserved_at = 0, sl_lease_expires_at = Some 60000000,
       sl_finished_at = None, sl_outcome = None, sl_publication_id = None\<rparr>"
  using store_step_wf [OF step_reserve [OF prod.collapse [symmetric]], of empty_store] empty_store_sound
  by (simp_all add: example_reserved_store_def store_sound_def)
    (simp_all add: reserve_slot_def empty_store_def slot_get_def tbl_insert_def in_transaction_def)

theorem reserved_publication_witness:
  "store_wf example_reserved_store \<and> reservation_held (slot_get example_reserved_store example_slot) ''token'' 1 \<and>
   (\<exists>s' res. publish_reserved_slot example_codec example_reserved_store example_candidate 1 example_slot ''token'' (Some ''KR'') =
      (s', Inr res) \<and> pu_status res = PS_PUBLISHED \<and> ds_versions s' = [version_of example_prepared 1] \<and>
      publish_reserved_slot example_codec s' example_candidate 2 example_slot ''token'' None = (s', Inr reservation_lost))"
proof -
  have held: "reservation_held (slot_get example_reserved_store example_slot) ''token'' 1"
    by (simp add: example_reserved(4) reservation_held_def)
  moreover have "ds_versions (published example_reserved_store example_prepared 1) = [version_of example_prepared 1]"
    by (simp add: published_def example_reserved(2))
  ultimately show ?thesis
    using example_reserved(1) example_publish_into [OF example_reserved(1-3)]
      reserved_publication [OF example_reserved(1), where cx = example_codec and c = example_candidate and now = 1
        and k = example_slot and token = "''token''" and m = "Some ''KR''"]
    by (auto split: prod.splits)
qed

end
