(* ===== verification/Fast_Loop.thy ===== *)
theory Fast_Loop
  imports Coordinator Market_Health Active_Decisions
begin

text \<open>
  The fast loop: \<^verbatim>\<open>src/src/orchestration/fast_loop_execution.py\<close> and the runtime inputs provider
  of \<^verbatim>\<open>src/src/orchestration/execution_inputs_snapshot.py\<close>. One applied market update goes through
  the session and health gate, the active decision, the latest state, the indicators and the
  coordinator. The orchestrator's state is the coordinator, the health tracker of its gate, the halted
  symbols and the terminal flag; what it only reads (decision store, latest state, rolling history) is a
  view. The evidence sink and the inputs provider are injected callbacks, so they are fields of
  \<open>fast_loop_deps\<close>. An exception that leaves \<^verbatim>\<open>handle_applied_update\<close> is \<open>Inl\<close>.
\<close>

section \<open>Data\<close>

datatype fast_loop_status =
    FS_COMMITTED | FS_SUPPRESSED | FS_FAILED_CLOSED | FS_SKIPPED_TERMINAL | FS_TRIGGERED_ABORTED | FS_UNCERTAIN
  | FS_RECONCILE_REQUIRED | FS_HELD_SESSION | FS_HELD_HEALTH | FS_GATE_AS_OF_MISMATCH | FS_GATE_MARKET_MISMATCH
  | FS_GATE_PROVIDER_ERROR | FS_MISSING_ACTIVE_DECISION | FS_ACTIVE_DECISION_CORRUPT
  | FS_ACTIVE_DECISION_IDENTITY_MISMATCH | FS_ACTIVE_DECISION_NOT_YET_VALID | FS_ACTIVE_DECISION_EXPIRED
  | FS_SNAPSHOT_AS_OF_MISMATCH | FS_SNAPSHOT_IDENTITY_MISMATCH | FS_EXECUTION_INPUTS_UNAVAILABLE
  | FS_HALTED_RECONCILE_REQUIRED | FS_MALFORMED_UPDATE | FS_COORDINATOR_INTERNAL_ERROR
  | FS_GLOBAL_TERMINAL_FAIL_CLOSED | FS_EVIDENCE_SINK_ERROR

fun fast_loop_status_str :: "fast_loop_status \<Rightarrow> string" where
  "fast_loop_status_str FS_COMMITTED = ''committed''"
| "fast_loop_status_str FS_SUPPRESSED = ''suppressed''"
| "fast_loop_status_str FS_FAILED_CLOSED = ''failed_closed''"
| "fast_loop_status_str FS_SKIPPED_TERMINAL = ''skipped_terminal''"
| "fast_loop_status_str FS_TRIGGERED_ABORTED = ''triggered_aborted''"
| "fast_loop_status_str FS_UNCERTAIN = ''uncertain''"
| "fast_loop_status_str FS_RECONCILE_REQUIRED = ''reconcile_required''"
| "fast_loop_status_str FS_HELD_SESSION = ''held_session''"
| "fast_loop_status_str FS_HELD_HEALTH = ''held_health''"
| "fast_loop_status_str FS_GATE_AS_OF_MISMATCH = ''gate_as_of_mismatch''"
| "fast_loop_status_str FS_GATE_MARKET_MISMATCH = ''gate_market_mismatch''"
| "fast_loop_status_str FS_GATE_PROVIDER_ERROR = ''gate_provider_error''"
| "fast_loop_status_str FS_MISSING_ACTIVE_DECISION = ''missing_active_decision''"
| "fast_loop_status_str FS_ACTIVE_DECISION_CORRUPT = ''active_decision_corrupt''"
| "fast_loop_status_str FS_ACTIVE_DECISION_IDENTITY_MISMATCH = ''active_decision_identity_mismatch''"
| "fast_loop_status_str FS_ACTIVE_DECISION_NOT_YET_VALID = ''active_decision_not_yet_valid''"
| "fast_loop_status_str FS_ACTIVE_DECISION_EXPIRED = ''active_decision_expired''"
| "fast_loop_status_str FS_SNAPSHOT_AS_OF_MISMATCH = ''snapshot_as_of_mismatch''"
| "fast_loop_status_str FS_SNAPSHOT_IDENTITY_MISMATCH = ''snapshot_identity_mismatch''"
| "fast_loop_status_str FS_EXECUTION_INPUTS_UNAVAILABLE = ''execution_inputs_unavailable''"
| "fast_loop_status_str FS_HALTED_RECONCILE_REQUIRED = ''halted_reconciliation_required''"
| "fast_loop_status_str FS_MALFORMED_UPDATE = ''malformed_update''"
| "fast_loop_status_str FS_COORDINATOR_INTERNAL_ERROR = ''coordinator_internal_error''"
| "fast_loop_status_str FS_GLOBAL_TERMINAL_FAIL_CLOSED = ''global_terminal_fail_closed''"
| "fast_loop_status_str FS_EVIDENCE_SINK_ERROR = ''evidence_sink_error''"

text \<open>\<^verbatim>\<open>FastLoopExecutionStatus(reason)\<close>, a lookup by value.\<close>

definition ALL_STATUSES :: "fast_loop_status list" where
  "ALL_STATUSES =
     [FS_COMMITTED, FS_SUPPRESSED, FS_FAILED_CLOSED, FS_SKIPPED_TERMINAL, FS_TRIGGERED_ABORTED, FS_UNCERTAIN,
      FS_RECONCILE_REQUIRED, FS_HELD_SESSION, FS_HELD_HEALTH, FS_GATE_AS_OF_MISMATCH, FS_GATE_MARKET_MISMATCH,
      FS_GATE_PROVIDER_ERROR, FS_MISSING_ACTIVE_DECISION, FS_ACTIVE_DECISION_CORRUPT,
      FS_ACTIVE_DECISION_IDENTITY_MISMATCH, FS_ACTIVE_DECISION_NOT_YET_VALID, FS_ACTIVE_DECISION_EXPIRED,
      FS_SNAPSHOT_AS_OF_MISMATCH, FS_SNAPSHOT_IDENTITY_MISMATCH, FS_EXECUTION_INPUTS_UNAVAILABLE,
      FS_HALTED_RECONCILE_REQUIRED, FS_MALFORMED_UPDATE, FS_COORDINATOR_INTERNAL_ERROR,
      FS_GLOBAL_TERMINAL_FAIL_CLOSED, FS_EVIDENCE_SINK_ERROR]"

definition fast_loop_status_of :: "string \<Rightarrow> fast_loop_status result" where
  "fast_loop_status_of = enum_of_str fast_loop_status_str ALL_STATUSES"

fun COORDINATOR_STATUS_MAP :: "coordinator_status \<Rightarrow> fast_loop_status" where
  "COORDINATOR_STATUS_MAP CS_SUPPRESSED = FS_SUPPRESSED"
| "COORDINATOR_STATUS_MAP CS_FAILED_CLOSED = FS_FAILED_CLOSED"
| "COORDINATOR_STATUS_MAP CS_SKIPPED_TERMINAL = FS_SKIPPED_TERMINAL"
| "COORDINATOR_STATUS_MAP CS_RECONCILE_REQUIRED = FS_RECONCILE_REQUIRED"
| "COORDINATOR_STATUS_MAP CS_TRIGGERED_ABORTED = FS_TRIGGERED_ABORTED"
| "COORDINATOR_STATUS_MAP CS_COMMITTED = FS_COMMITTED"
| "COORDINATOR_STATUS_MAP CS_UNCERTAIN = FS_UNCERTAIN"

record applied_update =
  au_market :: market
  au_symbol :: string
  au_event_type :: market_event_type
  au_provider :: string
  au_channel :: string
  au_sequence :: int
  au_applied_at :: instant

record execution_inputs =
  xi_allocator_decision :: allocator_decision
  xi_portfolio_policy :: portfolio_policy

record execution_result =
  er_status :: fast_loop_status
  er_reason_code :: "string option"
  er_publication_id :: "string option"
  er_decision_id :: "string option"
  er_plan_id :: "string option"
  er_trigger_id :: "string option"
  er_idempotency_key :: "string option"
  er_coordinator_status :: "coordinator_status option"

text \<open>An evidence record holds the fields of the update and of the result side by side.\<close>

record execution_evidence =
  ev_update :: applied_update
  ev_result :: execution_result

record fast_loop =
  fl_coordinator :: coordinator
  fl_tracker :: health_tracker
  fl_halted_symbols :: "(string \<times> string) set"
  fl_global_terminal :: bool

record fast_loop_deps =
  fd_hashing :: hashing
  fd_fee :: fee_calculator
  fd_codec :: codec
  fd_session_at :: "market \<Rightarrow> instant \<Rightarrow> session_error + market_session"
  fd_resolve :: "active_bundle \<Rightarrow> instant \<Rightarrow> string + execution_inputs"
  fd_on_evidence :: "(execution_evidence \<Rightarrow> unit result) option"

record fast_loop_view =
  fv_decisions :: decision_store
  fv_latest :: latest_store
  fv_rolling :: "(retention_policy \<times> history_store) option"

section \<open>The inputs providers\<close>

definition static_resolve :: "allocator_decision \<Rightarrow> portfolio_policy \<Rightarrow> active_bundle \<Rightarrow> instant \<Rightarrow> string + execution_inputs" where
  "static_resolve alloc policy active now =
     (let decision = bn_decision (ab_bundle active)
      in if an_symbol decision \<noteq> ab_symbol active then Inl ''active symbol mismatch''
         else if an_market decision \<noteq> ab_market active then Inl ''active market mismatch''
         else if now < al_created_at alloc then Inl ''allocator created_at in future''
         else if al_universe alloc \<noteq> an_universe decision then Inl ''allocator universe mismatch''
         else case bn_plan (ab_bundle active) of
           None \<Rightarrow> Inr \<lparr>xi_allocator_decision = alloc, xi_portfolio_policy = policy\<rparr>
         | Some plan \<Rightarrow>
             if pl_symbol plan \<noteq> ab_symbol active \<or> market_str (pl_market plan) \<noteq> ab_market active
             then Inl ''plan identity mismatch''
             else if pl_universe plan \<noteq> an_universe decision then Inl ''universe mismatch''
             else Inr \<lparr>xi_allocator_decision = alloc, xi_portfolio_policy = policy\<rparr>)"

record inputs_snapshot =
  is_source_id :: string
  is_created_at :: instant
  is_expires_at :: instant
  is_universe :: string
  is_allocator_decision :: allocator_decision
  is_portfolio_policy :: portfolio_policy
  is_payload_sha256 :: string

definition validated_resolve :: "inputs_snapshot \<Rightarrow> active_bundle \<Rightarrow> instant \<Rightarrow> string + execution_inputs" where
  "validated_resolve snap active now =
     (let decision = bn_decision (ab_bundle active); alloc = is_allocator_decision snap
      in if now < is_created_at snap then Inl ''snapshot_not_yet_valid''
         else if is_expires_at snap < now then Inl ''snapshot_expired''
         else if is_universe snap \<noteq> an_universe decision then Inl ''snapshot_active_universe_mismatch''
         else if al_universe alloc \<noteq> an_universe decision then Inl ''snapshot_active_universe_mismatch''
         else if now < al_created_at alloc then Inl ''snapshot_allocator_created_after''
         else if (\<exists>plan \<in> set_option (bn_plan (ab_bundle active)). pl_universe plan \<noteq> an_universe decision)
         then Inl ''snapshot_active_universe_mismatch''
         else Inr \<lparr>xi_allocator_decision = alloc, xi_portfolio_policy = is_portfolio_policy snap\<rparr>)"

section \<open>The checks\<close>

definition is_blank :: "string \<Rightarrow> bool" where
  "is_blank s \<longleftrightarrow> strip s = []"

definition bare_result :: "fast_loop_status \<Rightarrow> string option \<Rightarrow> execution_result" where
  "bare_result status reason_code =
     \<lparr>er_status = status, er_reason_code = reason_code, er_publication_id = None, er_decision_id = None,
      er_plan_id = None, er_trigger_id = None, er_idempotency_key = None, er_coordinator_status = None\<rparr>"

abbreviation own_result :: "fast_loop_status \<Rightarrow> execution_result" where
  "own_result status \<equiv> bare_result status (Some (fast_loop_status_str status))"

definition preflight_update :: "applied_update \<Rightarrow> execution_result option" where
  "preflight_update u =
     (if au_event_type u \<notin> {TRADE, BEST_BID_ASK} \<or> is_blank (au_symbol u) \<or> is_blank (au_provider u) \<or>
         is_blank (au_channel u) \<or> au_sequence u < 0
      then Some (own_result FS_MALFORMED_UPDATE) else None)"

definition active_identity_ok :: "active_bundle \<Rightarrow> applied_update \<Rightarrow> bool" where
  "active_identity_ok active u \<longleftrightarrow>
     ab_market active = market_str (au_market u) \<and> ab_symbol active = au_symbol u \<and>
     an_symbol (bn_decision (ab_bundle active)) = au_symbol u \<and>
     an_market (bn_decision (ab_bundle active)) = market_str (au_market u) \<and>
     (case bn_plan (ab_bundle active) of None \<Rightarrow> True
      | Some plan \<Rightarrow> pl_symbol plan = au_symbol u \<and> pl_market plan = au_market u)"

definition active_identity_reason :: "active_bundle \<Rightarrow> applied_update \<Rightarrow> string option" where
  "active_identity_reason active u =
     (if active_identity_ok active u then None
      else Some (fast_loop_status_str FS_ACTIVE_DECISION_IDENTITY_MISMATCH))"

definition active_window :: "active_bundle \<Rightarrow> instant \<times> instant" where
  "active_window active =
     (case bn_plan (ab_bundle active) of None \<Rightarrow> (ab_valid_from active, ab_expires_at active)
      | Some plan \<Rightarrow> (pl_valid_from plan, pl_expires_at plan))"

definition active_validity_reason :: "active_bundle \<Rightarrow> instant \<Rightarrow> string option" where
  "active_validity_reason active now =
     (case active_window active of (valid_from, expires_at) \<Rightarrow>
        if now < valid_from then Some ''not_yet_valid'' else if expires_at < now then Some ''expired'' else None)"

fun trigger_reason_str :: "trigger_reason \<Rightarrow> string" where
  "trigger_reason_str HOLD_ACTION = ''hold_action''"
| "trigger_reason_str NO_ACTIVE_DECISION = ''no_active_decision''"
| "trigger_reason_str DECISION_NOT_YET_VALID = ''decision_not_yet_valid''"
| "trigger_reason_str STALE_DECISION = ''stale_decision''"
| "trigger_reason_str TRADING_NOT_ALLOWED = ''trading_not_allowed''"
| "trigger_reason_str STALE_PERMISSION = ''stale_permission''"
| "trigger_reason_str PERMISSION_NOT_YET_VALID = ''permission_not_yet_valid''"
| "trigger_reason_str PERMISSION_MARKET_MISMATCH = ''permission_market_mismatch''"
| "trigger_reason_str SNAPSHOT_MARKET_MISMATCH = ''snapshot_market_mismatch''"
| "trigger_reason_str SNAPSHOT_SYMBOL_MISMATCH = ''snapshot_symbol_mismatch''"
| "trigger_reason_str MISSING_TRADE = ''missing_trade''"
| "trigger_reason_str STALE_TRADE = ''stale_trade''"
| "trigger_reason_str MISSING_QUOTE = ''missing_quote''"
| "trigger_reason_str STALE_QUOTE = ''stale_quote''"
| "trigger_reason_str CONDITION_FALSE = ''condition_false''"
| "trigger_reason_str DEBOUNCE_PENDING = ''debounce_pending''"
| "trigger_reason_str COOLDOWN_ACTIVE = ''cooldown_active''"
| "trigger_reason_str MAX_FIRES_REACHED = ''max_fires_reached''"
| "trigger_reason_str STALE_SNAPSHOT = ''stale_snapshot''"
| "trigger_reason_str INDICATOR_CONTEXT_STALE = ''indicator_context_stale''"
| "trigger_reason_str MISSING_INDICATOR = ''missing_indicator''"
| "trigger_reason_str INDICATOR_WARMING = ''indicator_warming''"
| "trigger_reason_str INDICATOR_DISCONTINUOUS = ''indicator_discontinuous''"
| "trigger_reason_str INDICATOR_STALE = ''indicator_stale''"
| "trigger_reason_str INDICATOR_FUTURE = ''indicator_future''"
| "trigger_reason_str INDICATOR_INSUFFICIENT_RETENTION = ''indicator_insufficient_retention''"
| "trigger_reason_str INDICATOR_IDENTITY_MISMATCH = ''indicator_identity_mismatch''"
| "trigger_reason_str INDICATOR_LAGGING = ''indicator_lagging''"

definition map_coordinator_result :: "coordinator_result \<Rightarrow> execution_result" where
  "map_coordinator_result r =
     \<lparr>er_status = COORDINATOR_STATUS_MAP (cr_status r),
      er_reason_code = (case cr_reason_code r of Some c \<Rightarrow> Some c
        | None \<Rightarrow> map_option trigger_reason_str (cr_trigger_reason r)),
      er_publication_id = None, er_decision_id = None, er_plan_id = None,
      er_trigger_id = map_option sg_trigger_id (cr_signal r),
      er_idempotency_key = map_option sg_idempotency_key (cr_signal r),
      er_coordinator_status = Some (cr_status r)\<rparr>"

definition for_active :: "active_bundle \<Rightarrow> execution_result \<Rightarrow> execution_result" where
  "for_active active r =
     r\<lparr>er_publication_id := Some (ab_publication_id active), er_decision_id := Some (ab_decision_id active),
       er_plan_id := ab_plan_id active\<rparr>"

section \<open>Handling an update\<close>

type_synonym loop_answer = "fast_loop \<times> (exn + execution_result)"

definition emit_and_return :: "fast_loop_deps \<Rightarrow> fast_loop \<Rightarrow> applied_update \<Rightarrow> execution_result \<Rightarrow> loop_answer" where
  "emit_and_return d l u r =
     (case fd_on_evidence d of
        None \<Rightarrow> (l, Inr r)
      | Some sink \<Rightarrow>
          (case sink \<lparr>ev_update = u, ev_result = r\<rparr> of
             Inr _ \<Rightarrow> (l, Inr r)
           | Inl _ \<Rightarrow> (l\<lparr>fl_global_terminal := True\<rparr>,
               Inr (if er_status r = FS_COMMITTED then r else own_result FS_EVIDENCE_SINK_ERROR))))"

text \<open>The indicators of the plan, when a rolling store is wired and the rules ask for windows.\<close>

definition loop_indicators ::
  "fast_loop_deps \<Rightarrow> fast_loop_view \<Rightarrow> applied_update \<Rightarrow> trigger_bundle \<Rightarrow> indicator_context option result" where
  "loop_indicators d v u b =
     (case (bn_plan b, fv_rolling v) of
        (Some plan, Some (policy, history)) \<Rightarrow>
          let specs = rule_required_windows (hx_window (fd_hashing d)) (pl_rules plan)
          in if specs = [] then Inr None
             else rbind (build_indicator_context (hx_window (fd_hashing d))
                           (peek_history policy history (au_market u) (au_symbol u)) specs (au_applied_at u))
                    (\<lambda>ctx. Inr (Some ctx))
      | _ \<Rightarrow> Inr None)"

definition update_key :: "applied_update \<Rightarrow> string \<times> string" where
  "update_key u = (market_str (au_market u), au_symbol u)"

text \<open>The call of the coordinator and what its answer does to the loop.\<close>

definition run_coordinator ::
  "fast_loop_deps \<Rightarrow> fast_loop_view \<Rightarrow> fast_loop \<Rightarrow> applied_update \<Rightarrow> active_bundle \<Rightarrow> indicator_context option \<Rightarrow>
   trading_permission \<Rightarrow> execution_inputs \<Rightarrow> loop_answer" where
  "run_coordinator d v l u active indicators permission inputs =
     (case process (fd_hashing d) (fd_fee d) (latest_source (fv_latest v)) (fl_coordinator l) (ab_bundle active)
             (peek (fv_latest v) (au_market u) (au_symbol u) (au_applied_at u)) (Some permission)
             (xi_allocator_decision inputs) (xi_portfolio_policy inputs) (au_applied_at u) indicators of
        (c, Inl _) \<Rightarrow>
          emit_and_return d (l\<lparr>fl_coordinator := c, fl_global_terminal := True\<rparr>) u
            (for_active active (own_result FS_COORDINATOR_INTERNAL_ERROR))
      | (c, Inr r) \<Rightarrow>
          let mapped = map_coordinator_result r; l1 = l\<lparr>fl_coordinator := c\<rparr>;
              l2 = (if er_status mapped \<in> {FS_UNCERTAIN, FS_RECONCILE_REQUIRED}
                    then l1\<lparr>fl_halted_symbols := insert (update_key u) (fl_halted_symbols l1)\<rparr> else l1)
          in emit_and_return d l2 u (for_active active mapped))"

definition execute_active ::
  "fast_loop_deps \<Rightarrow> fast_loop_view \<Rightarrow> fast_loop \<Rightarrow> applied_update \<Rightarrow> active_bundle \<Rightarrow> loop_answer" where
  "execute_active d v l u active =
     (let now = au_applied_at u; snap = peek (fv_latest v) (au_market u) (au_symbol u) now
      in case active_identity_reason active u of
           Some reason \<Rightarrow>
             emit_and_return d l u (for_active active (bare_result FS_ACTIVE_DECISION_IDENTITY_MISMATCH (Some reason)))
         | None \<Rightarrow>
             (case active_validity_reason active now of
                Some reason \<Rightarrow>
                  emit_and_return d l u (for_active active (own_result
                    (if reason = ''not_yet_valid'' then FS_ACTIVE_DECISION_NOT_YET_VALID else FS_ACTIVE_DECISION_EXPIRED)))
              | None \<Rightarrow>
                  if ls_evaluated_at snap \<noteq> now
                  then emit_and_return d l u (for_active active (own_result FS_SNAPSHOT_AS_OF_MISMATCH))
                  else if ls_market snap \<noteq> au_market u \<or> ls_symbol snap \<noteq> au_symbol u
                  then emit_and_return d l u (for_active active (own_result FS_SNAPSHOT_IDENTITY_MISMATCH))
                  else case loop_indicators d v u (ab_bundle active) of
                    Inl e \<Rightarrow> (l, Inl e)
                  | Inr indicators \<Rightarrow>
                      (case mk_TradingPermission
                              \<lparr>tp_market = au_market u, tp_allowed = True, tp_checked_at = now, tp_valid_until = now,
                               tp_reason_code = ''session_and_health_ready''\<rparr> of
                         Inl e \<Rightarrow> (l, Inl e)
                       | Inr permission \<Rightarrow>
                           (case fd_resolve d active now of
                              Inl _ \<Rightarrow> emit_and_return d l u (for_active active (own_result FS_EXECUTION_INPUTS_UNAVAILABLE))
                            | Inr inputs \<Rightarrow> run_coordinator d v l u active indicators permission inputs))))"

definition handle_applied_update :: "fast_loop_deps \<Rightarrow> fast_loop_view \<Rightarrow> fast_loop \<Rightarrow> applied_update \<Rightarrow> loop_answer" where
  "handle_applied_update d v l u =
     (if fl_global_terminal l then (l, Inr (own_result FS_GLOBAL_TERMINAL_FAIL_CLOSED))
      else case preflight_update u of
        Some r \<Rightarrow> (l, Inr r)
      | None \<Rightarrow>
          if update_key u \<in> fl_halted_symbols l then emit_and_return d l u (own_result FS_HALTED_RECONCILE_REQUIRED)
          else case evaluate_gate (fd_session_at d) (fl_tracker l) (au_market u) (au_applied_at u) of
            (tracker, gate) \<Rightarrow>
              let l1 = l\<lparr>fl_tracker := tracker\<rparr>
              in case evaluate_gate_safe gate of
                   Inl gate_error \<Rightarrow>
                     (case (if gate_error = REASON_GATE_PROVIDER_ERROR then Inr FS_GATE_PROVIDER_ERROR
                            else fast_loop_status_of gate_error) of
                        Inl e \<Rightarrow> (l1, Inl e)
                      | Inr status \<Rightarrow> emit_and_return d l1 u (bare_result status (Some gate_error)))
                 | Inr g \<Rightarrow>
                     (case gate_execution_reason g (au_market u) (au_applied_at u) of
                        Some reason \<Rightarrow>
                          (case fast_loop_status_of reason of
                             Inl e \<Rightarrow> (l1, Inl e)
                           | Inr status \<Rightarrow> emit_and_return d l1 u (bare_result status (Some reason)))
                      | None \<Rightarrow>
                          (case read_active (fd_codec d) (fv_decisions v) (market_str (au_market u)) (au_symbol u) of
                             Inl (PublicationError _) \<Rightarrow>
                               emit_and_return d (l1\<lparr>fl_global_terminal := True\<rparr>) u (own_result FS_ACTIVE_DECISION_CORRUPT)
                           | Inl (StoreRaised e) \<Rightarrow> (l1, Inl e)
                           | Inr None \<Rightarrow> emit_and_return d l1 u (own_result FS_MISSING_ACTIVE_DECISION)
                           | Inr (Some active) \<Rightarrow> execute_active d v l1 u active)))"

section \<open>What reaches the coordinator\<close>

text \<open>All that must hold at an update before the coordinator is called.\<close>

definition authorised :: "fast_loop_deps \<Rightarrow> fast_loop_view \<Rightarrow> fast_loop \<Rightarrow> applied_update \<Rightarrow> active_bundle \<Rightarrow> bool" where
  "authorised d v l u a \<longleftrightarrow>
     \<not> fl_global_terminal l \<and> update_key u \<notin> fl_halted_symbols l \<and>
     (\<exists>s t h. fd_session_at d (au_market u) (au_applied_at u) = Inr s \<and> is_open s \<and>
        evaluate_health (fl_tracker l) s (au_applied_at u) = (t, Inr h) \<and> is_execution_ready h) \<and>
     read_active (fd_codec d) (fv_decisions v) (market_str (au_market u)) (au_symbol u) = Inr (Some a) \<and>
     active_identity_ok a u \<and> fst (active_window a) \<le> au_applied_at u \<and> au_applied_at u \<le> snd (active_window a)"

definition session_permission :: "applied_update \<Rightarrow> trading_permission" where
  "session_permission u =
     \<lparr>tp_market = au_market u, tp_allowed = True, tp_checked_at = au_applied_at u, tp_valid_until = au_applied_at u,
      tp_reason_code = ''session_and_health_ready''\<rparr>"

definition STOP_STATUSES :: "fast_loop_status set" where
  "STOP_STATUSES = {FS_ACTIVE_DECISION_CORRUPT, FS_COORDINATOR_INTERNAL_ERROR, FS_EVIDENCE_SINK_ERROR}"

definition UNRESOLVED_STATUSES :: "fast_loop_status set" where
  "UNRESOLVED_STATUSES = {FS_UNCERTAIN, FS_RECONCILE_REQUIRED}"

text \<open>An answer that leaves coordinator and halted symbols alone and reports stops honestly.\<close>

definition untouched :: "fast_loop \<Rightarrow> loop_answer \<Rightarrow> bool" where
  "untouched l ans \<longleftrightarrow>
     fl_coordinator (fst ans) = fl_coordinator l \<and> fl_halted_symbols (fst ans) = fl_halted_symbols l \<and>
     (fl_global_terminal l \<longrightarrow> fl_global_terminal (fst ans)) \<and>
     (\<forall>r. snd ans = Inr r \<longrightarrow> er_status r \<notin> UNRESOLVED_STATUSES \<and>
        (er_status r \<in> STOP_STATUSES \<longrightarrow> fl_global_terminal (fst ans)))"

lemma emit_and_return_loop [simp]:
  "fl_coordinator (fst (emit_and_return d l u r)) = fl_coordinator l"
  "fl_halted_symbols (fst (emit_and_return d l u r)) = fl_halted_symbols l"
  "fl_tracker (fst (emit_and_return d l u r)) = fl_tracker l"
  "fl_global_terminal l \<Longrightarrow> fl_global_terminal (fst (emit_and_return d l u r))"
  by (auto simp: emit_and_return_def split: option.splits sum.splits)

lemma emit_and_return_answer:
  assumes "snd (emit_and_return d l u r) = Inr r'"
  shows "r' = r \<or> er_status r' = FS_EVIDENCE_SINK_ERROR \<and> fl_global_terminal (fst (emit_and_return d l u r))"
  using assms by (auto simp: emit_and_return_def bare_result_def split: option.splits sum.splits if_splits)

lemma emit_and_return_total: "\<exists>r'. snd (emit_and_return d l u r) = Inr r'"
  by (auto simp: emit_and_return_def split: option.split sum.split)

lemma for_active_status [simp]: "er_status (for_active a r) = er_status r"
  by (simp add: for_active_def)

lemma bare_result_status [simp]: "er_status (bare_result st r) = st"
  by (simp add: bare_result_def)

lemma untouched_emit:
  assumes "er_status r \<notin> UNRESOLVED_STATUSES" and "er_status r \<in> STOP_STATUSES \<Longrightarrow> fl_global_terminal l'"
    and "fl_coordinator l' = fl_coordinator l" "fl_halted_symbols l' = fl_halted_symbols l"
    "fl_global_terminal l \<Longrightarrow> fl_global_terminal l'"
  shows "untouched l (emit_and_return d l' u r)"
  using assms emit_and_return_answer [of d l' u r]
  by (auto simp: untouched_def UNRESOLVED_STATUSES_def)

lemma session_permission_valid: "mk_TradingPermission (session_permission u) = Inr (session_permission u)"
  by (simp add: mk_TradingPermission_def session_permission_def normalize_required_string_def strip_def is_space_def)

lemmas status_sets = UNRESOLVED_STATUSES_def STOP_STATUSES_def

lemma execute_active_cases:
  obtains (kept) "untouched l (execute_active d v l u a)"
  | (run) ind inp where "active_identity_ok a u" "fst (active_window a) \<le> au_applied_at u" "au_applied_at u \<le> snd (active_window a)"
    "loop_indicators d v u (ab_bundle a) = Inr ind" "fd_resolve d a (au_applied_at u) = Inr inp"
    "execute_active d v l u a = run_coordinator d v l u a ind (session_permission u) inp"
proof (cases "active_identity_ok a u \<and> active_validity_reason a (au_applied_at u) = None")
  case False
  then have "untouched l (execute_active d v l u a)"
    by (auto simp: execute_active_def Let_def active_identity_reason_def intro!: untouched_emit
        simp: status_sets split: option.splits)
  then show thesis by (rule kept)
next
  case True
  then have w: "fst (active_window a) \<le> au_applied_at u" "au_applied_at u \<le> snd (active_window a)"
    by (auto simp: active_validity_reason_def split: prod.splits if_splits)
  show thesis
  proof (cases "loop_indicators d v u (ab_bundle a)")
    case (Inl e)
    then have "execute_active d v l u a = (l, Inl e)"
      using True by (simp add: execute_active_def Let_def active_identity_reason_def peek_def)
    then show thesis by (intro kept) (simp add: untouched_def)
  next
    case (Inr ind)
    note eq = execute_active_def Let_def active_identity_reason_def peek_def
      session_permission_valid [unfolded session_permission_def] session_permission_def
    show thesis
    proof (cases "fd_resolve d a (au_applied_at u)")
      case (Inl e)
      then have "untouched l (execute_active d v l u a)"
        using True Inr by (simp add: eq) (rule untouched_emit; simp add: status_sets)
      then show thesis by (rule kept)
    next
      case (Inr inp)
      then show thesis using True w \<open>loop_indicators d v u (ab_bundle a) = Inr ind\<close>
        by (intro run [of ind inp]) (simp_all add: eq)
    qed
  qed
qed

lemma gate_status_values:
  "fast_loop_status_of ''held_session'' = Inr FS_HELD_SESSION" "fast_loop_status_of ''held_health'' = Inr FS_HELD_HEALTH"
  "fast_loop_status_of ''gate_as_of_mismatch'' = Inr FS_GATE_AS_OF_MISMATCH"
  "fast_loop_status_of ''gate_market_mismatch'' = Inr FS_GATE_MARKET_MISMATCH"
  by (simp_all add: fast_loop_status_of_def enum_of_str_def ALL_STATUSES_def)

lemma gate_reason_status:
  assumes "gate_execution_reason g m now = Some reason"
  obtains st where "fast_loop_status_of reason = Inr st" "st \<notin> UNRESOLVED_STATUSES \<union> STOP_STATUSES"
proof -
  have "reason \<in> {''held_session'', ''held_health'', ''gate_as_of_mismatch'', ''gate_market_mismatch''}"
    using assms by (simp add: gate_execution_reason_def split: if_split_asm)
  then show thesis by (elim insertE) (auto intro!: that simp: gate_status_values status_sets)
qed

lemma gate_admits:
  assumes "evaluate_gate session_at t m now = (t', Some g)" "gate_execution_reason g m now = None"
  shows "\<exists>s h. session_at m now = Inr s \<and> is_open s \<and> evaluate_health t s now = (t', Inr h) \<and> is_execution_ready h"
  using assms by (auto simp: evaluate_gate_def gate_execution_reason_def is_open_def split: sum.splits prod.splits if_splits)

lemma handle_cases:
  obtains (idle) "untouched l (handle_applied_update d v l u)"
  | (executed) t a ind inp where "authorised d v l u a" "loop_indicators d v u (ab_bundle a) = Inr ind"
    "fd_resolve d a (au_applied_at u) = Inr inp"
    "handle_applied_update d v l u = run_coordinator d v (l\<lparr>fl_tracker := t\<rparr>) u a ind (session_permission u) inp"
proof (cases "fl_global_terminal l \<or> preflight_update u \<noteq> None \<or> update_key u \<in> fl_halted_symbols l")
  case True
  then have "untouched l (handle_applied_update d v l u)"
  proof (elim disjE)
    assume "preflight_update u \<noteq> None"
    then show ?thesis
      by (auto simp: handle_applied_update_def preflight_update_def untouched_def status_sets split: if_splits)
  next
    assume halt: "update_key u \<in> fl_halted_symbols l"
    have "untouched l (l, Inr (own_result FS_GLOBAL_TERMINAL_FAIL_CLOSED))" if "fl_global_terminal l"
      using that by (simp add: untouched_def status_sets)
    moreover have "untouched l (l, Inr r)" if "preflight_update u = Some r" for r
      using that by (auto simp: preflight_update_def untouched_def status_sets split: if_splits)
    moreover have "untouched l (emit_and_return d l u (own_result FS_HALTED_RECONCILE_REQUIRED))"
      by (rule untouched_emit) (simp_all add: status_sets)
    ultimately show ?thesis using halt
      by (cases "preflight_update u") (simp_all add: handle_applied_update_def)
  qed (simp add: handle_applied_update_def untouched_def status_sets)
  then show thesis by (rule idle)
next
  case False
  obtain t g where gate: "evaluate_gate (fd_session_at d) (fl_tracker l) (au_market u) (au_applied_at u) = (t, g)" by fastforce
  let ?l = "l\<lparr>fl_tracker := t\<rparr>"
  have open_case: thesis if g: "g = Some g'" and adm: "gate_execution_reason g' (au_market u) (au_applied_at u) = None" for g'
  proof -
    obtain s h where gate_ok: "fd_session_at d (au_market u) (au_applied_at u) = Inr s" "is_open s"
      "evaluate_health (fl_tracker l) s (au_applied_at u) = (t, Inr h)" "is_execution_ready h"
      using gate_admits [OF gate [unfolded g] adm] by blast
    let ?read = "read_active (fd_codec d) (fv_decisions v) (market_str (au_market u)) (au_symbol u)"
    have h: "handle_applied_update d v l u = (case ?read of
        Inl (PublicationError _) \<Rightarrow> emit_and_return d (?l\<lparr>fl_global_terminal := True\<rparr>) u (own_result FS_ACTIVE_DECISION_CORRUPT)
      | Inl (StoreRaised e) \<Rightarrow> (?l, Inl e)
      | Inr None \<Rightarrow> emit_and_return d ?l u (own_result FS_MISSING_ACTIVE_DECISION)
      | Inr (Some active) \<Rightarrow> execute_active d v ?l u active)"
      using False gate g adm by (simp add: handle_applied_update_def Let_def evaluate_gate_safe_def)
    consider (err) e where "?read = Inl e" | (none) "?read = Inr None" | (act) a where "?read = Inr (Some a)"
      by (metis option.exhaust sum.exhaust)
    then show thesis
    proof cases
      case err
      then have "untouched l (handle_applied_update d v l u)"
        by (cases e) (auto simp: h untouched_def [of _ "(_, _)"] status_sets intro!: untouched_emit)
      then show thesis by (rule idle)
    next
      case none
      then have "untouched l (handle_applied_update d v l u)" by (auto simp: h status_sets intro!: untouched_emit)
      then show thesis by (rule idle)
    next
      case act
      then have eq: "handle_applied_update d v l u = execute_active d v ?l u a" by (simp add: h)
      from execute_active_cases [of ?l d v u a] show thesis
      proof cases
        case kept
        then show thesis by (intro idle) (simp add: eq untouched_def)
      next
        case (run ind inp)
        then show thesis using act False gate_ok eq by (intro executed [of a ind inp t]) (auto simp: authorised_def)
      qed
    qed
  qed
  show thesis
  proof (cases "\<exists>g'. g = Some g' \<and> gate_execution_reason g' (au_market u) (au_applied_at u) = None")
    case True
    then show thesis using open_case by blast
  next
    case closed: False
    have "untouched l (handle_applied_update d v l u)"
    proof (cases g)
      case None
      then show ?thesis using False gate
        by (auto simp: handle_applied_update_def Let_def evaluate_gate_safe_def status_sets intro!: untouched_emit)
    next
      case (Some g')
      then obtain reason where r: "gate_execution_reason g' (au_market u) (au_applied_at u) = Some reason" using closed by (cases "gate_execution_reason g' (au_market u) (au_applied_at u)") auto
      obtain st where "fast_loop_status_of reason = Inr st" "st \<notin> UNRESOLVED_STATUSES \<union> STOP_STATUSES"
        using gate_reason_status [OF r] by blast
      then show ?thesis using False gate Some r
        by (auto simp: handle_applied_update_def Let_def evaluate_gate_safe_def intro!: untouched_emit)
    qed
    then show thesis by (rule idle)
  qed
qed

text \<open>The coordinator's half: what a call leaves in the loop.\<close>

lemma run_coordinator_effect:
  fixes d v l u a ind permission inp
  defines "p \<equiv> process (fd_hashing d) (fd_fee d) (latest_source (fv_latest v)) (fl_coordinator l) (ab_bundle a)
      (peek (fv_latest v) (au_market u) (au_symbol u) (au_applied_at u)) (Some permission)
      (xi_allocator_decision inp) (xi_portfolio_policy inp) (au_applied_at u) ind"
  assumes "run_coordinator d v l u a ind permission inp = (l', ans)"
  shows "fl_coordinator l' = fst p" and "fl_global_terminal l \<Longrightarrow> fl_global_terminal l'"
    and "fl_halted_symbols l \<subseteq> fl_halted_symbols l'"
    and "\<exists>r. ans = Inr r \<and> (er_status r \<in> UNRESOLVED_STATUSES \<longrightarrow> update_key u \<in> fl_halted_symbols l') \<and>
      (er_status r \<in> STOP_STATUSES \<longrightarrow> fl_global_terminal l') \<and>
      (r = for_active a (own_result FS_COORDINATOR_INTERNAL_ERROR) \<or> er_status r = FS_EVIDENCE_SINK_ERROR \<or>
       (\<exists>cr. snd p = Inr cr \<and> r = for_active a (map_coordinator_result cr)))"
    and "case snd p of Inl e \<Rightarrow> fl_global_terminal l'
      | Inr cr \<Rightarrow> cr_status cr \<in> {CS_UNCERTAIN, CS_RECONCILE_REQUIRED} \<longrightarrow> update_key u \<in> fl_halted_symbols l'"
proof -
  obtain c res where p: "p = (c, res)" by fastforce
  define l2 r where "l2 = (case res of Inl _ \<Rightarrow> l\<lparr>fl_coordinator := c, fl_global_terminal := True\<rparr>
      | Inr cr \<Rightarrow> if er_status (map_coordinator_result cr) \<in> UNRESOLVED_STATUSES
                 then l\<lparr>fl_coordinator := c, fl_halted_symbols := insert (update_key u) (fl_halted_symbols l)\<rparr>
                 else l\<lparr>fl_coordinator := c\<rparr>)"
    and "r = for_active a (case res of Inl _ \<Rightarrow> own_result FS_COORDINATOR_INTERNAL_ERROR
      | Inr cr \<Rightarrow> map_coordinator_result cr)"
  have run: "(l', ans) = emit_and_return d l2 u r"
    using assms(2) p unfolding run_coordinator_def p_def [symmetric]
    by (cases res) (auto simp: l2_def r_def Let_def UNRESOLVED_STATUSES_def)
  then have l': "l' = fst (emit_and_return d l2 u r)" and ans: "ans = snd (emit_and_return d l2 u r)"
    by (metis fst_conv, metis snd_conv)
  obtain r' where r': "ans = Inr r'" using emit_and_return_total [of d l2 u r] by (auto simp: ans)
  have eff: "r' = r \<or> er_status r' = FS_EVIDENCE_SINK_ERROR \<and> fl_global_terminal l'"
    using emit_and_return_answer [of d l2 u r r'] r' unfolding l' ans by blast
  have halted: "er_status r \<in> UNRESOLVED_STATUSES \<longrightarrow> update_key u \<in> fl_halted_symbols l2"
    by (cases res) (auto simp: r_def l2_def UNRESOLVED_STATUSES_def)
  have "er_status (map_coordinator_result cr) \<notin> STOP_STATUSES" for cr
    by (cases "cr_status cr") (simp_all add: map_coordinator_result_def STOP_STATUSES_def)
  then have stop: "er_status r \<in> STOP_STATUSES \<longrightarrow> fl_global_terminal l2"
    by (cases res) (auto simp: r_def l2_def)
  show "fl_coordinator l' = fst p" by (cases res) (simp_all add: l' l2_def p)
  show "fl_global_terminal l \<Longrightarrow> fl_global_terminal l'" by (cases res) (simp_all add: l' l2_def)
  show "fl_halted_symbols l \<subseteq> fl_halted_symbols l'" by (cases res) (auto simp: l' l2_def)
  have sink: "FS_EVIDENCE_SINK_ERROR \<notin> UNRESOLVED_STATUSES" by (simp add: UNRESOLVED_STATUSES_def)
  have shape: "r = for_active a (own_result FS_COORDINATOR_INTERNAL_ERROR) \<or>
      (\<exists>cr. snd p = Inr cr \<and> r = for_active a (map_coordinator_result cr))"
    by (cases res) (simp_all add: r_def p)
  have "er_status r' \<in> UNRESOLVED_STATUSES \<longrightarrow> update_key u \<in> fl_halted_symbols l'"
    using eff halted sink by (auto simp: l')
  moreover have "er_status r' \<in> STOP_STATUSES \<longrightarrow> fl_global_terminal l'"
    using eff stop emit_and_return_loop(4) unfolding l' by blast
  ultimately show "\<exists>r. ans = Inr r \<and> (er_status r \<in> UNRESOLVED_STATUSES \<longrightarrow> update_key u \<in> fl_halted_symbols l') \<and>
      (er_status r \<in> STOP_STATUSES \<longrightarrow> fl_global_terminal l') \<and>
      (r = for_active a (own_result FS_COORDINATOR_INTERNAL_ERROR) \<or> er_status r = FS_EVIDENCE_SINK_ERROR \<or>
       (\<exists>cr. snd p = Inr cr \<and> r = for_active a (map_coordinator_result cr)))"
    using r' eff shape by blast
  show "case snd p of Inl e \<Rightarrow> fl_global_terminal l'
      | Inr cr \<Rightarrow> cr_status cr \<in> {CS_UNCERTAIN, CS_RECONCILE_REQUIRED} \<longrightarrow> update_key u \<in> fl_halted_symbols l'"
    by (cases res) (auto simp: p l' l2_def map_coordinator_result_def UNRESOLVED_STATUSES_def)
qed

section \<open>Runs\<close>

text \<open>
  A run of the loop: updates, each with the stores as they are then, and between them any change of
  the health tracker by the supervisor of the feed.
\<close>

datatype loop_input = Applied fast_loop_view applied_update | Health health_tracker

fun loop_step :: "fast_loop_deps \<Rightarrow> fast_loop \<Rightarrow> loop_input \<Rightarrow> fast_loop" where
  "loop_step d l (Applied v u) = fst (handle_applied_update d v l u)"
| "loop_step d l (Health t) = l\<lparr>fl_tracker := t\<rparr>"

definition run_loop :: "fast_loop_deps \<Rightarrow> fast_loop \<Rightarrow> loop_input list \<Rightarrow> fast_loop" where
  "run_loop d l xs = foldl (loop_step d) l xs"

lemma run_loop_simps [simp]:
  "run_loop d l [] = l" "run_loop d l (x # xs) = run_loop d (loop_step d l x) xs"
  "run_loop d l (xs @ ys) = run_loop d (run_loop d l xs) ys"
  by (simp_all add: run_loop_def)

lemma run_loop_take_Suc:
  "i < length xs \<Longrightarrow> run_loop d l (take (Suc i) xs) = loop_step d (run_loop d l (take i xs)) (xs ! i)"
  by (simp add: take_Suc_conv_app_nth)

lemma loop_step_monotone:
  "fl_global_terminal l \<Longrightarrow> fl_global_terminal (loop_step d l x)"
  "fl_halted_symbols l \<subseteq> fl_halted_symbols (loop_step d l x)"
proof -
  have "(fl_global_terminal l \<longrightarrow> fl_global_terminal (loop_step d l x)) \<and> fl_halted_symbols l \<subseteq> fl_halted_symbols (loop_step d l x)"
  proof (cases x)
    case (Applied v u)
    show ?thesis
    proof (cases rule: handle_cases [of l d v u])
      case idle
      then show ?thesis by (simp add: Applied untouched_def)
    next
      case (executed t a ind inp)
      obtain l' ans where h: "handle_applied_update d v l u = (l', ans)" by fastforce
      from run_coordinator_effect(2,3) [OF executed(4) [symmetric, unfolded h]] show ?thesis by (simp add: Applied h)
    qed
  qed simp
  then show "fl_global_terminal l \<Longrightarrow> fl_global_terminal (loop_step d l x)"
    "fl_halted_symbols l \<subseteq> fl_halted_symbols (loop_step d l x)" by blast+
qed

lemma run_loop_monotone:
  shows "fl_global_terminal l \<Longrightarrow> fl_global_terminal (run_loop d l xs)"
    and "fl_halted_symbols l \<subseteq> fl_halted_symbols (run_loop d l xs)"
proof (induction xs arbitrary: l)
  case (Cons x xs)
  {
    case 1
    then show ?case using Cons(1) loop_step_monotone(1) by simp
  next
    case 2
    show ?case using Cons(2) [of "loop_step d l x"] loop_step_monotone(2) [of l d x] by auto
  }
qed simp_all

lemma process_keeps_world:
  assumes "world_ok (cd_world c)"
  shows "world_ok (cd_world (fst (process hx fee source c b snap permission alloc policy now indicators)))"
proof -
  let ?stage = "stage source (bw_ledger (cd_world c)) b snap alloc policy now"
  have fire: "world_ok (cd_world (fst (execute_fire fee c' b alloc prep sg st now)))"
    if "?stage = Staged prep" "cd_world c' = cd_world c" for c' prep sg st
  proof (cases prep)
    case (Some pv)
    obtain price pv' where pv: "pv = (price, pv')" by fastforce
    then have "0 < mp_price price" using staged_facts that(1) Some by blast
    then show ?thesis using assms that(2) dispatch_world_ok [OF assms]
      by (simp add: execute_fire_def Some pv fire_ok_def split: sum.splits prod.splits) (metis fst_conv fire_args.select_convs(4))
  qed (use assms that(2) in \<open>simp add: execute_fire_def\<close>)
  show ?thesis
    using assms fire
    by (simp add: process_def Let_def split: staged.split prod.split sum.split option.split)
qed

text \<open>An update changes the coordinator only when it is authorised; the calendar gives the trading day.\<close>

lemma loop_step_guarded:
  assumes "fl_coordinator (loop_step d l x) \<noteq> fl_coordinator l"
  obtains v u a where "x = Applied v u" "authorised d v l u a"
proof (cases x)
  case (Applied v u)
  then show thesis using assms that by (cases rule: handle_cases [of l d v u]) (auto simp: untouched_def)
qed (use assms in simp)

lemma loop_step_keeps_world:
  assumes "world_ok (cd_world (fl_coordinator l))"
  shows "world_ok (cd_world (fl_coordinator (loop_step d l x)))"
proof (cases x)
  case (Applied v u)
  show ?thesis
  proof (cases rule: handle_cases [of l d v u])
    case (executed t a ind inp)
    obtain l' ans where h: "handle_applied_update d v l u = (l', ans)" by fastforce
    show ?thesis using run_coordinator_effect(1) [OF executed(4) [symmetric, unfolded h]] process_keeps_world assms
      by (simp add: Applied h)
  qed (use assms in \<open>simp add: Applied untouched_def\<close>)
qed (use assms in simp)

lemma run_loop_keeps_world:
  "world_ok (cd_world (fl_coordinator l)) \<Longrightarrow> world_ok (cd_world (fl_coordinator (run_loop d l xs)))"
  by (induction xs arbitrary: l) (simp_all add: loop_step_keeps_world)

lemma run_loop_change:
  assumes "\<not> P (run_loop d l [])" and "P (run_loop d l xs)"
  obtains i where "i < length xs" "\<not> P (run_loop d l (take i xs))" "P (run_loop d l (take (Suc i) xs))"
proof -
  have "\<exists>i<length xs. \<not> P (run_loop d l (take i xs)) \<and> P (run_loop d l (take (Suc i) xs))"
    using assms
  proof (induction xs rule: rev_induct)
    case (snoc x xs)
    show ?case
    proof (cases "P (run_loop d l xs)")
      case True
      then obtain i where "i < length xs" "\<not> P (run_loop d l (take i xs))" "P (run_loop d l (take (Suc i) xs))"
        using snoc by auto
      then show ?thesis by (intro exI [of _ i]) (simp add: Suc_leI)
    next
      case False
      then show ?thesis using snoc.prems by (intro exI [of _ "length xs"]) simp
    qed
  qed simp
  then show thesis using that by blast
qed

context market_calendar
begin

lemma authorised_on_trading_day:
  assumes "authorised d v l u a" and "fd_session_at d = session_at"
  shows "is_trading_day (au_market u) (local_date tz (au_applied_at u))"
  using assms open_on_trading_day by (auto simp: authorised_def is_open_def)

lemma submitted_under_authority:
  assumes "fd_session_at d = session_at" and "x \<in> set (bw_submits (cd_world (fl_coordinator (run_loop d l xs))))"
    and "x \<notin> set (bw_submits (cd_world (fl_coordinator l)))"
  shows "\<exists>i v u a. i < length xs \<and> xs ! i = Applied v u \<and> authorised d v (run_loop d l (take i xs)) u a \<and>
    is_trading_day (au_market u) (local_date tz (au_applied_at u)) \<and>
    x \<notin> set (bw_submits (cd_world (fl_coordinator (run_loop d l (take i xs))))) \<and>
    x \<in> set (bw_submits (cd_world (fl_coordinator (run_loop d l (take (Suc i) xs)))))"
proof -
  let ?P = "\<lambda>l. x \<in> set (bw_submits (cd_world (fl_coordinator l)))"
  obtain i where i: "i < length xs" "\<not> ?P (run_loop d l (take i xs))" "?P (run_loop d l (take (Suc i) xs))"
    using run_loop_change [of ?P d l xs] assms(2,3) by auto
  then have "fl_coordinator (loop_step d (run_loop d l (take i xs)) (xs ! i)) \<noteq> fl_coordinator (run_loop d l (take i xs))"
    using run_loop_take_Suc [OF i(1), of d l] by (metis)
  then obtain v u a where "xs ! i = Applied v u" "authorised d v (run_loop d l (take i xs)) u a"
    by (rule loop_step_guarded)
  then show ?thesis using i authorised_on_trading_day assms(1) by blast
qed

end

section \<open>Properties of the fast loop\<close>

text \<open>
  C1. Every order was authorised, and is sent once. Over any run of market updates against a schedule,
  whatever the stores, the feed and the sink do in between, the bridge's journal and ledger keep their
  invariants, no fire and no order id is submitted twice, and every submission that was not there at the
  start was made by one update of the run at whose instant the session was open on a trading day, the
  feed was ready for execution, the loop was neither terminal nor halted for the symbol, and the active
  decision was one of that market and symbol within its validity.
\<close>

theorem orders_authorised:
  assumes "world_ok (cd_world (fl_coordinator l))" and "fd_session_at d = schedule_session_at c"
  shows "let submits = \<lambda>s. bw_submits (cd_world (fl_coordinator s)); final = run_loop d l xs
    in world_ok (cd_world (fl_coordinator final)) \<and> distinct (map fst (submits final)) \<and> distinct (map snd (submits final)) \<and>
       (\<forall>x \<in> set (submits final) - set (submits l).
          \<exists>i v u a. i < length xs \<and> xs ! i = Applied v u \<and> authorised d v (run_loop d l (take i xs)) u a \<and>
            schedule_is_trading_day c (au_market u) (local_date (xs_timezone c) (au_applied_at u)) \<and>
            x \<notin> set (submits (run_loop d l (take i xs))) \<and> x \<in> set (submits (run_loop d l (take (Suc i) xs))))"
proof -
  have ok: "world_ok (cd_world (fl_coordinator (run_loop d l xs)))" by (rule run_loop_keeps_world [OF assms(1)])
  then have "distinct (map fst (bw_submits (cd_world (fl_coordinator (run_loop d l xs)))))" by (simp add: world_ok_def)
  then show ?thesis
    using ok submits_distinct [OF ok] explicit.submitted_under_authority [OF assms(2)] by (simp add: Let_def)
qed

text \<open>
  C11. Fail-stop. Once an update has been answered with a status that says the loop cannot vouch for its
  state (corrupt active decision, coordinator exception, failed evidence sink), no later update of the run
  reaches the coordinator; once a fire of a symbol is left UNCERTAIN or RECONCILE_REQUIRED, no later
  update of that market and symbol does.
\<close>

theorem fail_stop:
  assumes "i < j" and "j < length xs" and "xs ! i = Applied v u" and "xs ! j = Applied v' u'"
    and "snd (handle_applied_update d v (run_loop d l (take i xs)) u) = Inr r"
    and "er_status r \<in> STOP_STATUSES \<or> er_status r \<in> UNRESOLVED_STATUSES \<and> update_key u' = update_key u"
  shows "fl_coordinator (run_loop d l (take (Suc j) xs)) = fl_coordinator (run_loop d l (take j xs))"
proof -
  let ?l = "run_loop d l (take i xs)" and ?n = "run_loop d l (take (Suc i) xs)" and ?m = "run_loop d l (take j xs)"
  obtain l' where h: "handle_applied_update d v ?l u = (l', Inr r)" using assms(5) by (metis prod.collapse)
  then have n: "?n = l'" using assms(1-3) run_loop_take_Suc [of i xs d l] by simp
  have stop: "(er_status r \<in> STOP_STATUSES \<longrightarrow> fl_global_terminal l') \<and>
      (er_status r \<in> UNRESOLVED_STATUSES \<longrightarrow> update_key u \<in> fl_halted_symbols l')"
  proof (cases rule: handle_cases [of ?l d v u])
    case idle
    then show ?thesis by (simp add: h untouched_def)
  next
    case (executed t a ind inp)
    from run_coordinator_effect(4) [OF executed(4) [symmetric, unfolded h]] show ?thesis by blast
  qed
  have "take j xs = take (Suc i) xs @ drop (Suc i) (take j xs)"
    using assms(1) by (metis Suc_leI append_take_drop_id min.absorb1 take_take)
  then have m: "?m = run_loop d ?n (drop (Suc i) (take j xs))" by (metis run_loop_simps(3))
  have "\<not> authorised d v' ?m u' a" for a
    using assms(6) stop run_loop_monotone [of ?n d "drop (Suc i) (take j xs)"] unfolding m n authorised_def by auto
  then show ?thesis using loop_step_guarded [of d ?m "xs ! j"] assms(2,4) run_loop_take_Suc [of j xs d l]
    by (metis loop_input.inject(1))
qed

text \<open>The fixture: the coordinator of the tick, a weekday schedule without entries, and a sink that fails.\<close>

definition loop_schedule :: explicit_schedule where
  "loop_schedule = \<lparr>xs_timezone = (\<lambda>_. 0), xs_schedule = Map.empty, xs_weekend_weekdays = WEEKEND\<rparr>"

definition loop_deps :: "(execution_evidence \<Rightarrow> unit result) option \<Rightarrow> fast_loop_deps" where
  "loop_deps sink =
     \<lparr>fd_hashing = tick_hashing, fd_fee = zero_fees, fd_codec = example_codec,
      fd_session_at = schedule_session_at loop_schedule,
      fd_resolve = static_resolve example_allocator book_policy, fd_on_evidence = sink\<rparr>"

definition loop_start :: fast_loop where
  "loop_start = \<lparr>fl_coordinator = tick_coordinator, fl_tracker = new_tracker provisional_thresholds,
     fl_halted_symbols = {}, fl_global_terminal = False\<rparr>"

definition loop_update :: "instant \<Rightarrow> loop_input" where
  "loop_update now = Applied
     \<lparr>fv_decisions = empty_store, fv_latest = new_latest_store DEFAULT_MAX_AGE, fv_rolling = None\<rparr>
     \<lparr>au_market = KR, au_symbol = ''005930'', au_event_type = TRADE, au_provider = ''kis'', au_channel = ''trade'',
      au_sequence = 1, au_applied_at = now\<rparr>"

lemma loop_start_ok: "world_ok (cd_world (fl_coordinator loop_start))"
  using tick_coordinator_ok by (simp add: loop_start_def coordinator_ok_def)

theorem orders_authorised_witness:
  "distinct (map fst (bw_submits (cd_world (fl_coordinator
     (run_loop (loop_deps None) loop_start [loop_update 1, Health (new_tracker provisional_thresholds), loop_update 2])))))"
proof -
  have "fd_session_at (loop_deps None) = schedule_session_at loop_schedule" by (simp add: loop_deps_def)
  from orders_authorised [OF loop_start_ok this] show ?thesis unfolding Let_def by blast
qed

lemma loop_sink_fails:
  assumes "loop_update now = Applied v u"
  shows "snd (handle_applied_update (loop_deps (Some (\<lambda>_. Inl (ValueError ''sink'')))) v loop_start u) = Inr (own_result FS_EVIDENCE_SINK_ERROR)"
proof -
  have u: "v = \<lparr>fv_decisions = empty_store, fv_latest = new_latest_store DEFAULT_MAX_AGE, fv_rolling = None\<rparr>"
    "u = \<lparr>au_market = KR, au_symbol = ''005930'', au_event_type = TRADE, au_provider = ''kis'', au_channel = ''trade'',
      au_sequence = 1, au_applied_at = now\<rparr>" using assms by (simp_all add: loop_update_def)
  have pre: "preflight_update u = None" by (simp add: u preflight_update_def is_blank_def strip_def is_space_def)
  obtain t g where gate: "evaluate_gate (schedule_session_at loop_schedule) (new_tracker provisional_thresholds) KR now = (t, g)"
    by fastforce
  have sess: "\<exists>s. schedule_session_at loop_schedule KR now = Inr s \<and> se_state s \<noteq> MS_OPEN"
    by (simp add: schedule_session_at_def Let_def loop_schedule_def)
  show ?thesis
  proof (cases g)
    case None
    then show ?thesis using pre gate
      by (simp add: handle_applied_update_def loop_deps_def loop_start_def u(2) Let_def evaluate_gate_safe_def emit_and_return_def)
  next
    case (Some g')
    then have "gate_execution_reason g' KR now = Some ''held_session''"
      using gate sess by (auto simp: evaluate_gate_def gate_execution_reason_def split: sum.splits prod.splits)
    then show ?thesis using pre gate Some
      by (simp add: handle_applied_update_def loop_deps_def loop_start_def u(2) Let_def evaluate_gate_safe_def emit_and_return_def
          gate_status_values)
  qed
qed

theorem fail_stop_witness:
  "let xs = [loop_update 1, loop_update 2]; d = loop_deps (Some (\<lambda>_. Inl (ValueError ''sink'')))
   in fl_coordinator (run_loop d loop_start xs) = fl_coordinator (run_loop d loop_start [loop_update 1])"
proof -
  let ?xs = "[loop_update 1, loop_update 2]" and ?d = "loop_deps (Some (\<lambda>_. Inl (ValueError ''sink'')))"
  obtain v u v' u' where u: "loop_update 1 = Applied v u" "loop_update 2 = Applied v' u'" by (simp add: loop_update_def)
  have "snd (handle_applied_update ?d v (run_loop ?d loop_start (take 0 ?xs)) u) = Inr (own_result FS_EVIDENCE_SINK_ERROR)"
    using loop_sink_fails [OF u(1)] by simp
  from fail_stop [OF _ _ _ _ this, of 1 v' u'] show ?thesis by (simp add: u status_sets Let_def)
qed

end
