(* ===== verification/Monitor.thy ===== *)
theory Monitor
  imports Fast_Loop
begin

text \<open>
  The market monitor: \<^verbatim>\<open>src/src/market_data/monitor.py\<close>. It opens connections until one ends in
  order, passes every event to the latest-state store and the rolling history, and calls the post-apply
  hook. A connection is what the source does: the factory fails or is cancelled, or the iterator gives a
  finite list of pulls (an event, a timeout, an error, a cancellation; the end of the list is the end of
  the stream). Clock readings are numbered. The evidence sink and the hook are callbacks; the hook has a
  state of its own, of type \<open>'h\<close>. Delays and deadlines are exact (seconds, microseconds) where
  the code has floats. \<^verbatim>\<open>run\<close> may go on for ever, so it is a partial function.
\<close>

section \<open>Data\<close>

datatype monitor_state = MO_IDLE | MO_CONNECTING | MO_RUNNING | MO_BACKING_OFF | MO_EXHAUSTED | MO_STOPPED

record reconnect_policy =
  rc_initial_delay_seconds :: rat
  rc_multiplier :: rat
  rc_max_delay_seconds :: rat
  rc_max_attempts :: int

definition mk_ReconnectPolicy :: "reconnect_policy \<Rightarrow> reconnect_policy result" where
  "mk_ReconnectPolicy p =
     (if rc_initial_delay_seconds p < 0 then Inl (ValueError ''initial_delay_seconds must be >= 0.'')
      else if rc_multiplier p < 1 then Inl (ValueError ''multiplier must be >= 1.'')
      else if rc_max_delay_seconds p < rc_initial_delay_seconds p
      then Inl (ValueError ''max_delay_seconds must be >= initial_delay_seconds.'')
      else if rc_max_attempts p < 1 then Inl (ValueError ''max_attempts must be >= 1.'')
      else Inr p)"

definition delay_for_attempt :: "reconnect_policy \<Rightarrow> int \<Rightarrow> rat result" where
  "delay_for_attempt p attempt =
     (if attempt < 1 then Inl (ValueError ''attempt must be >= 1.'')
      else Inr (min (rc_initial_delay_seconds p * rc_multiplier p ^ nat (attempt - 1)) (rc_max_delay_seconds p)))"

record event_meta =
  em_event_type :: "market_event_type option"
  em_provider :: "string option"
  em_channel :: "string option"
  em_market :: "market option"
  em_symbol :: "string option"
  em_sequence :: "int option"

type_synonym parser_metadata = "(string \<times> string) list option"

record evidence_details =
  dt_meta :: event_meta
  dt_apply_status :: "string option"
  dt_reason_code :: "string option"
  dt_reason_subcode :: "string option"
  dt_backoff_seconds :: "rat option"
  dt_parser_metadata :: parser_metadata

record monitor_evidence =
  me_timestamp :: instant
  me_monitor_session_id :: string
  me_state :: monitor_state
  me_connection_attempt :: nat
  me_consecutive_failures :: int
  me_kind :: string
  me_details :: evidence_details

record monitor_counts =
  mn_applied :: nat
  mn_duplicate :: nat
  mn_out_of_order :: nat
  mn_stream_mismatch :: nat
  mn_future_event_error :: nat

record monitor_summary =
  my_monitor_session_id :: string
  my_connection_attempts :: nat
  my_consecutive_failures :: int
  my_counts :: monitor_counts
  my_final_state :: monitor_state

datatype monitor_error =
    MonitorExhaustedError monitor_summary
  | MonitorInternalError string
  | MonitorCancelled
  | MonitorRaised exn

text \<open>A callback that fails raises \<^verbatim>\<open>MonitorInternalError\<close> itself (\<open>Some\<close>) or something else.\<close>

type_synonym callback_result = "string option + unit"

record 'h monitor_config =
  mc_session_id :: string
  mc_policy :: reconnect_policy
  mc_clock :: "nat \<Rightarrow> instant"
  mc_max_events :: "nat option"
  mc_max_runtime :: "int option"
  mc_heartbeat_watch :: "((string \<times> string) \<times> int) option"
  mc_on_evidence :: "(monitor_evidence \<Rightarrow> callback_result) option"
  mc_on_applied_update ::
    "(latest_store \<Rightarrow> (retention_policy \<times> history_store) option \<Rightarrow> applied_update \<Rightarrow> 'h \<Rightarrow> 'h \<times> callback_result) option"

record 'h monitor =
  mo_latest :: latest_store
  mo_rolling :: "(retention_policy \<times> history_store) option"
  mo_state :: monitor_state
  mo_counts :: monitor_counts
  mo_events_consumed :: nat
  mo_consecutive_failures :: int
  mo_market_applied :: nat
  mo_seen_streams :: "(string \<times> string) set"
  mo_pending_reset :: "(string \<times> string) set"
  mo_started_at :: "instant option"
  mo_epoch_started_at :: "instant option"
  mo_reads :: nat
  mo_hook :: 'h

definition new_monitor :: "latest_store \<Rightarrow> (retention_policy \<times> history_store) option \<Rightarrow> 'h \<Rightarrow> 'h monitor" where
  "new_monitor latest rolling h =
     \<lparr>mo_latest = latest, mo_rolling = rolling, mo_state = MO_IDLE,
      mo_counts = \<lparr>mn_applied = 0, mn_duplicate = 0, mn_out_of_order = 0, mn_stream_mismatch = 0, mn_future_event_error = 0\<rparr>,
      mo_events_consumed = 0, mo_consecutive_failures = 0, mo_market_applied = 0, mo_seen_streams = {},
      mo_pending_reset = {}, mo_started_at = None, mo_epoch_started_at = None, mo_reads = 0, mo_hook = h\<rparr>"

text \<open>The checks of the constructor; the watch and its timeout are one option.\<close>

definition check_config :: "'h monitor_config \<Rightarrow> unit result" where
  "check_config cfg =
     (if (\<exists>n \<in> set_option (mc_max_events cfg). n < 1) then Inl (ValueError ''max_events must be >= 1 when set.'')
      else if (\<exists>r \<in> set_option (mc_max_runtime cfg). r \<le> 0) then Inl (ValueError ''max_runtime_seconds must be > 0 when set.'')
      else if (\<exists>w \<in> set_option (mc_heartbeat_watch cfg). snd w \<le> 0)
      then Inl (ValueError ''heartbeat_timeout_seconds must be > 0 when set.'')
      else Inr ())"

datatype pull =
    Pull_Event market_event
  | Pull_Timeout
  | Pull_Error "(string \<times> parser_metadata) option"
  | Pull_Cancelled

datatype connection = Factory_Error | Factory_Cancelled | Connected "pull list"

datatype attempt_outcome = Eof | Budget | Drop

section \<open>Evidence and the clock\<close>

type_synonym ('h, 'a) monitor_answer = "'h monitor \<times> (monitor_error + 'a)"

definition mbind :: "('h, 'a) monitor_answer \<Rightarrow> ('h monitor \<Rightarrow> 'a \<Rightarrow> ('h, 'b) monitor_answer) \<Rightarrow> ('h, 'b) monitor_answer" where
  "mbind a f = (case a of (m, Inl e) \<Rightarrow> (m, Inl e) | (m, Inr x) \<Rightarrow> f m x)"

definition read_clock :: "'h monitor_config \<Rightarrow> 'h monitor \<Rightarrow> instant \<times> 'h monitor" where
  "read_clock cfg m = (mc_clock cfg (mo_reads m), m\<lparr>mo_reads := Suc (mo_reads m)\<rparr>)"

definition no_meta :: event_meta where
  "no_meta = \<lparr>em_event_type = None, em_provider = None, em_channel = None, em_market = None, em_symbol = None, em_sequence = None\<rparr>"

definition no_details :: evidence_details where
  "no_details = \<lparr>dt_meta = no_meta, dt_apply_status = None, dt_reason_code = None, dt_reason_subcode = None,
     dt_backoff_seconds = None, dt_parser_metadata = None\<rparr>"

definition callback_answer :: "string \<Rightarrow> callback_result \<Rightarrow> monitor_error + unit" where
  "callback_answer msg r =
     (case r of Inr _ \<Rightarrow> Inr () | Inl (Some own) \<Rightarrow> Inl (MonitorInternalError own) | Inl None \<Rightarrow> Inl (MonitorInternalError msg))"

definition emit :: "'h monitor_config \<Rightarrow> 'h monitor \<Rightarrow> string \<Rightarrow> nat \<Rightarrow> evidence_details \<Rightarrow> ('h, unit) monitor_answer" where
  "emit cfg m kind attempt dt =
     (case mc_on_evidence cfg of
        None \<Rightarrow> (m, Inr ())
      | Some sink \<Rightarrow>
          (case read_clock cfg m of (now, m1) \<Rightarrow>
             (m1, callback_answer ''evidence sink failed'' (sink
                \<lparr>me_timestamp = now, me_monitor_session_id = mc_session_id cfg, me_state = mo_state m,
                 me_connection_attempt = attempt, me_consecutive_failures = mo_consecutive_failures m,
                 me_kind = kind, me_details = dt\<rparr>))))"

definition emit_source_error_drop ::
  "'h monitor_config \<Rightarrow> 'h monitor \<Rightarrow> nat \<Rightarrow> string \<Rightarrow> parser_metadata \<Rightarrow> ('h, unit) monitor_answer" where
  "emit_source_error_drop cfg m attempt subcode metadata =
     emit cfg m ''drop'' attempt
       (no_details\<lparr>dt_reason_code := Some ''source_error'', dt_reason_subcode := Some subcode, dt_parser_metadata := metadata\<rparr>)"

text \<open>The cancelled path: the sink may fail, the cancellation goes on.\<close>

definition emit_cancelled :: "'h monitor_config \<Rightarrow> 'h monitor \<Rightarrow> nat \<Rightarrow> 'h monitor" where
  "emit_cancelled cfg m attempt = fst (emit cfg m ''cancelled'' attempt no_details)"

fun evidence_meta :: "market_event \<Rightarrow> event_meta" where
  "evidence_meta (Trade_Event t) =
     \<lparr>em_event_type = Some TRADE, em_provider = Some (sq_provider (tt_provider_sequence t)),
      em_channel = Some (sq_channel (tt_provider_sequence t)), em_market = Some (tt_market t),
      em_symbol = Some (tt_symbol t), em_sequence = Some (sq_sequence (tt_provider_sequence t))\<rparr>"
| "evidence_meta (Quote_Event b) =
     \<lparr>em_event_type = Some BEST_BID_ASK, em_provider = Some (sq_provider (ba_provider_sequence b)),
      em_channel = Some (sq_channel (ba_provider_sequence b)), em_market = Some (ba_market b),
      em_symbol = Some (ba_symbol b), em_sequence = Some (sq_sequence (ba_provider_sequence b))\<rparr>"
| "evidence_meta (Heartbeat_Event h) =
     \<lparr>em_event_type = Some HEARTBEAT, em_provider = Some (hb_provider h), em_channel = Some (hb_channel h),
      em_market = None, em_symbol = None, em_sequence = None\<rparr>"

fun stream_key :: "market_event \<Rightarrow> string \<times> string" where
  "stream_key (Trade_Event t) = (sq_provider (tt_provider_sequence t), sq_channel (tt_provider_sequence t))"
| "stream_key (Quote_Event b) = (sq_provider (ba_provider_sequence b), sq_channel (ba_provider_sequence b))"
| "stream_key (Heartbeat_Event h) = (hb_provider h, hb_channel h)"

section \<open>Consuming an event\<close>

definition reset_on_reconnect :: "'h monitor_config \<Rightarrow> 'h monitor \<Rightarrow> string \<times> string \<Rightarrow> nat \<Rightarrow> ('h, unit) monitor_answer" where
  "reset_on_reconnect cfg m stream attempt =
     (let m1 = m\<lparr>mo_latest := reset_stream (mo_latest m) (fst stream) (snd stream),
                 mo_rolling := map_option (\<lambda>(p, h). (p, reset_stream_history h (fst stream) (snd stream))) (mo_rolling m)\<rparr>
      in mbind (emit cfg m1 ''reset'' attempt
                  (no_details\<lparr>dt_meta := no_meta\<lparr>em_provider := Some (fst stream), em_channel := Some (snd stream)\<rparr>,
                              dt_reason_code := Some ''reconnect_stream_reset''\<rparr>))
           (\<lambda>m2 _. (m2\<lparr>mo_pending_reset := mo_pending_reset m2 - {stream}\<rparr>, Inr ())))"

definition market_applied :: "apply_result \<Rightarrow> bool" where
  "market_applied r \<longleftrightarrow> ar_status r = APPLIED \<and> ar_event_type r \<in> {TRADE, BEST_BID_ASK}"

definition mirror_trade :: "'h monitor \<Rightarrow> market_event \<Rightarrow> apply_result \<Rightarrow> instant \<Rightarrow> ('h, unit) monitor_answer" where
  "mirror_trade m event r now =
     (case mo_rolling m of
        None \<Rightarrow> (m, Inr ())
      | Some (p, h) \<Rightarrow>
          if ar_status r = APPLIED \<and> ar_event_type r = TRADE
          then (case event of
                  Trade_Event t \<Rightarrow>
                    (case observe p h t now of
                       Inl _ \<Rightarrow> (m, Inl (MonitorInternalError ''rolling_store.observe failed''))
                     | Inr (h', roll) \<Rightarrow>
                         (m\<lparr>mo_rolling := Some (p, h')\<rparr>,
                          if ro_status roll \<noteq> RO_APPLIED
                          then Inl (MonitorInternalError ''rolling observe was not APPLIED for a latest-APPLIED trade'')
                          else Inr ()))
                | _ \<Rightarrow> (m, Inl (MonitorRaised (AssertionError ''isinstance(event, NormalizedTradeTick)''))))
          else (m, Inr ()))"

fun apply_status_str :: "apply_status \<Rightarrow> string" where
  "apply_status_str APPLIED = ''applied''"
| "apply_status_str DUPLICATE = ''duplicate''"
| "apply_status_str OUT_OF_ORDER = ''out_of_order''"
| "apply_status_str STREAM_MISMATCH = ''stream_mismatch''"

fun count_status :: "apply_status \<Rightarrow> monitor_counts \<Rightarrow> monitor_counts" where
  "count_status APPLIED c = c\<lparr>mn_applied := Suc (mn_applied c)\<rparr>"
| "count_status DUPLICATE c = c\<lparr>mn_duplicate := Suc (mn_duplicate c)\<rparr>"
| "count_status OUT_OF_ORDER c = c\<lparr>mn_out_of_order := Suc (mn_out_of_order c)\<rparr>"
| "count_status STREAM_MISMATCH c = c\<lparr>mn_stream_mismatch := Suc (mn_stream_mismatch c)\<rparr>"

definition update_of :: "market_event \<Rightarrow> instant \<Rightarrow> applied_update option" where
  "update_of event now =
     (case event of
        Trade_Event t \<Rightarrow> Some
          \<lparr>au_market = tt_market t, au_symbol = tt_symbol t, au_event_type = TRADE,
           au_provider = sq_provider (tt_provider_sequence t), au_channel = sq_channel (tt_provider_sequence t),
           au_sequence = sq_sequence (tt_provider_sequence t), au_applied_at = now\<rparr>
      | Quote_Event b \<Rightarrow> Some
          \<lparr>au_market = ba_market b, au_symbol = ba_symbol b, au_event_type = BEST_BID_ASK,
           au_provider = sq_provider (ba_provider_sequence b), au_channel = sq_channel (ba_provider_sequence b),
           au_sequence = sq_sequence (ba_provider_sequence b), au_applied_at = now\<rparr>
      | Heartbeat_Event _ \<Rightarrow> None)"

definition notify :: "'h monitor_config \<Rightarrow> 'h monitor \<Rightarrow> market_event \<Rightarrow> apply_result \<Rightarrow> instant \<Rightarrow> ('h, unit) monitor_answer" where
  "notify cfg m event r now =
     (case (mc_on_applied_update cfg, if market_applied r then update_of event now else None) of
        (Some hook, Some u) \<Rightarrow>
          (case hook (mo_latest m) (mo_rolling m) u (mo_hook m) of
             (h, res) \<Rightarrow> (m\<lparr>mo_hook := h\<rparr>, callback_answer ''post_apply_hook failed'' res))
      | _ \<Rightarrow> (m, Inr ()))"

definition apply_and_notify :: "'h monitor_config \<Rightarrow> 'h monitor \<Rightarrow> market_event \<Rightarrow> nat \<Rightarrow> ('h, unit) monitor_answer" where
  "apply_and_notify cfg m event attempt =
     (case read_clock cfg m of (now, m1) \<Rightarrow>
        case apply_event (mo_latest m1) event now of
          Inl FutureMarketEventError \<Rightarrow>
            emit cfg (m1\<lparr>mo_counts := (mo_counts m1)\<lparr>mn_future_event_error := Suc (mn_future_event_error (mo_counts m1))\<rparr>\<rparr>)
              ''apply'' attempt
              (no_details\<lparr>dt_meta := evidence_meta event, dt_apply_status := Some ''future_event_error'',
                          dt_reason_code := Some ''future_event''\<rparr>)
        | Inl _ \<Rightarrow> (m1, Inl (MonitorInternalError ''store.apply failed''))
        | Inr (latest, r) \<Rightarrow>
            mbind (mirror_trade
                     (m1\<lparr>mo_latest := latest,
                         mo_market_applied := mo_market_applied m1 + (if market_applied r then 1 else 0)\<rparr>) event r now)
              (\<lambda>m2 _. mbind (emit cfg (m2\<lparr>mo_counts := count_status (ar_status r) (mo_counts m2)\<rparr>) ''apply'' attempt
                               (no_details\<lparr>dt_meta := evidence_meta event,
                                           dt_apply_status := Some (apply_status_str (ar_status r)),
                                           dt_reason_code := ar_reason r\<rparr>))
                 (\<lambda>m3 _. notify cfg m3 event r now)))"

definition consume :: "'h monitor_config \<Rightarrow> 'h monitor \<Rightarrow> market_event \<Rightarrow> nat \<Rightarrow> ('h, unit) monitor_answer" where
  "consume cfg m event attempt =
     (let stream = stream_key event
      in mbind (if stream \<in> mo_pending_reset m then reset_on_reconnect cfg m stream attempt else (m, Inr ()))
           (\<lambda>m1 _. apply_and_notify cfg
              (m1\<lparr>mo_seen_streams := insert stream (mo_seen_streams m1), mo_events_consumed := Suc (mo_events_consumed m1)\<rparr>)
              event attempt))"

section \<open>A connection\<close>

definition heartbeat_deadline :: "'h monitor \<Rightarrow> string \<times> string \<Rightarrow> int \<Rightarrow> instant \<Rightarrow> instant" where
  "heartbeat_deadline m watch timeout now =
     (let epoch = (case mo_epoch_started_at m of Some t \<Rightarrow> t | None \<Rightarrow> now)
      in (if watch \<in> mo_pending_reset m then epoch
          else case lv_heartbeat (peek_liveness (mo_latest m) (fst watch) (snd watch) now) of
            None \<Rightarrow> epoch | Some h \<Rightarrow> hb_received_at h) + timeout)"

datatype deadline_reason = Runtime_Deadline | Heartbeat_Deadline

definition next_event_timeout :: "'h monitor_config \<Rightarrow> 'h monitor \<Rightarrow> (int \<times> deadline_reason) option \<times> 'h monitor" where
  "next_event_timeout cfg m =
     (case read_clock cfg m of (now, m1) \<Rightarrow>
        let hb = map_option (\<lambda>(watch, timeout). heartbeat_deadline m1 watch timeout now) (mc_heartbeat_watch cfg);
            rt = (case (mc_max_runtime cfg, mo_started_at m1) of (Some r, Some s) \<Rightarrow> Some (s + r) | _ \<Rightarrow> None)
        in (case (hb, rt) of
              (None, None) \<Rightarrow> None
            | (Some h, None) \<Rightarrow> Some (max (h - now) 0, Heartbeat_Deadline)
            | (None, Some r) \<Rightarrow> Some (max (r - now) 0, Runtime_Deadline)
            | (Some h, Some r) \<Rightarrow>
                if r \<le> h then Some (max (r - now) 0, Runtime_Deadline) else Some (max (h - now) 0, Heartbeat_Deadline), m1))"

definition runtime_exhausted :: "'h monitor_config \<Rightarrow> 'h monitor \<Rightarrow> bool \<times> 'h monitor" where
  "runtime_exhausted cfg m =
     (case (mc_max_runtime cfg, mo_started_at m) of
        (Some r, Some s) \<Rightarrow> (case read_clock cfg m of (now, m1) \<Rightarrow> (r \<le> now - s, m1))
      | _ \<Rightarrow> (False, m))"

definition source_error :: "(string \<times> parser_metadata) option \<Rightarrow> string \<times> parser_metadata" where
  "source_error e = (case e of Some x \<Rightarrow> x | None \<Rightarrow> (''source_iterator_unknown_after_ack'', None))"

definition after_emit :: "('h, unit) monitor_answer \<Rightarrow> attempt_outcome \<Rightarrow> ('h, attempt_outcome) monitor_answer" where
  "after_emit a outc = mbind a (\<lambda>m _. (m, Inr outc))"

definition stop_emit :: "'h monitor_config \<Rightarrow> 'h monitor \<Rightarrow> string \<Rightarrow> nat \<Rightarrow> string option \<Rightarrow> attempt_outcome \<Rightarrow> ('h, attempt_outcome) monitor_answer" where
  "stop_emit cfg m kind attempt reason outc =
     after_emit (emit cfg (m\<lparr>mo_state := MO_STOPPED\<rparr>) kind attempt (no_details\<lparr>dt_reason_code := reason\<rparr>)) outc"

fun attempt_loop :: "'h monitor_config \<Rightarrow> 'h monitor \<Rightarrow> nat \<Rightarrow> pull list \<Rightarrow> ('h, attempt_outcome) monitor_answer" where
  "attempt_loop cfg m attempt [] = stop_emit cfg (snd (next_event_timeout cfg m)) ''eof'' attempt None Eof"
| "attempt_loop cfg m attempt (Pull_Cancelled # _) =
     (emit_cancelled cfg ((snd (next_event_timeout cfg m))\<lparr>mo_state := MO_STOPPED\<rparr>) attempt, Inl MonitorCancelled)"
| "attempt_loop cfg m attempt (Pull_Error e # _) =
     after_emit (case source_error e of (subcode, metadata) \<Rightarrow>
       emit_source_error_drop cfg (snd (next_event_timeout cfg m)) attempt subcode metadata) Drop"
| "attempt_loop cfg m attempt (Pull_Timeout # _) =
     (case next_event_timeout cfg m of
        (Some (_, Runtime_Deadline), m1) \<Rightarrow> stop_emit cfg m1 ''stop'' attempt (Some ''runtime_timeout'') Budget
      | (None, m1) \<Rightarrow> after_emit (emit_source_error_drop cfg m1 attempt ''websocket_receive_timeout_after_ack'' None) Drop
      | (Some (_, Heartbeat_Deadline), m1) \<Rightarrow>
          after_emit (emit cfg m1 ''drop'' attempt (no_details\<lparr>dt_reason_code := Some ''heartbeat_stale''\<rparr>)) Drop)"
| "attempt_loop cfg m attempt (Pull_Event event # rest) =
     mbind (consume cfg ((snd (next_event_timeout cfg m))\<lparr>mo_state := MO_RUNNING\<rparr>) event attempt) (\<lambda>m1 _.
       if (\<exists>n \<in> set_option (mc_max_events cfg). n \<le> mo_events_consumed m1)
       then stop_emit cfg m1 ''stop'' attempt (Some ''budget_reached'') Budget
       else case runtime_exhausted cfg m1 of (exhausted, m2) \<Rightarrow>
         if exhausted then stop_emit cfg m2 ''stop'' attempt (Some ''runtime_timeout'') Budget
         else attempt_loop cfg m2 attempt rest)"

definition run_attempt :: "'h monitor_config \<Rightarrow> 'h monitor \<Rightarrow> nat \<Rightarrow> connection \<Rightarrow> ('h, attempt_outcome) monitor_answer" where
  "run_attempt cfg m attempt c =
     (case c of
        Factory_Cancelled \<Rightarrow> (emit_cancelled cfg (m\<lparr>mo_state := MO_STOPPED\<rparr>) attempt, Inl MonitorCancelled)
      | Factory_Error \<Rightarrow> after_emit (emit_source_error_drop cfg m attempt ''post_startup_source_factory_error'' None) Drop
      | Connected pulls \<Rightarrow> attempt_loop cfg m attempt pulls)"

section \<open>Running\<close>

definition summary_of :: "'h monitor_config \<Rightarrow> 'h monitor \<Rightarrow> nat \<Rightarrow> monitor_summary" where
  "summary_of cfg m attempt =
     \<lparr>my_monitor_session_id = mc_session_id cfg, my_connection_attempts = attempt,
      my_consecutive_failures = mo_consecutive_failures m, my_counts = mo_counts m, my_final_state = mo_state m\<rparr>"

definition begin_attempt :: "'h monitor_config \<Rightarrow> 'h monitor \<Rightarrow> nat \<Rightarrow> ('h, unit) monitor_answer" where
  "begin_attempt cfg m attempt =
     (case read_clock cfg (m\<lparr>mo_market_applied := 0, mo_state := MO_CONNECTING\<rparr>) of (now, m1) \<Rightarrow>
        emit cfg (m1\<lparr>mo_epoch_started_at := Some now\<rparr>) ''connect'' attempt no_details)"

definition after_drop :: "'h monitor_config \<Rightarrow> 'h monitor \<Rightarrow> nat \<Rightarrow> ('h, unit) monitor_answer" where
  "after_drop cfg m attempt =
     (let m1 = m\<lparr>mo_consecutive_failures := (if 0 < mo_market_applied m then 0 else mo_consecutive_failures m + 1)\<rparr>
      in if rc_max_attempts (mc_policy cfg) \<le> mo_consecutive_failures m1
         then mbind (emit cfg (m1\<lparr>mo_state := MO_EXHAUSTED\<rparr>) ''exhausted'' attempt no_details)
                (\<lambda>m2 _. (m2, Inl (MonitorExhaustedError (summary_of cfg m2 attempt))))
         else let m2 = m1\<lparr>mo_pending_reset := mo_pending_reset m1 \<union> mo_seen_streams m1\<rparr>
              in case delay_for_attempt (mc_policy cfg) (max (mo_consecutive_failures m2) 1) of
                   Inl e \<Rightarrow> (m2, Inl (MonitorRaised e))
                 | Inr delay \<Rightarrow> emit cfg (m2\<lparr>mo_state := MO_BACKING_OFF\<rparr>) ''backoff'' attempt
                     (no_details\<lparr>dt_backoff_seconds := Some delay\<rparr>))"

definition finish :: "'h monitor \<Rightarrow> 'h monitor" where
  "finish m = (if mo_state m \<in> {MO_STOPPED, MO_EXHAUSTED} then m else m\<lparr>mo_state := MO_STOPPED\<rparr>)"

partial_function (option) run_attempts ::
  "'h monitor_config \<Rightarrow> (nat \<Rightarrow> connection) \<Rightarrow> 'h monitor \<Rightarrow> nat \<Rightarrow> ('h, monitor_summary) monitor_answer option" where
  "run_attempts cfg conns m attempt =
     (case mbind (begin_attempt cfg m attempt) (\<lambda>m1 _. run_attempt cfg m1 attempt (conns attempt)) of
        (m1, Inl e) \<Rightarrow> Some (finish m1, Inl e)
      | (m1, Inr outc) \<Rightarrow>
          if outc \<noteq> Drop then Some (m1\<lparr>mo_state := MO_STOPPED\<rparr>, Inr (summary_of cfg (m1\<lparr>mo_state := MO_STOPPED\<rparr>) attempt))
          else case after_drop cfg m1 attempt of
            (m2, Inl e) \<Rightarrow> Some (finish m2, Inl e)
          | (m2, Inr _) \<Rightarrow> run_attempts cfg conns m2 (Suc attempt))"

definition run_monitor :: "'h monitor_config \<Rightarrow> (nat \<Rightarrow> connection) \<Rightarrow> 'h monitor \<Rightarrow> ('h, monitor_summary) monitor_answer option" where
  "run_monitor cfg conns m =
     (case read_clock cfg m of (now, m1) \<Rightarrow> run_attempts cfg conns (m1\<lparr>mo_started_at := Some now\<rparr>) 1)"

section \<open>The two stores agree\<close>

text \<open>
  The rolling history of an instrument stands at its latest trade, and has no stream of its own when
  there is none. Then a trade the latest store applies is applied by the history too.
\<close>

definition stands_at :: "symbol_state \<Rightarrow> trade_tick \<Rightarrow> bool" where
  "stands_at st t \<longleftrightarrow>
     hs_provider st = Some (fst (tick_stream t)) \<and> hs_channel st = Some (snd (tick_stream t)) \<and>
     hs_last_sequence st = Some (sq_sequence (tt_provider_sequence t)) \<and>
     hs_last_event_time st = Some (tt_trade_at t) \<and> hs_last_received_at st = Some (tt_received_at t)"

definition mirrors_at :: "latest_store \<Rightarrow> history_store \<Rightarrow> market \<times> string \<Rightarrow> bool" where
  "mirrors_at s h k \<longleftrightarrow>
     (case st_trade s k of
        Some t \<Rightarrow> \<exists>st. h k = Some st \<and> stands_at st t
      | None \<Rightarrow> \<forall>st. h k = Some st \<longrightarrow> hs_provider st = None \<and> hs_channel st = None)"

definition mirrors :: "latest_store \<Rightarrow> (retention_policy \<times> history_store) option \<Rightarrow> bool" where
  "mirrors s r \<longleftrightarrow> (\<forall>p h. r = Some (p, h) \<longrightarrow> 1 \<le> rp_hard_max_events p \<and> (\<forall>k. mirrors_at s h k))"

lemma truncate_last [simp]:
  assumes "1 \<le> rp_hard_max_events p"
  shows "hs_last_sequence (truncate_history p st) = hs_last_sequence st"
    "hs_last_event_time (truncate_history p st) = hs_last_event_time st"
    "hs_last_received_at (truncate_history p st) = hs_last_received_at st"
  using assms by (simp_all add: truncate_history_def Let_def truncate_count_eq truncate_age_eq evict_def)

lemma observe_follows_apply:
  assumes "mirrors s (Some (p, h))" and "apply_event s (Trade_Event t) now = Inr (s', r)" and "ar_status r = APPLIED"
  shows "\<exists>h' ro. observe p h t now = Inr (h', ro) \<and> ro_status ro = RO_APPLIED \<and> mirrors s' (Some (p, h'))"
proof -
  let ?k = "(tt_market t, tt_symbol t)"
  have p: "1 \<le> rp_hard_max_events p" and all: "\<And>k. mirrors_at s h k"
    using assms(1) by (auto simp: mirrors_def)
  note m = all [of ?k, unfolded mirrors_at_def]
  have now: "\<not> now < tt_trade_at t" "\<not> now < tt_received_at t" and s': "s' = s\<lparr>st_trade := (st_trade s)(?k \<mapsto> t)\<rparr>"
    and old: "\<And>q. st_trade s ?k = Some q \<Longrightarrow> tick_stream q = tick_stream t \<and>
      sq_sequence (tt_provider_sequence q) < sq_sequence (tt_provider_sequence t) \<and>
      tt_received_at q \<le> tt_received_at t \<and> tt_trade_at q \<le> tt_trade_at t"
    using assms(2,3)
    by (auto simp: apply_event_def apply_market_def Let_def trade_view_def tick_stream_def rbind_Inr_iff
        split: if_splits option.splits)
  define st' where "st' = (case h ?k of None \<Rightarrow> initial_state p (tick_stream t) (tick_sample t)
    | Some st \<Rightarrow> if hs_provider st = None then adopt_after_reset p st (tick_stream t) (tick_sample t)
                else append_sample p st (tick_sample t))"
  have obs: "observe p h t now = Inr (h(?k \<mapsto> st'), \<lparr>ro_status = RO_APPLIED, ro_reason = None\<rparr>)"
  proof (cases "st_trade s ?k")
    case None
    then show ?thesis using m now
      by (cases "h ?k") (simp_all add: observe_def Let_def st'_def)
  next
    case (Some q)
    then obtain st where "h ?k = Some st" "stands_at st q" using m by auto
    then show ?thesis using old [OF Some] now
      by (auto simp: observe_def Let_def st'_def stands_at_def tick_sample_def)
  qed
  have "stands_at st' t"
  proof (cases "h ?k")
    case (Some st)
    show ?thesis
    proof (cases "st_trade s ?k")
      case (Some q)
      then have "stands_at st q" using m \<open>h ?k = Some st\<close> by auto
      then show ?thesis using old [OF Some] p \<open>h ?k = Some st\<close>
        by (simp add: st'_def stands_at_def append_sample_def tick_sample_def)
    qed (use m Some p in \<open>simp add: st'_def stands_at_def adopt_after_reset_def tick_sample_def\<close>)
  qed (use p in \<open>simp add: st'_def stands_at_def initial_state_def tick_sample_def\<close>)
  then have "mirrors_at s' (h(?k \<mapsto> st')) k" for k using all [of k] by (cases "k = ?k") (simp_all add: mirrors_at_def s' split: option.splits)
  then have "mirrors s' (Some (p, h(?k \<mapsto> st')))" using p by (simp add: mirrors_def)
  with obs show ?thesis by auto
qed

lemma apply_event_no_trade:
  assumes "apply_event s e now = Inr (s', r)" and "\<not> (ar_status r = APPLIED \<and> ar_event_type r = TRADE)"
  shows "st_trade s' = st_trade s"
  using assms
  by (cases e) (auto simp: apply_event_def apply_market_def apply_heartbeat_def Let_def rbind_Inr_iff split: if_splits option.splits)

lemma apply_event_applied_trade:
  assumes "apply_event s e now = Inr (s', r)" and "ar_event_type r = TRADE"
  obtains t where "e = Trade_Event t"
  using assms
  by (cases e) (auto simp: apply_event_def apply_market_def apply_heartbeat_def Let_def rbind_Inr_iff split: if_splits option.splits)

lemma apply_event_total: "apply_event s e now = Inl err \<Longrightarrow> err = FutureMarketEventError"
  by (cases e) (auto simp: apply_event_def apply_market_def apply_heartbeat_def Let_def rbind_def split: if_splits option.splits)

lemma mirrors_reset:
  assumes "mirrors s r"
  shows "mirrors (reset_stream s a b) (map_option (\<lambda>(p, h). (p, reset_stream_history h a b)) r)"
proof -
  {
    fix p h k assume r: "r = Some (p, h)"
    have m: "mirrors_at s h k" using assms r unfolding mirrors_def by blast
    have "mirrors_at (reset_stream s a b) (reset_stream_history h a b) k"
    proof (cases "st_trade s k")
      case (Some t)
      then obtain st where st: "h k = Some st" "stands_at st t" using m by (auto simp: mirrors_at_def)
      have "reset_stream_history h a b k = Some (if tick_stream t = (a, b) then reset_state st else st)"
        using st by (auto simp: reset_stream_history_def stands_at_def prod_eq_iff)
      then show ?thesis using Some st(2)
        by (simp add: mirrors_at_def reset_stream_def Let_def drop_stream_def trade_view_def tick_stream_def reset_state_def)
    qed (use m in \<open>auto simp: mirrors_at_def reset_stream_def Let_def drop_stream_def reset_stream_history_def\<close>)
  }
  then show ?thesis using assms unfolding mirrors_def by (auto simp del: split_paired_All)
qed

section \<open>The parts keep the stores aligned\<close>

lemma emit_keeps [simp]:
  "mo_latest (fst (emit cfg m kind attempt dt)) = mo_latest m" "mo_rolling (fst (emit cfg m kind attempt dt)) = mo_rolling m"
  "mo_market_applied (fst (emit cfg m kind attempt dt)) = mo_market_applied m"
  "mo_consecutive_failures (fst (emit cfg m kind attempt dt)) = mo_consecutive_failures m"
  "mo_pending_reset (fst (emit cfg m kind attempt dt)) = mo_pending_reset m"
  "mo_seen_streams (fst (emit cfg m kind attempt dt)) = mo_seen_streams m"
  by (simp_all add: emit_def read_clock_def split: option.split)

lemma clock_keeps [simp]:
  "mo_latest (snd (next_event_timeout cfg m)) = mo_latest m" "mo_rolling (snd (next_event_timeout cfg m)) = mo_rolling m"
  "mo_market_applied (snd (next_event_timeout cfg m)) = mo_market_applied m"
  "mo_consecutive_failures (snd (next_event_timeout cfg m)) = mo_consecutive_failures m"
  "mo_pending_reset (snd (next_event_timeout cfg m)) = mo_pending_reset m"
  "mo_seen_streams (snd (next_event_timeout cfg m)) = mo_seen_streams m"
  "mo_latest (snd (runtime_exhausted cfg m)) = mo_latest m" "mo_rolling (snd (runtime_exhausted cfg m)) = mo_rolling m"
  "mo_market_applied (snd (runtime_exhausted cfg m)) = mo_market_applied m"
  "mo_consecutive_failures (snd (runtime_exhausted cfg m)) = mo_consecutive_failures m"
  "mo_pending_reset (snd (runtime_exhausted cfg m)) = mo_pending_reset m"
  "mo_seen_streams (snd (runtime_exhausted cfg m)) = mo_seen_streams m"
  by (simp_all add: next_event_timeout_def runtime_exhausted_def read_clock_def Let_def split: option.split)

text \<open>
  Callbacks that never fail. A step is sound when it keeps the stores aligned and fails, if at all,
  only with what it was allowed to fail with.
\<close>

definition reliable :: "'h monitor_config \<Rightarrow> bool" where
  "reliable cfg \<longleftrightarrow>
     (\<forall>sink. mc_on_evidence cfg = Some sink \<longrightarrow> (\<forall>e. sink e = Inr ())) \<and>
     (\<forall>hook. mc_on_applied_update cfg = Some hook \<longrightarrow> (\<forall>s r u h. snd (hook s r u h) = Inr ()))"

definition aligned :: "'h monitor \<Rightarrow> bool" where
  "aligned m \<longleftrightarrow> mirrors (mo_latest m) (mo_rolling m)"

lemma aligned_fields [simp]:
  "aligned (m\<lparr>mo_state := st\<rparr>) = aligned m" "aligned (m\<lparr>mo_consecutive_failures := n\<rparr>) = aligned m"
  "aligned (m\<lparr>mo_pending_reset := P\<rparr>) = aligned m" "aligned (m\<lparr>mo_seen_streams := P\<rparr>) = aligned m"
  "aligned (m\<lparr>mo_started_at := t\<rparr>) = aligned m" "aligned (m\<lparr>mo_reads := i\<rparr>) = aligned m"
  by (simp_all add: aligned_def)

definition sound_step :: "monitor_error set \<Rightarrow> ('h, 'a) monitor_answer \<Rightarrow> bool" where
  "sound_step E a \<longleftrightarrow> aligned (fst a) \<and> (\<forall>e. snd a = Inl e \<longrightarrow> e \<in> E)"

lemma sound_mbind:
  assumes "sound_step E a" and "\<And>m x. a = (m, Inr x) \<Longrightarrow> aligned m \<Longrightarrow> sound_step E (f m x)"
  shows "sound_step E (mbind a f)"
  using assms by (cases a) (auto simp: sound_step_def mbind_def split: sum.splits)

lemma emit_reliable: "reliable cfg \<Longrightarrow> snd (emit cfg m kind attempt dt) = Inr ()"
  by (auto simp: emit_def reliable_def callback_answer_def read_clock_def split: option.splits)

lemma sound_emit: "reliable cfg \<Longrightarrow> aligned m \<Longrightarrow> sound_step E (emit cfg m kind attempt dt)"
  by (simp add: sound_step_def emit_reliable aligned_def)

lemma sound_reset:
  assumes "reliable cfg" and "aligned m"
  shows "sound_step E (reset_on_reconnect cfg m stream attempt)"
  unfolding reset_on_reconnect_def Let_def
proof (rule sound_mbind)
  show "sound_step E (emit cfg (m\<lparr>mo_latest := reset_stream (mo_latest m) (fst stream) (snd stream),
      mo_rolling := map_option (\<lambda>(p, h). (p, reset_stream_history h (fst stream) (snd stream))) (mo_rolling m)\<rparr>) ''reset'' attempt
      (no_details\<lparr>dt_meta := no_meta\<lparr>em_provider := Some (fst stream), em_channel := Some (snd stream)\<rparr>,
        dt_reason_code := Some ''reconnect_stream_reset''\<rparr>))"
    using assms mirrors_reset by (intro sound_emit) (simp_all add: aligned_def)
qed (simp add: sound_step_def aligned_def)

lemma sound_mirror:
  assumes "mirrors s (mo_rolling m)" and "apply_event s event now = Inr (s', r)" and "mo_latest m = s'"
  shows "sound_step E (mirror_trade m event r now)"
proof (cases "mo_rolling m")
  case (Some ph)
  obtain p h where ph: "ph = (p, h)" by fastforce
  show ?thesis
  proof (cases "ar_status r = APPLIED \<and> ar_event_type r = TRADE")
    case True
    then obtain t where e: "event = Trade_Event t" using apply_event_applied_trade [OF assms(2)] by blast
    then obtain h' ro where "observe p h t now = Inr (h', ro)" "ro_status ro = RO_APPLIED" "mirrors s' (Some (p, h'))"
      using observe_follows_apply [of s p h t now s' r] assms(1,2) True Some ph by auto
    then show ?thesis using Some ph e True assms(3) by (simp add: mirror_trade_def sound_step_def aligned_def)
  next
    case False
    have "mirrors s' (mo_rolling m)"
      using assms(1) apply_event_no_trade [OF assms(2) False] by (simp add: mirrors_def mirrors_at_def)
    moreover have "mirror_trade m event r now = (m, Inr ())" using Some ph False by (auto simp: mirror_trade_def)
    ultimately show ?thesis using assms(3) by (simp add: sound_step_def aligned_def)
  qed
qed (simp add: mirror_trade_def sound_step_def aligned_def mirrors_def)

lemma notify_shape: "\<exists>h ans. notify cfg m event r now = (m\<lparr>mo_hook := h\<rparr>, ans) \<and> (reliable cfg \<longrightarrow> ans = Inr ())"
proof (cases "mc_on_applied_update cfg")
  case (Some hook)
  show ?thesis
  proof (cases "if market_applied r then update_of event now else None")
    case (Some u)
    obtain h res where "hook (mo_latest m) (mo_rolling m) u (mo_hook m) = (h, res)" by fastforce
    moreover from this have "reliable cfg \<longrightarrow> res = Inr ()"
      using \<open>mc_on_applied_update cfg = Some hook\<close> unfolding reliable_def by (metis snd_conv)
    ultimately show ?thesis using \<open>mc_on_applied_update cfg = Some hook\<close> Some
      by (auto simp: notify_def callback_answer_def)
  qed (use Some in \<open>auto simp: notify_def intro: exI [of _ "mo_hook m"]\<close>)
qed (auto simp: notify_def intro: exI [of _ "mo_hook m"])

lemma sound_notify:
  assumes "reliable cfg" and "aligned m"
  shows "sound_step E (notify cfg m event r now)"
  using assms notify_shape [of cfg m event r now] by (auto simp: sound_step_def aligned_def)

lemma sound_apply:
  assumes "reliable cfg" and "aligned m"
  shows "sound_step E (apply_and_notify cfg m event attempt)"
proof -
  define m1 where "m1 = snd (read_clock cfg m)"
  define now where "now = fst (read_clock cfg m)"
  have m1: "mo_latest m1 = mo_latest m" "mo_rolling m1 = mo_rolling m" "aligned m1" and rd: "read_clock cfg m = (now, m1)"
    using assms(2) by (simp_all add: m1_def now_def read_clock_def aligned_def)
  show ?thesis
  proof (cases "apply_event (mo_latest m1) event now")
    case (Inl err)
    then have "err = FutureMarketEventError" by (rule apply_event_total)
    then show ?thesis using Inl m1 assms(1)
      by (simp add: apply_and_notify_def rd) (rule sound_emit; simp add: aligned_def)
  next
    case (Inr q)
    obtain latest r where q: "q = (latest, r)" by fastforce
    have "sound_step E (mirror_trade (m1\<lparr>mo_latest := latest,
        mo_market_applied := mo_market_applied m1 + (if market_applied r then 1 else 0)\<rparr>) event r now)"
      by (rule sound_mirror [OF _ Inr [unfolded q]]) (use m1 in \<open>simp_all add: aligned_def\<close>)
    then show ?thesis unfolding apply_and_notify_def rd prod.case Inr q sum.case
      by (intro sound_mbind sound_emit sound_notify assms(1)) (simp_all add: aligned_def)
  qed
qed

lemma sound_consume:
  assumes "reliable cfg" and "aligned m"
  shows "sound_step E (consume cfg m event attempt)"
  unfolding consume_def Let_def
proof (rule sound_mbind)
  show "sound_step E (if stream_key event \<in> mo_pending_reset m then reset_on_reconnect cfg m (stream_key event) attempt else (m, Inr ()))"
    using sound_reset [OF assms] assms(2) by (simp add: sound_step_def)
qed (rule sound_apply [OF assms(1)], simp add: aligned_def)

lemma sound_after_emit: "sound_step E a \<Longrightarrow> sound_step E (after_emit a outc)"
  unfolding after_emit_def by (rule sound_mbind) (simp_all add: sound_step_def)

lemma sound_stop: "reliable cfg \<Longrightarrow> aligned m \<Longrightarrow> sound_step E (stop_emit cfg m kind attempt reason outc)"
  unfolding stop_emit_def by (intro sound_after_emit sound_emit) (simp_all add: aligned_def)

lemma sound_attempt_loop:
  assumes "reliable cfg" and "aligned m" and "MonitorCancelled \<in> E"
  shows "sound_step E (attempt_loop cfg m attempt pulls)"
  using assms(2)
proof (induction pulls arbitrary: m)
  case Nil
  then show ?case using assms(1) by (simp add: sound_stop aligned_def)
next
  case (Cons p pulls)
  let ?m = "snd (next_event_timeout cfg m)"
  have m: "aligned ?m" using Cons.prems by (simp add: aligned_def)
  show ?case
  proof (cases p)
    case (Pull_Event event)
    have "sound_step E (consume cfg (?m\<lparr>mo_state := MO_RUNNING\<rparr>) event attempt)"
      using assms(1) m by (intro sound_consume) (simp_all add: aligned_def)
    then show ?thesis unfolding Pull_Event attempt_loop.simps
    proof (rule sound_mbind)
      fix m1 :: "'a monitor" assume "aligned m1"
      moreover have "aligned (snd (runtime_exhausted cfg m1))" using \<open>aligned m1\<close> by (simp add: aligned_def)
      ultimately show "sound_step E (if \<exists>n\<in>set_option (mc_max_events cfg). n \<le> mo_events_consumed m1
          then stop_emit cfg m1 ''stop'' attempt (Some ''budget_reached'') Budget
          else case runtime_exhausted cfg m1 of (exhausted, m2) \<Rightarrow>
            if exhausted then stop_emit cfg m2 ''stop'' attempt (Some ''runtime_timeout'') Budget
            else attempt_loop cfg m2 attempt pulls)"
        using assms(1) sound_stop Cons.IH by (auto simp: case_prod_unfold)
    qed
  next
    case Pull_Timeout
    obtain d where nt: "next_event_timeout cfg m = (d, ?m)" by (metis prod.collapse)
    have "sound_step E (case d of
        Some (_, Runtime_Deadline) \<Rightarrow> stop_emit cfg ?m ''stop'' attempt (Some ''runtime_timeout'') Budget
      | None \<Rightarrow> after_emit (emit_source_error_drop cfg ?m attempt ''websocket_receive_timeout_after_ack'' None) Drop
      | Some (_, Heartbeat_Deadline) \<Rightarrow>
          after_emit (emit cfg ?m ''drop'' attempt (no_details\<lparr>dt_reason_code := Some ''heartbeat_stale''\<rparr>)) Drop)"
      using assms(1) m
      by (auto split: option.split deadline_reason.split simp: emit_source_error_drop_def intro: sound_stop sound_after_emit sound_emit)
    then show ?thesis unfolding Pull_Timeout attempt_loop.simps by (subst nt) (auto split: option.splits deadline_reason.splits)
  next
    case (Pull_Error e)
    then show ?thesis using assms(1) m
      by (auto simp: emit_source_error_drop_def split: prod.split intro!: sound_after_emit sound_emit)
  next
    case Pull_Cancelled
    then show ?thesis using m assms(3) by (simp add: sound_step_def emit_cancelled_def aligned_def)
  qed
qed

lemma sound_run_attempt:
  assumes "reliable cfg" and "aligned m" and "MonitorCancelled \<in> E"
  shows "sound_step E (run_attempt cfg m attempt c)"
proof (cases c)
  case Factory_Error
  then show ?thesis using assms(1,2)
    by (simp add: run_attempt_def emit_source_error_drop_def sound_after_emit sound_emit)
next
  case Factory_Cancelled
  then show ?thesis using assms(2,3) by (simp add: run_attempt_def emit_cancelled_def sound_step_def aligned_def)
qed (use sound_attempt_loop [OF assms] in \<open>simp add: run_attempt_def\<close>)

lemma sound_begin: "reliable cfg \<Longrightarrow> aligned m \<Longrightarrow> sound_step E (begin_attempt cfg m attempt)"
  by (simp add: begin_attempt_def read_clock_def) (rule sound_emit; simp add: aligned_def)

lemma sound_after_drop:
  fixes cfg :: "'h monitor_config"
  assumes "reliable cfg" and "aligned m" and "\<And>s. MonitorExhaustedError s \<in> E"
  shows "sound_step E (after_drop cfg m attempt)"
proof -
  have "sound_step E (mbind (emit cfg m' kind attempt dt)
      (\<lambda>m2 _. (m2, Inl (MonitorExhaustedError (summary_of cfg m2 attempt)))) :: ('h, unit) monitor_answer)"
    if "aligned m'" for m' kind dt
    by (rule sound_mbind) (use sound_emit [OF assms(1) that] assms(3) in \<open>auto simp: sound_step_def\<close>)
  then show ?thesis using sound_emit [OF assms(1)] assms(2) by (auto simp: after_drop_def Let_def delay_for_attempt_def)
qed

lemma finish_keeps [simp]: "mo_latest (finish m) = mo_latest m" "mo_rolling (finish m) = mo_rolling m"
  by (simp_all add: finish_def)

text \<open>One turn of the loop of \<^verbatim>\<open>run\<close>: the attempt, and what follows a drop.\<close>

definition attempt_turn :: "'h monitor_config \<Rightarrow> (nat \<Rightarrow> connection) \<Rightarrow> 'h monitor \<Rightarrow> nat \<Rightarrow> ('h, attempt_outcome) monitor_answer" where
  "attempt_turn cfg conns m attempt =
     mbind (begin_attempt cfg m attempt) (\<lambda>m1 _. run_attempt cfg m1 attempt (conns attempt))"

lemma run_attempts_cases:
  obtains (fails) m1 e where "attempt_turn cfg conns m n = (m1, Inl e)" "run_attempts cfg conns m n = Some (finish m1, Inl e)"
  | (stops) m1 outc where "attempt_turn cfg conns m n = (m1, Inr outc)" "outc \<noteq> Drop"
    "run_attempts cfg conns m n = Some (m1\<lparr>mo_state := MO_STOPPED\<rparr>, Inr (summary_of cfg (m1\<lparr>mo_state := MO_STOPPED\<rparr>) n))"
  | (gives_up) m1 m2 e where "attempt_turn cfg conns m n = (m1, Inr Drop)" "after_drop cfg m1 n = (m2, Inl e)"
    "run_attempts cfg conns m n = Some (finish m2, Inl e)"
  | (again) m1 m2 where "attempt_turn cfg conns m n = (m1, Inr Drop)" "after_drop cfg m1 n = (m2, Inr ())"
    "run_attempts cfg conns m n = run_attempts cfg conns m2 (Suc n)"
proof -
  note eq = run_attempts.simps [of cfg conns m n, folded attempt_turn_def]
  obtain m1 a where t: "attempt_turn cfg conns m n = (m1, a)" by fastforce
  show thesis
  proof (cases a)
    case (Inl e)
    then show thesis using fails t eq by simp
  next
    case (Inr outc)
    obtain m2 b where d: "after_drop cfg m1 n = (m2, b)" by fastforce
    show thesis
    proof (cases "outc = Drop")
      case True
      then show thesis using gives_up again t d Inr eq by (cases b) auto
    qed (use stops t Inr eq in auto)
  qed
qed

definition run_errors :: "monitor_error set" where
  "run_errors = insert MonitorCancelled (range MonitorExhaustedError)"

lemma sound_turn:
  assumes "reliable cfg" and "aligned m"
  shows "sound_step run_errors (attempt_turn cfg conns m n)"
  unfolding attempt_turn_def
  by (rule sound_mbind [OF sound_begin [OF assms]], rule sound_run_attempt [OF assms(1)]) (simp_all add: run_errors_def)

lemma run_attempts_sound:
  assumes ret: "run_attempts cfg conns m n = Some r" and "reliable cfg" and "aligned m"
  shows "sound_step run_errors r"
proof -
  have "reliable cfg \<longrightarrow> aligned m \<longrightarrow> sound_step run_errors r"
  proof (rule run_attempts.raw_induct [where P = "\<lambda>cfg conns m n r. reliable cfg \<longrightarrow> aligned m \<longrightarrow> sound_step run_errors r",
        OF _ ret])
    fix f and cfg :: "'a monitor_config" and conns m n r
    assume IH: "\<And>cfg conns m n r. f cfg conns m n = Some r \<Longrightarrow> reliable cfg \<longrightarrow> aligned m \<longrightarrow> sound_step run_errors r"
      and eq: "(case mbind (begin_attempt cfg m n) (\<lambda>m1 _. run_attempt cfg m1 n (conns n)) of
          (m1, Inl e) \<Rightarrow> Some (finish m1, Inl e)
        | (m1, Inr outc) \<Rightarrow>
            if outc \<noteq> Drop then Some (m1\<lparr>mo_state := MO_STOPPED\<rparr>, Inr (summary_of cfg (m1\<lparr>mo_state := MO_STOPPED\<rparr>) n))
            else case after_drop cfg m1 n of
              (m2, Inl e) \<Rightarrow> Some (finish m2, Inl e)
            | (m2, Inr _) \<Rightarrow> f cfg conns m2 (Suc n)) = Some r"
    have "sound_step run_errors r" if c: "reliable cfg" "aligned m"
    proof -
      obtain m1 a where t: "attempt_turn cfg conns m n = (m1, a)" by fastforce
      obtain m2 b where d: "after_drop cfg m1 n = (m2, b)" by fastforce
      have m1: "aligned m1" and ea: "\<And>e. a = Inl e \<Longrightarrow> e \<in> run_errors"
        using sound_turn [OF c, of conns n] t by (auto simp: sound_step_def)
      have m2: "aligned m2" and eb: "\<And>e. b = Inl e \<Longrightarrow> e \<in> run_errors"
        using sound_after_drop [OF c(1) m1, of run_errors n] d by (auto simp: sound_step_def run_errors_def)
      have fin: "aligned (finish m')" if "aligned m'" for m' :: "'a monitor" using that by (simp add: aligned_def)
      show ?thesis
      proof (cases a)
        case (Inl e)
        then show ?thesis using eq t m1 ea fin by (auto simp: attempt_turn_def sound_step_def)
      next
        case (Inr outc)
        show ?thesis
        proof (cases "outc = Drop")
          case True
          then show ?thesis using eq t d Inr m2 eb fin IH c(1)
            by (cases b) (auto simp: attempt_turn_def sound_step_def)
        qed (use eq t Inr m1 in \<open>auto simp: attempt_turn_def sound_step_def\<close>)
      qed
    qed
    then show "reliable cfg \<longrightarrow> aligned m \<longrightarrow> sound_step run_errors r" by blast
  qed
  then show ?thesis using assms by blast
qed

section \<open>The loop ends\<close>

text \<open>A connection that brings no trade and no quote: the failures go on counting.\<close>

definition brings_data :: "pull \<Rightarrow> bool" where
  "brings_data p \<longleftrightarrow> (case p of Pull_Event (Heartbeat_Event _) \<Rightarrow> False | Pull_Event _ \<Rightarrow> True | _ \<Rightarrow> False)"

definition quiet :: "connection \<Rightarrow> bool" where
  "quiet c \<longleftrightarrow> (case c of Connected pulls \<Rightarrow> \<not> list_ex brings_data pulls | _ \<Rightarrow> True)"

lemma mbind_field:
  assumes "\<And>m x. a = (m, Inr x) \<Longrightarrow> F (fst (f m x)) = F m"
  shows "F (fst (mbind a f)) = F (fst a)"
  using assms by (cases a; cases "snd a") (auto simp: mbind_def)

lemma mirror_keeps [simp]:
  "mo_consecutive_failures (fst (mirror_trade m event r now)) = mo_consecutive_failures m"
  "mo_market_applied (fst (mirror_trade m event r now)) = mo_market_applied m"
  by (simp_all add: mirror_trade_def split: option.split prod.split market_event.split sum.split)

lemma notify_keeps [simp]:
  "mo_consecutive_failures (fst (notify cfg m event r now)) = mo_consecutive_failures m"
  "mo_market_applied (fst (notify cfg m event r now)) = mo_market_applied m"
  using notify_shape [of cfg m event r now] by auto

lemma reset_keeps [simp]:
  "mo_consecutive_failures (fst (reset_on_reconnect cfg m stream attempt)) = mo_consecutive_failures m"
  "mo_market_applied (fst (reset_on_reconnect cfg m stream attempt)) = mo_market_applied m"
  by (simp_all add: reset_on_reconnect_def Let_def mbind_field [of _ mo_consecutive_failures] mbind_field [of _ mo_market_applied])

lemma apply_and_notify_failures [simp]:
  "mo_consecutive_failures (fst (apply_and_notify cfg m event attempt)) = mo_consecutive_failures m"
  by (simp add: apply_and_notify_def read_clock_def mbind_field [of _ mo_consecutive_failures]
      split: sum.split prod.split market_state_error.split)

lemma apply_and_notify_heartbeat [simp]:
  "mo_market_applied (fst (apply_and_notify cfg m (Heartbeat_Event h) attempt)) = mo_market_applied m"
proof -
  have "\<not> market_applied r" if "apply_event s (Heartbeat_Event h) now = Inr (s', r)" for s now s' r
    using that by (auto simp: market_applied_def apply_event_def apply_heartbeat_def Let_def rbind_Inr_iff split: if_splits option.splits)
  then show ?thesis
    by (auto simp: apply_and_notify_def read_clock_def mbind_field [of _ mo_market_applied]
        split: sum.split prod.split market_state_error.split)
qed

lemma consume_keeps [simp]:
  "mo_consecutive_failures (fst (consume cfg m event attempt)) = mo_consecutive_failures m"
  "mo_market_applied (fst (consume cfg m (Heartbeat_Event h) attempt)) = mo_market_applied m"
  by (simp_all add: consume_def Let_def mbind_field [of _ mo_consecutive_failures] mbind_field [of _ mo_market_applied])

lemma after_emit_keeps [simp]: "fst (after_emit a outc) = fst a"
  by (cases a; cases "snd a") (simp_all add: after_emit_def mbind_def)

lemma stop_keeps [simp]:
  "mo_consecutive_failures (fst (stop_emit cfg m kind attempt reason outc)) = mo_consecutive_failures m"
  "mo_market_applied (fst (stop_emit cfg m kind attempt reason outc)) = mo_market_applied m"
  by (simp_all add: stop_emit_def)

lemma timeout_keeps:
  "mo_consecutive_failures (fst (attempt_loop cfg m attempt (Pull_Timeout # pulls))) = mo_consecutive_failures m \<and>
   mo_market_applied (fst (attempt_loop cfg m attempt (Pull_Timeout # pulls))) = mo_market_applied m"
proof -
  obtain d m1 where nt: "next_event_timeout cfg m = (d, m1)" by fastforce
  have "mo_consecutive_failures m1 = mo_consecutive_failures m" "mo_market_applied m1 = mo_market_applied m"
    using clock_keeps(3,4) [of cfg m] nt by simp_all
  then show ?thesis by (simp add: nt emit_source_error_drop_def split: option.split deadline_reason.split)
qed

lemma attempt_loop_keeps:
  "mo_consecutive_failures (fst (attempt_loop cfg m attempt pulls)) = mo_consecutive_failures m \<and>
   (\<not> list_ex brings_data pulls \<longrightarrow> mo_market_applied (fst (attempt_loop cfg m attempt pulls)) = mo_market_applied m)"
proof (induction pulls arbitrary: m)
  case (Cons p pulls)
  show ?case
  proof (cases p)
    case (Pull_Event event)
    let ?c = "consume cfg ((snd (next_event_timeout cfg m))\<lparr>mo_state := MO_RUNNING\<rparr>) event attempt"
    have "mo_consecutive_failures (fst (attempt_loop cfg m attempt (p # pulls))) = mo_consecutive_failures (fst ?c)"
      unfolding Pull_Event attempt_loop.simps
      by (rule mbind_field) (use Cons.IH in \<open>auto simp: case_prod_unfold\<close>)
    moreover have "mo_market_applied (fst (attempt_loop cfg m attempt (p # pulls))) = mo_market_applied (fst ?c)"
      if "\<not> list_ex brings_data pulls"
      unfolding Pull_Event attempt_loop.simps
      by (rule mbind_field) (use Cons.IH that in \<open>auto simp: case_prod_unfold\<close>)
    moreover have "mo_market_applied (fst ?c) = mo_market_applied m" if "\<not> brings_data p"
      using that by (cases event) (simp_all add: Pull_Event brings_data_def)
    ultimately show ?thesis by simp
  qed (use timeout_keeps in \<open>auto simp: emit_source_error_drop_def emit_cancelled_def case_prod_unfold simp del: attempt_loop.simps(4)\<close>)
qed simp

lemma attempt_turn_keeps:
  assumes "attempt_turn cfg conns m n = (m1, a)"
  shows "mo_consecutive_failures m1 = mo_consecutive_failures m" and "quiet (conns n) \<Longrightarrow> mo_market_applied m1 = 0"
proof -
  have r: "mo_consecutive_failures (fst (run_attempt cfg m' n c)) = mo_consecutive_failures m' \<and>
      (quiet c \<longrightarrow> mo_market_applied (fst (run_attempt cfg m' n c)) = mo_market_applied m')" for m' c
    using attempt_loop_keeps [of cfg m' n]
    by (cases c) (auto simp: run_attempt_def emit_source_error_drop_def emit_cancelled_def quiet_def)
  have b: "mo_consecutive_failures (fst (begin_attempt cfg m n)) = mo_consecutive_failures m"
    "mo_market_applied (fst (begin_attempt cfg m n)) = 0" by (simp_all add: begin_attempt_def read_clock_def)
  have m1: "m1 = fst (attempt_turn cfg conns m n)" using assms by simp
  show "mo_consecutive_failures m1 = mo_consecutive_failures m"
    unfolding m1 attempt_turn_def using r b by (subst mbind_field [of _ mo_consecutive_failures]) simp_all
  show "quiet (conns n) \<Longrightarrow> mo_market_applied m1 = 0"
    unfolding m1 attempt_turn_def using r b by (subst mbind_field [of _ mo_market_applied]) simp_all
qed

lemma after_drop_goes_on:
  assumes "after_drop cfg m n = (m2, Inr ())"
  shows "mo_consecutive_failures m2 = (if 0 < mo_market_applied m then 0 else mo_consecutive_failures m + 1)"
    and "mo_consecutive_failures m2 < rc_max_attempts (mc_policy cfg)"
proof -
  let ?n = "if 0 < mo_market_applied m then 0 else mo_consecutive_failures m + 1"
  have lt: "\<not> rc_max_attempts (mc_policy cfg) \<le> ?n"
  proof
    assume "rc_max_attempts (mc_policy cfg) \<le> ?n"
    then have "after_drop cfg m n = mbind (emit cfg (m\<lparr>mo_consecutive_failures := ?n, mo_state := MO_EXHAUSTED\<rparr>)
        ''exhausted'' n no_details) (\<lambda>m2 _. (m2, Inl (MonitorExhaustedError (summary_of cfg m2 n))))"
      by (simp add: after_drop_def Let_def)
    then show False using assms by (auto simp: mbind_def split: sum.splits prod.splits)
  qed
  obtain m' kind dt where "after_drop cfg m n = emit cfg m' kind n dt" "mo_consecutive_failures m' = ?n"
  proof -
    have "after_drop cfg m n = emit cfg (m\<lparr>mo_consecutive_failures := ?n,
        mo_pending_reset := mo_pending_reset m \<union> mo_seen_streams m, mo_state := MO_BACKING_OFF\<rparr>) ''backoff'' n
        (no_details\<lparr>dt_backoff_seconds := Some (min (rc_initial_delay_seconds (mc_policy cfg) *
          rc_multiplier (mc_policy cfg) ^ nat (max ?n 1 - 1)) (rc_max_delay_seconds (mc_policy cfg)))\<rparr>)"
      using lt by (simp add: after_drop_def Let_def delay_for_attempt_def)
    then show thesis by (rule that) simp
  qed
  then have "mo_consecutive_failures m2 = ?n" using assms emit_keeps(4) by (metis fst_conv)
  then show "mo_consecutive_failures m2 = ?n" "mo_consecutive_failures m2 < rc_max_attempts (mc_policy cfg)"
    using lt by simp_all
qed

lemma attempt_turn_cong: "conns n = conns' n \<Longrightarrow> attempt_turn cfg conns m n = attempt_turn cfg conns' m n"
  by (simp add: attempt_turn_def)

lemma run_attempts_settled:
  assumes "\<And>m2 m1. attempt_turn cfg conns m n = (m1, Inr Drop) \<Longrightarrow> after_drop cfg m1 n = (m2, Inr ()) \<Longrightarrow>
      \<exists>r. \<forall>conns'. (\<forall>k<b. conns' k = conns k) \<longrightarrow> run_attempts cfg conns' m2 (Suc n) = Some r"
    and "n < b"
  shows "\<exists>r. \<forall>conns'. (\<forall>k<b. conns' k = conns k) \<longrightarrow> run_attempts cfg conns' m n = Some r"
proof -
  have turn: "attempt_turn cfg conns' m n = attempt_turn cfg conns m n" if "\<forall>k<b. conns' k = conns k" for conns'
    using that assms(2) by (intro attempt_turn_cong) simp
  show ?thesis
  proof (cases rule: run_attempts_cases [of cfg conns m n])
    case (fails m1 e)
    then have "run_attempts cfg conns' m n = Some (finish m1, Inl e)" if "\<forall>k<b. conns' k = conns k" for conns'
      using turn [OF that] by (cases rule: run_attempts_cases [of cfg conns' m n]) auto
    then show ?thesis by blast
  next
    case (stops m1 outc)
    then have "run_attempts cfg conns' m n =
        Some (m1\<lparr>mo_state := MO_STOPPED\<rparr>, Inr (summary_of cfg (m1\<lparr>mo_state := MO_STOPPED\<rparr>) n))" if "\<forall>k<b. conns' k = conns k" for conns'
      using turn [OF that] by (cases rule: run_attempts_cases [of cfg conns' m n]) auto
    then show ?thesis by blast
  next
    case (gives_up m1 m2 e)
    then have "run_attempts cfg conns' m n = Some (finish m2, Inl e)" if "\<forall>k<b. conns' k = conns k" for conns'
      using turn [OF that] by (cases rule: run_attempts_cases [of cfg conns' m n]) auto
    then show ?thesis by blast
  next
    case (again m1 m2)
    then have "run_attempts cfg conns' m n = run_attempts cfg conns' m2 (Suc n)" if "\<forall>k<b. conns' k = conns k" for conns'
      using turn [OF that] by (cases rule: run_attempts_cases [of cfg conns' m n]) auto
    then show ?thesis using assms(1) [OF again(1,2)] by metis
  qed
qed

lemma quiet_run_ends:
  assumes "0 \<le> mo_consecutive_failures m" and "mo_consecutive_failures m < rc_max_attempts (mc_policy cfg)"
    and "\<forall>k. n \<le> k \<and> k < b \<longrightarrow> quiet (conns k)" and "n + nat (rc_max_attempts (mc_policy cfg) - mo_consecutive_failures m) \<le> b"
  shows "\<exists>r. \<forall>conns'. (\<forall>k<b. conns' k = conns k) \<longrightarrow> run_attempts cfg conns' m n = Some r"
  using assms
proof (induction "nat (rc_max_attempts (mc_policy cfg) - mo_consecutive_failures m)" arbitrary: m n rule: less_induct)
  case less
  show ?case
  proof (rule run_attempts_settled)
    show b: "n < b" using less.prems by simp
    fix m1 m2
    assume t: "attempt_turn cfg conns m n = (m1, Inr Drop)" and d: "after_drop cfg m1 n = (m2, Inr ())"
    have "mo_consecutive_failures m2 = mo_consecutive_failures m + 1"
      using after_drop_goes_on(1) [OF d] attempt_turn_keeps [OF t] less.prems(3) b by simp
    then show "\<exists>r. \<forall>conns'. (\<forall>k<b. conns' k = conns k) \<longrightarrow> run_attempts cfg conns' m2 (Suc n) = Some r"
      using after_drop_goes_on(2) [OF d] less.prems by (intro less.hyps) auto
  qed
qed

lemma run_ends:
  assumes "0 \<le> mo_consecutive_failures m" and "mo_consecutive_failures m < rc_max_attempts (mc_policy cfg)" and "n \<le> N"
    and "b = N + nat (rc_max_attempts (mc_policy cfg))" and "\<forall>k. N \<le> k \<and> k < b \<longrightarrow> quiet (conns k)"
  shows "\<exists>r. \<forall>conns'. (\<forall>k<b. conns' k = conns k) \<longrightarrow> run_attempts cfg conns' m n = Some r"
  using assms(1-3)
proof (induction "N - n" arbitrary: m n)
  case 0
  then show ?case using assms(4,5) by (intro quiet_run_ends) auto
next
  case (Suc j)
  show ?case
  proof (rule run_attempts_settled)
    show "n < b" using Suc.hyps(2) assms(4) by simp
    fix m1 m2
    assume t: "attempt_turn cfg conns m n = (m1, Inr Drop)" and d: "after_drop cfg m1 n = (m2, Inr ())"
    show "\<exists>r. \<forall>conns'. (\<forall>k<b. conns' k = conns k) \<longrightarrow> run_attempts cfg conns' m2 (Suc n) = Some r"
      by (rule Suc.hyps(1)) (use after_drop_goes_on [OF d] attempt_turn_keeps(1) [OF t] Suc.prems Suc.hyps(2) in auto)
  qed
qed

section \<open>Properties of the monitor\<close>



text \<open>The fixture: one connection with a trade that then times out, and a source that is gone afterwards.\<close>

definition feed_config :: "nat monitor_config" where
  "feed_config =
     \<lparr>mc_session_id = ''feed'',
      mc_policy = \<lparr>rc_initial_delay_seconds = 1, rc_multiplier = 2, rc_max_delay_seconds = 30, rc_max_attempts = 2\<rparr>,
      mc_clock = int, mc_max_events = None, mc_max_runtime = None,
      mc_heartbeat_watch = Some ((''kis'', ''beat''), 5000000),
      mc_on_evidence = Some (\<lambda>_. Inr ()), mc_on_applied_update = Some (\<lambda>_ _ _ n. (Suc n, Inr ()))\<rparr>"

definition feed_connections :: "nat \<Rightarrow> connection" where
  "feed_connections k = (if k = 1 then Connected [Pull_Event (Trade_Event (example_trade 1 0)), Pull_Timeout] else Factory_Error)"

definition feed_stores :: "latest_store \<times> (retention_policy \<times> history_store) option" where
  "feed_stores = (new_latest_store DEFAULT_MAX_AGE,
     Some (\<lparr>rp_hard_max_events = 2, rp_hard_max_age_seconds = 60\<rparr>, Map.empty))"

lemma feed_policy: "mk_ReconnectPolicy (mc_policy feed_config) = Inr (mc_policy feed_config)"
  by (simp add: mk_ReconnectPolicy_def feed_config_def)

lemma feed_max_attempts: "rc_max_attempts (mc_policy feed_config) = 2"
  by (simp add: feed_config_def)

lemma feed_quiet: "2 \<le> k \<Longrightarrow> quiet (feed_connections k)"
  by (simp add: feed_connections_def quiet_def)



end
