(* ===== verification/Supervisor.thy ===== *)
theory Supervisor
  imports Monitor
begin

text \<open>
  The market supervisor: \<^verbatim>\<open>src/src/market_data/supervisor.py\<close>. It keeps one monitor task alive while the
  session is open, restarts it within a budget, and fails closed. The event loop around it is the state
  \<open>'e\<close> of an environment: the clock, the sleeps, the monitor factory, the task and the evidence sink are
  functions on it, and wherever the code awaits, the environment may deliver signals to the tracker
  (\<^verbatim>\<open>record_transport\<close>, \<^verbatim>\<open>record_market\<close>) and cancel the supervisor.
\<close>

section \<open>States and configuration\<close>

datatype supervisor_state =
    SU_IDLE | SU_RUNNING | SU_IDLE_CLOSED | SU_WAITING_CALENDAR | SU_BACKING_OFF | SU_STOPPED | SU_FAILED_CLOSED

datatype supervisor_action =
    SA_KEEP_RUNNING | SA_WAIT_FOR_SESSION | SA_WAIT_FOR_CALENDAR | SA_HOLD_EXECUTION_ONLY
  | SA_RESTART_TRANSPORT | SA_STOP_FOR_SESSION | SA_FAILED_CLOSED

fun supervisor_action_str :: "supervisor_action \<Rightarrow> string" where
  "supervisor_action_str SA_KEEP_RUNNING = ''KEEP_RUNNING''"
| "supervisor_action_str SA_WAIT_FOR_SESSION = ''WAIT_FOR_SESSION''"
| "supervisor_action_str SA_WAIT_FOR_CALENDAR = ''WAIT_FOR_CALENDAR''"
| "supervisor_action_str SA_HOLD_EXECUTION_ONLY = ''HOLD_EXECUTION_ONLY''"
| "supervisor_action_str SA_RESTART_TRANSPORT = ''RESTART_TRANSPORT''"
| "supervisor_action_str SA_STOP_FOR_SESSION = ''STOP_FOR_SESSION''"
| "supervisor_action_str SA_FAILED_CLOSED = ''FAILED_CLOSED''"

fun session_state_str :: "market_session_state \<Rightarrow> string" where
  "session_state_str MS_UNKNOWN = ''UNKNOWN''"
| "session_state_str MS_CLOSED = ''CLOSED''"
| "session_state_str MS_PRE_OPEN = ''PRE_OPEN''"
| "session_state_str MS_OPEN = ''OPEN''"
| "session_state_str MS_POST_CLOSE = ''POST_CLOSE''"

fun transport_health_str :: "transport_health_status \<Rightarrow> string" where
  "transport_health_str TH_UNKNOWN = ''UNKNOWN''"
| "transport_health_str TH_WARMING = ''WARMING''"
| "transport_health_str TH_HEALTHY = ''HEALTHY''"
| "transport_health_str TH_DEGRADED = ''DEGRADED''"
| "transport_health_str TH_FLAPPING = ''FLAPPING''"
| "transport_health_str TH_UNHEALTHY = ''UNHEALTHY''"

fun market_data_health_str :: "market_data_health_status \<Rightarrow> string" where
  "market_data_health_str MD_NOT_EXPECTED = ''NOT_EXPECTED''"
| "market_data_health_str MD_WARMING = ''WARMING''"
| "market_data_health_str MD_HEALTHY = ''HEALTHY''"
| "market_data_health_str MD_STARVED = ''STARVED''"
| "market_data_health_str MD_STALE = ''STALE''"
| "market_data_health_str MD_INVALID = ''INVALID''"
| "market_data_health_str MD_UNKNOWN = ''UNKNOWN''"

datatype monitor_exit_reason =
    EX_NONE | EX_TRANSPORT_EXIT | EX_TRANSPORT_EXHAUSTED | EX_INTERNAL_FAILURE
  | EX_SESSION_CLOSED | EX_CANCELLED | EX_NORMAL_EOF

datatype supervisor_error = SupervisorError string | SupervisorCancelled | SupervisorRaised exn

record supervisor_policy =
  up_poll_interval_seconds :: rat
  up_max_restarts_in_window :: int
  up_restart_window_seconds :: rat
  up_restart_backoff_seconds :: rat

definition mk_SupervisorPolicy :: "supervisor_policy \<Rightarrow> supervisor_error + supervisor_policy" where
  "mk_SupervisorPolicy p =
     (if up_poll_interval_seconds p \<le> 0 then Inl (SupervisorError ''poll_interval_seconds must be > 0.'')
      else if up_max_restarts_in_window p < 0 then Inl (SupervisorError ''max_restarts_in_window must be >= 0.'')
      else if up_restart_window_seconds p \<le> 0 then Inl (SupervisorError ''restart_window_seconds must be > 0.'')
      else if up_restart_backoff_seconds p < 0 then Inl (SupervisorError ''restart_backoff_seconds must be >= 0.'')
      else Inr p)"

definition provisional_supervisor_policy :: supervisor_policy where
  "provisional_supervisor_policy =
     \<lparr>up_poll_interval_seconds = 1, up_max_restarts_in_window = 2, up_restart_window_seconds = 300, up_restart_backoff_seconds = 1\<rparr>"

record supervisor_evidence =
  ue_timestamp :: instant
  ue_state :: supervisor_state
  ue_session_state :: string
  ue_transport :: string
  ue_market_data :: string
  ue_action :: string
  ue_monitor_initial_starts :: nat
  ue_monitor_restarts :: nat
  ue_monitor_cancels :: nat
  ue_restarts_in_current_window :: nat
  ue_kind :: string
  ue_reason_code :: "string option"
  ue_backoff_seconds :: "rat option"
  ue_execution_ready :: bool

record supervisor_summary =
  uy_final_state :: supervisor_state
  uy_monitor_initial_starts :: nat
  uy_monitor_restarts :: nat
  uy_monitor_cancels :: nat
  uy_restarts_in_current_window :: nat
  uy_ticks :: nat
  uy_final_action :: "supervisor_action option"

text \<open>
  The environment. A sink returns, raises an \<^verbatim>\<open>Exception\<close> or raises \<^verbatim>\<open>CancelledError\<close>. The calendar
  raises its own error (\<open>Some\<close>) or another one. \<open>uc_task\<close> is the state of the task last created: not done,
  or done with what \<^verbatim>\<open>MarketMonitor.run\<close> returned or raised.
\<close>

datatype sink_answer = Sink_Ok | Sink_Raised | Sink_Cancelled

datatype await_point = Await_Sleep rat | Await_Yield

datatype health_signal = Transport_Signal string instant | Market_Signal string instant

record 'e supervisor_config =
  uc_market :: market
  uc_session_at :: "market \<Rightarrow> instant \<Rightarrow> session_error option + market_session"
  uc_clock :: "'e \<Rightarrow> instant \<times> 'e"
  uc_await :: "'e \<Rightarrow> await_point \<Rightarrow> 'e \<times> health_signal list \<times> bool"
  uc_settle :: "'e \<Rightarrow> 'e \<times> health_signal list"
  uc_factory :: "'e \<Rightarrow> 'e \<times> bool"
  uc_task :: "'e \<Rightarrow> (monitor_error + monitor_summary) option"
  uc_policy :: supervisor_policy
  uc_max_ticks :: "nat option"
  uc_on_evidence :: "('e \<Rightarrow> supervisor_evidence \<Rightarrow> 'e \<times> sink_answer) option"

record 'e supervisor =
  su_state :: supervisor_state
  su_task :: bool
  su_restart_times :: "instant list"
  su_initial_starts :: nat
  su_total_restarts :: nat
  su_cancels :: nat
  su_ticks :: nat
  su_last_action :: "supervisor_action option"
  su_session_was_active :: bool
  su_terminal_failed :: bool
  su_pending_exit_reason :: monitor_exit_reason
  su_transport_restart_armed :: bool
  su_tracker :: health_tracker
  su_env :: 'e

definition new_supervisor :: "health_tracker \<Rightarrow> 'e \<Rightarrow> 'e supervisor" where
  "new_supervisor t env =
     \<lparr>su_state = SU_IDLE, su_task = False, su_restart_times = [], su_initial_starts = 0, su_total_restarts = 0,
      su_cancels = 0, su_ticks = 0, su_last_action = None, su_session_was_active = False, su_terminal_failed = False,
      su_pending_exit_reason = EX_NONE, su_transport_restart_armed = False, su_tracker = t, su_env = env\<rparr>"

definition check_supervisor :: "'e supervisor_config \<Rightarrow> supervisor_error + unit" where
  "check_supervisor cfg =
     (if (\<exists>n \<in> set_option (uc_max_ticks cfg). n < 1) then Inl (SupervisorError ''max_ticks must be >= 1 when set.'') else Inr ())"

type_synonym ('e, 'a) supervisor_answer = "'e supervisor \<times> (supervisor_error + 'a)"

definition ubind :: "('e, 'a) supervisor_answer \<Rightarrow> ('e supervisor \<Rightarrow> 'a \<Rightarrow> ('e, 'b) supervisor_answer) \<Rightarrow> ('e, 'b) supervisor_answer" where
  "ubind a f = (case a of (s, Inl e) \<Rightarrow> (s, Inl e) | (s, Inr x) \<Rightarrow> f s x)"

section \<open>Clock, signals and awaits\<close>

definition supervisor_now :: "'e supervisor_config \<Rightarrow> 'e supervisor \<Rightarrow> instant \<times> 'e supervisor" where
  "supervisor_now cfg s = (case uc_clock cfg (su_env s) of (now, env) \<Rightarrow> (now, s\<lparr>su_env := env\<rparr>))"

definition record_transport :: "'e supervisor_config \<Rightarrow> 'e supervisor \<Rightarrow> string \<Rightarrow> instant \<Rightarrow> 'e supervisor" where
  "record_transport cfg s kind i =
     (let s1 = (if kind = ''connected'' then s\<lparr>su_transport_restart_armed := False\<rparr> else s)
      in case supervisor_now cfg s1 of (now, s2) \<Rightarrow>
           s2\<lparr>su_tracker := fst (record_transport_event (su_tracker s2) kind i now)\<rparr>)"

definition record_market :: "'e supervisor_config \<Rightarrow> 'e supervisor \<Rightarrow> string \<Rightarrow> instant \<Rightarrow> 'e supervisor" where
  "record_market cfg s event_type i =
     (case supervisor_now cfg s of (now, s1) \<Rightarrow>
        s1\<lparr>su_tracker := fst (record_market_event (su_tracker s1) event_type i now)\<rparr>)"

fun receive_signal :: "'e supervisor_config \<Rightarrow> health_signal \<Rightarrow> 'e supervisor \<Rightarrow> 'e supervisor" where
  "receive_signal cfg (Transport_Signal kind i) s = record_transport cfg s kind i"
| "receive_signal cfg (Market_Signal event_type i) s = record_market cfg s event_type i"

definition supervisor_await :: "'e supervisor_config \<Rightarrow> 'e supervisor \<Rightarrow> await_point \<Rightarrow> ('e, unit) supervisor_answer" where
  "supervisor_await cfg s p =
     (case uc_await cfg (su_env s) p of (env, signals, cancelled) \<Rightarrow>
        (fold (receive_signal cfg) signals (s\<lparr>su_env := env\<rparr>), if cancelled then Inl SupervisorCancelled else Inr ()))"

section \<open>The restart window\<close>

definition restart_window :: "'e supervisor_config \<Rightarrow> int" where
  "restart_window cfg = round_half_even (up_restart_window_seconds (uc_policy cfg) * 1000000)"

definition restarts_in_current_window :: "'e supervisor_config \<Rightarrow> 'e supervisor \<Rightarrow> instant \<Rightarrow> nat \<times> 'e supervisor" where
  "restarts_in_current_window cfg s now =
     (let times = dropWhile (\<lambda>t. t < now - restart_window cfg) (su_restart_times s)
      in (length times, s\<lparr>su_restart_times := times\<rparr>))"

definition restart_allowed :: "'e supervisor_config \<Rightarrow> 'e supervisor \<Rightarrow> instant \<Rightarrow> bool \<times> 'e supervisor" where
  "restart_allowed cfg s now =
     (case restarts_in_current_window cfg s now of (n, s1) \<Rightarrow> (int n < up_max_restarts_in_window (uc_policy cfg), s1))"

section \<open>Evidence\<close>

record evidence_note =
  en_reason_code :: "string option"
  en_backoff_seconds :: "rat option"
  en_transport :: string
  en_market_data :: string
  en_execution_ready :: bool

definition no_note :: evidence_note where
  "no_note = \<lparr>en_reason_code = None, en_backoff_seconds = None, en_transport = ''UNKNOWN'',
     en_market_data = ''UNKNOWN'', en_execution_ready = False\<rparr>"

definition supervisor_evidence_of ::
  "'e supervisor \<Rightarrow> instant \<Rightarrow> nat \<Rightarrow> string \<Rightarrow> market_session option \<Rightarrow> supervisor_action \<Rightarrow> evidence_note \<Rightarrow> supervisor_evidence" where
  "supervisor_evidence_of s now n kind session action note =
     \<lparr>ue_timestamp = now, ue_state = su_state s,
      ue_session_state = (case session of None \<Rightarrow> ''UNKNOWN'' | Some x \<Rightarrow> session_state_str (se_state x)),
      ue_transport = en_transport note, ue_market_data = en_market_data note, ue_action = supervisor_action_str action,
      ue_monitor_initial_starts = su_initial_starts s, ue_monitor_restarts = su_total_restarts s,
      ue_monitor_cancels = su_cancels s, ue_restarts_in_current_window = n, ue_kind = kind,
      ue_reason_code = en_reason_code note, ue_backoff_seconds = en_backoff_seconds note,
      ue_execution_ready = en_execution_ready note\<rparr>"

definition supervisor_emit ::
  "'e supervisor_config \<Rightarrow> 'e supervisor \<Rightarrow> string \<Rightarrow> market_session option \<Rightarrow> supervisor_action \<Rightarrow> evidence_note \<Rightarrow> bool \<Rightarrow>
   ('e, unit) supervisor_answer" where
  "supervisor_emit cfg s kind session action note suppress =
     (if su_terminal_failed s then (s, Inr ())
      else case uc_on_evidence cfg of
        None \<Rightarrow> (s, Inr ())
      | Some sink \<Rightarrow>
          (case supervisor_now cfg s of (now, s1) \<Rightarrow>
           (case restarts_in_current_window cfg s1 now of (n, s2) \<Rightarrow>
           (case sink (su_env s2) (supervisor_evidence_of s2 now n kind session action note) of (env, ans) \<Rightarrow>
             (let s3 = s2\<lparr>su_env := env\<rparr>
              in (case ans of
                    Sink_Ok \<Rightarrow> (s3, Inr ())
                  | Sink_Cancelled \<Rightarrow> (s3, Inl SupervisorCancelled)
                  | Sink_Raised \<Rightarrow>
                      if suppress then (s3, Inr ())
                      else (s3\<lparr>su_terminal_failed := True, su_state := SU_FAILED_CLOSED, su_last_action := Some SA_FAILED_CLOSED\<rparr>,
                            Inr ())))))))"

definition emit_verdict ::
  "'e supervisor_config \<Rightarrow> 'e supervisor \<Rightarrow> market_session \<Rightarrow> health_verdict \<Rightarrow> supervisor_action \<Rightarrow> ('e, unit) supervisor_answer" where
  "emit_verdict cfg s session verdict action =
     supervisor_emit cfg s ''health_verdict'' (Some session) action
       (no_note\<lparr>en_transport := transport_health_str (hv_transport verdict),
                en_market_data := market_data_health_str (hv_market_data verdict),
                en_reason_code := (case hv_reasons verdict of [] \<Rightarrow> None | r # _ \<Rightarrow> Some r),
                en_execution_ready := is_execution_ready verdict\<rparr>) False"

definition enter_terminal_failed :: "'e supervisor_config \<Rightarrow> 'e supervisor \<Rightarrow> string \<Rightarrow> ('e, unit) supervisor_answer" where
  "enter_terminal_failed cfg s reason =
     (if su_terminal_failed s then (s, Inr ())
      else let s1 = s\<lparr>su_terminal_failed := True, su_state := SU_FAILED_CLOSED, su_last_action := Some SA_FAILED_CLOSED\<rparr>
           in case uc_on_evidence cfg of
                None \<Rightarrow> (s1, Inr ())
              | Some sink \<Rightarrow>
                  (case supervisor_now cfg s1 of (now, s2) \<Rightarrow>
                   case restarts_in_current_window cfg s2 now of (n, s3) \<Rightarrow>
                   case sink (su_env s3) (supervisor_evidence_of s3 now n ''internal_failure'' None SA_FAILED_CLOSED
                          (no_note\<lparr>en_reason_code := Some reason\<rparr>)) of (env, ans) \<Rightarrow>
                     (s3\<lparr>su_env := env\<rparr>, if ans = Sink_Cancelled then Inl SupervisorCancelled else Inr ())))"

section \<open>The monitor task\<close>

fun classify_exit :: "monitor_error + monitor_summary \<Rightarrow> monitor_exit_reason" where
  "classify_exit (Inl MonitorCancelled) = EX_CANCELLED"
| "classify_exit (Inl (MonitorExhaustedError _)) = EX_TRANSPORT_EXHAUSTED"
| "classify_exit (Inl _) = EX_INTERNAL_FAILURE"
| "classify_exit (Inr _) = EX_TRANSPORT_EXIT"

definition reap_finished :: "'e supervisor_config \<Rightarrow> 'e supervisor \<Rightarrow> ('e, unit) supervisor_answer" where
  "reap_finished cfg s =
     (case (if su_task s then uc_task cfg (su_env s) else None) of
        None \<Rightarrow> (s, Inr ())
      | Some exit \<Rightarrow>
          let s1 = s\<lparr>su_task := False\<rparr>; reason = classify_exit exit
          in if reason = EX_INTERNAL_FAILURE
             then enter_terminal_failed cfg (s1\<lparr>su_pending_exit_reason := EX_NONE\<rparr>) ''monitor_internal_failure''
             else if reason = EX_CANCELLED then (s1\<lparr>su_pending_exit_reason := EX_NONE\<rparr>, Inr ())
             else supervisor_emit cfg (s1\<lparr>su_pending_exit_reason := reason, su_state := SU_BACKING_OFF\<rparr>)
                    ''monitor_exit'' None SA_RESTART_TRANSPORT
                    (no_note\<lparr>en_reason_code := Some ''transport_session_absent''\<rparr>) False)"

definition graceful_cancel :: "'e supervisor_config \<Rightarrow> 'e supervisor \<Rightarrow> market_session option \<Rightarrow> string \<Rightarrow> ('e, unit) supervisor_answer" where
  "graceful_cancel cfg s session reason =
     (if \<not> su_task s then (s, Inr ())
      else case uc_settle cfg (su_env s) of (env, signals) \<Rightarrow>
        let s1 = fold (receive_signal cfg) signals (s\<lparr>su_task := False, su_env := env\<rparr>);
            s2 = s1\<lparr>su_cancels := Suc (su_cancels s1), su_pending_exit_reason := EX_NONE\<rparr>
        in supervisor_emit cfg s2 ''monitor_cancelled'' session
             (case su_last_action s2 of None \<Rightarrow> SA_STOP_FOR_SESSION | Some a \<Rightarrow> a)
             (no_note\<lparr>en_reason_code := Some reason\<rparr>) True)"

definition ensure_idle :: "'e supervisor_config \<Rightarrow> 'e supervisor \<Rightarrow> market_session \<Rightarrow> string \<Rightarrow> ('e, unit) supervisor_answer" where
  "ensure_idle cfg s session reason = (if su_task s then graceful_cancel cfg s (Some session) reason else (s, Inr ()))"

text \<open>\<open>start_monitor\<close> is \<^verbatim>\<open>_ensure_running\<close> from the call of the factory on.\<close>

definition start_monitor ::
  "'e supervisor_config \<Rightarrow> 'e supervisor \<Rightarrow> instant \<Rightarrow> market_session \<Rightarrow> bool \<Rightarrow> ('e, unit) supervisor_answer" where
  "start_monitor cfg s now session is_restart =
     (case uc_factory cfg (su_env s) of (env, broke) \<Rightarrow>
        let s1 = s\<lparr>su_env := env\<rparr>
        in if broke then enter_terminal_failed cfg s1 ''factory_exception''
           else let s2 = (if is_restart
                          then s1\<lparr>su_total_restarts := Suc (su_total_restarts s1), su_restart_times := su_restart_times s1 @ [now]\<rparr>
                          else s1\<lparr>su_initial_starts := Suc (su_initial_starts s1)\<rparr>);
                    s3 = s2\<lparr>su_pending_exit_reason := EX_NONE, su_task := True, su_state := SU_RUNNING\<rparr>
                in ubind (supervisor_emit cfg s3 ''monitor_start'' (Some session)
                       (case su_last_action s3 of None \<Rightarrow> SA_KEEP_RUNNING | Some a \<Rightarrow> a)
                       (no_note\<lparr>en_reason_code := Some (if is_restart then ''transport_session_absent'' else ''initial_start'')\<rparr>) False)
                     (\<lambda>s4 _. ubind (supervisor_await cfg s4 Await_Yield) (\<lambda>s5 _. reap_finished cfg s5)))"

definition ensure_running ::
  "'e supervisor_config \<Rightarrow> 'e supervisor \<Rightarrow> instant \<Rightarrow> market_session \<Rightarrow> bool \<Rightarrow> ('e, unit) supervisor_answer" where
  "ensure_running cfg s now session is_restart =
     (if su_task s then (s\<lparr>su_state := SU_RUNNING\<rparr>, Inr ())
      else if \<not> is_restart then start_monitor cfg s now session False
      else case restart_allowed cfg s now of (allowed, s1) \<Rightarrow>
        if \<not> allowed then enter_terminal_failed cfg s1 ''restart_budget_exhausted''
        else ubind (if 0 < up_restart_backoff_seconds (uc_policy cfg)
                    then ubind (supervisor_emit cfg s1 ''restart_backoff'' (Some session) SA_RESTART_TRANSPORT
                           (no_note\<lparr>en_backoff_seconds := Some (up_restart_backoff_seconds (uc_policy cfg))\<rparr>) False)
                         (\<lambda>s2 _. supervisor_await cfg s2 (Await_Sleep (up_restart_backoff_seconds (uc_policy cfg))))
                    else (s1, Inr ()))
               (\<lambda>s2 _. start_monitor cfg s2 now session True))"

definition restart_transport ::
  "'e supervisor_config \<Rightarrow> 'e supervisor \<Rightarrow> instant \<Rightarrow> market_session \<Rightarrow> health_verdict \<Rightarrow> supervisor_action \<Rightarrow>
   ('e, unit) supervisor_answer" where
  "restart_transport cfg s now session verdict action =
     (case restart_allowed cfg s now of (allowed, s1) \<Rightarrow>
        if \<not> allowed
        then ubind (enter_terminal_failed cfg s1 ''restart_budget_exhausted'') (\<lambda>s2 _.
               emit_verdict cfg s2 session verdict SA_FAILED_CLOSED)
        else ubind (graceful_cancel cfg s1 (Some session) ''transport_restart'') (\<lambda>s2 _.
             ubind (ensure_running cfg (s2\<lparr>su_state := SU_BACKING_OFF, su_transport_restart_armed := True\<rparr>) now session True) (\<lambda>s3 _.
             if su_terminal_failed s3 then (s3, Inr ()) else emit_verdict cfg s3 session verdict action)))"

section \<open>Deciding and acting\<close>

definition exited :: "'e supervisor \<Rightarrow> bool" where
  "exited s \<longleftrightarrow> su_pending_exit_reason s \<in> {EX_TRANSPORT_EXIT, EX_TRANSPORT_EXHAUSTED}"

definition decide_action :: "'e supervisor \<Rightarrow> market_session \<Rightarrow> health_verdict \<Rightarrow> supervisor_action" where
  "decide_action s session verdict =
     (let starving = hv_market_data verdict \<in> {MD_STARVED, MD_STALE, MD_INVALID}
      in if su_terminal_failed s then SA_FAILED_CLOSED
         else if is_calendar_missing session \<or> se_state session = MS_UNKNOWN then SA_WAIT_FOR_CALENDAR
         else if se_calendar_reason session = Some PROVIDER_ERROR then SA_FAILED_CLOSED
         else if se_state session \<in> {MS_CLOSED, MS_PRE_OPEN, MS_POST_CLOSE} then SA_WAIT_FOR_SESSION
         else if hv_transport verdict \<in> {TH_FLAPPING, TH_UNHEALTHY}
         then (if exited s then SA_RESTART_TRANSPORT
               else if su_transport_restart_armed s then (if starving then SA_HOLD_EXECUTION_ONLY else SA_KEEP_RUNNING)
               else SA_RESTART_TRANSPORT)
         else if starving then SA_HOLD_EXECUTION_ONLY
         else SA_KEEP_RUNNING)"

definition go_idle ::
  "'e supervisor_config \<Rightarrow> 'e supervisor \<Rightarrow> supervisor_state \<Rightarrow> market_session \<Rightarrow> health_verdict \<Rightarrow> supervisor_action \<Rightarrow> string \<Rightarrow>
   ('e, unit) supervisor_answer" where
  "go_idle cfg s st session verdict action reason =
     ubind (ensure_idle cfg (s\<lparr>su_state := st, su_last_action := Some action\<rparr>) session reason) (\<lambda>s1 _.
       emit_verdict cfg s1 session verdict action)"

text \<open>
  The branch for \<^verbatim>\<open>KEEP_RUNNING\<close> and \<^verbatim>\<open>HOLD_EXECUTION_ONLY\<close>. Whatever the action, an absent task is
  started: as a restart when the last one went away by itself, as a first start otherwise.
\<close>

definition keep_running ::
  "'e supervisor_config \<Rightarrow> 'e supervisor \<Rightarrow> instant \<Rightarrow> market_session \<Rightarrow> health_verdict \<Rightarrow> supervisor_action \<Rightarrow>
   ('e, unit) supervisor_answer" where
  "keep_running cfg s now session verdict action =
     (let s1 = s\<lparr>su_last_action := Some action\<rparr>
      in if su_terminal_failed s1 then (s1, Inr ())
         else ubind (if \<not> is_open session then (s1, Inr ())
                     else if exited s1 \<and> \<not> su_task s1 then ensure_running cfg s1 now session True
                     else if \<not> su_task s1 \<and> action = SA_KEEP_RUNNING then ensure_running cfg s1 now session False
                     else if \<not> su_task s1 \<and> action = SA_HOLD_EXECUTION_ONLY
                     then ensure_running cfg s1 now session (exited s1)
                     else (s1\<lparr>su_pending_exit_reason := EX_NONE\<rparr>, Inr ()))
                (\<lambda>s2 _. if su_terminal_failed s2 then (s2, Inr ())
                   else emit_verdict cfg (s2\<lparr>su_state := (if su_task s2 then SU_RUNNING else SU_IDLE_CLOSED)\<rparr>) session verdict action))"

definition apply_action ::
  "'e supervisor_config \<Rightarrow> 'e supervisor \<Rightarrow> instant \<Rightarrow> market_session \<Rightarrow> health_verdict \<Rightarrow> supervisor_action \<Rightarrow>
   ('e, unit) supervisor_answer" where
  "apply_action cfg s now session verdict action =
     (if action = SA_FAILED_CLOSED then go_idle cfg s SU_FAILED_CLOSED session verdict action ''failed_closed''
      else if action = SA_WAIT_FOR_CALENDAR then go_idle cfg s SU_WAITING_CALENDAR session verdict action ''calendar_missing''
      else if action \<in> {SA_WAIT_FOR_SESSION, SA_STOP_FOR_SESSION}
      then go_idle cfg s SU_IDLE_CLOSED session verdict action ''session_inactive''
      else if action = SA_RESTART_TRANSPORT
      then restart_transport cfg (s\<lparr>su_last_action := Some action\<rparr>) now session verdict action
      else keep_running cfg s now session verdict action)"

definition track_session_transition :: "'e supervisor \<Rightarrow> market_session \<Rightarrow> 'e supervisor" where
  "track_session_transition s session =
     (let s1 = (if su_session_was_active s \<and> \<not> is_open session then s\<lparr>su_restart_times := []\<rparr> else s)
      in s1\<lparr>su_session_was_active := is_open session\<rparr>)"

section \<open>The loop\<close>

definition supervisor_summary_of :: "'e supervisor_config \<Rightarrow> 'e supervisor \<Rightarrow> 'e supervisor \<times> supervisor_summary" where
  "supervisor_summary_of cfg s =
     (case supervisor_now cfg s of (now, s1) \<Rightarrow>
      case restarts_in_current_window cfg s1 now of (n, s2) \<Rightarrow>
        (s2, \<lparr>uy_final_state = (if su_terminal_failed s2 then SU_FAILED_CLOSED else su_state s2),
              uy_monitor_initial_starts = su_initial_starts s2, uy_monitor_restarts = su_total_restarts s2,
              uy_monitor_cancels = su_cancels s2, uy_restarts_in_current_window = n, uy_ticks = su_ticks s2,
              uy_final_action = su_last_action s2\<rparr>))"

definition answer_summary :: "'e supervisor_config \<Rightarrow> 'e supervisor \<Rightarrow> ('e, supervisor_summary option) supervisor_answer" where
  "answer_summary cfg s = (case supervisor_summary_of cfg s of (s1, y) \<Rightarrow> (s1, Inr (Some y)))"

definition act_on_session ::
  "'e supervisor_config \<Rightarrow> 'e supervisor \<Rightarrow> instant \<Rightarrow> market_session \<Rightarrow> ('e, unit) supervisor_answer" where
  "act_on_session cfg s now session =
     ubind (reap_finished cfg s) (\<lambda>s1 _.
       case evaluate_health (su_tracker s1) session now of
         (t, Inl e) \<Rightarrow> (s1\<lparr>su_tracker := t\<rparr>, Inl (SupervisorRaised e))
       | (t, Inr verdict) \<Rightarrow>
           let s2 = s1\<lparr>su_tracker := t\<rparr>
           in ubind (apply_action cfg s2 now session verdict (decide_action s2 session verdict)) (\<lambda>s3 _.
                (track_session_transition s3 session, Inr ())))"

definition supervisor_tick :: "'e supervisor_config \<Rightarrow> 'e supervisor \<Rightarrow> ('e, supervisor_summary option) supervisor_answer" where
  "supervisor_tick cfg s =
     (if su_terminal_failed s then answer_summary cfg (s\<lparr>su_state := SU_FAILED_CLOSED\<rparr>)
      else case supervisor_now cfg (s\<lparr>su_ticks := Suc (su_ticks s)\<rparr>) of (now, s1) \<Rightarrow>
        (case uc_session_at cfg (uc_market cfg) now of
          Inl e \<Rightarrow>
            ubind (enter_terminal_failed cfg s1
                     (case e of Some (MarketSessionError msg) \<Rightarrow> take 120 msg | None \<Rightarrow> ''provider_exception''))
              (\<lambda>s2 _. answer_summary cfg s2)
        | Inr session \<Rightarrow>
            ubind (act_on_session cfg s1 now session) (\<lambda>s2 _.
              if su_terminal_failed s2 \<or> su_state s2 = SU_FAILED_CLOSED then answer_summary cfg s2
              else if (\<exists>n \<in> set_option (uc_max_ticks cfg). n \<le> su_ticks s2)
              then ubind (graceful_cancel cfg s2 (Some session) ''max_ticks'') (\<lambda>s3 _.
                     answer_summary cfg (s3\<lparr>su_state := SU_STOPPED\<rparr>))
              else ubind (supervisor_await cfg s2 (Await_Sleep (up_poll_interval_seconds (uc_policy cfg)))) (\<lambda>s3 _. (s3, Inr None)))))"

text \<open>The \<^verbatim>\<open>except\<close> and \<^verbatim>\<open>finally\<close> of \<^verbatim>\<open>run\<close>; an error of the final cancellation replaces the outcome.\<close>

definition catch_cancelled :: "'e supervisor_config \<Rightarrow> ('e, supervisor_summary) supervisor_answer \<Rightarrow> ('e, supervisor_summary) supervisor_answer" where
  "catch_cancelled cfg ended =
     (case ended of
        (s, Inl SupervisorCancelled) \<Rightarrow>
          (case graceful_cancel cfg (snd (supervisor_now cfg s)) None ''supervisor_cancelled'' of
             (s1, Inl e) \<Rightarrow> (s1, Inl e)
           | (s1, Inr _) \<Rightarrow> (s1\<lparr>su_state := SU_STOPPED\<rparr>, Inl SupervisorCancelled))
      | _ \<Rightarrow> ended)"

definition shut_down :: "'e supervisor_config \<Rightarrow> ('e, supervisor_summary) supervisor_answer \<Rightarrow> ('e, supervisor_summary) supervisor_answer" where
  "shut_down cfg ended =
     (case catch_cancelled cfg ended of (s, ans) \<Rightarrow>
        (case graceful_cancel cfg (snd (supervisor_now cfg s)) None ''shutdown'' of
           (s1, Inl e) \<Rightarrow> (s1, Inl e)
         | (s1, Inr _) \<Rightarrow> (s1, ans)))"

definition supervisor_turn :: "'e supervisor_config \<Rightarrow> 'e supervisor \<Rightarrow> ('e, supervisor_summary) supervisor_answer + 'e supervisor" where
  "supervisor_turn cfg s =
     (case supervisor_tick cfg s of
        (s1, Inl e) \<Rightarrow> Inl (s1, Inl e)
      | (s1, Inr (Some y)) \<Rightarrow> Inl (s1, Inr y)
      | (s1, Inr None) \<Rightarrow> Inr s1)"

partial_function (option) supervisor_loop :: "'e supervisor_config \<Rightarrow> 'e supervisor \<Rightarrow> ('e, supervisor_summary) supervisor_answer option" where
  "supervisor_loop cfg s =
     (case supervisor_turn cfg s of Inl ended \<Rightarrow> Some (shut_down cfg ended) | Inr s1 \<Rightarrow> supervisor_loop cfg s1)"

definition run_supervisor :: "'e supervisor_config \<Rightarrow> 'e supervisor \<Rightarrow> ('e, supervisor_summary) supervisor_answer option" where
  "run_supervisor cfg s =
     (if su_state s \<noteq> SU_IDLE then Some (s, Inl (SupervisorError ''supervisor.run() is not re-entrant.''))
      else supervisor_loop cfg s)"


section \<open>What a step keeps\<close>

text \<open>
  A clock that does not run backwards: \<open>time\<close> is a lower bound of what the clock will read, and nothing the
  environment does lowers it.
\<close>

definition steady :: "'e supervisor_config \<Rightarrow> ('e \<Rightarrow> instant) \<Rightarrow> bool" where
  "steady cfg time \<longleftrightarrow>
     (\<forall>env. time env \<le> fst (uc_clock cfg env) \<and> fst (uc_clock cfg env) \<le> time (snd (uc_clock cfg env))) \<and>
     (\<forall>env p. time env \<le> time (fst (uc_await cfg env p))) \<and> (\<forall>env. time env \<le> time (fst (uc_settle cfg env))) \<and>
     (\<forall>env. time env \<le> time (fst (uc_factory cfg env))) \<and>
     (\<forall>sink \<in> set_option (uc_on_evidence cfg). \<forall>env ev. time env \<le> time (fst (sink env ev)))"

definition live :: "'e supervisor \<Rightarrow> nat" where
  "live s = su_cancels s + (if su_task s then 1 else 0)"

text \<open>A calm step starts no monitor and forgets no restart that is still in the window.\<close>

definition calm :: "'e supervisor_config \<Rightarrow> ('e \<Rightarrow> instant) \<Rightarrow> 'e supervisor \<Rightarrow> 'e supervisor \<Rightarrow> bool" where
  "calm cfg time s s' \<longleftrightarrow>
     su_total_restarts s' = su_total_restarts s \<and> su_initial_starts s' = su_initial_starts s \<and>
     su_ticks s' = su_ticks s \<and> (su_terminal_failed s \<longrightarrow> su_terminal_failed s') \<and>
     live s' \<le> live s \<and> (su_task s' \<longrightarrow> su_task s) \<and>
     (steady cfg time \<longrightarrow> time (su_env s) \<le> time (su_env s') \<and>
        (\<forall>T. time (su_env s') \<le> T + restart_window cfg \<longrightarrow>
           filter (\<lambda>t. T \<le> t) (su_restart_times s') = filter (\<lambda>t. T \<le> t) (su_restart_times s)))"

lemma calm_refl: "calm cfg time s s"
  by (simp add: calm_def)

lemma calm_trans: "calm cfg time s s1 \<Longrightarrow> calm cfg time s1 s2 \<Longrightarrow> calm cfg time s s2"
  by (fastforce simp: calm_def)

lemma calm_plain:
  assumes "su_env s' = su_env s" and "su_total_restarts s' = su_total_restarts s" and "su_initial_starts s' = su_initial_starts s"
    and "su_ticks s' = su_ticks s" and "su_terminal_failed s \<longrightarrow> su_terminal_failed s'"
    and "su_cancels s' = su_cancels s" and "su_task s' \<longrightarrow> su_task s" and "su_restart_times s' = su_restart_times s"
  shows "calm cfg time s s'"
  using assms by (auto simp: calm_def live_def)

lemma filter_dropWhile_older: "c \<le> T \<Longrightarrow> filter (\<lambda>t. T \<le> t) (dropWhile (\<lambda>t. t < c) ts) = filter (\<lambda>t. T \<le> t) ts"
  for T :: instant
  by (induction ts) auto

lemma calm_env: "(steady cfg time \<Longrightarrow> time (su_env s) \<le> time env) \<Longrightarrow> calm cfg time s (s\<lparr>su_env := env\<rparr>)"
  by (simp add: calm_def live_def)

lemma calm_now:
  assumes "supervisor_now cfg s = (now, s')"
  shows "calm cfg time s s'" and "steady cfg time \<Longrightarrow> time (su_env s) \<le> now" and "steady cfg time \<Longrightarrow> now \<le> time (su_env s')"
proof -
  obtain env where e: "uc_clock cfg (su_env s) = (now, env)" "s' = s\<lparr>su_env := env\<rparr>"
    using assms by (auto simp: supervisor_now_def split: prod.splits)
  have "time (su_env s) \<le> now \<and> now \<le> time env" if "steady cfg time"
    using that e(1) unfolding steady_def by (metis fst_conv snd_conv)
  then show "calm cfg time s s'" "steady cfg time \<Longrightarrow> time (su_env s) \<le> now" "steady cfg time \<Longrightarrow> now \<le> time (su_env s')"
    unfolding e(2) by (force intro: calm_env)+
qed

lemma calm_window:
  assumes "restarts_in_current_window cfg s now = (n, s')" and "steady cfg time \<Longrightarrow> now \<le> time (su_env s)"
  shows "calm cfg time s s'"
  using assms by (auto simp: restarts_in_current_window_def Let_def calm_def live_def intro!: filter_dropWhile_older)

lemma calm_receive: "calm cfg time s (receive_signal cfg x s)"
proof (cases x)
  case (Transport_Signal kind i)
  define s1 where "s1 = (if kind = ''connected'' then s\<lparr>su_transport_restart_armed := False\<rparr> else s)"
  obtain now s2 where n: "supervisor_now cfg s1 = (now, s2)" by fastforce
  have "calm cfg time s s1" by (rule calm_plain) (auto simp: s1_def)
  then have "calm cfg time s s2" using calm_now(1) [OF n] calm_trans by blast
  moreover have "calm cfg time s2 (receive_signal cfg x s)"
    unfolding Transport_Signal using n by (intro calm_plain) (simp_all add: record_transport_def Let_def s1_def [symmetric])
  ultimately show ?thesis using calm_trans by blast
next
  case (Market_Signal event_type i)
  obtain now s1 where n: "supervisor_now cfg s = (now, s1)" by fastforce
  have "calm cfg time s1 (receive_signal cfg x s)"
    unfolding Market_Signal using n by (intro calm_plain) (simp_all add: record_market_def)
  then show ?thesis using calm_now(1) [OF n] calm_trans by blast
qed

lemma calm_signals: "calm cfg time s (fold (receive_signal cfg) xs s)"
  by (induction xs arbitrary: s) (auto intro: calm_refl calm_trans calm_receive)

lemma calm_await: "calm cfg time s (fst (supervisor_await cfg s p))"
proof -
  obtain env xs c where a: "uc_await cfg (su_env s) p = (env, xs, c)" by (rule prod_cases3)
  have "calm cfg time s (s\<lparr>su_env := env\<rparr>)" by (rule calm_env) (use a in \<open>metis steady_def fst_conv\<close>)
  then show ?thesis using a calm_trans [OF _ calm_signals] by (simp add: supervisor_await_def)
qed

lemma calm_ubind:
  assumes "calm cfg time s (fst a)" and "\<And>s1 x. a = (s1, Inr x) \<Longrightarrow> calm cfg time s1 (fst (f s1 x))"
  shows "calm cfg time s (fst (ubind a f))"
  using assms by (auto simp: ubind_def intro: calm_trans split: prod.splits sum.splits)

lemma calm_sink:
  assumes sink: "uc_on_evidence cfg = Some sink"
    and now: "supervisor_now cfg s = (now, s1)" and n: "restarts_in_current_window cfg s1 now = (n, s2)"
    and ans: "sink (su_env s2) ev = (env, ans)"
  shows "calm cfg time s (s2\<lparr>su_env := env\<rparr>)"
proof -
  have e: "calm cfg time s2 (s2\<lparr>su_env := env\<rparr>)"
  proof (rule calm_env)
    show "time (su_env s2) \<le> time env" if "steady cfg time"
      using that sink ans unfolding steady_def by (metis fst_conv option.set_intros)
  qed
  have "calm cfg time s1 s2" by (rule calm_window [OF n]) (rule calm_now(3) [OF now])
  with calm_now(1) [OF now] e show ?thesis by (blast intro: calm_trans)
qed

lemma calm_emit: "calm cfg time s (fst (supervisor_emit cfg s kind session action note suppress))"
proof (cases "uc_on_evidence cfg")
  case (Some sink)
  obtain now s1 where 1: "supervisor_now cfg s = (now, s1)" by fastforce
  obtain n s2 where 2: "restarts_in_current_window cfg s1 now = (n, s2)" by fastforce
  obtain env ans where 3: "sink (su_env s2) (supervisor_evidence_of s2 now n kind session action note) = (env, ans)" by fastforce
  note c = calm_sink [OF Some 1 2 3]
  have "calm cfg time s (s2\<lparr>su_env := env, su_terminal_failed := True, su_state := SU_FAILED_CLOSED, su_last_action := Some SA_FAILED_CLOSED\<rparr>)"
    by (rule calm_trans [OF c]) (rule calm_plain, simp_all)
  then show ?thesis using c 1 2 3 Some by (cases ans) (simp_all add: supervisor_emit_def Let_def calm_refl)
qed (simp add: supervisor_emit_def calm_refl)

lemma calm_terminal: "calm cfg time s (fst (enter_terminal_failed cfg s reason))"
proof (cases "su_terminal_failed s")
  case False
  let ?s = "s\<lparr>su_terminal_failed := True, su_state := SU_FAILED_CLOSED, su_last_action := Some SA_FAILED_CLOSED\<rparr>"
  have c: "calm cfg time s ?s" by (rule calm_plain) simp_all
  show ?thesis
  proof (cases "uc_on_evidence cfg")
    case (Some sink)
    obtain now s1 where 1: "supervisor_now cfg ?s = (now, s1)" by fastforce
    obtain n s2 where 2: "restarts_in_current_window cfg s1 now = (n, s2)" by fastforce
    obtain env ans where 3: "sink (su_env s2) (supervisor_evidence_of s2 now n ''internal_failure'' None SA_FAILED_CLOSED
        (no_note\<lparr>en_reason_code := Some reason\<rparr>)) = (env, ans)" by fastforce
    then show ?thesis using False Some 1 2 calm_trans [OF c calm_sink [OF Some 1 2 3]] by (simp add: enter_terminal_failed_def Let_def)
  qed (use False c in \<open>simp add: enter_terminal_failed_def\<close>)
qed (simp add: enter_terminal_failed_def calm_refl)

lemma calm_reap: "calm cfg time s (fst (reap_finished cfg s))"
proof (cases "if su_task s then uc_task cfg (su_env s) else None")
  case (Some d)
  have c: "calm cfg time s (s\<lparr>su_task := False, su_pending_exit_reason := r\<rparr>)"
    "calm cfg time s (s\<lparr>su_task := False, su_pending_exit_reason := r, su_state := x\<rparr>)" for r x
    by (rule calm_plain; simp)+
  show ?thesis using Some calm_trans [OF c(1) calm_terminal ] calm_trans [OF c(2) calm_emit ] c(1)
    by (auto simp: reap_finished_def Let_def split: if_splits)
qed (simp add: reap_finished_def calm_refl)

lemma calm_cancel: "calm cfg time s (fst (graceful_cancel cfg s session reason))"
proof (cases "su_task s")
  case True
  obtain env xs where a: "uc_settle cfg (su_env s) = (env, xs)" by fastforce
  let ?s = "s\<lparr>su_task := False, su_env := env\<rparr>"
  define s1 where "s1 = fold (receive_signal cfg) xs ?s"
  have "time (su_env s) \<le> time env" if "steady cfg time" using that a unfolding steady_def by (metis fst_conv)
  moreover have s1: "calm cfg time ?s s1" unfolding s1_def by (rule calm_signals )
  ultimately have "calm cfg time s (s1\<lparr>su_cancels := Suc (su_cancels s1), su_pending_exit_reason := EX_NONE\<rparr>)"
    using True by (auto simp: calm_def live_def)
  then show ?thesis using True a calm_trans [OF _ calm_emit ] by (simp add: graceful_cancel_def Let_def s1_def [symmetric])
qed (simp add: graceful_cancel_def calm_refl)


text \<open>
  Restarts since \<open>T\<close> counted from \<open>base\<close>: each is still in the window's list, and they are within the budget.
  A step of a tick at \<open>now\<close> keeps this as long as no more than the window has passed since \<open>T\<close>.
\<close>

definition within_budget :: "'e supervisor_config \<Rightarrow> instant \<Rightarrow> nat \<Rightarrow> 'e supervisor \<Rightarrow> bool" where
  "within_budget cfg T base s \<longleftrightarrow>
     su_total_restarts s \<le> base + length (filter (\<lambda>t. T \<le> t) (su_restart_times s)) \<and>
     int (su_total_restarts s) \<le> int base + up_max_restarts_in_window (uc_policy cfg)"

definition keeps :: "'e supervisor_config \<Rightarrow> ('e \<Rightarrow> instant) \<Rightarrow> instant \<Rightarrow> 'e supervisor \<Rightarrow> 'e supervisor \<Rightarrow> bool" where
  "keeps cfg time now s s' \<longleftrightarrow> su_ticks s' = su_ticks s \<and> (su_terminal_failed s \<longrightarrow> su_terminal_failed s') \<and>
     live s' + su_initial_starts s + su_total_restarts s \<le> live s + su_initial_starts s' + su_total_restarts s' \<and>
     (steady cfg time \<longrightarrow> time (su_env s) \<le> time (su_env s') \<and>
        (\<forall>T base. T \<le> now \<longrightarrow> time (su_env s') \<le> T + restart_window cfg \<longrightarrow> within_budget cfg T base s \<longrightarrow> within_budget cfg T base s'))"

lemma calm_keeps: "calm cfg time s s' \<Longrightarrow> keeps cfg time now s s'"
  by (auto simp: calm_def keeps_def within_budget_def)

lemma keeps_trans: "keeps cfg time now s s1 \<Longrightarrow> keeps cfg time now s1 s2 \<Longrightarrow> keeps cfg time now s s2"
  unfolding keeps_def by (fastforce intro: order_trans)

lemma keeps_ubind:
  assumes "keeps cfg time now s (fst a)" and "\<And>s1 x. a = (s1, Inr x) \<Longrightarrow> keeps cfg time now s1 (fst (f s1 x))"
  shows "keeps cfg time now s (fst (ubind a f))"
  using assms by (auto simp: ubind_def intro: keeps_trans split: prod.splits sum.splits)

lemmas calm_keeps_simps = calm_emit [THEN calm_keeps] calm_terminal [THEN calm_keeps] calm_reap [THEN calm_keeps]
  calm_cancel [THEN calm_keeps] calm_await [THEN calm_keeps]

text \<open>A monitor is started only without a task, and as a restart only below the budget.\<close>

lemma start_keeps:
  assumes "\<not> su_task s"
    and room: "\<And>T base. steady cfg time \<Longrightarrow> r \<Longrightarrow> T \<le> now \<Longrightarrow> time (su_env s) \<le> T + restart_window cfg \<Longrightarrow> within_budget cfg T base s \<Longrightarrow>
      int (su_total_restarts s) < int base + up_max_restarts_in_window (uc_policy cfg)"
  shows "keeps cfg time now s (fst (start_monitor cfg s now session r))"
proof -
  obtain env broke where f: "uc_factory cfg (su_env s) = (env, broke)" by fastforce
  have le: "time (su_env s) \<le> time env" if "steady cfg time" using that f unfolding steady_def by (metis fst_conv)
  show ?thesis
  proof (cases broke)
    case True
    have "keeps cfg time now s (s\<lparr>su_env := env\<rparr>)" by (intro calm_keeps calm_env le)
    then show ?thesis using f True keeps_trans [OF _ calm_keeps_simps(2)] by (simp add: start_monitor_def Let_def)
  next
    case False
    define s2 where "s2 = (if r then s\<lparr>su_env := env, su_total_restarts := Suc (su_total_restarts s), su_restart_times := su_restart_times s @ [now]\<rparr>
      else s\<lparr>su_env := env, su_initial_starts := Suc (su_initial_starts s)\<rparr>)"
    define s3 where "s3 = s2\<lparr>su_pending_exit_reason := EX_NONE, su_task := True, su_state := SU_RUNNING\<rparr>"
    have "within_budget cfg T base s3" if "steady cfg time" "T \<le> now" "time env \<le> T + restart_window cfg" "within_budget cfg T base s" for T base
      using that room [of T base] le by (auto simp: s3_def s2_def within_budget_def)
    then have "keeps cfg time now s s3"
      using le assms(1) by (auto simp: keeps_def live_def s3_def s2_def)
    then have "keeps cfg time now s (fst (ubind (supervisor_emit cfg s3 k x a d False)
        (\<lambda>s4 _. ubind (supervisor_await cfg s4 Await_Yield) (\<lambda>s5 _. reap_finished cfg s5))))" for k x a d
      by (rule keeps_trans) (intro keeps_ubind calm_keeps_simps )
    moreover have "start_monitor cfg s now session r = ubind (supervisor_emit cfg s3 ''monitor_start'' (Some session)
        (case su_last_action s3 of None \<Rightarrow> SA_KEEP_RUNNING | Some a \<Rightarrow> a)
        (no_note\<lparr>en_reason_code := Some (if r then ''transport_session_absent'' else ''initial_start'')\<rparr>) False)
        (\<lambda>s4 _. ubind (supervisor_await cfg s4 Await_Yield) (\<lambda>s5 _. reap_finished cfg s5))"
      using f False by (cases r) (simp_all add: start_monitor_def Let_def s3_def s2_def)
    ultimately show ?thesis by simp
  qed
qed

lemma allowed_room:
  assumes "restart_allowed cfg s now = (True, s')" and "T \<le> now" and "within_budget cfg T base s'"
  shows "int (su_total_restarts s') < int base + up_max_restarts_in_window (uc_policy cfg)"
proof -
  have "int (length (su_restart_times s')) < up_max_restarts_in_window (uc_policy cfg)"
    using assms(1) by (auto simp: restart_allowed_def restarts_in_current_window_def Let_def)
  moreover have "length (filter (\<lambda>t. T \<le> t) (su_restart_times s')) \<le> length (su_restart_times s')" by simp
  ultimately show ?thesis using assms(3) unfolding within_budget_def by linarith
qed

lemma calm_allowed:
  "restart_allowed cfg s now = (b, s') \<Longrightarrow> (steady cfg time \<Longrightarrow> now \<le> time (su_env s)) \<Longrightarrow> calm cfg time s s'"
  by (auto simp: restart_allowed_def split: prod.splits intro: calm_window)

lemma ensure_running_keeps:
  assumes now: "steady cfg time \<Longrightarrow> now \<le> time (su_env s)"
  shows "keeps cfg time now s (fst (ensure_running cfg s now session r))"
proof -
  consider "su_task s" | "\<not> su_task s" "\<not> r" | "\<not> su_task s" r by blast
  then show ?thesis
  proof cases
    case 1
    then show ?thesis by (simp add: ensure_running_def) (intro calm_keeps calm_plain; simp)
  next
    case 2
    then show ?thesis using start_keeps [of s cfg time False] by (simp add: ensure_running_def)
  next
    case 3
    obtain ok s1 where a: "restart_allowed cfg s now = (ok, s1)" by fastforce
    have c: "calm cfg time s s1" by (rule calm_allowed [OF a, where time = time, OF now])
    show ?thesis
    proof (cases ok)
      case False
      then show ?thesis using 3 a keeps_trans [OF calm_keeps [OF c] calm_keeps_simps(2) ] by (simp add: ensure_running_def)
    next
      case True
      let ?b = "up_restart_backoff_seconds (uc_policy cfg)"
      let ?wait = "if 0 < ?b then ubind (supervisor_emit cfg s1 ''restart_backoff'' (Some session) SA_RESTART_TRANSPORT
          (no_note\<lparr>en_backoff_seconds := Some ?b\<rparr>) False) (\<lambda>s2 _. supervisor_await cfg s2 (Await_Sleep ?b)) else (s1, Inr ())"
      have w: "calm cfg time s1 (fst ?wait)" by (auto intro!: calm_ubind calm_emit calm_await calm_refl)
      have "keeps cfg time now s (fst (ubind ?wait (\<lambda>s2 _. start_monitor cfg s2 now session True)))"
      proof (rule keeps_ubind)
        show "keeps cfg time now s (fst ?wait)" by (rule keeps_trans [OF calm_keeps [OF c] calm_keeps [OF w]])
        fix s2 x assume "?wait = (s2, Inr x)"
        then have w2: "calm cfg time s1 s2" using w by simp
        show "keeps cfg time now s2 (fst (start_monitor cfg s2 now session True))"
        proof (rule start_keeps )
          show "\<not> su_task s2" using 3(1) c w2 by (auto simp: calm_def)
          fix T base assume T: "steady cfg time" "T \<le> now" "time (su_env s2) \<le> T + restart_window cfg" "within_budget cfg T base s2"
          then have "within_budget cfg T base s1" using w2 by (auto simp: calm_def within_budget_def)
          then show "int (su_total_restarts s2) < int base + up_max_restarts_in_window (uc_policy cfg)"
            using allowed_room [of cfg s now s1 T base] a True T(2) w2 by (simp add: calm_def)
        qed
      qed
      then show ?thesis using 3 a True by (simp add: ensure_running_def)
    qed
  qed
qed

lemma restart_keeps:
  assumes now: "steady cfg time \<Longrightarrow> now \<le> time (su_env s)"
  shows "keeps cfg time now s (fst (restart_transport cfg s now session verdict action))"
proof -
  obtain ok s1 where a: "restart_allowed cfg s now = (ok, s1)" by fastforce
  have c: "calm cfg time s s1" by (rule calm_allowed [OF a, where time = time, OF now])
  have "keeps cfg time now s1 (fst (if \<not> ok
      then ubind (enter_terminal_failed cfg s1 ''restart_budget_exhausted'') (\<lambda>s2 _. emit_verdict cfg s2 session verdict SA_FAILED_CLOSED)
      else ubind (graceful_cancel cfg s1 (Some session) ''transport_restart'') (\<lambda>s2 _.
        ubind (ensure_running cfg (s2\<lparr>su_state := SU_BACKING_OFF, su_transport_restart_armed := True\<rparr>) now session True) (\<lambda>s3 _.
        if su_terminal_failed s3 then (s3, Inr ()) else emit_verdict cfg s3 session verdict action))))"
  proof (cases ok)
    case True
    have "keeps cfg time now s2 (fst (ensure_running cfg (s2\<lparr>su_state := SU_BACKING_OFF, su_transport_restart_armed := True\<rparr>) now session True))"
      if "graceful_cancel cfg s1 (Some session) ''transport_restart'' = (s2, Inr x)" for s2 x
    proof (rule keeps_trans [OF calm_keeps [OF calm_plain] ensure_running_keeps])
      show "now \<le> time (su_env (s2\<lparr>su_state := SU_BACKING_OFF, su_transport_restart_armed := True\<rparr>))" if "steady cfg time"
        using now c calm_cancel [of cfg time s1 "Some session" "''transport_restart''"] that
        \<open>graceful_cancel cfg s1 (Some session) _ = _\<close> by (simp add: calm_def)
    qed simp_all
    then show ?thesis using True
      by (auto intro!: keeps_ubind calm_keeps_simps calm_keeps [OF calm_refl] simp: emit_verdict_def)
  qed (auto intro!: keeps_ubind calm_keeps_simps simp: emit_verdict_def)
  then show ?thesis using a keeps_trans [OF calm_keeps [OF c]] by (simp add: restart_transport_def)
qed


lemma go_idle_keeps: "keeps cfg time now s (fst (go_idle cfg s st session verdict action reason))"
proof -
  let ?s = "s\<lparr>su_state := st, su_last_action := Some action\<rparr>"
  have "calm cfg time s ?s" by (rule calm_plain) simp_all
  moreover have "calm cfg time ?s (fst (ensure_idle cfg ?s session reason))"
    by (simp add: ensure_idle_def calm_cancel calm_refl)
  ultimately show ?thesis unfolding go_idle_def
    by (intro keeps_ubind) (auto intro: calm_keeps calm_trans simp: emit_verdict_def calm_emit)
qed

lemma keep_running_keeps:
  assumes now: "steady cfg time \<Longrightarrow> now \<le> time (su_env s)"
  shows "keeps cfg time now s (fst (keep_running cfg s now session verdict action))"
proof -
  let ?s = "s\<lparr>su_last_action := Some action\<rparr>"
  have c: "keeps cfg time now s ?s" by (intro calm_keeps calm_plain) simp_all
  have r: "keeps cfg time now ?s (fst (ensure_running cfg ?s now session b))" for b
    by (rule ensure_running_keeps) (simp add: now)
  have p: "keeps cfg time now ?s (?s\<lparr>su_pending_exit_reason := EX_NONE\<rparr>)" by (intro calm_keeps calm_plain) simp_all
  have e: "keeps cfg time now s2 (fst (emit_verdict cfg (s2\<lparr>su_state := st\<rparr>) session verdict action))" for s2 st
    unfolding emit_verdict_def by (intro calm_keeps calm_trans [OF calm_plain calm_emit]) simp_all
  have id: "keeps cfg time now s2 s2" for s2 by (rule calm_keeps [OF calm_refl])
  define started where "started = (if \<not> is_open session then (?s, Inr ())
    else if exited ?s \<and> \<not> su_task ?s then ensure_running cfg ?s now session True
    else if \<not> su_task ?s \<and> action = SA_KEEP_RUNNING then ensure_running cfg ?s now session False
    else if \<not> su_task ?s \<and> action = SA_HOLD_EXECUTION_ONLY then ensure_running cfg ?s now session (exited ?s)
    else (?s\<lparr>su_pending_exit_reason := EX_NONE\<rparr>, Inr ()))"
  have "keeps cfg time now s (fst started)"
    by (rule keeps_trans [OF c]) (use r p id in \<open>auto simp: started_def\<close>)
  then show ?thesis unfolding keep_running_def Let_def started_def [symmetric]
    by (auto intro!: keeps_ubind simp: c e id)
qed

lemma apply_action_keeps:
  assumes now: "steady cfg time \<Longrightarrow> now \<le> time (su_env s)"
  shows "keeps cfg time now s (fst (apply_action cfg s now session verdict action))"
proof -
  have "keeps cfg time now s (s\<lparr>su_last_action := Some action\<rparr>)" by (intro calm_keeps calm_plain) simp_all
  moreover have "keeps cfg time now (s\<lparr>su_last_action := Some action\<rparr>)
      (fst (restart_transport cfg (s\<lparr>su_last_action := Some action\<rparr>) now session verdict action))"
    by (rule restart_keeps) (simp add: now)
  ultimately show ?thesis unfolding apply_action_def
    by (auto intro: go_idle_keeps keep_running_keeps [where time = time, OF now] keeps_trans)
qed

text \<open>What holds of a whole tick, whatever the session: the counts; in an open session also the budget.\<close>

definition tallies :: "'e supervisor \<Rightarrow> 'e supervisor \<Rightarrow> bool" where
  "tallies s s' \<longleftrightarrow> (su_terminal_failed s \<longrightarrow> su_terminal_failed s') \<and> su_ticks s' = su_ticks s \<and>
     live s' + su_initial_starts s + su_total_restarts s \<le> live s + su_initial_starts s' + su_total_restarts s'"

lemma keeps_tallies: "keeps cfg time now s s' \<Longrightarrow> tallies s s'"
  by (simp add: keeps_def tallies_def)

lemma tallies_trans: "tallies s s1 \<Longrightarrow> tallies s1 s2 \<Longrightarrow> tallies s s2"
  by (auto simp: tallies_def)

lemma act_keeps:
  assumes now: "steady cfg time \<Longrightarrow> now \<le> time (su_env s)"
  shows "tallies s (fst (act_on_session cfg s now session))"
    and "is_open session \<Longrightarrow> keeps cfg time now s (fst (act_on_session cfg s now session))"
proof -
  define s1 where "s1 = fst (reap_finished cfg s)"
  obtain t v where v: "evaluate_health (su_tracker s1) session now = (t, v)" by fastforce
  let ?s = "s1\<lparr>su_tracker := t\<rparr>"
  have r: "calm cfg time s ?s"
    by (rule calm_trans [OF calm_reap calm_plain]) (simp_all add: s1_def)
  then have n: "now \<le> time (su_env ?s)" if "steady cfg time" using now that by (auto simp: calm_def)
  note a = apply_action_keeps [of cfg time now ?s session _ "decide_action ?s session _", OF n]
  have tr: "tallies u (track_session_transition u session)"
    "is_open session \<Longrightarrow> keeps cfg time now u (track_session_transition u session)" for u
    by (auto simp: track_session_transition_def tallies_def live_def keeps_def within_budget_def)
  let ?act = "\<lambda>w. fst (apply_action cfg ?s now session w (decide_action ?s session w))"
  obtain w where shape: "fst (act_on_session cfg s now session) \<in> {s1, ?s, ?act w, track_session_transition (?act w) session}"
  proof (cases "snd (reap_finished cfg s)")
    case (Inl e)
    then show thesis using that by (cases "reap_finished cfg s") (simp add: act_on_session_def ubind_def s1_def)
  next
    case (Inr x)
    then have r: "reap_finished cfg s = (s1, Inr x)" by (simp add: s1_def prod_eq_iff)
    show thesis
    proof (cases v)
      case (Inl e)
      then show thesis using that r v by (simp add: act_on_session_def ubind_def)
    next
      case (Inr w)
      then show thesis using that [of w] r v
        by (cases "apply_action cfg ?s now session w (decide_action ?s session w)")
          (simp add: act_on_session_def ubind_def Let_def split: sum.splits)
    qed
  qed
  have s1: "calm cfg time s s1" unfolding s1_def by (rule calm_reap)
  have w: "keeps cfg time now s (?act w)" by (rule keeps_trans [OF calm_keeps [OF r] a])
  show "tallies s (fst (act_on_session cfg s now session))"
    using shape keeps_tallies [OF calm_keeps [OF s1]] keeps_tallies [OF calm_keeps [OF r]] keeps_tallies [OF w]
      tallies_trans [OF keeps_tallies [OF w] tr(1)] by auto
  show "keeps cfg time now s (fst (act_on_session cfg s now session))" if "is_open session"
    using shape calm_keeps [OF s1] calm_keeps [OF r] w keeps_trans [OF w tr(2) [OF that]] by auto
qed


section \<open>Ticks\<close>

lemma receive_signal_frame:
  "su_terminal_failed (receive_signal cfg x s) = su_terminal_failed s" "su_task (receive_signal cfg x s) = su_task s"
  by (cases x; simp add: record_transport_def record_market_def supervisor_now_def Let_def split: prod.split)+

lemma signals_frame:
  "su_terminal_failed (fold (receive_signal cfg) xs s) = su_terminal_failed s" "su_task (fold (receive_signal cfg) xs s) = su_task s"
  by (induction xs arbitrary: s) (simp_all add: receive_signal_frame)

lemma await_frame:
  "su_terminal_failed (fst (supervisor_await cfg s p)) = su_terminal_failed s" "su_task (fst (supervisor_await cfg s p)) = su_task s"
  by (simp_all add: supervisor_await_def signals_frame split: prod.split)

lemma cancel_no_task: "\<not> su_task (fst (graceful_cancel cfg s session reason))"
proof (cases "su_task s")
  case True
  obtain env xs where a: "uc_settle cfg (su_env s) = (env, xs)" by fastforce
  have "\<not> su_task (fst (supervisor_emit cfg u k x act d b))" if "\<not> su_task u" for u k x act d b
    using calm_emit [of cfg "\<lambda>_. 0" u k x act d b] that by (simp add: calm_def)
  then show ?thesis using True a by (simp add: graceful_cancel_def Let_def signals_frame)
qed (simp add: graceful_cancel_def)

lemma go_idle_no_task: "go_idle cfg s st session verdict action reason = (s', Inr ()) \<Longrightarrow> \<not> su_task s'"
proof -
  assume g: "go_idle cfg s st session verdict action reason = (s', Inr ())"
  let ?s = "s\<lparr>su_state := st, su_last_action := Some action\<rparr>"
  obtain s1 where "ensure_idle cfg ?s session reason = (s1, Inr ())" "emit_verdict cfg s1 session verdict action = (s', Inr ())"
    using g by (auto simp: go_idle_def ubind_def split: prod.splits sum.splits)
  moreover from this(1) have "\<not> su_task s1"
    using cancel_no_task [of cfg ?s "Some session" reason] by (auto simp: ensure_idle_def split: if_splits)
  ultimately show "\<not> su_task s'"
    using calm_emit [of cfg "\<lambda>_. 0" s1] unfolding emit_verdict_def calm_def by (metis fst_conv)
qed

text \<open>Outside an open session every action goes idle.\<close>

lemma act_needs_session:
  assumes "act_on_session cfg s now session = (s', Inr ())" and "\<not> is_open session"
  shows "\<not> su_task s'"
proof -
  obtain s1 where r: "reap_finished cfg s = (s1, Inr ())"
    using assms(1) by (auto simp: act_on_session_def ubind_def split: prod.splits sum.splits)
  obtain t v where h: "evaluate_health (su_tracker s1) session now = (t, Inr v)"
    using assms(1) r by (auto simp: act_on_session_def ubind_def split: prod.splits sum.splits)
  let ?s = "s1\<lparr>su_tracker := t\<rparr>"
  obtain s3 where a: "apply_action cfg ?s now session v (decide_action ?s session v) = (s3, Inr ())"
    and s': "s' = track_session_transition s3 session"
    using assms(1) r h by (auto simp: act_on_session_def ubind_def Let_def split: prod.splits sum.splits)
  have "decide_action ?s session v \<in> {SA_FAILED_CLOSED, SA_WAIT_FOR_CALENDAR, SA_WAIT_FOR_SESSION}"
    using assms(2) by (cases "se_state session") (auto simp: decide_action_def is_open_def Let_def)
  then have "\<not> su_task s3" using a by (auto simp: apply_action_def dest: go_idle_no_task)
  then show ?thesis by (simp add: s' track_session_transition_def Let_def)
qed

text \<open>The time and the session of the tick that starts in a state.\<close>

definition tick_time :: "'e supervisor_config \<Rightarrow> 'e supervisor \<Rightarrow> instant" where
  "tick_time cfg s = fst (uc_clock cfg (su_env s))"

definition tick_open_session :: "'e supervisor_config \<Rightarrow> 'e supervisor \<Rightarrow> bool" where
  "tick_open_session cfg s \<longleftrightarrow> (\<exists>session. uc_session_at cfg (uc_market cfg) (tick_time cfg s) = Inr session \<and> is_open session)"

definition begun :: "'e supervisor_config \<Rightarrow> 'e supervisor \<Rightarrow> 'e supervisor" where
  "begun cfg s = s\<lparr>su_ticks := Suc (su_ticks s), su_env := snd (uc_clock cfg (su_env s))\<rparr>"

lemma begun_now: "supervisor_now cfg (s\<lparr>su_ticks := Suc (su_ticks s)\<rparr>) = (tick_time cfg s, begun cfg s)"
  by (simp add: supervisor_now_def tick_time_def begun_def case_prod_unfold)

lemma begun_time: "steady cfg time \<Longrightarrow> time (su_env s) \<le> tick_time cfg s \<and> tick_time cfg s \<le> time (su_env (begun cfg s))"
  by (simp add: steady_def tick_time_def begun_def)

lemma calm_summary: "calm cfg time s (fst (answer_summary cfg s))"
proof -
  obtain now s1 where 1: "supervisor_now cfg s = (now, s1)" by fastforce
  obtain n s2 where 2: "restarts_in_current_window cfg s1 now = (n, s2)" by fastforce
  have "calm cfg time s1 s2" by (rule calm_window [OF 2]) (rule calm_now(3) [OF 1])
  from calm_trans [OF calm_now(1) [OF 1] this] show ?thesis using 1 2 by (simp add: answer_summary_def supervisor_summary_of_def)
qed

lemma answer_summary_Inr:
  "answer_summary cfg s = (s', ans) \<Longrightarrow> \<exists>y. ans = Inr (Some y) \<and> uy_ticks y = su_ticks s \<and>
     uy_final_state y = (if su_terminal_failed s then SU_FAILED_CLOSED else su_state s)"
  by (auto simp: answer_summary_def supervisor_summary_of_def supervisor_now_def restarts_in_current_window_def Let_def
      split: prod.splits)

lemma answer_summary_returns: "answer_summary cfg s \<noteq> (s', Inr None)" "answer_summary cfg s \<noteq> (s', Inl e)"
  using answer_summary_Inr by blast+

lemma terminal_fails: "su_terminal_failed (fst (enter_terminal_failed cfg s reason))"
  by (auto simp: enter_terminal_failed_def supervisor_now_def restarts_in_current_window_def Let_def
      split: option.split prod.split)

lemma tick_keeps:
  assumes "\<not> su_terminal_failed s"
  shows "tallies (begun cfg s) (fst (supervisor_tick cfg s))"
    and "tick_open_session cfg s \<Longrightarrow> keeps cfg time (tick_time cfg s) (begun cfg s) (fst (supervisor_tick cfg s))"
proof -
  let ?now = "tick_time cfg s" and ?s = "begun cfg s"
  have sm: "calm cfg time u (fst (answer_summary cfg (u\<lparr>su_state := st\<rparr>)))" "calm cfg time u (fst (answer_summary cfg u))" for u st
    by (rule calm_trans [OF calm_plain calm_summary]; simp) (rule calm_summary)
  let ?fin = "\<lambda>session s2. if su_terminal_failed s2 \<or> su_state s2 = SU_FAILED_CLOSED then answer_summary cfg s2
      else if (\<exists>n \<in> set_option (uc_max_ticks cfg). n \<le> su_ticks s2)
      then ubind (graceful_cancel cfg s2 (Some session) ''max_ticks'') (\<lambda>s3 _. answer_summary cfg (s3\<lparr>su_state := SU_STOPPED\<rparr>))
      else ubind (supervisor_await cfg s2 (Await_Sleep (up_poll_interval_seconds (uc_policy cfg)))) (\<lambda>s3 _. (s3, Inr None))"
  have e: "calm cfg time s2 (fst (?fin session s2))" for session s2
    by (auto intro!: calm_ubind calm_cancel calm_await calm_refl sm)
  have eq: "supervisor_tick cfg s = (case uc_session_at cfg (uc_market cfg) ?now of
      Inl err \<Rightarrow> ubind (enter_terminal_failed cfg ?s
          (case err of Some (MarketSessionError msg) \<Rightarrow> take 120 msg | None \<Rightarrow> ''provider_exception'')) (\<lambda>s2 _. answer_summary cfg s2)
    | Inr session \<Rightarrow> ubind (act_on_session cfg ?s ?now session) (\<lambda>s2 _. ?fin session s2))"
    using assms by (simp add: supervisor_tick_def begun_now)
  have n: "?now \<le> time (su_env ?s)" if "steady cfg time" using begun_time [OF that] by simp
  have t: "tallies ?s (fst (ubind a f))" if "tallies ?s (fst a)" "\<And>s2 x. a = (s2, Inr x) \<Longrightarrow> calm cfg time s2 (fst (f s2 x))"
    for a :: "('a, unit) supervisor_answer" and f :: "'a supervisor \<Rightarrow> unit \<Rightarrow> ('a, supervisor_summary option) supervisor_answer"
    using that by (auto simp: ubind_def split: prod.splits sum.splits)
      (meson tallies_trans keeps_tallies calm_keeps)
  have err: "calm cfg time ?s (fst (ubind (enter_terminal_failed cfg ?s reason) (\<lambda>s2 _. answer_summary cfg s2)))" for reason
    by (intro calm_ubind calm_terminal sm)
  show "tallies ?s (fst (supervisor_tick cfg s))"
    unfolding eq using keeps_tallies [OF calm_keeps [OF err]] t [OF act_keeps(1) [where time = time, OF n] e] by (auto split: sum.split)
  show "keeps cfg time ?now ?s (fst (supervisor_tick cfg s))" if "tick_open_session cfg s"
    using that keeps_ubind [OF act_keeps(2) [where time = time, OF n] calm_keeps [OF e]] unfolding eq tick_open_session_def by auto
qed


lemma tick_continues:
  assumes "supervisor_tick cfg s = (s', Inr None)"
  shows "\<not> su_terminal_failed s" and "\<not> su_terminal_failed s'" and "su_task s' \<Longrightarrow> tick_open_session cfg s"
    and "su_ticks s' = Suc (su_ticks s)" and "\<forall>n \<in> set_option (uc_max_ticks cfg). su_ticks s' < n"
proof -
  show run: "\<not> su_terminal_failed s"
    using assms answer_summary_Inr [of cfg "s\<lparr>su_state := SU_FAILED_CLOSED\<rparr>" s' "Inr None"] by (auto simp: supervisor_tick_def)
  show ticks: "su_ticks s' = Suc (su_ticks s)"
    using tick_keeps(1) [OF run, of cfg] assms by (simp add: tallies_def begun_def)
  have "\<exists>session s2. uc_session_at cfg (uc_market cfg) (tick_time cfg s) = Inr session \<and>
      act_on_session cfg (begun cfg s) (tick_time cfg s) session = (s2, Inr ()) \<and> \<not> su_terminal_failed s2 \<and>
      (\<forall>n \<in> set_option (uc_max_ticks cfg). su_ticks s2 < n) \<and>
      supervisor_await cfg s2 (Await_Sleep (up_poll_interval_seconds (uc_policy cfg))) = (s', Inr ())"
    using assms run
    by (auto simp: supervisor_tick_def begun_now ubind_def not_le answer_summary_returns split: prod.splits sum.splits if_splits)
  then obtain session s2 where s2: "uc_session_at cfg (uc_market cfg) (tick_time cfg s) = Inr session"
    "act_on_session cfg (begun cfg s) (tick_time cfg s) session = (s2, Inr ())" "\<not> su_terminal_failed s2"
    "\<forall>n \<in> set_option (uc_max_ticks cfg). su_ticks s2 < n"
    "supervisor_await cfg s2 (Await_Sleep (up_poll_interval_seconds (uc_policy cfg))) = (s', Inr ())" by blast
  note fr = await_frame [of cfg s2 "Await_Sleep (up_poll_interval_seconds (uc_policy cfg))", unfolded s2(5) fst_conv]
  show "\<not> su_terminal_failed s'" using fr(1) s2(3) by simp
  show "su_task s' \<Longrightarrow> tick_open_session cfg s"
    using fr(2) act_needs_session [OF s2(2)] s2(1) by (auto simp: tick_open_session_def)
  have "su_ticks s' = su_ticks s2"
    using calm_await [of cfg "\<lambda>_. 0" s2 "Await_Sleep (up_poll_interval_seconds (uc_policy cfg))"] s2(5) by (simp add: calm_def)
  then show "\<forall>n \<in> set_option (uc_max_ticks cfg). su_ticks s' < n" using s2(4) by simp
qed

lemma tick_ends:
  assumes "supervisor_tick cfg s = (s', Inr (Some y))" and "\<not> su_terminal_failed s"
  shows "uy_final_state y = SU_FAILED_CLOSED \<or>
    uy_final_state y = SU_STOPPED \<and> uy_ticks y = Suc (su_ticks s) \<and> (\<exists>n. uc_max_ticks cfg = Some n \<and> n \<le> uy_ticks y)"
proof (cases "uc_session_at cfg (uc_market cfg) (tick_time cfg s)")
  case (Inl e)
  then obtain u where "su_terminal_failed u" "answer_summary cfg u = (s', Inr (Some y))"
    using assms terminal_fails [of cfg "begun cfg s"]
    by (auto simp: supervisor_tick_def begun_now ubind_def split: prod.splits sum.splits) (metis fst_conv)
  then show ?thesis using answer_summary_Inr by fastforce
next
  case (Inr session)
  then obtain s2 where s2: "act_on_session cfg (begun cfg s) (tick_time cfg s) session = (s2, Inr ())"
    using assms by (auto simp: supervisor_tick_def begun_now ubind_def split: prod.splits sum.splits)
  have ticks: "su_ticks s2 = Suc (su_ticks s)"
    using act_keeps(1) [of cfg "\<lambda>_. 0" "tick_time cfg s" "begun cfg s" session] s2
    by (simp add: tallies_def steady_def begun_def tick_time_def)
  show ?thesis
  proof (cases "su_terminal_failed s2 \<or> su_state s2 = SU_FAILED_CLOSED")
    case True
    then have "answer_summary cfg s2 = (s', Inr (Some y))"
      using assms Inr s2 by (auto simp: supervisor_tick_def begun_now ubind_def)
    from answer_summary_Inr [OF this] True show ?thesis by auto
  next
    case False
    then obtain n s3 where n: "uc_max_ticks cfg = Some n" "n \<le> su_ticks s2"
      and c: "graceful_cancel cfg s2 (Some session) ''max_ticks'' = (s3, Inr ())"
      and a: "answer_summary cfg (s3\<lparr>su_state := SU_STOPPED\<rparr>) = (s', Inr (Some y))"
      using assms Inr s2 by (auto simp: supervisor_tick_def begun_now ubind_def split: if_splits prod.splits sum.splits)
    have "su_ticks s3 = su_ticks s2"
      using calm_cancel [of cfg "\<lambda>_. 0" s2 "Some session" "''max_ticks''"] c by (simp add: calm_def)
    then show ?thesis using answer_summary_Inr [OF a] n ticks by (auto split: if_splits)
  qed
qed

section \<open>Runs\<close>

primrec supervisor_turns :: "'e supervisor_config \<Rightarrow> nat \<Rightarrow> 'e supervisor \<Rightarrow> 'e supervisor option" where
  "supervisor_turns cfg 0 s = Some s"
| "supervisor_turns cfg (Suc k) s =
     (case supervisor_turns cfg k s of None \<Rightarrow> None
      | Some u \<Rightarrow> (case supervisor_turn cfg u of Inl _ \<Rightarrow> None | Inr u' \<Rightarrow> Some u'))"

lemma turn_Inr: "supervisor_turn cfg s = Inr s' \<longleftrightarrow> supervisor_tick cfg s = (s', Inr None)"
  by (auto simp: supervisor_turn_def split: prod.splits sum.splits option.splits)

definition supervisor_ok :: "'e supervisor_config \<Rightarrow> 'e supervisor \<Rightarrow> bool" where
  "supervisor_ok cfg s \<longleftrightarrow> \<not> su_terminal_failed s \<and> live s \<le> su_initial_starts s + su_total_restarts s \<and>
     (\<forall>n \<in> set_option (uc_max_ticks cfg). su_ticks s < n)"

lemma turn_ok: "supervisor_turn cfg s = Inr s' \<Longrightarrow> supervisor_ok cfg s \<Longrightarrow> supervisor_ok cfg s'"
  using tick_continues [of cfg s s'] tick_keeps(1) [of s cfg]
  by (auto simp: turn_Inr supervisor_ok_def tallies_def begun_def live_def split: if_splits)

definition ended_clean :: "'e supervisor_config \<Rightarrow> ('e, supervisor_summary) supervisor_answer \<Rightarrow> bool" where
  "ended_clean cfg r \<longleftrightarrow> \<not> su_task (fst r) \<and> su_cancels (fst r) \<le> su_initial_starts (fst r) + su_total_restarts (fst r) \<and>
     (\<forall>y. snd r = Inr y \<longrightarrow> uy_final_state y = SU_STOPPED \<and> uc_max_ticks cfg = Some (uy_ticks y) \<or> uy_final_state y = SU_FAILED_CLOSED)"

lemma turn_ends_clean:
  assumes "supervisor_turn cfg s = Inl r" and ok: "supervisor_ok cfg s"
  shows "ended_clean cfg (shut_down cfg r)"
proof -
  obtain s1 ans where r: "r = (s1, ans)" by fastforce
  then obtain a where t: "supervisor_tick cfg s = (s1, a)" and a: "\<And>y. ans = Inr y \<Longrightarrow> a = Inr (Some y)"
    using assms(1) by (auto simp: supervisor_turn_def split: prod.splits sum.splits option.splits)
  have live: "live s1 \<le> su_initial_starts s1 + su_total_restarts s1"
    using tick_keeps(1) [of s cfg] ok t by (auto simp: supervisor_ok_def tallies_def begun_def live_def split: if_splits)
  have answer: "uy_final_state y = SU_STOPPED \<and> uc_max_ticks cfg = Some (uy_ticks y) \<or> uy_final_state y = SU_FAILED_CLOSED"
    if "ans = Inr y" for y
    using tick_ends [of cfg s s1 y] t a [OF that] ok by (force simp: supervisor_ok_def)
  define tallied where "tallied = (\<lambda>u :: 'a supervisor. live u \<le> su_initial_starts u + su_total_restarts u)"
  have cancel: "tallied (fst (graceful_cancel cfg (snd (supervisor_now cfg u)) x m))" if "tallied u" for u x m
    using calm_trans [OF calm_now(1) calm_cancel, of cfg u _ _ "\<lambda>_. 0" x m] that
    by (cases "supervisor_now cfg u") (auto simp: calm_def tallied_def)
  obtain s2 ans2 where caught: "catch_cancelled cfg r = (s2, ans2)" by fastforce
  have c: "tallied s2 \<and> (\<forall>y. ans2 = Inr y \<longrightarrow> ans = Inr y)"
    using live cancel [of s1 None "''supervisor_cancelled''"] caught
    by (auto simp: catch_cancelled_def r tallied_def live_def split: sum.splits supervisor_error.splits prod.splits)
  obtain s3 b where g: "graceful_cancel cfg (snd (supervisor_now cfg s2)) None ''shutdown'' = (s3, b)" by fastforce
  have "\<not> su_task s3" using cancel_no_task [of cfg "snd (supervisor_now cfg s2)" None "''shutdown''"] g by simp
  moreover have "tallied s3" using cancel [of s2 None "''shutdown''"] c g by simp
  ultimately show ?thesis using c answer caught g by (auto simp: shut_down_def ended_clean_def tallied_def live_def split: sum.split)
qed

lemma loop_ends_clean:
  assumes "supervisor_loop cfg s = Some r" and "supervisor_ok cfg s"
  shows "ended_clean cfg r"
proof -
  have "supervisor_ok cfg s \<longrightarrow> ended_clean cfg r"
  proof (rule supervisor_loop.raw_induct [where P = "\<lambda>cfg s r. supervisor_ok cfg s \<longrightarrow> ended_clean cfg r", OF _ assms(1)])
    fix f and cfg :: "'a supervisor_config" and s r
    assume "\<And>cfg s r. f cfg s = Some r \<Longrightarrow> supervisor_ok cfg s \<longrightarrow> ended_clean cfg r"
      and "(case supervisor_turn cfg s of Inl ended \<Rightarrow> Some (shut_down cfg ended) | Inr s1 \<Rightarrow> f cfg s1) = Some r"
    then show "supervisor_ok cfg s \<longrightarrow> ended_clean cfg r"
      using turn_ends_clean [of cfg s] turn_ok [of cfg s] by (auto split: sum.splits)
  qed
  then show ?thesis using assms(2) by blast
qed

lemma loop_returns:
  assumes "uc_max_ticks cfg = Some n" and "supervisor_ok cfg s"
  shows "\<exists>r. supervisor_loop cfg s = Some r"
  using assms(2)
proof (induction "n - su_ticks s" arbitrary: s rule: less_induct)
  case less
  show ?case
  proof (cases "supervisor_turn cfg s")
    case (Inr s')
    then have "su_ticks s' = Suc (su_ticks s)" "su_ticks s' < n" using tick_continues [of cfg s s'] assms(1) by (auto simp: turn_Inr)
    then show ?thesis using less.hyps [of s'] turn_ok [OF Inr less.prems] Inr by (subst supervisor_loop.simps) simp
  qed (subst supervisor_loop.simps, simp)
qed

lemma turns_ok: "supervisor_turns cfg k s = Some u \<Longrightarrow> supervisor_ok cfg s \<Longrightarrow> supervisor_ok cfg u"
  by (induction k arbitrary: u) (auto split: option.splits sum.splits intro: turn_ok)

lemma turns_keep:
  assumes st: "steady cfg time" and "supervisor_turns cfg k s = Some u"
    and "\<And>i v. i < k \<Longrightarrow> supervisor_turns cfg i s = Some v \<Longrightarrow> tick_open_session cfg v"
    and b: "within_budget cfg (tick_time cfg s) base s" and T: "time (su_env u) \<le> tick_time cfg s + restart_window cfg"
  shows "within_budget cfg (tick_time cfg s) base u \<and> (k = 0 \<and> u = s \<or> tick_time cfg s \<le> time (su_env u))"
  using assms(2,3) T
proof (induction k arbitrary: u)
  case 0
  then show ?case using b by simp
next
  case (Suc k)
  obtain v where v: "supervisor_turns cfg k s = Some v" "supervisor_tick cfg v = (u, Inr None)"
    using Suc.prems(1) by (auto simp: turn_Inr split: option.splits sum.splits)
  have op: "tick_open_session cfg v" and live: "\<not> su_terminal_failed v"
    using Suc.prems(2) v tick_continues(1) by blast+
  have k: "keeps cfg time (tick_time cfg v) (begun cfg v) u" using tick_keeps(2) [OF live op] v(2) by simp
  have le: "time (su_env v) \<le> tick_time cfg v" "tick_time cfg v \<le> time (su_env u)"
    using begun_time [OF st, of v] k st by (auto simp: keeps_def)
  have IH: "within_budget cfg (tick_time cfg s) base v" "k = 0 \<and> v = s \<or> tick_time cfg s \<le> time (su_env v)"
    using Suc.IH [OF v(1)] Suc.prems(2,3) le by (auto intro: less_SucI)
  have "within_budget cfg (tick_time cfg s) base (begun cfg v)" using IH(1) by (simp add: begun_def within_budget_def)
  moreover have "tick_time cfg s \<le> tick_time cfg v" using IH(2) le(1) by auto
  ultimately show ?case using k st Suc.prems(3) le(2) by (auto simp: keeps_def)
qed


lemma last_tick_keeps:
  assumes st: "steady cfg time" and op: "tick_open_session cfg u" and tick: "supervisor_tick cfg u = (s', ans)"
    and b: "within_budget cfg T base u" and T: "T \<le> tick_time cfg u" "time (su_env s') \<le> T + restart_window cfg"
  shows "within_budget cfg T base s'"
proof (cases "su_terminal_failed u")
  case True
  then have "calm cfg time (u\<lparr>su_state := SU_FAILED_CLOSED\<rparr>) s'"
    using tick calm_summary [of cfg time "u\<lparr>su_state := SU_FAILED_CLOSED\<rparr>"] by (simp add: supervisor_tick_def)
  then show ?thesis using b st T(2) by (auto simp: calm_def within_budget_def)
next
  case False
  have "keeps cfg time (tick_time cfg u) (begun cfg u) s'" using tick_keeps(2) [OF False op] tick by simp
  moreover have "within_budget cfg T base (begun cfg u)" using b by (simp add: begun_def within_budget_def)
  ultimately show ?thesis using st T by (auto simp: keeps_def)
qed

section \<open>Properties of the supervisor\<close>

text \<open>
  C36. The restart budget. With a clock that does not run backwards, over any stretch of ticks in an open
  session that lasts no longer than the restart window, whatever the monitors, the feed and the sink do,
  the supervisor restarts the monitor at most \<^verbatim>\<open>max_restarts_in_window\<close> times.
\<close>

theorem restart_budget:
  assumes "mk_SupervisorPolicy (uc_policy cfg) = Inr p" and "steady cfg time" and "supervisor_turns cfg k s = Some u"
    and "\<And>i v. i \<le> k \<Longrightarrow> supervisor_turns cfg i s = Some v \<Longrightarrow> tick_open_session cfg v"
    and "supervisor_tick cfg u = (s', ans)" and "time (su_env s') \<le> tick_time cfg s + restart_window cfg"
  shows "int (su_total_restarts s') \<le> int (su_total_restarts s) + up_max_restarts_in_window p"
proof -
  let ?T = "tick_time cfg s" and ?base = "su_total_restarts s"
  have p: "p = uc_policy cfg" "0 \<le> up_max_restarts_in_window p" using assms(1) by (auto simp: mk_SupervisorPolicy_def split: if_splits)
  have op: "tick_open_session cfg u" using assms(3,4) by blast
  have "time (su_env u) \<le> tick_time cfg u" using begun_time [OF assms(2)] by blast
  moreover have "tick_time cfg u \<le> time (su_env s')"
  proof (cases "su_terminal_failed u")
    case True
    then have "su_env s' = snd (uc_clock cfg (su_env u))" using assms(5)
      by (auto simp: supervisor_tick_def answer_summary_def supervisor_summary_of_def supervisor_now_def
          restarts_in_current_window_def Let_def split: prod.splits)
    then show ?thesis using begun_time [OF assms(2), of u] by (simp add: begun_def)
  next
    case False
    then show ?thesis using tick_keeps(2) [OF False op, of time] begun_time [OF assms(2), of u] assms(2,5) by (auto simp: keeps_def)
  qed
  ultimately have le: "time (su_env u) \<le> ?T + restart_window cfg" using assms(6) by linarith
  have "within_budget cfg ?T ?base s" using p by (simp add: within_budget_def)
  moreover have "tick_open_session cfg v" if "i < k" "supervisor_turns cfg i s = Some v" for i v
    using assms(4) [of i v] that by simp
  ultimately have b: "within_budget cfg ?T ?base u" "k = 0 \<and> u = s \<or> ?T \<le> time (su_env u)"
    using turns_keep [OF assms(2,3) _ _ le] by blast+
  have "?T \<le> tick_time cfg u" using b(2) \<open>time (su_env u) \<le> tick_time cfg u\<close> by auto
  from last_tick_keeps [OF assms(2) op assms(5) b(1) this assms(6)] show ?thesis by (simp add: within_budget_def p)
qed

text \<open>
  C37. The supervisor ends clean and fails closed. A run with \<^verbatim>\<open>max_ticks\<close> returns. However a run ends, no
  monitor task is left and no more were cancelled than started; the summary says STOPPED exactly after
  \<^verbatim>\<open>max_ticks\<close> ticks, FAILED_CLOSED otherwise. And at the head of every turn of the loop the supervisor
  has not failed, and a monitor task is there only if the session was open at the previous tick.
\<close>

theorem supervisor_ends_clean:
  assumes "check_supervisor cfg = Inr ()"
  shows "(uc_max_ticks cfg \<noteq> None \<longrightarrow> run_supervisor cfg (new_supervisor t env) \<noteq> None) \<and>
    (\<forall>s' ans. run_supervisor cfg (new_supervisor t env) = Some (s', ans) \<longrightarrow>
       \<not> su_task s' \<and> su_cancels s' \<le> su_initial_starts s' + su_total_restarts s' \<and>
       (\<forall>y. ans = Inr y \<longrightarrow> uy_final_state y = SU_STOPPED \<and> uc_max_ticks cfg = Some (uy_ticks y) \<or>
          uy_final_state y = SU_FAILED_CLOSED)) \<and>
    (\<forall>k s. supervisor_turns cfg k (new_supervisor t env) = Some s \<longrightarrow> \<not> su_terminal_failed s \<and>
       (su_task s \<longrightarrow> (\<exists>i u. k = Suc i \<and> supervisor_turns cfg i (new_supervisor t env) = Some u \<and> tick_open_session cfg u)))"
proof -
  let ?s = "new_supervisor t env"
  have ok: "supervisor_ok cfg ?s"
    using assms by (auto simp: supervisor_ok_def new_supervisor_def live_def check_supervisor_def split: if_splits)
  have run: "run_supervisor cfg ?s = supervisor_loop cfg ?s" by (simp add: run_supervisor_def new_supervisor_def)
  have "su_task s \<longrightarrow> (\<exists>i u. k = Suc i \<and> supervisor_turns cfg i ?s = Some u \<and> tick_open_session cfg u)"
    if turns: "supervisor_turns cfg k ?s = Some s" for k s
  proof (cases k)
    case 0
    then show ?thesis using that by (auto simp: new_supervisor_def)
  next
    case (Suc i)
    obtain u where "supervisor_turns cfg i ?s = Some u" "supervisor_turn cfg u = Inr s"
      using turns [unfolded Suc] by (auto split: option.splits sum.splits)
    then show ?thesis using Suc tick_continues(3) by (auto simp: turn_Inr)
  qed
  then show ?thesis
    using loop_returns [OF _ ok] loop_ends_clean [OF _ ok] turns_ok [OF _ ok] unfolding run
    by (auto simp: ended_clean_def supervisor_ok_def)
qed

text \<open>The fixture: a market that is always open, a clock that ticks at every reading, and monitors that leave at once.\<close>

definition watch_config :: "nat supervisor_config" where
  "watch_config =
     \<lparr>uc_market = KR,
      uc_session_at = (\<lambda>m i. Inr \<lparr>se_market = m, se_state = MS_OPEN, se_as_of = i, se_calendar_reason = None\<rparr>),
      uc_clock = (\<lambda>n. (int n, Suc n)), uc_await = (\<lambda>n _. (n, [], False)), uc_settle = (\<lambda>n. (n, [])),
      uc_factory = (\<lambda>n. (n, False)),
      uc_task = (\<lambda>_. Some (Inl (MonitorExhaustedError \<lparr>my_monitor_session_id = ''feed'', my_connection_attempts = 1,
        my_consecutive_failures = 1, my_counts = \<lparr>mn_applied = 0, mn_duplicate = 0, mn_out_of_order = 0, mn_stream_mismatch = 0,
        mn_future_event_error = 0\<rparr>, my_final_state = MO_EXHAUSTED\<rparr>))),
      uc_policy = provisional_supervisor_policy, uc_max_ticks = Some 10, uc_on_evidence = None\<rparr>"

definition watch_start :: "nat supervisor" where
  "watch_start = new_supervisor (new_tracker provisional_thresholds) 0"


lemma watch_policy: "mk_SupervisorPolicy (uc_policy watch_config) = Inr provisional_supervisor_policy"
  by (simp add: watch_config_def provisional_supervisor_policy_def mk_SupervisorPolicy_def)

lemma watch_steady: "steady watch_config int"
  by (simp add: steady_def watch_config_def)

lemma watch_open: "tick_open_session watch_config v"
  by (simp add: tick_open_session_def watch_config_def is_open_def)

lemma watch_window: "restart_window watch_config = 300000000"
  by code_simp

lemmas watch_eval = supervisor_turn_def supervisor_tick_def supervisor_now_def new_supervisor_def act_on_session_def ubind_def
  reap_finished_def evaluate_health_def trim_epochs_def new_tracker_def Let_def short_epochs_def transport_status_def
  provisional_thresholds_def market_data_status_def is_tradable_quote_expected_def apply_action_def decide_action_def
  is_calendar_missing_def keep_running_def is_open_def exited_def ensure_running_def start_monitor_def supervisor_emit_def
  supervisor_await_def emit_verdict_def track_session_transition_def restart_allowed_def restarts_in_current_window_def watch_window

text \<open>After the first start, two restarts within three microseconds: the budget is used up.\<close>

theorem restart_budget_witness:
  "\<exists>u s' ans. supervisor_turns watch_config 2 watch_start = Some u \<and> supervisor_tick watch_config u = (s', ans) \<and>
     int (su_env s') \<le> tick_time watch_config watch_start + restart_window watch_config \<and> su_total_restarts s' = 2 \<and>
     int (su_total_restarts s') \<le> int (su_total_restarts watch_start) + up_max_restarts_in_window provisional_supervisor_policy"
proof -
  have "map_option (\<lambda>s. (su_total_restarts s, su_env s)) (supervisor_turns watch_config (Suc 2) watch_start) = Some (2, 3)"
    by (simp add: watch_eval numeral_2_eq_2 numeral_3_eq_3 watch_config_def watch_start_def provisional_supervisor_policy_def)
  then obtain u s' where "supervisor_turns watch_config 2 watch_start = Some u" "supervisor_tick watch_config u = (s', Inr None)"
    "su_total_restarts s' = 2" "su_env s' = 3"
    by (auto simp del: Suc_numeral simp: turn_Inr split: option.splits sum.splits)
  moreover have "tick_time watch_config watch_start = 0" by (simp add: tick_time_def watch_config_def watch_start_def new_supervisor_def)
  ultimately show ?thesis
    using restart_budget [OF watch_policy watch_steady _ watch_open, of 2 watch_start u s' "Inr None"] by (auto simp: watch_window)
qed

theorem supervisor_ends_clean_witness:
  "\<exists>s' ans. run_supervisor watch_config watch_start = Some (s', ans) \<and> \<not> su_task s'"
proof -
  have "check_supervisor watch_config = Inr ()" by (simp add: check_supervisor_def watch_config_def)
  from supervisor_ends_clean [OF this, of "new_tracker provisional_thresholds" 0] show ?thesis
    unfolding watch_start_def [symmetric] by (auto simp: watch_config_def)
qed

end
