(* ===== verification/Refresh_Scheduler.thy ===== *)
theory Refresh_Scheduler
  imports Market_Health Active_Decisions
begin

text \<open>
  The decision refresh scheduler: \<^verbatim>\<open>src/src/orchestration/decision_refresh_scheduler.py\<close>. It polls
  the clock, runs each configured slot of a trading day at most once through the durable journal of the
  decision store, and publishes the runner's candidate under its reservation. The runner is awaited, so
  other processes may use the store meanwhile: a runner call and a sleep return the store they leave.
  Clock readings and reservation tokens are numbered. Grace and lease are microseconds; \<open>sd_localize\<close> is
  \<^verbatim>\<open>datetime.combine\<close> in the zone of the market. \<open>ss_calls\<close> logs the calls of the runner; the code
  keeps no such log. The loop of \<^verbatim>\<open>run\<close> has no bound without \<^verbatim>\<open>max_ticks\<close>, so it is a partial
  function.
\<close>

section \<open>Data\<close>

definition RUNNER_DEPENDENCY_ERROR :: string where "RUNNER_DEPENDENCY_ERROR = ''runner_dependency_error''"
definition PUBLICATION_DEPENDENCY_ERROR :: string where "PUBLICATION_DEPENDENCY_ERROR = ''publication_dependency_error''"
definition DANGLING_RESERVED :: string where "DANGLING_RESERVED = ''dangling_reserved_reconciled''"
definition SESSION_CLOSED :: string where "SESSION_CLOSED = ''session_closed''"
definition RESERVATION_LOST :: string where "RESERVATION_LOST = ''reservation_lost''"
definition COMPLETED_OUTSIDE_SESSION :: string where "COMPLETED_OUTSIDE_SESSION = ''completed_outside_session''"

record slot_config =
  sf_slot_id :: string
  sf_at :: int

datatype refresh_outcome =
    RF_RAN | RF_MISSED | RF_MISSED_SESSION_CLOSED | RF_RUNNER_FAILED | RF_PUBLISH_FAILED | RF_RECONCILED_UNCERTAIN

datatype scheduler_state = SC_RUNNING | SC_STOPPED | SC_FAILED_CLOSED

record scheduler_evidence =
  re_at :: instant
  re_session_date :: int
  re_slot_id :: string
  re_scheduled_at :: instant
  re_outcome :: refresh_outcome
  re_publication_status :: "publication_status option"
  re_reason :: "string option"

record refresh_summary =
  rs_ticks :: nat
  rs_slots_run :: nat
  rs_slots_missed :: nat
  rs_slots_missed_session_closed :: nat
  rs_slots_published :: nat
  rs_slots_reconciled :: nat
  rs_runner_failures :: nat
  rs_publish_failures :: nat
  rs_final_state :: scheduler_state
  rs_evidence :: "scheduler_evidence list"

definition new_summary :: refresh_summary where
  "new_summary = \<lparr>rs_ticks = 0, rs_slots_run = 0, rs_slots_missed = 0, rs_slots_missed_session_closed = 0,
     rs_slots_published = 0, rs_slots_reconciled = 0, rs_runner_failures = 0, rs_publish_failures = 0,
     rs_final_state = SC_RUNNING, rs_evidence = []\<rparr>"

datatype runner_answer = Runner_Candidate publication_candidate | Runner_Raised | Runner_Cancelled

datatype scheduler_error = SE_Sink | SE_Cancelled | SE_Store store_error | SE_Config string

record scheduler_config =
  sd_market :: market
  sd_session_at :: "market \<Rightarrow> instant \<Rightarrow> session_error + market_session"
  sd_is_trading_day :: "market \<Rightarrow> int \<Rightarrow> session_error + bool"
  sd_runner :: "slot_key \<Rightarrow> instant \<Rightarrow> decision_store \<Rightarrow> decision_store \<times> runner_answer"
  sd_codec :: codec
  sd_slots :: "slot_config list"
  sd_timezone :: zone
  sd_localize :: "int \<Rightarrow> int \<Rightarrow> instant"
  sd_clock :: "nat \<Rightarrow> instant"
  sd_sleep :: "nat \<Rightarrow> decision_store \<Rightarrow> decision_store \<times> bool"
  sd_poll_interval :: int
  sd_slot_grace :: int
  sd_slot_lease :: int
  sd_owner_id :: string
  sd_tokens :: "nat \<Rightarrow> string"
  sd_max_ticks :: "nat option"
  sd_on_evidence :: "(scheduler_evidence \<Rightarrow> unit result) option"

record scheduler =
  ss_store :: decision_store
  ss_summary :: refresh_summary
  ss_state :: scheduler_state
  ss_last_outcome :: "refresh_outcome option"
  ss_reads :: nat
  ss_tokens :: nat
  ss_calls :: "slot_key list"

text \<open>The constructor: its checks, and the slots in the order of their times.\<close>

definition mk_scheduler :: "scheduler_config \<Rightarrow> decision_store \<Rightarrow> scheduler_error + scheduler_config \<times> scheduler" where
  "mk_scheduler cfg store =
     (if sd_slots cfg = [] then Inl (SE_Config ''at least one slot must be configured (no hidden default).'')
      else if \<not> distinct (map sf_slot_id (sd_slots cfg)) then Inl (SE_Config ''slot ids must be unique.'')
      else if sd_poll_interval cfg \<le> 0 then Inl (SE_Config ''poll_interval_seconds must be > 0.'')
      else if sd_slot_grace cfg < 0 then Inl (SE_Config ''slot_grace_seconds must be >= 0.'')
      else if sd_slot_lease cfg \<le> 0 then Inl (SE_Config ''slot_lease_seconds must be > 0.'')
      else Inr (cfg\<lparr>sd_slots := sort_key sf_at (sd_slots cfg)\<rparr>,
        \<lparr>ss_store = store, ss_summary = new_summary, ss_state = SC_RUNNING, ss_last_outcome = None, ss_reads = 0,
         ss_tokens = 0, ss_calls = []\<rparr>))"

section \<open>Steps\<close>

type_synonym 'a scheduler_answer = "scheduler \<times> (scheduler_error + 'a)"

definition sbind :: "'a scheduler_answer \<Rightarrow> (scheduler \<Rightarrow> 'a \<Rightarrow> 'b scheduler_answer) \<Rightarrow> 'b scheduler_answer" where
  "sbind a f = (case a of (s, Inl e) \<Rightarrow> (s, Inl e) | (s, Inr x) \<Rightarrow> f s x)"

definition on_store :: "scheduler \<Rightarrow> 'a store_answer \<Rightarrow> 'a scheduler_answer" where
  "on_store s a = (case a of (store, Inl e) \<Rightarrow> (s\<lparr>ss_store := store\<rparr>, Inl (SE_Store e))
     | (store, Inr x) \<Rightarrow> (s\<lparr>ss_store := store\<rparr>, Inr x))"

definition sched_now :: "scheduler_config \<Rightarrow> scheduler \<Rightarrow> instant \<times> scheduler" where
  "sched_now cfg s = (sd_clock cfg (ss_reads s), s\<lparr>ss_reads := Suc (ss_reads s)\<rparr>)"

definition record_evidence :: "scheduler_config \<Rightarrow> scheduler \<Rightarrow> scheduler_evidence \<Rightarrow> unit scheduler_answer" where
  "record_evidence cfg s e =
     (let s1 = s\<lparr>ss_summary := (ss_summary s)\<lparr>rs_evidence := rs_evidence (ss_summary s) @ [e]\<rparr>\<rparr>
      in case sd_on_evidence cfg of
           None \<Rightarrow> (s1, Inr ())
         | Some sink \<Rightarrow> (case sink e of Inr _ \<Rightarrow> (s1, Inr ()) | Inl _ \<Rightarrow> (s1, Inl SE_Sink)))"

text \<open>Count, remember the outcome, record.\<close>

definition conclude ::
  "scheduler_config \<Rightarrow> scheduler \<Rightarrow> (refresh_summary \<Rightarrow> refresh_summary) \<Rightarrow> scheduler_evidence \<Rightarrow> unit scheduler_answer" where
  "conclude cfg s bump e =
     record_evidence cfg (s\<lparr>ss_summary := bump (ss_summary s), ss_last_outcome := Some (re_outcome e)\<rparr>) e"

definition slot_key_of :: "scheduler_config \<Rightarrow> int \<Rightarrow> string \<Rightarrow> slot_key" where
  "slot_key_of cfg session_date slot_id = (market_str (sd_market cfg), session_date, slot_id)"

definition evidence_of ::
  "instant \<Rightarrow> int \<Rightarrow> string \<Rightarrow> instant \<Rightarrow> refresh_outcome \<Rightarrow> publication_status option \<Rightarrow> string option \<Rightarrow> scheduler_evidence" where
  "evidence_of now session_date slot_id scheduled_at outc status reason =
     \<lparr>re_at = now, re_session_date = session_date, re_slot_id = slot_id, re_scheduled_at = scheduled_at,
      re_outcome = outc, re_publication_status = status, re_reason = reason\<rparr>"

definition reconcile_one :: "scheduler_config \<Rightarrow> scheduler \<Rightarrow> int \<Rightarrow> string \<Rightarrow> instant \<Rightarrow> instant \<Rightarrow> unit scheduler_answer" where
  "reconcile_one cfg s session_date slot_id scheduled_at now =
     sbind (on_store s (reconcile_expired_reservation (ss_store s) (slot_key_of cfg session_date slot_id) now (Some DANGLING_RESERVED)))
       (\<lambda>s1 took_over.
          if \<not> took_over then (s1, Inr ())
          else conclude cfg s1 (\<lambda>m. m\<lparr>rs_slots_reconciled := Suc (rs_slots_reconciled m)\<rparr>)
                 (evidence_of now session_date slot_id scheduled_at RF_RECONCILED_UNCERTAIN None (Some DANGLING_RESERVED)))"

primrec reconcile_expired :: "scheduler_config \<Rightarrow> scheduler \<Rightarrow> int \<Rightarrow> instant \<Rightarrow> (string \<times> instant) list \<Rightarrow> unit scheduler_answer" where
  "reconcile_expired cfg s session_date now [] = (s, Inr ())"
| "reconcile_expired cfg s session_date now (x # xs) =
     sbind (reconcile_one cfg s session_date (fst x) (snd x) now) (\<lambda>s1 _. reconcile_expired cfg s1 session_date now xs)"

definition reconcile_dangling :: "scheduler_config \<Rightarrow> scheduler \<Rightarrow> int \<Rightarrow> instant \<Rightarrow> (string \<rightharpoonup> slot_state) scheduler_answer" where
  "reconcile_dangling cfg s session_date now =
     sbind (reconcile_expired cfg s session_date now
              (expired_reservations (ss_store s) (market_str (sd_market cfg)) session_date now))
       (\<lambda>s1 _. (s1, Inr (slot_states (ss_store s1) (market_str (sd_market cfg)) session_date)))"

definition due_slots :: "scheduler_config \<Rightarrow> int \<Rightarrow> instant \<Rightarrow> (string \<rightharpoonup> slot_state) \<Rightarrow> (instant \<times> slot_config) list" where
  "due_slots cfg session_date now states =
     sort_key fst (filter (\<lambda>(scheduled_at, slot). scheduled_at \<le> now)
       (map (\<lambda>slot. (sd_localize cfg session_date (sf_at slot), slot))
         (filter (\<lambda>slot. states (sf_slot_id slot) = None) (sd_slots cfg))))"

definition mark_missed :: "scheduler_config \<Rightarrow> scheduler \<Rightarrow> int \<Rightarrow> instant \<times> slot_config \<Rightarrow> instant \<Rightarrow> unit scheduler_answer" where
  "mark_missed cfg s session_date due now =
     (case due of (scheduled_at, slot) \<Rightarrow>
        sbind (on_store s (mark_unreserved_terminal (ss_store s) (slot_key_of cfg session_date (sf_slot_id slot)) scheduled_at
                             SL_MISSED now (Some ''missed'')))
          (\<lambda>s1 claimed.
             if \<not> claimed then (s1, Inr ())
             else conclude cfg s1 (\<lambda>m. m\<lparr>rs_slots_missed := Suc (rs_slots_missed m)\<rparr>)
                    (evidence_of now session_date (sf_slot_id slot) scheduled_at RF_MISSED None None)))"

primrec mark_all_missed :: "scheduler_config \<Rightarrow> scheduler \<Rightarrow> int \<Rightarrow> (instant \<times> slot_config) list \<Rightarrow> instant \<Rightarrow> unit scheduler_answer" where
  "mark_all_missed cfg s session_date [] now = (s, Inr ())"
| "mark_all_missed cfg s session_date (x # xs) now =
     sbind (mark_missed cfg s session_date x now) (\<lambda>s1 _. mark_all_missed cfg s1 session_date xs now)"

primrec close_slots ::
  "scheduler_config \<Rightarrow> scheduler \<Rightarrow> int \<Rightarrow> instant \<Rightarrow> (string \<rightharpoonup> slot_state) \<Rightarrow> slot_config list \<Rightarrow> unit scheduler_answer" where
  "close_slots cfg s session_date now states [] = (s, Inr ())"
| "close_slots cfg s session_date now states (slot # slots) =
     (if states (sf_slot_id slot) \<noteq> None then close_slots cfg s session_date now states slots
      else let scheduled_at = sd_localize cfg session_date (sf_at slot)
        in sbind (on_store s (mark_unreserved_terminal (ss_store s) (slot_key_of cfg session_date (sf_slot_id slot)) scheduled_at
                                SL_MISSED_SESSION_CLOSED now (Some SESSION_CLOSED)))
             (\<lambda>s1 claimed.
                if \<not> claimed then close_slots cfg s1 session_date now states slots
                else sbind (conclude cfg s1 (\<lambda>m. m\<lparr>rs_slots_missed_session_closed := Suc (rs_slots_missed_session_closed m)\<rparr>)
                              (evidence_of now session_date (sf_slot_id slot) scheduled_at RF_MISSED_SESSION_CLOSED None (Some SESSION_CLOSED)))
                       (\<lambda>s2 _. close_slots cfg s2 session_date now states slots)))"

definition mark_session_closed :: "scheduler_config \<Rightarrow> scheduler \<Rightarrow> int \<Rightarrow> instant \<Rightarrow> unit scheduler_answer" where
  "mark_session_closed cfg s session_date now =
     sbind (reconcile_dangling cfg s session_date now)
       (\<lambda>s1 states. close_slots cfg s1 session_date now states (sd_slots cfg))"

section \<open>Running a slot\<close>

definition complete_failure ::
  "scheduler_config \<Rightarrow> scheduler \<Rightarrow> int \<Rightarrow> instant \<times> slot_config \<Rightarrow> string \<Rightarrow> instant \<Rightarrow> refresh_outcome \<Rightarrow> string \<Rightarrow> bool scheduler_answer" where
  "complete_failure cfg s session_date due token now outc reason =
     (case due of (scheduled_at, slot) \<Rightarrow>
        sbind (on_store s (complete_slot (ss_store s) (slot_key_of cfg session_date (sf_slot_id slot)) SL_FAILED token now (Some reason) None))
          (\<lambda>s1 completed.
             if \<not> completed
             then sbind (conclude cfg s1 id
                    (evidence_of now session_date (sf_slot_id slot) scheduled_at RF_PUBLISH_FAILED None (Some RESERVATION_LOST)))
                    (\<lambda>s2 _. (s2, Inr False))
             else sbind (conclude cfg s1 id (evidence_of now session_date (sf_slot_id slot) scheduled_at outc None (Some reason)))
                    (\<lambda>s2 _. (s2, Inr True))))"

definition bump_summary :: "scheduler \<Rightarrow> (refresh_summary \<Rightarrow> refresh_summary) \<Rightarrow> scheduler" where
  "bump_summary s f = s\<lparr>ss_summary := f (ss_summary s)\<rparr>"

definition fail_closed :: "refresh_summary \<Rightarrow> refresh_summary" where
  "fail_closed m = m\<lparr>rs_final_state := SC_FAILED_CLOSED\<rparr>"

definition count_publish_failure :: "refresh_summary \<Rightarrow> refresh_summary" where
  "count_publish_failure m = m\<lparr>rs_publish_failures := Suc (rs_publish_failures m)\<rparr>"

text \<open>A failed slot, once counted: terminal exactly when the reservation was lost.\<close>

definition after_failure :: "bool scheduler_answer \<Rightarrow> (refresh_summary \<Rightarrow> refresh_summary) \<Rightarrow> bool scheduler_answer" where
  "after_failure a bump =
     sbind a (\<lambda>s completed.
       let s1 = bump_summary s bump
       in if \<not> completed then (bump_summary s1 fail_closed, Inr True) else (s1, Inr False))"

definition complete_outside_session ::
  "scheduler_config \<Rightarrow> scheduler \<Rightarrow> int \<Rightarrow> instant \<times> slot_config \<Rightarrow> string \<Rightarrow> instant \<Rightarrow> bool scheduler_answer" where
  "complete_outside_session cfg s session_date due token now =
     (case due of (scheduled_at, slot) \<Rightarrow>
        sbind (on_store s (complete_slot (ss_store s) (slot_key_of cfg session_date (sf_slot_id slot)) SL_MISSED_SESSION_CLOSED token now
                             (Some COMPLETED_OUTSIDE_SESSION) None))
          (\<lambda>s1 completed.
             if \<not> completed
             then sbind (conclude cfg s1 id
                    (evidence_of now session_date (sf_slot_id slot) scheduled_at RF_PUBLISH_FAILED None (Some RESERVATION_LOST)))
                    (\<lambda>s2 _. (bump_summary (bump_summary s2 count_publish_failure) fail_closed, Inr True))
             else sbind (conclude cfg s1 (\<lambda>m. m\<lparr>rs_slots_missed_session_closed := Suc (rs_slots_missed_session_closed m)\<rparr>)
                    (evidence_of now session_date (sf_slot_id slot) scheduled_at RF_MISSED_SESSION_CLOSED None (Some COMPLETED_OUTSIDE_SESSION)))
                    (\<lambda>s2 _. (s2, Inr False))))"

definition conclude_publication ::
  "scheduler_config \<Rightarrow> scheduler \<Rightarrow> int \<Rightarrow> instant \<times> slot_config \<Rightarrow> instant \<Rightarrow> publication_result \<Rightarrow> bool scheduler_answer" where
  "conclude_publication cfg s session_date due now r =
     (case due of (scheduled_at, slot) \<Rightarrow>
        if pu_status r = PS_REJECTED_RESERVATION_LOST
        then sbind (conclude cfg s count_publish_failure
               (evidence_of now session_date (sf_slot_id slot) scheduled_at RF_PUBLISH_FAILED (Some (pu_status r)) (Some RESERVATION_LOST)))
               (\<lambda>s1 _. (bump_summary s1 fail_closed, Inr True))
        else if pu_status r \<in> {PS_PUBLISHED, PS_IDEMPOTENT}
        then sbind (conclude cfg s
               (\<lambda>m. m\<lparr>rs_slots_run := Suc (rs_slots_run m),
                      rs_slots_published := rs_slots_published m + (if pu_status r = PS_PUBLISHED then 1 else 0)\<rparr>)
               (evidence_of now session_date (sf_slot_id slot) scheduled_at RF_RAN (Some (pu_status r)) (pu_reason r)))
               (\<lambda>s1 _. (s1, Inr False))
        else sbind (conclude cfg s count_publish_failure
               (evidence_of now session_date (sf_slot_id slot) scheduled_at RF_PUBLISH_FAILED (Some (pu_status r)) (pu_reason r)))
               (\<lambda>s1 _. (s1, Inr False)))"

text \<open>The candidate of the runner, after it has returned.\<close>

definition publish_candidate ::
  "scheduler_config \<Rightarrow> scheduler \<Rightarrow> int \<Rightarrow> instant \<times> slot_config \<Rightarrow> string \<Rightarrow> publication_candidate \<Rightarrow> bool scheduler_answer" where
  "publish_candidate cfg s session_date due token candidate =
     (case sched_now cfg s of (completion_now, s1) \<Rightarrow>
        case sd_session_at cfg (sd_market cfg) completion_now of
          Inl _ \<Rightarrow> (s1, Inr True)
        | Inr completion_session \<Rightarrow>
            if se_state completion_session \<noteq> MS_OPEN
            then complete_outside_session cfg s1 session_date due token completion_now
            else case publish_reserved_slot (sd_codec cfg) (ss_store s1) candidate completion_now
                        (slot_key_of cfg session_date (sf_slot_id (snd due))) token (Some (market_str (sd_market cfg))) of
              (store, Inl _) \<Rightarrow>
                after_failure (complete_failure cfg (s1\<lparr>ss_store := store\<rparr>) session_date due token completion_now
                                 RF_PUBLISH_FAILED PUBLICATION_DEPENDENCY_ERROR) count_publish_failure
            | (store, Inr r) \<Rightarrow> conclude_publication cfg (s1\<lparr>ss_store := store\<rparr>) session_date due completion_now r)"

definition run_slot :: "scheduler_config \<Rightarrow> scheduler \<Rightarrow> int \<Rightarrow> instant \<times> slot_config \<Rightarrow> instant \<Rightarrow> bool scheduler_answer" where
  "run_slot cfg s session_date due now =
     (let key = slot_key_of cfg session_date (sf_slot_id (snd due)); token = sd_tokens cfg (ss_tokens s)
      in sbind (on_store (s\<lparr>ss_tokens := Suc (ss_tokens s)\<rparr>)
                  (reserve_slot (ss_store s) key (fst due) (sd_owner_id cfg) now (sd_slot_lease cfg) token))
           (\<lambda>s1 reservation.
              if sv_status reservation \<in> {SR_ALREADY_TERMINAL, SR_ACTIVE_ELSEWHERE} then (s1, Inr False)
              else if sv_status reservation = SR_DANGLING_RESERVED
              then sbind (reconcile_one cfg s1 session_date (sf_slot_id (snd due)) (fst due) now) (\<lambda>s2 _. (s2, Inr False))
              else case sd_runner cfg key (fst due) (ss_store s1) of (store, ans) \<Rightarrow>
                let s2 = s1\<lparr>ss_store := store, ss_calls := ss_calls s1 @ [key]\<rparr>
                in case ans of
                     Runner_Cancelled \<Rightarrow> (s2, Inl SE_Cancelled)
                   | Runner_Raised \<Rightarrow>
                       (case sched_now cfg s2 of (failed_now, s3) \<Rightarrow>
                          after_failure (complete_failure cfg s3 session_date due token failed_now RF_RUNNER_FAILED RUNNER_DEPENDENCY_ERROR)
                            (\<lambda>m. m\<lparr>rs_runner_failures := Suc (rs_runner_failures m)\<rparr>))
                   | Runner_Candidate candidate \<Rightarrow> publish_candidate cfg s2 session_date due token candidate))"

section \<open>Ticks and the loop\<close>

definition tick_open :: "scheduler_config \<Rightarrow> scheduler \<Rightarrow> int \<Rightarrow> instant \<Rightarrow> bool scheduler_answer" where
  "tick_open cfg s session_date now =
     sbind (reconcile_dangling cfg s session_date now) (\<lambda>s1 states.
       let due = due_slots cfg session_date now states
       in if due = [] then (s1, Inr False)
          else sbind (mark_all_missed cfg s1 session_date (butlast due) now) (\<lambda>s2 _.
            if sd_slot_grace cfg < now - fst (last due)
            then sbind (mark_missed cfg s2 session_date (last due) now) (\<lambda>s3 _. (s3, Inr False))
            else run_slot cfg s2 session_date (last due) now))"

definition tick :: "scheduler_config \<Rightarrow> scheduler \<Rightarrow> instant \<Rightarrow> bool scheduler_answer" where
  "tick cfg s now =
     (case sd_session_at cfg (sd_market cfg) now of
        Inl _ \<Rightarrow> (s, Inr True)
      | Inr session \<Rightarrow>
          let session_date = local_date (sd_timezone cfg) now
          in if se_state session = MS_OPEN then tick_open cfg s session_date now
             else if se_state session \<in> {MS_POST_CLOSE, MS_CLOSED}
             then (case sd_is_trading_day cfg (sd_market cfg) session_date of
                     Inl _ \<Rightarrow> (s, Inr True)
                   | Inr trading \<Rightarrow>
                       if trading then sbind (mark_session_closed cfg s session_date now) (\<lambda>s1 _. (s1, Inr False))
                       else (s, Inr False))
             else (s, Inr False))"

definition end_run :: "scheduler \<Rightarrow> scheduler_state \<Rightarrow> scheduler" where
  "end_run s st = s\<lparr>ss_summary := (ss_summary s)\<lparr>rs_final_state := st\<rparr>, ss_state := st\<rparr>"

partial_function (option) scheduler_loop :: "scheduler_config \<Rightarrow> scheduler \<Rightarrow> unit scheduler_answer option" where
  "scheduler_loop cfg s =
     (if (\<exists>n \<in> set_option (sd_max_ticks cfg). n \<le> rs_ticks (ss_summary s)) then Some (end_run s SC_STOPPED, Inr ())
      else case sched_now cfg (bump_summary s (\<lambda>m. m\<lparr>rs_ticks := Suc (rs_ticks m)\<rparr>)) of (now, s1) \<Rightarrow>
        case tick cfg s1 now of
          (s2, Inl SE_Sink) \<Rightarrow> Some (end_run s2 SC_FAILED_CLOSED, Inr ())
        | (s2, Inl SE_Cancelled) \<Rightarrow> Some (s2\<lparr>ss_state := SC_STOPPED\<rparr>, Inl SE_Cancelled)
        | (s2, Inl e) \<Rightarrow> Some (s2, Inl e)
        | (s2, Inr terminal) \<Rightarrow>
            if terminal then Some (end_run s2 SC_FAILED_CLOSED, Inr ())
            else case sd_sleep cfg (rs_ticks (ss_summary s2)) (ss_store s2) of (store, cancelled) \<Rightarrow>
              let s3 = s2\<lparr>ss_store := store\<rparr>
              in if cancelled then Some (s3\<lparr>ss_state := SC_STOPPED\<rparr>, Inl SE_Cancelled) else scheduler_loop cfg s3)"

definition run_scheduler :: "scheduler_config \<Rightarrow> scheduler \<Rightarrow> unit scheduler_answer option" where
  "run_scheduler cfg s = scheduler_loop cfg (s\<lparr>ss_summary := new_summary\<rparr>)"

section \<open>What a step may do\<close>

text \<open>
  The environment acts on the store through its operations only. A step of the scheduler lets the store
  evolve, calls the runner for slots that the journal did not know and knows afterwards, records a run
  only for a published slot in an open session, and keeps the counters of the summary in step with its
  evidence.
\<close>

definition shared_store :: "scheduler_config \<Rightarrow> bool" where
  "shared_store cfg \<longleftrightarrow>
     (\<forall>k t s. store_reaches (sd_codec cfg) s (fst (sd_runner cfg k t s))) \<and>
     (\<forall>n s. store_reaches (sd_codec cfg) s (fst (sd_sleep cfg n s)))"

definition outcomes :: "refresh_outcome \<Rightarrow> scheduler_evidence list \<Rightarrow> nat" where
  "outcomes outc es = length (filter (\<lambda>e. re_outcome e = outc) es)"

definition summary_ok :: "refresh_summary \<Rightarrow> bool" where
  "summary_ok m \<longleftrightarrow>
     rs_slots_run m = outcomes RF_RAN (rs_evidence m) \<and> rs_slots_missed m = outcomes RF_MISSED (rs_evidence m) \<and>
     rs_slots_missed_session_closed m = outcomes RF_MISSED_SESSION_CLOSED (rs_evidence m) \<and>
     rs_slots_reconciled m = outcomes RF_RECONCILED_UNCERTAIN (rs_evidence m)"

definition evidence_ok :: "scheduler_config \<Rightarrow> scheduler \<Rightarrow> scheduler_evidence \<Rightarrow> bool" where
  "evidence_ok cfg s e \<longleftrightarrow>
     (re_outcome e = RF_RAN \<longrightarrow>
        (\<exists>session. sd_session_at cfg (sd_market cfg) (re_at e) = Inr session \<and> se_state session = MS_OPEN) \<and>
        slot_key_of cfg (re_session_date e) (re_slot_id e) \<in> set (ss_calls s) \<and>
        (\<exists>r. slot_get (ss_store s) (slot_key_of cfg (re_session_date e) (re_slot_id e)) = Some r \<and> sl_state r = SL_PUBLISHED))"

definition new_calls :: "scheduler \<Rightarrow> scheduler \<Rightarrow> bool" where
  "new_calls s s' \<longleftrightarrow>
     (\<exists>new. ss_calls s' = ss_calls s @ new \<and> distinct new \<and>
        (\<forall>k \<in> set new. slot_get (ss_store s) k = None \<and> slot_get (ss_store s') k \<noteq> None))"

definition new_evidence :: "scheduler_config \<Rightarrow> scheduler \<Rightarrow> scheduler \<Rightarrow> bool" where
  "new_evidence cfg s s' \<longleftrightarrow>
     (\<exists>es. rs_evidence (ss_summary s') = rs_evidence (ss_summary s) @ es \<and> (\<forall>e \<in> set es. evidence_ok cfg s' e)) \<and>
     (summary_ok (ss_summary s) \<longrightarrow> summary_ok (ss_summary s'))"

definition grows :: "scheduler_config \<Rightarrow> scheduler \<Rightarrow> scheduler \<Rightarrow> bool" where
  "grows cfg s s' \<longleftrightarrow>
     (store_wf (ss_store s) \<longrightarrow>
        store_wf (ss_store s') \<and> store_evolves (ss_store s) (ss_store s') \<and> new_calls s s' \<and> new_evidence cfg s s')"

definition advances :: "scheduler_config \<Rightarrow> scheduler \<Rightarrow> scheduler \<Rightarrow> bool" where
  "advances cfg s s' \<longleftrightarrow> grows cfg s s' \<and> rs_ticks (ss_summary s') = rs_ticks (ss_summary s)"

lemma slot_follows_published: "slot_follows r r' \<Longrightarrow> sl_state r = SL_PUBLISHED \<Longrightarrow> r' = r"
  by (auto simp: slot_follows_def)

lemma evidence_ok_mono:
  assumes "evidence_ok cfg s e" and "store_evolves (ss_store s) (ss_store s')" and "set (ss_calls s) \<subseteq> set (ss_calls s')"
  shows "evidence_ok cfg s' e"
  using assms(1,3) evolves_slot [OF assms(2)] slot_follows_published unfolding evidence_ok_def by blast

lemma new_calls_trans:
  assumes "new_calls s s'" and "new_calls s' s''" and "store_evolves (ss_store s) (ss_store s')"
    and "store_evolves (ss_store s') (ss_store s'')"
  shows "new_calls s s''"
proof -
  obtain a b where a: "ss_calls s' = ss_calls s @ a" "distinct a" "\<forall>k \<in> set a. slot_get (ss_store s) k = None \<and> slot_get (ss_store s') k \<noteq> None"
    and b: "ss_calls s'' = ss_calls s' @ b" "distinct b" "\<forall>k \<in> set b. slot_get (ss_store s') k = None \<and> slot_get (ss_store s'') k \<noteq> None"
    using assms(1,2) unfolding new_calls_def by blast
  have keep: "slot_get (ss_store s') k \<noteq> None \<Longrightarrow> slot_get (ss_store s'') k \<noteq> None"
    "slot_get (ss_store s) k \<noteq> None \<Longrightarrow> slot_get (ss_store s') k \<noteq> None" for k
    using evolves_slot [OF assms(4)] evolves_slot [OF assms(3)] by (metis not_None_eq)+
  have "set a \<inter> set b = {}" using a(3) b(3) by blast
  then have "distinct (a @ b)" using a(2) b(2) by simp
  moreover have "\<forall>k \<in> set (a @ b). slot_get (ss_store s) k = None \<and> slot_get (ss_store s'') k \<noteq> None"
    using a(3) b(3) keep unfolding set_append by blast
  moreover have "ss_calls s'' = ss_calls s @ (a @ b)" using a(1) b(1) by simp
  ultimately show ?thesis unfolding new_calls_def by blast
qed

lemma new_evidence_trans:
  assumes "new_evidence cfg s s'" and "new_evidence cfg s' s''" and "new_calls s' s''" and "store_evolves (ss_store s') (ss_store s'')"
  shows "new_evidence cfg s s''"
proof -
  obtain a b where a: "rs_evidence (ss_summary s') = rs_evidence (ss_summary s) @ a" "\<forall>e \<in> set a. evidence_ok cfg s' e"
    and b: "rs_evidence (ss_summary s'') = rs_evidence (ss_summary s') @ b" "\<forall>e \<in> set b. evidence_ok cfg s'' e"
    using assms(1,2) unfolding new_evidence_def by blast
  have "set (ss_calls s') \<subseteq> set (ss_calls s'')" using assms(3) unfolding new_calls_def by auto
  then have "\<forall>e \<in> set (a @ b). evidence_ok cfg s'' e" using a(2) b(2) evidence_ok_mono assms(4) by auto
  then show ?thesis using a(1) b(1) assms(1,2) unfolding new_evidence_def by (metis append_assoc)
qed

lemma grows_trans: "grows cfg s s' \<Longrightarrow> grows cfg s' s'' \<Longrightarrow> grows cfg s s''"
  unfolding grows_def using new_calls_trans new_evidence_trans store_evolves_trans by blast

lemma advances_trans: "advances cfg s s' \<Longrightarrow> advances cfg s' s'' \<Longrightarrow> advances cfg s s''"
  unfolding advances_def using grows_trans by metis

lemma grows_plain:
  assumes "ss_store s' = ss_store s" and "ss_calls s' = ss_calls s" and "rs_evidence (ss_summary s') = rs_evidence (ss_summary s)"
    and "summary_ok (ss_summary s) \<Longrightarrow> summary_ok (ss_summary s')"
  shows "grows cfg s s'"
  using assms by (simp add: grows_def new_calls_def new_evidence_def)

lemma advances_refl [simp]: "advances cfg s s"
  by (simp add: advances_def grows_plain)

lemma advances_sbind:
  assumes "advances cfg s (fst a)" and "\<And>s1 x. a = (s1, Inr x) \<Longrightarrow> advances cfg s1 (fst (f s1 x))"
  shows "advances cfg s (fst (sbind a f))"
  using assms advances_trans by (cases a) (auto simp: sbind_def split: sum.splits)

lemma grows_store:
  assumes "store_reaches cx (ss_store s) store"
  shows "grows cfg s (s\<lparr>ss_store := store\<rparr>)"
  using store_reaches_wf [OF assms] by (auto simp: grows_def new_calls_def new_evidence_def)

lemma store_reaches_one: "store_step cx s s' \<Longrightarrow> store_reaches cx s s'"
  by (rule reaches_step [OF reaches_refl])

lemma advances_on_store:
  assumes "store_step cx (ss_store s) (fst a)"
  shows "advances cfg s (fst (on_store s a))"
proof -
  have "fst (on_store s a) = s\<lparr>ss_store := fst a\<rparr>" by (cases a) (simp add: on_store_def split: sum.split)
  then show ?thesis using grows_store [OF store_reaches_one [OF assms]] by (simp add: advances_def)
qed

lemma fst_record_evidence:
  "fst (record_evidence cfg s e) = s\<lparr>ss_summary := (ss_summary s)\<lparr>rs_evidence := rs_evidence (ss_summary s) @ [e]\<rparr>\<rparr>"
  by (simp add: record_evidence_def Let_def split: option.split sum.split)

lemma advances_conclude:
  assumes "\<And>m. rs_evidence (bump m) = rs_evidence m" and "\<And>m. rs_ticks (bump m) = rs_ticks m"
    and "\<And>m. summary_ok m \<Longrightarrow> summary_ok ((bump m)\<lparr>rs_evidence := rs_evidence m @ [e]\<rparr>)"
    and "store_wf (ss_store s) \<Longrightarrow> evidence_ok cfg s e"
  shows "advances cfg s (fst (conclude cfg s bump e))"
proof -
  let ?s = "fst (conclude cfg s bump e)"
  have s': "ss_store ?s = ss_store s" "ss_calls ?s = ss_calls s"
    "ss_summary ?s = (bump (ss_summary s))\<lparr>rs_evidence := rs_evidence (ss_summary s) @ [e]\<rparr>"
    by (simp_all add: conclude_def fst_record_evidence assms(1))
  have "store_wf (ss_store s) \<Longrightarrow> evidence_ok cfg ?s e" using assms(4) by (simp add: evidence_ok_def s'(1,2))
  then show ?thesis using assms(2,3) by (simp add: advances_def grows_def new_calls_def new_evidence_def s')
qed

lemmas counting = summary_ok_def outcomes_def evidence_of_def count_publish_failure_def

lemma not_ran_ok: "re_outcome e \<noteq> RF_RAN \<Longrightarrow> evidence_ok cfg s e"
  by (simp add: evidence_ok_def)

lemma advances_bump:
  assumes "\<And>m. rs_evidence (f m) = rs_evidence m" and "\<And>m. rs_ticks (f m) = rs_ticks m" and "\<And>m. summary_ok m \<Longrightarrow> summary_ok (f m)"
  shows "advances cfg s (bump_summary s f)"
  unfolding advances_def by (intro conjI grows_plain) (simp_all add: bump_summary_def assms)

lemma advances_reconcile_one: "advances cfg s (fst (reconcile_one cfg s session_date slot_id scheduled_at now))"
  unfolding reconcile_one_def
  by (rule advances_sbind [OF advances_on_store [OF step_reconcile [OF prod.collapse [symmetric]]]])
    (auto intro!: advances_conclude not_ran_ok simp: counting)

lemma advances_reconcile_expired: "advances cfg s (fst (reconcile_expired cfg s session_date now xs))"
  by (induction xs arbitrary: s) (auto intro!: advances_sbind advances_reconcile_one)

lemma advances_reconcile_dangling: "advances cfg s (fst (reconcile_dangling cfg s session_date now))"
  unfolding reconcile_dangling_def by (rule advances_sbind [OF advances_reconcile_expired]) simp

lemma advances_mark_missed: "advances cfg s (fst (mark_missed cfg s session_date due now))"
  unfolding mark_missed_def case_prod_unfold
  by (rule advances_sbind [OF advances_on_store [OF step_missed [OF prod.collapse [symmetric]]]])
    (auto intro!: advances_conclude not_ran_ok simp: counting)

lemma advances_mark_all_missed: "advances cfg s (fst (mark_all_missed cfg s session_date due now))"
  by (induction due arbitrary: s) (auto intro!: advances_sbind advances_mark_missed)

lemma advances_close_slots: "advances cfg s (fst (close_slots cfg s session_date now states slots))"
proof (induction slots arbitrary: s)
  case (Cons slot slots)
  have tail: "advances cfg s1 (fst (sbind (conclude cfg s1 (\<lambda>m. m\<lparr>rs_slots_missed_session_closed := Suc (rs_slots_missed_session_closed m)\<rparr>)
      (evidence_of now session_date (sf_slot_id slot) t RF_MISSED_SESSION_CLOSED None (Some SESSION_CLOSED)))
      (\<lambda>s2 _. close_slots cfg s2 session_date now states slots)))" for s1 t
    by (rule advances_sbind [OF advances_conclude Cons.IH]) (auto intro!: not_ran_ok simp: counting)
  show ?case
    using Cons.IH tail
    by (auto simp: Let_def intro!: advances_sbind advances_on_store [OF step_missed [OF prod.collapse [symmetric]]])
qed simp

lemma advances_mark_session_closed: "advances cfg s (fst (mark_session_closed cfg s session_date now))"
  unfolding mark_session_closed_def by (rule advances_sbind [OF advances_reconcile_dangling advances_close_slots])

lemma advances_complete_failure:
  assumes "outc \<in> {RF_RUNNER_FAILED, RF_PUBLISH_FAILED}"
  shows "advances cfg s (fst (complete_failure cfg s session_date due token now outc reason))"
  unfolding complete_failure_def case_prod_unfold
proof (rule advances_sbind [OF advances_on_store [OF step_complete [OF prod.collapse [symmetric]]]])
  fix s1 completed
  have "advances cfg s1 (fst (sbind (conclude cfg s1 id (evidence_of now session_date (sf_slot_id (snd due)) (fst due) oc None r))
      (\<lambda>s2 _. (s2, Inr b))))" if "oc \<in> {RF_RUNNER_FAILED, RF_PUBLISH_FAILED}" for oc r and b :: bool
    using that by (intro advances_sbind advances_conclude not_ran_ok) (auto simp: counting)
  then show "advances cfg s1 (fst (if \<not> completed
      then sbind (conclude cfg s1 id (evidence_of now session_date (sf_slot_id (snd due)) (fst due) RF_PUBLISH_FAILED None (Some RESERVATION_LOST)))
        (\<lambda>s2 _. (s2, Inr False))
      else sbind (conclude cfg s1 id (evidence_of now session_date (sf_slot_id (snd due)) (fst due) outc None (Some reason)))
        (\<lambda>s2 _. (s2, Inr True))))"
    using assms by simp
qed

lemma advances_after_failure:
  assumes "advances cfg s (fst a)" and "\<And>m. rs_evidence (f m) = rs_evidence m" and "\<And>m. rs_ticks (f m) = rs_ticks m"
    and "\<And>m. summary_ok m \<Longrightarrow> summary_ok (f m)"
  shows "advances cfg s (fst (after_failure a f))"
proof -
  have "advances cfg s1 (bump_summary s1 f)" "advances cfg s1 (bump_summary s1 fail_closed)" for s1
    using assms(2-4) by (auto intro!: advances_bump simp: fail_closed_def counting)
  then show ?thesis unfolding after_failure_def
    by (intro advances_sbind [OF assms(1)]) (auto simp: Let_def intro: advances_trans)
qed

lemma advances_complete_outside: "advances cfg s (fst (complete_outside_session cfg s session_date due token now))"
  unfolding complete_outside_session_def case_prod_unfold
proof (rule advances_sbind [OF advances_on_store [OF step_complete [OF prod.collapse [symmetric]]]])
  fix s1 completed
  have "advances cfg s2 (bump_summary (bump_summary s2 count_publish_failure) fail_closed)" for s2
    by (rule advances_trans [OF advances_bump advances_bump]) (auto simp: counting fail_closed_def)
  then show "advances cfg s1 (fst (if \<not> completed
      then sbind (conclude cfg s1 id (evidence_of now session_date (sf_slot_id (snd due)) (fst due) RF_PUBLISH_FAILED None (Some RESERVATION_LOST)))
        (\<lambda>s2 _. (bump_summary (bump_summary s2 count_publish_failure) fail_closed, Inr True))
      else sbind (conclude cfg s1 (\<lambda>m. m\<lparr>rs_slots_missed_session_closed := Suc (rs_slots_missed_session_closed m)\<rparr>)
          (evidence_of now session_date (sf_slot_id (snd due)) (fst due) RF_MISSED_SESSION_CLOSED None (Some COMPLETED_OUTSIDE_SESSION)))
        (\<lambda>s2 _. (s2, Inr False))))"
    by (auto intro!: advances_sbind advances_conclude not_ran_ok simp: counting)
qed

lemma published_slot:
  assumes "store_wf s" and "publish_reserved_slot cx s c now k token m = (s', Inr r)" and "pu_status r \<in> {PS_PUBLISHED, PS_IDEMPOTENT}"
  shows "\<exists>row. slot_get s' k = Some row \<and> sl_state row = SL_PUBLISHED"
proof (cases "reservation_held (slot_get s k) token now")
  case True
  obtain t a where t: "publish cx s c now m = (t, a)" by fastforce
  then have s': "s' = close_slot k token now r t" "a = Inr r"
    using assms(2) unfolding publish_reserved_slot_eq [OF assms(1) True] by (auto split: sum.splits)
  obtain row where "slot_get s k = Some row" "slot_owned k token row" by (rule reservation_held_owned [OF True])
  then have "slot_get t k = Some row" "slot_owned k token row"
    using publish_keeps_slots [OF assms(1) t] by (simp_all add: slot_get_def)
  from slot_get_close_slot [OF this, of now r k] show ?thesis using assms(3) s' by auto
next
  case False
  then show ?thesis using assms(2,3) by (auto simp: publish_reserved_slot_def Let_def reservation_lost_def)
qed

lemma advances_conclude_publication:
  assumes "pu_status r \<in> {PS_PUBLISHED, PS_IDEMPOTENT} \<Longrightarrow> store_wf (ss_store s) \<Longrightarrow>
      evidence_ok cfg s (evidence_of now session_date (sf_slot_id (snd due)) (fst due) RF_RAN (Some (pu_status r)) (pu_reason r))"
  shows "advances cfg s (fst (conclude_publication cfg s session_date due now r))"
proof -
  have "advances cfg s1 (bump_summary s1 fail_closed)" for s1
    by (rule advances_bump) (auto simp: counting fail_closed_def)
  then have lost: "advances cfg s (fst (sbind (conclude cfg s count_publish_failure
      (evidence_of now session_date (sf_slot_id (snd due)) (fst due) RF_PUBLISH_FAILED (Some (pu_status r)) reason))
      (\<lambda>s1 _. (bump_summary s1 fail_closed, Inr True :: scheduler_error + bool))))" for reason
    by (intro advances_sbind advances_conclude not_ran_ok) (auto simp: counting)
  have rejected: "advances cfg s (fst (sbind (conclude cfg s count_publish_failure
      (evidence_of now session_date (sf_slot_id (snd due)) (fst due) RF_PUBLISH_FAILED (Some (pu_status r)) reason))
      (\<lambda>s1 _. (s1, Inr False :: scheduler_error + bool))))" for reason
    by (intro advances_sbind advances_conclude not_ran_ok) (auto simp: counting)
  have "advances cfg s (fst (sbind (conclude cfg s (\<lambda>m. m\<lparr>rs_slots_run := Suc (rs_slots_run m),
        rs_slots_published := rs_slots_published m + (if pu_status r = PS_PUBLISHED then 1 else 0)\<rparr>)
      (evidence_of now session_date (sf_slot_id (snd due)) (fst due) RF_RAN (Some (pu_status r)) (pu_reason r)))
      (\<lambda>s1 _. (s1, Inr False :: scheduler_error + bool))))" if "pu_status r \<in> {PS_PUBLISHED, PS_IDEMPOTENT}"
    using assms [OF that] by (intro advances_sbind advances_conclude) (auto simp: counting)
  then show ?thesis using lost rejected by (auto simp: conclude_publication_def case_prod_unfold)
qed

lemma sbind_ticks:
  assumes "\<And>s1 x. rs_ticks (ss_summary (fst (f s1 x))) = rs_ticks (ss_summary s1)"
  shows "rs_ticks (ss_summary (fst (sbind a f))) = rs_ticks (ss_summary (fst a))"
  using assms by (cases a; cases "snd a") (auto simp: sbind_def)

lemma conclude_publication_ticks:
  "rs_ticks (ss_summary (fst (conclude_publication cfg s session_date due now r))) = rs_ticks (ss_summary s)"
  by (simp add: conclude_publication_def case_prod_unfold sbind_ticks bump_summary_def fail_closed_def conclude_def
      fst_record_evidence count_publish_failure_def)

lemma advances_clock: "sched_now cfg s = (now, s1) \<Longrightarrow> advances cfg s s1"
  unfolding advances_def by (intro conjI grows_plain) (auto simp: sched_now_def)

lemma advances_publish_candidate:
  assumes "slot_key_of cfg session_date (sf_slot_id (snd due)) \<in> set (ss_calls s)"
  shows "advances cfg s (fst (publish_candidate cfg s session_date due token candidate))"
proof -
  let ?k = "slot_key_of cfg session_date (sf_slot_id (snd due))"
  obtain now s1 where clock: "sched_now cfg s = (now, s1)" by fastforce
  have s1: "ss_calls s1 = ss_calls s" "ss_store s1 = ss_store s" using clock by (auto simp: sched_now_def)
  have "advances cfg s1 (fst (publish_candidate cfg s session_date due token candidate))"
  proof (cases "sd_session_at cfg (sd_market cfg) now")
    case (Inr session)
    obtain store a where pub: "publish_reserved_slot (sd_codec cfg) (ss_store s1) candidate now ?k token (Some (market_str (sd_market cfg))) = (store, a)"
      by fastforce
    have adv: "advances cfg s1 (s1\<lparr>ss_store := store\<rparr>)"
      using grows_store [OF store_reaches_one [OF step_publish_slot [OF pub]]] by (simp add: advances_def)
    show ?thesis
    proof (cases "se_state session = MS_OPEN")
      case True
      show ?thesis
      proof (cases a)
        case (Inl e)
        have "advances cfg (s1\<lparr>ss_store := store\<rparr>) (fst (after_failure (complete_failure cfg (s1\<lparr>ss_store := store\<rparr>) session_date due token now
            RF_PUBLISH_FAILED PUBLICATION_DEPENDENCY_ERROR) count_publish_failure))"
          by (intro advances_after_failure advances_complete_failure) (auto simp: counting)
        then show ?thesis using advances_trans [OF adv] True Inl Inr pub clock by (simp add: publish_candidate_def)
      next
        case (Inr r)
        let ?s = "s1\<lparr>ss_store := store\<rparr>"
        have "publish_candidate cfg s session_date due token candidate = conclude_publication cfg ?s session_date due now r"
          using True Inr \<open>sd_session_at cfg (sd_market cfg) now = Inr session\<close> pub clock by (simp add: publish_candidate_def)
        moreover have "advances cfg ?s (fst (conclude_publication cfg ?s session_date due now r))" if "store_wf (ss_store s1)"
          using published_slot [OF that pub [unfolded Inr]] assms s1 True \<open>sd_session_at cfg (sd_market cfg) now = Inr session\<close>
          by (intro advances_conclude_publication) (auto simp: evidence_ok_def evidence_of_def)
        moreover have "rs_ticks (ss_summary (fst (conclude_publication cfg ?s session_date due now r))) = rs_ticks (ss_summary s1)"
          by (simp add: conclude_publication_ticks)
        ultimately show ?thesis using advances_trans [OF adv] by (cases "store_wf (ss_store s1)") (auto simp: advances_def grows_def)
      qed
    qed (use Inr clock in \<open>simp add: publish_candidate_def advances_complete_outside\<close>)
  qed (use clock in \<open>simp add: publish_candidate_def\<close>)
  then show ?thesis using advances_trans [OF advances_clock [OF clock]] by blast
qed

lemma reserve_fresh:
  assumes "reserve_slot s k scheduled_at owner now lease token = (s', Inr rv)"
    and "sv_status rv \<notin> {SR_ALREADY_TERMINAL, SR_ACTIVE_ELSEWHERE, SR_DANGLING_RESERVED}"
  shows "slot_get s k = None" and "slot_get s' k \<noteq> None"
proof -
  show none: "slot_get s k = None"
    using assms by (auto simp: reserve_slot_def in_transaction_def split: option.splits if_splits)
  then show "slot_get s' k \<noteq> None"
    using assms(1) by (auto simp: reserve_slot_def in_transaction_def slot_get_def tbl.ins_Inr_iff [of sl_key] tbl_get_upsert split: sum.splits)
qed

lemma advances_call:
  assumes env: "shared_store cfg" and res: "reserve_slot (ss_store s) k scheduled_at owner now lease token = (store, Inr rv)"
    and fresh: "sv_status rv \<notin> {SR_ALREADY_TERMINAL, SR_ACTIVE_ELSEWHERE, SR_DANGLING_RESERVED}"
    and run: "sd_runner cfg k scheduled store = (store', ans)"
  shows "advances cfg s (s\<lparr>ss_tokens := n, ss_store := store', ss_calls := ss_calls s @ [k]\<rparr>)"
proof -
  have reach: "store_reaches (sd_codec cfg) (ss_store s) store" by (rule store_reaches_one [OF step_reserve [OF res]])
  have reach': "store_reaches (sd_codec cfg) store store'" using env run unfolding shared_store_def by (metis fst_conv)
  have "store_wf store' \<and> store_evolves (ss_store s) store' \<and> slot_get store' k \<noteq> None" if "store_wf (ss_store s)"
  proof -
    have a: "store_wf store \<and> store_evolves (ss_store s) store" by (rule store_reaches_wf [OF reach that])
    then have b: "store_wf store' \<and> store_evolves store store'" using store_reaches_wf [OF reach'] by blast
    then have "slot_get store' k \<noteq> None" using reserve_fresh(2) [OF res fresh] evolves_slot [of store store' k] by (metis not_None_eq)
    then show ?thesis using a b store_evolves_trans by blast
  qed
  then show ?thesis using reserve_fresh(1) [OF res fresh]
    by (auto simp: advances_def grows_def new_calls_def new_evidence_def)
qed

lemma advances_run_slot:
  assumes env: "shared_store cfg"
  shows "advances cfg s (fst (run_slot cfg s session_date due now))"
proof -
  let ?k = "slot_key_of cfg session_date (sf_slot_id (snd due))" and ?tok = "sd_tokens cfg (ss_tokens s)"
    and ?s = "s\<lparr>ss_tokens := Suc (ss_tokens s)\<rparr>"
  let ?done = "{SR_ALREADY_TERMINAL, SR_ACTIVE_ELSEWHERE, SR_DANGLING_RESERVED}"
  obtain store a where res: "reserve_slot (ss_store s) ?k (fst due) (sd_owner_id cfg) now (sd_slot_lease cfg) ?tok = (store, a)" by fastforce
  let ?s1 = "?s\<lparr>ss_store := store\<rparr>"
  have "advances cfg s ?s" unfolding advances_def by (intro conjI grows_plain) simp_all
  moreover have "advances cfg ?s ?s1"
    using grows_store [where s = ?s and cfg = cfg] store_reaches_one [OF step_reserve [OF res]] by (simp add: advances_def)
  ultimately have s1: "advances cfg s ?s1" by (rule advances_trans)
  show ?thesis
  proof (cases a)
    case (Inl e)
    then show ?thesis using s1 res by (simp add: run_slot_def Let_def on_store_def sbind_def)
  next
    case (Inr rv)
    show ?thesis
    proof (cases "sv_status rv \<in> ?done")
      case True
      then have "advances cfg ?s1 (fst (run_slot cfg s session_date due now))"
        using res Inr by (auto simp: run_slot_def Let_def on_store_def sbind_def [of "(_, Inr _)"] intro!: advances_sbind advances_reconcile_one)
      then show ?thesis using advances_trans [OF s1] by blast
    next
      case False
      obtain store' ans where run: "sd_runner cfg ?k (fst due) store = (store', ans)" by fastforce
      let ?s2 = "s\<lparr>ss_tokens := Suc (ss_tokens s), ss_store := store', ss_calls := ss_calls s @ [?k]\<rparr>"
      have s2: "advances cfg s ?s2" by (rule advances_call [OF env res [unfolded Inr] False run])
      have "advances cfg ?s2 (fst (run_slot cfg s session_date due now))"
      proof (cases ans)
        case (Runner_Candidate c)
        have "advances cfg ?s2 (fst (publish_candidate cfg ?s2 session_date due ?tok c))"
          by (rule advances_publish_candidate) simp
        then show ?thesis using res Inr False run Runner_Candidate
          by (simp add: run_slot_def Let_def on_store_def sbind_def)
      next
        case Runner_Raised
        obtain t s3 where clock: "sched_now cfg ?s2 = (t, s3)" by fastforce
        have "advances cfg s3 (fst (after_failure (complete_failure cfg s3 session_date due ?tok t RF_RUNNER_FAILED RUNNER_DEPENDENCY_ERROR)
            (\<lambda>m. m\<lparr>rs_runner_failures := Suc (rs_runner_failures m)\<rparr>)))"
          by (intro advances_after_failure advances_complete_failure) (auto simp: counting)
        then show ?thesis using advances_trans [OF advances_clock [OF clock]] res Inr False run Runner_Raised clock
          by (simp add: run_slot_def Let_def on_store_def sbind_def)
      qed (use res Inr False run in \<open>simp add: run_slot_def Let_def on_store_def sbind_def\<close>)
      then show ?thesis using advances_trans [OF s2] by blast
    qed
  qed
qed

lemma advances_tick:
  assumes "shared_store cfg"
  shows "advances cfg s (fst (tick cfg s now))"
proof -
  have "advances cfg s2 (fst (sbind (mark_missed cfg s2 d x now) (\<lambda>s3 _. (s3, Inr False :: scheduler_error + bool))))" for s2 d x
    by (rule advances_sbind [OF advances_mark_missed]) simp
  then have "advances cfg s1 (fst (sbind (mark_all_missed cfg s1 d xs now) (\<lambda>s2 _.
      if sd_slot_grace cfg < now - t then sbind (mark_missed cfg s2 d x now) (\<lambda>s3 _. (s3, Inr False)) else run_slot cfg s2 d x now)))" for s1 d xs t x
    using advances_run_slot [OF assms] by (intro advances_sbind [OF advances_mark_all_missed]) simp
  then have "advances cfg s (fst (tick_open cfg s d now))" for d
    unfolding tick_open_def Let_def by (intro advances_sbind [OF advances_reconcile_dangling]) simp
  moreover have "advances cfg s (fst (sbind (mark_session_closed cfg s d now) (\<lambda>s1 _. (s1, Inr False :: scheduler_error + bool))))" for d
    by (rule advances_sbind [OF advances_mark_session_closed]) simp
  ultimately show ?thesis by (simp add: tick_def Let_def split: sum.split)
qed

section \<open>Runs\<close>

text \<open>One turn of the loop: the tick and, when it is not the last, the sleep.\<close>

definition loop_turn :: "scheduler_config \<Rightarrow> scheduler \<Rightarrow> unit scheduler_answer + scheduler" where
  "loop_turn cfg s =
     (case sched_now cfg (bump_summary s (\<lambda>m. m\<lparr>rs_ticks := Suc (rs_ticks m)\<rparr>)) of (now, s1) \<Rightarrow>
        case tick cfg s1 now of
          (s2, Inl SE_Sink) \<Rightarrow> Inl (end_run s2 SC_FAILED_CLOSED, Inr ())
        | (s2, Inl SE_Cancelled) \<Rightarrow> Inl (s2\<lparr>ss_state := SC_STOPPED\<rparr>, Inl SE_Cancelled)
        | (s2, Inl e) \<Rightarrow> Inl (s2, Inl e)
        | (s2, Inr terminal) \<Rightarrow>
            if terminal then Inl (end_run s2 SC_FAILED_CLOSED, Inr ())
            else case sd_sleep cfg (rs_ticks (ss_summary s2)) (ss_store s2) of (store, cancelled) \<Rightarrow>
              let s3 = s2\<lparr>ss_store := store\<rparr>
              in if cancelled then Inl (s3\<lparr>ss_state := SC_STOPPED\<rparr>, Inl SE_Cancelled) else Inr s3)"

lemma loop_turn_case:
  "(case sched_now cfg (bump_summary s (\<lambda>m. m\<lparr>rs_ticks := Suc (rs_ticks m)\<rparr>)) of (now, s1) \<Rightarrow>
      case tick cfg s1 now of
        (s2, Inl SE_Sink) \<Rightarrow> Some (end_run s2 SC_FAILED_CLOSED, Inr ())
      | (s2, Inl SE_Cancelled) \<Rightarrow> Some (s2\<lparr>ss_state := SC_STOPPED\<rparr>, Inl SE_Cancelled)
      | (s2, Inl e) \<Rightarrow> Some (s2, Inl e)
      | (s2, Inr terminal) \<Rightarrow>
          if terminal then Some (end_run s2 SC_FAILED_CLOSED, Inr ())
          else case sd_sleep cfg (rs_ticks (ss_summary s2)) (ss_store s2) of (store, cancelled) \<Rightarrow>
            let s3 = s2\<lparr>ss_store := store\<rparr>
            in if cancelled then Some (s3\<lparr>ss_state := SC_STOPPED\<rparr>, Inl SE_Cancelled) else f s3) =
   (case loop_turn cfg s of Inl r \<Rightarrow> Some r | Inr s' \<Rightarrow> f s')"
  by (simp add: loop_turn_def case_prod_unfold Let_def split: sum.split scheduler_error.split)

lemma scheduler_loop_turn:
  "scheduler_loop cfg s =
     (if (\<exists>n \<in> set_option (sd_max_ticks cfg). n \<le> rs_ticks (ss_summary s)) then Some (end_run s SC_STOPPED, Inr ())
      else case loop_turn cfg s of Inl r \<Rightarrow> Some r | Inr s' \<Rightarrow> scheduler_loop cfg s')"
  by (subst scheduler_loop.simps) (simp only: loop_turn_case)

lemma loop_turn_grows:
  assumes "shared_store cfg"
  shows "case loop_turn cfg s of
      Inl (s', ans) \<Rightarrow> grows cfg s s' \<and> rs_ticks (ss_summary s') = Suc (rs_ticks (ss_summary s)) \<and>
        (ans = Inr () \<longrightarrow> rs_final_state (ss_summary s') = SC_FAILED_CLOSED \<and> ss_state s' = SC_FAILED_CLOSED)
    | Inr s' \<Rightarrow> grows cfg s s' \<and> rs_ticks (ss_summary s') = Suc (rs_ticks (ss_summary s))"
proof -
  define s1 now where "s1 = snd (sched_now cfg (bump_summary s (\<lambda>m. m\<lparr>rs_ticks := Suc (rs_ticks m)\<rparr>)))"
    and "now = fst (sched_now cfg (bump_summary s (\<lambda>m. m\<lparr>rs_ticks := Suc (rs_ticks m)\<rparr>)))"
  have clock: "sched_now cfg (bump_summary s (\<lambda>m. m\<lparr>rs_ticks := Suc (rs_ticks m)\<rparr>)) = (now, s1)"
    by (simp add: s1_def now_def)
  have "grows cfg s s1" by (rule grows_plain) (auto simp: s1_def sched_now_def bump_summary_def counting)
  moreover obtain s2 a where t: "tick cfg s1 now = (s2, a)" by fastforce
  ultimately have g: "grows cfg s s2" "rs_ticks (ss_summary s2) = Suc (rs_ticks (ss_summary s))"
    using advances_tick [OF assms, of s1 now] grows_trans
    by (auto simp: advances_def s1_def sched_now_def bump_summary_def)
  have ended: "grows cfg s (end_run s2 st)" "grows cfg s (s2\<lparr>ss_state := st\<rparr>)" for st
    using grows_trans [OF g(1)] grows_plain by (auto simp: end_run_def counting)
  obtain store c where sl: "sd_sleep cfg (rs_ticks (ss_summary s2)) (ss_store s2) = (store, c)" by fastforce
  have "store_reaches (sd_codec cfg) (ss_store s2) store" using assms sl unfolding shared_store_def by (metis fst_conv)
  then have slept: "grows cfg s (s2\<lparr>ss_store := store\<rparr>)" using grows_trans [OF g(1) grows_store] by blast
  then have "grows cfg s (s2\<lparr>ss_store := store, ss_state := SC_STOPPED\<rparr>)"
    using grows_trans [OF slept grows_plain] by auto
  note stopped = this
  show ?thesis
  proof (cases a)
    case (Inl e)
    then show ?thesis using g ended clock t by (cases e) (simp_all add: loop_turn_def, simp_all add: end_run_def)
  next
    case (Inr terminal)
    show ?thesis
    proof (cases terminal)
      case True
      then show ?thesis using Inr g ended(1) [of SC_FAILED_CLOSED] clock t by (simp add: loop_turn_def, simp add: end_run_def)
    next
      case False
      then show ?thesis using Inr g slept stopped clock t sl by (simp add: loop_turn_def Let_def)
    qed
  qed
qed

lemma scheduler_loop_grows:
  assumes "scheduler_loop cfg s = Some r" and "shared_store cfg"
  shows "grows cfg s (fst r)"
proof -
  have "shared_store cfg \<longrightarrow> grows cfg s (fst r)"
  proof (rule scheduler_loop.raw_induct [where P = "\<lambda>cfg s r. shared_store cfg \<longrightarrow> grows cfg s (fst r)", OF _ assms(1)])
    fix f cfg s r
    assume IH: "\<And>cfg s r. f cfg s = Some r \<Longrightarrow> shared_store cfg \<longrightarrow> grows cfg s (fst r)"
      and eq: "(if \<exists>n\<in>set_option (sd_max_ticks cfg). n \<le> rs_ticks (ss_summary s) then Some (end_run s SC_STOPPED, Inr ())
        else case sched_now cfg (bump_summary s (\<lambda>m. m\<lparr>rs_ticks := Suc (rs_ticks m)\<rparr>)) of (now, s1) \<Rightarrow>
          case tick cfg s1 now of
            (s2, Inl SE_Sink) \<Rightarrow> Some (end_run s2 SC_FAILED_CLOSED, Inr ())
          | (s2, Inl SE_Cancelled) \<Rightarrow> Some (s2\<lparr>ss_state := SC_STOPPED\<rparr>, Inl SE_Cancelled)
          | (s2, Inl e) \<Rightarrow> Some (s2, Inl e)
          | (s2, Inr terminal) \<Rightarrow>
              if terminal then Some (end_run s2 SC_FAILED_CLOSED, Inr ())
              else case sd_sleep cfg (rs_ticks (ss_summary s2)) (ss_store s2) of (store, cancelled) \<Rightarrow>
                let s3 = s2\<lparr>ss_store := store\<rparr>
                in if cancelled then Some (s3\<lparr>ss_state := SC_STOPPED\<rparr>, Inl SE_Cancelled) else f cfg s3) = Some r"
    have turn: "(if \<exists>n\<in>set_option (sd_max_ticks cfg). n \<le> rs_ticks (ss_summary s) then Some (end_run s SC_STOPPED, Inr ())
        else case loop_turn cfg s of Inl r \<Rightarrow> Some r | Inr s' \<Rightarrow> f cfg s') = Some r"
      using eq unfolding loop_turn_case .
    show "shared_store cfg \<longrightarrow> grows cfg s (fst r)"
    proof
      assume env: "shared_store cfg"
      have "grows cfg s (end_run s SC_STOPPED)" by (rule grows_plain) (auto simp: end_run_def counting)
      moreover have "grows cfg s (fst r)" if "loop_turn cfg s = Inr s'" "f cfg s' = Some r" for s'
        using loop_turn_grows [OF env, of s] IH [OF that(2)] env grows_trans [of cfg s s' "fst r"] that(1) by simp
      ultimately show "grows cfg s (fst r)"
        using turn loop_turn_grows [OF env, of s] by (auto split: if_splits sum.splits prod.splits)
    qed
  qed
  then show ?thesis using assms(2) by blast
qed

lemma scheduler_loop_ends:
  assumes "shared_store cfg" and "sd_max_ticks cfg = Some n" and "rs_ticks (ss_summary s) \<le> n"
  shows "\<exists>s' ans. scheduler_loop cfg s = Some (s', ans) \<and> rs_ticks (ss_summary s') \<le> n \<and>
    (ans = Inr () \<longrightarrow> ss_state s' = rs_final_state (ss_summary s') \<and>
       (rs_final_state (ss_summary s') = SC_STOPPED \<and> rs_ticks (ss_summary s') = n \<or> rs_final_state (ss_summary s') = SC_FAILED_CLOSED))"
  using assms(3)
proof (induction "n - rs_ticks (ss_summary s)" arbitrary: s rule: less_induct)
  case less
  show ?case
  proof (cases "n \<le> rs_ticks (ss_summary s)")
    case True
    then show ?thesis using less.prems assms(2) by (subst scheduler_loop_turn) (simp add: end_run_def)
  next
    case False
    show ?thesis
    proof (cases "loop_turn cfg s")
      case (Inl r)
      then show ?thesis using False loop_turn_grows [OF assms(1), of s] assms(2)
        by (subst (1) scheduler_loop_turn) (auto split: prod.splits)
    next
      case (Inr s')
      then have "rs_ticks (ss_summary s') = Suc (rs_ticks (ss_summary s))" using loop_turn_grows [OF assms(1), of s] by simp
      moreover have "scheduler_loop cfg s = scheduler_loop cfg s'" using Inr False assms(2) by (subst scheduler_loop_turn) simp
      ultimately show ?thesis using less.hyps [of s'] False by simp
    qed
  qed
qed

lemma run_scheduler_grows:
  assumes "run_scheduler cfg s = Some (s', ans)" and "shared_store cfg"
  shows "grows cfg (s\<lparr>ss_summary := new_summary\<rparr>) s'"
  using scheduler_loop_grows [OF assms(1) [unfolded run_scheduler_def] assms(2)] by simp

text \<open>Processes in turn on one store: each is constructed anew; the log of calls is kept.\<close>

definition restarted :: "scheduler \<Rightarrow> scheduler" where
  "restarted s = s\<lparr>ss_state := SC_RUNNING, ss_last_outcome := None, ss_reads := 0, ss_tokens := 0\<rparr>"

primrec run_in_turn :: "scheduler_config list \<Rightarrow> scheduler \<Rightarrow> scheduler option" where
  "run_in_turn [] s = Some s"
| "run_in_turn (cfg # cfgs) s =
     (case run_scheduler cfg (restarted s) of None \<Rightarrow> None | Some (s', _) \<Rightarrow> run_in_turn cfgs s')"

section \<open>Properties of the scheduler\<close>

text \<open>
  C12. A slot runs at most once. Over any number of scheduler processes run one after the other on one
  store, each with its own slots, clock, calendar and runner and with other users of the store in
  between, the runner is called only for slots that the journal did not know, and never twice for the
  same market, date and slot; the store keeps its invariants and only evolves.
\<close>

theorem slot_runs_once:
  assumes "run_in_turn cfgs s = Some s'" and "\<forall>cfg \<in> set cfgs. shared_store cfg" and "store_wf (ss_store s)"
  shows "store_wf (ss_store s') \<and> store_evolves (ss_store s) (ss_store s') \<and>
    (\<exists>new. ss_calls s' = ss_calls s @ new \<and> distinct new \<and>
       (\<forall>k \<in> set new. slot_get (ss_store s) k = None \<and> slot_get (ss_store s') k \<noteq> None))"
proof -
  have "store_wf (ss_store s') \<and> store_evolves (ss_store s) (ss_store s') \<and> new_calls s s'"
    using assms
  proof (induction cfgs arbitrary: s)
    case (Cons cfg cfgs)
    obtain s1 ans where run: "run_scheduler cfg (restarted s) = Some (s1, ans)" "run_in_turn cfgs s1 = Some s'"
      using Cons.prems(1) by (auto split: option.splits)
    have g: "store_wf (ss_store s1)" "store_evolves (ss_store s) (ss_store s1)" "new_calls s s1"
      using run_scheduler_grows [OF run(1)] Cons.prems(2,3) by (auto simp: grows_def restarted_def new_calls_def)
    then show ?case using Cons.IH [OF run(2)] Cons.prems(2) store_evolves_trans new_calls_trans by (metis list.set_intros(2))
  qed (simp add: new_calls_def)
  then show ?thesis unfolding new_calls_def .
qed

context market_calendar
begin

lemma ran_in_session:
  assumes "evidence_ok cfg s e" and "re_outcome e = RF_RAN" and "sd_session_at cfg = session_at"
  shows "is_trading_day (sd_market cfg) (local_date tz (re_at e))"
  using assms open_on_trading_day unfolding evidence_ok_def by metis

end



text \<open>The fixture: one slot, ten microseconds into a day that is open for a millisecond, two ticks.\<close>

definition refresh_schedule :: explicit_schedule where
  "refresh_schedule = \<lparr>xs_timezone = (\<lambda>_. 0),
     xs_schedule = [0 \<mapsto> \<lparr>sw_pre_open = 0, sw_open = 0, sw_close = 1000, sw_post_close_end = 2000\<rparr>], xs_weekend_weekdays = WEEKEND\<rparr>"

definition refresh_config :: scheduler_config where
  "refresh_config =
     \<lparr>sd_market = KR, sd_session_at = schedule_session_at refresh_schedule,
      sd_is_trading_day = (\<lambda>m d. Inr (schedule_is_trading_day refresh_schedule m d)),
      sd_runner = (\<lambda>_ _ s. (s, Runner_Candidate example_candidate)), sd_codec = example_codec,
      sd_slots = [\<lparr>sf_slot_id = ''am'', sf_at = 10\<rparr>], sd_timezone = (\<lambda>_. 0),
      sd_localize = (\<lambda>d t. d * 86400000000 + t), sd_clock = (\<lambda>_. 20), sd_sleep = (\<lambda>_ s. (s, False)),
      sd_poll_interval = 1, sd_slot_grace = 100, sd_slot_lease = 1000, sd_owner_id = ''owner'',
      sd_tokens = (\<lambda>_. ''token''), sd_max_ticks = Some 2, sd_on_evidence = None\<rparr>"

definition refresh_start :: scheduler where
  "refresh_start = \<lparr>ss_store = empty_store, ss_summary = new_summary, ss_state = SC_RUNNING, ss_last_outcome = None,
     ss_reads = 0, ss_tokens = 0, ss_calls = []\<rparr>"

lemma refresh_config_facts:
  "shared_store refresh_config" "sd_max_ticks refresh_config = Some 2" "sd_session_at refresh_config = schedule_session_at refresh_schedule"
  by (simp_all add: refresh_config_def shared_store_def reaches_refl)

lemma refresh_start_facts: "store_wf (ss_store refresh_start)" "ss_calls refresh_start = []"
  by (simp_all add: refresh_start_def empty_store_wf)

lemma refresh_run: "\<exists>s' ans. run_scheduler refresh_config s = Some (s', ans)"
  using scheduler_loop_ends [OF refresh_config_facts(1,2), of "s\<lparr>ss_summary := new_summary\<rparr>"]
  by (auto simp: run_scheduler_def new_summary_def)

theorem slot_runs_once_witness:
  "\<exists>s'. run_in_turn [refresh_config, refresh_config] refresh_start = Some s' \<and> distinct (ss_calls s')"
proof -
  obtain s1 a where r1: "run_scheduler refresh_config (restarted refresh_start) = Some (s1, a)" using refresh_run by blast
  obtain s2 b where r2: "run_scheduler refresh_config (restarted s1) = Some (s2, b)" using refresh_run by blast
  have run: "run_in_turn [refresh_config, refresh_config] refresh_start = Some s2" by (simp add: r1 r2)
  from slot_runs_once [OF this _ refresh_start_facts(1)] refresh_config_facts(1) have "distinct (ss_calls s2)"
    by (auto simp: refresh_start_facts(2))
  with run show ?thesis by blast
qed



end
