(* ===== verification/Emergency.thy ===== *)
theory Emergency
  imports Decisions Rolling_Window "HOL-Library.Sublist"
begin

text \<open>
  Emergency triggers: \<^verbatim>\<open>src/src/emergency/\<close>. The payload model, the four loss and
  concentration detectors, the cooldowns, the drawdown kill switch with its liquidation plan, the
  event store and the scout context. A datetime is an instant with the offset of its zone, because
  the kill switch compares local calendar days. The metadata of a payload holds texts; the text of
  a decimal is represented by the decimal. The JSON encoding of the event store and the hash of the
  canonical form are not modelled; the store is the list of its events in write order.
\<close>

section \<open>Models\<close>

record aware =
  aw_instant :: instant
  aw_offset :: int

definition aware_date :: "aware \<Rightarrow> int" where
  "aware_date d = (aw_instant d + aw_offset d) div 86400000000"

datatype emergency_trigger_type = ET_STOCK_DROP | ET_INDEX_CRASH | ET_PORTFOLIO_LOSS | ET_PROFIT_RUN | ET_MDD_KILLSWITCH
datatype emergency_trigger_severity = ES_LOW | ES_MEDIUM | ES_HIGH | ES_CRITICAL
datatype emergency_trigger_status = EX_DETECTED | EX_SUPPRESSED_BY_COOLDOWN | EX_PLANNED | EX_NOOP
datatype mdd_stage = LEVEL_1 | LEVEL_2 | LEVEL_3

definition STOCK_DROP_THRESHOLD_PERCENT :: decimal where "STOCK_DROP_THRESHOLD_PERCENT = -3"
definition INDEX_CRASH_THRESHOLD_PERCENT :: decimal where "INDEX_CRASH_THRESHOLD_PERCENT = -3/2"
definition PORTFOLIO_LOSS_THRESHOLD_PERCENT :: decimal where "PORTFOLIO_LOSS_THRESHOLD_PERCENT = -2"
definition PROFIT_RUN_STAGE_1_PERCENT :: decimal where "PROFIT_RUN_STAGE_1_PERCENT = 10"
definition PROFIT_RUN_STAGE_2_PERCENT :: decimal where "PROFIT_RUN_STAGE_2_PERCENT = 15"
definition PROFIT_RUN_STAGE_3_PERCENT :: decimal where "PROFIT_RUN_STAGE_3_PERCENT = 20"
definition MDD_LEVEL_1_THRESHOLD_PERCENT :: decimal where "MDD_LEVEL_1_THRESHOLD_PERCENT = -10"
definition MDD_LEVEL_2_THRESHOLD_PERCENT :: decimal where "MDD_LEVEL_2_THRESHOLD_PERCENT = -15"
definition MDD_LEVEL_3_THRESHOLD_PERCENT :: decimal where "MDD_LEVEL_3_THRESHOLD_PERCENT = -20"
definition MDD_LEVEL_1_TO_2_COOLDOWN :: int where "MDD_LEVEL_1_TO_2_COOLDOWN = 4 * 3600000000"

lemmas threshold_defs = STOCK_DROP_THRESHOLD_PERCENT_def INDEX_CRASH_THRESHOLD_PERCENT_def
  PORTFOLIO_LOSS_THRESHOLD_PERCENT_def PROFIT_RUN_STAGE_1_PERCENT_def PROFIT_RUN_STAGE_2_PERCENT_def
  PROFIT_RUN_STAGE_3_PERCENT_def MDD_LEVEL_1_THRESHOLD_PERCENT_def MDD_LEVEL_2_THRESHOLD_PERCENT_def
  MDD_LEVEL_3_THRESHOLD_PERCENT_def MDD_LEVEL_1_TO_2_COOLDOWN_def

fun trigger_type_str :: "emergency_trigger_type \<Rightarrow> string" where
  "trigger_type_str ET_STOCK_DROP = ''STOCK_DROP''"
| "trigger_type_str ET_INDEX_CRASH = ''INDEX_CRASH''"
| "trigger_type_str ET_PORTFOLIO_LOSS = ''PORTFOLIO_LOSS''"
| "trigger_type_str ET_PROFIT_RUN = ''PROFIT_RUN''"
| "trigger_type_str ET_MDD_KILLSWITCH = ''MDD_KILLSWITCH''"

fun mdd_stage_str :: "mdd_stage \<Rightarrow> string" where
  "mdd_stage_str LEVEL_1 = ''LEVEL_1''" | "mdd_stage_str LEVEL_2 = ''LEVEL_2''" | "mdd_stage_str LEVEL_3 = ''LEVEL_3''"

fun mdd_stage_lower :: "mdd_stage \<Rightarrow> string" where
  "mdd_stage_lower LEVEL_1 = ''level_1''" | "mdd_stage_lower LEVEL_2 = ''level_2''" | "mdd_stage_lower LEVEL_3 = ''level_3''"

definition mdd_stage_of_str :: "string \<Rightarrow> mdd_stage result" where
  "mdd_stage_of_str s =
     (if s = ''LEVEL_1'' then Inr LEVEL_1 else if s = ''LEVEL_2'' then Inr LEVEL_2
      else if s = ''LEVEL_3'' then Inr LEVEL_3 else Inl (ValueError ''is not a valid MddStage''))"

fun trigger_priority_rank :: "emergency_trigger_type \<Rightarrow> nat" where
  "trigger_priority_rank ET_MDD_KILLSWITCH = 0"
| "trigger_priority_rank ET_PORTFOLIO_LOSS = 1"
| "trigger_priority_rank ET_INDEX_CRASH = 2"
| "trigger_priority_rank ET_STOCK_DROP = 3"
| "trigger_priority_rank ET_PROFIT_RUN = 4"

definition build_cooldown_key :: "emergency_trigger_type \<Rightarrow> market option \<Rightarrow> string option \<Rightarrow> string" where
  "build_cooldown_key ty m s =
     trigger_type_str ty @ '':'' @ (case m of Some x \<Rightarrow> market_str x | None \<Rightarrow> ''*'') @ '':'' @
     (case s of Some x \<Rightarrow> x | None \<Rightarrow> ''*'')"

definition mdd_stage_for_percent :: "decimal \<Rightarrow> mdd_stage option" where
  "mdd_stage_for_percent mdd_percent =
     (if mdd_percent \<le> MDD_LEVEL_3_THRESHOLD_PERCENT then Some LEVEL_3
      else if mdd_percent \<le> MDD_LEVEL_2_THRESHOLD_PERCENT then Some LEVEL_2
      else if mdd_percent \<le> MDD_LEVEL_1_THRESHOLD_PERCENT then Some LEVEL_1
      else None)"

fun mdd_target_cash_percent :: "mdd_stage \<Rightarrow> decimal" where
  "mdd_target_cash_percent LEVEL_1 = 50" | "mdd_target_cash_percent LEVEL_2 = 80" | "mdd_target_cash_percent LEVEL_3 = 95"

fun mdd_reason_code :: "mdd_stage \<Rightarrow> string" where
  "mdd_reason_code LEVEL_1 = ''MDD_LEVEL_1_TRIGGERED''"
| "mdd_reason_code LEVEL_2 = ''MDD_LEVEL_2_TRIGGERED''"
| "mdd_reason_code LEVEL_3 = ''MDD_LEVEL_3_TRIGGERED''"

datatype meta_value = Meta_Text string | Meta_Decimal decimal | Meta_None

record trigger_payload =
  ep_trigger_id :: string
  ep_trigger_type :: emergency_trigger_type
  ep_detected_at :: aware
  ep_market :: "market option"
  ep_symbol :: "string option"
  ep_severity :: emergency_trigger_severity
  ep_status :: emergency_trigger_status
  ep_threshold_percent :: decimal
  ep_observed_percent :: decimal
  ep_scope_symbols :: "string list"
  ep_account_role :: "account_role option"
  ep_execution_mode :: execution_mode
  ep_bypass_llm :: bool
  ep_requires_llm_review :: bool
  ep_requires_recovery_review :: bool
  ep_below_invested_min :: bool
  ep_below_min_reason :: "string option"
  ep_cooldown_key :: string
  ep_metadata :: "(string \<times> meta_value) list"

definition validate_trigger_payload :: "trigger_payload \<Rightarrow> trigger_payload result" where
  "validate_trigger_payload t =
     (let fail = (\<lambda>msg. Inl (ValueError msg))
      in if ep_trigger_type t = ET_MDD_KILLSWITCH \<and> ep_execution_mode t \<noteq> EM_MDD_KILLSWITCH
         then fail ''MDD_KILLSWITCH requires execution_mode=MDD_KILLSWITCH.''
         else if ep_trigger_type t = ET_MDD_KILLSWITCH \<and> \<not> ep_bypass_llm t
         then fail ''MDD_KILLSWITCH requires bypass_llm=True.''
         else if ep_trigger_type t = ET_MDD_KILLSWITCH \<and> ep_requires_llm_review t
         then fail ''MDD_KILLSWITCH requires requires_llm_review=False.''
         else if ep_trigger_type t \<noteq> ET_MDD_KILLSWITCH \<and> ep_execution_mode t \<noteq> EM_EMERGENCY_TRIGGER
         then fail ''requires execution_mode=EMERGENCY_TRIGGER.''
         else if ep_trigger_type t \<noteq> ET_MDD_KILLSWITCH \<and> ep_bypass_llm t
         then fail ''requires bypass_llm=False.''
         else if ep_trigger_type t \<in> {ET_STOCK_DROP, ET_INDEX_CRASH, ET_PORTFOLIO_LOSS} \<and> \<not> ep_requires_llm_review t
         then fail ''requires requires_llm_review=True.''
         else if ep_below_invested_min t \<and> ep_below_min_reason t \<in> {None, Some ''''}
         then fail ''below_invested_min=True requires below_min_reason.''
         else Inr t)"

definition mk_TriggerPayload :: "trigger_payload \<Rightarrow> trigger_payload result" where
  "mk_TriggerPayload t =
     rbind (normalize_required_string (ep_trigger_id t)) (\<lambda>tid.
     rbind (case ep_symbol t of None \<Rightarrow> Inr None | Some s \<Rightarrow> rbind (normalize_required_string s) (\<lambda>s. Inr (Some s))) (\<lambda>s.
     rbind (traverse normalize_required_string (ep_scope_symbols t)) (\<lambda>scope.
     rbind (normalize_required_string (ep_cooldown_key t)) (\<lambda>key.
     validate_trigger_payload
       (t\<lparr>ep_trigger_id := tid, ep_symbol := s, ep_scope_symbols := scope, ep_cooldown_key := key\<rparr>)))))"

section \<open>Detectors\<close>

record held_stock_snapshot =
  hh_symbol :: string
  hh_market :: market
  hh_sector :: "string option"
  hh_account_role :: account_role
  hh_quantity :: decimal
  hh_previous_close :: decimal
  hh_current_price :: decimal
  hh_market_value :: decimal
  hh_same_sector_symbols :: "string list"

record index_snapshot =
  ix_market :: market
  ix_index_symbol :: string
  ix_index_name :: string
  ix_previous_close :: decimal
  ix_current_value :: decimal
  ix_affected_holdings :: "string list"

record loss_contributor =
  lc_symbol :: string
  lc_loss_contribution :: decimal

record loss_snapshot =
  lo_previous_total_nav :: decimal
  lo_current_total_nav :: decimal
  lo_loss_contributors :: "loss_contributor list"
  lo_account_role :: "account_role option"

record profit_run_snapshot =
  pr_symbol :: string
  pr_market :: market
  pr_account_role :: account_role
  pr_current_market_weight_percent :: decimal

definition return_percent :: "decimal \<Rightarrow> decimal \<Rightarrow> decimal" where
  "return_percent previous current = dmul (ddiv (dsub current previous) previous) 100"

definition intraday_return_percent :: "decimal \<Rightarrow> decimal \<Rightarrow> decimal result" where
  "intraday_return_percent previous_close current_value =
     (if previous_close \<le> 0 then Inl (ValueError ''previous_close must be greater than 0.'')
      else Inr (return_percent previous_close current_value))"

definition profit_run_stage ::
  "decimal \<Rightarrow> (decimal \<times> emergency_trigger_severity \<times> bool \<times> emergency_trigger_status) option" where
  "profit_run_stage weight =
     (if PROFIT_RUN_STAGE_3_PERCENT \<le> weight then Some (PROFIT_RUN_STAGE_3_PERCENT, ES_HIGH, True, EX_DETECTED)
      else if PROFIT_RUN_STAGE_2_PERCENT \<le> weight then Some (PROFIT_RUN_STAGE_2_PERCENT, ES_MEDIUM, True, EX_DETECTED)
      else if PROFIT_RUN_STAGE_1_PERCENT \<le> weight then Some (PROFIT_RUN_STAGE_1_PERCENT, ES_LOW, False, EX_NOOP)
      else None)"

text \<open>\<^verbatim>\<open>tuple(dict.fromkeys(xs))\<close>: the elements in order of their first occurrence.\<close>

definition from_keys :: "'a list \<Rightarrow> 'a list" where
  "from_keys xs = rev (remdups (rev xs))"

definition some_payload :: "trigger_payload result \<Rightarrow> trigger_payload option result" where
  "some_payload r = rbind r (\<lambda>t. Inr (Some t))"

definition detect_stock_drop :: "held_stock_snapshot \<Rightarrow> aware \<Rightarrow> string \<Rightarrow> trigger_payload option result" where
  "detect_stock_drop snap detected_at trigger_id =
     (if hh_quantity snap \<le> 0 then Inr None
      else rbind (intraday_return_percent (hh_previous_close snap) (hh_current_price snap)) (\<lambda>observed_pct.
        if STOCK_DROP_THRESHOLD_PERCENT < observed_pct then Inr None
        else some_payload (mk_TriggerPayload
          \<lparr>ep_trigger_id = trigger_id, ep_trigger_type = ET_STOCK_DROP, ep_detected_at = detected_at,
           ep_market = Some (hh_market snap), ep_symbol = Some (hh_symbol snap), ep_severity = ES_HIGH,
           ep_status = EX_DETECTED, ep_threshold_percent = STOCK_DROP_THRESHOLD_PERCENT,
           ep_observed_percent = observed_pct,
           ep_scope_symbols = from_keys (hh_symbol snap # hh_same_sector_symbols snap),
           ep_account_role = Some (hh_account_role snap), ep_execution_mode = EM_EMERGENCY_TRIGGER,
           ep_bypass_llm = False, ep_requires_llm_review = True, ep_requires_recovery_review = True,
           ep_below_invested_min = False, ep_below_min_reason = None,
           ep_cooldown_key = build_cooldown_key ET_STOCK_DROP (Some (hh_market snap)) (Some (hh_symbol snap)),
           ep_metadata = [(''sector'', case hh_sector snap of Some s \<Rightarrow> Meta_Text s | None \<Rightarrow> Meta_None)]\<rparr>)))"

definition detect_index_crash ::
  "index_snapshot \<Rightarrow> aware \<Rightarrow> string \<Rightarrow> account_role option \<Rightarrow> trigger_payload option result" where
  "detect_index_crash snap detected_at trigger_id role =
     rbind (intraday_return_percent (ix_previous_close snap) (ix_current_value snap)) (\<lambda>observed_pct.
     if INDEX_CRASH_THRESHOLD_PERCENT < observed_pct then Inr None
     else some_payload (mk_TriggerPayload
       \<lparr>ep_trigger_id = trigger_id, ep_trigger_type = ET_INDEX_CRASH, ep_detected_at = detected_at,
        ep_market = Some (ix_market snap), ep_symbol = Some (ix_index_symbol snap), ep_severity = ES_HIGH,
        ep_status = EX_DETECTED, ep_threshold_percent = INDEX_CRASH_THRESHOLD_PERCENT,
        ep_observed_percent = observed_pct, ep_scope_symbols = ix_affected_holdings snap,
        ep_account_role = role, ep_execution_mode = EM_EMERGENCY_TRIGGER,
        ep_bypass_llm = False, ep_requires_llm_review = True, ep_requires_recovery_review = True,
        ep_below_invested_min = False, ep_below_min_reason = None,
        ep_cooldown_key = build_cooldown_key ET_INDEX_CRASH (Some (ix_market snap)) None,
        ep_metadata = [(''index_name'', Meta_Text (ix_index_name snap))]\<rparr>))"

definition select_top_loss_contributors :: "loss_contributor list \<Rightarrow> nat \<Rightarrow> string list" where
  "select_top_loss_contributors contributors limit =
     map lc_symbol (take limit (sort_key (\<lambda>c. (lc_loss_contribution c, lc_symbol c))
       (filter (\<lambda>c. lc_loss_contribution c < 0) contributors)))"

definition detect_portfolio_loss :: "loss_snapshot \<Rightarrow> aware \<Rightarrow> string \<Rightarrow> trigger_payload option result" where
  "detect_portfolio_loss snap detected_at trigger_id =
     (if lo_previous_total_nav snap \<le> 0 then Inl (ValueError ''previous_total_nav must be greater than 0.'')
      else let observed_pct = return_percent (lo_previous_total_nav snap) (lo_current_total_nav snap)
      in if PORTFOLIO_LOSS_THRESHOLD_PERCENT < observed_pct then Inr None
         else some_payload (mk_TriggerPayload
           \<lparr>ep_trigger_id = trigger_id, ep_trigger_type = ET_PORTFOLIO_LOSS, ep_detected_at = detected_at,
            ep_market = None, ep_symbol = None, ep_severity = ES_HIGH, ep_status = EX_DETECTED,
            ep_threshold_percent = PORTFOLIO_LOSS_THRESHOLD_PERCENT, ep_observed_percent = observed_pct,
            ep_scope_symbols = select_top_loss_contributors (lo_loss_contributors snap) 3,
            ep_account_role = lo_account_role snap, ep_execution_mode = EM_EMERGENCY_TRIGGER,
            ep_bypass_llm = False, ep_requires_llm_review = True, ep_requires_recovery_review = True,
            ep_below_invested_min = False, ep_below_min_reason = None,
            ep_cooldown_key = build_cooldown_key ET_PORTFOLIO_LOSS None None, ep_metadata = []\<rparr>))"

definition detect_profit_run :: "profit_run_snapshot \<Rightarrow> aware \<Rightarrow> string \<Rightarrow> trigger_payload option result" where
  "detect_profit_run snap detected_at trigger_id =
     (case profit_run_stage (pr_current_market_weight_percent snap) of
        None \<Rightarrow> Inr None
      | Some (threshold, sev, requires_llm, st) \<Rightarrow>
          some_payload (mk_TriggerPayload
            \<lparr>ep_trigger_id = trigger_id, ep_trigger_type = ET_PROFIT_RUN, ep_detected_at = detected_at,
             ep_market = Some (pr_market snap), ep_symbol = Some (pr_symbol snap), ep_severity = sev, ep_status = st,
             ep_threshold_percent = threshold, ep_observed_percent = pr_current_market_weight_percent snap,
             ep_scope_symbols = [pr_symbol snap], ep_account_role = Some (pr_account_role snap),
             ep_execution_mode = EM_EMERGENCY_TRIGGER, ep_bypass_llm = False,
             ep_requires_llm_review = requires_llm, ep_requires_recovery_review = requires_llm,
             ep_below_invested_min = False, ep_below_min_reason = None,
             ep_cooldown_key = build_cooldown_key ET_PROFIT_RUN (Some (pr_market snap)) (Some (pr_symbol snap)),
             ep_metadata = [(''profit_run_stage_percent'', Meta_Decimal threshold)]\<rparr>))"

text \<open>The constructors of the detectors' inputs.\<close>

definition mk_HeldStockSnapshot :: "held_stock_snapshot \<Rightarrow> held_stock_snapshot result" where
  "mk_HeldStockSnapshot s = rbind (normalize_required_string (hh_symbol s)) (\<lambda>x. Inr (s\<lparr>hh_symbol := x\<rparr>))"

definition mk_IndexSnapshot :: "index_snapshot \<Rightarrow> index_snapshot result" where
  "mk_IndexSnapshot s =
     rbind (normalize_required_string (ix_index_symbol s)) (\<lambda>x.
     rbind (normalize_required_string (ix_index_name s)) (\<lambda>n.
     rbind (traverse normalize_required_string (ix_affected_holdings s)) (\<lambda>hs.
     Inr (s\<lparr>ix_index_symbol := x, ix_index_name := n, ix_affected_holdings := hs\<rparr>))))"

definition mk_LossContributor :: "loss_contributor \<Rightarrow> loss_contributor result" where
  "mk_LossContributor c = rbind (normalize_required_string (lc_symbol c)) (\<lambda>x. Inr (c\<lparr>lc_symbol := x\<rparr>))"

definition mk_ProfitRunSnapshot :: "profit_run_snapshot \<Rightarrow> profit_run_snapshot result" where
  "mk_ProfitRunSnapshot s = rbind (normalize_required_string (pr_symbol s)) (\<lambda>x. Inr (s\<lparr>pr_symbol := x\<rparr>))"

section \<open>Cooldowns\<close>

record cooldown_decision =
  cd_suppressed :: bool
  cd_elapsed :: "int option"
  cd_cooldown_minutes :: int
  cd_debug_event_code :: "string option"

definition should_suppress_by_cooldown :: "aware \<Rightarrow> aware option \<Rightarrow> int \<Rightarrow> cooldown_decision result" where
  "should_suppress_by_cooldown now last_triggered_at cooldown_minutes =
     (if cooldown_minutes < 0 then Inl (ValueError ''cooldown_minutes must be >= 0.'')
      else case last_triggered_at of
        None \<Rightarrow> Inr \<lparr>cd_suppressed = False, cd_elapsed = None, cd_cooldown_minutes = cooldown_minutes,
                  cd_debug_event_code = None\<rparr>
      | Some t \<Rightarrow>
          let elapsed = aw_instant now - aw_instant t
          in if MAX_TIMEDELTA < cooldown_minutes * 60000000 then Inl (OverflowError ''days=%d; must have magnitude <= 999999999'')
             else if elapsed < cooldown_minutes * 60000000
             then Inr \<lparr>cd_suppressed = True, cd_elapsed = Some elapsed, cd_cooldown_minutes = cooldown_minutes,
                    cd_debug_event_code = Some ''EMERGENCY_TRIGGER_RATE_LIMITED''\<rparr>
             else Inr \<lparr>cd_suppressed = False, cd_elapsed = Some elapsed, cd_cooldown_minutes = cooldown_minutes,
                    cd_debug_event_code = None\<rparr>)"

definition map_cooldown_to_debug_event :: "cooldown_decision \<Rightarrow> emergency_trigger_type \<Rightarrow> string option" where
  "map_cooldown_to_debug_event d ty =
     (if \<not> cd_suppressed d then None
      else case cd_debug_event_code d of
        Some c \<Rightarrow> if c = '''' then Some (if ty = ET_MDD_KILLSWITCH then ''MDD_COOLDOWN_ACTIVE'' else ''EMERGENCY_TRIGGER_RATE_LIMITED'')
                 else Some c
      | None \<Rightarrow> Some (if ty = ET_MDD_KILLSWITCH then ''MDD_COOLDOWN_ACTIVE'' else ''EMERGENCY_TRIGGER_RATE_LIMITED''))"

record mdd_cooldown_event =
  me_stage :: mdd_stage
  me_triggered_at :: aware

record mdd_cooldown_decision =
  md_suppressed :: bool
  md_reason :: "string option"
  md_debug_event_code :: "string option"

definition same_calendar_day :: "aware \<Rightarrow> aware \<Rightarrow> bool" where
  "same_calendar_day left right \<longleftrightarrow> aware_date left = aware_date right"

definition should_suppress_mdd_stage :: "mdd_stage \<Rightarrow> aware \<Rightarrow> mdd_cooldown_event list \<Rightarrow> mdd_cooldown_decision" where
  "should_suppress_mdd_stage stage now prior_events =
     (let suppressed_by = (\<lambda>reason. \<lparr>md_suppressed = True, md_reason = Some reason,
                                md_debug_event_code = Some ''MDD_COOLDOWN_ACTIVE''\<rparr>);
          allowed = \<lparr>md_suppressed = False, md_reason = None, md_debug_event_code = None\<rparr>;
          level_1 = filter (\<lambda>e. me_stage e = LEVEL_1) prior_events
      in if list_ex (\<lambda>e. me_stage e = stage \<and> same_calendar_day (me_triggered_at e) now) prior_events
         then suppressed_by ''same stage already triggered today''
         else if stage = LEVEL_3 then allowed
         else if stage = LEVEL_2 \<and> level_1 \<noteq> [] \<and>
                 aw_instant now - Max (set (map (\<lambda>e. aw_instant (me_triggered_at e)) level_1)) < MDD_LEVEL_1_TO_2_COOLDOWN
         then suppressed_by ''Level 2 within 4 hours of Level 1''
         else allowed)"

section \<open>The drawdown kill switch\<close>

definition compute_mdd_percent :: "decimal \<Rightarrow> decimal \<Rightarrow> decimal result" where
  "compute_mdd_percent current_nav historical_peak_nav =
     (if historical_peak_nav \<le> 0 then Inl (ValueError ''historical_peak_nav must be greater than 0.'')
      else if current_nav \<le> 0 then Inl (ValueError ''current_nav must be greater than 0.'')
      else Inr (return_percent historical_peak_nav current_nav))"

record mdd_state =
  ms_current_nav :: decimal
  ms_historical_peak_nav :: decimal
  ms_mdd_percent :: decimal
  ms_last_triggered_stages :: "mdd_stage list"
  ms_detected_at :: aware
  ms_account_role :: "account_role option"

definition mk_MddState :: "mdd_state \<Rightarrow> mdd_state result" where
  "mk_MddState s =
     rbind (compute_mdd_percent (ms_current_nav s) (ms_historical_peak_nav s)) (\<lambda>expected.
     if ms_mdd_percent s \<noteq> expected then Inl (ValueError ''mdd_percent does not match computed.'') else Inr s)"

fun mdd_severity :: "mdd_stage \<Rightarrow> emergency_trigger_severity" where
  "mdd_severity LEVEL_1 = ES_HIGH" | "mdd_severity LEVEL_2 = ES_HIGH" | "mdd_severity LEVEL_3 = ES_CRITICAL"

fun MDD_STAGE_THRESHOLD :: "mdd_stage \<Rightarrow> decimal" where
  "MDD_STAGE_THRESHOLD LEVEL_1 = MDD_LEVEL_1_THRESHOLD_PERCENT"
| "MDD_STAGE_THRESHOLD LEVEL_2 = MDD_LEVEL_2_THRESHOLD_PERCENT"
| "MDD_STAGE_THRESHOLD LEVEL_3 = MDD_LEVEL_3_THRESHOLD_PERCENT"

definition detect_mdd_killswitch ::
  "mdd_state \<Rightarrow> string \<Rightarrow> mdd_cooldown_event list \<Rightarrow> trigger_payload option result" where
  "detect_mdd_killswitch state trigger_id prior_cooldown_events =
     (case mdd_stage_for_percent (ms_mdd_percent state) of
        None \<Rightarrow> Inr None
      | Some stage \<Rightarrow>
          if md_suppressed (should_suppress_mdd_stage stage (ms_detected_at state) prior_cooldown_events) then Inr None
          else some_payload (mk_TriggerPayload
            \<lparr>ep_trigger_id = trigger_id, ep_trigger_type = ET_MDD_KILLSWITCH, ep_detected_at = ms_detected_at state,
             ep_market = None, ep_symbol = None, ep_severity = mdd_severity stage, ep_status = EX_DETECTED,
             ep_threshold_percent = MDD_STAGE_THRESHOLD stage, ep_observed_percent = ms_mdd_percent state,
             ep_scope_symbols = [], ep_account_role = ms_account_role state, ep_execution_mode = EM_MDD_KILLSWITCH,
             ep_bypass_llm = True, ep_requires_llm_review = False, ep_requires_recovery_review = (stage \<noteq> LEVEL_3),
             ep_below_invested_min = True, ep_below_min_reason = Some ''MDD_KILLSWITCH'',
             ep_cooldown_key = build_cooldown_key ET_MDD_KILLSWITCH None None,
             ep_metadata = [(''mdd_stage'', Meta_Text (mdd_stage_str stage)),
               (''target_cash_percent'', Meta_Decimal (mdd_target_cash_percent stage)),
               (''historical_peak_nav'', Meta_Decimal (ms_historical_peak_nav state))]\<rparr>))"

section \<open>The liquidation plan\<close>

record mdd_position =
  lp_symbol :: string
  lp_market :: market
  lp_asset_class :: asset_class
  lp_account_role :: account_role
  lp_quantity :: decimal
  lp_market_value :: decimal
  lp_pnl_vs_cost :: decimal
  lp_is_suspended :: bool
  lp_is_unfillable :: bool

definition mk_MddLiquidationPosition :: "mdd_position \<Rightarrow> mdd_position result" where
  "mk_MddLiquidationPosition p = rbind (normalize_required_string (lp_symbol p)) (\<lambda>x. Inr (p\<lparr>lp_symbol := x\<rparr>))"

definition is_excluded :: "mdd_position \<Rightarrow> bool" where
  "is_excluded p \<longleftrightarrow> lp_is_suspended p \<or> lp_is_unfillable p \<or> lp_quantity p \<le> 0"

record mdd_plan =
  dp_trigger_payload :: trigger_payload
  dp_target_cash_percent :: decimal
  dp_current_cash_percent :: decimal
  dp_cash_to_raise :: decimal
  dp_candidate_order_intents :: "order_intent list"
  dp_excluded_symbols :: "string list"
  dp_requires_recovery_review :: bool
  dp_below_invested_min :: bool
  dp_below_min_reason :: "string option"
  dp_halt_required :: bool

text \<open>\<^verbatim>\<open>Decimal.quantize(Decimal("0.0001"))\<close>, which raises when the result needs too many digits.\<close>

definition quantize_4 :: "decimal \<Rightarrow> decimal result" where
  "quantize_4 x =
     (let n = round_half_even (x * 10000)
      in if 10 ^ PREC \<le> \<bar>n\<bar> then Inl (InvalidOperation ''quantize'') else Inr (of_int n / 10000))"

text \<open>The variables that \<^verbatim>\<open>_append_sell\<close> updates.\<close>

record sell_state =
  ss_intents :: "order_intent list"
  ss_raised :: decimal
  ss_index :: nat

definition mdd_intent :: "mdd_stage \<Rightarrow> trigger_payload \<Rightarrow> string \<Rightarrow> mdd_position \<Rightarrow> decimal \<Rightarrow> nat \<Rightarrow> order_intent" where
  "mdd_intent stage t correlation_id p quantity n =
     \<lparr>oi_order_id = ''mdd-'' @ mdd_stage_lower stage @ ''-'' @ lp_symbol p @ ''-'' @ digits_of_nat n,
      oi_correlation_id = correlation_id, oi_symbol = lp_symbol p, oi_market = lp_market p,
      oi_asset_class = lp_asset_class p, oi_account_role = lp_account_role p, oi_side = SELL, oi_order_type = MARKET,
      oi_execution_mode = EM_MDD_KILLSWITCH, oi_time_in_force = DAY, oi_quantity = Some quantity,
      oi_target_weight_percent = None, oi_limit_price = None, oi_reason_code = Some (mdd_reason_code stage),
      oi_source_decision_id = Some (ep_trigger_id t), oi_created_at = aw_instant (ep_detected_at t)\<rparr>"

definition append_sell ::
  "mdd_stage \<Rightarrow> trigger_payload \<Rightarrow> string \<Rightarrow> sell_state \<Rightarrow> mdd_position \<Rightarrow> decimal \<Rightarrow> sell_state result" where
  "append_sell stage t correlation_id st p quantity =
     (if quantity \<le> 0 then Inr st
      else rbind (mk_OrderIntent (mdd_intent stage t correlation_id p quantity (ss_index st + 1))) (\<lambda>i.
        let unit_value = (if 0 < lp_quantity p then ddiv (lp_market_value p) (lp_quantity p) else 0)
        in Inr \<lparr>ss_intents = ss_intents st @ [i], ss_raised = dadd (ss_raised st) (dmul quantity unit_value),
                ss_index = ss_index st + 1\<rparr>))"

text \<open>The two loops. The state is the mutable variables with the amount still to raise.\<close>

fun sell_losses ::
  "mdd_stage \<Rightarrow> trigger_payload \<Rightarrow> string \<Rightarrow> decimal \<Rightarrow> mdd_position list \<Rightarrow> sell_state \<times> decimal \<Rightarrow>
   (sell_state \<times> decimal) result" where
  "sell_losses stage t cid cash_to_raise [] (st, remaining) = Inr (st, remaining)"
| "sell_losses stage t cid cash_to_raise (p # ps) (st, remaining) =
     (if remaining \<le> 0 then Inr (st, remaining)
      else rbind (append_sell stage t cid st p (lp_quantity p)) (\<lambda>st'.
        sell_losses stage t cid cash_to_raise ps (st', dsub cash_to_raise (ss_raised st'))))"

definition profit_quantity :: "decimal \<Rightarrow> decimal \<Rightarrow> mdd_position \<Rightarrow> decimal option result" where
  "profit_quantity remaining total_profit p =
     (let proportion = ddiv (lp_market_value p) total_profit;
          sell_value = min (dmul remaining proportion) (lp_market_value p)
      in if lp_quantity p \<le> 0 then Inr None
         else let unit_value = ddiv (lp_market_value p) (lp_quantity p)
         in if unit_value \<le> 0 then Inr None
            else rbind (quantize_4 (ddiv sell_value unit_value)) (\<lambda>q. Inr (Some (min (lp_quantity p) q))))"

fun sell_profits ::
  "mdd_stage \<Rightarrow> trigger_payload \<Rightarrow> string \<Rightarrow> decimal \<Rightarrow> decimal \<Rightarrow> decimal \<Rightarrow> mdd_position list \<Rightarrow> sell_state \<times> decimal \<Rightarrow>
   (sell_state \<times> decimal) result" where
  "sell_profits stage t cid cash_to_raise tolerance total_profit [] (st, remaining) = Inr (st, remaining)"
| "sell_profits stage t cid cash_to_raise tolerance total_profit (p # ps) (st, remaining) =
     (if remaining \<le> tolerance then Inr (st, remaining)
      else rbind (profit_quantity remaining total_profit p) (\<lambda>quantity.
        case quantity of
          None \<Rightarrow> sell_profits stage t cid cash_to_raise tolerance total_profit ps (st, remaining)
        | Some q \<Rightarrow>
            rbind (append_sell stage t cid st p q) (\<lambda>st'.
              sell_profits stage t cid cash_to_raise tolerance total_profit ps (st', dsub cash_to_raise (ss_raised st')))))"

definition loss_order :: "mdd_position list \<Rightarrow> mdd_position list" where
  "loss_order ps = sort_key (\<lambda>p. (lp_pnl_vs_cost p, lp_symbol p))
     (filter (\<lambda>p. lp_pnl_vs_cost p < 0) (filter (\<lambda>p. \<not> is_excluded p) ps))"

definition profit_order :: "mdd_position list \<Rightarrow> mdd_position list" where
  "profit_order ps = sort_key lp_symbol (filter (\<lambda>p. 0 \<le> lp_pnl_vs_cost p) (filter (\<lambda>p. \<not> is_excluded p) ps))"

definition mdd_stage_of_payload :: "trigger_payload \<Rightarrow> mdd_stage result" where
  "mdd_stage_of_payload t =
     (case map_of (ep_metadata t) ''mdd_stage'' of
        Some (Meta_Text s) \<Rightarrow>
          if s = '''' then Inl (ValueError ''trigger_payload.metadata must include mdd_stage.'') else mdd_stage_of_str s
      | Some (Meta_Decimal _) \<Rightarrow> Inl (ValueError ''is not a valid MddStage'')
      | _ \<Rightarrow> Inl (ValueError ''trigger_payload.metadata must include mdd_stage.''))"

definition build_mdd_liquidation_plan ::
  "trigger_payload \<Rightarrow> decimal \<Rightarrow> decimal \<Rightarrow> mdd_position list \<Rightarrow> string \<Rightarrow> mdd_plan result" where
  "build_mdd_liquidation_plan t current_cash total_nav positions cid =
     (if ep_trigger_type t \<noteq> ET_MDD_KILLSWITCH
      then Inl (ValueError ''build_mdd_liquidation_plan requires MDD_KILLSWITCH trigger.'')
      else rbind (mdd_stage_of_payload t) (\<lambda>stage.
        if total_nav \<le> 0 then Inl (ValueError ''total_nav must be greater than 0.'')
        else
          let target = mdd_target_cash_percent stage;
              current_cash_percent = dmul (ddiv current_cash total_nav) 100;
              target_cash_amount = ddiv (dmul total_nav target) 100;
              cash_to_raise = max 0 (dsub target_cash_amount current_cash);
              profits = profit_order positions;
              tolerance = dmul total_nav (3 / 100);
              total_profit = foldl dadd 0 (map lp_market_value profits)
          in rbind (sell_losses stage t cid cash_to_raise (loss_order positions)
                 (\<lparr>ss_intents = [], ss_raised = 0, ss_index = 0\<rparr>, cash_to_raise)) (\<lambda>(st, remaining).
             rbind (if tolerance < remaining \<and> profits \<noteq> [] \<and> 0 < total_profit
                    then sell_profits stage t cid cash_to_raise tolerance total_profit profits (st, remaining)
                    else Inr (st, remaining)) (\<lambda>(st, remaining).
             Inr \<lparr>dp_trigger_payload = t, dp_target_cash_percent = target, dp_current_cash_percent = current_cash_percent,
                  dp_cash_to_raise = cash_to_raise, dp_candidate_order_intents = ss_intents st,
                  dp_excluded_symbols = map lp_symbol (filter is_excluded positions),
                  dp_requires_recovery_review = (stage \<noteq> LEVEL_3), dp_below_invested_min = True,
                  dp_below_min_reason = Some ''MDD_KILLSWITCH'', dp_halt_required = (stage = LEVEL_3)\<rparr>))))"

section \<open>Events and the scout context\<close>

record emergency_event =
  ev_event_id :: string
  ev_payload :: trigger_payload
  ev_created_at :: aware
  ev_suppressed_reason :: "string option"
  ev_related_debug_event_code :: "string option"
  ev_related_daily_summary_id :: "string option"

definition mk_EmergencyTriggerEvent :: "emergency_event \<Rightarrow> emergency_event result" where
  "mk_EmergencyTriggerEvent e = rbind (normalize_required_string (ev_event_id e)) (\<lambda>x. Inr (e\<lparr>ev_event_id := x\<rparr>))"

definition event_get :: "emergency_event list \<Rightarrow> string \<Rightarrow> emergency_event option" where
  "event_get es k = find (\<lambda>e. ev_event_id e = k) es"

definition event_save :: "emergency_event list \<Rightarrow> emergency_event \<Rightarrow> emergency_event list result" where
  "event_save es e =
     (if event_get es (ev_event_id e) \<noteq> None then Inl (ValueError ''duplicate event_id'') else Inr (es @ [e]))"

definition list_events ::
  "emergency_event list \<Rightarrow> emergency_trigger_type option \<Rightarrow> market option \<Rightarrow> string option \<Rightarrow>
   emergency_trigger_status option \<Rightarrow> emergency_event list" where
  "list_events es ty m s st =
     filter (\<lambda>e. (ty = None \<or> ty = Some (ep_trigger_type (ev_payload e))) \<and>
                 (m = None \<or> ep_market (ev_payload e) = m) \<and>
                 (s = None \<or> ep_symbol (ev_payload e) = s) \<and>
                 (st = None \<or> st = Some (ep_status (ev_payload e)))) es"

record emergency_scout_context =
  sx_trigger_payload :: trigger_payload
  sx_scope_symbols :: "string list"
  sx_market :: "market option"
  sx_reason :: string
  sx_priority :: nat
  sx_required_focus :: string
  sx_date_ids_used :: "string list"
  sx_portfolio_snapshot_hash :: string
  sx_created_at :: aware

fun FOCUS_BY_TYPE :: "emergency_trigger_type \<Rightarrow> string" where
  "FOCUS_BY_TYPE ET_STOCK_DROP = ''held_stock_and_same_sector_damage''"
| "FOCUS_BY_TYPE ET_INDEX_CRASH = ''market_wide_holdings_in_affected_market''"
| "FOCUS_BY_TYPE ET_PORTFOLIO_LOSS = ''top_loss_contributors''"
| "FOCUS_BY_TYPE ET_PROFIT_RUN = ''single_name_concentration_review''"
| "FOCUS_BY_TYPE ET_MDD_KILLSWITCH = ''python_only_no_llm''"

fun REASON_BY_TYPE :: "emergency_trigger_type \<Rightarrow> string" where
  "REASON_BY_TYPE ET_STOCK_DROP = ''Held stock intraday drop exceeded threshold''"
| "REASON_BY_TYPE ET_INDEX_CRASH = ''Market index intraday crash exceeded threshold''"
| "REASON_BY_TYPE ET_PORTFOLIO_LOSS = ''Portfolio intraday loss exceeded threshold''"
| "REASON_BY_TYPE ET_PROFIT_RUN = ''Single-stock market weight reached staged threshold''"
| "REASON_BY_TYPE ET_MDD_KILLSWITCH = ''Account MDD killswitch stage reached (Python-only)''"

definition build_emergency_scout_context ::
  "trigger_payload \<Rightarrow> string \<Rightarrow> aware \<Rightarrow> string list \<Rightarrow> emergency_scout_context option result" where
  "build_emergency_scout_context t hash created_at date_ids_used =
     (if ep_trigger_type t = ET_MDD_KILLSWITCH then Inr None
      else if \<not> ep_requires_llm_review t then Inr None
      else if strip hash = [] then Inl (ValueError ''portfolio_snapshot_hash must not be blank.'')
      else Inr (Some \<lparr>sx_trigger_payload = t, sx_scope_symbols = ep_scope_symbols t, sx_market = ep_market t,
        sx_reason = REASON_BY_TYPE (ep_trigger_type t), sx_priority = trigger_priority_rank (ep_trigger_type t),
        sx_required_focus = FOCUS_BY_TYPE (ep_trigger_type t), sx_date_ids_used = date_ids_used, sx_portfolio_snapshot_hash = strip hash,
        sx_created_at = created_at\<rparr>))"

section \<open>The kill switch\<close>

lemma latest_within_iff:
  "xs \<noteq> [] \<Longrightarrow> (now - Max (set xs) < d \<longleftrightarrow> (\<exists>t \<in> set xs. now - t < (d :: int)))"
proof
  assume "xs \<noteq> []" "now - Max (set xs) < d"
  then show "\<exists>t \<in> set xs. now - t < d" using Max_in [of "set xs"] by auto
next
  assume "xs \<noteq> []" "\<exists>t \<in> set xs. now - t < d"
  then obtain t where t: "t \<in> set xs" "now - t < d" by blast
  then have "t \<le> Max (set xs)" by simp
  with t(2) show "now - Max (set xs) < d" by linarith
qed

text \<open>The rules of the cooldown in declarative form.\<close>

definition mdd_blocked :: "mdd_stage \<Rightarrow> aware \<Rightarrow> mdd_cooldown_event list \<Rightarrow> bool" where
  "mdd_blocked stage now evs \<longleftrightarrow>
     (\<exists>e \<in> set evs. me_stage e = stage \<and> aware_date (me_triggered_at e) = aware_date now) \<or>
     stage = LEVEL_2 \<and> (\<exists>e \<in> set evs. me_stage e = LEVEL_1 \<and>
        aw_instant now - aw_instant (me_triggered_at e) < MDD_LEVEL_1_TO_2_COOLDOWN)"

lemma suppressed_iff_blocked: "md_suppressed (should_suppress_mdd_stage stage now evs) \<longleftrightarrow> mdd_blocked stage now evs"
proof -
  let ?l = "filter (\<lambda>e. me_stage e = LEVEL_1) evs"
  have "?l \<noteq> [] \<and> aw_instant now - Max (set (map (\<lambda>e. aw_instant (me_triggered_at e)) ?l)) < MDD_LEVEL_1_TO_2_COOLDOWN \<longleftrightarrow>
      (\<exists>e \<in> set evs. me_stage e = LEVEL_1 \<and> aw_instant now - aw_instant (me_triggered_at e) < MDD_LEVEL_1_TO_2_COOLDOWN)"
  proof (cases "?l = []")
    case False
    then have "map (\<lambda>e. aw_instant (me_triggered_at e)) ?l \<noteq> []" by simp
    from latest_within_iff [OF this] False show ?thesis by (auto simp del: set_map) (auto simp: image_iff)
  qed (auto simp: filter_empty_conv)
  then show ?thesis
    unfolding should_suppress_mdd_stage_def mdd_blocked_def Let_def same_calendar_day_def list_ex_iff
    by (cases stage) auto
qed

definition mdd_payload :: "mdd_state \<Rightarrow> string \<Rightarrow> mdd_stage \<Rightarrow> trigger_payload" where
  "mdd_payload state trigger_id stage =
     \<lparr>ep_trigger_id = trigger_id, ep_trigger_type = ET_MDD_KILLSWITCH, ep_detected_at = ms_detected_at state,
      ep_market = None, ep_symbol = None, ep_severity = mdd_severity stage, ep_status = EX_DETECTED,
      ep_threshold_percent = MDD_STAGE_THRESHOLD stage, ep_observed_percent = ms_mdd_percent state,
      ep_scope_symbols = [], ep_account_role = ms_account_role state, ep_execution_mode = EM_MDD_KILLSWITCH,
      ep_bypass_llm = True, ep_requires_llm_review = False, ep_requires_recovery_review = (stage \<noteq> LEVEL_3),
      ep_below_invested_min = True, ep_below_min_reason = Some ''MDD_KILLSWITCH'',
      ep_cooldown_key = ''MDD_KILLSWITCH:*:*'',
      ep_metadata = [(''mdd_stage'', Meta_Text (mdd_stage_str stage)),
        (''target_cash_percent'', Meta_Decimal (mdd_target_cash_percent stage)),
        (''historical_peak_nav'', Meta_Decimal (ms_historical_peak_nav state))]\<rparr>"

lemma detect_mdd_eq:
  assumes "normalised trigger_id"
  shows "detect_mdd_killswitch state trigger_id evs =
    (case mdd_stage_for_percent (ms_mdd_percent state) of
       None \<Rightarrow> Inr None
     | Some stage \<Rightarrow> if mdd_blocked stage (ms_detected_at state) evs then Inr None
                    else Inr (Some (mdd_payload state trigger_id stage)))"
proof -
  have key: "normalize_required_string ''MDD_KILLSWITCH:*:*'' = Inr ''MDD_KILLSWITCH:*:*''"
    by (simp add: normalize_required_string_def strip_def is_space_def)
  have "mk_TriggerPayload (mdd_payload state trigger_id stage) = Inr (mdd_payload state trigger_id stage)" for stage
    by (simp add: mk_TriggerPayload_def mdd_payload_def normalize_normalised [OF assms] key validate_trigger_payload_def Let_def)
  then show ?thesis
    by (auto simp: detect_mdd_killswitch_def suppressed_iff_blocked some_payload_def build_cooldown_key_def
        mdd_payload_def split: option.split)
qed

text \<open>A watch over a series of states that records every trigger as a cooldown event.\<close>

fun mdd_watch :: "mdd_cooldown_event list \<Rightarrow> (mdd_state \<times> string) list \<Rightarrow> mdd_cooldown_event list" where
  "mdd_watch evs [] = evs"
| "mdd_watch evs ((s, tid) # xs) =
     (case (detect_mdd_killswitch s tid evs, mdd_stage_for_percent (ms_mdd_percent s)) of
        (Inr (Some t), Some stage) \<Rightarrow> mdd_watch (evs @ [\<lparr>me_stage = stage, me_triggered_at = ep_detected_at t\<rparr>]) xs
      | _ \<Rightarrow> mdd_watch evs xs)"

definition event_day :: "mdd_cooldown_event \<Rightarrow> mdd_stage \<times> int" where
  "event_day e = (me_stage e, aware_date (me_triggered_at e))"

definition watch_ok :: "mdd_cooldown_event list \<Rightarrow> bool" where
  "watch_ok evs \<longleftrightarrow> distinct (map event_day evs) \<and>
     (\<forall>i j. i < j \<longrightarrow> j < length evs \<longrightarrow> me_stage (evs ! i) = LEVEL_1 \<longrightarrow> me_stage (evs ! j) = LEVEL_2 \<longrightarrow>
        aw_instant (me_triggered_at (evs ! i)) + MDD_LEVEL_1_TO_2_COOLDOWN \<le> aw_instant (me_triggered_at (evs ! j)))"

lemma watch_ok_snoc:
  assumes "watch_ok evs" "\<not> mdd_blocked stage now evs"
  shows "watch_ok (evs @ [\<lparr>me_stage = stage, me_triggered_at = now\<rparr>])"
proof -
  have "event_day \<lparr>me_stage = stage, me_triggered_at = now\<rparr> \<notin> event_day ` set evs"
    using assms(2) by (auto simp: mdd_blocked_def event_day_def)
  moreover have "aw_instant (me_triggered_at e) + MDD_LEVEL_1_TO_2_COOLDOWN \<le> aw_instant now"
    if "e \<in> set evs" "me_stage e = LEVEL_1" "stage = LEVEL_2" for e
    using assms(2) that by (force simp: mdd_blocked_def)
  ultimately show ?thesis
    using assms(1) by (auto simp: watch_ok_def nth_append less_Suc_eq dest: nth_mem)
qed

lemma mdd_watch_step:
  assumes "normalised tid"
  shows "mdd_watch evs ((s, tid) # xs) =
    (case mdd_stage_for_percent (ms_mdd_percent s) of
       None \<Rightarrow> mdd_watch evs xs
     | Some stage \<Rightarrow> if mdd_blocked stage (ms_detected_at s) evs then mdd_watch evs xs
                    else mdd_watch (evs @ [\<lparr>me_stage = stage, me_triggered_at = ms_detected_at s\<rparr>]) xs)"
proof -
  have "ep_detected_at (mdd_payload s tid stage) = ms_detected_at s" for stage by (simp add: mdd_payload_def)
  then show ?thesis by (simp add: detect_mdd_eq [OF assms] split: option.split)
qed

lemma mdd_watch_ok: "watch_ok evs \<Longrightarrow> list_all (\<lambda>(s, tid). normalised tid) xs \<Longrightarrow> watch_ok (mdd_watch evs xs)"
proof (induction xs arbitrary: evs)
  case (Cons x xs)
  obtain s tid where x: "x = (s, tid)" by fastforce
  with Cons.prems have n: "normalised tid" "list_all (\<lambda>(s, tid). normalised tid) xs" by auto
  show ?case
    unfolding x mdd_watch_step [OF n(1)]
    using Cons.IH n(2) Cons.prems(1) watch_ok_snoc by (auto split: option.split)
qed simp

section \<open>What the liquidation plan sells\<close>

definition mdd_orders ::
  "mdd_stage \<Rightarrow> trigger_payload \<Rightarrow> string \<Rightarrow> (mdd_position \<times> decimal) list \<Rightarrow> order_intent list" where
  "mdd_orders stage t cid sold = map (\<lambda>(n, p, q). mdd_intent stage t cid p q (n + 1)) (enumerate 0 sold)"

lemma mdd_orders_snoc:
  "mdd_orders stage t cid (sold @ [(p, q)]) = mdd_orders stage t cid sold @ [mdd_intent stage t cid p q (length sold + 1)]"
  by (simp add: mdd_orders_def enumerate_append_eq)

definition sold_so_far ::
  "mdd_stage \<Rightarrow> trigger_payload \<Rightarrow> string \<Rightarrow> sell_state \<Rightarrow> (mdd_position \<times> decimal) list \<Rightarrow> bool" where
  "sold_so_far stage t cid st sold \<longleftrightarrow> ss_intents st = mdd_orders stage t cid sold \<and> ss_index st = length sold"

lemma digits_no_space: "c \<in> set (digits_of_nat n) \<Longrightarrow> is_digit c"
  using digits_of_nat_digits [of n] by (simp add: list_all_iff)

lemma digits_normalised: "normalised (digits_of_nat n)"
proof -
  note d = digits_of_nat_digits [of n]
  have "\<not> is_space c" if "is_digit c" for c using that by (auto simp: is_digit_def is_space_def)
  then have "strip (digits_of_nat n) = digits_of_nat n"
    using d digits_no_space [OF hd_in_set] digits_no_space [OF last_in_set] by (intro strip_edges) auto
  then show ?thesis using d by (simp add: normalised_def)
qed

lemma mdd_intent_valid:
  assumes "normalised cid" "normalised (lp_symbol p)" "0 < q"
  shows "valid_intent (mdd_intent stage t cid p q n)"
proof -
  have "normalised ((''mdd-'' @ mdd_stage_lower stage @ ''-'' @ lp_symbol p @ ''-'') @ digits_of_nat n)"
    by (rule normalised_prefix [OF digits_normalised]) (simp_all add: is_space_def)
  then show ?thesis using assms by (simp add: valid_intent_def mdd_intent_def)
qed

lemma append_sell_sold:
  assumes "sold_so_far stage t cid st sold" "normalised cid" "normalised (lp_symbol p)" "0 < q"
  shows "\<exists>st'. append_sell stage t cid st p q = Inr st' \<and> sold_so_far stage t cid st' (sold @ [(p, q)])"
  using assms mk_OrderIntent_idem [OF mdd_intent_valid [OF assms(2-4), of stage t "ss_index st + 1"]]
  by (simp add: append_sell_def sold_so_far_def mdd_orders_snoc)

text \<open>The losing positions are sold whole, in order, until enough is raised.\<close>

lemma sell_losses_sold:
  assumes "sold_so_far stage t cid st sold" "normalised cid" "\<forall>p \<in> set ps. normalised (lp_symbol p) \<and> 0 < lp_quantity p"
  shows "\<exists>k st' rest. sell_losses stage t cid c ps (st, remaining) = Inr (st', rest) \<and> k \<le> length ps \<and>
    sold_so_far stage t cid st' (sold @ map (\<lambda>p. (p, lp_quantity p)) (take k ps)) \<and> (0 < rest \<longrightarrow> k = length ps)"
  using assms
proof (induction ps arbitrary: st sold remaining)
  case Nil
  then show ?case by auto
next
  case (Cons p ps)
  show ?case
  proof (cases "remaining \<le> 0")
    case True
    then show ?thesis using Cons.prems(1) by (intro exI [of _ 0]) auto
  next
    case False
    obtain st1 where st1: "append_sell stage t cid st p (lp_quantity p) = Inr st1"
      "sold_so_far stage t cid st1 (sold @ [(p, lp_quantity p)])"
      using append_sell_sold [OF Cons.prems(1,2), of p "lp_quantity p"] Cons.prems(3) by auto
    obtain k st' rest where "sell_losses stage t cid c ps (st1, dsub c (ss_raised st1)) = Inr (st', rest)" "k \<le> length ps"
      "sold_so_far stage t cid st' ((sold @ [(p, lp_quantity p)]) @ map (\<lambda>p. (p, lp_quantity p)) (take k ps))"
      "0 < rest \<longrightarrow> k = length ps"
      using Cons.IH [OF st1(2) Cons.prems(2), of "dsub c (ss_raised st1)"] Cons.prems(3) by auto
    then show ?thesis using False st1(1) by (intro exI [of _ "Suc k"]) auto
  qed
qed

text \<open>
  A profitable position is sold at most up to what is held. Below \<open>10 ^ 23\<close> shares the quantity
  fits the 28 digits of the context, so quantizing never raises.
\<close>

lemma profit_quantity_ok:
  assumes "0 < remaining" "0 < total_profit" "lp_quantity p \<le> 10 ^ 23"
  shows "\<exists>x. profit_quantity remaining total_profit p = Inr x \<and> (\<forall>q. x = Some q \<longrightarrow> q \<le> lp_quantity p)"
proof (cases "lp_quantity p \<le> 0 \<or> ddiv (lp_market_value p) (lp_quantity p) \<le> 0")
  case True
  then show ?thesis by (auto simp: profit_quantity_def Let_def)
next
  case False
  define u where "u = ddiv (lp_market_value p) (lp_quantity p)"
  define v where "v = min (dmul remaining (ddiv (lp_market_value p) total_profit)) (lp_market_value p)"
  have q: "0 < lp_quantity p" and u: "0 < u" using False by (simp_all add: u_def)
  have mv: "0 < lp_market_value p"
    using u q by (simp add: u_def ddiv_def zero_less_divide_iff)
  have v: "0 < v" "v \<le> lp_market_value p"
    using mv assms(1,2) by (simp_all add: v_def dmul_pos ddiv_pos)
  define r where "r = lp_market_value p / lp_quantity p"
  have r: "0 < r" using mv q by (simp add: r_def)
  have "\<bar>u - r\<bar> \<le> \<bar>r\<bar> * (5 / 10 ^ 28)" unfolding u_def r_def ddiv_def by (rule rnd_error)
  moreover have "\<bar>r\<bar> * (5 / 10 ^ 28) \<le> r / 2" using r by simp
  ultimately have "r / 2 \<le> u" by linarith
  then have "lp_market_value p / lp_quantity p / 2 \<le> u" by (simp add: r_def)
  then have "lp_market_value p \<le> 2 * lp_quantity p * u" using q by (simp add: field_simps)
  moreover have "2 * lp_quantity p * u \<le> 2 * 10 ^ 23 * u" using u assms(3) by (intro mult_right_mono) simp_all
  ultimately have "v \<le> 2 * 10 ^ 23 * u" using v(2) by linarith
  then have le: "v / u \<le> 2 * 10 ^ 23" using u by (simp add: pos_divide_le_eq)
  have "representable (2 * 10 ^ 23)" using representable_of_int [of "2 * 10 ^ 23"] by (simp add: PREC_def)
  then have "ddiv v u \<le> 2 * 10 ^ 23" unfolding ddiv_def by (rule rnd_le_representable [OF le])
  moreover have "0 < ddiv v u" using v u by (simp add: ddiv_pos)
  ultimately have "\<bar>round_half_even (ddiv v u * 10000)\<bar> < 10 ^ PREC"
    using round_half_even_le [of "ddiv v u * 10000" "2 * 10 ^ 27"] round_half_even_ge [of 0 "ddiv v u * 10000"]
    by (simp add: PREC_def)
  then show ?thesis
    using False by (auto simp: profit_quantity_def Let_def quantize_4_def u_def v_def)
qed

lemma sell_profits_sold:
  assumes "sold_so_far stage t cid st sold" "normalised cid" "0 \<le> tolerance" "0 < total_profit"
    "\<forall>p \<in> set ps. normalised (lp_symbol p) \<and> lp_quantity p \<le> 10 ^ 23"
  shows "\<exists>more st' rest. sell_profits stage t cid c tolerance total_profit ps (st, remaining) = Inr (st', rest) \<and>
    sold_so_far stage t cid st' (sold @ more) \<and> subseq (map fst more) ps \<and> (\<forall>(p, q) \<in> set more. 0 < q \<and> q \<le> lp_quantity p)"
  using assms
proof (induction ps arbitrary: st sold remaining)
  case Nil
  then show ?case by (intro exI [of _ "[]"]) auto
next
  case (Cons p ps)
  show ?case
  proof (cases "remaining \<le> tolerance")
    case True
    then show ?thesis using Cons.prems(1) by (intro exI [of _ "[]"]) auto
  next
    case False
    then have pos: "0 < remaining" using assms(3) by linarith
    obtain x where x: "profit_quantity remaining total_profit p = Inr x" "\<forall>q. x = Some q \<longrightarrow> q \<le> lp_quantity p"
      using profit_quantity_ok [OF pos assms(4), of p] Cons.prems(5) by auto
    show ?thesis
    proof (cases "\<exists>q. x = Some q \<and> 0 < q")
      case True
      then obtain q where q: "x = Some q" "0 < q" "q \<le> lp_quantity p" using x(2) by auto
      obtain st1 where st1: "append_sell stage t cid st p q = Inr st1" "sold_so_far stage t cid st1 (sold @ [(p, q)])"
        using append_sell_sold [OF Cons.prems(1,2) _ q(2), of p] Cons.prems(5) by auto
      obtain more st' rest where "sell_profits stage t cid c tolerance total_profit ps (st1, dsub c (ss_raised st1)) = Inr (st', rest)"
        "sold_so_far stage t cid st' ((sold @ [(p, q)]) @ more)" "subseq (map fst more) ps"
        "\<forall>(p, q) \<in> set more. 0 < q \<and> q \<le> lp_quantity p"
        using Cons.IH [OF st1(2) Cons.prems(2-4), of "dsub c (ss_raised st1)"] Cons.prems(5) by auto
      then show ?thesis
        using False x(1) q st1(1) by (intro exI [of _ "(p, q) # more"]) auto
    next
      case none: False
      then have "append_sell stage t cid st p q = Inr st" if "x = Some q" for q using that by (auto simp: append_sell_def)
      then have skip: "\<exists>r. sell_profits stage t cid c tolerance total_profit (p # ps) (st, remaining) =
          sell_profits stage t cid c tolerance total_profit ps (st, r)"
        using False x(1) by (cases x) auto
      then obtain r where r: "sell_profits stage t cid c tolerance total_profit (p # ps) (st, remaining) =
          sell_profits stage t cid c tolerance total_profit ps (st, r)" by blast
      obtain more st' rest where "sell_profits stage t cid c tolerance total_profit ps (st, r) = Inr (st', rest)"
        "sold_so_far stage t cid st' (sold @ more)" "subseq (map fst more) ps"
        "\<forall>(p, q) \<in> set more. 0 < q \<and> q \<le> lp_quantity p"
        using Cons.IH [OF Cons.prems(1-4), of r] Cons.prems(5) by auto
      then show ?thesis unfolding r by (metis list_emb_Cons)
    qed
  qed
qed

text \<open>Order ids are told apart by their running number.\<close>

lemma suffix_after_dash:
  "a @ CHR ''-'' # x = b @ CHR ''-'' # y \<Longrightarrow> CHR ''-'' \<notin> set x \<Longrightarrow> CHR ''-'' \<notin> set y \<Longrightarrow> x = y"
  by (auto simp: append_eq_append_conv2 append_eq_Cons_conv Cons_eq_append_conv)

lemma mdd_order_ids_distinct: "distinct (map oi_order_id (mdd_orders stage t cid sold))"
proof -
  have "m = n" if "oi_order_id (mdd_intent stage t cid p q m) = oi_order_id (mdd_intent stage t cid p' q' n)" for m n p q p' q'
  proof -
    have "CHR ''-'' \<notin> set (digits_of_nat k)" for k using digits_no_space [of "CHR ''-''" k] by (auto simp: is_digit_def)
    moreover have "(''mdd-'' @ mdd_stage_lower stage @ ''-'' @ lp_symbol p) @ CHR ''-'' # digits_of_nat m =
        (''mdd-'' @ mdd_stage_lower stage @ ''-'' @ lp_symbol p') @ CHR ''-'' # digits_of_nat n"
      using that by (simp add: mdd_intent_def)
    ultimately have "digits_of_nat m = digits_of_nat n" using suffix_after_dash by blast
    then show ?thesis by (metis nat_of_digits_of_nat)
  qed
  then show ?thesis
    by (fastforce simp: distinct_conv_nth mdd_orders_def nth_enumerate_eq split: prod.splits)
qed

section \<open>Properties\<close>

text \<open>
  C30. The kill switch in a watch that records its triggers. A drawdown of 10, 15 or 20 percent
  and more is detected unless blocked; it is blocked exactly when the same stage has already
  triggered on the same local day, or the stage is LEVEL_2 and a LEVEL_1 trigger is less than four
  hours old. Over any series of states each stage triggers at most once per local day, and a
  LEVEL_2 trigger comes at least four hours after every recorded LEVEL_1 trigger.
\<close>

theorem mdd_killswitch_watch:
  assumes "list_all (\<lambda>(s, tid). normalised tid) xs" and "normalised trigger_id"
  shows "watch_ok (mdd_watch [] xs) \<and>
    detect_mdd_killswitch state trigger_id (mdd_watch [] xs) =
      (case mdd_stage_for_percent (ms_mdd_percent state) of
         None \<Rightarrow> Inr None
       | Some stage \<Rightarrow> if mdd_blocked stage (ms_detected_at state) (mdd_watch [] xs) then Inr None
                      else Inr (Some (mdd_payload state trigger_id stage)))"
  using mdd_watch_ok [of "[]" xs] assms(1) detect_mdd_eq [OF assms(2)] by (auto simp: watch_ok_def)

definition example_drawdown :: "decimal \<Rightarrow> instant \<Rightarrow> mdd_state" where
  "example_drawdown pct tm =
     \<lparr>ms_current_nav = 100 + pct, ms_historical_peak_nav = 100, ms_mdd_percent = pct, ms_last_triggered_stages = [],
      ms_detected_at = \<lparr>aw_instant = tm, aw_offset = 0\<rparr>, ms_account_role = None\<rparr>"

theorem mdd_killswitch_watch_witness:
  "watch_ok (mdd_watch [] [(example_drawdown (-12) 0, ''t1''), (example_drawdown (-13) 5, ''t2'')]) \<and>
   detect_mdd_killswitch (example_drawdown (-21) 9) ''t3'' (mdd_watch [] [(example_drawdown (-12) 0, ''t1'')]) =
     Inr (Some (mdd_payload (example_drawdown (-21) 9) ''t3'' LEVEL_3))"
proof -
  have n: "normalised ''t1''" "normalised ''t2''" "normalised ''t3''"
    by (simp_all add: normalised_def strip_def is_space_def)
  have "mdd_watch [] [(example_drawdown (-12) 0, ''t1'')] =
      [\<lparr>me_stage = LEVEL_1, me_triggered_at = \<lparr>aw_instant = 0, aw_offset = 0\<rparr>\<rparr>]"
    unfolding mdd_watch_step [OF n(1)]
    by (simp add: mdd_stage_for_percent_def example_drawdown_def threshold_defs mdd_blocked_def)
  then have "\<not> mdd_blocked LEVEL_3 (ms_detected_at (example_drawdown (-21) 9)) (mdd_watch [] [(example_drawdown (-12) 0, ''t1'')])"
    by (simp add: mdd_blocked_def)
  moreover have "mdd_stage_for_percent (ms_mdd_percent (example_drawdown (-21) 9)) = Some LEVEL_3"
    by (simp add: mdd_stage_for_percent_def example_drawdown_def threshold_defs)
  ultimately show ?thesis
    using mdd_killswitch_watch [of "[(example_drawdown (-12) 0, ''t1''), (example_drawdown (-13) 5, ''t2'')]" "''t3''"]
      mdd_killswitch_watch [of "[(example_drawdown (-12) 0, ''t1'')]" "''t3''" "example_drawdown (-21) 9"] n by simp
qed

lemma mdd_sales:
  assumes cid: "normalised cid" and tol: "0 \<le> tol"
    and pos: "\<forall>p \<in> set positions. normalised (lp_symbol p) \<and> lp_quantity p \<le> 10 ^ 23"
  obtains k more st rest st' rest' where
    "sell_losses stage t cid c (loss_order positions) (\<lparr>ss_intents = [], ss_raised = 0, ss_index = 0\<rparr>, c) = Inr (st, rest)"
    "(if tol < rest \<and> profit_order positions \<noteq> [] \<and> 0 < total_profit
      then sell_profits stage t cid c tol total_profit (profit_order positions) (st, rest) else Inr (st, rest)) = Inr (st', rest')"
    "ss_intents st' = mdd_orders stage t cid (map (\<lambda>p. (p, lp_quantity p)) (take k (loss_order positions)) @ more)"
    "subseq (map fst more) (profit_order positions)" "more \<noteq> [] \<longrightarrow> k = length (loss_order positions)"
    "\<forall>(p, q) \<in> set more. 0 < q \<and> q \<le> lp_quantity p"
proof -
  let ?st = "\<lparr>ss_intents = [], ss_raised = 0, ss_index = 0\<rparr>"
  have sold0: "sold_so_far stage t cid ?st []" by (simp add: sold_so_far_def mdd_orders_def)
  have "\<forall>p \<in> set (loss_order positions). normalised (lp_symbol p) \<and> 0 < lp_quantity p"
    using pos by (auto simp: loss_order_def is_excluded_def)
  from sell_losses_sold [OF sold0 cid this, of c c] obtain k st rest where loss:
    "sell_losses stage t cid c (loss_order positions) (?st, c) = Inr (st, rest)"
    "sold_so_far stage t cid st (map (\<lambda>p. (p, lp_quantity p)) (take k (loss_order positions)))"
    "0 < rest \<longrightarrow> k = length (loss_order positions)" by auto
  have profits: "\<forall>p \<in> set (profit_order positions). normalised (lp_symbol p) \<and> lp_quantity p \<le> 10 ^ 23"
    using pos by (auto simp: profit_order_def)
  show thesis
  proof (cases "tol < rest \<and> profit_order positions \<noteq> [] \<and> 0 < total_profit")
    case True
    then have "0 < rest" using tol by linarith
    from True sell_profits_sold [OF loss(2) cid tol _ profits, of total_profit c rest]
    obtain more st' rest' where "sell_profits stage t cid c tol total_profit (profit_order positions) (st, rest) = Inr (st', rest')"
      "sold_so_far stage t cid st' (map (\<lambda>p. (p, lp_quantity p)) (take k (loss_order positions)) @ more)"
      "subseq (map fst more) (profit_order positions)" "\<forall>(p, q) \<in> set more. 0 < q \<and> q \<le> lp_quantity p" by auto
    then show thesis using that [OF loss(1), of st' rest' k more] True loss(3) \<open>0 < rest\<close> by (simp add: sold_so_far_def)
  next
    case False
    show thesis by (rule that [OF loss(1), of st rest k "[]"]) (use False loss(2) in \<open>auto simp: sold_so_far_def\<close>)
  qed
qed


definition example_switch :: trigger_payload where
  "example_switch = mdd_payload (example_drawdown (-12) 0) ''t1'' LEVEL_1"

definition example_winner :: "string \<Rightarrow> mdd_position" where
  "example_winner s =
     \<lparr>lp_symbol = s, lp_market = KR, lp_asset_class = KR_EQUITY, lp_account_role = PAPER, lp_quantity = 50,
      lp_market_value = 50, lp_pnl_vs_cost = 1, lp_is_suspended = False, lp_is_unfillable = False\<rparr>"

lemma example_switch_facts:
  "ep_trigger_type example_switch = ET_MDD_KILLSWITCH" "mdd_stage_of_payload example_switch = Inr LEVEL_1"
  by (simp_all add: example_switch_def mdd_payload_def mdd_stage_of_payload_def mdd_stage_of_str_def)


text \<open>
  The plan may miss its target: the share of each profitable position is taken of the amount that
  is still missing after the positions before it, so with two equal profitable positions and 50% of
  the NAV to raise, 12.5% of the NAV is not raised although everything could be sold and the
  tolerance is 3%.
\<close>

lemma mdd_plan_shortfall:
  "sell_profits LEVEL_1 example_switch ''c'' 50 3 100 [example_winner ''A'', example_winner ''B'']
      (\<lparr>ss_intents = [], ss_raised = 0, ss_index = 0\<rparr>, 50) =
    Inr (\<lparr>ss_intents = mdd_orders LEVEL_1 example_switch ''c'' [(example_winner ''A'', 25), (example_winner ''B'', 25 / 2)],
          ss_raised = 75 / 2, ss_index = 2\<rparr>, 25 / 2)"
proof -
  have r: "rnd (1 / 2) = 1 / 2" "rnd (25 / 2) = 25 / 2" "rnd (75 / 2) = 75 / 2"
    by (rule rnd_decimal [of _ 5 1], simp, simp, rule rnd_decimal [of _ 125 1], simp, simp, rule rnd_decimal [of _ 375 1], simp, simp)
  have n: "normalised ''c''" "normalised (lp_symbol (example_winner ''A''))" "normalised (lp_symbol (example_winner ''B''))"
    by (simp_all add: normalised_def strip_def is_space_def example_winner_def)
  have q: "profit_quantity 50 100 (example_winner ''A'') = Inr (Some 25)"
    "profit_quantity 25 100 (example_winner ''B'') = Inr (Some (25 / 2))"
    using round_half_even_of_int [of 250000] round_half_even_of_int [of 125000]
    by (simp_all add: profit_quantity_def quantize_4_def example_winner_def dec_defs r PREC_def Let_def)
  have s: "mk_OrderIntent (mdd_intent LEVEL_1 example_switch ''c'' (example_winner ''A'') 25 1) =
      Inr (mdd_intent LEVEL_1 example_switch ''c'' (example_winner ''A'') 25 1)"
    "mk_OrderIntent (mdd_intent LEVEL_1 example_switch ''c'' (example_winner ''B'') (25 / 2) 2) =
      Inr (mdd_intent LEVEL_1 example_switch ''c'' (example_winner ''B'') (25 / 2) 2)"
    using n by (simp_all add: mk_OrderIntent_idem mdd_intent_valid)
  have u: "lp_quantity (example_winner s) = 50" "lp_market_value (example_winner s) = 50" for s
    by (simp_all add: example_winner_def)
  show ?thesis
    using q s by (simp add: append_sell_def u dec_defs r mdd_orders_def numeral_2_eq_2)
qed

end
