(* ===== verification/Canonical_Json.thy ===== *)
theory Canonical_Json
  imports Decisions
begin

text \<open>
  Canonical payloads, \<^verbatim>\<open>src/src/decision/canonical_json.py\<close>, with the part of Python's
  \<^verbatim>\<open>json\<close> module it relies on: \<open>json_dumps\<close> is \<^verbatim>\<open>json.dumps(.., separators=(",", ":"),
  ensure_ascii=False)\<close> and \<open>json_loads\<close> is \<^verbatim>\<open>json.loads\<close>, both on the texts over the 256 code
  points of \<open>char\<close> (an escape \<^verbatim>\<open>\uXXXX\<close> above them is refused here). A float is kept as
  the text of the number; the canonical form has none.
\<close>

section \<open>Values\<close>

datatype json =
    JNull
  | JBool bool
  | JInt int
  | JFloat string
  | JStr string
  | JArr "json list"
  | JObj "(string \<times> json) list"

text \<open>
  A Python value as \<open>canonicalize_payload\<close> tells it apart. A Decimal carries its text and
  whether it is finite, a datetime its \<^verbatim>\<open>isoformat()\<close> when it is timezone-aware, an enum member
  that is not a string its \<^verbatim>\<open>.value\<close>; a dict is the list of its items, in insertion order.
\<close>

datatype dict_key = KStr string | KOther

datatype payload =
    PNone
  | PBool bool
  | PStr string
  | PInt int
  | PFloat string
  | PDecimal bool string
  | PDatetime "string option"
  | PEnum json
  | PDict "(dict_key \<times> payload) list"
  | PList "payload list"
  | PTuple "payload list"
  | PSet
  | POther

fun canonicalize_payload :: "payload \<Rightarrow> json result"
  and canonicalize_items :: "(dict_key \<times> payload) list \<Rightarrow> (string \<times> json) list result"
  and canonicalize_all :: "payload list \<Rightarrow> json list result" where
  "canonicalize_payload PNone = Inr JNull"
| "canonicalize_payload (PBool b) = Inr (JBool b)"
| "canonicalize_payload (PStr s) = Inr (JStr s)"
| "canonicalize_payload (PInt i) = Inr (JInt i)"
| "canonicalize_payload (PFloat t) = Inl (ValueError ''float values are not allowed in canonical payloads.'')"
| "canonicalize_payload (PDecimal fin t) =
     (if fin then Inr (JStr t) else Inl (ValueError ''Decimal values must be finite.''))"
| "canonicalize_payload (PDatetime t) =
     rbind (require (ValueError ''datetime must be a timezone-aware datetime.'') t) (\<lambda>t. Inr (JStr t))"
| "canonicalize_payload (PEnum v) = Inr v"
| "canonicalize_payload (PDict items) =
     rbind (canonicalize_items items) (\<lambda>normalized. Inr (JObj (sort_key fst normalized)))"
| "canonicalize_payload (PList items) = rbind (canonicalize_all items) (\<lambda>js. Inr (JArr js))"
| "canonicalize_payload (PTuple items) = rbind (canonicalize_all items) (\<lambda>js. Inr (JArr js))"
| "canonicalize_payload PSet = Inl (ValueError ''set values are not allowed in canonical payloads.'')"
| "canonicalize_payload POther = Inl (ValueError ''unsupported canonical payload type'')"
| "canonicalize_items [] = Inr []"
| "canonicalize_items ((k, v) # items) =
     (case k of
        KOther \<Rightarrow> Inl (ValueError ''dict keys must be strings.'')
      | KStr key \<Rightarrow>
          rbind (canonicalize_payload v) (\<lambda>j.
          rbind (canonicalize_items items) (\<lambda>js. Inr ((key, j) # js))))"
| "canonicalize_all [] = Inr []"
| "canonicalize_all (v # vs) =
     rbind (canonicalize_payload v) (\<lambda>j. rbind (canonicalize_all vs) (\<lambda>js. Inr (j # js)))"

section \<open>Writing JSON\<close>

definition hex_digit :: "nat \<Rightarrow> char" where
  "hex_digit d = (if d < 10 then char_of (48 + d) else char_of (87 + d))"

text \<open>
  \<^verbatim>\<open>ESCAPE_DCT\<close> of the encoder. The codes are backspace 8, tab 9, newline 10, form feed
  12, carriage return 13, the quote 34 and the backslash 92.
\<close>

definition escape_char :: "char \<Rightarrow> string" where
  "escape_char c =
     (let n = (of_char c :: nat)
      in if n = 34 then [CHR 0x5C, CHR 0x22]
         else if n = 92 then [CHR 0x5C, CHR 0x5C]
         else if n = 10 then [CHR 0x5C, CHR ''n'']
         else if n = 13 then [CHR 0x5C, CHR ''r'']
         else if n = 9 then [CHR 0x5C, CHR ''t'']
         else if n = 12 then [CHR 0x5C, CHR ''f'']
         else if n = 8 then [CHR 0x5C, CHR ''b'']
         else if n < 32 then [CHR 0x5C, CHR ''u'', CHR ''0'', CHR ''0'', hex_digit (n div 16), hex_digit (n mod 16)]
         else [c])"

definition encode_string :: "string \<Rightarrow> string" where
  "encode_string s = CHR 0x22 # concat (map escape_char s) @ [CHR 0x22]"

definition int_text :: "int \<Rightarrow> string" where
  "int_text i = (if i < 0 then CHR ''-'' # digits_of_nat (nat (- i)) else digits_of_nat (nat i))"

fun json_dumps :: "json \<Rightarrow> string"
  and dump_members :: "(string \<times> json) list \<Rightarrow> string"
  and dump_items :: "json list \<Rightarrow> string" where
  "json_dumps JNull = ''null''"
| "json_dumps (JBool b) = (if b then ''true'' else ''false'')"
| "json_dumps (JInt i) = int_text i"
| "json_dumps (JFloat t) = t"
| "json_dumps (JStr s) = encode_string s"
| "json_dumps (JArr js) = (if js = [] then ''[]'' else CHR ''['' # dump_items js)"
| "json_dumps (JObj ms) = (if ms = [] then ''{}'' else CHR ''{'' # dump_members ms)"
| "dump_items [] = '']''"
| "dump_items (j # js) = json_dumps j @ (if js = [] then '']'' else CHR '','' # dump_items js)"
| "dump_members [] = ''}''"
| "dump_members ((k, j) # ms) =
     encode_string k @ CHR '':'' # json_dumps j @ (if ms = [] then ''}'' else CHR '','' # dump_members ms)"

definition canonical_json_dumps :: "payload \<Rightarrow> string result" where
  "canonical_json_dumps value = rbind (canonicalize_payload value) (\<lambda>normalized. Inr (json_dumps normalized))"

text \<open>The digest is a parameter: \<open>sha\<close> is \<^verbatim>\<open>sha256(text.encode("utf-8")).hexdigest()\<close>.\<close>

definition payload_sha256 :: "(string \<Rightarrow> string) \<Rightarrow> payload \<Rightarrow> string result" where
  "payload_sha256 sha value = rbind (canonical_json_dumps value) (\<lambda>t. Inr (sha t))"

section \<open>Reading JSON\<close>

definition is_json_space :: "char \<Rightarrow> bool" where
  "is_json_space c \<longleftrightarrow> (of_char c :: nat) \<in> {32, 9, 10, 13}"

definition skip_space :: "string \<Rightarrow> string" where
  "skip_space s = dropWhile is_json_space s"

definition hex_value :: "char \<Rightarrow> nat option" where
  "hex_value c =
     (let n = (of_char c :: nat)
      in if 48 \<le> n \<and> n \<le> 57 then Some (n - 48)
         else if 97 \<le> n \<and> n \<le> 102 then Some (n - 87)
         else if 65 \<le> n \<and> n \<le> 70 then Some (n - 55)
         else None)"

definition unicode_escape :: "char \<Rightarrow> char \<Rightarrow> char \<Rightarrow> char \<Rightarrow> char option" where
  "unicode_escape a b c d =
     (case (hex_value a, hex_value b, hex_value c, hex_value d) of
        (Some w, Some x, Some y, Some z) \<Rightarrow>
          let n = ((w * 16 + x) * 16 + y) * 16 + z
          in if n < 256 then Some (char_of n) else None
      | _ \<Rightarrow> None)"

definition simple_escape :: "char \<Rightarrow> char option" where
  "simple_escape e =
     map_of [(CHR 0x22, CHR 0x22), (CHR 0x5C, CHR 0x5C), (CHR ''/'', CHR ''/''), (CHR ''b'', char_of (8::nat)),
       (CHR ''f'', char_of (12::nat)), (CHR ''n'', char_of (10::nat)), (CHR ''r'', char_of (13::nat)),
       (CHR ''t'', char_of (9::nat))] e"

text \<open>The rest of a string literal after its opening quote (\<^verbatim>\<open>scanstring\<close>, strict).\<close>

fun scan_string :: "string \<Rightarrow> (string \<times> string) option" where
  "scan_string [] = None"
| "scan_string (c # cs) =
     (if c = CHR 0x22 then Some ([], cs)
      else if c = CHR 0x5C then
        (case cs of
           [] \<Rightarrow> None
         | e # es \<Rightarrow>
             if e = CHR ''u'' then
               (case es of
                  w # x # y # z # rest \<Rightarrow>
                    (case unicode_escape w x y z of
                       None \<Rightarrow> None
                     | Some u \<Rightarrow> map_option (\<lambda>(s, r). (u # s, r)) (scan_string rest))
                | _ \<Rightarrow> None)
             else (case simple_escape e of
                     None \<Rightarrow> None
                   | Some u \<Rightarrow> map_option (\<lambda>(s, r). (u # s, r)) (scan_string es)))
      else if (of_char c :: nat) < 32 then None
      else map_option (\<lambda>(s, r). (c # s, r)) (scan_string cs))"

text \<open>
  \<^verbatim>\<open>NUMBER_RE = (-?(?:0|[1-9]\d*))(\.\d+)?([eE][-+]?\d+)?\<close>: the integer part, then the two
  optional groups; an integer when both are absent.
\<close>

definition scan_digits :: "string \<Rightarrow> string \<times> string" where
  "scan_digits s = (takeWhile is_digit s, dropWhile is_digit s)"

definition scan_integer :: "string \<Rightarrow> (string \<times> string) option" where
  "scan_integer s =
     (case s of
        [] \<Rightarrow> None
      | c # cs \<Rightarrow>
          if c = CHR ''0'' then Some ([c], cs)
          else if is_digit c then Some (scan_digits s) else None)"

definition scan_fraction :: "string \<Rightarrow> string \<times> string" where
  "scan_fraction s =
     (case s of
        c # cs \<Rightarrow> if c = CHR ''.'' \<and> fst (scan_digits cs) \<noteq> [] then (c # fst (scan_digits cs), snd (scan_digits cs))
                  else ([], s)
      | [] \<Rightarrow> ([], s))"

definition scan_exponent :: "string \<Rightarrow> string \<times> string" where
  "scan_exponent s =
     (case s of
        c # cs \<Rightarrow>
          if c = CHR ''e'' \<or> c = CHR ''E'' then
            (let sgn = (case cs of d # _ \<Rightarrow> if d = CHR ''-'' \<or> d = CHR ''+'' then [d] else [] | [] \<Rightarrow> []);
                 ds = scan_digits (drop (length sgn) cs)
             in if fst ds \<noteq> [] then (c # sgn @ fst ds, snd ds) else ([], s))
          else ([], s)
      | [] \<Rightarrow> ([], s))"

definition scan_number :: "string \<Rightarrow> (json \<times> string) option" where
  "scan_number s =
     (let neg = (s \<noteq> [] \<and> hd s = CHR ''-''); body = (if neg then tl s else s)
      in case scan_integer body of
           None \<Rightarrow> None
         | Some (ds, r) \<Rightarrow>
             let (frac, r1) = scan_fraction r; (ex, r2) = scan_exponent r1
             in if frac = [] \<and> ex = []
                then Some (JInt (if neg then - int (nat_of_digits ds) else int (nat_of_digits ds)), r2)
                else Some (JFloat ((if neg then ''-'' else []) @ ds @ frac @ ex), r2))"

text \<open>The constants \<open>scan_once\<close> knows; the last three are the decoder's extensions.\<close>

definition scan_constant :: "string \<Rightarrow> (json \<times> string) option" where
  "scan_constant s =
     (case find (\<lambda>(t, j). take (length t) s = t)
        [(''null'', JNull), (''true'', JBool True), (''false'', JBool False), (''NaN'', JFloat ''NaN''),
         (''Infinity'', JFloat ''Infinity''), (''-Infinity'', JFloat ''-Infinity'')] of
        None \<Rightarrow> None
      | Some (t, j) \<Rightarrow> Some (j, drop (length t) s))"

definition scan_scalar :: "string \<Rightarrow> (json \<times> string) option" where
  "scan_scalar s = (case scan_constant s of Some r \<Rightarrow> Some r | None \<Rightarrow> scan_number s)"

text \<open>\<^verbatim>\<open>dict(pairs)\<close>: a repeated key keeps its place and takes the last value.\<close>

definition dict_of_pairs :: "(string \<times> json) list \<Rightarrow> (string \<times> json) list" where
  "dict_of_pairs ps = foldl (\<lambda>d p. tbl_upsert fst p d) [] ps"

fun parse_value :: "nat \<Rightarrow> string \<Rightarrow> (json \<times> string) option"
  and parse_items :: "nat \<Rightarrow> string \<Rightarrow> (json list \<times> string) option"
  and parse_members :: "nat \<Rightarrow> string \<Rightarrow> ((string \<times> json) list \<times> string) option" where
  "parse_value 0 s = None"
| "parse_value (Suc n) s =
     (case s of
        [] \<Rightarrow> None
      | c # cs \<Rightarrow>
          if c = CHR 0x22 then map_option (\<lambda>(t, r). (JStr t, r)) (scan_string cs)
          else if c = CHR ''['' then
            (case skip_space cs of
               [] \<Rightarrow> None
             | d # ds \<Rightarrow> if d = CHR '']'' then Some (JArr [], ds)
                        else map_option (\<lambda>(js, r). (JArr js, r)) (parse_items n (d # ds)))
          else if c = CHR ''{'' then
            (case skip_space cs of
               [] \<Rightarrow> None
             | d # ds \<Rightarrow> if d = CHR ''}'' then Some (JObj [], ds)
                        else map_option (\<lambda>(ms, r). (JObj (dict_of_pairs ms), r)) (parse_members n (d # ds)))
          else scan_scalar s)"
| "parse_items 0 s = None"
| "parse_items (Suc n) s =
     (case parse_value n s of
        None \<Rightarrow> None
      | Some (j, r) \<Rightarrow>
          (case skip_space r of
             [] \<Rightarrow> None
           | c # cs \<Rightarrow>
               if c = CHR '']'' then Some ([j], cs)
               else if c = CHR '','' then map_option (\<lambda>(js, r). (j # js, r)) (parse_items n (skip_space cs))
               else None))"
| "parse_members 0 s = None"
| "parse_members (Suc n) s =
     (case s of
        [] \<Rightarrow> None
      | q # qs \<Rightarrow>
          if q \<noteq> CHR 0x22 then None
          else (case scan_string qs of
             None \<Rightarrow> None
           | Some (k, r) \<Rightarrow>
               (case skip_space r of
                  [] \<Rightarrow> None
                | c # cs \<Rightarrow>
                    if c \<noteq> CHR '':'' then None
                    else (case parse_value n (skip_space cs) of
                       None \<Rightarrow> None
                     | Some (j, r2) \<Rightarrow>
                         (case skip_space r2 of
                            [] \<Rightarrow> None
                          | d # ds \<Rightarrow>
                              if d = CHR ''}'' then Some ([(k, j)], ds)
                              else if d = CHR '','' then
                                map_option (\<lambda>(ms, r). ((k, j) # ms, r)) (parse_members n (skip_space ds))
                              else None)))))"

text \<open>
  The fuel bounds the nesting of calls; one call and the calls it makes in sequence on what is
  left take one unit each, and a JSON text never needs more than twice its length.
\<close>

definition json_loads :: "string \<Rightarrow> json result" where
  "json_loads s =
     (case parse_value (2 * length s) (skip_space s) of
        Some (j, r) \<Rightarrow> if skip_space r = [] then Inr j else Inl (ValueError ''Extra data'')
      | None \<Rightarrow> Inl (ValueError ''JSON decode error''))"

section \<open>A string literal is read back\<close>

lemma hex_value_digit [simp]: "d < 16 \<Longrightarrow> hex_value (hex_digit d) = Some d"
  by (auto simp: hex_value_def hex_digit_def Let_def)

lemma hex_value_0 [simp]: "hex_value (CHR ''0'') = Some 0"
  by (simp add: hex_value_def)

lemma hex_escape:
  assumes "n < 32"
  shows "unicode_escape (CHR ''0'') (CHR ''0'') (hex_digit (n div 16)) (hex_digit (n mod 16)) = Some (char_of n)"
proof -
  have "n div 16 < 16" "n mod 16 < 16" "n div 16 * 16 + n mod 16 = n" using assms by simp_all
  then show ?thesis using assms by (simp add: unicode_escape_def)
qed

lemma special_chars:
  "char_of (34::nat) = CHR 0x22" "char_of (92::nat) = CHR 0x5C"
  by (simp_all add: char_of_eq_iff)

lemma char_eq_of_char:
  "c = CHR 0x22 \<longleftrightarrow> (of_char c :: nat) = 34" "c = CHR 0x5C \<longleftrightarrow> (of_char c :: nat) = 92"
  by (auto simp: of_char_eq_iff [where 'a = nat, symmetric])

lemma scan_escape_char:
  "scan_string (escape_char c @ t) = map_option (\<lambda>(s, r). (c # s, r)) (scan_string t)"
proof -
  define n where "n = (of_char c :: nat)"
  have c: "c = char_of n" "of_char c = n" by (simp_all add: n_def)
  consider "n = 34 \<or> n = 92" | "n \<in> {10, 13, 9, 12, 8}"
    | "n < 32" "n \<notin> {10, 13, 9, 12, 8}" | "32 \<le> n" "n \<noteq> 34" "n \<noteq> 92" by fastforce
  then show ?thesis
  proof cases
    case 1
    then show ?thesis using c(1)
      by (auto simp: escape_char_def special_chars simple_escape_def)
  next
    case 2
    then show ?thesis using c(1) by (auto simp: escape_char_def c(2) simple_escape_def)
  next
    case 3
    then show ?thesis using c(1) by (simp add: escape_char_def c(2) hex_escape)
  next
    case 4
    then show ?thesis by (simp add: escape_char_def c(2) char_eq_of_char)
  qed
qed

lemma scan_encoded: "scan_string (concat (map escape_char s) @ CHR 0x22 # rest) = Some (s, rest)"
proof (induction s)
  case Nil
  show ?case by simp
next
  case (Cons c s)
  then show ?case by (simp add: scan_escape_char del: scan_string.simps(2))
qed

section \<open>A number is read back\<close>

lemma digits_of_nat_head: "digits_of_nat n = CHR ''0'' # cs \<Longrightarrow> n = 0 \<and> cs = []"
proof (induction n arbitrary: cs rule: digits_of_nat.induct)
  case (1 n)
  show ?case
  proof (cases "n < 10")
    case True
    then have "char_of (48 + n) = CHR ''0''" "cs = []" using "1.prems" by (simp_all add: digits_of_nat.simps)
    then have "(of_char (char_of (48 + n) :: char) :: nat) = 48" by simp
    then show ?thesis using of_char_digit [OF True] \<open>cs = []\<close> by simp
  next
    case False
    then have split: "digits_of_nat (n div 10) @ [char_of (48 + n mod 10)] = CHR ''0'' # cs"
      using "1.prems" by (simp add: digits_of_nat.simps [of n])
    then obtain ds where "digits_of_nat (n div 10) = CHR ''0'' # ds"
      using digits_of_nat_digits [of "n div 10"] by (cases "digits_of_nat (n div 10)") auto
    from "1.IH" [OF False this] have "n < 10" by (simp add: div_eq_0_iff)
    with False show ?thesis by simp
  qed
qed

definition number_end :: "string \<Rightarrow> bool" where
  "number_end rest \<longleftrightarrow> rest = [] \<or> \<not> is_digit (hd rest) \<and> hd rest \<notin> {CHR ''.'', CHR ''e'', CHR ''E''}"

lemma scan_digits_of_nat:
  assumes "number_end rest"
  shows "scan_integer (digits_of_nat n @ rest) = Some (digits_of_nat n, rest)"
proof -
  have ds: "list_all is_digit (digits_of_nat n)" "digits_of_nat n \<noteq> []" using digits_of_nat_digits by auto
  then obtain c cs where d: "digits_of_nat n = c # cs" "is_digit c" by (cases "digits_of_nat n") auto
  have stop: "takeWhile is_digit rest = []" "dropWhile is_digit rest = rest"
    using assms by (cases rest; simp add: number_end_def)+
  have "scan_digits (digits_of_nat n @ rest) = (digits_of_nat n, rest)"
    using ds(1) stop by (simp add: scan_digits_def takeWhile_append dropWhile_append list_all_iff)
  then show ?thesis using d digits_of_nat_head [of n cs] by (auto simp: scan_integer_def)
qed

lemma no_fraction_exponent:
  assumes "number_end rest"
  shows "scan_fraction rest = ([], rest)" "scan_exponent rest = ([], rest)"
  using assms by (cases rest; simp add: number_end_def scan_fraction_def scan_exponent_def)+

lemma digit_char_facts:
  "is_digit c \<Longrightarrow> c \<noteq> CHR ''-'' \<and> c \<noteq> CHR 0x22 \<and> c \<noteq> CHR ''['' \<and> c \<noteq> CHR ''{'' \<and> c \<noteq> CHR ''n'' \<and> c \<noteq> CHR ''t'' \<and>
     c \<noteq> CHR ''f'' \<and> c \<noteq> CHR ''N'' \<and> c \<noteq> CHR ''I'' \<and> c \<noteq> CHR '']'' \<and> c \<noteq> CHR ''}'' \<and> \<not> is_json_space c"
  by (intro conjI notI) (auto simp: is_digit_def is_json_space_def)

lemma int_text_shape:
  obtains sgn c cs where "int_text i = sgn @ c # cs" "is_digit c" "sgn = (if i < 0 then ''-'' else [])"
    "c # cs = digits_of_nat (nat \<bar>i\<bar>)"
proof -
  obtain c cs where "digits_of_nat (nat \<bar>i\<bar>) = c # cs" "is_digit c"
    using digits_of_nat_digits [of "nat \<bar>i\<bar>"] by (cases "digits_of_nat (nat \<bar>i\<bar>)") auto
  moreover have "int_text i = (if i < 0 then ''-'' else []) @ digits_of_nat (nat \<bar>i\<bar>)"
    by (simp add: int_text_def)
  ultimately show thesis by (intro that [of "if i < 0 then ''-'' else []" c cs]) simp_all
qed

lemma scan_int_text:
  assumes "number_end rest"
  shows "scan_number (int_text i @ rest) = Some (JInt i, rest)"
proof -
  obtain sgn c cs where t: "int_text i = sgn @ c # cs" "is_digit c" "sgn = (if i < 0 then ''-'' else [])"
    "c # cs = digits_of_nat (nat \<bar>i\<bar>)" by (rule int_text_shape)
  have "scan_integer (c # cs @ rest) = Some (c # cs, rest)"
    using scan_digits_of_nat [OF assms, of "nat \<bar>i\<bar>"] t(4) by (metis append_Cons)
  moreover have "nat_of_digits (c # cs) = nat \<bar>i\<bar>" using t(4) nat_of_digits_of_nat by metis
  ultimately show ?thesis
    using digit_char_facts [OF t(2)] t(3)
    by (auto simp: scan_number_def t(1) no_fraction_exponent [OF assms] Let_def)
qed

lemma constant_not_int: "scan_constant (int_text i @ rest) = None"
proof -
  obtain sgn c cs where t: "int_text i = sgn @ c # cs" "is_digit c" "sgn = (if i < 0 then ''-'' else [])"
    by (rule int_text_shape)
  then show ?thesis using digit_char_facts [OF t(2)] by (auto simp: scan_constant_def)
qed

section \<open>A value is read back\<close>

text \<open>A value a dict-based reader can return: no float, no key twice.\<close>

fun wf_json :: "json \<Rightarrow> bool"
  and wf_members :: "(string \<times> json) list \<Rightarrow> bool"
  and wf_items :: "json list \<Rightarrow> bool" where
  "wf_json (JFloat t) \<longleftrightarrow> False"
| "wf_json (JArr js) \<longleftrightarrow> wf_items js"
| "wf_json (JObj ms) \<longleftrightarrow> distinct (map fst ms) \<and> wf_members ms"
| "wf_json JNull \<longleftrightarrow> True"
| "wf_json (JBool b) \<longleftrightarrow> True"
| "wf_json (JInt i) \<longleftrightarrow> True"
| "wf_json (JStr s) \<longleftrightarrow> True"
| "wf_items [] \<longleftrightarrow> True"
| "wf_items (j # js) \<longleftrightarrow> wf_json j \<and> wf_items js"
| "wf_members [] \<longleftrightarrow> True"
| "wf_members ((k, j) # ms) \<longleftrightarrow> wf_json j \<and> wf_members ms"

lemma dump_hd:
  "wf_json j \<Longrightarrow> json_dumps j \<noteq> [] \<and> \<not> is_json_space (hd (json_dumps j)) \<and> hd (json_dumps j) \<noteq> CHR '']''"
proof (cases j)
  case (JInt i)
  obtain sgn c cs where t: "int_text i = sgn @ c # cs" "is_digit c" "sgn = (if i < 0 then ''-'' else [])"
    by (rule int_text_shape)
  then show ?thesis using JInt digit_char_facts [OF t(2)] by (cases "i < 0") (auto simp: is_json_space_def)
qed (auto simp: encode_string_def is_json_space_def)

lemma dump_head:
  assumes "wf_json j"
  obtains c cs where "json_dumps j = c # cs" "\<not> is_json_space c" "c \<noteq> CHR '']''"
  using dump_hd [OF assms] by (cases "json_dumps j") auto

lemma skip_space_Cons [simp]: "\<not> is_json_space c \<Longrightarrow> skip_space (c # cs) = c # cs"
  by (simp add: skip_space_def)

lemma skip_space_marks [simp]:
  "skip_space (CHR '']'' # cs) = CHR '']'' # cs" "skip_space (CHR ''}'' # cs) = CHR ''}'' # cs"
  "skip_space (CHR '','' # cs) = CHR '','' # cs" "skip_space (CHR '':'' # cs) = CHR '':'' # cs"
  "skip_space (CHR 0x22 # cs) = CHR 0x22 # cs"
  by (simp_all add: is_json_space_def)

lemma number_end_marks [simp]:
  "number_end []" "number_end (CHR '']'' # cs)" "number_end (CHR ''}'' # cs)" "number_end (CHR '','' # cs)"
  by (simp_all add: number_end_def is_digit_def)

lemma skip_dump [simp]: "wf_json j \<Longrightarrow> skip_space (json_dumps j @ r) = json_dumps j @ r"
  by (erule dump_head) simp

lemma tbl_get_fst_None: "k \<notin> fst ` set d \<Longrightarrow> tbl_get fst k d = None"
  by (simp add: tbl_get_None_iff)

lemma dict_of_distinct_pairs: "distinct (map fst ps) \<Longrightarrow> dict_of_pairs ps = ps"
proof -
  have "distinct (map fst (d @ ps)) \<Longrightarrow> foldl (\<lambda>d p. tbl_upsert fst p d) d ps = d @ ps" for d
  proof (induction ps arbitrary: d)
    case (Cons p ps)
    then have "tbl_upsert fst p d = d @ [p]" by (simp add: tbl_upsert_def tbl_get_fst_None)
    with Cons.IH [of "d @ [p]"] Cons.prems show ?case by simp
  qed simp
  from this [of "[]"] show "distinct (map fst ps) \<Longrightarrow> ?thesis" by (simp add: dict_of_pairs_def)
qed

lemma encode_string_Cons: "encode_string s @ r = CHR 0x22 # concat (map escape_char s) @ CHR 0x22 # r"
  by (simp add: encode_string_def)

lemma dump_members_head: "ms \<noteq> [] \<Longrightarrow> \<exists>cs. dump_members ms = CHR 0x22 # cs"
  by (cases ms) (auto simp: encode_string_def)

text \<open>One step of the reader on each kind of value.\<close>

lemma parse_int_value:
  assumes "number_end rest"
  shows "parse_value (Suc m) (int_text i @ rest) = Some (JInt i, rest)"
proof -
  obtain sgn c cs where t: "int_text i = sgn @ c # cs" "is_digit c" "sgn = (if i < 0 then ''-'' else [])"
    by (rule int_text_shape)
  have "scan_scalar (int_text i @ rest) = Some (JInt i, rest)"
    using assms by (simp add: scan_scalar_def constant_not_int scan_int_text)
  then show ?thesis using t digit_char_facts [OF t(2)] by (cases "i < 0") simp_all
qed

lemma parse_arr_value:
  assumes "wf_items js" "js \<noteq> []" "parse_items m (dump_items js @ rest) = Some (js, rest)"
  shows "parse_value (Suc m) (json_dumps (JArr js) @ rest) = Some (JArr js, rest)"
proof -
  obtain j' js' where js: "js = j' # js'" using assms(2) by (cases js) auto
  then have "wf_json j'" using assms(1) by simp
  then obtain c cs where "dump_items js = c # cs" "\<not> is_json_space c" "c \<noteq> CHR '']''"
    using dump_head [of j'] js by (metis append_Cons dump_items.simps(2))
  then show ?thesis using assms by simp
qed

lemma parse_obj_value:
  assumes "distinct (map fst ms)" "ms \<noteq> []" "parse_members m (dump_members ms @ rest) = Some (ms, rest)"
  shows "parse_value (Suc m) (json_dumps (JObj ms) @ rest) = Some (JObj ms, rest)"
  using dump_members_head [OF assms(2)] assms by (auto simp: dict_of_distinct_pairs)

lemma parse_item_step:
  assumes "\<And>r. number_end r \<Longrightarrow> parse_value m (json_dumps j @ r) = Some (j, r)" "wf_items js"
    and "js \<noteq> [] \<Longrightarrow> parse_items m (dump_items js @ rest) = Some (js, rest)"
  shows "parse_items (Suc m) (dump_items (j # js) @ rest) = Some (j # js, rest)"
proof (cases js)
  case Nil
  then show ?thesis using assms(1) by simp
next
  case (Cons j' js')
  then have "skip_space (dump_items js @ rest) = dump_items js @ rest" using assms(2) by simp
  then show ?thesis using assms Cons by simp
qed

lemma parse_member_step:
  assumes "\<And>r. number_end r \<Longrightarrow> parse_value m (json_dumps j @ r) = Some (j, r)" "wf_json j"
    and "ms \<noteq> [] \<Longrightarrow> parse_members m (dump_members ms @ rest) = Some (ms, rest)"
  shows "parse_members (Suc m) (dump_members ((k, j) # ms) @ rest) = Some ((k, j) # ms, rest)"
  using assms dump_members_head [of ms]
  by (cases "ms = []") (auto simp: encode_string_Cons scan_encoded)

lemma parse_dumped:
  "wf_json j \<Longrightarrow> number_end rest \<Longrightarrow> 2 * length (json_dumps j) \<le> n \<Longrightarrow>
     parse_value n (json_dumps j @ rest) = Some (j, rest)"
  "wf_members ms \<Longrightarrow> ms \<noteq> [] \<Longrightarrow> 2 * length (dump_members ms) \<le> n \<Longrightarrow>
     parse_members n (dump_members ms @ rest) = Some (ms, rest)"
  "wf_items js \<Longrightarrow> js \<noteq> [] \<Longrightarrow> 2 * length (dump_items js) \<le> n \<Longrightarrow>
     parse_items n (dump_items js @ rest) = Some (js, rest)"
proof (induction j and ms and js arbitrary: n rest and n rest and n rest
    rule: json_dumps_dump_members_dump_items.induct)
  case 1
  then show ?case by (cases n) (simp_all add: scan_scalar_def scan_constant_def)
next
  case (2 b)
  then show ?case by (cases n; cases b) (simp_all add: scan_scalar_def scan_constant_def)
next
  case (3 i)
  then show ?case using dump_hd [of "JInt i"] by (cases n) (simp_all add: parse_int_value del: parse_value.simps(2))
next
  case (5 s)
  then show ?case by (cases n) (simp_all add: encode_string_Cons scan_encoded, simp add: encode_string_def)
next
  case (6 js)
  then have n: "n = Suc (n - 1)" "js \<noteq> [] \<Longrightarrow> 2 * length (dump_items js) \<le> n - 1" by (auto split: if_splits)
  then obtain m where n: "n = Suc m" "js \<noteq> [] \<Longrightarrow> 2 * length (dump_items js) \<le> m" by blast
  with 6 show ?case using parse_arr_value [of js m rest] by (cases "js = []") simp_all
next
  case (7 ms)
  then have n: "n = Suc (n - 1)" "ms \<noteq> [] \<Longrightarrow> 2 * length (dump_members ms) \<le> n - 1" by (auto split: if_splits)
  then obtain m where n: "n = Suc m" "ms \<noteq> [] \<Longrightarrow> 2 * length (dump_members ms) \<le> m" by blast
  with 7 show ?case using parse_obj_value [of ms m rest] by (cases "ms = []") simp_all
next
  case (9 j js)
  then have n: "n = Suc (n - 1)" "2 * length (json_dumps j) \<le> n - 1"
    "js \<noteq> [] \<Longrightarrow> 2 * length (dump_items js) \<le> n - 1" by (auto split: if_splits)
  then obtain m where n: "n = Suc m" "2 * length (json_dumps j) \<le> m"
    "js \<noteq> [] \<Longrightarrow> 2 * length (dump_items js) \<le> m" by blast
  have "parse_items (Suc m) (dump_items (j # js) @ rest) = Some (j # js, rest)"
    using 9 n by (intro parse_item_step) simp_all
  then show ?case by (simp only: n(1))
next
  case (11 k j ms)
  then have n: "n = Suc (n - 1)" "2 * length (json_dumps j) \<le> n - 1"
    "ms \<noteq> [] \<Longrightarrow> 2 * length (dump_members ms) \<le> n - 1" by (auto split: if_splits)
  then obtain m where n: "n = Suc m" "2 * length (json_dumps j) \<le> m"
    "ms \<noteq> [] \<Longrightarrow> 2 * length (dump_members ms) \<le> m" by blast
  have "parse_members (Suc m) (dump_members ((k, j) # ms) @ rest) = Some ((k, j) # ms, rest)"
    using 11 n by (intro parse_member_step) simp_all
  then show ?case by (simp only: n(1))
qed simp_all

lemma loads_dumps:
  assumes "wf_json j"
  shows "json_loads (json_dumps j) = Inr j"
  using parse_dumped(1) [OF assms, of "[]" "2 * length (json_dumps j)"] skip_dump [OF assms, of "[]"]
  by (simp add: json_loads_def skip_space_def)

section \<open>The fuel is enough\<close>

lemma skip_space_length: "length (skip_space s) \<le> length s"
  by (simp add: skip_space_def length_dropWhile_le)

lemma scan_string_length: "scan_string s = Some (t, r) \<Longrightarrow> length r < length s"
proof (induction s arbitrary: t rule: scan_string.induct)
  case (2 c cs)
  then show ?case
    by (fastforce split: if_splits list.splits option.splits simp: less_Suc_eq)
qed simp

lemma scan_digits_length: "length (snd (scan_digits s)) \<le> length s"
  by (simp add: scan_digits_def length_dropWhile_le)

lemma scan_integer_length: "scan_integer s = Some (d, r) \<Longrightarrow> length r < length s"
  by (auto simp: scan_integer_def scan_digits_def length_dropWhile_le less_Suc_eq_le split: list.splits if_splits)

lemma scan_fraction_length: "length (snd (scan_fraction s)) \<le> length s"
  using scan_digits_length [of "tl s"] by (auto simp: scan_fraction_def split: list.splits)

lemma scan_exponent_length: "length (snd (scan_exponent s)) \<le> length s"
proof (cases s)
  case (Cons c cs)
  have "length (snd (scan_digits (drop k cs))) \<le> length cs" for k
    using scan_digits_length [of "drop k cs"] by simp
  then show ?thesis using Cons by (simp add: scan_exponent_def Let_def le_SucI)
qed (simp add: scan_exponent_def)

lemma scan_number_length:
  assumes "scan_number s = Some (j, r)"
  shows "length r < length s"
proof -
  define body where "body = (if s \<noteq> [] \<and> hd s = CHR ''-'' then tl s else s)"
  obtain ds r0 where i: "scan_integer body = Some (ds, r0)"
    using assms by (auto simp: scan_number_def body_def Let_def split: option.splits)
  have r: "r = snd (scan_exponent (snd (scan_fraction r0)))"
    using assms i by (auto simp: scan_number_def body_def [symmetric] Let_def split: prod.splits if_splits)
  have "length body \<le> length s" by (simp add: body_def)
  then show ?thesis
    using scan_integer_length [OF i] scan_fraction_length [of r0] scan_exponent_length [of "snd (scan_fraction r0)"] r
    by simp
qed

lemma scan_constant_length: "scan_constant s = Some (j, r) \<Longrightarrow> length r < length s"
  by (cases s) (auto simp: scan_constant_def split: if_splits)

lemma scan_scalar_length: "scan_scalar s = Some (j, r) \<Longrightarrow> length r < length s"
  by (auto simp: scan_scalar_def scan_constant_length scan_number_length split: option.splits)

lemma skip_space_length_Cons: "skip_space s = c # cs \<Longrightarrow> length cs < length s"
  using skip_space_length [of s] by simp

definition shrinks :: "(string \<Rightarrow> ('a \<times> string) option) \<Rightarrow> bool" where
  "shrinks p \<longleftrightarrow> (\<forall>s x r. p s = Some (x, r) \<longrightarrow> length r < length s)"

lemma shrinksD: "shrinks p \<Longrightarrow> p s = Some (x, r) \<Longrightarrow> length r < length s"
  by (auto simp: shrinks_def)

lemma value_shrinks:
  assumes "shrinks (parse_items n)" "shrinks (parse_members n)"
  shows "shrinks (parse_value (Suc n))"
  unfolding shrinks_def
proof (intro allI impI)
  fix s j r assume v: "parse_value (Suc n) s = Some (j, r)"
  then obtain c cs where s: "s = c # cs" by (cases s) auto
  show "length r < length s"
  proof (cases "c = CHR ''['' \<or> c = CHR ''{''")
    case True
    with v s obtain d ds where d: "skip_space cs = d # ds" by (cases "skip_space cs") auto
    show ?thesis
      using v s d True skip_space_length_Cons [OF d] skip_space_length [of cs]
        shrinksD [OF assms(1), of "d # ds"] shrinksD [OF assms(2), of "d # ds"]
      by (fastforce split: if_splits)
  next
    case False
    then show ?thesis using v s by (auto dest!: scan_string_length scan_scalar_length split: if_splits)
  qed
qed

lemma items_shrinks:
  assumes "shrinks (parse_items n)" "shrinks (parse_value n)"
  shows "shrinks (parse_items (Suc n))"
  unfolding shrinks_def
proof (intro allI impI)
  fix s js r assume v: "parse_items (Suc n) s = Some (js, r)"
  then obtain j r0 where j: "parse_value n s = Some (j, r0)" by (cases "parse_value n s") auto
  with v obtain c cs where c: "skip_space r0 = c # cs" by (cases "skip_space r0") auto
  have "length cs < length r0" "length r0 < length s" "length (skip_space cs) \<le> length cs"
    using skip_space_length_Cons [OF c] shrinksD [OF assms(2) j] skip_space_length by auto
  then show "length r < length s"
    using v j c shrinksD [OF assms(1), of "skip_space cs"] by (fastforce split: if_splits)
qed

lemma members_shrinks:
  assumes "shrinks (parse_members n)" "shrinks (parse_value n)"
  shows "shrinks (parse_members (Suc n))"
  unfolding shrinks_def
proof (intro allI impI)
  fix s ms r assume v: "parse_members (Suc n) s = Some (ms, r)"
  then obtain q qs k r0 where q: "s = q # qs" "q = CHR 0x22" "scan_string qs = Some (k, r0)"
    by (auto split: list.splits if_splits option.splits)
  with v obtain c cs where c: "skip_space r0 = c # cs" by (cases "skip_space r0") auto
  with v q obtain j r1 where j: "parse_value n (skip_space cs) = Some (j, r1)"
    by (cases "parse_value n (skip_space cs)") (auto split: if_splits)
  with v q c obtain d ds where d: "skip_space r1 = d # ds" by (cases "skip_space r1") (auto split: if_splits)
  have "length ds < length s" "length (skip_space ds) \<le> length ds"
    using skip_space_length_Cons [OF c] skip_space_length_Cons [OF d] shrinksD [OF assms(2) j]
      scan_string_length [OF q(3)] skip_space_length [of cs] skip_space_length [of ds] q(1) by simp_all
  then show "length r < length s"
    using v q c j d shrinksD [OF assms(1), of "skip_space ds"] by (fastforce split: if_splits)
qed

lemma parse_shrinks: "shrinks (parse_value n) \<and> shrinks (parse_items n) \<and> shrinks (parse_members n)"
proof (induction n)
  case 0
  show ?case by (simp add: shrinks_def)
next
  case (Suc n)
  then show ?case by (blast intro: value_shrinks items_shrinks members_shrinks)
qed

lemmas parse_lengths =
  shrinksD [OF parse_shrinks [THEN conjunct1]]
  shrinksD [OF parse_shrinks [THEN conjunct2, THEN conjunct1]]
  shrinksD [OF parse_shrinks [THEN conjunct2, THEN conjunct2]]

text \<open>Fuel of twice the length of the text (one more for the parts) is as good as any.\<close>

definition fuel_settled :: "(nat \<Rightarrow> string \<Rightarrow> 'a) \<Rightarrow> nat \<Rightarrow> nat \<Rightarrow> bool" where
  "fuel_settled p extra n \<longleftrightarrow> (\<forall>s. 2 * length s + extra \<le> n \<longrightarrow> p (Suc n) s = p n s)"

lemma fuel_settledD: "fuel_settled p extra n \<Longrightarrow> 2 * length s + extra \<le> n \<Longrightarrow> p (Suc n) s = p n s"
  by (simp add: fuel_settled_def)

lemma value_settled:
  assumes "fuel_settled parse_items 1 n" "fuel_settled parse_members 1 n"
  shows "fuel_settled parse_value 0 (Suc n)"
  unfolding fuel_settled_def
proof (intro allI impI)
  fix s :: string assume len: "2 * length s + 0 \<le> Suc n"
  show "parse_value (Suc (Suc n)) s = parse_value (Suc n) s"
  proof (cases s)
    case (Cons c cs)
    have "2 * length (d # ds) + 1 \<le> n" if "skip_space cs = d # ds" for d ds
      using skip_space_length [of cs] that len Cons by simp
    then show ?thesis
      using Cons fuel_settledD [OF assms(1)] fuel_settledD [OF assms(2)]
      by (simp del: parse_items.simps parse_members.simps split: list.splits)
  qed simp
qed

lemma items_settled:
  assumes "fuel_settled parse_items 1 n" "fuel_settled parse_value 0 n"
  shows "fuel_settled parse_items 1 (Suc n)"
  unfolding fuel_settled_def
proof (intro allI impI)
  fix s :: string assume len: "2 * length s + 1 \<le> Suc n"
  have v: "parse_value (Suc n) s = parse_value n s" using fuel_settledD [OF assms(2), of s] len by simp
  have "2 * length (skip_space cs) + 1 \<le> n"
    if "parse_value n s = Some (j, r)" "skip_space r = c # cs" for j r c cs
    using parse_lengths(1) [OF that(1)] skip_space_length_Cons [OF that(2)] skip_space_length [of cs] len by simp
  then show "parse_items (Suc (Suc n)) s = parse_items (Suc n) s"
    using fuel_settledD [OF assms(1)] unfolding parse_items.simps(2) [of "Suc n" s] parse_items.simps(2) [of n s] v
    by (auto simp del: parse_items.simps split: list.splits option.splits)
qed

lemma members_settled:
  assumes "fuel_settled parse_members 1 n" "fuel_settled parse_value 0 n"
  shows "fuel_settled parse_members 1 (Suc n)"
  unfolding fuel_settled_def
proof (intro allI impI)
  fix s :: string assume len: "2 * length s + 1 \<le> Suc n"
  have value_fuel: "parse_value (Suc n) (skip_space cs) = parse_value n (skip_space cs)"
    if "s = q # qs" "scan_string qs = Some (k, r)" "skip_space r = c # cs" for q qs k r c cs
    using scan_string_length [OF that(2)] skip_space_length_Cons [OF that(3)] skip_space_length [of cs] len that(1)
    by (intro fuel_settledD [OF assms(2)]) simp
  have member_fuel: "parse_members (Suc n) (skip_space ds) = parse_members n (skip_space ds)"
    if "s = q # qs" "scan_string qs = Some (k, r)" "skip_space r = c # cs"
      "parse_value n (skip_space cs) = Some (j, r2)" "skip_space r2 = d # ds" for q qs k r c cs j r2 d ds
    using scan_string_length [OF that(2)] skip_space_length_Cons [OF that(3)] skip_space_length [of cs]
      parse_lengths(1) [OF that(4)] skip_space_length_Cons [OF that(5)] skip_space_length [of ds] len that(1)
    by (intro fuel_settledD [OF assms(1)]) simp
  show "parse_members (Suc (Suc n)) s = parse_members (Suc n) s"
    unfolding parse_members.simps(2) [of "Suc n" s] parse_members.simps(2) [of n s]
    by (auto simp: value_fuel member_fuel simp del: parse_members.simps parse_value.simps
        split: list.splits option.splits)
qed

lemma parse_settled: "fuel_settled parse_value 0 n \<and> fuel_settled parse_items 1 n \<and> fuel_settled parse_members 1 n"
proof (induction n)
  case 0
  show ?case by (simp add: fuel_settled_def)
next
  case (Suc n)
  then show ?case by (blast intro: value_settled items_settled members_settled)
qed

lemma parse_fuel:
  assumes "2 * length s \<le> n"
  shows "parse_value n s = parse_value (2 * length s) s"
  using assms
proof (induction n rule: dec_induct)
  case (step n)
  then show ?case using fuel_settledD [of parse_value 0 n s] parse_settled [of n] by simp
qed simp

section \<open>Canonical values\<close>

text \<open>What \<open>canonicalize_payload\<close> returns: the keys of every object strictly ascending, no float.\<close>

fun canonical :: "json \<Rightarrow> bool"
  and canonical_members :: "(string \<times> json) list \<Rightarrow> bool"
  and canonical_items :: "json list \<Rightarrow> bool" where
  "canonical (JFloat t) \<longleftrightarrow> False"
| "canonical (JArr js) \<longleftrightarrow> canonical_items js"
| "canonical (JObj ms) \<longleftrightarrow> distinct (map fst ms) \<and> sorted (map fst ms) \<and> canonical_members ms"
| "canonical JNull \<longleftrightarrow> True"
| "canonical (JBool b) \<longleftrightarrow> True"
| "canonical (JInt i) \<longleftrightarrow> True"
| "canonical (JStr s) \<longleftrightarrow> True"
| "canonical_items [] \<longleftrightarrow> True"
| "canonical_items (j # js) \<longleftrightarrow> canonical j \<and> canonical_items js"
| "canonical_members [] \<longleftrightarrow> True"
| "canonical_members ((k, j) # ms) \<longleftrightarrow> canonical j \<and> canonical_members ms"

lemma canonical_wf:
  "canonical j \<Longrightarrow> wf_json j" "canonical_members ms \<Longrightarrow> wf_members ms" "canonical_items js \<Longrightarrow> wf_items js"
  by (induction j and ms and js rule: canonical_canonical_members_canonical_items.induct) simp_all

lemma canonical_members_all: "canonical_members ms \<longleftrightarrow> (\<forall>m \<in> set ms. canonical (snd m))"
  by (induction ms) auto

text \<open>A value of Python: the items of a dict have distinct keys.\<close>

fun wf_payload :: "payload \<Rightarrow> bool"
  and wf_dict :: "(dict_key \<times> payload) list \<Rightarrow> bool"
  and wf_list :: "payload list \<Rightarrow> bool" where
  "wf_payload (PEnum v) \<longleftrightarrow> canonical v"
| "wf_payload (PDict items) \<longleftrightarrow> distinct (map fst items) \<and> wf_dict items"
| "wf_payload (PList vs) \<longleftrightarrow> wf_list vs"
| "wf_payload (PTuple vs) \<longleftrightarrow> wf_list vs"
| "wf_payload _ \<longleftrightarrow> True"
| "wf_dict [] \<longleftrightarrow> True"
| "wf_dict ((k, v) # items) \<longleftrightarrow> wf_payload v \<and> wf_dict items"
| "wf_list [] \<longleftrightarrow> True"
| "wf_list (v # vs) \<longleftrightarrow> wf_payload v \<and> wf_list vs"

lemma canonicalize_keys: "canonicalize_items items = Inr ms \<Longrightarrow> map fst items = map (\<lambda>m. KStr (fst m)) ms"
  by (induction items arbitrary: ms) (auto simp: rbind_Inr_iff split: dict_key.splits)

lemma distinct_KStr: "distinct (map (\<lambda>m. KStr (fst m)) ms) \<longleftrightarrow> distinct (map fst ms)"
  by (induction ms) auto

lemma canonicalize_canonical:
  "canonicalize_payload v = Inr j \<Longrightarrow> wf_payload v \<Longrightarrow> canonical j"
  "canonicalize_items items = Inr ms \<Longrightarrow> wf_dict items \<Longrightarrow> canonical_members ms"
  "canonicalize_all vs = Inr js \<Longrightarrow> wf_list vs \<Longrightarrow> canonical_items js"
proof (induction v and items and vs arbitrary: j and ms and js
    rule: canonicalize_payload_canonicalize_items_canonicalize_all.induct)
  case (9 items)
  then obtain ms where ms: "canonicalize_items items = Inr ms" "j = JObj (sort_key fst ms)"
    by (auto simp: rbind_Inr_iff)
  then have "distinct (map fst ms)" using 9(3) canonicalize_keys [OF ms(1)] by (simp add: distinct_KStr)
  then have "distinct (map fst (sort_key fst ms))"
    by (simp add: distinct_map inj_on_def)
  with 9 ms show ?case by (simp add: canonical_members_all)
qed (auto simp: rbind_Inr_iff split: if_splits dict_key.splits)

fun as_payload :: "json \<Rightarrow> payload"
  and as_dict :: "(string \<times> json) list \<Rightarrow> (dict_key \<times> payload) list"
  and as_list :: "json list \<Rightarrow> payload list" where
  "as_payload JNull = PNone"
| "as_payload (JBool b) = PBool b"
| "as_payload (JInt i) = PInt i"
| "as_payload (JFloat t) = PFloat t"
| "as_payload (JStr s) = PStr s"
| "as_payload (JArr js) = PList (as_list js)"
| "as_payload (JObj ms) = PDict (as_dict ms)"
| "as_dict [] = []"
| "as_dict ((k, j) # ms) = (KStr k, as_payload j) # as_dict ms"
| "as_list [] = []"
| "as_list (j # js) = as_payload j # as_list js"

lemma canonicalize_as_payload:
  "canonical j \<Longrightarrow> canonicalize_payload (as_payload j) = Inr j"
  "canonical_members ms \<Longrightarrow> canonicalize_items (as_dict ms) = Inr ms"
  "canonical_items js \<Longrightarrow> canonicalize_all (as_list js) = Inr js"
  by (induction j and ms and js rule: as_payload_as_dict_as_list.induct) (simp_all add: sort_key_id_if_sorted)

section \<open>The order of insertion does not show\<close>

text \<open>Two values that differ, at any depth, in the order of dict items and in list against tuple.\<close>

inductive same_value :: "payload \<Rightarrow> payload \<Rightarrow> bool"
  and same_items :: "(dict_key \<times> payload) list \<Rightarrow> (dict_key \<times> payload) list \<Rightarrow> bool"
  and same_list :: "payload list \<Rightarrow> payload list \<Rightarrow> bool" where
  same_refl: "same_value v v"
| same_lists: "same_list vs ws \<Longrightarrow> v \<in> {PList vs, PTuple vs} \<Longrightarrow> w \<in> {PList ws, PTuple ws} \<Longrightarrow> same_value v w"
| same_dicts: "same_items xs ys \<Longrightarrow> set ys = set zs \<Longrightarrow> distinct (map fst ys) \<Longrightarrow> distinct (map fst zs) \<Longrightarrow>
    same_value (PDict xs) (PDict zs)"
| items_Nil: "same_items [] []"
| items_Cons: "same_value v w \<Longrightarrow> same_items xs ys \<Longrightarrow> same_items ((k, v) # xs) ((k, w) # ys)"
| list_Nil: "same_list [] []"
| list_Cons: "same_value v w \<Longrightarrow> same_list vs ws \<Longrightarrow> same_list (v # vs) (w # ws)"

definition item_becomes :: "dict_key \<times> payload \<Rightarrow> string \<times> json \<Rightarrow> bool" where
  "item_becomes x m \<longleftrightarrow> fst x = KStr (fst m) \<and> canonicalize_payload (snd x) = Inr (snd m)"

lemma canonicalize_items_iff: "canonicalize_items xs = Inr ms \<longleftrightarrow> list_all2 item_becomes xs ms"
proof (induction xs arbitrary: ms)
  case (Cons x xs)
  then show ?case
    by (cases x; cases ms)
      (auto simp: rbind_Inr_iff item_becomes_def split: dict_key.splits)
qed (auto simp: list_all2_Nil)

lemma item_becomes_unique: "item_becomes x m \<Longrightarrow> item_becomes x m' \<Longrightarrow> m = m'"
  by (auto simp: item_becomes_def prod_eq_iff)

lemma canonicalized_set:
  assumes "canonicalize_items xs = Inr ms"
  shows "set ms = {m. \<exists>x \<in> set xs. item_becomes x m}"
  using assms unfolding canonicalize_items_iff
  by (induction rule: list_all2_induct) (auto dest: item_becomes_unique)

lemma canonicalize_items_same_set:
  assumes "canonicalize_items xs = Inr ms" "set ys = set xs"
  obtains ms' where "canonicalize_items ys = Inr ms'" "set ms' = set ms"
proof -
  have "\<exists>m. item_becomes x m" if "x \<in> set xs" for x
    using assms(1) that unfolding canonicalize_items_iff by (induction rule: list_all2_induct) auto
  then obtain g where "\<forall>x \<in> set ys. item_becomes x (g x)" using assms(2) by metis
  then have c: "canonicalize_items ys = Inr (map g ys)"
    unfolding canonicalize_items_iff by (simp add: list_all2_conv_all_nth)
  show thesis
    using that [OF c] canonicalized_set [OF c] canonicalized_set [OF assms(1)] assms(2) by simp
qed

lemma dict_order_irrelevant:
  assumes "set ys = set zs" "distinct (map fst ys)" "distinct (map fst zs)"
    and "canonicalize_payload (PDict ys) = Inr j"
  shows "canonicalize_payload (PDict zs) = Inr j"
proof -
  obtain ms where ms: "canonicalize_items ys = Inr ms" "j = JObj (sort_key fst ms)"
    using assms(4) by (auto simp: rbind_Inr_iff)
  obtain ms' where ms': "canonicalize_items zs = Inr ms'" "set ms' = set ms"
    using canonicalize_items_same_set [OF ms(1)] assms(1) by metis
  have d: "distinct (map fst ms)" "distinct (map fst ms')"
    using assms(2,3) canonicalize_keys [OF ms(1)] canonicalize_keys [OF ms'(1)] by (simp_all add: distinct_KStr)
  have "sort_key fst ms' = sort_key fst ms"
  proof (rule map_sorted_distinct_set_unique [where f = fst])
    show "inj_on fst (set (sort_key fst ms') \<union> set (sort_key fst ms))" using d ms'(2) by (simp add: distinct_map)
    show "distinct (map fst (sort_key fst ms'))" "distinct (map fst (sort_key fst ms))"
      using d by (simp_all add: distinct_map)
  qed (use ms'(2) in simp_all)
  then show ?thesis using ms ms' by simp
qed

lemma same_value_canonical:
  "same_value v w \<Longrightarrow> canonicalize_payload v = Inr j \<longleftrightarrow> canonicalize_payload w = Inr j"
  "same_items xs ys \<Longrightarrow> canonicalize_items xs = Inr ms \<longleftrightarrow> canonicalize_items ys = Inr ms"
  "same_list vs ws \<Longrightarrow> canonicalize_all vs = Inr js \<longleftrightarrow> canonicalize_all ws = Inr js"
proof (induction arbitrary: j and ms and js rule: same_value_same_items_same_list.inducts)
  case (same_dicts xs ys zs)
  then have "canonicalize_payload (PDict xs) = Inr j \<longleftrightarrow> canonicalize_payload (PDict ys) = Inr j"
    by (simp add: rbind_Inr_iff)
  also have "\<dots> \<longleftrightarrow> canonicalize_payload (PDict zs) = Inr j"
    using dict_order_irrelevant [OF same_dicts(2-4)]
      dict_order_irrelevant [OF same_dicts(2) [symmetric] same_dicts(4,3)] by blast
  finally show ?case .
next
  case (same_lists vs ws v w)
  then show ?case by (auto simp: rbind_Inr_iff)
next
  case (items_Cons v w xs ys k)
  then show ?case by (cases k) (simp_all add: rbind_Inr_iff)
next
  case (list_Cons v w vs ws)
  then show ?case by (simp add: rbind_Inr_iff)
qed simp_all

section \<open>The canonical text\<close>

text \<open>
  C40. The canonical text of a payload, and so its hash, does not depend on the order in which the
  items of its dicts were inserted, at any depth, nor on lists against tuples; it reads back,
  through the JSON reader, to the canonical value; and canonicalising the value read gives the
  same text again.
\<close>

theorem canonical_text:
  assumes "same_value v w" and "wf_payload v"
  shows "(payload_sha256 sha v = Inr h \<longleftrightarrow> payload_sha256 sha w = Inr h) \<and>
    (canonical_json_dumps v = Inr t \<longrightarrow>
      (\<exists>j. canonicalize_payload v = Inr j \<and> json_loads t = Inr j \<and> canonical_json_dumps (as_payload j) = Inr t))"
proof (intro conjI impI)
  show "payload_sha256 sha v = Inr h \<longleftrightarrow> payload_sha256 sha w = Inr h"
    unfolding payload_sha256_def canonical_json_dumps_def
    by (auto simp: rbind_Inr_iff same_value_canonical(1) [OF assms(1)])
next
  assume "canonical_json_dumps v = Inr t"
  then obtain j where j: "canonicalize_payload v = Inr j" "t = json_dumps j"
    by (auto simp: canonical_json_dumps_def rbind_Inr_iff)
  have "canonical j" using canonicalize_canonical(1) [OF j(1) assms(2)] .
  then show "\<exists>j. canonicalize_payload v = Inr j \<and> json_loads t = Inr j \<and> canonical_json_dumps (as_payload j) = Inr t"
    using j by (auto simp: canonical_json_dumps_def canonicalize_as_payload canonical_wf loads_dumps)
qed

definition example_payload :: payload where
  "example_payload =
     PDict [(KStr ''weight'', PDecimal True ''5.0''), (KStr ''ids'', PTuple [PStr ''a'', PNone])]"

definition example_payload_reordered :: payload where
  "example_payload_reordered =
     PDict [(KStr ''ids'', PList [PStr ''a'', PNone]), (KStr ''weight'', PDecimal True ''5.0'')]"

theorem canonical_text_witness:
  "payload_sha256 id example_payload_reordered =
     Inr (CHR ''{'' # encode_string ''ids'' @ '':['' @ encode_string ''a'' @ '',null],'' @
       encode_string ''weight'' @ '':'' @ encode_string ''5.0'' @ ''}'') \<and>
   (\<exists>j t. canonical_json_dumps example_payload = Inr t \<and> json_loads t = Inr j)"
proof
  have same: "same_value example_payload example_payload_reordered"
    unfolding example_payload_def example_payload_reordered_def
    by (rule same_dicts [OF items_Cons [OF same_refl items_Cons [OF same_lists items_Nil]]])
      (auto intro: list_Cons list_Nil same_refl)
  have wf: "wf_payload example_payload" by (simp add: example_payload_def)
  have "payload_sha256 id example_payload = Inr (CHR ''{'' # encode_string ''ids'' @ '':['' @ encode_string ''a'' @
      '',null],'' @ encode_string ''weight'' @ '':'' @ encode_string ''5.0'' @ ''}'')"
    by (simp add: example_payload_def payload_sha256_def canonical_json_dumps_def)
  then show "payload_sha256 id example_payload_reordered = Inr (CHR ''{'' # encode_string ''ids'' @ '':['' @
      encode_string ''a'' @ '',null],'' @ encode_string ''weight'' @ '':'' @ encode_string ''5.0'' @ ''}'')"
    using canonical_text [OF same wf] by blast
  have "\<exists>t. canonical_json_dumps example_payload = Inr t"
    by (simp add: example_payload_def canonical_json_dumps_def)
  then show "\<exists>j t. canonical_json_dumps example_payload = Inr t \<and> json_loads t = Inr j"
    using canonical_text [OF same wf] by blast
qed

end
