(* ===== verification/Decision_Store.thy ===== *)
theory Decision_Store
  imports Canonical_Json
begin

text \<open>
  The decision store: \<^verbatim>\<open>DecisionSnapshot\<close> of \<^verbatim>\<open>src/src/domain/decision.py\<close>, the canonical dict
  of a validation result (\<^verbatim>\<open>src/src/domain/validation.py\<close>) and the SQLite table of
  \<^verbatim>\<open>src/src/decision/sqlite_decision_store.py\<close>. The JSON columns hold text; the timestamp column
  holds the instant its text denotes, as in the ledger. \<open>sha\<close> is the digest of the canonical
  text, \<open>as_bool\<close> the coercion pydantic applies to a field of type \<^verbatim>\<open>bool\<close>.
\<close>

section \<open>Validation results as canonical dicts\<close>

fun severity_str :: "severity \<Rightarrow> string" where
  "severity_str INFO = ''INFO''"
| "severity_str WARNING = ''WARNING''"
| "severity_str ERROR = ''ERROR''"

definition issue_to_dict :: "validation_issue \<Rightarrow> payload" where
  "issue_to_dict i =
     PDict ([(KStr ''code'', PStr (vi_code i)), (KStr ''message'', PStr (vi_message i)),
             (KStr ''severity'', PStr (severity_str (vi_severity i)))] @
            (case vi_path i of None \<Rightarrow> [] | Some p \<Rightarrow> [(KStr ''path'', PStr p)]))"

definition to_canonical_dict :: "validation_result \<Rightarrow> payload" where
  "to_canonical_dict r =
     PDict ([(KStr ''passed'', PBool (vr_passed r)), (KStr ''issues'', PList (map issue_to_dict (vr_issues r)))] @
            (case vr_schema_name r of None \<Rightarrow> [] | Some s \<Rightarrow> [(KStr ''schema_name'', PStr s)]) @
            (case vr_validator_version r of None \<Rightarrow> [] | Some s \<Rightarrow> [(KStr ''validator_version'', PStr s)]))"

definition mk_ValidationIssue :: "validation_issue \<Rightarrow> validation_issue result" where
  "mk_ValidationIssue i =
     rbind (normalize_required_string (vi_code i)) (\<lambda>code.
     rbind (normalize_required_string (vi_message i)) (\<lambda>message.
     rbind (normalize_optional_string (vi_path i)) (\<lambda>path.
     Inr (i\<lparr>vi_code := code, vi_message := message, vi_path := path\<rparr>))))"

section \<open>Snapshots\<close>

record full_snapshot =
  ds_decision_id :: string
  ds_created_at :: instant
  ds_schema_name :: string
  ds_raw_payload :: payload
  ds_normalized_payload :: json
  ds_payload_hash :: string
  ds_validation_result :: validation_result
  ds_order_intent_ids :: "string list"
  ds_replay_metadata :: json

text \<open>
  Python's \<^verbatim>\<open>==\<close> on JSON values without floats: dicts compare as maps, \<^verbatim>\<open>True == 1\<close>.
\<close>

fun py_key :: "json \<Rightarrow> json"
  and py_members :: "(string \<times> json) list \<Rightarrow> (string \<times> json) list"
  and py_items :: "json list \<Rightarrow> json list" where
  "py_key JNull = JNull"
| "py_key (JBool b) = JInt (if b then 1 else 0)"
| "py_key (JInt i) = JInt i"
| "py_key (JFloat t) = JFloat t"
| "py_key (JStr s) = JStr s"
| "py_key (JArr js) = JArr (py_items js)"
| "py_key (JObj ms) = JObj (sort_key fst (py_members ms))"
| "py_members [] = []"
| "py_members ((k, j) # ms) = (k, py_key j) # py_members ms"
| "py_items [] = []"
| "py_items (j # js) = py_key j # py_items js"

definition py_eq :: "json \<Rightarrow> json \<Rightarrow> bool" where
  "py_eq a b \<longleftrightarrow> py_key a = py_key b"

definition is_dict :: "payload \<Rightarrow> bool" where
  "is_dict v \<longleftrightarrow> (case v of PDict _ \<Rightarrow> True | _ \<Rightarrow> False)"

definition validate_json_compatible_object :: "payload \<Rightarrow> unit result" where
  "validate_json_compatible_object v =
     rbind (guard (is_dict v) (ValueError ''must be a JSON-compatible object.'')) (\<lambda>_.
     rbind (canonicalize_payload v) (\<lambda>_. Inr ()))"

definition validate_snapshot_consistency :: "(string \<Rightarrow> string) \<Rightarrow> full_snapshot \<Rightarrow> full_snapshot result" where
  "validate_snapshot_consistency sha s =
     rbind (canonicalize_payload (ds_raw_payload s)) (\<lambda>expected_normalized.
     rbind (guard (py_eq (ds_normalized_payload s) expected_normalized)
       (ValueError ''normalized_payload must equal canonicalize_payload(raw_payload).'')) (\<lambda>_.
     rbind (payload_sha256 sha (as_payload (ds_normalized_payload s))) (\<lambda>expected_hash.
     rbind (guard (ds_payload_hash s = expected_hash)
       (ValueError ''payload_hash must equal payload_sha256(normalized_payload).'')) (\<lambda>_. Inr s))))"

definition mk_DecisionSnapshot :: "(string \<Rightarrow> string) \<Rightarrow> full_snapshot \<Rightarrow> full_snapshot result" where
  "mk_DecisionSnapshot sha s =
     rbind (normalize_required_string (ds_schema_name s)) (\<lambda>schema.
     rbind (validate_json_compatible_object (ds_raw_payload s)) (\<lambda>_.
     rbind (validate_json_compatible_object (as_payload (ds_normalized_payload s))) (\<lambda>_.
     rbind (normalize_required_string (ds_payload_hash s)) (\<lambda>hash.
     rbind (traverse normalize_required_string (ds_order_intent_ids s)) (\<lambda>ids.
     rbind (validate_json_compatible_object (as_payload (ds_replay_metadata s))) (\<lambda>_.
     validate_snapshot_consistency sha
       (s\<lparr>ds_schema_name := schema, ds_payload_hash := hash, ds_order_intent_ids := ids\<rparr>)))))))"

definition create_snapshot ::
  "(string \<Rightarrow> string) \<Rightarrow> string \<Rightarrow> instant \<Rightarrow> string \<Rightarrow> payload \<Rightarrow> validation_result \<Rightarrow> string list \<Rightarrow>
   payload option \<Rightarrow> full_snapshot result" where
  "create_snapshot sha decision_id created_at schema_name raw_payload validation order_intent_ids replay_metadata =
     rbind (canonicalize_payload raw_payload) (\<lambda>normalized.
     rbind (case replay_metadata of None \<Rightarrow> Inr (JObj []) | Some m \<Rightarrow> canonicalize_payload m) (\<lambda>metadata.
     rbind (payload_sha256 sha (as_payload normalized)) (\<lambda>hash.
     mk_DecisionSnapshot sha
       \<lparr>ds_decision_id = decision_id, ds_created_at = created_at, ds_schema_name = schema_name,
        ds_raw_payload = raw_payload, ds_normalized_payload = normalized, ds_payload_hash = hash,
        ds_validation_result = validation, ds_order_intent_ids = order_intent_ids,
        ds_replay_metadata = metadata\<rparr>)))"

section \<open>The table\<close>

record decision_row =
  dr_decision_id :: string
  dr_created_at :: instant
  dr_schema_name :: string
  dr_raw_payload_json :: string
  dr_normalized_payload_json :: string
  dr_payload_hash :: string
  dr_validation_result_json :: string
  dr_order_intent_ids_json :: string
  dr_replay_metadata_json :: string

type_synonym decision_table = "decision_row list"

datatype snapshot_store_error = DuplicateDecisionIdError string | Store_raised exn

definition lift_exn :: "'a result \<Rightarrow> snapshot_store_error + 'a" where
  "lift_exn x = (case x of Inl e \<Rightarrow> Inl (Store_raised e) | Inr y \<Rightarrow> Inr y)"

definition store_transaction ::
  "(decision_table \<Rightarrow> snapshot_store_error + decision_table) \<Rightarrow> decision_table \<Rightarrow> decision_table \<times> (snapshot_store_error + unit)" where
  "store_transaction body st = (case body st of Inl e \<Rightarrow> (st, Inl e) | Inr st' \<Rightarrow> (st', Inr ()))"

definition snapshot_to_row :: "full_snapshot \<Rightarrow> decision_row result" where
  "snapshot_to_row s =
     rbind (canonical_json_dumps (ds_raw_payload s)) (\<lambda>raw.
     rbind (canonical_json_dumps (as_payload (ds_normalized_payload s))) (\<lambda>normalized.
     rbind (canonical_json_dumps (to_canonical_dict (ds_validation_result s))) (\<lambda>validation.
     rbind (canonical_json_dumps (PList (map PStr (ds_order_intent_ids s)))) (\<lambda>ids.
     rbind (canonical_json_dumps (as_payload (ds_replay_metadata s))) (\<lambda>metadata.
     Inr \<lparr>dr_decision_id = ds_decision_id s, dr_created_at = ds_created_at s, dr_schema_name = ds_schema_name s,
        dr_raw_payload_json = raw, dr_normalized_payload_json = normalized, dr_payload_hash = ds_payload_hash s,
        dr_validation_result_json = validation, dr_order_intent_ids_json = ids,
        dr_replay_metadata_json = metadata\<rparr>)))))"

definition save_decision_snapshot :: "decision_table \<Rightarrow> full_snapshot \<Rightarrow> snapshot_store_error + decision_table" where
  "save_decision_snapshot st s =
     rbind (lift_exn (snapshot_to_row s)) (\<lambda>row.
     case tbl_insert dr_decision_id row st of
       Inl e \<Rightarrow> Inl (DuplicateDecisionIdError (''decision_id already exists: '' @ ds_decision_id s))
     | Inr st' \<Rightarrow> Inr st')"

section \<open>Reading a row\<close>

definition loads_json_object :: "string \<Rightarrow> (string \<times> json) list result" where
  "loads_json_object raw =
     rbind (json_loads raw) (\<lambda>parsed.
     case parsed of JObj ms \<Rightarrow> Inr ms | _ \<Rightarrow> Inl (ValueError ''must contain a JSON object.''))"

definition loads_json_array :: "string \<Rightarrow> json list result" where
  "loads_json_array raw =
     rbind (json_loads raw) (\<lambda>parsed.
     case parsed of JArr js \<Rightarrow> Inr js | _ \<Rightarrow> Inl (ValueError ''must contain a JSON array.''))"

text \<open>A string field: \<^verbatim>\<open>normalize_required_string\<close> refuses what is not a \<^verbatim>\<open>str\<close>.\<close>

definition required_text :: "json \<Rightarrow> string result" where
  "required_text j = (case j of JStr s \<Rightarrow> normalize_required_string s | _ \<Rightarrow> Inl (ValueError ''must be a string.''))"

definition optional_text :: "json option \<Rightarrow> string option result" where
  "optional_text x =
     (case x of
        None \<Rightarrow> Inr None
      | Some j \<Rightarrow> if j = JNull then Inr None else rbind (required_text j) (\<lambda>s. Inr (Some s)))"

definition subscript :: "(string \<times> json) list \<Rightarrow> string \<Rightarrow> json result" where
  "subscript ms k = require (KeyError k) (map_of ms k)"

definition severity_of_json :: "json \<Rightarrow> severity result" where
  "severity_of_json j =
     (case j of JStr s \<Rightarrow> enum_of_str severity_str [INFO, WARNING, ERROR] s
      | _ \<Rightarrow> Inl (ValueError ''is not a valid ValidationSeverity''))"

definition loads_issue :: "json \<Rightarrow> validation_issue result" where
  "loads_issue j =
     (case j of
        JObj ms \<Rightarrow>
          rbind (subscript ms ''code'') (\<lambda>code.
          rbind (subscript ms ''message'') (\<lambda>message.
          rbind (subscript ms ''severity'') (\<lambda>sv.
          rbind (severity_of_json sv) (\<lambda>severity.
          rbind (required_text code) (\<lambda>code.
          rbind (required_text message) (\<lambda>message.
          rbind (optional_text (map_of ms ''path'')) (\<lambda>path.
          Inr \<lparr>vi_code = code, vi_message = message, vi_severity = severity, vi_path = path\<rparr>)))))))
      | _ \<Rightarrow> Inl (TypeError ''indices must be integers''))"

definition loads_validation_result :: "(json \<Rightarrow> bool option) \<Rightarrow> string \<Rightarrow> validation_result result" where
  "loads_validation_result as_bool raw =
     rbind (loads_json_object raw) (\<lambda>ms.
     rbind (case map_of ms ''issues'' of
              None \<Rightarrow> Inr []
            | Some (JArr js) \<Rightarrow> Inr js
            | Some _ \<Rightarrow> Inl (ValueError ''validation_result_json.issues must be a JSON array.'')) (\<lambda>issues_payload.
     rbind (traverse loads_issue issues_payload) (\<lambda>issues.
     rbind (subscript ms ''passed'') (\<lambda>p.
     rbind (require (ValueError ''Input should be a valid boolean'') (as_bool p)) (\<lambda>passed.
     rbind (optional_text (map_of ms ''schema_name'')) (\<lambda>schema.
     rbind (optional_text (map_of ms ''validator_version'')) (\<lambda>version.
     mk_ValidationResult
       \<lparr>vr_passed = passed, vr_issues = issues, vr_schema_name = schema,
        vr_validator_version = version\<rparr>)))))))"

definition row_to_decision_snapshot ::
  "(string \<Rightarrow> string) \<Rightarrow> (json \<Rightarrow> bool option) \<Rightarrow> decision_row \<Rightarrow> full_snapshot result" where
  "row_to_decision_snapshot sha as_bool row =
     rbind (parse_decision_id (dr_decision_id row)) (\<lambda>decision_id.
     rbind (loads_json_object (dr_raw_payload_json row)) (\<lambda>raw.
     rbind (loads_json_object (dr_normalized_payload_json row)) (\<lambda>normalized.
     rbind (loads_validation_result as_bool (dr_validation_result_json row)) (\<lambda>validation.
     rbind (loads_json_array (dr_order_intent_ids_json row)) (\<lambda>id_values.
     rbind (traverse required_text id_values) (\<lambda>ids.
     rbind (loads_json_object (dr_replay_metadata_json row)) (\<lambda>metadata.
     mk_DecisionSnapshot sha
       \<lparr>ds_decision_id = decision_id, ds_created_at = dr_created_at row, ds_schema_name = dr_schema_name row,
        ds_raw_payload = as_payload (JObj raw), ds_normalized_payload = JObj normalized,
        ds_payload_hash = dr_payload_hash row, ds_validation_result = validation,
        ds_order_intent_ids = ids, ds_replay_metadata = JObj metadata\<rparr>)))))))"

datatype id_argument = Given_id string | Given_text string

definition normalize_decision_id_lookup :: "id_argument \<Rightarrow> string result" where
  "normalize_decision_id_lookup a =
     (case a of Given_id v \<Rightarrow> Inr v | Given_text t \<Rightarrow> parse_decision_id t)"

definition get_decision_snapshot ::
  "(string \<Rightarrow> string) \<Rightarrow> (json \<Rightarrow> bool option) \<Rightarrow> decision_table \<Rightarrow> id_argument \<Rightarrow> full_snapshot option result" where
  "get_decision_snapshot sha as_bool st a =
     rbind (normalize_decision_id_lookup a) (\<lambda>decision_id.
     case tbl_get dr_decision_id decision_id st of
       None \<Rightarrow> Inr None
     | Some row \<Rightarrow> rbind (row_to_decision_snapshot sha as_bool row) (\<lambda>s. Inr (Some s)))"

text \<open>
  The listing orders by the text of the timestamp, \<open>isoformat\<close>, then by the id.
\<close>

definition list_decision_snapshots ::
  "(instant \<Rightarrow> string) \<Rightarrow> (string \<Rightarrow> string) \<Rightarrow> (json \<Rightarrow> bool option) \<Rightarrow> decision_table \<Rightarrow> string option \<Rightarrow>
   full_snapshot list result" where
  "list_decision_snapshots isoformat sha as_bool st schema_name =
     traverse (row_to_decision_snapshot sha as_bool)
       (sort_key (\<lambda>r. (isoformat (dr_created_at r), dr_decision_id r))
          (filter (\<lambda>r. case schema_name of None \<Rightarrow> True | Some n \<Rightarrow> dr_schema_name r = n) st))"

section \<open>Validation results are read back\<close>

definition optional_normalised :: "string option \<Rightarrow> bool" where
  "optional_normalised x \<longleftrightarrow> (case x of None \<Rightarrow> True | Some s \<Rightarrow> normalised s)"

definition valid_issue :: "validation_issue \<Rightarrow> bool" where
  "valid_issue i \<longleftrightarrow> normalised (vi_code i) \<and> normalised (vi_message i) \<and> optional_normalised (vi_path i)"

definition valid_validation :: "validation_result \<Rightarrow> bool" where
  "valid_validation r \<longleftrightarrow>
     (\<forall>i \<in> set (vr_issues r). valid_issue i) \<and> optional_normalised (vr_schema_name r) \<and>
     optional_normalised (vr_validator_version r) \<and> mk_ValidationResult r = Inr r"

definition optional_member :: "string \<Rightarrow> string option \<Rightarrow> (string \<times> json) list" where
  "optional_member k x = (case x of None \<Rightarrow> [] | Some s \<Rightarrow> [(k, JStr s)])"

definition issue_json :: "validation_issue \<Rightarrow> json" where
  "issue_json i =
     JObj ([(''code'', JStr (vi_code i)), (''message'', JStr (vi_message i))] @ optional_member ''path'' (vi_path i) @
           [(''severity'', JStr (severity_str (vi_severity i)))])"

definition result_json :: "validation_result \<Rightarrow> json" where
  "result_json r =
     JObj ([(''issues'', JArr (map issue_json (vr_issues r))), (''passed'', JBool (vr_passed r))] @
           optional_member ''schema_name'' (vr_schema_name r) @
           optional_member ''validator_version'' (vr_validator_version r))"

lemma canonicalize_issue: "canonicalize_payload (issue_to_dict i) = Inr (issue_json i)"
  by (cases "vi_path i") (simp_all add: issue_to_dict_def issue_json_def optional_member_def)

lemma canonicalize_all_map:
  "(\<And>x. canonicalize_payload (f x) = Inr (g x)) \<Longrightarrow> canonicalize_all (map f xs) = Inr (map g xs)"
  by (induction xs) simp_all

lemma canonicalize_result: "canonicalize_payload (to_canonical_dict r) = Inr (result_json r)"
  by (cases "vr_schema_name r"; cases "vr_validator_version r")
    (simp_all add: to_canonical_dict_def result_json_def optional_member_def
      canonicalize_all_map [OF canonicalize_issue])

lemma canonical_issue: "canonical (issue_json i)"
  by (cases "vi_path i") (simp_all add: issue_json_def optional_member_def)

lemma canonical_items_all: "canonical_items js \<longleftrightarrow> (\<forall>j \<in> set js. canonical j)"
  by (induction js) auto

lemma canonical_result: "canonical (result_json r)"
  by (cases "vr_schema_name r"; cases "vr_validator_version r")
    (simp_all add: result_json_def optional_member_def canonical_items_all canonical_issue)

lemma severity_roundtrip [simp]: "severity_of_json (JStr (severity_str s)) = Inr s"
  by (cases s) (simp_all add: severity_of_json_def enum_of_str_def)

lemma required_text_normalised [simp]: "normalised s \<Longrightarrow> required_text (JStr s) = Inr s"
  by (simp add: required_text_def)

lemma optional_text_simps [simp]:
  "optional_text None = Inr None"
  "normalised s \<Longrightarrow> optional_text (Some (JStr s)) = Inr (Some s)"
  by (simp_all add: optional_text_def)

lemma loads_issue_json: "valid_issue i \<Longrightarrow> loads_issue (issue_json i) = Inr i"
  by (cases i; cases "vi_path i")
    (simp_all add: loads_issue_def issue_json_def optional_member_def valid_issue_def optional_normalised_def
      subscript_def)

lemma loads_issues: "\<forall>i \<in> set issues. valid_issue i \<Longrightarrow> traverse loads_issue (map issue_json issues) = Inr issues"
  by (induction issues) (simp_all add: loads_issue_json)

lemma loads_validation_json:
  assumes "valid_validation r" "\<And>b. as_bool (JBool b) = Some b"
  shows "loads_validation_result as_bool (json_dumps (result_json r)) = Inr r"
proof -
  have issues: "traverse loads_issue (map issue_json (vr_issues r)) = Inr (vr_issues r)"
    using assms(1) by (simp add: valid_validation_def loads_issues)
  have loads: "json_loads (json_dumps (result_json r)) = Inr (result_json r)"
    by (simp add: loads_dumps canonical_wf canonical_result)
  show ?thesis
    unfolding loads_validation_result_def loads_json_object_def loads
    using assms issues
    by (cases r; cases "vr_schema_name r"; cases "vr_validator_version r")
      (simp_all add: result_json_def optional_member_def subscript_def valid_validation_def optional_normalised_def)
qed

section \<open>Snapshots are read back\<close>

definition hex_digest :: "(string \<Rightarrow> string) \<Rightarrow> bool" where
  "hex_digest sha \<longleftrightarrow> (\<forall>t. length (sha t) = 64 \<and> list_all (\<lambda>c. hex_value c \<noteq> None) (sha t))"

lemma hex_not_space: "hex_value c \<noteq> None \<Longrightarrow> \<not> is_space c"
  by (auto simp: hex_value_def is_space_def Let_def split: if_splits)

lemma hex_digest_normalised: "hex_digest sha \<Longrightarrow> normalised (sha t)"
proof -
  assume "hex_digest sha"
  then have len: "length (sha t) = 64" and "\<forall>c \<in> set (sha t). \<not> is_space c"
    by (auto simp: hex_digest_def list_all_iff hex_not_space)
  moreover have "sha t \<noteq> []" using len by auto
  ultimately show "normalised (sha t)" by (simp add: normalised_def strip_edges)
qed

definition valid_snapshot :: "(string \<Rightarrow> string) \<Rightarrow> full_snapshot \<Rightarrow> bool" where
  "valid_snapshot sha s \<longleftrightarrow>
     parse_decision_id (ds_decision_id s) = Inr (ds_decision_id s) \<and> normalised (ds_schema_name s) \<and>
     (\<exists>ms. ds_normalized_payload s = JObj ms) \<and> canonical (ds_normalized_payload s) \<and>
     canonicalize_payload (ds_raw_payload s) = Inr (ds_normalized_payload s) \<and>
     ds_payload_hash s = sha (json_dumps (ds_normalized_payload s)) \<and>
     valid_validation (ds_validation_result s) \<and> list_all normalised (ds_order_intent_ids s) \<and>
     (\<exists>ms. ds_replay_metadata s = JObj ms) \<and> canonical (ds_replay_metadata s)"

lemma dumps_as_payload: "canonical j \<Longrightarrow> canonical_json_dumps (as_payload j) = Inr (json_dumps j)"
  by (simp add: canonical_json_dumps_def canonicalize_as_payload)

lemma object_as_payload: "canonical (JObj ms) \<Longrightarrow> validate_json_compatible_object (as_payload (JObj ms)) = Inr ()"
  using canonicalize_as_payload(1) [of "JObj ms"]
  by (simp add: validate_json_compatible_object_def is_dict_def)

lemma traverse_normalised: "list_all normalised xs \<Longrightarrow> traverse normalize_required_string xs = Inr xs"
  by (induction xs) simp_all

lemma mk_snapshot_canonical:
  assumes "valid_snapshot sha s" "hex_digest sha" "ds_raw_payload s = as_payload (ds_normalized_payload s)"
  shows "mk_DecisionSnapshot sha s = Inr s"
proof -
  from assms(1) obtain ms mm where m: "ds_normalized_payload s = JObj ms" "ds_replay_metadata s = JObj mm"
    by (auto simp: valid_snapshot_def)
  then have "canonical (JObj ms)" "canonical (JObj mm)" using assms(1) by (simp_all add: valid_snapshot_def)
  note c = this object_as_payload [OF this(1)] object_as_payload [OF this(2)]
    canonicalize_as_payload(1) [OF this(1)] dumps_as_payload [OF this(1)]
  show ?thesis
    using assms c m
    by (simp add: mk_DecisionSnapshot_def validate_snapshot_consistency_def valid_snapshot_def
        traverse_normalised hex_digest_normalised payload_sha256_def py_eq_def del: as_payload.simps canonical.simps)
qed

text \<open>The row of a valid snapshot restores it, with the raw payload in its canonical form.\<close>

definition restored :: "full_snapshot \<Rightarrow> full_snapshot" where
  "restored s = s\<lparr>ds_raw_payload := as_payload (ds_normalized_payload s)\<rparr>"

lemma canonicalize_text_list: "canonicalize_payload (PList (map PStr xs)) = Inr (JArr (map JStr xs))"
  using canonicalize_all_map [of PStr JStr xs] by simp

lemma canonical_text_list: "canonical (JArr (map JStr xs))"
  by (simp add: canonical_items_all)

lemma traverse_required_text: "list_all normalised xs \<Longrightarrow> traverse required_text (map JStr xs) = Inr xs"
  by (induction xs) simp_all

lemma snapshot_row:
  assumes "valid_snapshot sha s"
  shows "snapshot_to_row s = Inr
    \<lparr>dr_decision_id = ds_decision_id s, dr_created_at = ds_created_at s, dr_schema_name = ds_schema_name s,
     dr_raw_payload_json = json_dumps (ds_normalized_payload s),
     dr_normalized_payload_json = json_dumps (ds_normalized_payload s), dr_payload_hash = ds_payload_hash s,
     dr_validation_result_json = json_dumps (result_json (ds_validation_result s)),
     dr_order_intent_ids_json = json_dumps (JArr (map JStr (ds_order_intent_ids s))),
     dr_replay_metadata_json = json_dumps (ds_replay_metadata s)\<rparr>"
proof -
  have "canonical_json_dumps (ds_raw_payload s) = Inr (json_dumps (ds_normalized_payload s))"
    "canonical_json_dumps (to_canonical_dict (ds_validation_result s)) =
       Inr (json_dumps (result_json (ds_validation_result s)))"
    "canonical_json_dumps (PList (map PStr (ds_order_intent_ids s))) =
       Inr (json_dumps (JArr (map JStr (ds_order_intent_ids s))))"
    using assms
    by (simp_all add: canonical_json_dumps_def valid_snapshot_def canonicalize_result
        canonicalize_text_list del: canonicalize_payload.simps json_dumps.simps)
  then show ?thesis
    using assms by (simp add: snapshot_to_row_def valid_snapshot_def dumps_as_payload del: json_dumps.simps)
qed

lemma loads_object: "canonical (JObj ms) \<Longrightarrow> loads_json_object (json_dumps (JObj ms)) = Inr ms"
  unfolding loads_json_object_def by (subst loads_dumps) (simp_all add: canonical_wf)

lemma loads_array: "loads_json_array (json_dumps (JArr (map JStr xs))) = Inr (map JStr xs)"
  unfolding loads_json_array_def by (subst loads_dumps) (rule canonical_wf(1) [OF canonical_text_list], simp)

lemma restored_valid: "valid_snapshot sha s \<Longrightarrow> valid_snapshot sha (restored s)"
  by (auto simp: valid_snapshot_def restored_def canonicalize_as_payload)

lemma row_restores:
  assumes "valid_snapshot sha s" "hex_digest sha" "\<And>b. as_bool (JBool b) = Some b" "snapshot_to_row s = Inr row"
  shows "row_to_decision_snapshot sha as_bool row = Inr (restored s)"
proof -
  from assms(1) obtain ms mm where m: "ds_normalized_payload s = JObj ms" "ds_replay_metadata s = JObj mm"
    by (auto simp: valid_snapshot_def)
  then have c: "canonical (JObj ms)" "canonical (JObj mm)" "valid_validation (ds_validation_result s)"
    "list_all normalised (ds_order_intent_ids s)" "parse_decision_id (ds_decision_id s) = Inr (ds_decision_id s)"
    using assms(1) by (simp_all add: valid_snapshot_def)
  have "mk_DecisionSnapshot sha (restored s) = Inr (restored s)"
    using mk_snapshot_canonical [OF restored_valid [OF assms(1)] assms(2)] by (simp add: restored_def)
  moreover have "restored s =
    \<lparr>ds_decision_id = ds_decision_id s, ds_created_at = ds_created_at s, ds_schema_name = ds_schema_name s,
     ds_raw_payload = as_payload (JObj ms), ds_normalized_payload = JObj ms, ds_payload_hash = ds_payload_hash s,
     ds_validation_result = ds_validation_result s, ds_order_intent_ids = ds_order_intent_ids s,
     ds_replay_metadata = JObj mm\<rparr>"
    using m by (cases s) (simp add: restored_def)
  ultimately show ?thesis
    using assms(4) unfolding snapshot_row [OF assms(1)]
    by (auto simp: row_to_decision_snapshot_def m c(4,5) loads_object [OF c(1)] loads_object [OF c(2)]
        loads_array traverse_required_text
        loads_validation_json [OF c(3) assms(3)] simp del: json_dumps.simps as_payload.simps)
qed

lemma traverse_normalize_all: "traverse normalize_required_string xs = Inr ys \<Longrightarrow> list_all normalised ys"
  by (induction xs arbitrary: ys) (auto simp: rbind_Inr_iff normalize_required_string_Inr)

lemma canonicalize_dict_obj: "is_dict v \<Longrightarrow> canonicalize_payload v = Inr j \<Longrightarrow> \<exists>ms. j = JObj ms"
  by (cases v) (auto simp: is_dict_def rbind_Inr_iff)

lemma py_eq_refl [simp]: "py_eq j j"
  by (simp add: py_eq_def)

lemma create_valid:
  assumes "create_snapshot sha did created schema raw vr ids meta = Inr s"
    and "parse_decision_id did = Inr did" "valid_validation vr" "wf_payload raw"
    and "\<And>m. meta = Some m \<Longrightarrow> wf_payload m" "hex_digest sha"
  shows "valid_snapshot sha s" "ds_decision_id s = did" "canonicalize_payload raw = Inr (ds_normalized_payload s)"
    "ds_created_at s = created" "ds_validation_result s = vr"
proof -
  define mp where "mp = (case meta of None \<Rightarrow> Inr (JObj []) | Some m \<Rightarrow> canonicalize_payload m)"
  from assms(1) obtain nj mj where n: "canonicalize_payload raw = Inr nj" and m: "mp = Inr mj"
    and mk: "mk_DecisionSnapshot sha
       \<lparr>ds_decision_id = did, ds_created_at = created, ds_schema_name = schema, ds_raw_payload = raw,
        ds_normalized_payload = nj, ds_payload_hash = sha (json_dumps nj), ds_validation_result = vr,
        ds_order_intent_ids = ids, ds_replay_metadata = mj\<rparr> = Inr s"
    using canonicalize_canonical(1) [OF _ assms(4)]
    by (auto simp: create_snapshot_def rbind_Inr_iff payload_sha256_def dumps_as_payload mp_def)
  have cn: "canonical nj" using canonicalize_canonical(1) [OF n assms(4)] .
  have cm: "canonical mj" using m assms(5) canonicalize_canonical(1) by (auto simp: mp_def split: option.splits)
  from mk obtain sch hs oids where f: "normalize_required_string schema = Inr sch" "is_dict raw"
    "is_dict (as_payload mj)" "normalize_required_string (sha (json_dumps nj)) = Inr hs"
    "traverse normalize_required_string ids = Inr oids"
    and s: "s = \<lparr>ds_decision_id = did, ds_created_at = created, ds_schema_name = sch, ds_raw_payload = raw,
        ds_normalized_payload = nj, ds_payload_hash = hs, ds_validation_result = vr,
        ds_order_intent_ids = oids, ds_replay_metadata = mj\<rparr>"
    by (auto simp: mk_DecisionSnapshot_def rbind_Inr_iff validate_json_compatible_object_def
        validate_snapshot_consistency_def)
  have "hs = sha (json_dumps nj)" using f(4) hex_digest_normalised [OF assms(6)] by simp
  moreover have "\<exists>ms. nj = JObj ms" using canonicalize_dict_obj [OF f(2) n] .
  moreover have "\<exists>ms. mj = JObj ms" using f(3) by (cases mj) (simp_all add: is_dict_def)
  ultimately show "valid_snapshot sha s"
    using f(1,5) n cn cm assms(2,3)
    by (auto simp: valid_snapshot_def s normalize_required_string_Inr traverse_normalize_all)
qed (use assms in \<open>auto simp: create_snapshot_def mk_DecisionSnapshot_def validate_snapshot_consistency_def
      rbind_Inr_iff\<close>)

definition dict_payload :: "payload \<Rightarrow> bool" where
  "dict_payload v \<longleftrightarrow> is_dict v \<and> wf_payload v \<and> (\<exists>j. canonicalize_payload v = Inr j)"

lemma dict_payloadE:
  assumes "dict_payload v"
  obtains ms where "canonicalize_payload v = Inr (JObj ms)" "canonical (JObj ms)" "wf_payload v"
    "validate_json_compatible_object v = Inr ()"
proof -
  from assms obtain j where j: "canonicalize_payload v = Inr j" "is_dict v" "wf_payload v"
    by (auto simp: dict_payload_def)
  then obtain ms where "j = JObj ms" using canonicalize_dict_obj by blast
  with j that canonicalize_canonical(1) [OF j(1,3)] show thesis
    by (simp add: validate_json_compatible_object_def)
qed

lemma create_succeeds:
  assumes "dict_payload raw" "normalised schema" "list_all normalised ids" "\<And>m. meta = Some m \<Longrightarrow> dict_payload m"
    and "hex_digest sha"
  shows "\<exists>s. create_snapshot sha did created schema raw vr ids meta = Inr s"
proof -
  obtain ms where raw: "canonicalize_payload raw = Inr (JObj ms)" "canonical (JObj ms)"
    "validate_json_compatible_object raw = Inr ()"
    using dict_payloadE [OF assms(1)] by metis
  have "\<exists>mm. (case meta of None \<Rightarrow> Inr (JObj []) | Some m \<Rightarrow> canonicalize_payload m) = Inr (JObj mm) \<and>
    canonical (JObj mm)"
  proof (cases meta)
    case (Some m)
    then show ?thesis using dict_payloadE [OF assms(4) [OF Some]] by (metis option.case(2))
  qed simp
  then obtain mm where mm: "(case meta of None \<Rightarrow> Inr (JObj []) | Some m \<Rightarrow> canonicalize_payload m) = Inr (JObj mm)"
    "canonical (JObj mm)" by blast
  note c = object_as_payload [OF raw(2)] object_as_payload [OF mm(2)] dumps_as_payload [OF raw(2)]
  show ?thesis
    unfolding create_snapshot_def mm
    using raw(1,3) c assms hex_digest_normalised [OF assms(5)]
    by (simp add: payload_sha256_def mk_DecisionSnapshot_def validate_snapshot_consistency_def
        traverse_normalised del: as_payload.simps)
qed

section \<open>The store keeps what it was given\<close>

lemma save_Inr_iff:
  "save_decision_snapshot st s = Inr st' \<longleftrightarrow>
     (\<exists>row. snapshot_to_row s = Inr row \<and> tbl_get dr_decision_id (dr_decision_id row) st = None \<and> st' = st @ [row])"
  by (auto simp: save_decision_snapshot_def rbind_Inr_iff lift_exn_def tbl_insert_def split: sum.splits)

lemma snapshot_row_id: "snapshot_to_row s = Inr row \<Longrightarrow> dr_decision_id row = ds_decision_id s"
  by (auto simp: snapshot_to_row_def rbind_Inr_iff)

text \<open>
  C39. A snapshot that \<open>create\<close> built and the store accepted is read back by its id: every field
  is restored, the raw payload in its canonical form. No other id of the store reads differently
  afterwards, and the store refuses a second snapshot under the same id.
\<close>

theorem snapshot_roundtrip:
  assumes "create_snapshot sha did created schema raw vr ids meta = Inr s"
    and "parse_decision_id did = Inr did" "valid_validation vr" "wf_payload raw"
    and "\<And>m. meta = Some m \<Longrightarrow> wf_payload m"
    and "hex_digest sha" "\<And>b. as_bool (JBool b) = Some b"
    and "save_decision_snapshot st s = Inr st'"
  shows "get_decision_snapshot sha as_bool st' (Given_id did) =
      Inr (Some (s\<lparr>ds_raw_payload := as_payload (ds_normalized_payload s)\<rparr>)) \<and>
    (\<forall>k. k \<noteq> did \<longrightarrow>
      get_decision_snapshot sha as_bool st' (Given_id k) = get_decision_snapshot sha as_bool st (Given_id k)) \<and>
    (\<forall>s2 row. ds_decision_id s2 = did \<longrightarrow> snapshot_to_row s2 = Inr row \<longrightarrow>
      save_decision_snapshot st' s2 = Inl (DuplicateDecisionIdError (''decision_id already exists: '' @ did)))"
proof -
  note valid = create_valid [OF assms(1-6)]
  obtain row where row: "snapshot_to_row s = Inr row" "tbl_get dr_decision_id did st = None" "st' = st @ [row]"
    and id: "dr_decision_id row = did"
    using assms(8) valid(2) snapshot_row_id [of s] by (auto simp: save_Inr_iff)
  have get: "tbl_get dr_decision_id k st' = (if k = did then Some row else tbl_get dr_decision_id k st)" for k
    using row id by (auto simp: tbl_get_append split: option.splits)
  have "row_to_decision_snapshot sha as_bool row = Inr (restored s)"
    by (rule row_restores [OF valid(1) assms(6,7) row(1)])
  moreover have "save_decision_snapshot st' s2 = Inl (DuplicateDecisionIdError (''decision_id already exists: '' @ did))"
    if "ds_decision_id s2 = did" "snapshot_to_row s2 = Inr row2" for s2 row2
    using that get snapshot_row_id [OF that(2)] by (simp add: save_decision_snapshot_def lift_exn_def tbl_insert_def)
  ultimately show ?thesis
    by (auto simp: get_decision_snapshot_def normalize_decision_id_lookup_def get restored_def)
qed

definition example_sha :: "string \<Rightarrow> string" where
  "example_sha t = replicate 64 (CHR ''0'')"

fun example_bool :: "json \<Rightarrow> bool option" where
  "example_bool (JBool b) = Some b"
| "example_bool _ = None"

definition example_verdict :: validation_result where
  "example_verdict =
     \<lparr>vr_passed = True, vr_issues = [\<lparr>vi_code = ''C'', vi_message = ''m'', vi_severity = INFO, vi_path = None\<rparr>],
      vr_schema_name = Some ''paper_loop.v1'', vr_validator_version = None\<rparr>"

lemma example_sha_hex: "hex_digest example_sha"
  by (simp add: hex_digest_def example_sha_def list_all_iff)

lemma example_verdict_valid: "valid_validation example_verdict"
  by (simp add: valid_validation_def example_verdict_def valid_issue_def optional_normalised_def
      normalised_def strip_def is_space_def mk_ValidationResult_def has_error_issue_def)

lemma example_payload_dict: "dict_payload example_payload"
  by (simp add: dict_payload_def example_payload_def is_dict_def)

theorem snapshot_roundtrip_witness:
  "\<exists>s st. create_snapshot example_sha ''run-1'' 0 ''paper_loop.v1'' example_payload example_verdict [''o-1''] None = Inr s \<and>
     save_decision_snapshot [] s = Inr st \<and>
     get_decision_snapshot example_sha example_bool st (Given_id ''run-1'') =
       Inr (Some (s\<lparr>ds_raw_payload := as_payload (ds_normalized_payload s)\<rparr>)) \<and>
     save_decision_snapshot st s = Inl (DuplicateDecisionIdError ''decision_id already exists: run-1'')"
proof -
  have id: "parse_decision_id ''run-1'' = Inr ''run-1''"
    by (simp add: parse_decision_id_def parse_non_blank_identifier_def strip_def is_space_def
        is_decision_id_char_def is_letter_def is_digit_def)
  have wf: "wf_payload example_payload" using example_payload_dict by (simp add: dict_payload_def)
  have texts: "normalised ''paper_loop.v1''" "list_all normalised [''o-1'']"
    by (simp_all add: normalised_def strip_def is_space_def)
  obtain s where s: "create_snapshot example_sha ''run-1'' 0 ''paper_loop.v1'' example_payload example_verdict
      [''o-1''] None = Inr s"
    using create_succeeds [OF example_payload_dict texts, of None] example_sha_hex by blast
  note v = create_valid [OF s id example_verdict_valid wf _ example_sha_hex]
  obtain row where row: "snapshot_to_row s = Inr row" using snapshot_row [OF v(1)] by simp
  obtain st where st: "save_decision_snapshot [] s = Inr st" using row by (auto simp: save_Inr_iff)
  show ?thesis
    using s st row v(2) snapshot_roundtrip [OF s id example_verdict_valid wf _ example_sha_hex _ st, of example_bool]
    by auto
qed

end
