(* ===== verification/Paper_Loop.thy ===== *)
theory Paper_Loop
  imports Decision_Store Quantity_Resolver Paper_Broker
begin

text \<open>
  The paper loop of \<^verbatim>\<open>src/src/paper_loop\<close> (\<^verbatim>\<open>models.py\<close>, \<^verbatim>\<open>runner.py\<close>, \<^verbatim>\<open>replay.py\<close>): one
  validated pair of decisions goes through the risk filter, the order generator, the quantity
  resolver and the paper broker, and the decision store keeps a snapshot of the inputs and of the
  outcome. The state is the decision table and the ledger; a run returns it together with the
  result or the exception that escaped. Of the optional scout summary only its id is read.
\<close>

section \<open>Input\<close>

definition PAPER_LOOP_SCHEMA :: string where "PAPER_LOOP_SCHEMA = ''paper_loop.v1''"
definition PAPER_LOOP_VALIDATOR_VERSION :: string where "PAPER_LOOP_VALIDATOR_VERSION = ''phase11''"
definition ALLOCATOR_VALIDATOR_VERSION :: string where "ALLOCATOR_VALIDATOR_VERSION = ''phase8''"
definition ANALYSIS_VALIDATOR_VERSION :: string where "ANALYSIS_VALIDATOR_VERSION = ''phase9''"
definition PAPER_LOOP_DUPLICATE_SNAPSHOT :: string where
  "PAPER_LOOP_DUPLICATE_SNAPSHOT = ''PAPER_LOOP_DUPLICATE_SNAPSHOT''"
definition PAPER_LOOP_INPUT_VALIDATION_FAILED :: string where
  "PAPER_LOOP_INPUT_VALIDATION_FAILED = ''PAPER_LOOP_INPUT_VALIDATION_FAILED''"

datatype paper_loop_status = PL_FILLED | PL_BROKER_REJECTED | PL_RISK_BLOCKED | PL_NOOP | PL_QUANTITY_FAILED
  | PL_VALIDATION_FAILED

fun paper_loop_status_str :: "paper_loop_status \<Rightarrow> string" where
  "paper_loop_status_str PL_FILLED = ''filled''"
| "paper_loop_status_str PL_BROKER_REJECTED = ''broker_rejected''"
| "paper_loop_status_str PL_RISK_BLOCKED = ''risk_blocked''"
| "paper_loop_status_str PL_NOOP = ''noop''"
| "paper_loop_status_str PL_QUANTITY_FAILED = ''quantity_failed''"
| "paper_loop_status_str PL_VALIDATION_FAILED = ''validation_failed''"

record paper_loop_input =
  pl_run_id :: id_argument
  pl_created_at :: instant
  pl_scout_summary_id :: "string option"
  pl_allocator_decision :: allocator_decision
  pl_analysis_decision :: analysis_decision
  pl_risk_context :: risk_filter_context
  pl_market_price :: market_price
  pl_broker_account_role :: account_role
  pl_correlation_id :: "string option"
  pl_metadata :: payload

fun loop_expected_currency :: "market \<Rightarrow> currency" where
  "loop_expected_currency KR = KRW"
| "loop_expected_currency US = USD"

definition upper_char :: "char \<Rightarrow> char" where
  "upper_char c = (let n = (of_char c :: nat) in if 97 \<le> n \<and> n \<le> 122 then char_of (n - 32) else c)"

definition analysis_market :: "analysis_decision \<Rightarrow> market result" where
  "analysis_market a = market_of_str (map upper_char (an_market a))"

text \<open>A dict equals its canonical form when it holds nothing the canonical form rewrites.\<close>

fun plain_payload :: "payload \<Rightarrow> bool"
  and plain_dict :: "(dict_key \<times> payload) list \<Rightarrow> bool"
  and plain_list :: "payload list \<Rightarrow> bool" where
  "plain_payload PNone \<longleftrightarrow> True"
| "plain_payload (PBool b) \<longleftrightarrow> True"
| "plain_payload (PStr s) \<longleftrightarrow> True"
| "plain_payload (PInt i) \<longleftrightarrow> True"
| "plain_payload (PDict items) \<longleftrightarrow> plain_dict items"
| "plain_payload (PList vs) \<longleftrightarrow> plain_list vs"
| "plain_payload _ \<longleftrightarrow> False"
| "plain_dict [] \<longleftrightarrow> True"
| "plain_dict ((k, v) # items) \<longleftrightarrow> plain_payload v \<and> plain_dict items"
| "plain_list [] \<longleftrightarrow> True"
| "plain_list (v # vs) \<longleftrightarrow> plain_payload v \<and> plain_list vs"

definition validate_paper_loop_input :: "paper_loop_input \<Rightarrow> paper_loop_input result" where
  "validate_paper_loop_input x =
     rbind (guard (pl_broker_account_role x = PAPER)
       (ValueError ''PaperLoopInput broker_account_role must be PAPER.'')) (\<lambda>_.
     rbind (guard (mp_symbol (pl_market_price x) = an_symbol (pl_analysis_decision x))
       (ValueError ''market_price.symbol must match analysis_decision.symbol.'')) (\<lambda>_.
     rbind (analysis_market (pl_analysis_decision x)) (\<lambda>expected_market.
     rbind (guard (mp_market (pl_market_price x) = expected_market)
       (ValueError ''market_price.market must match analysis_decision.market.'')) (\<lambda>_.
     rbind (guard (mp_currency (pl_market_price x) = loop_expected_currency (mp_market (pl_market_price x)))
       (ValueError ''market_price.currency must match the market.'')) (\<lambda>_.
     rbind (canonicalize_payload (pl_metadata x)) (\<lambda>_.
     rbind (guard (plain_payload (pl_metadata x))
       (ValueError ''metadata must be in canonical JSON-compatible form.'')) (\<lambda>_.
     rbind (guard (al_schema_name (pl_allocator_decision x) = ALLOCATOR_DECISION_SCHEMA)
       (ValueError ''allocator_decision.schema_name must be allocator_decision.v1.'')) (\<lambda>_.
     rbind (guard (an_schema_name (pl_analysis_decision x) = ANALYSIS_DECISION_SCHEMA)
       (ValueError ''analysis_decision.schema_name must be analysis_decision.v1.'')) (\<lambda>_. Inr x)))))))))"

definition mk_PaperLoopInput :: "paper_loop_input \<Rightarrow> paper_loop_input result" where
  "mk_PaperLoopInput x =
     rbind (case pl_run_id x of
              Given_id v \<Rightarrow> Inr (Given_id v)
            | Given_text t \<Rightarrow> rbind (normalize_required_string t) (\<lambda>t. Inr (Given_text t))) (\<lambda>run_id.
     rbind (normalize_optional_string (pl_correlation_id x)) (\<lambda>correlation_id.
     rbind (guard (is_dict (pl_metadata x)) (ValueError ''metadata must be a JSON-compatible object.'')) (\<lambda>_.
     rbind (canonicalize_payload (pl_metadata x)) (\<lambda>_.
     validate_paper_loop_input (x\<lparr>pl_run_id := run_id, pl_correlation_id := correlation_id\<rparr>)))))"

definition normalized_run_id :: "paper_loop_input \<Rightarrow> string result" where
  "normalized_run_id x = normalize_decision_id_lookup (pl_run_id x)"

section \<open>Result\<close>

record paper_loop_result =
  plr_status :: paper_loop_status
  plr_validation_result :: validation_result
  plr_risk_result :: validation_result
  plr_order_generation_result :: order_generation_result
  plr_quantity_resolution_result :: "quantity_resolution_result option"
  plr_generated_order_intent :: "order_intent option"
  plr_executable_order_intent :: "order_intent option"
  plr_broker_order_result :: "order_result option"
  plr_fill :: "fill option"
  plr_nav_snapshot :: "nav_snapshot option"
  plr_decision_snapshot_ids :: "string list"
  plr_correlation_id :: "string option"

definition passed_validation_result :: "string \<Rightarrow> string \<Rightarrow> validation_result" where
  "passed_validation_result schema version =
     \<lparr>vr_passed = True, vr_issues = [], vr_schema_name = Some schema, vr_validator_version = Some version\<rparr>"

definition failed_validation_result :: "string \<Rightarrow> string \<Rightarrow> validation_result" where
  "failed_validation_result code message =
     \<lparr>vr_passed = False,
      vr_issues = [\<lparr>vi_code = code, vi_message = message, vi_severity = ERROR, vi_path = None\<rparr>],
      vr_schema_name = Some PAPER_LOOP_SCHEMA, vr_validator_version = Some PAPER_LOOP_VALIDATOR_VERSION\<rparr>"

fun order_generation_status_str :: "order_generation_status \<Rightarrow> string" where
  "order_generation_status_str GENERATED = ''generated''"
| "order_generation_status_str BLOCKED = ''blocked''"
| "order_generation_status_str NOOP = ''noop''"

definition optional_payload :: "string option \<Rightarrow> payload" where
  "optional_payload x = (case x of None \<Rightarrow> PNone | Some s \<Rightarrow> PStr s)"

definition loop_raw_payload :: "string \<Rightarrow> paper_loop_input \<Rightarrow> paper_loop_result \<Rightarrow> payload" where
  "loop_raw_payload run_id x r =
     PDict ([(KStr ''run_id'', PStr run_id), (KStr ''status'', PStr (paper_loop_status_str (plr_status r))),
        (KStr ''allocator_decision_id'', PStr (al_decision_id (pl_allocator_decision x))),
        (KStr ''analysis_decision_id'', PStr (an_decision_id (pl_analysis_decision x))),
        (KStr ''generated_order_intent_id'', optional_payload (map_option oi_order_id (plr_generated_order_intent r))),
        (KStr ''executable_order_intent_id'', optional_payload (map_option oi_order_id (plr_executable_order_intent r))),
        (KStr ''broker_status'',
           optional_payload (map_option (\<lambda>b. order_status_str (or_status b)) (plr_broker_order_result r)))] @
        (case pl_scout_summary_id x of None \<Rightarrow> [] | Some s \<Rightarrow> [(KStr ''scout_summary_id'', PStr s)]))"

definition loop_order_intent_ids :: "paper_loop_result \<Rightarrow> string list" where
  "loop_order_intent_ids r =
     (let generated = (case plr_generated_order_intent r of None \<Rightarrow> [] | Some i \<Rightarrow> [oi_order_id i])
      in case plr_executable_order_intent r of
           None \<Rightarrow> generated
         | Some i \<Rightarrow> if oi_order_id i \<in> set generated then generated else generated @ [oi_order_id i])"

definition loop_validation :: "paper_loop_result \<Rightarrow> validation_result result" where
  "loop_validation r =
     (let passed = plr_status r \<notin> {PL_VALIDATION_FAILED, PL_RISK_BLOCKED, PL_QUANTITY_FAILED};
          issues = vr_issues (plr_validation_result r);
          issues = (if \<not> passed \<and> issues = []
                    then [\<lparr>vi_code = PAPER_LOOP_INPUT_VALIDATION_FAILED,
                           vi_message = ''Paper loop ended with status '' @ paper_loop_status_str (plr_status r) @ ''.'',
                           vi_severity = ERROR, vi_path = None\<rparr>]
                    else issues)
      in mk_ValidationResult
           \<lparr>vr_passed = passed, vr_issues = issues, vr_schema_name = Some PAPER_LOOP_SCHEMA,
            vr_validator_version = Some PAPER_LOOP_VALIDATOR_VERSION\<rparr>)"

definition build_paper_loop_snapshot ::
  "(string \<Rightarrow> string) \<Rightarrow> paper_loop_input \<Rightarrow> paper_loop_result \<Rightarrow> full_snapshot result" where
  "build_paper_loop_snapshot sha x r =
     rbind (normalized_run_id x) (\<lambda>run_id.
     rbind (loop_validation r) (\<lambda>validation.
     create_snapshot sha run_id (pl_created_at x) PAPER_LOOP_SCHEMA (loop_raw_payload run_id x r) validation
       (loop_order_intent_ids r)
       (Some (PDict [(KStr ''correlation_id'', optional_payload (plr_correlation_id r)),
          (KStr ''risk_passed'', PBool (vr_passed (plr_risk_result r))),
          (KStr ''order_generation_status'',
             PStr (order_generation_status_str (og_status (plr_order_generation_result r))))]))))"

section \<open>The runner\<close>

text \<open>
  What the runner is built with: the digest, the boolean coercion, pydantic's
  \<^verbatim>\<open>model_dump(mode="json")\<close> of the two decisions and the broker's fee calculator.
\<close>

record loop_env =
  le_sha :: "string \<Rightarrow> string"
  le_as_bool :: "json \<Rightarrow> bool option"
  le_dump_allocator :: "allocator_decision \<Rightarrow> payload"
  le_dump_analysis :: "analysis_decision \<Rightarrow> payload"
  le_fee :: fee_calculator

record loop_world =
  lw_store :: decision_table
  lw_ledger :: ledger

definition validation_failed_result :: "string \<Rightarrow> string \<Rightarrow> string \<Rightarrow> string list \<Rightarrow> paper_loop_result" where
  "validation_failed_result correlation_id message code snapshot_ids =
     (let validation = failed_validation_result code message
      in \<lparr>plr_status = PL_VALIDATION_FAILED, plr_validation_result = validation, plr_risk_result = validation,
          plr_order_generation_result =
            \<lparr>og_status = BLOCKED, og_order_intent = None, og_validation_result = validation,
             og_correlation_id = Some correlation_id\<rparr>,
          plr_quantity_resolution_result = None, plr_generated_order_intent = None,
          plr_executable_order_intent = None, plr_broker_order_result = None, plr_fill = None,
          plr_nav_snapshot = None, plr_decision_snapshot_ids = snapshot_ids,
          plr_correlation_id = Some correlation_id\<rparr>)"

definition save_input_decision_snapshots ::
  "loop_env \<Rightarrow> decision_table \<Rightarrow> paper_loop_input \<Rightarrow> decision_table \<times> (snapshot_store_error + string list)" where
  "save_input_decision_snapshots env st x =
     (let al = pl_allocator_decision x; an = pl_analysis_decision x
      in case rbind (create_snapshot (le_sha env) (al_decision_id al) (al_created_at al) ALLOCATOR_DECISION_SCHEMA
                  (le_dump_allocator env al)
                  (passed_validation_result ALLOCATOR_DECISION_SCHEMA ALLOCATOR_VALIDATOR_VERSION) [] None) (\<lambda>allocator_snapshot.
              rbind (create_snapshot (le_sha env) (an_decision_id an) (an_created_at an) ANALYSIS_DECISION_SCHEMA
                  (le_dump_analysis env an)
                  (passed_validation_result ANALYSIS_DECISION_SCHEMA ANALYSIS_VALIDATOR_VERSION) [] None) (\<lambda>analysis_snapshot.
              Inr (allocator_snapshot, analysis_snapshot))) of
           Inl e \<Rightarrow> (st, Inl (Store_raised e))
         | Inr (allocator_snapshot, analysis_snapshot) \<Rightarrow>
             (case store_transaction (\<lambda>st.
                rbind (save_decision_snapshot st allocator_snapshot) (\<lambda>st.
                save_decision_snapshot st analysis_snapshot)) st of
                (st, Inl e) \<Rightarrow> (st, Inl e)
              | (st, Inr _) \<Rightarrow> (st, Inr [al_decision_id al, an_decision_id an])))"

definition save_paper_loop_snapshot ::
  "loop_env \<Rightarrow> decision_table \<Rightarrow> paper_loop_input \<Rightarrow> paper_loop_result \<Rightarrow> decision_table \<times> (snapshot_store_error + string list)" where
  "save_paper_loop_snapshot env st x r =
     (case build_paper_loop_snapshot (le_sha env) x r of
        Inl e \<Rightarrow> (st, Inl (Store_raised e))
      | Inr snapshot \<Rightarrow>
          (case store_transaction (\<lambda>st. save_decision_snapshot st snapshot) st of
             (st, Inl e) \<Rightarrow> (st, Inl e)
           | (st, Inr _) \<Rightarrow> (st, rbind (lift_exn (normalized_run_id x)) (\<lambda>run_id. Inr [run_id]))))"

definition finalize_loop_result ::
  "loop_env \<Rightarrow> loop_world \<Rightarrow> paper_loop_input \<Rightarrow> string \<Rightarrow> string list \<Rightarrow> paper_loop_result \<Rightarrow>
   loop_world \<times> paper_loop_result result" where
  "finalize_loop_result env w x correlation_id snapshot_ids r =
     (case save_paper_loop_snapshot env (lw_store w) x r of
        (st, Inl (DuplicateDecisionIdError message)) \<Rightarrow>
          (w\<lparr>lw_store := st\<rparr>, Inr (validation_failed_result correlation_id message
             PAPER_LOOP_DUPLICATE_SNAPSHOT snapshot_ids))
      | (st, Inl (Store_raised e)) \<Rightarrow> (w\<lparr>lw_store := st\<rparr>, Inl e)
      | (st, Inr ids) \<Rightarrow> (w\<lparr>lw_store := st\<rparr>, Inr (r\<lparr>plr_decision_snapshot_ids := snapshot_ids @ ids\<rparr>)))"

definition current_position_quantity :: "ledger \<Rightarrow> paper_loop_input \<Rightarrow> decimal option result" where
  "current_position_quantity l x =
     rbind (analysis_market (pl_analysis_decision x)) (\<lambda>m.
     rbind (get_position l (an_symbol (pl_analysis_decision x)) m (pl_broker_account_role x)) (\<lambda>position.
     Inr (map_option pos_quantity position)))"

fun loop_invested_value :: "currency \<Rightarrow> decimal \<Rightarrow> position list \<Rightarrow> decimal result" where
  "loop_invested_value cur invested [] = Inr invested"
| "loop_invested_value cur invested (p # ps) =
     (if pos_currency p \<noteq> cur
      then Inl (ValueError ''Phase 11 MVP does not support multi-currency NAV computation.'')
      else loop_invested_value cur
             (case pos_market_price p of None \<Rightarrow> invested | Some price \<Rightarrow> dadd invested (dmul (pos_quantity p) price)) ps)"

definition compute_and_save_nav_snapshot ::
  "ledger \<Rightarrow> paper_loop_input \<Rightarrow> string \<Rightarrow> ledger \<times> nav_snapshot result" where
  "compute_and_save_nav_snapshot l x order_id =
     (let cur = mp_currency (pl_market_price x)
      in case rbind (broker_get_cash l cur (pl_broker_account_role x)) (\<lambda>cash.
              rbind (list_positions l) (\<lambda>positions.
              rbind (loop_invested_value cur 0 positions) (\<lambda>invested.
              mk_NavSnapshot
                \<lparr>nav_snapshot_id = ''nav-'' @ order_id, nav_as_of = pl_created_at x,
                 nav_total_nav_krw = dadd (cs_amount cash) invested, nav_cash_krw = cs_amount cash,
                 nav_invested_krw = invested, nav_daily_return_percent = None, nav_mdd_percent = None\<rparr>))) of
           Inl e \<Rightarrow> (l, Inl e)
         | Inr snapshot \<Rightarrow>
             transaction (\<lambda>l. rbind (save_nav_snapshot l snapshot) (\<lambda>l. Inr (l, snapshot))) l)"

definition broker_report ::
  "order_generation_result \<Rightarrow> quantity_resolution_result \<Rightarrow> order_intent \<Rightarrow> order_result \<Rightarrow> fill option \<Rightarrow>
   nav_snapshot option \<Rightarrow> string \<Rightarrow> string list \<Rightarrow> paper_loop_result" where
  "broker_report generation quantity_result intent broker_result fill nav_snapshot correlation_id snapshot_ids =
     \<lparr>plr_status = (if or_status broker_result = FILLED then PL_FILLED else PL_BROKER_REJECTED),
      plr_validation_result = qr_validation_result quantity_result,
      plr_risk_result = og_validation_result generation,
      plr_order_generation_result = generation,
      plr_quantity_resolution_result = Some quantity_result,
      plr_generated_order_intent = og_order_intent generation,
      plr_executable_order_intent = Some intent,
      plr_broker_order_result = Some broker_result, plr_fill = fill,
      plr_nav_snapshot = nav_snapshot, plr_decision_snapshot_ids = snapshot_ids,
      plr_correlation_id = Some correlation_id\<rparr>"

text \<open>The end of the run: the order goes to the broker (\<^verbatim>\<open>runner.py\<close>, from \<^verbatim>\<open>submit_order\<close> on).\<close>

definition run_broker ::
  "loop_env \<Rightarrow> loop_world \<Rightarrow> paper_loop_input \<Rightarrow> string \<Rightarrow> string list \<Rightarrow> order_generation_result \<Rightarrow>
   quantity_resolution_result \<Rightarrow> order_intent \<Rightarrow> loop_world \<times> paper_loop_result result" where
  "run_broker env w x correlation_id snapshot_ids generation quantity_result intent =
     (case submit_order (le_fee env) (lw_ledger w) intent (pl_market_price x) of
        (l, Inl e) \<Rightarrow> (w\<lparr>lw_ledger := l\<rparr>, Inl e)
      | (l, Inr broker_result) \<Rightarrow>
          (case get_fill_by_order_id l (or_order_id broker_result) of
             Inl e \<Rightarrow> (w\<lparr>lw_ledger := l\<rparr>, Inl e)
           | Inr fill \<Rightarrow>
               (let filled = (or_status broker_result = FILLED);
                    (l, nav) = (if filled
                      then (case compute_and_save_nav_snapshot l x (or_order_id broker_result) of
                              (l, Inl e) \<Rightarrow> (l, Inl e) | (l, Inr n) \<Rightarrow> (l, Inr (Some n)))
                      else (l, Inr None))
                in case nav of
                     Inl e \<Rightarrow> (w\<lparr>lw_ledger := l\<rparr>, Inl e)
                   | Inr nav_snapshot \<Rightarrow>
                       finalize_loop_result env (w\<lparr>lw_ledger := l\<rparr>) x correlation_id snapshot_ids
                         (broker_report generation quantity_result intent broker_result fill nav_snapshot
                            correlation_id snapshot_ids))))"

definition early_result ::
  "paper_loop_status \<Rightarrow> validation_result \<Rightarrow> order_generation_result \<Rightarrow> quantity_resolution_result option \<Rightarrow>
   order_intent option \<Rightarrow> string \<Rightarrow> string list \<Rightarrow> paper_loop_result" where
  "early_result st validation generation quantity_result intent correlation_id snapshot_ids =
     \<lparr>plr_status = st, plr_validation_result = validation, plr_risk_result = og_validation_result generation,
      plr_order_generation_result = generation, plr_quantity_resolution_result = quantity_result,
      plr_generated_order_intent = intent, plr_executable_order_intent = None, plr_broker_order_result = None,
      plr_fill = None, plr_nav_snapshot = None, plr_decision_snapshot_ids = snapshot_ids,
      plr_correlation_id = Some correlation_id\<rparr>"

text \<open>The middle: generation and sizing, after the inputs are stored.\<close>

definition run_decision ::
  "loop_env \<Rightarrow> loop_world \<Rightarrow> paper_loop_input \<Rightarrow> risk_filter_input \<Rightarrow> string \<Rightarrow> string list \<Rightarrow>
   loop_world \<times> paper_loop_result result" where
  "run_decision env w x risk_input correlation_id snapshot_ids =
     (case generate risk_input of
        Inl e \<Rightarrow> (w, Inl e)
      | Inr generation \<Rightarrow>
          (case og_status generation of
             BLOCKED \<Rightarrow> finalize_loop_result env w x correlation_id snapshot_ids
               (early_result PL_RISK_BLOCKED (og_validation_result generation) generation None None
                  correlation_id snapshot_ids)
           | NOOP \<Rightarrow> finalize_loop_result env w x correlation_id snapshot_ids
               (early_result PL_NOOP (og_validation_result generation) generation None None
                  correlation_id snapshot_ids)
           | GENERATED \<Rightarrow>
               (case og_order_intent generation of
                  None \<Rightarrow> (w, Inl (AssertionError ''is not None''))
                | Some generated_intent \<Rightarrow>
                    (case rbind (current_position_quantity (lw_ledger w) x)
                            (resolve generated_intent (pl_risk_context x) (pl_market_price x)) of
                       Inl e \<Rightarrow> (w, Inl e)
                     | Inr quantity_result \<Rightarrow>
                         (case qr_status quantity_result of
                            QR_FAILED \<Rightarrow> finalize_loop_result env w x correlation_id snapshot_ids
                              (early_result PL_QUANTITY_FAILED (qr_validation_result quantity_result) generation
                                 (Some quantity_result) (Some generated_intent) correlation_id snapshot_ids)
                          | QR_NOOP \<Rightarrow> finalize_loop_result env w x correlation_id snapshot_ids
                              (early_result PL_NOOP (qr_validation_result quantity_result) generation
                                 (Some quantity_result) (Some generated_intent) correlation_id snapshot_ids)
                          | QR_RESOLVED \<Rightarrow>
                              (case qr_order_intent quantity_result of
                                 None \<Rightarrow> (w, Inl (AssertionError ''is not None''))
                               | Some intent \<Rightarrow> run_broker env w x correlation_id snapshot_ids generation
                                   quantity_result intent))))))"

definition loop_correlation_id :: "paper_loop_input \<Rightarrow> string" where
  "loop_correlation_id x =
     (case pl_correlation_id x of
        Some cid \<Rightarrow> if cid = '''' then an_decision_id (pl_analysis_decision x) else cid
      | None \<Rightarrow> an_decision_id (pl_analysis_decision x))"

definition loop_risk_input :: "paper_loop_input \<Rightarrow> risk_filter_input result" where
  "loop_risk_input x =
     mk_RiskFilterInput
       \<lparr>ri_allocator_decision = pl_allocator_decision x, ri_analysis_decision = pl_analysis_decision x,
        ri_context = pl_risk_context x, ri_correlation_id = Some (loop_correlation_id x)\<rparr>"

definition run :: "loop_env \<Rightarrow> loop_world \<Rightarrow> paper_loop_input \<Rightarrow> loop_world \<times> paper_loop_result result" where
  "run env w x =
     (let correlation_id = loop_correlation_id x
      in case rbind (normalized_run_id x) (\<lambda>run_id.
              rbind (get_decision_snapshot (le_sha env) (le_as_bool env) (lw_store w) (Given_id run_id)) (\<lambda>existing.
              Inr (run_id, existing))) of
           Inl e \<Rightarrow> (w, Inl e)
         | Inr (run_id, Some _) \<Rightarrow>
             (w, Inr (validation_failed_result correlation_id (''decision_id already exists: '' @ run_id)
                PAPER_LOOP_DUPLICATE_SNAPSHOT []))
         | Inr (run_id, None) \<Rightarrow>
             (case loop_risk_input x of
                Inl e \<Rightarrow> (w, Inl e)
              | Inr risk_input \<Rightarrow>
                  (case save_input_decision_snapshots env (lw_store w) x of
                     (st, Inl (DuplicateDecisionIdError message)) \<Rightarrow>
                       (w\<lparr>lw_store := st\<rparr>, Inr (validation_failed_result correlation_id message
                          PAPER_LOOP_DUPLICATE_SNAPSHOT []))
                   | (st, Inl (Store_raised e)) \<Rightarrow> (w\<lparr>lw_store := st\<rparr>, Inl e)
                   | (st, Inr snapshot_ids) \<Rightarrow>
                       run_decision env (w\<lparr>lw_store := st\<rparr>) x risk_input correlation_id snapshot_ids)))"

text \<open>\<^verbatim>\<open>replay_paper_loop\<close> of \<^verbatim>\<open>replay.py\<close> runs the same input again.\<close>

definition replay_paper_loop :: "loop_env \<Rightarrow> loop_world \<Rightarrow> paper_loop_input \<Rightarrow> loop_world \<times> paper_loop_result result" where
  "replay_paper_loop env w x = run env w x"

section \<open>What a run writes to the store\<close>

definition stored :: "decision_table \<Rightarrow> string \<Rightarrow> bool" where
  "stored st k \<longleftrightarrow> tbl_get dr_decision_id k st \<noteq> None"

lemma stored_append [simp]:
  "stored (st @ st') k \<longleftrightarrow> stored st k \<or> stored st' k"
  "stored [row] k \<longleftrightarrow> dr_decision_id row = k" "\<not> stored [] k"
  by (auto simp: stored_def tbl_get_append split: option.splits)

lemma stored_Cons [simp]: "stored (row # rows) k \<longleftrightarrow> dr_decision_id row = k \<or> stored rows k"
  by (simp add: stored_def)

lemma create_id: "create_snapshot sha did t schema raw vr ids meta = Inr s \<Longrightarrow> ds_decision_id s = did"
  by (auto simp: create_snapshot_def mk_DecisionSnapshot_def validate_snapshot_consistency_def rbind_Inr_iff)

lemma save_appends:
  "save_decision_snapshot st s = Inr st' \<Longrightarrow>
     \<exists>row. st' = st @ [row] \<and> dr_decision_id row = ds_decision_id s \<and> \<not> stored st (ds_decision_id s)"
  by (auto simp: save_Inr_iff stored_def dest: snapshot_row_id)

lemma save_duplicate:
  "save_decision_snapshot st s = Inl (DuplicateDecisionIdError m) \<Longrightarrow> stored st (ds_decision_id s)"
  by (auto simp: save_decision_snapshot_def rbind_Inl_iff lift_exn_def tbl_insert_def stored_def
      split: sum.splits if_splits dest: snapshot_row_id)

lemma store_transaction_cases:
  "store_transaction body st = (st', r) \<Longrightarrow>
     (\<exists>e. body st = Inl e \<and> st' = st \<and> r = Inl e) \<or> (body st = Inr st' \<and> r = Inr ())"
  by (auto simp: store_transaction_def split: sum.splits)

lemma save_input_cases:
  assumes "save_input_decision_snapshots env st x = (st', r)"
  defines "al \<equiv> al_decision_id (pl_allocator_decision x)" and "an \<equiv> an_decision_id (pl_analysis_decision x)"
  obtains (fails) e where "r = Inl e" "st' = st"
  | (saved) ra rn where "r = Inr [al, an]" "st' = st @ [ra, rn]" "dr_decision_id ra = al" "dr_decision_id rn = an"
      "\<not> stored st al" "\<not> stored st an" "al \<noteq> an"
proof -
  show thesis
  proof (cases r)
    case (Inl e)
    then have "st' = st" using assms(1)
      by (auto simp: save_input_decision_snapshots_def Let_def store_transaction_def
          split: sum.splits prod.splits)
    then show thesis using fails Inl by blast
  next
    case (Inr ids)
    then obtain s1 s2 st1 where s: "ds_decision_id s1 = al" "ds_decision_id s2 = an" "ids = [al, an]"
      "save_decision_snapshot st s1 = Inr st1" "save_decision_snapshot st1 s2 = Inr st'"
      using assms(1) unfolding al_def an_def
      by (auto simp: save_input_decision_snapshots_def Let_def store_transaction_def rbind_Inr_iff rbind_Inl_iff
          split: sum.splits prod.splits dest!: create_id)
    obtain ra where ra: "st1 = st @ [ra]" "dr_decision_id ra = al" "\<not> stored st al"
      using save_appends [OF s(4)] s(1) by auto
    obtain rn where rn: "st' = st1 @ [rn]" "dr_decision_id rn = an" "\<not> stored st1 an"
      using save_appends [OF s(5)] s(2) by auto
    show thesis by (rule saved [of ra rn]) (use Inr s(3) ra rn in auto)
  qed
qed

lemma save_loop_cases:
  assumes "save_paper_loop_snapshot env st x r = (st', out)"
  obtains (duplicate) m rid where "out = Inl (DuplicateDecisionIdError m)" "st' = st" "normalized_run_id x = Inr rid"
      "stored st rid"
  | (raises) e where "out = Inl (Store_raised e)" "st' = st"
  | (saved) rid row where "normalized_run_id x = Inr rid" "out = Inr [rid]" "st' = st @ [row]"
      "dr_decision_id row = rid" "\<not> stored st rid"
proof (cases "build_paper_loop_snapshot (le_sha env) x r")
  case (Inl e)
  then show thesis using assms raises by (auto simp: save_paper_loop_snapshot_def)
next
  case (Inr s)
  then obtain rid where rid: "normalized_run_id x = Inr rid" "ds_decision_id s = rid"
    by (auto simp: build_paper_loop_snapshot_def rbind_Inr_iff dest: create_id)
  show thesis
  proof (cases "save_decision_snapshot st s")
    case (Inl e)
    with assms Inr have out: "out = Inl e" "st' = st"
      by (auto simp: save_paper_loop_snapshot_def store_transaction_def)
    show thesis
    proof (cases e)
      case (DuplicateDecisionIdError m)
      then show thesis using duplicate [OF _ out(2) rid(1)] out(1) save_duplicate [of st s m] Inl rid(2) by simp
    next
      case (Store_raised e')
      then show thesis using raises out by blast
    qed
  next
    case saved_ok: (Inr st2)
    with assms Inr rid have out: "out = Inr [rid]" "st' = st2"
      by (auto simp: save_paper_loop_snapshot_def store_transaction_def lift_exn_def)
    then show thesis using saved [OF rid(1)] save_appends [OF saved_ok] rid(2) by blast
  qed
qed

text \<open>How the last step leaves store and result.\<close>

definition concludes :: "paper_loop_input \<Rightarrow> loop_world \<Rightarrow> loop_world \<times> paper_loop_result result \<Rightarrow> bool" where
  "concludes x w out \<longleftrightarrow>
     (case snd out of
        Inl _ \<Rightarrow> lw_store (fst out) = lw_store w
      | Inr res \<Rightarrow>
          \<exists>rid. normalized_run_id x = Inr rid \<and>
            (if plr_status res = PL_VALIDATION_FAILED
             then lw_store (fst out) = lw_store w \<and> stored (lw_store w) rid
             else \<not> stored (lw_store w) rid \<and>
               (\<exists>row. dr_decision_id row = rid \<and> lw_store (fst out) = lw_store w @ [row])))"

lemma validation_failed_status [simp]:
  "plr_status (validation_failed_result cid m code ids) = PL_VALIDATION_FAILED"
  by (simp add: validation_failed_result_def Let_def)

lemma finalize_concludes:
  assumes "plr_status r \<noteq> PL_VALIDATION_FAILED" "lw_store w0 = lw_store w"
  shows "concludes x w0 (finalize_loop_result env w x cid ids r)"
    and "lw_ledger (fst (finalize_loop_result env w x cid ids r)) = lw_ledger w"
proof -
  obtain st' out where s: "save_paper_loop_snapshot env (lw_store w) x r = (st', out)" by fastforce
  show "concludes x w0 (finalize_loop_result env w x cid ids r)"
    using assms by (cases rule: save_loop_cases [OF s]) (auto simp: finalize_loop_result_def concludes_def s)
  show "lw_ledger (fst (finalize_loop_result env w x cid ids r)) = lw_ledger w"
    using s by (auto simp: finalize_loop_result_def split: sum.splits snapshot_store_error.splits)
qed

lemma concludes_raise: "lw_store w' = lw_store w \<Longrightarrow> concludes x w (w', Inl e)"
  by (simp add: concludes_def)

lemma broker_report_status [simp]:
  "plr_status (broker_report g q i b f n cid ids) \<noteq> PL_VALIDATION_FAILED"
  by (simp add: broker_report_def)

lemma run_broker_concludes: "concludes x w (run_broker env w x cid ids generation qr intent)"
  by (auto simp: run_broker_def Let_def concludes_raise intro: finalize_concludes(1) split: sum.splits prod.splits)

lemma early_status [simp]: "plr_status (early_result st v g q i cid ids) = st"
  by (simp add: early_result_def)

lemma run_decision_concludes: "concludes x w (run_decision env w x ri cid ids)"
  by (auto simp: run_decision_def concludes_raise intro: finalize_concludes(1) run_broker_concludes
      split: sum.splits option.splits order_generation_status.splits quantity_resolution_status.splits)

text \<open>A run is inert, or stores the two decisions, which were not there, and goes on.\<close>

lemma run_cases:
  assumes "run env w x = (w', r)"
  defines "al \<equiv> al_decision_id (pl_allocator_decision x)" and "an \<equiv> an_decision_id (pl_analysis_decision x)"
  obtains (inert) "w' = w" "\<And>res. r = Inr res \<Longrightarrow> plr_status res = PL_VALIDATION_FAILED"
  | (proceeds) rid ri ra rn where "normalized_run_id x = Inr rid" "\<not> stored (lw_store w) rid"
      "loop_risk_input x = Inr ri" "dr_decision_id ra = al" "dr_decision_id rn = an"
      "\<not> stored (lw_store w) al" "\<not> stored (lw_store w) an" "al \<noteq> an"
      "run_decision env (w\<lparr>lw_store := lw_store w @ [ra, rn]\<rparr>) x ri (loop_correlation_id x) [al, an] = (w', r)"
      "save_input_decision_snapshots env (lw_store w) x = (lw_store w @ [ra, rn], Inr [al, an])"
proof -
  consider e where "normalized_run_id x = Inl e" | rid where "normalized_run_id x = Inr rid" "stored (lw_store w) rid"
    | rid where "normalized_run_id x = Inr rid" "\<not> stored (lw_store w) rid"
    by (cases "normalized_run_id x") auto
  then show thesis
  proof cases
    case 1
    then show thesis using assms(1) by (intro inert) (auto simp: run_def Let_def)
  next
    case 2
    then obtain row where row: "tbl_get dr_decision_id rid (lw_store w) = Some row" by (auto simp: stored_def)
    show thesis
      using assms(1) 2 row
      by (intro inert; cases "row_to_decision_snapshot (le_sha env) (le_as_bool env) row")
        (auto simp: run_def Let_def get_decision_snapshot_def normalize_decision_id_lookup_def)
  next
    case 3
    then have fresh: "get_decision_snapshot (le_sha env) (le_as_bool env) (lw_store w) (Given_id rid) = Inr None"
      by (simp add: get_decision_snapshot_def normalize_decision_id_lookup_def stored_def)
    show thesis
    proof (cases "loop_risk_input x")
      case (Inl e)
      then show thesis using assms(1) 3 fresh by (intro inert) (auto simp: run_def Let_def)
    next
      case (Inr ri)
      obtain st' out where s: "save_input_decision_snapshots env (lw_store w) x = (st', out)" by fastforce
      show thesis
      proof (cases rule: save_input_cases [OF s])
        case (1 e)
        then show thesis using assms(1) 3 fresh Inr s
          by (intro inert) (cases e; auto simp: run_def Let_def)+
      next
        case (2 ra rn)
        then show thesis using assms(1) 3 fresh Inr s
          by (intro proceeds [OF 3 Inr, of ra rn]) (auto simp: run_def Let_def al_def an_def)
      qed
    qed
  qed
qed

section \<open>Sequences of runs\<close>

fun run_all ::
  "loop_env \<Rightarrow> loop_world \<Rightarrow> paper_loop_input list \<Rightarrow>
   (paper_loop_input \<times> loop_world \<times> loop_world \<times> paper_loop_result result) list" where
  "run_all env w [] = []"
| "run_all env w (x # xs) = (case run env w x of (w', r) \<Rightarrow> (x, w, w', r) # run_all env w' xs)"

abbreviation allocator_id :: "paper_loop_input \<Rightarrow> string" where
  "allocator_id x \<equiv> al_decision_id (pl_allocator_decision x)"

abbreviation analysis_id :: "paper_loop_input \<Rightarrow> string" where
  "analysis_id x \<equiv> an_decision_id (pl_analysis_decision x)"

definition reported :: "paper_loop_result result \<Rightarrow> bool" where
  "reported r \<longleftrightarrow> (\<exists>res. r = Inr res \<and> plr_status res \<noteq> PL_VALIDATION_FAILED)"

text \<open>The ids a run leaves behind, and the ids a run asks for.\<close>

definition ids_left :: "paper_loop_input \<times> loop_world \<times> loop_world \<times> paper_loop_result result \<Rightarrow> string set" where
  "ids_left t = (case t of (x, w, w', r) \<Rightarrow>
     {k. w' \<noteq> w \<and> k \<in> {allocator_id x, analysis_id x} \<or> reported r \<and> normalized_run_id x = Inr k})"

definition ids_needed :: "paper_loop_input \<Rightarrow> string set" where
  "ids_needed x = {k. k \<in> {allocator_id x, analysis_id x} \<or> normalized_run_id x = Inr k}"

lemma concludes_grows: "concludes x w (w', r) \<Longrightarrow> stored (lw_store w) k \<Longrightarrow> stored (lw_store w') k"
  by (auto simp: concludes_def split: sum.splits if_splits)

lemma run_grows:
  assumes "run env w x = (w', r)" "stored (lw_store w) k"
  shows "stored (lw_store w') k"
proof (cases rule: run_cases [OF assms(1)])
  case (2 rid ri ra rn)
  then show ?thesis using run_decision_concludes concludes_grows assms(2) by (metis (no_types, lifting)
    stored_append(1) loop_world.select_convs(1) loop_world.update_convs(1) loop_world.surjective)
qed (use assms(2) in simp)

lemma run_leaves:
  assumes "run env w x = (w', r)" "k \<in> ids_left (x, w, w', r)"
  shows "stored (lw_store w') k"
proof (cases rule: run_cases [OF assms(1)])
  case 1
  then show ?thesis using assms(2) by (auto simp: ids_left_def reported_def)
next
  case (2 rid ri ra rn)
  define w1 where "w1 = w\<lparr>lw_store := lw_store w @ [ra, rn]\<rparr>"
  have c: "concludes x w1 (w', r)" using run_decision_concludes [of x w1] 2(9) unfolding w1_def by metis
  have "stored (lw_store w1) (allocator_id x)" "stored (lw_store w1) (analysis_id x)"
    using 2(4,5) by (simp_all add: w1_def)
  then have "stored (lw_store w') (allocator_id x)" "stored (lw_store w') (analysis_id x)"
    using concludes_grows [OF c] by blast+
  moreover have "stored (lw_store w') k" if "reported r" "normalized_run_id x = Inr k"
    using c that by (auto simp: concludes_def reported_def split: if_splits)
  ultimately show ?thesis using assms(2) by (auto simp: ids_left_def)
qed

lemma run_needs_fresh:
  assumes "run env w x = (w', r)" "k \<in> ids_needed x" "stored (lw_store w) k"
  shows "w' = w \<and> \<not> reported r"
  using assms by (cases rule: run_cases [OF assms(1)]) (auto simp: ids_needed_def reported_def)

lemma run_all_length [simp]: "length (run_all env w xs) = length xs"
  by (induction env w xs rule: run_all.induct) (simp_all split: prod.splits)

lemma run_all_run: "j < length xs \<Longrightarrow> run_all env w xs ! j = (x, v, v', r) \<Longrightarrow> run env v x = (v', r) \<and> x = xs ! j"
proof (induction xs arbitrary: j w)
  case (Cons y ys)
  then show ?case by (cases j) (auto split: prod.splits)
qed simp

lemma run_all_keeps:
  "stored (lw_store w) k \<Longrightarrow> j < length xs \<Longrightarrow> run_all env w xs ! j = (x, v, v', r) \<Longrightarrow> stored (lw_store v) k"
proof (induction xs arbitrary: j w)
  case (Cons y ys)
  then show ?case by (cases j) (auto split: prod.splits dest: run_grows)
qed simp

lemma run_all_later:
  "i < j \<Longrightarrow> j < length xs \<Longrightarrow> run_all env w xs ! i = (x, v, v', r) \<Longrightarrow> k \<in> ids_left (x, v, v', r) \<Longrightarrow>
     run_all env w xs ! j = (y, u, u', q) \<Longrightarrow> stored (lw_store u) k"
proof (induction xs arbitrary: i j w)
  case (Cons z zs)
  obtain w1 r1 where z: "run env w z = (w1, r1)" by fastforce
  obtain j' where j: "j = Suc j'" "j' < length zs" using Cons.prems(1,2) by (cases j) auto
  show ?case
  proof (cases i)
    case 0
    then have "stored (lw_store w1) k" using Cons.prems(3,4) z run_leaves [OF z] by simp
    then show ?thesis using run_all_keeps [OF _ j(2)] Cons.prems(5) z j(1) by simp
  next
    case (Suc i')
    then show ?thesis using Cons.IH [of i' j' w1] Cons.prems z j by simp
  qed
qed simp

section \<open>What the result says\<close>

lemma mk_OrderIntent_id: "mk_OrderIntent i = Inr j \<Longrightarrow> normalised (oi_order_id i) \<Longrightarrow> oi_order_id j = oi_order_id i"
  by (auto simp: mk_OrderIntent_def rbind_Inr_iff validate_order_intent_Inr)

lemma generated_intent:
  assumes "generate ri = Inr g" "og_status g = GENERATED"
    and "normalised (an_decision_id (ri_analysis_decision ri))"
  shows "vr_passed (evaluate ri)" "og_validation_result g = evaluate ri"
    and "\<exists>i. og_order_intent g = Some i \<and> valid_intent i \<and>
      oi_order_id i = ''order-'' @ an_decision_id (ri_analysis_decision ri)"
proof -
  from assms(1,2) obtain i cid where i: "build_order_intent ri cid = Inr i" "og_order_intent g = Some i"
    and ok: "\<not> has_blocking_errors (evaluate ri)" "og_validation_result g = evaluate ri"
    by (auto simp: generate_def Let_def split: if_splits sum.splits build_error.splits)
  show "vr_passed (evaluate ri)" "og_validation_result g = evaluate ri" using ok by (simp_all add: blocking_iff)
  have "\<exists>raw. mk_OrderIntent raw = Inr i \<and> oi_order_id raw = ''order-'' @ an_decision_id (ri_analysis_decision ri)"
    using i(1) unfolding build_order_intent_def Let_def rbind_Inr_iff
    by (elim exE conjE) (force split: sum.splits prod.splits)
  then obtain raw where raw: "mk_OrderIntent raw = Inr i"
    "oi_order_id raw = ''order-'' @ an_decision_id (ri_analysis_decision ri)" by blast
  have "normalised (oi_order_id raw)"
    unfolding raw(2) by (rule normalised_prefix [OF assms(3)]) (simp_all add: is_space_def)
  then have "oi_order_id i = oi_order_id raw" using mk_OrderIntent_id [OF raw(1)] by simp
  then show "\<exists>i. og_order_intent g = Some i \<and> valid_intent i \<and>
      oi_order_id i = ''order-'' @ an_decision_id (ri_analysis_decision ri)"
    using i(2) raw mk_OrderIntent_valid [OF raw(1)] by auto
qed

lemma resolved_intent:
  assumes "resolve i c p held = Inr q" "qr_status q = QR_RESOLVED" "qr_order_intent q = Some j" "valid_intent i"
  shows "valid_intent j \<and> oi_order_id j = oi_order_id i"
proof -
  have "\<exists>n. mk_OrderIntent (i\<lparr>oi_quantity := n, oi_target_weight_percent := None, oi_limit_price := None\<rparr>) = Inr j"
    using assms(1-3) unfolding resolve_def Let_def resolve_failed_def
    by (auto simp: rbind_Inr_iff split: if_splits option.splits)
  then obtain n where mk: "mk_OrderIntent (i\<lparr>oi_quantity := n, oi_target_weight_percent := None,
      oi_limit_price := None\<rparr>) = Inr j" by blast
  moreover have "oi_order_id j = oi_order_id i"
    using mk_OrderIntent_id [OF mk] assms(4) by (simp add: valid_intent_def)
  ultimately show ?thesis using mk_OrderIntent_valid by blast
qed

lemma ledger_inv_nav [simp]: "ledger_inv (l\<lparr>nav_snapshots := ns\<rparr>) = ledger_inv l"
  by (simp add: ledger_inv_def orders_wf_def cash_reconciled_def replay_def cash_entries_def cash_balance_def
      references_intent_def has_processed_order_def)

lemma nav_saved:
  assumes "compute_and_save_nav_snapshot l x oid = (l', r)"
  shows "case r of Inl e \<Rightarrow> l' = l | Inr n \<Rightarrow> l' = l\<lparr>nav_snapshots := nav_snapshots l @ [n]\<rparr>"
  using assms
  by (auto simp: compute_and_save_nav_snapshot_def Let_def transaction_def save_nav_snapshot_def rbind_Inr_iff
      rbind_Inl_iff dest: tbl_insert_append split: sum.splits)

text \<open>
  An order went to the broker and the result tells what the broker did with it: the filter had
  passed, the order carries the analysis decision's id, status and fill are the ledger's, and a
  filled order is followed by its NAV snapshot.
\<close>

definition traded :: "loop_env \<Rightarrow> paper_loop_input \<Rightarrow> ledger \<Rightarrow> ledger \<Rightarrow> paper_loop_result \<Rightarrow> bool" where
  "traded env x l l' res \<longleftrightarrow>
     (\<exists>ri i b l1. loop_risk_input x = Inr ri \<and> vr_passed (evaluate ri) \<and> plr_risk_result res = evaluate ri \<and>
        plr_executable_order_intent res = Some i \<and> valid_intent i \<and> oi_order_id i = ''order-'' @ analysis_id x \<and>
        submit_order (le_fee env) l i (pl_market_price x) = (l1, Inr b) \<and> plr_broker_order_result res = Some b \<and>
        get_fill_by_order_id l1 (or_order_id b) = Inr (plr_fill res) \<and>
        (if plr_status res = PL_FILLED
         then or_status b = FILLED \<and>
           (\<exists>n. plr_nav_snapshot res = Some n \<and> l' = l1\<lparr>nav_snapshots := nav_snapshots l1 @ [n]\<rparr>)
         else or_status b \<noteq> FILLED \<and> plr_nav_snapshot res = None \<and> l' = l1))"

lemma finalize_result:
  assumes "finalize_loop_result env w x cid ids r = (w', Inr res)" "plr_status res \<noteq> PL_VALIDATION_FAILED"
  shows "\<exists>rid. normalized_run_id x = Inr rid \<and> res = r\<lparr>plr_decision_snapshot_ids := ids @ [rid]\<rparr>"
proof -
  obtain st' out where s: "save_paper_loop_snapshot env (lw_store w) x r = (st', out)" by fastforce
  show ?thesis using assms by (cases rule: save_loop_cases [OF s]) (auto simp: finalize_loop_result_def s)
qed

lemma run_broker_result:
  assumes "run_broker env w x cid ids g q i = (w', Inr res)" "plr_status res \<noteq> PL_VALIDATION_FAILED"
    and "loop_risk_input x = Inr ri" "vr_passed (evaluate ri)" "og_validation_result g = evaluate ri"
    and "valid_intent i" "oi_order_id i = ''order-'' @ analysis_id x"
  shows "traded env x (lw_ledger w) (lw_ledger w') res \<and> plr_status res \<in> {PL_FILLED, PL_BROKER_REJECTED} \<and>
    (\<exists>rid. normalized_run_id x = Inr rid \<and> plr_decision_snapshot_ids res = ids @ [rid])"
proof -
  obtain l1 b fill where
    s: "submit_order (le_fee env) (lw_ledger w) i (pl_market_price x) = (l1, Inr b)"
      "get_fill_by_order_id l1 (or_order_id b) = Inr fill"
    using assms(1) unfolding run_broker_def by (auto split: sum.splits prod.splits)
  have "\<exists>l2 nav. (if or_status b = FILLED then \<exists>n. nav = Some n \<and> l2 = l1\<lparr>nav_snapshots := nav_snapshots l1 @ [n]\<rparr>
      else nav = None \<and> l2 = l1) \<and>
    finalize_loop_result env (w\<lparr>lw_ledger := l2\<rparr>) x cid ids (broker_report g q i b fill nav cid ids) = (w', Inr res)"
    using assms(1) s unfolding run_broker_def Let_def
    by (cases "or_status b = FILLED") (auto split: sum.splits prod.splits dest!: nav_saved, blast)
  then obtain l2 nav where
    nav: "if or_status b = FILLED then \<exists>n. nav = Some n \<and> l2 = l1\<lparr>nav_snapshots := nav_snapshots l1 @ [n]\<rparr>
      else nav = None \<and> l2 = l1"
    and f: "finalize_loop_result env (w\<lparr>lw_ledger := l2\<rparr>) x cid ids (broker_report g q i b fill nav cid ids) = (w', Inr res)"
    by blast
  let ?r0 = "broker_report g q i b fill nav cid ids"
  obtain rid where rid: "normalized_run_id x = Inr rid" "res = ?r0\<lparr>plr_decision_snapshot_ids := ids @ [rid]\<rparr>"
    using finalize_result [OF f assms(2)] by blast
  have "lw_ledger w' = l2"
    using finalize_concludes(2) [of ?r0 _ "w\<lparr>lw_ledger := l2\<rparr>" env x cid ids] f by simp
  then show ?thesis using assms(3-7) s nav rid by (auto simp: traded_def broker_report_def)
qed

lemma finalize_early:
  assumes "finalize_loop_result env w x cid ids (early_result st v g q i cid ids) = (w', Inr res)"
    and "plr_status res \<noteq> PL_VALIDATION_FAILED" "st \<in> {PL_RISK_BLOCKED, PL_NOOP, PL_QUANTITY_FAILED}"
  shows "lw_ledger w' = lw_ledger w \<and> plr_status res = st \<and>
    (\<exists>rid. normalized_run_id x = Inr rid \<and> plr_decision_snapshot_ids res = ids @ [rid])"
  using finalize_result [OF assms(1,2)] assms(1,3)
    finalize_concludes(2) [of "early_result st v g q i cid ids" _ w env x cid ids] by auto

lemma run_decision_result:
  assumes "run_decision env w x ri cid ids = (w', Inr res)" "plr_status res \<noteq> PL_VALIDATION_FAILED"
    and "loop_risk_input x = Inr ri" "normalised (analysis_id x)"
  shows "(if plr_status res \<in> {PL_FILLED, PL_BROKER_REJECTED} then traded env x (lw_ledger w) (lw_ledger w') res
      else lw_ledger w' = lw_ledger w) \<and>
    (\<exists>rid. normalized_run_id x = Inr rid \<and> plr_decision_snapshot_ids res = ids @ [rid])"
proof -
  have an: "an_decision_id (ri_analysis_decision ri) = analysis_id x"
    using assms(3) by (auto simp: loop_risk_input_def mk_RiskFilterInput_def rbind_Inr_iff split: if_splits)
  obtain g where g: "generate ri = Inr g" using assms(1) by (auto simp: run_decision_def split: sum.splits)
  show ?thesis
  proof (cases "og_status g")
    case GENERATED
    note gen = generated_intent [OF g GENERATED, unfolded an, OF assms(4)]
    obtain i where i: "og_order_intent g = Some i" "valid_intent i" "oi_order_id i = ''order-'' @ analysis_id x"
      using gen(3) by blast
    obtain held q where q: "resolve i (pl_risk_context x) (pl_market_price x) held = Inr q"
      "rbind (current_position_quantity (lw_ledger w) x) (resolve i (pl_risk_context x) (pl_market_price x)) = Inr q"
      using assms(1) g GENERATED i(1) by (auto simp: run_decision_def rbind_Inr_iff split: sum.splits)
    have run: "(case qr_status q of
         QR_FAILED \<Rightarrow> finalize_loop_result env w x cid ids
           (early_result PL_QUANTITY_FAILED (qr_validation_result q) g (Some q) (Some i) cid ids)
       | QR_NOOP \<Rightarrow> finalize_loop_result env w x cid ids
           (early_result PL_NOOP (qr_validation_result q) g (Some q) (Some i) cid ids)
       | QR_RESOLVED \<Rightarrow> (case qr_order_intent q of None \<Rightarrow> (w, Inl (AssertionError ''is not None''))
           | Some j \<Rightarrow> run_broker env w x cid ids g q j)) = (w', Inr res)"
      using assms(1) g GENERATED i(1) q(2) by (simp add: run_decision_def)
    show ?thesis
    proof (cases "qr_status q")
      case QR_RESOLVED
      then obtain j where j: "qr_order_intent q = Some j" using run by (auto split: option.splits)
      note r = resolved_intent [OF q(1) QR_RESOLVED j i(2)]
      have "run_broker env w x cid ids g q j = (w', Inr res)" using run QR_RESOLVED j by simp
      from run_broker_result [OF this assms(2,3) gen(1,2)] r i(3) show ?thesis by auto
    qed (use run finalize_early [OF _ assms(2)] in fastforce)+
  qed (use assms(1) g finalize_early [OF _ assms(2)] in \<open>fastforce simp: run_decision_def\<close>)+
qed

lemma finalize_ledger [simp]: "lw_ledger (fst (finalize_loop_result env w x cid ids r)) = lw_ledger w"
  by (auto simp: finalize_loop_result_def split: sum.splits snapshot_store_error.splits prod.splits)

lemma nav_keeps_inv: "ledger_inv l \<Longrightarrow> ledger_inv (fst (compute_and_save_nav_snapshot l x oid))"
  using nav_saved [of l x oid] by (cases "compute_and_save_nav_snapshot l x oid") (auto split: sum.splits)

lemma run_broker_inv:
  assumes "ledger_inv (lw_ledger w)" "valid_intent i" "0 < mp_price (pl_market_price x)"
  shows "ledger_inv (lw_ledger (fst (run_broker env w x cid ids g q i)))"
proof -
  obtain l1 r where s: "submit_order (le_fee env) (lw_ledger w) i (pl_market_price x) = (l1, r)" by fastforce
  have inv: "ledger_inv l1" using submit_simulates [OF assms, of "le_fee env"] s by simp
  note nav = nav_keeps_inv [OF inv, of x]
  show ?thesis
    using s inv nav unfolding run_broker_def Let_def
    by (auto split: sum.splits prod.splits simp: prod_eq_iff)
qed

lemma run_decision_inv:
  assumes "ledger_inv (lw_ledger w)" "0 < mp_price (pl_market_price x)" "loop_risk_input x = Inr ri"
    and "normalised (analysis_id x)"
  shows "ledger_inv (lw_ledger (fst (run_decision env w x ri cid ids)))"
proof -
  have an: "an_decision_id (ri_analysis_decision ri) = analysis_id x"
    using assms(3) by (auto simp: loop_risk_input_def mk_RiskFilterInput_def rbind_Inr_iff split: if_splits)
  have sized: "ledger_inv (lw_ledger (fst (run_broker env w x cid ids g q j)))"
    if steps: "generate ri = Inr g" "og_status g = GENERATED" "og_order_intent g = Some i"
      "rbind (current_position_quantity (lw_ledger w) x) (resolve i (pl_risk_context x) (pl_market_price x)) = Inr q"
      "qr_status q = QR_RESOLVED" "qr_order_intent q = Some j" for g i q j
  proof -
    have "valid_intent i" using generated_intent(3) [OF steps(1,2)] steps(3) assms(4) an by auto
    moreover obtain held where "resolve i (pl_risk_context x) (pl_market_price x) held = Inr q"
      using steps(4) by (auto simp: rbind_Inr_iff)
    ultimately have "valid_intent j" using resolved_intent steps(5,6) by blast
    then show ?thesis using run_broker_inv assms(1,2) by blast
  qed
  show ?thesis
    using assms(1) sized unfolding run_decision_def
    by (auto split: sum.splits option.splits order_generation_status.splits quantity_resolution_status.splits)
qed

lemma run_inv:
  assumes "run env w x = (w', r)" "ledger_inv (lw_ledger w)" "0 < mp_price (pl_market_price x)"
    and "normalised (analysis_id x)"
  shows "ledger_inv (lw_ledger w')"
proof (cases rule: run_cases [OF assms(1)])
  case (2 rid ri ra rn)
  have "lw_ledger (w\<lparr>lw_store := st\<rparr>) = lw_ledger w" for st by simp
  then show ?thesis using run_decision_inv [OF _ assms(3) 2(3) assms(4)] 2(9) assms(2) by (metis fst_conv)
qed (use assms(2) in simp)

section \<open>A run id that is one of the decision ids\<close>

lemma created_row:
  assumes "create_snapshot sha d t schema raw vr ids meta = Inr s"
  shows "\<exists>row. snapshot_to_row s = Inr row"
proof -
  have "\<exists>a. canonicalize_payload (ds_raw_payload s) = Inr a" "\<exists>a. canonicalize_payload (as_payload (ds_normalized_payload s)) = Inr a"
    "\<exists>a. canonicalize_payload (as_payload (ds_replay_metadata s)) = Inr a"
    using assms by (auto simp: create_snapshot_def mk_DecisionSnapshot_def validate_snapshot_consistency_def
        validate_json_compatible_object_def rbind_Inr_iff)
  then show ?thesis
    by (auto simp: snapshot_to_row_def canonical_json_dumps_def canonicalize_result canonicalize_text_list
        simp del: canonicalize_payload.simps)
qed

lemma create_other_payload:
  assumes "create_snapshot sha d t schema raw vr ids meta = Inr s" "dict_payload raw'" "hex_digest sha"
  shows "\<exists>s'. create_snapshot sha d' t schema raw' vr ids meta = Inr s'"
proof -
  obtain ms where raw: "canonicalize_payload raw' = Inr (JObj ms)" "canonical (JObj ms)"
    "validate_json_compatible_object raw' = Inr ()"
    using dict_payloadE [OF assms(2)] by metis
  note c = object_as_payload [OF raw(2)] dumps_as_payload [OF raw(2)] hex_digest_normalised [OF assms(3)]
  show ?thesis
    using assms(1) raw(1,3) c
    by (auto simp: create_snapshot_def mk_DecisionSnapshot_def validate_snapshot_consistency_def
        payload_sha256_def rbind_Inr_iff simp del: as_payload.simps split: option.splits)
qed

lemma optional_payload_ok [simp]:
  "canonicalize_payload (optional_payload v) = Inr (case v of None \<Rightarrow> JNull | Some t \<Rightarrow> JStr t)"
  "wf_payload (optional_payload v)"
  by (cases v; simp add: optional_payload_def)+

lemma loop_raw_dict: "dict_payload (loop_raw_payload rid x r)"
proof -
  have "\<exists>j. canonicalize_payload (loop_raw_payload rid x r) = Inr j"
    by (cases "pl_scout_summary_id x") (simp_all add: loop_raw_payload_def)
  moreover have "wf_payload (loop_raw_payload rid x r)" "is_dict (loop_raw_payload rid x r)"
    by (cases "pl_scout_summary_id x"; simp add: loop_raw_payload_def is_dict_def)+
  ultimately show ?thesis by (simp add: dict_payload_def)
qed

abbreviation with_run_id :: "id_argument \<Rightarrow> paper_loop_input \<Rightarrow> paper_loop_input" where
  "with_run_id k x \<equiv> x\<lparr>pl_run_id := k\<rparr>"

lemma run_id_unused [simp]:
  "loop_risk_input (with_run_id k x) = loop_risk_input x"
  "loop_correlation_id (with_run_id k x) = loop_correlation_id x"
  "current_position_quantity l (with_run_id k x) = current_position_quantity l x"
  "compute_and_save_nav_snapshot l (with_run_id k x) oid = compute_and_save_nav_snapshot l x oid"
  "save_input_decision_snapshots env st (with_run_id k x) = save_input_decision_snapshots env st x"
  by (simp_all add: loop_risk_input_def loop_correlation_id_def current_position_quantity_def
      compute_and_save_nav_snapshot_def save_input_decision_snapshots_def split: option.split)

lemma finalize_duplicate:
  assumes "finalize_loop_result env w x cid ids r = (w', Inr res)" "plr_status res \<noteq> PL_VALIDATION_FAILED"
    and "stored (lw_store w) k" "hex_digest (le_sha env)"
  shows "\<exists>m. finalize_loop_result env w (with_run_id (Given_id k) x) cid ids r =
    (w, Inr (validation_failed_result cid m PAPER_LOOP_DUPLICATE_SNAPSHOT ids))"
proof -
  let ?x = "with_run_id (Given_id k) x"
  obtain s where s: "build_paper_loop_snapshot (le_sha env) x r = Inr s"
    using assms(1) by (cases "build_paper_loop_snapshot (le_sha env) x r")
      (auto simp: finalize_loop_result_def save_paper_loop_snapshot_def)
  have k: "normalized_run_id ?x = Inr k" by (simp add: normalized_run_id_def normalize_decision_id_lookup_def)
  obtain s' where s': "build_paper_loop_snapshot (le_sha env) ?x r = Inr s'"
    using s k create_other_payload [OF _ loop_raw_dict assms(4)]
    by (fastforce simp: build_paper_loop_snapshot_def rbind_Inr_iff)
  then have id: "ds_decision_id s' = k" and "\<exists>row. snapshot_to_row s' = Inr row"
    using k by (auto simp: build_paper_loop_snapshot_def rbind_Inr_iff dest: create_id created_row)
  then obtain row where row: "snapshot_to_row s' = Inr row" by blast
  have "save_decision_snapshot (lw_store w) s' =
      Inl (DuplicateDecisionIdError (''decision_id already exists: '' @ k))"
    using assms(3) row snapshot_row_id [OF row] id
    by (auto simp: save_decision_snapshot_def lift_exn_def tbl_insert_def stored_def)
  then show ?thesis
    using s' by (auto simp: finalize_loop_result_def save_paper_loop_snapshot_def store_transaction_def)
qed

text \<open>Everything before the last snapshot is the same under another run id.\<close>

lemma run_broker_run_id:
  assumes "run_broker env w x cid ids g q i = (w', Inr res)"
  obtains w2 r0 where "finalize_loop_result env w2 x cid ids r0 = (w', Inr res)" "lw_store w2 = lw_store w"
    "\<And>k. run_broker env w (with_run_id k x) cid ids g q i = finalize_loop_result env w2 (with_run_id k x) cid ids r0"
  using assms unfolding run_broker_def Let_def
  by (auto split: sum.splits prod.splits if_splits)

lemma run_decision_run_id:
  assumes "run_decision env w x ri cid ids = (w', Inr res)"
  obtains w2 r0 where "finalize_loop_result env w2 x cid ids r0 = (w', Inr res)" "lw_store w2 = lw_store w"
    "\<And>k. run_decision env w (with_run_id k x) ri cid ids = finalize_loop_result env w2 (with_run_id k x) cid ids r0"
  using assms unfolding run_decision_def
  by (auto split: sum.splits option.splits order_generation_status.splits quantity_resolution_status.splits
      elim: run_broker_run_id)

section \<open>A concrete run\<close>

definition example_env :: loop_env where
  "example_env =
     \<lparr>le_sha = example_sha, le_as_bool = example_bool,
      le_dump_allocator = (\<lambda>d. PDict [(KStr ''decision_id'', PStr (al_decision_id d))]),
      le_dump_analysis = (\<lambda>d. PDict [(KStr ''decision_id'', PStr (an_decision_id d))]), le_fee = zero_fees\<rparr>"

definition example_loop_world :: loop_world where
  "example_loop_world = \<lparr>lw_store = [], lw_ledger = example_ledger\<rparr>"

definition example_loop_input :: paper_loop_input where
  "example_loop_input =
     \<lparr>pl_run_id = Given_id ''run-1'', pl_created_at = 0, pl_scout_summary_id = None,
      pl_allocator_decision = example_allocator, pl_analysis_decision = example_analysis Action_BUY 5,
      pl_risk_context = example_context, pl_market_price = example_quote, pl_broker_account_role = PAPER,
      pl_correlation_id = None, pl_metadata = PDict []\<rparr>"

definition example_sized :: order_intent where
  "example_sized =
     \<lparr>oi_order_id = ''order-analysis-1'', oi_correlation_id = ''analysis-1'', oi_symbol = ''005930'',
      oi_market = KR, oi_asset_class = KR_EQUITY, oi_account_role = PAPER, oi_side = BUY,
      oi_order_type = MARKET, oi_execution_mode = EM_NORMAL, oi_time_in_force = DAY,
      oi_quantity = Some 7, oi_target_weight_percent = None, oi_limit_price = None,
      oi_reason_code = Some ''steady'', oi_source_decision_id = Some ''analysis-1'', oi_created_at = 0\<rparr>"

lemma example_ledger_eq:
  "example_ledger = empty_ledger\<lparr>
     current_cash := [\<lparr>cr_currency = ''KRW'', cr_account_role = ''PAPER'', cr_amount = 1000000, cr_as_of = 0\<rparr>],
     paper_cash_ledger := [\<lparr>ce_id = 1, ce_order_id = None, ce_correlation_id = None, ce_currency = ''KRW'',
       ce_account_role = ''PAPER'', ce_delta_amount = 1000000, ce_balance_after = 1000000,
       ce_reason = ''INITIAL_CASH'', ce_created_at = 0\<rparr>]\<rparr>"
  by (simp add: example_ledger_def seed_initial_cash_def transaction_def example_cash_def empty_ledger_def
      get_cash_def restore_def apply_cash_change_def dadd_def upsert_cash_def append_cash_ledger_entry_def
      cash_to_row_def tbl_upsert_def cash_key_def)

definition example_fill :: fill where
  "example_fill =
     \<lparr>f_fill_id = ''order-analysis-1-fill'', f_order_id = ''order-analysis-1'', f_symbol = ''005930'', f_market = KR,
      f_side = BUY, f_quantity = 7, f_fill_price = 7000, f_commission = \<lparr>amount = 0, currency = KRW\<rparr>,
      f_tax = \<lparr>amount = 0, currency = KRW\<rparr>, f_slippage = Some \<lparr>amount = 0, currency = KRW\<rparr>, f_filled_at = 0\<rparr>"

definition example_position :: position where
  "example_position =
     \<lparr>pos_symbol = ''005930'', pos_market = KR, pos_asset_class = KR_EQUITY, pos_account_role = PAPER,
      pos_quantity = 7, pos_avg_cost = 7000, pos_currency = KRW, pos_market_price = Some 7000\<rparr>"

definition example_after :: ledger where
  "example_after = \<lparr>order_intents = [intent_to_row example_sized],
     order_results = [result_to_row (accepted_result example_sized FILLED 0)],
     fills = [fill_to_row example_fill],
     current_cash = [\<lparr>cr_currency = ''KRW'', cr_account_role = ''PAPER'', cr_amount = 951000, cr_as_of = 0\<rparr>],
     paper_cash_ledger = [\<lparr>ce_id = 1, ce_order_id = None, ce_correlation_id = None, ce_currency = ''KRW'',
       ce_account_role = ''PAPER'', ce_delta_amount = 1000000, ce_balance_after = 1000000,
       ce_reason = ''INITIAL_CASH'', ce_created_at = 0\<rparr>,
       \<lparr>ce_id = 2, ce_order_id = Some ''order-analysis-1'', ce_correlation_id = Some ''analysis-1'', ce_currency = ''KRW'',
       ce_account_role = ''PAPER'', ce_delta_amount = - 49000, ce_balance_after = 951000,
       ce_reason = ''BUY_FILL'', ce_created_at = 0\<rparr>],
     current_positions = [position_to_row example_position], nav_snapshots = []\<rparr>"

lemma example_normalised [simp]:
  "normalize_required_string ''order-analysis-1-fill'' = Inr ''order-analysis-1-fill''"
  "normalize_required_string ''order-analysis-1'' = Inr ''order-analysis-1''"
  "normalize_required_string ''005930'' = Inr ''005930''"
  by (simp_all add: normalize_required_string_def strip_def is_space_def)

lemma example_texts [simp]:
  "currency_of_str ''KRW'' = Inr KRW" "account_role_of_str ''PAPER'' = Inr PAPER" "market_of_str ''KR'' = Inr KR"
  "asset_class_of_str ''KR_EQUITY'' = Inr KR_EQUITY" "order_side_of_str ''BUY'' = Inr BUY"
  by (simp_all add: enum_of_str_def)

lemma example_submit:
  "submit_order zero_fees example_ledger example_sized example_quote =
     (example_after, Inr (accepted_result example_sized FILLED 0))"
  unfolding example_ledger_eq
  by (simp add: submit_order_def has_processed_order_def empty_ledger_def example_sized_def example_quote_def
      validate_intent_market_price_match_def evaluate_order_def zero_fees_def money_zero_def get_cash_def restore_def
      cash_key_def row_to_cash_snapshot_def mk_CashSnapshot_def dadd_def dmul_def decision_filled_def
      record_filled_order_def mk_Fill_def accepted_result_def mk_OrderResult_def validate_order_result_def
      transaction_def save_order_intent_def save_order_result_def save_fill_def references_intent_def tbl_insert_def
      apply_fill_def increase_position_def get_position_def mk_Position_def upsert_position_def update_cash_def
      apply_cash_change_def dneg_def upsert_cash_def append_cash_ledger_entry_def cash_to_row_def tbl_upsert_def
      example_after_def example_fill_def example_position_def intent_to_row_def result_to_row_def fill_to_row_def)

definition example_risk_input :: risk_filter_input where
  "example_risk_input = (example_input Action_BUY 5)\<lparr>ri_correlation_id := Some ''analysis-1''\<rparr>"

lemma example_loop_risk_input: "loop_risk_input example_loop_input = Inr example_risk_input"
  by (simp add: loop_risk_input_def loop_correlation_id_def mk_RiskFilterInput_def example_loop_input_def
      example_risk_input_def example_input_def example_analysis_def example_allocator_def normalize_optional_string_def
      normalize_required_string_def strip_def is_space_def)

lemma correlation_unused [simp]:
  "action_of (r\<lparr>ri_correlation_id := c\<rparr>) = action_of r"
  "buy_cost_needed (r\<lparr>ri_correlation_id := c\<rparr>) mv = buy_cost_needed r mv"
  "cash_target_allows (r\<lparr>ri_correlation_id := c\<rparr>) = cash_target_allows r"
  "tolerance_allows (r\<lparr>ri_correlation_id := c\<rparr>) = tolerance_allows r"
  "slippage_allows (r\<lparr>ri_correlation_id := c\<rparr>) = slippage_allows r"
  by (simp_all add: action_of_def buy_cost_needed_def target_value_def target_weight_of_def cash_target_allows_def
      tolerance_allows_def slippage_allows_def Let_def split: option.split)

lemma example_passes: "vr_passed (evaluate example_risk_input)"
  using example_buy_limits
  by (subst buy_verdict [OF _ _ refl]) (simp_all add: example_risk_input_def del: One_nat_def)

definition example_generated :: order_intent where
  "example_generated = example_sized\<lparr>oi_quantity := None, oi_target_weight_percent := Some 5\<rparr>"

lemma example_generate:
  "generate example_risk_input = Inr
     \<lparr>og_status = GENERATED, og_order_intent = Some example_generated,
      og_validation_result = evaluate example_risk_input, og_correlation_id = Some ''analysis-1''\<rparr>"
proof -
  have "\<not> has_blocking_errors (evaluate example_risk_input)"
    using example_passes by (simp add: blocking_iff)
  moreover have "action_of example_risk_input = Action_BUY"
    by (simp add: example_risk_input_def example_input_defs)
  moreover have "build_order_intent example_risk_input ''analysis-1'' = Inr example_generated"
    by (simp add: build_order_intent_def example_risk_input_def example_input_defs parse_market_def
        MARKET_STRING_MAP_def resolve_asset_routing_def mk_OrderIntent_def validate_order_intent_def
        example_generated_def example_sized_def normalize_required_string_def strip_def is_space_def)
  ultimately show ?thesis
    by (simp add: generate_def Let_def example_risk_input_def example_input_defs)
qed

lemma example_quantity: "floor_toward_zero (ddiv 50000 7000) = 7"
proof -
  have "7 \<le> ddiv 50000 7000" unfolding ddiv_def
    by (rule rnd_ge_representable) (use representable_of_int [of 7] in \<open>simp_all add: PREC_def\<close>)
  moreover have "ddiv 50000 7000 < 8"
    using rnd_error [of "50000 / 7000"] by (simp add: ddiv_def abs_if split: if_splits)
  ultimately have "\<lfloor>ddiv 50000 7000\<rfloor> = 7" by linarith
  then show ?thesis using \<open>7 \<le> ddiv 50000 7000\<close> by (simp add: floor_toward_zero_def)
qed

lemma example_resolve:
  "resolve example_generated example_context example_quote None = Inr
     \<lparr>qr_status = QR_RESOLVED, qr_order_intent = Some example_sized,
      qr_validation_result = append_issue base_validation_result
        (issue ''PAPER_LOOP_QUANTITY_RESOLVED'' ''Resolved executable quantity.'' INFO ''order_intent.quantity'')\<rparr>"
proof -
  have gap: "value_gap BUY (weight_value example_context 5) 0 = 50000"
    by (simp add: value_gap_def weight_value_def example_context_def dec_defs)
  have "valid_intent example_generated"
    by (simp add: valid_intent_def example_generated_def example_sized_def normalised_def strip_def is_space_def)
  from resolve_eq [OF this, of 5 example_context example_quote None 0] show ?thesis
    by (simp add: example_generated_def example_sized_def example_quote_def example_context_def
        resolve_current_value_def gap [unfolded example_context_def] example_quantity)
qed

lemma example_no_position: "current_position_quantity example_ledger example_loop_input = Inr None"
  by (simp add: current_position_quantity_def example_ledger_eq empty_ledger_def get_position_def restore_def
      analysis_market_def example_loop_input_def example_analysis_def upper_char_def)

lemma example_fill_back: "get_fill_by_order_id example_after ''order-analysis-1'' = Inr (Some example_fill)"
proof -
  have "valid_fill example_fill"
    by (simp add: valid_fill_def example_fill_def normalised_def strip_def is_space_def)
  then show ?thesis
    by (simp add: get_fill_by_order_id_def restore_def example_after_def row_to_fill_to_row)
      (simp add: fill_to_row_def example_fill_def)
qed

definition example_nav :: nav_snapshot where
  "example_nav =
     \<lparr>nav_snapshot_id = ''nav-order-analysis-1'', nav_as_of = 0, nav_total_nav_krw = 1000000, nav_cash_krw = 951000,
      nav_invested_krw = 49000, nav_daily_return_percent = None, nav_mdd_percent = None\<rparr>"

lemma example_nav_saved:
  "compute_and_save_nav_snapshot example_after example_loop_input ''order-analysis-1'' =
     (example_after\<lparr>nav_snapshots := [example_nav]\<rparr>, Inr example_nav)"
  by (simp add: compute_and_save_nav_snapshot_def example_loop_input_def example_quote_def broker_get_cash_def
      get_cash_def restore_def example_after_def cash_key_def row_to_cash_snapshot_def mk_CashSnapshot_def
      list_positions_def position_to_row_def example_position_def row_to_position_def mk_Position_def
      dadd_def dmul_def dsub_def dabs_def mk_NavSnapshot_def normalize_required_string_def strip_def is_space_def
      NAV_TOTAL_TOLERANCE_KRW_def transaction_def save_nav_snapshot_def tbl_insert_def example_nav_def)

lemma save_fresh:
  assumes "create_snapshot sha d t schema raw vr ids meta = Inr s" "\<not> stored st d"
  shows "\<exists>row. save_decision_snapshot st s = Inr (st @ [row]) \<and> dr_decision_id row = d"
  using created_row [OF assms(1)] create_id [OF assms(1)] assms(2) snapshot_row_id [of s]
  by (auto simp: save_Inr_iff stored_def)

lemma finalize_saves:
  assumes "normalized_run_id x = Inr rid" "\<not> stored (lw_store w) rid" "hex_digest (le_sha env)"
    and "loop_validation r = Inr v" "list_all normalised (loop_order_intent_ids r)"
  shows "\<exists>row. finalize_loop_result env w x cid ids r =
    (w\<lparr>lw_store := lw_store w @ [row]\<rparr>, Inr (r\<lparr>plr_decision_snapshot_ids := ids @ [rid]\<rparr>))"
proof -
  let ?meta = "PDict [(KStr ''correlation_id'', optional_payload (plr_correlation_id r)),
    (KStr ''risk_passed'', PBool (vr_passed (plr_risk_result r))),
    (KStr ''order_generation_status'', PStr (order_generation_status_str (og_status (plr_order_generation_result r))))]"
  have "dict_payload ?meta" by (simp add: dict_payload_def is_dict_def)
  moreover have "normalised PAPER_LOOP_SCHEMA" by (simp add: PAPER_LOOP_SCHEMA_def normalised_def strip_def is_space_def)
  ultimately have "\<exists>s. create_snapshot (le_sha env) rid (pl_created_at x) PAPER_LOOP_SCHEMA (loop_raw_payload rid x r) v
      (loop_order_intent_ids r) (Some ?meta) = Inr s"
    using assms by (intro create_succeeds loop_raw_dict) auto
  then obtain s where s: "create_snapshot (le_sha env) rid (pl_created_at x) PAPER_LOOP_SCHEMA
      (loop_raw_payload rid x r) v (loop_order_intent_ids r) (Some ?meta) = Inr s" by blast
  then have "build_paper_loop_snapshot (le_sha env) x r = Inr s"
    using assms(1,4) by (simp add: build_paper_loop_snapshot_def)
  then show ?thesis
    using save_fresh [OF s assms(2)] assms(1)
    by (auto simp: finalize_loop_result_def save_paper_loop_snapshot_def store_transaction_def lift_exn_def)
qed

lemma save_input_saves:
  assumes "dict_payload (le_dump_allocator env (pl_allocator_decision x))"
    and "dict_payload (le_dump_analysis env (pl_analysis_decision x))" "hex_digest (le_sha env)"
    and "\<not> stored st (allocator_id x)" "\<not> stored st (analysis_id x)" "allocator_id x \<noteq> analysis_id x"
  shows "\<exists>ra rn. save_input_decision_snapshots env st x = (st @ [ra, rn], Inr [allocator_id x, analysis_id x]) \<and>
    dr_decision_id ra = allocator_id x \<and> dr_decision_id rn = analysis_id x"
proof -
  have "normalised ALLOCATOR_DECISION_SCHEMA" "normalised ANALYSIS_DECISION_SCHEMA"
    by (simp_all add: ALLOCATOR_DECISION_SCHEMA_def ANALYSIS_DECISION_SCHEMA_def normalised_def strip_def is_space_def)
  then obtain s1 s2 where
    s: "create_snapshot (le_sha env) (allocator_id x) (al_created_at (pl_allocator_decision x)) ALLOCATOR_DECISION_SCHEMA
      (le_dump_allocator env (pl_allocator_decision x))
      (passed_validation_result ALLOCATOR_DECISION_SCHEMA ALLOCATOR_VALIDATOR_VERSION) [] None = Inr s1"
    "create_snapshot (le_sha env) (analysis_id x) (an_created_at (pl_analysis_decision x)) ANALYSIS_DECISION_SCHEMA
      (le_dump_analysis env (pl_analysis_decision x))
      (passed_validation_result ANALYSIS_DECISION_SCHEMA ANALYSIS_VALIDATOR_VERSION) [] None = Inr s2"
    using create_succeeds [OF assms(1) _ _ _ assms(3), of ALLOCATOR_DECISION_SCHEMA "[]" None]
      create_succeeds [OF assms(2) _ _ _ assms(3), of ANALYSIS_DECISION_SCHEMA "[]" None]
    by (metis list.pred_inject(1) option.distinct(1))
  obtain ra where ra: "save_decision_snapshot st s1 = Inr (st @ [ra])" "dr_decision_id ra = allocator_id x"
    using save_fresh [OF s(1) assms(4)] by blast
  then have "\<not> stored (st @ [ra]) (analysis_id x)" using assms(5,6) by simp
  from save_fresh [OF s(2) this] obtain rn where
    "save_decision_snapshot (st @ [ra]) s2 = Inr (st @ [ra, rn])" "dr_decision_id rn = analysis_id x" by auto
  then show ?thesis using s ra by (auto simp: save_input_decision_snapshots_def Let_def store_transaction_def)
qed

definition example_generation :: order_generation_result where
  "example_generation =
     \<lparr>og_status = GENERATED, og_order_intent = Some example_generated,
      og_validation_result = evaluate example_risk_input, og_correlation_id = Some ''analysis-1''\<rparr>"

definition example_sizing :: quantity_resolution_result where
  "example_sizing =
     \<lparr>qr_status = QR_RESOLVED, qr_order_intent = Some example_sized,
      qr_validation_result = append_issue base_validation_result
        (issue ''PAPER_LOOP_QUANTITY_RESOLVED'' ''Resolved executable quantity.'' INFO ''order_intent.quantity'')\<rparr>"

definition example_report :: paper_loop_result where
  "example_report =
     broker_report example_generation example_sizing example_sized (accepted_result example_sized FILLED 0)
       (Some example_fill) (Some example_nav) ''analysis-1'' [''alloc-1'', ''analysis-1'']"

lemma example_ids:
  "allocator_id example_loop_input = ''alloc-1''" "analysis_id example_loop_input = ''analysis-1''"
  "normalized_run_id example_loop_input = Inr ''run-1''" "loop_correlation_id example_loop_input = ''analysis-1''"
  "pl_market_price example_loop_input = example_quote" "pl_risk_context example_loop_input = example_context"
  by (simp_all add: example_loop_input_def example_allocator_def example_analysis_def normalized_run_id_def
      normalize_decision_id_lookup_def loop_correlation_id_def)

lemma example_decision:
  "run_decision example_env \<lparr>lw_store = st, lw_ledger = example_ledger\<rparr> example_loop_input example_risk_input
     ''analysis-1'' [''alloc-1'', ''analysis-1''] =
   finalize_loop_result example_env \<lparr>lw_store = st, lw_ledger = example_after\<lparr>nav_snapshots := [example_nav]\<rparr>\<rparr>
     example_loop_input ''analysis-1'' [''alloc-1'', ''analysis-1''] example_report"
proof -
  have "run_decision example_env \<lparr>lw_store = st, lw_ledger = example_ledger\<rparr> example_loop_input example_risk_input
      ''analysis-1'' [''alloc-1'', ''analysis-1''] =
    run_broker example_env \<lparr>lw_store = st, lw_ledger = example_ledger\<rparr> example_loop_input ''analysis-1''
      [''alloc-1'', ''analysis-1''] example_generation example_sizing example_sized"
    by (simp add: run_decision_def example_generate example_no_position example_resolve example_ids
        example_generation_def example_sizing_def)
  also have "\<dots> = finalize_loop_result example_env
      \<lparr>lw_store = st, lw_ledger = example_after\<lparr>nav_snapshots := [example_nav]\<rparr>\<rparr>
      example_loop_input ''analysis-1'' [''alloc-1'', ''analysis-1''] example_report"
  proof -
    have "or_order_id (accepted_result example_sized FILLED 0) = ''order-analysis-1''" by (simp add: example_sized_def)
    then show ?thesis
      by (simp add: run_broker_def example_env_def example_submit example_ids example_fill_back example_nav_saved
          example_report_def)
  qed
  finally show ?thesis .
qed

lemma example_report_ok:
  "\<exists>v. loop_validation example_report = Inr v" "list_all normalised (loop_order_intent_ids example_report)"
  "plr_status example_report = PL_FILLED"
  by (simp_all add: example_report_def example_sizing_def example_generation_def loop_validation_def broker_report_def
      mk_ValidationResult_def append_issue_def base_validation_result_def has_error_issue_def issue_def
      loop_order_intent_ids_def example_generated_def example_sized_def normalised_def strip_def is_space_def)

lemma example_loop_run:
  "\<exists>w' res. run example_env example_loop_world example_loop_input = (w', Inr res) \<and> plr_status res = PL_FILLED \<and>
     lw_ledger w' = example_after\<lparr>nav_snapshots := [example_nav]\<rparr>"
proof -
  obtain ra rn where saved: "dr_decision_id ra = ''alloc-1''" "dr_decision_id rn = ''analysis-1''"
    "save_input_decision_snapshots example_env [] example_loop_input = ([ra, rn], Inr [''alloc-1'', ''analysis-1''])"
    using save_input_saves [of example_env example_loop_input "[]"] example_sha_hex
    by (auto simp: example_env_def dict_payload_def is_dict_def example_ids)
  let ?w = "\<lparr>lw_store = [ra, rn], lw_ledger = example_after\<lparr>nav_snapshots := [example_nav]\<rparr>\<rparr>"
  obtain row where fin: "finalize_loop_result example_env ?w example_loop_input ''analysis-1''
      [''alloc-1'', ''analysis-1''] example_report = (?w\<lparr>lw_store := lw_store ?w @ [row]\<rparr>,
      Inr (example_report\<lparr>plr_decision_snapshot_ids := [''alloc-1'', ''analysis-1''] @ [''run-1'']\<rparr>))"
    using finalize_saves [OF example_ids(3) _ _ _ example_report_ok(2), of ?w example_env _ "''analysis-1''"
        "[''alloc-1'', ''analysis-1'']"] example_report_ok(1) saved example_sha_hex
    by (auto simp: example_env_def)
  have "run example_env example_loop_world example_loop_input =
      run_decision example_env \<lparr>lw_store = [ra, rn], lw_ledger = example_ledger\<rparr> example_loop_input example_risk_input
        ''analysis-1'' [''alloc-1'', ''analysis-1'']"
    using saved(3) by (simp add: run_def example_loop_world_def get_decision_snapshot_def
        normalize_decision_id_lookup_def example_loop_risk_input example_ids)
  then show ?thesis using fin example_report_ok(3) by (simp add: example_decision)
qed

section \<open>Properties of the paper loop\<close>

text \<open>
  C9. Duplicate runs are inert. In any sequence of runs from any stored state, once a run has
  changed anything its allocator and analysis decision ids are taken, and once a run has
  reported a result its run id is taken; a later run that brings a taken id, as a decision or as
  its run id, changes neither the decision store nor the ledger, and its result, if it returns
  one, is VALIDATION_FAILED. So one analysis decision reaches the broker at most once.
\<close>

theorem decisions_run_once:
  assumes "i < j" and "j < length xs"
    and "run_all env w xs ! j = (y, u, u', q)"
    and "ids_left (run_all env w xs ! i) \<inter> ids_needed y \<noteq> {}"
  shows "u' = u \<and> (\<forall>res. q = Inr res \<longrightarrow> plr_status res = PL_VALIDATION_FAILED)"
proof -
  obtain x v v' r where i: "run_all env w xs ! i = (x, v, v', r)" by (metis prod_cases4)
  obtain k where k: "k \<in> ids_left (x, v, v', r)" "k \<in> ids_needed y" using assms(4) i by auto
  have "stored (lw_store u) k" using run_all_later [OF assms(1,2) i k(1) assms(3)] .
  moreover have "run env u y = (u', q)" using run_all_run [OF assms(2,3)] by blast
  ultimately show ?thesis using run_needs_fresh [OF _ k(2)] by (auto simp: reported_def)
qed

theorem decisions_run_once_witness:
  "\<exists>w1 r1 w2 r2. run_all example_env example_loop_world [example_loop_input, with_run_id (Given_id ''run-2'') example_loop_input] =
     [(example_loop_input, example_loop_world, w1, r1), (with_run_id (Given_id ''run-2'') example_loop_input, w1, w2, r2)] \<and>
     lw_ledger w1 \<noteq> lw_ledger example_loop_world \<and> w2 = w1 \<and> (\<forall>res. r2 = Inr res \<longrightarrow> plr_status res = PL_VALIDATION_FAILED)"
proof -
  let ?x = example_loop_input and ?y = "with_run_id (Given_id ''run-2'') example_loop_input"
  obtain w1 res where r: "run example_env example_loop_world ?x = (w1, Inr res)"
    "lw_ledger w1 = example_after\<lparr>nav_snapshots := [example_nav]\<rparr>" using example_loop_run by blast
  obtain w2 r2 where s: "run example_env w1 ?y = (w2, r2)" by fastforce
  have all: "run_all example_env example_loop_world [?x, ?y] = [(?x, example_loop_world, w1, Inr res), (?y, w1, w2, r2)]"
    using r(1) s by simp
  have moved: "lw_ledger w1 \<noteq> lw_ledger example_loop_world"
    using r(2) by (simp add: example_loop_world_def example_ledger_eq empty_ledger_def example_after_def)
  then have "analysis_id ?x \<in> ids_left (?x, example_loop_world, w1, Inr res) \<inter> ids_needed ?y"
    by (auto simp: ids_left_def ids_needed_def)
  then have "w2 = w1 \<and> (\<forall>res. r2 = Inr res \<longrightarrow> plr_status res = PL_VALIDATION_FAILED)"
    using all by (intro decisions_run_once [of 0 1 "[?x, ?y]" example_env example_loop_world ?y]) auto
  then show ?thesis using all moved by blast
qed



text \<open>
  C38. Nothing in the input model keeps the run id apart from the decision ids. When the run id is
  the analysis decision's id and the same input under a fresh run id reports a result, FILLED
  for instance, this run moves the ledger in the same way but answers VALIDATION_FAILED: the
  last snapshot collides with the analysis snapshot that the run itself stored.
\<close>

theorem reused_id_hides_outcome:
  assumes "run env w x = (w1, Inr res)" and "plr_status res \<noteq> PL_VALIDATION_FAILED"
    and "hex_digest (le_sha env)"
  shows "\<exists>w2 res2. run env w (x\<lparr>pl_run_id := Given_id (analysis_id x)\<rparr>) = (w2, Inr res2) \<and>
    plr_status res2 = PL_VALIDATION_FAILED \<and> lw_ledger w2 = lw_ledger w1"
proof (cases rule: run_cases [OF assms(1)])
  case 1
  then show ?thesis using assms(2) by simp
next
  case (2 rid ri ra rn)
  let ?w = "w\<lparr>lw_store := lw_store w @ [ra, rn]\<rparr>" and ?y = "with_run_id (Given_id (analysis_id x)) x"
  let ?ids = "[allocator_id x, analysis_id x]" and ?cid = "loop_correlation_id x"
  obtain w2 r0 where f: "finalize_loop_result env w2 x ?cid ?ids r0 = (w1, Inr res)" "lw_store w2 = lw_store ?w"
    "run_decision env ?w ?y ri ?cid ?ids = finalize_loop_result env w2 ?y ?cid ?ids r0"
    by (rule run_decision_run_id [OF 2(9)]) blast
  have "stored (lw_store w2) (analysis_id x)" using f(2) 2(5) by simp
  then obtain m where dup: "finalize_loop_result env w2 ?y ?cid ?ids r0 =
      (w2, Inr (validation_failed_result ?cid m PAPER_LOOP_DUPLICATE_SNAPSHOT ?ids))"
    using finalize_duplicate [OF f(1) assms(2) _ assms(3)] by blast
  have "run env w ?y = run_decision env ?w ?y ri ?cid ?ids"
    using 2 by (simp add: run_def normalized_run_id_def normalize_decision_id_lookup_def get_decision_snapshot_def stored_def)
  moreover have "lw_ledger w1 = lw_ledger w2" using finalize_ledger [of env w2 x ?cid ?ids r0] f(1) by simp
  ultimately show ?thesis using f(3) dup by simp
qed

theorem reused_id_hides_outcome_witness:
  "\<exists>w2 res2. run example_env example_loop_world (example_loop_input\<lparr>pl_run_id := Given_id ''analysis-1''\<rparr>) = (w2, Inr res2) \<and>
     plr_status res2 = PL_VALIDATION_FAILED \<and>
     get_fill_by_order_id (lw_ledger w2) ''order-analysis-1'' = Inr (Some example_fill)"
proof -
  obtain w1 res where r: "run example_env example_loop_world example_loop_input = (w1, Inr res)" "plr_status res = PL_FILLED"
    "lw_ledger w1 = example_after\<lparr>nav_snapshots := [example_nav]\<rparr>" using example_loop_run by blast
  have "get_fill_by_order_id (lw_ledger w1) ''order-analysis-1'' = Inr (Some example_fill)"
    using example_fill_back r(3) by (simp add: get_fill_by_order_id_def)
  moreover have "hex_digest (le_sha example_env)" using example_sha_hex by (simp add: example_env_def)
  ultimately show ?thesis
    using reused_id_hides_outcome [OF r(1)] r(2) by (auto simp: example_ids)
qed

end
